(* ===== verification/HFT_Prelude.thy ===== *)
theory HFT_Prelude
  imports
    Main
    "HOL-Library.Word"
    "HOL-Library.Signed_Division"
    "HOL-Library.Multiset"
begin

text \<open>
  Shared vocabulary of the development.

  \<^item> Machine integers. The code computes prices, quantities and money in \<^verbatim>\<open>int64_t\<close>. They are modelled
    by \<^typ>\<open>int\<close>, and every arithmetic result the code stores back into an \<^verbatim>\<open>int64_t\<close> is narrowed with
    \<open>i64\<close>, the two's complement value of the low 64 bits. Properties either hold modulo
    \<open>2 ^ 64\<close> or carry an explicit \<open>in_i64\<close> range hypothesis. \<^verbatim>\<open>uint64_t\<close> values (ids, timestamps, ticks,
    bitmaps, queue counters) are \<^typ>\<open>64 word\<close>.
  \<^item> C++ integer division truncates towards zero: \<open>sdiv\<close> of HOL-Library.Signed_Division; where
    the divisor is not guarded by the code, \<open>cdiv\<close> makes a division by zero the value \<^term>\<open>None\<close>.
  \<^item> Early-exit loops: \<open>run_until\<close> runs a body over the list of loop indices until it asks to stop.
\<close>

unbundle bit_operations_syntax

named_theorems i64_arith "narrowing of int64 results"
named_theorems idx_simps "shift and mask index arithmetic"
named_theorems inv_intros "introduction rules of the component invariants"

type_synonym u64 = "64 word"
type_synonym u32 = "32 word"
type_synonym int64 = int

subsection \<open>Two's complement narrowing\<close>

definition i64 :: "int \<Rightarrow> int64" where
  "i64 x = signed_take_bit 63 x"

definition in_i64 :: "int \<Rightarrow> bool" where
  "in_i64 x \<longleftrightarrow> - (2 ^ 63) \<le> x \<and> x < 2 ^ 63"

definition i32 :: "int \<Rightarrow> int" where
  "i32 x = signed_take_bit 31 x"

definition cdiv :: "int \<Rightarrow> int \<Rightarrow> int64 option" where
  "cdiv a b = (if b = 0 then None else Some (i64 (a sdiv b)))"

subsection \<open>Loops with an early exit\<close>

fun run_until :: "('a \<Rightarrow> 's \<Rightarrow> 's \<times> bool) \<Rightarrow> 'a list \<Rightarrow> 's \<Rightarrow> 's \<times> bool" where
  "run_until f [] s = (s, False)"
| "run_until f (x # xs) s = (case f x s of (s', stop) \<Rightarrow> if stop then (s', True) else run_until f xs s')"

fun first_some :: "('a \<Rightarrow> 'b option) \<Rightarrow> 'a list \<Rightarrow> 'b option" where
  "first_some f [] = None"
| "first_some f (x # xs) = (case f x of Some y \<Rightarrow> Some y | None \<Rightarrow> first_some f xs)"

subsection \<open>Lemmas: narrowing\<close>

lemma i64_id [simp]: "in_i64 x \<Longrightarrow> i64 x = x"
  by (simp add: i64_def in_i64_def signed_take_bit_int_eq_self_iff)

lemma in_i64_i64 [simp]: "in_i64 (i64 x)"
  unfolding i64_def in_i64_def
  using signed_take_bit_int_less_exp signed_take_bit_int_greater_eq_minus_exp by blast

lemma i64_cong_iff: "i64 x = i64 y \<longleftrightarrow> x mod 2 ^ 64 = y mod 2 ^ 64"
  by (simp add: i64_def signed_take_bit_eq_iff_take_bit_eq take_bit_eq_mod)

lemma i64_mod: "i64 x mod 2 ^ 64 = x mod 2 ^ 64"
proof -
  have "i64 (i64 x) = i64 x" by simp
  then show ?thesis unfolding i64_cong_iff .
qed

lemma i64_add_left [i64_arith]: "i64 (i64 a + b) = i64 (a + b)"
  unfolding i64_cong_iff by (metis i64_mod mod_add_left_eq)

lemma i64_add_right [i64_arith]: "i64 (a + i64 b) = i64 (a + b)"
  using i64_add_left [of b a] by (simp add: add.commute)

lemma i64_diff_left [i64_arith]: "i64 (i64 a - b) = i64 (a - b)"
  unfolding i64_cong_iff by (metis i64_mod mod_diff_left_eq)

lemma i64_diff_right [i64_arith]: "i64 (a - i64 b) = i64 (a - b)"
  unfolding i64_cong_iff by (metis i64_mod mod_diff_right_eq)

lemma i64_mult_left [i64_arith]: "i64 (i64 a * b) = i64 (a * b)"
  unfolding i64_cong_iff by (metis i64_mod mod_mult_left_eq)

lemma i64_mult_right [i64_arith]: "i64 (a * i64 b) = i64 (a * b)"
  using i64_mult_left [of b a] by (simp add: mult.commute)

lemma i64_add_mult_right [i64_arith]: "i64 (a + v * i64 b) = i64 (a + v * b)"
  by (metis i64_add_right i64_mult_right)

lemma i64_diff_mult_right [i64_arith]: "i64 (a - v * i64 b) = i64 (a - v * b)"
  by (metis i64_diff_right i64_mult_right)

lemma i64_0 [simp]: "i64 0 = 0"
  by (simp add: i64_def)

subsection \<open>Lemmas: truncating division\<close>

lemma sdiv_nonneg: "0 \<le> a \<Longrightarrow> 0 \<le> b \<Longrightarrow> a sdiv b = a div (b::int)"
  by (cases "a = 0"; cases "b = 0") (simp_all add: signed_divide_int_def)

lemma cdiv_nonneg:
  assumes "0 \<le> a" "0 < b" "a < 2 ^ 63"
  shows "cdiv a b = Some (a div b)"
proof -
  have "a div b \<le> a" "0 \<le> a div b"
    using assms zdiv_mono2 [of a 1 b] by (simp_all add: pos_imp_zdiv_nonneg_iff)
  then have "in_i64 (a div b)" using assms by (simp add: in_i64_def)
  then show ?thesis using assms by (simp add: cdiv_def sdiv_nonneg)
qed

subsection \<open>Lemmas: shifts and masks as index arithmetic\<close>

lemma nat_and_mask: "(n::nat) AND (2 ^ k - 1) = n mod 2 ^ k"
  by (metis take_bit_eq_mask mask_eq_exp_minus_1 take_bit_eq_mod)

lemma nat_and_63 [idx_simps]: "(n::nat) AND 63 = n mod 64"
  using nat_and_mask [of n 6] by simp

lemma nat_and_4095 [idx_simps]: "(n::nat) AND 4095 = n mod 4096"
  using nat_and_mask [of n 12] by simp

lemma nat_shift_6 [idx_simps]: "drop_bit 6 (n::nat) = n div 64"
  by (simp add: drop_bit_eq_div)

lemma nat_shift_12 [idx_simps]: "drop_bit 12 (n::nat) = n div 4096"
  by (simp add: drop_bit_eq_div)

lemma nat_push_6 [idx_simps]: "push_bit 6 (n::nat) = n * 64"
  by (simp add: push_bit_eq_mult)

lemma nat_push_12 [idx_simps]: "push_bit 12 (n::nat) = n * 4096"
  by (simp add: push_bit_eq_mult)

lemma nat_or_low [idx_simps]:
  assumes "b < 64"
  shows "(n * 64) OR b = n * 64 + (b::nat)"
proof -
  have "(n * 64) AND b = 0"
  proof -
    have "b = b AND 63" using assms by (simp add: nat_and_63)
    then have "(n * 64) AND b = ((n * 64) AND 63) AND b" by (metis and.assoc and.commute)
    then show ?thesis by (simp add: nat_and_63)
  qed
  then show ?thesis using disjunctive_add [of "n * 64" b]
    by (metis bit_and_iff bit_0_eq bot_apply bot_bool_def)
qed

lemma unat_of_nat64: "n < 2 ^ 64 \<Longrightarrow> unat (of_nat n :: u64) = n"
  by (simp add: unat_of_nat)

lemma unat64_less: "unat (w::u64) < 2 ^ 64"
  by (rule order_less_le_trans [OF unsigned_less]) simp

lemma unat_pow2: "k < 64 \<Longrightarrow> unat ((2::u64) ^ k) = 2 ^ k"
proof -
  assume k: "k < 64"
  have "unat (of_nat (2 ^ k) :: u64) = 2 ^ k"
    using k by (intro unat_of_nat64 power_strict_increasing) simp_all
  then show ?thesis by simp
qed

subsection \<open>Lemmas: early-exit loops\<close>

lemma run_until_append:
  "run_until f (xs @ ys) s =
     (case run_until f xs s of (s', stop) \<Rightarrow> if stop then (s', True) else run_until f ys s')"
  by (induction xs arbitrary: s) (auto split: prod.splits)

lemma run_until_map: "run_until f (map g xs) s = run_until (\<lambda>x. f (g x)) xs s"
  by (induction xs arbitrary: s) (auto split: prod.splits)

lemma run_until_cong:
  "(\<And>x s. x \<in> set xs \<Longrightarrow> f x s = g x s) \<Longrightarrow> run_until f xs s = run_until g xs s"
  by (induction xs arbitrary: s) (auto split: prod.splits)

lemma first_some_append:
  "first_some f (xs @ ys) = (case first_some f xs of Some y \<Rightarrow> Some y | None \<Rightarrow> first_some f ys)"
  by (induction xs) (auto split: option.splits)

lemma first_some_None_iff: "first_some f xs = None \<longleftrightarrow> (\<forall>x\<in>set xs. f x = None)"
  by (induction xs) (auto split: option.splits)

lemma first_some_SomeE:
  assumes "first_some f xs = Some y"
  obtains ys x zs where "xs = ys @ x # zs" "f x = Some y" "\<forall>z\<in>set ys. f z = None"
proof -
  have "\<exists>ys x zs. xs = ys @ x # zs \<and> f x = Some y \<and> (\<forall>z\<in>set ys. f z = None)" using assms
  proof (induction xs)
    case (Cons a xs)
    show ?case
    proof (cases "f a")
      case None
      with Cons obtain ys x zs where "xs = ys @ x # zs \<and> f x = Some y \<and> (\<forall>z\<in>set ys. f z = None)"
        by auto
      with None have "a # xs = (a # ys) @ x # zs \<and> f x = Some y \<and> (\<forall>z\<in>set (a # ys). f z = None)"
        by simp
      then show ?thesis by blast
    next
      case (Some b)
      with Cons.prems have "a # xs = [] @ a # xs \<and> f a = Some y \<and> (\<forall>z\<in>set []. f z = None)" by simp
      then show ?thesis by blast
    qed
  qed simp
  then show thesis using that by blast
qed

end
