(* ===== verification/Bit_Scan.thy ===== *)
theory Bit_Scan
  imports HFT_Prelude
begin

text \<open>
  Bit scanning on 64-bit words: the two counting instructions the order book, the queues and the
  decoders use (\<^verbatim>\<open>std::countl_zero\<close>, \<^verbatim>\<open>std::countr_zero\<close>), and the facts about clearing the
  lowest or highest set bit that make the scanning loops of \<^verbatim>\<open>order_book.hpp\<close> correct and terminating.
\<close>

definition countr_zero :: "u64 \<Rightarrow> nat" where
  "countr_zero w = length (takeWhile (\<lambda>i. \<not> bit w i) [0..<64])"

definition countl_zero :: "u64 \<Rightarrow> nat" where
  "countl_zero w = length (takeWhile (\<lambda>i. \<not> bit w i) (rev [0..<64]))"

definition bits_asc :: "u64 \<Rightarrow> nat list" where
  "bits_asc w = filter (bit w) [0..<64]"

definition bits_desc :: "u64 \<Rightarrow> nat list" where
  "bits_desc w = rev (bits_asc w)"

subsection \<open>Set bits of a word\<close>

lemma word64_bit_lt: "bit (w::u64) i \<Longrightarrow> i < 64"
  using bit_imp_le_length by fastforce

lemma word64_nonzero_bit: "(w::u64) \<noteq> 0 \<longleftrightarrow> (\<exists>i<64. bit w i)"
  by (metis bit_0_eq bot_apply bot_bool_def bit_eqI word64_bit_lt)

lemma word64_eqI: "(\<And>i. i < 64 \<Longrightarrow> bit (v::u64) i = bit w i) \<Longrightarrow> v = w"
  by (rule bit_eqI) (metis word64_bit_lt)

lemma upt_split: "k < n \<Longrightarrow> [0..<n] = [0..<k] @ k # [Suc k..<n]"
  using upt_add_eq_append [of 0 k "n - k"] by (simp add: upt_conv_Cons)

lemma takeWhile_upt_length:
  assumes "P k" "k < n" "\<forall>j<k. \<not> P j"
  shows "length (takeWhile (\<lambda>i. \<not> P i) [0..<n]) = k"
proof -
  have "[0..<n] = [0..<k] @ k # [Suc k..<n]"
    using assms(2) by (rule upt_split)
  moreover have "takeWhile (\<lambda>i. \<not> P i) ([0..<k] @ k # [Suc k..<n]) = [0..<k]"
    using assms by (subst takeWhile_append2) auto
  ultimately show ?thesis by simp
qed

lemma takeWhile_rev_upt_length:
  assumes "P k" "k < n" "\<forall>j. k < j \<and> j < n \<longrightarrow> \<not> P j"
  shows "length (takeWhile (\<lambda>i. \<not> P i) (rev [0..<n])) = n - 1 - k"
proof -
  have "[0..<n] = [0..<k] @ k # [Suc k..<n]"
    using assms(2) by (rule upt_split)
  then have "rev [0..<n] = rev [Suc k..<n] @ k # rev [0..<k]" by simp
  moreover have "takeWhile (\<lambda>i. \<not> P i) (rev [Suc k..<n] @ k # rev [0..<k]) = rev [Suc k..<n]"
    using assms by (subst takeWhile_append2) auto
  ultimately show ?thesis using assms by simp
qed

lemma countr_zero_eqI: "bit w k \<Longrightarrow> \<forall>j<k. \<not> bit w j \<Longrightarrow> countr_zero w = k"
  unfolding countr_zero_def by (rule takeWhile_upt_length) (auto dest: word64_bit_lt)

lemma countl_zero_eqI: "bit w k \<Longrightarrow> \<forall>j. k < j \<and> j < 64 \<longrightarrow> \<not> bit w j \<Longrightarrow> countl_zero w = 63 - k"
  unfolding countl_zero_def using takeWhile_rev_upt_length [of "bit w" k 64]
  by (auto dest: word64_bit_lt)

lemma countr_zero_props:
  assumes "w \<noteq> 0"
  shows "bit w (countr_zero w)" "countr_zero w < 64" "j < countr_zero w \<Longrightarrow> \<not> bit w j"
proof -
  from assms obtain i where i: "bit w i" by (auto simp: word64_nonzero_bit)
  define k where "k = (LEAST i. bit w i)"
  have k: "bit w k" unfolding k_def using i by (rule LeastI)
  have least: "\<forall>j<k. \<not> bit w j" unfolding k_def using not_less_Least by blast
  have "countr_zero w = k" using k least by (rule countr_zero_eqI)
  then show "bit w (countr_zero w)" "countr_zero w < 64" "j < countr_zero w \<Longrightarrow> \<not> bit w j"
    using k least by (auto dest: word64_bit_lt)
qed

lemma countl_zero_props:
  assumes "w \<noteq> 0"
  shows "bit w (63 - countl_zero w)" "63 - countl_zero w < 64" "countl_zero w < 64"
    "63 - countl_zero w < j \<Longrightarrow> \<not> bit w j"
proof -
  from assms obtain i where i: "bit w i" by (auto simp: word64_nonzero_bit)
  have fin: "finite {i. bit w i}" by (rule finite_subset [of _ "{..<64}"]) (auto dest: word64_bit_lt)
  define k where "k = Max {i. bit w i}"
  have k: "bit w k" unfolding k_def using Max_in [OF fin] i by blast
  have k64: "k < 64" using k by (rule word64_bit_lt)
  have greatest: "\<And>j. k < j \<Longrightarrow> \<not> bit w j"
    unfolding k_def using Max_ge [OF fin] by (auto simp: not_less[symmetric])
  have "countl_zero w = 63 - k" using k greatest by (intro countl_zero_eqI) auto
  then show "bit w (63 - countl_zero w)" "63 - countl_zero w < 64" "countl_zero w < 64"
    "63 - countl_zero w < j \<Longrightarrow> \<not> bit w j"
    using k k64 greatest by auto
qed

subsection \<open>Clearing the extreme bits\<close>

abbreviation clear_bit :: "u64 \<Rightarrow> nat \<Rightarrow> u64" where
  "clear_bit w i \<equiv> w AND NOT (push_bit i 1)"

abbreviation put_bit :: "u64 \<Rightarrow> nat \<Rightarrow> u64" where
  "put_bit w i \<equiv> w OR push_bit i 1"

lemma bit_push_one: "i < 64 \<Longrightarrow> bit (push_bit i 1 :: u64) j \<longleftrightarrow> i = j"
  by (auto simp: bit_exp_iff)

lemma bit_two_pow: "i < 64 \<Longrightarrow> bit ((2::u64) ^ i) j \<longleftrightarrow> i = j"
  by (auto simp: bit_exp_iff)

lemma bit_clear_bit: "i < 64 \<Longrightarrow> bit (clear_bit w i) j \<longleftrightarrow> bit w j \<and> i \<noteq> j"
  by (auto simp: bit_and_iff bit_not_iff bit_two_pow dest: word64_bit_lt)

lemma bit_put_bit: "i < 64 \<Longrightarrow> bit (put_bit w i) j \<longleftrightarrow> bit w j \<or> i = j"
  by (auto simp: bit_or_iff bit_two_pow)

lemma and_pred_eq_clear_lowest:
  assumes "w \<noteq> (0::u64)"
  shows "w AND (w - 1) = clear_bit w (countr_zero w)"
proof -
  let ?k = "countr_zero w"
  note p = countr_zero_props [OF assms]
  define u where "u = clear_bit w ?k"
  have bu: "bit u j \<longleftrightarrow> bit w j \<and> ?k \<noteq> j" for j unfolding u_def using p(2) by (rule bit_clear_bit)
  have "w = u OR push_bit ?k 1"
    using p bu by (intro word64_eqI) (auto simp: bit_or_iff bit_two_pow)
  also have "\<dots> = u + push_bit ?k 1"
    using p bu by (intro disjunctive_add [symmetric]) (auto simp: bit_two_pow)
  finally have "w - 1 = u + (push_bit ?k 1 - 1)" by simp
  also have "push_bit ?k 1 - 1 = (mask ?k :: u64)"
    by (simp add: mask_eq_exp_minus_1)
  also have "u + mask ?k = u OR mask ?k"
    using p(3) bu by (intro disjunctive_add) (auto simp: bit_mask_iff)
  finally have "w - 1 = u OR mask ?k" .
  then show ?thesis unfolding u_def [symmetric]
    using p bu by (intro word64_eqI) (auto simp: bit_and_iff bit_or_iff bit_mask_iff)
qed

lemma clear_bit_less:
  assumes "bit w i"
  shows "clear_bit w i < (w::u64)"
proof -
  have i: "i < 64" using assms by (rule word64_bit_lt)
  have "clear_bit w i \<le> w" by (simp add: word_and_le2)
  moreover have "clear_bit w i \<noteq> w" using bit_clear_bit [OF i, of w i] assms by auto
  ultimately show ?thesis by simp
qed

lemma power_of_two_word:
  assumes "(c::u64) \<noteq> 0" "c AND (c - 1) = 0"
  shows "\<exists>k<64. c = push_bit k 1"
proof -
  note p = countr_zero_props [OF assms(1)]
  have "clear_bit c (countr_zero c) = 0" using assms and_pred_eq_clear_lowest by simp
  then have "bit c j \<longleftrightarrow> countr_zero c = j" for j
    using bit_clear_bit [OF p(2), of c j] p(1) by (auto simp del: push_bit_of_1)
  then have "c = push_bit (countr_zero c) 1"
    by (intro word64_eqI) (simp only: bit_push_one [OF p(2)])
  then show ?thesis using p(2) by blast
qed

subsection \<open>Enumerating set bits\<close>

lemma set_bits_asc [simp]: "set (bits_asc w) = {i. bit w i}"
  by (auto simp: bits_asc_def dest: word64_bit_lt)

lemma set_bits_desc [simp]: "set (bits_desc w) = {i. bit w i}"
  by (simp add: bits_desc_def)

lemma bits_asc_0 [simp]: "bits_asc 0 = []"
  by (simp add: bits_asc_def)

lemma bits_desc_0 [simp]: "bits_desc 0 = []"
  by (simp add: bits_desc_def)

lemma filter_upt_split:
  assumes "P k" "k < n"
  shows "filter P [0..<n] = filter P [0..<k] @ k # filter P [Suc k..<n]"
proof -
  have "[0..<n] = [0..<k] @ k # [Suc k..<n]"
    using assms(2) by (rule upt_split)
  then show ?thesis using assms by simp
qed

lemma bits_asc_step:
  assumes "w \<noteq> 0"
  shows "bits_asc w = countr_zero w # bits_asc (w AND (w - 1))"
proof -
  let ?k = "countr_zero w"
  note p = countr_zero_props [OF assms]
  have b: "bit (w AND (w - 1)) j \<longleftrightarrow> bit w j \<and> ?k \<noteq> j" for j
    using and_pred_eq_clear_lowest [OF assms] bit_clear_bit [OF p(2)] by simp
  have lo: "filter (bit w) [0..<?k] = []" "filter (bit (w AND (w - 1))) [0..<?k] = []"
    using p(3) b by (auto simp: filter_empty_conv)
  have e: "[0..<64] = [0..<?k] @ ?k # [Suc ?k..<64]"
    using p(2) by (rule upt_split)
  have "bits_asc (w AND (w - 1)) = filter (bit (w AND (w - 1))) [Suc ?k..<64]"
    unfolding bits_asc_def by (subst e) (simp only: filter_append lo append_Nil filter.simps b, simp)
  also have "\<dots> = filter (bit w) [Suc ?k..<64]"
    by (rule filter_cong) (auto simp only: b set_upt atLeastLessThan_iff)
  finally have 1: "bits_asc (w AND (w - 1)) = filter (bit w) [Suc ?k..<64]" .
  have "bits_asc w = ?k # filter (bit w) [Suc ?k..<64]"
    unfolding bits_asc_def by (subst e) (simp only: filter_append lo append_Nil filter.simps p(1), simp)
  with 1 show ?thesis by simp
qed

lemma bits_desc_step:
  assumes "w \<noteq> 0"
  shows "bits_desc w = (63 - countl_zero w) # bits_desc (clear_bit w (63 - countl_zero w))"
proof -
  let ?k = "63 - countl_zero w"
  note p = countl_zero_props [OF assms]
  have b: "bit (clear_bit w ?k) j \<longleftrightarrow> bit w j \<and> ?k \<noteq> j" for j
    using bit_clear_bit [OF p(2)] by simp
  have hi: "filter (bit w) [Suc ?k..<64] = []" "filter (bit (clear_bit w ?k)) [Suc ?k..<64] = []"
    using p(4) b by (auto simp: filter_empty_conv)
  have e: "[0..<64] = [0..<?k] @ ?k # [Suc ?k..<64]"
    using p(2) by (rule upt_split)
  have "bits_asc (clear_bit w ?k) = filter (bit (clear_bit w ?k)) [0..<?k]"
    unfolding bits_asc_def by (subst e) (simp only: filter_append hi append_Nil2 filter.simps b, simp)
  also have "\<dots> = filter (bit w) [0..<?k]"
    by (rule filter_cong) (auto simp only: b set_upt atLeastLessThan_iff)
  finally have 1: "bits_asc (clear_bit w ?k) = filter (bit w) [0..<?k]" .
  have "bits_asc w = filter (bit w) [0..<?k] @ [?k]"
    unfolding bits_asc_def by (subst e) (simp only: filter_append hi filter.simps p(1), simp)
  with 1 show ?thesis by (simp add: bits_desc_def)
qed

end
