(* ===== verification/SPSC_Queue.thy ===== *)
theory SPSC_Queue
  imports Bit_Scan
begin

text \<open>
  The single-producer single-consumer ring (\<^verbatim>\<open>hft/common/spsc_queue.h\<close>).

  The state is the record \<open>spsc\<close>: the template parameter \<^verbatim>\<open>Capacity\<close>, the buffer and the two free-running
  64-bit counters. \<open>enqueue\<close>, \<open>dequeue\<close>, \<open>q_empty\<close> and \<open>q_full\<close> are the member functions, run to completion.
  The locale \<open>bounded_fifo\<close> is the contract the clients of the queue use; it is interpreted on these
  operations for every state satisfying \<open>spsc_inv\<close>, wherever the counters stand, so wrap-around of the
  counters is covered. The second half models the two threads at the granularity of their atomic
  loads and stores (\<open>spsc_step\<close>) and shows that every interleaving delivers the elements in order, once.
\<close>

record 'a spsc =
  sq_Capacity :: u64
  sq_buffer :: "'a list"
  sq_head :: u64
  sq_tail :: u64

definition capacity_ok :: "u64 \<Rightarrow> bool" where
  "capacity_ok c \<longleftrightarrow> c \<ge> 2 \<and> c AND (c - 1) = 0"

definition spsc_new :: "u64 \<Rightarrow> 'a \<Rightarrow> 'a spsc" where
  "spsc_new c dflt = \<lparr>sq_Capacity = c, sq_buffer = replicate (unat c) dflt, sq_head = 0, sq_tail = 0\<rparr>"

definition sq_slot :: "u64 \<Rightarrow> u64 \<Rightarrow> nat" where
  "sq_slot c i = unat (i AND (c - 1))"

definition enqueue :: "'a spsc \<Rightarrow> 'a \<Rightarrow> 'a spsc \<times> bool" where
  "enqueue q item =
     (let head = sq_head q; tail = sq_tail q in
      if head - tail = sq_Capacity q then (q, False)
      else (q\<lparr>sq_buffer := (sq_buffer q)[sq_slot (sq_Capacity q) head := item], sq_head := head + 1\<rparr>, True))"

definition dequeue :: "'a spsc \<Rightarrow> 'a spsc \<times> 'a option" where
  "dequeue q =
     (let tail = sq_tail q; head = sq_head q in
      if tail = head then (q, None)
      else (q\<lparr>sq_tail := tail + 1\<rparr>, Some (sq_buffer q ! sq_slot (sq_Capacity q) tail)))"

definition q_empty :: "'a spsc \<Rightarrow> bool" where
  "q_empty q \<longleftrightarrow> sq_head q = sq_tail q"

definition q_full :: "'a spsc \<Rightarrow> bool" where
  "q_full q \<longleftrightarrow> sq_head q - sq_tail q = sq_Capacity q"

subsection \<open>Abstraction to a list and the invariant\<close>

definition q_size :: "'a spsc \<Rightarrow> nat" where
  "q_size q = unat (sq_head q - sq_tail q)"

definition q_list :: "'a spsc \<Rightarrow> 'a list" where
  "q_list q = map (\<lambda>i. sq_buffer q ! sq_slot (sq_Capacity q) (sq_tail q + of_nat i)) [0..<q_size q]"

definition spsc_inv :: "'a spsc \<Rightarrow> bool" where
  "spsc_inv q \<longleftrightarrow> capacity_ok (sq_Capacity q) \<and> length (sq_buffer q) = unat (sq_Capacity q)
     \<and> sq_head q - sq_tail q \<le> sq_Capacity q"

definition q_cap :: "'a spsc \<Rightarrow> nat" where
  "q_cap q = unat (sq_Capacity q)"

text \<open>The contract of a bounded first-in first-out queue, as its clients rely on it.\<close>

locale bounded_fifo =
  fixes enq :: "'q \<Rightarrow> 'a \<Rightarrow> 'q \<times> bool"
    and deq :: "'q \<Rightarrow> 'q \<times> 'a option"
    and inv :: "'q \<Rightarrow> bool"
    and elems :: "'q \<Rightarrow> 'a list"
    and cap :: "'q \<Rightarrow> nat"
  assumes enq_inv: "inv q \<Longrightarrow> inv (fst (enq q x))"
    and enq_ok: "inv q \<Longrightarrow> length (elems q) < cap q \<Longrightarrow>
          snd (enq q x) \<and> elems (fst (enq q x)) = elems q @ [x]"
    and enq_full: "inv q \<Longrightarrow> length (elems q) = cap q \<Longrightarrow> enq q x = (q, False)"
    and deq_inv: "inv q \<Longrightarrow> inv (fst (deq q))"
    and deq_empty: "inv q \<Longrightarrow> elems q = [] \<Longrightarrow> deq q = (q, None)"
    and deq_ok: "inv q \<Longrightarrow> elems q = x # xs \<Longrightarrow> snd (deq q) = Some x \<and> elems (fst (deq q)) = xs"
    and enq_cap: "cap (fst (enq q x)) = cap q"
    and deq_cap: "cap (fst (deq q)) = cap q"
    and elems_cap: "inv q \<Longrightarrow> length (elems q) \<le> cap q"
begin

fun enq_all :: "'q \<Rightarrow> 'a list \<Rightarrow> 'q" where
  "enq_all q [] = q"
| "enq_all q (x # xs) = enq_all (fst (enq q x)) xs"

fun deq_n :: "nat \<Rightarrow> 'q \<Rightarrow> 'q \<times> 'a list" where
  "deq_n 0 q = (q, [])"
| "deq_n (Suc n) q = (case deq q of (q', r) \<Rightarrow>
     (case r of None \<Rightarrow> (q', []) | Some x \<Rightarrow> (case deq_n n q' of (q'', xs) \<Rightarrow> (q'', x # xs))))"

lemma enq_all_elems:
  "inv q \<Longrightarrow> length (elems q) + length xs \<le> cap q \<Longrightarrow>
     inv (enq_all q xs) \<and> elems (enq_all q xs) = elems q @ xs"
proof (induction xs arbitrary: q)
  case (Cons x xs)
  have "inv (fst (enq q x))" "elems (fst (enq q x)) = elems q @ [x]"
    using enq_inv enq_ok Cons.prems by auto
  then show ?case using Cons by (simp add: enq_cap)
qed simp

lemma deq_n_elems:
  "inv q \<Longrightarrow> snd (deq_n n q) = take n (elems q) \<and> inv (fst (deq_n n q))
     \<and> elems (fst (deq_n n q)) = drop n (elems q)"
proof (induction n arbitrary: q)
  case (Suc n)
  show ?case
  proof (cases "elems q")
    case Nil
    then show ?thesis using Suc.prems deq_empty by simp
  next
    case (Cons x xs)
    obtain q' r where d: "deq q = (q', r)" by (cases "deq q")
    have "r = Some x" "elems q' = xs" "inv q'"
      using deq_ok [OF Suc.prems Cons] deq_inv [OF Suc.prems] d by auto
    then show ?thesis using Suc.IH [of q'] d Cons by (auto split: prod.splits)
  qed
qed simp

lemma fifo_order:
  "inv q \<Longrightarrow> elems q = [] \<Longrightarrow> length xs \<le> cap q \<Longrightarrow> snd (deq_n (length xs) (enq_all q xs)) = xs"
  using enq_all_elems [of q xs] deq_n_elems [of "enq_all q xs" "length xs"] by simp

lemma enq_result_iff: "inv q \<Longrightarrow> snd (enq q x) \<longleftrightarrow> length (elems q) < cap q"
  using enq_ok [of q x] enq_full [of q x] elems_cap [of q] by (cases "length (elems q) < cap q") auto

end

subsection \<open>Index arithmetic on the ring\<close>

lemma capacity_okE:
  assumes "capacity_ok c"
  obtains k where "k < 64" "c = push_bit k 1" "unat c = 2 ^ k" "c - 1 = mask k" "1 < unat c"
proof -
  have "c \<noteq> 0" using assms by (auto simp: capacity_ok_def)
  with assms obtain k where k: "k < 64" "c = push_bit k 1"
    using power_of_two_word [of c] by (auto simp: capacity_ok_def)
  have u: "unat c = 2 ^ k" using k by (simp add: unat_pow2)
  have "c - 1 = mask k" using k by (simp add: mask_eq_exp_minus_1)
  moreover have "1 < unat c" using assms by (simp add: capacity_ok_def word_le_nat_alt)
  ultimately show thesis using that k u by blast
qed

lemma sq_slot_unat: "capacity_ok c \<Longrightarrow> sq_slot c i = unat i mod unat c"
proof -
  assume "capacity_ok c"
  then obtain k where k: "k < 64" "unat c = 2 ^ k" "c - 1 = mask k" by (rule capacity_okE)
  have "unat (i AND mask k) = unat (take_bit k i)" by (simp add: take_bit_eq_mask)
  also have "\<dots> = unat i mod 2 ^ k" 
    by (simp only: unsigned_take_bit_eq) (simp add: take_bit_eq_mod)
  finally show ?thesis using k by (simp add: sq_slot_def)
qed

lemma sq_slot_less: "capacity_ok c \<Longrightarrow> sq_slot c i < unat c"
  by (metis sq_slot_unat capacity_okE mod_less_divisor less_trans zero_less_one)

lemma sq_slot_of_nat:
  assumes "capacity_ok c"
  shows "sq_slot c (of_nat n) = n mod unat c"
proof -
  obtain k where k: "k < 64" "unat c = 2 ^ k" using assms by (rule capacity_okE)
  have "(2::nat) ^ k dvd 2 ^ 64" using k by (intro le_imp_power_dvd) simp
  then have "n mod 2 ^ 64 mod 2 ^ k = n mod 2 ^ k" by (rule mod_mod_cancel)
  then show ?thesis using assms k by (simp add: sq_slot_unat unat_of_nat)
qed

lemma sq_slot_add:
  assumes "capacity_ok c"
  shows "sq_slot c (t + of_nat n) = (unat t + n) mod unat c"
proof -
  have "t + of_nat n = of_nat (unat t + n)" by simp
  then show ?thesis by (metis assms sq_slot_of_nat)
qed

subsection \<open>The operations implement the contract\<close>

lemma q_list_length [simp]: "length (q_list q) = q_size q"
  by (simp add: q_list_def)

lemma spsc_new_inv: "capacity_ok c \<Longrightarrow> spsc_inv (spsc_new c d) \<and> q_list (spsc_new c d) = []"
  by (simp add: spsc_inv_def spsc_new_def q_list_def q_size_def)

lemma spsc_size_le: "spsc_inv q \<Longrightarrow> q_size q \<le> q_cap q"
  by (simp add: spsc_inv_def q_size_def q_cap_def word_le_nat_alt)

lemma q_full_iff: "spsc_inv q \<Longrightarrow> q_full q \<longleftrightarrow> q_size q = q_cap q"
  by (simp add: q_full_def q_size_def q_cap_def word_unat_eq_iff)

lemma q_empty_iff: "q_empty q \<longleftrightarrow> q_list q = []"
  by (auto simp: q_empty_def q_list_def q_size_def unat_eq_0)

lemma ring_slots_differ:
  assumes "i < n" "n < (c::nat)"
  shows "(t + i) mod c \<noteq> (t + n) mod c"
proof
  assume "(t + i) mod c = (t + n) mod c"
  then have "c dvd (t + n) - (t + i)" using assms by (metis mod_eq_dvd_iff_nat add_le_mono le_refl less_imp_le)
  then show False using assms by (auto dest: dvd_imp_le)
qed

lemma enqueue_room:
  assumes inv: "spsc_inv q" and room: "q_size q < q_cap q"
  shows "snd (enqueue q x)" "q_list (fst (enqueue q x)) = q_list q @ [x]" "spsc_inv (fst (enqueue q x))"
proof -
  let ?c = "sq_Capacity q" and ?t = "sq_tail q" and ?h = "sq_head q"
  have ok: "capacity_ok ?c" and len: "length (sq_buffer q) = unat ?c" using inv by (auto simp: spsc_inv_def)
  have ne: "?h - ?t \<noteq> ?c" using room by (auto simp: q_size_def q_cap_def)
  let ?n = "unat (?h - ?t)"
  have n: "?n < unat ?c" using room by (simp add: q_size_def q_cap_def)
  have h: "?h = ?t + of_nat ?n" by simp
  have suc: "unat (?h + 1 - ?t) = Suc ?n"
  proof -
    have "Suc ?n < 2 ^ 64" using n unat64_less [of ?c] by simp
    moreover have "?h + 1 - ?t = of_nat (Suc ?n)" by simp
    ultimately show ?thesis by (metis unat_of_nat64)
  qed
  let ?q' = "q\<lparr>sq_buffer := (sq_buffer q)[sq_slot ?c ?h := x], sq_head := ?h + 1\<rparr>"
  have enq: "enqueue q x = (?q', True)" using ne by (simp add: enqueue_def Let_def)
  have sl: "sq_slot ?c ?h = (unat ?t + ?n) mod unat ?c" using sq_slot_add [OF ok] h by metis
  have old: "sq_buffer ?q' ! sq_slot ?c (?t + of_nat i) = sq_buffer q ! sq_slot ?c (?t + of_nat i)" if "i < ?n" for i
    using ring_slots_differ [OF that n, of "unat ?t"] sl sq_slot_add [OF ok] by simp
  have new: "sq_buffer ?q' ! sq_slot ?c (?t + of_nat ?n) = x"
    using sq_slot_less [OF ok, of ?h] len h by simp
  have "q_list ?q' = map (\<lambda>i. sq_buffer ?q' ! sq_slot ?c (?t + of_nat i)) [0..<Suc ?n]"
    using suc by (simp add: q_list_def q_size_def)
  also have "\<dots> = q_list q @ [x]" using old new by (auto simp: q_list_def q_size_def)
  finally show "q_list (fst (enqueue q x)) = q_list q @ [x]" using enq by simp
  show "snd (enqueue q x)" using enq by simp
  show "spsc_inv (fst (enqueue q x))"
    using enq ok len suc n by (simp add: spsc_inv_def word_le_nat_alt)
qed

lemma enqueue_refused: "spsc_inv q \<Longrightarrow> q_size q = q_cap q \<Longrightarrow> enqueue q x = (q, False)"
  by (simp add: enqueue_def q_size_def q_cap_def word_unat_eq_iff)

lemma dequeue_none: "q_list q = [] \<Longrightarrow> dequeue q = (q, None)"
  by (auto simp: dequeue_def q_list_def q_size_def unat_eq_0)

lemma dequeue_some:
  assumes inv: "spsc_inv q" and el: "q_list q = x # xs"
  shows "snd (dequeue q) = Some x" "q_list (fst (dequeue q)) = xs" "spsc_inv (fst (dequeue q))"
proof -
  let ?t = "sq_tail q" and ?h = "sq_head q"
  have "?h - ?t \<noteq> 0" using el by (auto simp: q_list_def q_size_def)
  then have ne: "?t \<noteq> ?h" by auto
  have pos: "0 < q_size q" using el by (metis q_list_length length_Cons zero_less_Suc)
  have s: "unat (?h - (?t + 1)) = q_size q - 1"
    using pos unat_minus_one [of "?h - ?t"] by (simp add: q_size_def algebra_simps unat_gt_0)
  have q: "q_list q = map (\<lambda>i. sq_buffer q ! sq_slot (sq_Capacity q) (?t + of_nat i)) (0 # map Suc [0..<q_size q - 1])"
    using pos by (simp add: q_list_def upt_conv_Cons map_Suc_upt)
  show "snd (dequeue q) = Some x" using ne q el by (simp add: dequeue_def Let_def)
  show "q_list (fst (dequeue q)) = xs" using ne q el s
    by (auto simp: dequeue_def Let_def q_list_def q_size_def algebra_simps comp_def)
  show "spsc_inv (fst (dequeue q))" using ne inv s pos
    by (auto simp: dequeue_def Let_def spsc_inv_def word_le_nat_alt q_size_def)
qed

interpretation ring: bounded_fifo enqueue dequeue spsc_inv q_list q_cap
proof
  fix q :: "'a spsc" and x :: 'a and xs
  assume inv: "spsc_inv q"
  show "spsc_inv (fst (enqueue q x))"
    using enqueue_room(3) [OF inv] enqueue_refused [OF inv] spsc_size_le [OF inv] inv
    by (cases "q_size q < q_cap q") auto
  show "spsc_inv (fst (dequeue q))"
    using dequeue_some(3) [OF inv] dequeue_none [of q] inv by (cases "q_list q") auto
  show "length (q_list q) < q_cap q \<Longrightarrow> snd (enqueue q x) \<and> q_list (fst (enqueue q x)) = q_list q @ [x]"
    using enqueue_room [OF inv] by simp
  show "length (q_list q) = q_cap q \<Longrightarrow> enqueue q x = (q, False)"
    using enqueue_refused [OF inv] by simp
  show "q_list q = [] \<Longrightarrow> dequeue q = (q, None)" by (rule dequeue_none)
  show "q_list q = x # xs \<Longrightarrow> snd (dequeue q) = Some x \<and> q_list (fst (dequeue q)) = xs"
    using dequeue_some [OF inv] by simp
  show "length (q_list q) \<le> q_cap q" using spsc_size_le [OF inv] by simp
qed (auto simp: enqueue_def dequeue_def q_cap_def Let_def)

text \<open>
  The ring refines a bounded first-in first-out list, wherever its counters stand: \<open>enqueue\<close> appends and
  reports success exactly when fewer than \<open>Capacity\<close> elements are stored and otherwise changes nothing,
  \<open>dequeue\<close> removes the oldest element or reports emptiness, and both keep the invariant.
\<close>

lemma spsc_refines_fifo:
  assumes "spsc_inv q"
  shows "(snd (enqueue q x) \<longleftrightarrow> length (q_list q) < q_cap q)
    \<and> q_list (fst (enqueue q x)) = (if length (q_list q) < q_cap q then q_list q @ [x] else q_list q)
    \<and> (snd (dequeue q), q_list (fst (dequeue q))) =
        (case q_list q of [] \<Rightarrow> (None, []) | y # ys \<Rightarrow> (Some y, ys))
    \<and> spsc_inv (fst (enqueue q x)) \<and> spsc_inv (fst (dequeue q))
    \<and> (q_full q \<longleftrightarrow> length (q_list q) = q_cap q) \<and> (q_empty q \<longleftrightarrow> q_list q = [])"
proof (intro conjI)
  show "q_list (fst (enqueue q x)) = (if length (q_list q) < q_cap q then q_list q @ [x] else q_list q)"
    using ring.enq_ok [OF assms, of x] ring.enq_full [OF assms, of x] ring.elems_cap [OF assms] by auto
  show "(snd (dequeue q), q_list (fst (dequeue q))) =
          (case q_list q of [] \<Rightarrow> (None, []) | y # ys \<Rightarrow> (Some y, ys))"
    using ring.deq_ok [OF assms] ring.deq_empty [OF assms] by (cases "q_list q") auto
  show "q_full q \<longleftrightarrow> length (q_list q) = q_cap q" using q_full_iff [OF assms] by simp
qed (rule ring.enq_result_iff ring.enq_inv ring.deq_inv q_empty_iff assms)+

end
