(* ===== verification/SPSC_Threads.thy ===== *)
theory SPSC_Threads
  imports SPSC_Queue
begin

text \<open>
  The two threads of the single-producer single-consumer ring, at the granularity of their atomic
  accesses (\<^verbatim>\<open>hft/common/spsc_queue.h\<close>, \<open>enqueue\<close>, \<open>enqueue_spin\<close> and \<open>dequeue\<close>). Each program point between two
  accesses of shared memory is a constructor of \<open>ppc\<close> (producer) or \<open>cpc\<close> (consumer), with the locals the
  code holds there; \<open>spsc_step\<close> interleaves the threads arbitrarily. The acquire/release pairs of the code
  order the buffer access of one side with the counter store of the other, so interleavings of
  whole accesses are the executions to consider. The two histories \<open>enqueued\<close> and \<open>dequeued\<close> are ghost
  state: what successful calls have published so far.
\<close>

datatype 'a ppc =
    PIdle
  | PHead 'a bool u64
  | PTail 'a bool u64 u64
  | PStore 'a u64

datatype 'a cpc =
    CIdle
  | CTail u64
  | CHead u64 u64
  | CStore u64 'a

record 'a spsc_sys =
  shared :: "'a spsc"
  producer :: "'a ppc"
  consumer :: "'a cpc"
  enqueued :: "'a list"
  dequeued :: "'a list"

definition spsc_sys_init :: "u64 \<Rightarrow> 'a \<Rightarrow> 'a spsc_sys" where
  "spsc_sys_init c d = \<lparr>shared = spsc_new c d, producer = PIdle, consumer = CIdle, enqueued = [], dequeued = []\<rparr>"

text \<open>
  The boolean carried by the producer tells \<open>enqueue_spin\<close> (loads the tail again when the ring is full)
  from \<open>enqueue\<close> (returns false).
\<close>

inductive spsc_step :: "'a spsc_sys \<Rightarrow> 'a spsc_sys \<Rightarrow> bool" where
  p_load_head: "producer s = PIdle \<Longrightarrow>
     spsc_step s (s\<lparr>producer := PHead x spin (sq_head (shared s))\<rparr>)"
| p_load_tail: "producer s = PHead x spin h \<Longrightarrow>
     spsc_step s (s\<lparr>producer := PTail x spin h (sq_tail (shared s))\<rparr>)"
| p_full: "producer s = PTail x False h t \<Longrightarrow> h - t = sq_Capacity (shared s) \<Longrightarrow>
     spsc_step s (s\<lparr>producer := PIdle\<rparr>)"
| p_spin: "producer s = PTail x True h t \<Longrightarrow> h - t = sq_Capacity (shared s) \<Longrightarrow>
     spsc_step s (s\<lparr>producer := PHead x True h\<rparr>)"
| p_write: "producer s = PTail x spin h t \<Longrightarrow> h - t \<noteq> sq_Capacity (shared s) \<Longrightarrow>
     spsc_step s (s\<lparr>shared := (shared s)\<lparr>sq_buffer := (sq_buffer (shared s))[sq_slot (sq_Capacity (shared s)) h := x]\<rparr>,
                    producer := PStore x h\<rparr>)"
| p_publish: "producer s = PStore x h \<Longrightarrow>
     spsc_step s (s\<lparr>shared := (shared s)\<lparr>sq_head := h + 1\<rparr>, producer := PIdle, enqueued := enqueued s @ [x]\<rparr>)"
| c_load_tail: "consumer s = CIdle \<Longrightarrow>
     spsc_step s (s\<lparr>consumer := CTail (sq_tail (shared s))\<rparr>)"
| c_load_head: "consumer s = CTail t \<Longrightarrow>
     spsc_step s (s\<lparr>consumer := CHead t (sq_head (shared s))\<rparr>)"
| c_empty: "consumer s = CHead t h \<Longrightarrow> t = h \<Longrightarrow>
     spsc_step s (s\<lparr>consumer := CIdle\<rparr>)"
| c_read: "consumer s = CHead t h \<Longrightarrow> t \<noteq> h \<Longrightarrow>
     spsc_step s (s\<lparr>consumer := CStore t (sq_buffer (shared s) ! sq_slot (sq_Capacity (shared s)) t)\<rparr>)"
| c_publish: "consumer s = CStore t x \<Longrightarrow>
     spsc_step s (s\<lparr>shared := (shared s)\<lparr>sq_tail := t + 1\<rparr>, consumer := CIdle, dequeued := dequeued s @ [x]\<rparr>)"

inductive spsc_reachable :: "u64 \<Rightarrow> 'a \<Rightarrow> 'a spsc_sys \<Rightarrow> bool" for c d where
  start: "spsc_reachable c d (spsc_sys_init c d)"
| step: "spsc_reachable c d s \<Longrightarrow> spsc_step s s' \<Longrightarrow> spsc_reachable c d s'"

text \<open>
  The invariant: counters are the history lengths modulo \<open>2 ^ 64\<close>, the live window of the buffer holds the
  elements not yet delivered, and every value a thread has loaded is an earlier value of the other's
  counter.
\<close>

definition window_ok :: "'a spsc_sys \<Rightarrow> bool" where
  "window_ok s \<longleftrightarrow>
     (let q = shared s; c = unat (sq_Capacity q); e = length (enqueued s); d = length (dequeued s) in
      capacity_ok (sq_Capacity q) \<and> length (sq_buffer q) = c
      \<and> sq_head q = of_nat e \<and> sq_tail q = of_nat d
      \<and> d \<le> e \<and> e \<le> d + c \<and> dequeued s = take d (enqueued s)
      \<and> (\<forall>i. d \<le> i \<and> i < e \<longrightarrow> sq_buffer q ! (i mod c) = enqueued s ! i))"

definition producer_ok :: "'a spsc_sys \<Rightarrow> bool" where
  "producer_ok s \<longleftrightarrow>
     (let q = shared s; c = unat (sq_Capacity q); e = length (enqueued s); d = length (dequeued s) in
      case producer s of
        PIdle \<Rightarrow> True
      | PHead x b h \<Rightarrow> h = of_nat e
      | PTail x b h t \<Rightarrow> h = of_nat e \<and> (\<exists>d'\<le>d. t = of_nat d' \<and> d' \<le> e \<and> e \<le> d' + c)
      | PStore x h \<Rightarrow> h = of_nat e \<and> e < d + c \<and> sq_buffer q ! (e mod c) = x)"

definition consumer_ok :: "'a spsc_sys \<Rightarrow> bool" where
  "consumer_ok s \<longleftrightarrow>
     (let e = length (enqueued s); d = length (dequeued s) in
      case consumer s of
        CIdle \<Rightarrow> True
      | CTail t \<Rightarrow> t = of_nat d
      | CHead t h \<Rightarrow> t = of_nat d \<and> (\<exists>e'\<le>e. h = of_nat e' \<and> d \<le> e')
      | CStore t x \<Rightarrow> t = of_nat d \<and> d < e \<and> x = enqueued s ! d)"

definition spsc_sys_inv :: "'a spsc_sys \<Rightarrow> bool" where
  "spsc_sys_inv s \<longleftrightarrow> window_ok s \<and> producer_ok s \<and> consumer_ok s"

lemmas sys_inv_defs = spsc_sys_inv_def window_ok_def producer_ok_def consumer_ok_def

lemma spsc_sys_inv_init: "capacity_ok c \<Longrightarrow> spsc_sys_inv (spsc_sys_init c d)"
  by (simp add: sys_inv_defs spsc_sys_init_def spsc_new_def)

text \<open>A producer that found room in an old tail value has room now.\<close>

lemma room_from_old_tail:
  assumes "of_nat e - of_nat d' \<noteq> (c::u64)" "d' \<le> e" "e \<le> d' + unat c" "d' \<le> d" "d \<le> e"
  shows "e < d + unat c"
proof (rule ccontr)
  assume "\<not> e < d + unat c"
  then have "e - d' = unat c" using assms by linarith
  then have "of_nat (e - d') = c" by simp
  then show False using assms(1,2) by (simp add: of_nat_diff)
qed

lemma of_nat64_eq_close:
  assumes "(of_nat a :: u64) = of_nat b" "a \<le> b" "b \<le> a + unat (c::u64)"
  shows "a = b"
proof -
  have "(of_nat (b - a) :: u64) = 0" using assms by (simp add: of_nat_diff)
  moreover have "b - a < 2 ^ 64" using assms unat64_less [of c] by linarith
  ultimately have "b - a = 0" by (metis unat_of_nat64 unat_0)
  then show ?thesis using assms by simp
qed

lemma spsc_step_inv:
  assumes "spsc_step s s'" "spsc_sys_inv s"
  shows "spsc_sys_inv s'"
  using assms
proof (induction rule: spsc_step.induct)
  case (p_load_head s x spin)
  then show ?case by (auto simp: sys_inv_defs Let_def split: cpc.splits ppc.splits)
next
  case (p_load_tail s x spin h)
  then show ?case by (auto simp: sys_inv_defs Let_def split: cpc.splits ppc.splits)
next
  case (p_full s x h t)
  then show ?case by (auto simp: sys_inv_defs Let_def split: cpc.splits ppc.splits)
next
  case (p_spin s x h t)
  then show ?case by (auto simp: sys_inv_defs Let_def split: cpc.splits ppc.splits)
next
  case (p_write s x spin h t)
  let ?c = "sq_Capacity (shared s)" and ?e = "length (enqueued s)" and ?d = "length (dequeued s)"
  have w: "window_ok s" "consumer_ok s" and p: "producer_ok s" using p_write by (auto simp: spsc_sys_inv_def)
  have ok: "capacity_ok ?c" using w by (simp add: window_ok_def Let_def)
  have room: "?e < ?d + unat ?c"
    using p p_write room_from_old_tail [of ?e _ ?c ?d] w by (auto simp: producer_ok_def window_ok_def Let_def)
  have sl: "sq_slot ?c h = ?e mod unat ?c" using p p_write ok by (simp add: producer_ok_def Let_def sq_slot_of_nat)
  have other: "?e mod unat ?c \<noteq> i mod unat ?c" if "?d \<le> i" "i < ?e" for i
    using ring_slots_differ [of "i - ?d" "?e - ?d" "unat ?c" ?d] that room by (simp add: eq_commute)
  have "?e mod unat ?c < unat ?c" using sq_slot_less [OF ok, of h] sl by simp
  then show ?case using w p p_write.hyps room sl other
    by (auto simp: sys_inv_defs Let_def split: cpc.splits ppc.splits)
next
  case (p_publish s x h)
  then show ?case
    by (auto simp: sys_inv_defs Let_def nth_append less_Suc_eq split: cpc.splits ppc.splits)
       (metis le_SucI)
next
  case (c_load_tail s)
  then show ?case by (auto simp: sys_inv_defs Let_def split: cpc.splits ppc.splits)
next
  case (c_load_head s t)
  then show ?case by (auto simp: sys_inv_defs Let_def split: cpc.splits ppc.splits)
next
  case (c_empty s t h)
  then show ?case by (auto simp: sys_inv_defs Let_def split: cpc.splits ppc.splits)
next
  case (c_read s t h)
  let ?e = "length (enqueued s)" and ?d = "length (dequeued s)"
  have w: "window_ok s" "producer_ok s" and c: "consumer_ok s" using c_read by (auto simp: spsc_sys_inv_def)
  have "?d < ?e" using c c_read by (auto simp: consumer_ok_def Let_def intro: le_neq_implies_less)
  moreover have "sq_slot (sq_Capacity (shared s)) t = ?d mod unat (sq_Capacity (shared s))"
    using w c c_read by (simp add: consumer_ok_def window_ok_def Let_def sq_slot_of_nat)
  ultimately show ?case using w c c_read.hyps by (auto simp: sys_inv_defs Let_def split: cpc.splits ppc.splits)
next
  case (c_publish s t x)
  then show ?case
    apply (auto simp: sys_inv_defs Let_def take_Suc_conv_app_nth split: cpc.splits ppc.splits)
    subgoal for x b d' by (rule exI [of _ d']) simp
    done
qed

lemma spsc_reachable_inv: "spsc_reachable c d s \<Longrightarrow> capacity_ok c \<Longrightarrow> spsc_sys_inv s"
  by (induction rule: spsc_reachable.induct) (auto intro: spsc_sys_inv_init spsc_step_inv)

lemma spsc_step_capacity: "spsc_step s s' \<Longrightarrow> sq_Capacity (shared s') = sq_Capacity (shared s)"
  by (induction rule: spsc_step.induct) auto

lemma spsc_reachable_capacity: "spsc_reachable c d s \<Longrightarrow> sq_Capacity (shared s) = c"
  by (induction rule: spsc_reachable.induct)
     (auto simp: spsc_step_capacity spsc_sys_init_def spsc_new_def)

subsection \<open>Properties of every interleaving\<close>

lemma inv_histories:
  assumes "spsc_sys_inv s"
  shows "enqueued s = dequeued s @ drop (length (dequeued s)) (enqueued s)"
    "length (enqueued s) \<le> length (dequeued s) + unat (sq_Capacity (shared s))"
  using assms by (simp_all add: spsc_sys_inv_def window_ok_def Let_def) (metis append_take_drop_id)

text \<open>
  C3. Whatever the interleaving of the two threads, the elements delivered by successful \<open>dequeue\<close> calls are,
  in order and without loss or duplication, the first elements published by \<open>enqueue\<close> and
  \<open>enqueue_spin\<close>, at most \<open>Capacity\<close> elements are in flight, and this holds across wrap-around of the 64-bit
  counters.
\<close>

theorem spsc_threads_fifo:
  assumes "spsc_reachable c d s" and "capacity_ok c"
  shows "\<exists>rest. enqueued s = dequeued s @ rest \<and> length rest \<le> unat c"
proof -
  have inv: "spsc_sys_inv s" using assms by (rule spsc_reachable_inv)
  have "sq_Capacity (shared s) = c" using assms(1) by (rule spsc_reachable_capacity)
  then show ?thesis using inv_histories [OF inv] by (intro exI [of _ "drop (length (dequeued s)) (enqueued s)"]) simp
qed

lemma one_element_run:
  "spsc_reachable 2 0 \<lparr>shared = \<lparr>sq_Capacity = 2, sq_buffer = [7, 0], sq_head = 1, sq_tail = 0\<rparr>,
      producer = PIdle, consumer = CIdle, enqueued = [7 :: nat], dequeued = []\<rparr>"
proof -
  let ?q = "\<lparr>sq_Capacity = 2, sq_buffer = [0 :: nat, 0], sq_head = 0, sq_tail = 0\<rparr>"
  let ?s = "\<lambda>q p e. \<lparr>shared = q, producer = p, consumer = CIdle, enqueued = e, dequeued = []\<rparr>"
  have two: "replicate 2 (0::nat) = [0, 0]" by (simp add: numeral_2_eq_2)
  have 0: "spsc_reachable 2 0 (?s ?q PIdle [])"
    using spsc_reachable.start [of 2 "0::nat"] two by (simp add: spsc_sys_init_def spsc_new_def)
  have 1: "spsc_reachable 2 0 (?s ?q (PHead 7 False 0) [])"
    using spsc_reachable.step [OF 0 p_load_head [of _ 7 False]] by simp
  have 2: "spsc_reachable 2 0 (?s ?q (PTail 7 False 0 0) [])"
    using spsc_reachable.step [OF 1 p_load_tail [of _ 7 False 0]] by simp
  have 3: "spsc_reachable 2 0 (?s (?q\<lparr>sq_buffer := [7, 0]\<rparr>) (PStore 7 0) [])"
    using spsc_reachable.step [OF 2 p_write [of _ 7 False 0 0]] by (simp add: sq_slot_def)
  show ?thesis using spsc_reachable.step [OF 3 p_publish [of _ 7 0]] by simp
qed

theorem spsc_threads_fifo_witness:
  "\<exists>rest. [7 :: nat] = [] @ rest \<and> length rest \<le> unat (2 :: u64)"
  using spsc_threads_fifo [OF one_element_run] by (simp add: capacity_ok_def)

text \<open>
  C30. No data race on the buffer: whenever the producer is about to write a slot while the consumer is
  about to read one, the two slots are different.
\<close>

theorem spsc_no_slot_race:
  assumes "spsc_reachable c d s" and "capacity_ok c"
    and "producer s = PTail x spin h t" and "h - t \<noteq> c"
    and "consumer s = CHead t' h'" and "t' \<noteq> h'"
  shows "sq_slot c h \<noteq> sq_slot c t'"
proof -
  let ?e = "length (enqueued s)" and ?d = "length (dequeued s)"
  have inv: "spsc_sys_inv s" using assms by (blast intro: spsc_reachable_inv)
  have cap: "sq_Capacity (shared s) = c" using assms(1) by (rule spsc_reachable_capacity)
  obtain d' where p: "h = of_nat ?e" "t = of_nat d'" "d' \<le> ?d" "d' \<le> ?e" "?e \<le> d' + unat c"
    using inv assms(3) cap by (auto simp: spsc_sys_inv_def producer_ok_def Let_def)
  obtain e' where k: "t' = of_nat ?d" "h' = of_nat e'" "?d \<le> e'" "e' \<le> ?e"
    using inv assms(5) by (auto simp: spsc_sys_inv_def consumer_ok_def Let_def)
  have "e' \<noteq> ?d" using k(1,2) assms(6) by blast
  then have "?d < ?e" using k(3,4) by linarith
  moreover have "?e < ?d + unat c"
    using room_from_old_tail [of ?e d' c ?d] p assms(4) \<open>?d < ?e\<close> by simp
  ultimately have "(?d + 0) mod unat c \<noteq> (?d + (?e - ?d)) mod unat c"
    by (intro ring_slots_differ) auto
  then show ?thesis using \<open>?d < ?e\<close> p(1) k(1) assms(2) by (simp add: sq_slot_of_nat eq_commute)
qed

lemma racing_run:
  "spsc_reachable 2 0 \<lparr>shared = \<lparr>sq_Capacity = 2, sq_buffer = [7, 0], sq_head = 1, sq_tail = 0\<rparr>,
      producer = PTail 8 True 1 0, consumer = CHead 0 1, enqueued = [7 :: nat], dequeued = []\<rparr>"
proof -
  let ?q = "\<lparr>sq_Capacity = 2, sq_buffer = [7 :: nat, 0], sq_head = 1, sq_tail = 0\<rparr>"
  let ?s = "\<lambda>p c. \<lparr>shared = ?q, producer = p, consumer = c, enqueued = [7], dequeued = []\<rparr>"
  have 1: "spsc_reachable 2 0 (?s (PHead 8 True 1) CIdle)"
    using spsc_reachable.step [OF one_element_run p_load_head [of _ 8 True]] by simp
  have 2: "spsc_reachable 2 0 (?s (PTail 8 True 1 0) CIdle)"
    using spsc_reachable.step [OF 1 p_load_tail [of _ 8 True 1]] by simp
  have 3: "spsc_reachable 2 0 (?s (PTail 8 True 1 0) (CTail 0))"
    using spsc_reachable.step [OF 2 c_load_tail] by simp
  show ?thesis using spsc_reachable.step [OF 3 c_load_head [of _ 0]] by simp
qed

theorem spsc_no_slot_race_witness: "sq_slot 2 1 \<noteq> sq_slot 2 0"
  using spsc_no_slot_race [OF racing_run, of 8 True 1 0 0 1] by (simp add: capacity_ok_def)

end
