(* ===== verification/MPSC_Queue.thy ===== *)
theory MPSC_Queue
  imports HFT_Prelude
begin

text \<open>
  The multi-producer single-consumer queue of the common library (\<^verbatim>\<open>hft/common/mpsc_queue_cas.hpp\<close>,
  class \<open>MPSCSegQueue\<close>): a linked list of chunks of \<open>ChunkSize\<close> slots. Producers claim a slot of the tail chunk
  with an atomic increment, the one that finds the chunk full links a new chunk, and the consumer walks
  the slots in order and retires the chunks it has left. Any number of producers run the code of
  \<open>enqueue\<close>; every point of it between two accesses of shared memory is a constructor of \<open>mpc\<close> with the locals
  held there, and \<open>mcpc\<close> does the same for \<open>dequeue\<close>, \<open>retire_chunk\<close> and \<open>try_reclaim\<close>. Chunks are numbered in the
  order in which they are linked; a chunk whose link fails is deleted by the thread that made it and
  is never visible. Once a thread reaches for a chunk that has been deleted, \<open>mq_fault\<close> is set and
  nothing is said of what follows. The lists \<open>mq_started\<close>, \<open>mq_log\<close> and \<open>mq_out\<close> are ghost state: the calls each
  producer has made, the claimed slots in claim order, and what the consumer has received. The chunk
  index is a natural number: it counts the claims of one chunk and would need \<open>2 ^ 64\<close> of them to wrap. The
  destructor, which runs when no other thread does, is left out.
\<close>

record 'a chunk =
  ck_idx :: nat
  ck_next :: "nat option"
  ck_refs :: "32 word"
  ck_ready :: "nat \<Rightarrow> bool"
  ck_store :: "nat \<Rightarrow> 'a option"

definition Chunk_new :: "'a chunk" where
  "Chunk_new = \<lparr>ck_idx = 0, ck_next = None, ck_refs = 0, ck_ready = (\<lambda>_. False), ck_store = (\<lambda>_. None)\<rparr>"

datatype 'a mpc =
    MIdle
  | MStart 'a
  | MRef 'a nat
  | MCheck 'a nat
  | MBack 'a nat
  | MClaim 'a nat
  | MConstruct 'a nat nat
  | MPublish 'a nat nat
  | MRelease nat
  | MNext 'a nat
  | MLink 'a nat
  | MSwing 'a nat nat
  | MAddRef 'a nat nat
  | MDropTail 'a nat
  | MDropTemp 'a nat

text \<open>
  The boolean of the consumer's last points is true when the chunk change happens at the top of the
  loop, which then runs again, and false when it follows a delivery, after which \<open>dequeue\<close> returns.
\<close>

datatype 'a mcpc =
    DIdle
  | DTop
  | DTake
  | DClear 'a
  | DNext
  | DRef nat bool
  | DDrop nat bool
  | DScan "nat list" "nat list" bool

record 'a mpsc =
  mq_ChunkSize :: nat
  mq_chunks :: "nat \<Rightarrow> 'a chunk"
  mq_count :: nat
  mq_tail :: nat
  mq_head :: nat
  mq_head_pos :: nat
  mq_retired :: "nat list"
  mq_retired_count :: nat
  mq_freed :: "nat list"
  mq_fault :: bool
  mq_producers :: "nat \<Rightarrow> 'a mpc"
  mq_consumer :: "'a mcpc"
  mq_started :: "nat \<Rightarrow> 'a list"
  mq_log :: "(nat \<times> 'a) list"
  mq_out :: "'a list"

definition kScanThreshold :: nat where
  "kScanThreshold = 64"

definition MPSCSegQueue_new :: "nat \<Rightarrow> 'a mpsc" where
  "MPSCSegQueue_new sz = \<lparr>mq_ChunkSize = sz, mq_chunks = (\<lambda>_. Chunk_new)(0 := Chunk_new\<lparr>ck_refs := 2\<rparr>),
     mq_count = 1, mq_tail = 0, mq_head = 0, mq_head_pos = 0, mq_retired = [], mq_retired_count = 0,
     mq_freed = [], mq_fault = False, mq_producers = (\<lambda>_. MIdle), mq_consumer = DIdle,
     mq_started = (\<lambda>_. []), mq_log = [], mq_out = []\<rparr>"

text \<open>One atomic change of a chunk, and the program counter of a producer.\<close>

definition on_chunk :: "nat \<Rightarrow> ('a chunk \<Rightarrow> 'a chunk) \<Rightarrow> 'a mpsc \<Rightarrow> 'a mpsc" where
  "on_chunk c f s = s\<lparr>mq_chunks := (mq_chunks s)(c := f (mq_chunks s c))\<rparr>"

definition goto :: "nat \<Rightarrow> 'a mpc \<Rightarrow> 'a mpsc \<Rightarrow> 'a mpsc" where
  "goto t p s = s\<lparr>mq_producers := (mq_producers s)(t := p)\<rparr>"

definition ref_add :: "'a chunk \<Rightarrow> 'a chunk" where
  "ref_add k = k\<lparr>ck_refs := ck_refs k + 1\<rparr>"

definition ref_sub :: "'a chunk \<Rightarrow> 'a chunk" where
  "ref_sub k = k\<lparr>ck_refs := ck_refs k - 1\<rparr>"

text \<open>
  One access of \<open>enqueue\<close> by producer \<open>t\<close>. \<open>idx.fetch_add\<close> returns the old index, which is the slot when it
  is below \<open>ChunkSize\<close>. When the exchange of \<open>tail_\<close> fails, \<open>compare_exchange_strong\<close> stores the tail it found
  into \<open>cur\<close>, so the last \<open>fetch_sub\<close> of the round is applied to that chunk.
\<close>

fun enqueue_step :: "nat \<Rightarrow> 'a mpc \<Rightarrow> 'a mpsc \<Rightarrow> 'a mpsc" where
  "enqueue_step t MIdle s = s"
| "enqueue_step t (MStart x) s = goto t (MRef x (mq_tail s)) s"
| "enqueue_step t (MRef x cur) s = goto t (MCheck x cur) (on_chunk cur ref_add s)"
| "enqueue_step t (MCheck x cur) s = goto t (if cur \<noteq> mq_tail s then MBack x cur else MClaim x cur) s"
| "enqueue_step t (MBack x cur) s = goto t (MStart x) (on_chunk cur ref_sub s)"
| "enqueue_step t (MClaim x cur) s =
     (let pos = ck_idx (mq_chunks s cur);
          s1 = on_chunk cur (\<lambda>k. k\<lparr>ck_idx := pos + 1\<rparr>) s in
      if pos < mq_ChunkSize s then goto t (MConstruct x cur pos) (s1\<lparr>mq_log := mq_log s @ [(t, x)]\<rparr>)
      else goto t (MNext x cur) s1)"
| "enqueue_step t (MConstruct x cur pos) s =
     goto t (MPublish x cur pos) (on_chunk cur (\<lambda>k. k\<lparr>ck_store := (ck_store k)(pos := Some x)\<rparr>) s)"
| "enqueue_step t (MPublish x cur pos) s =
     goto t (MRelease cur) (on_chunk cur (\<lambda>k. k\<lparr>ck_ready := (ck_ready k)(pos := True)\<rparr>) s)"
| "enqueue_step t (MRelease cur) s = goto t MIdle (on_chunk cur ref_sub s)"
| "enqueue_step t (MNext x cur) s =
     goto t (case ck_next (mq_chunks s cur) of Some nxt \<Rightarrow> MSwing x cur nxt | None \<Rightarrow> MLink x cur) s"
| "enqueue_step t (MLink x cur) s =
     (case ck_next (mq_chunks s cur) of
        Some nxt \<Rightarrow> goto t (MSwing x cur nxt) s
      | None \<Rightarrow> goto t (MSwing x cur (mq_count s))
          ((on_chunk cur (\<lambda>k. k\<lparr>ck_next := Some (mq_count s)\<rparr>) (on_chunk (mq_count s) (\<lambda>_. Chunk_new) s))
             \<lparr>mq_count := mq_count s + 1\<rparr>))"
| "enqueue_step t (MSwing x cur nxt) s =
     (if mq_tail s = cur then goto t (MAddRef x cur nxt) (s\<lparr>mq_tail := nxt\<rparr>)
      else goto t (MDropTemp x (mq_tail s)) s)"
| "enqueue_step t (MAddRef x cur nxt) s = goto t (MDropTail x cur) (on_chunk nxt ref_add s)"
| "enqueue_step t (MDropTail x cur) s = goto t (MDropTemp x cur) (on_chunk cur ref_sub s)"
| "enqueue_step t (MDropTemp x cur) s = goto t (MStart x) (on_chunk cur ref_sub s)"

definition deq_resume :: "bool \<Rightarrow> 'a mcpc" where
  "deq_resume again = (if again then DTop else DIdle)"

text \<open>
  The consumer's list of retired chunks, its count and the head are its own; \<open>retire_chunk\<close> gives back the
  reference of the head and \<open>try_reclaim\<close> starts a scan once \<open>kScanThreshold\<close> chunks are retired.
\<close>

definition retire_chunk :: "nat \<Rightarrow> 'a mpsc \<Rightarrow> 'a mpsc" where
  "retire_chunk c s = (on_chunk c ref_sub s)\<lparr>mq_retired := c # mq_retired s, mq_retired_count := mq_retired_count s + 1\<rparr>"

definition try_reclaim :: "bool \<Rightarrow> 'a mpsc \<Rightarrow> 'a mpsc" where
  "try_reclaim again s =
     (if mq_retired_count s < kScanThreshold then s\<lparr>mq_consumer := deq_resume again\<rparr>
      else s\<lparr>mq_retired := [], mq_retired_count := 0, mq_consumer := DScan (mq_retired s) [] again\<rparr>)"

fun dequeue_step :: "'a mcpc \<Rightarrow> 'a mpsc \<Rightarrow> 'a mpsc" where
  "dequeue_step DIdle s = s"
| "dequeue_step DTop s =
     (let k = mq_chunks s (mq_head s) in
      if mq_head_pos s < mq_ChunkSize s
      then s\<lparr>mq_consumer := (if ck_ready k (mq_head_pos s) then DTake else DIdle)\<rparr>
      else s\<lparr>mq_consumer := (case ck_next k of None \<Rightarrow> DIdle | Some nxt \<Rightarrow> DRef nxt True)\<rparr>)"
| "dequeue_step DTake s =
     (case ck_store (mq_chunks s (mq_head s)) (mq_head_pos s) of
        None \<Rightarrow> s\<lparr>mq_fault := True\<rparr>
      | Some x \<Rightarrow> (on_chunk (mq_head s) (\<lambda>k. k\<lparr>ck_store := (ck_store k)(mq_head_pos s := None)\<rparr>) s)
                    \<lparr>mq_consumer := DClear x\<rparr>)"
| "dequeue_step (DClear x) s =
     (on_chunk (mq_head s) (\<lambda>k. k\<lparr>ck_ready := (ck_ready k)(mq_head_pos s := False)\<rparr>) s)
       \<lparr>mq_head_pos := mq_head_pos s + 1, mq_out := mq_out s @ [x],
        mq_consumer := (if mq_head_pos s + 1 = mq_ChunkSize s then DNext else DIdle)\<rparr>"
| "dequeue_step DNext s =
     s\<lparr>mq_consumer := (case ck_next (mq_chunks s (mq_head s)) of None \<Rightarrow> DIdle | Some nxt \<Rightarrow> DRef nxt False)\<rparr>"
| "dequeue_step (DRef nxt again) s =
     (on_chunk nxt ref_add s)\<lparr>mq_head := nxt, mq_head_pos := 0, mq_consumer := DDrop (mq_head s) again\<rparr>"
| "dequeue_step (DDrop old again) s = try_reclaim again (retire_chunk old s)"
| "dequeue_step (DScan [] keep again) s =
     s\<lparr>mq_retired := keep @ mq_retired s, mq_consumer := deq_resume again\<rparr>"
| "dequeue_step (DScan (c # cs) keep again) s =
     (if ck_refs (mq_chunks s c) = 0 then s\<lparr>mq_freed := c # mq_freed s, mq_consumer := DScan cs keep again\<rparr>
      else s\<lparr>mq_retired_count := mq_retired_count s + 1, mq_consumer := DScan cs (c # keep) again\<rparr>)"

text \<open>The chunk the next access of a thread touches, if any.\<close>

fun mpc_chunk :: "'a mpc \<Rightarrow> nat option" where
  "mpc_chunk (MRef x c) = Some c"
| "mpc_chunk (MBack x c) = Some c"
| "mpc_chunk (MClaim x c) = Some c"
| "mpc_chunk (MConstruct x c p) = Some c"
| "mpc_chunk (MPublish x c p) = Some c"
| "mpc_chunk (MRelease c) = Some c"
| "mpc_chunk (MNext x c) = Some c"
| "mpc_chunk (MLink x c) = Some c"
| "mpc_chunk (MAddRef x c n) = Some n"
| "mpc_chunk (MDropTail x c) = Some c"
| "mpc_chunk (MDropTemp x c) = Some c"
| "mpc_chunk _ = None"

fun mcpc_chunk :: "nat \<Rightarrow> 'a mcpc \<Rightarrow> nat option" where
  "mcpc_chunk h DTop = Some h"
| "mcpc_chunk h DTake = Some h"
| "mcpc_chunk h (DClear x) = Some h"
| "mcpc_chunk h DNext = Some h"
| "mcpc_chunk h (DRef n b) = Some n"
| "mcpc_chunk h (DDrop c b) = Some c"
| "mcpc_chunk h (DScan (c # cs) keep b) = Some c"
| "mcpc_chunk h _ = None"

definition deleted :: "'a mpsc \<Rightarrow> nat option \<Rightarrow> bool" where
  "deleted s co = (case co of None \<Rightarrow> False | Some c \<Rightarrow> c \<in> set (mq_freed s))"

text \<open>
  The events of an execution: a producer calls \<open>enqueue\<close> or makes its next access, the consumer calls
  \<open>dequeue\<close> or makes its next access.
\<close>

datatype 'a mq_event = ECall nat 'a | EProducer nat | EDequeue | EConsumer

fun mq_event_step :: "'a mq_event \<Rightarrow> 'a mpsc \<Rightarrow> 'a mpsc" where
  "mq_event_step (ECall t x) s =
     (if mq_producers s t = MIdle
      then goto t (MStart x) (s\<lparr>mq_started := (mq_started s)(t := mq_started s t @ [x])\<rparr>) else s)"
| "mq_event_step (EProducer t) s =
     (if deleted s (mpc_chunk (mq_producers s t)) then s\<lparr>mq_fault := True\<rparr>
      else enqueue_step t (mq_producers s t) s)"
| "mq_event_step EDequeue s = (if mq_consumer s = DIdle then s\<lparr>mq_consumer := DTop\<rparr> else s)"
| "mq_event_step EConsumer s =
     (if deleted s (mcpc_chunk (mq_head s) (mq_consumer s)) then s\<lparr>mq_fault := True\<rparr>
      else dequeue_step (mq_consumer s) s)"

inductive mq_reachable :: "nat \<Rightarrow> 'a mpsc \<Rightarrow> bool" for sz where
  start: "mq_reachable sz (MPSCSegQueue_new sz)"
| step: "mq_reachable sz s \<Longrightarrow> \<not> mq_fault s \<Longrightarrow> mq_reachable sz (mq_event_step e s)"

primrec mq_run :: "'a mq_event list \<Rightarrow> 'a mpsc \<Rightarrow> 'a mpsc" where
  "mq_run [] s = s"
| "mq_run (e # es) s = (if mq_fault s then s else mq_run es (mq_event_step e s))"

text \<open>
  The invariant. Claim number \<open>n\<close> is slot \<open>n mod ChunkSize\<close> of chunk \<open>n div ChunkSize\<close>: the tail moves on only
  when its chunk is full, and a chunk beyond the tail has no claims.
\<close>

definition slot_no :: "'a mpsc \<Rightarrow> nat \<Rightarrow> nat \<Rightarrow> nat" where
  "slot_no s c p = c * mq_ChunkSize s + p"

definition chunks_ok :: "'a mpsc \<Rightarrow> bool" where
  "chunks_ok s \<longleftrightarrow> 0 < mq_ChunkSize s \<and> mq_tail s < mq_count s \<and> mq_count s \<le> Suc (Suc (mq_tail s)) \<and> mq_head s < mq_count s \<and>
     (\<forall>c. ck_next (mq_chunks s c) = (if Suc c < mq_count s then Some (Suc c) else None)) \<and>
     (\<forall>c. (Suc c < mq_count s \<longrightarrow> mq_ChunkSize s \<le> ck_idx (mq_chunks s c)) \<and>
          (mq_tail s < c \<longrightarrow> ck_idx (mq_chunks s c) = 0)) \<and>
     length (mq_log s) = mq_tail s * mq_ChunkSize s + min (ck_idx (mq_chunks s (mq_tail s))) (mq_ChunkSize s)"

definition slots_ok :: "'a mpsc \<Rightarrow> bool" where
  "slots_ok s \<longleftrightarrow> (\<forall>c p. ck_ready (mq_chunks s c) p \<longrightarrow>
     p < mq_ChunkSize s \<and> slot_no s c p < length (mq_log s) \<and> length (mq_out s) \<le> slot_no s c p \<and>
     ((\<exists>x. mq_consumer s = DClear x) \<and> c = mq_head s \<and> p = mq_head_pos s \<or>
      ck_store (mq_chunks s c) p = Some (snd (mq_log s ! slot_no s c p))))"

fun owns :: "'a mpsc \<Rightarrow> nat \<Rightarrow> 'a \<Rightarrow> nat \<Rightarrow> nat \<Rightarrow> bool" where
  "owns s t x c p \<longleftrightarrow> p < mq_ChunkSize s \<and> slot_no s c p < length (mq_log s) \<and> mq_log s ! slot_no s c p = (t, x) \<and>
     length (mq_out s) \<le> slot_no s c p \<and> \<not> ck_ready (mq_chunks s c) p"

fun producer_ok :: "'a mpsc \<Rightarrow> nat \<Rightarrow> 'a mpc \<Rightarrow> bool" where
  "producer_ok s t (MRef x c) = (c \<le> mq_tail s)"
| "producer_ok s t (MCheck x c) = (c \<le> mq_tail s)"
| "producer_ok s t (MBack x c) = (c \<le> mq_tail s)"
| "producer_ok s t (MClaim x c) = (c \<le> mq_tail s)"
| "producer_ok s t (MConstruct x c p) = owns s t x c p"
| "producer_ok s t (MPublish x c p) = (owns s t x c p \<and> ck_store (mq_chunks s c) p = Some x)"
| "producer_ok s t (MNext x c) = (c \<le> mq_tail s \<and> mq_ChunkSize s \<le> ck_idx (mq_chunks s c))"
| "producer_ok s t (MLink x c) = (c \<le> mq_tail s \<and> mq_ChunkSize s \<le> ck_idx (mq_chunks s c))"
| "producer_ok s t (MSwing x c n) = (c \<le> mq_tail s \<and> n = Suc c \<and> n < mq_count s)"
| "producer_ok s t _ = True"

fun consumer_ok :: "'a mpsc \<Rightarrow> 'a mcpc \<Rightarrow> bool" where
  "consumer_ok s DTake = (mq_head_pos s < mq_ChunkSize s \<and> ck_ready (mq_chunks s (mq_head s)) (mq_head_pos s))"
| "consumer_ok s (DClear x) = (mq_head_pos s < mq_ChunkSize s \<and> ck_ready (mq_chunks s (mq_head s)) (mq_head_pos s) \<and>
     x = snd (mq_log s ! length (mq_out s)))"
| "consumer_ok s DNext = (mq_head_pos s = mq_ChunkSize s)"
| "consumer_ok s (DRef n b) = (mq_head_pos s = mq_ChunkSize s \<and> n = Suc (mq_head s) \<and> n < mq_count s)"
| "consumer_ok s _ = True"

text \<open>The call a producer has made and not yet claimed a slot for.\<close>

fun pending :: "'a mpc \<Rightarrow> 'a list" where
  "pending MIdle = []"
| "pending (MConstruct x c p) = []"
| "pending (MPublish x c p) = []"
| "pending (MRelease c) = []"
| "pending (MStart x) = [x]"
| "pending (MRef x c) = [x]"
| "pending (MCheck x c) = [x]"
| "pending (MBack x c) = [x]"
| "pending (MClaim x c) = [x]"
| "pending (MNext x c) = [x]"
| "pending (MLink x c) = [x]"
| "pending (MSwing x c n) = [x]"
| "pending (MAddRef x c n) = [x]"
| "pending (MDropTail x c) = [x]"
| "pending (MDropTemp x c) = [x]"

fun writing :: "'a mpc \<Rightarrow> (nat \<times> nat) option" where
  "writing (MConstruct x c p) = Some (c, p)"
| "writing (MPublish x c p) = Some (c, p)"
| "writing _ = None"

definition history_ok :: "'a mpsc \<Rightarrow> bool" where
  "history_ok s \<longleftrightarrow> mq_head_pos s \<le> mq_ChunkSize s \<and> length (mq_out s) = slot_no s (mq_head s) (mq_head_pos s) \<and>
     length (mq_out s) \<le> length (mq_log s) \<and> take (length (mq_out s)) (map snd (mq_log s)) = mq_out s \<and>
     (\<forall>t. mq_started s t = map snd (filter (\<lambda>e. fst e = t) (mq_log s)) @ pending (mq_producers s t))"

definition claims_ok :: "'a mpsc \<Rightarrow> bool" where
  "claims_ok s \<longleftrightarrow> (\<forall>c p. p < mq_ChunkSize s \<and> length (mq_out s) \<le> slot_no s c p \<and> slot_no s c p < length (mq_log s) \<longrightarrow>
     ck_ready (mq_chunks s c) p \<or> (\<exists>t. writing (mq_producers s t) = Some (c, p)))"

definition mq_inv :: "'a mpsc \<Rightarrow> bool" where
  "mq_inv s \<longleftrightarrow> chunks_ok s \<and> slots_ok s \<and> history_ok s \<and> claims_ok s \<and>
     (\<forall>t. producer_ok s t (mq_producers s t)) \<and> consumer_ok s (mq_consumer s)"

end
