(* ===== verification/MPSC_Props.thy ===== *)
theory MPSC_Props
  imports MPSC_Queue
begin

text \<open>
  The proof that the multi-producer queue is first-in first-out for any number of producers and any
  interleaving. Every access of a producer or of the consumer keeps \<open>mq_inv\<close>: the accesses that touch only
  reference counts or a program counter by \<open>inv_inert\<close>, \<open>inv_goto\<close>, \<open>inv_consumer\<close> and \<open>inv_private\<close>, the others
  (a claim, the two slot writes, a link, a move of the tail or of the head, a take) by one lemma each.
\<close>

definition inert :: "('a chunk \<Rightarrow> 'a chunk) \<Rightarrow> bool" where
  "inert f \<longleftrightarrow> (\<forall>k. ck_idx (f k) = ck_idx k \<and> ck_next (f k) = ck_next k \<and> ck_ready (f k) = ck_ready k \<and> ck_store (f k) = ck_store k)"

lemma on_chunk_sel [simp]:
  "mq_ChunkSize (on_chunk c f s) = mq_ChunkSize s" "mq_count (on_chunk c f s) = mq_count s" "mq_tail (on_chunk c f s) = mq_tail s"
  "mq_head (on_chunk c f s) = mq_head s" "mq_head_pos (on_chunk c f s) = mq_head_pos s" "mq_producers (on_chunk c f s) = mq_producers s"
  "mq_consumer (on_chunk c f s) = mq_consumer s" "mq_log (on_chunk c f s) = mq_log s" "mq_out (on_chunk c f s) = mq_out s"
  "mq_started (on_chunk c f s) = mq_started s"
  by (simp_all add: on_chunk_def)

lemma inert_refs: "inert ref_add" "inert ref_sub"
  by (simp_all add: inert_def ref_add_def ref_sub_def)

lemma invD:
  assumes "mq_inv s"
  shows "chunks_ok s" "slots_ok s" "history_ok s" "claims_ok s" "producer_ok s t (mq_producers s t)" "consumer_ok s (mq_consumer s)"
  using assms by (simp_all add: mq_inv_def)

lemma producer_ok_goto: "producer_ok (goto t p s) t' q = producer_ok s t' q"
  by (cases q) (simp_all add: goto_def slot_no_def)

lemma consumer_ok_goto: "consumer_ok (goto t p s) q = consumer_ok s q"
  by (cases q) (simp_all add: goto_def slot_no_def)

lemma inv_goto:
  assumes "mq_inv s" "producer_ok s t p" "pending p = pending (mq_producers s t)" "writing p = writing (mq_producers s t)"
  shows "mq_inv (goto t p s)"
proof -
  have "producer_ok s t' (mq_producers (goto t p s) t')" for t'
    using assms by (simp add: mq_inv_def goto_def)
  moreover have "claims_ok (goto t p s)"
    using assms(1,4) unfolding mq_inv_def claims_ok_def slot_no_def goto_def by simp metis
  moreover have "chunks_ok (goto t p s)"
    using invD(1) [OF assms(1)] by (simp add: goto_def chunks_ok_def)
  moreover have "slots_ok (goto t p s)"
    using invD(2) [OF assms(1)] by (simp add: goto_def slots_ok_def slot_no_def)
  moreover have "history_ok (goto t p s)"
    using assms(1,3) unfolding mq_inv_def history_ok_def slot_no_def goto_def by auto
  moreover have "consumer_ok s (mq_consumer (goto t p s))"
    using assms(1) by (simp add: mq_inv_def goto_def)
  ultimately show ?thesis
    by (simp add: mq_inv_def producer_ok_goto consumer_ok_goto)
qed

lemma inv_inert:
  assumes "mq_inv s" "inert f"
  shows "mq_inv (on_chunk c f s)"
proof -
  have k: "ck_idx (mq_chunks (on_chunk c f s) d) = ck_idx (mq_chunks s d)" "ck_next (mq_chunks (on_chunk c f s) d) = ck_next (mq_chunks s d)"
    "ck_ready (mq_chunks (on_chunk c f s) d) = ck_ready (mq_chunks s d)" "ck_store (mq_chunks (on_chunk c f s) d) = ck_store (mq_chunks s d)" for d
    using assms(2) by (simp_all add: on_chunk_def inert_def)
  have p: "producer_ok (on_chunk c f s) t q = producer_ok s t q" for t q
    by (cases q) (simp_all add: k slot_no_def)
  have q: "consumer_ok (on_chunk c f s) q = consumer_ok s q" for q
    by (cases q) (simp_all add: k)
  have "chunks_ok (on_chunk c f s)"
    using invD(1) [OF assms(1)] unfolding chunks_ok_def k by (simp add: on_chunk_def)
  moreover have "slots_ok (on_chunk c f s)"
    using invD(2) [OF assms(1)] unfolding slots_ok_def k slot_no_def by (simp add: on_chunk_def)
  moreover have "history_ok (on_chunk c f s)"
    using invD(3) [OF assms(1)] unfolding history_ok_def slot_no_def on_chunk_def by auto
  moreover have "claims_ok (on_chunk c f s)"
    using invD(4) [OF assms(1)] unfolding claims_ok_def k slot_no_def by (simp add: on_chunk_def)
  ultimately show ?thesis
    using assms(1) by (simp add: mq_inv_def p q)
qed

lemma slot_no_inj:
  assumes "p < mq_ChunkSize s" "q < mq_ChunkSize s" "slot_no s c p = slot_no s d q"
  shows "c = d \<and> p = q"
proof -
  have "(c * mq_ChunkSize s + p) div mq_ChunkSize s = c" "(d * mq_ChunkSize s + q) div mq_ChunkSize s = d"
    using assms(1,2) by (simp_all add: div_add1_eq)
  thus ?thesis
    using assms(3) by (simp add: slot_no_def)
qed

lemma tail_slot_no:
  assumes "chunks_ok s" "c \<le> mq_tail s" "ck_idx (mq_chunks s c) < mq_ChunkSize s"
  shows "c = mq_tail s" "length (mq_log s) = slot_no s c (ck_idx (mq_chunks s c))" "mq_count s = Suc c"
proof -
  have "\<not> Suc c < mq_count s"
    using assms(1,3) unfolding chunks_ok_def by (metis not_less)
  thus "c = mq_tail s" "mq_count s = Suc c"
    using assms(1,2) unfolding chunks_ok_def by linarith+
  thus "length (mq_log s) = slot_no s c (ck_idx (mq_chunks s c))"
    using assms(1,3) by (simp add: chunks_ok_def slot_no_def)
qed

lemma ready_claimed:
  assumes "slots_ok s" "ck_ready (mq_chunks s c) p"
  shows "p < mq_ChunkSize s" "slot_no s c p < length (mq_log s)" "length (mq_out s) \<le> slot_no s c p"
  using assms unfolding slots_ok_def by blast+

lemma ready_content:
  assumes "slots_ok s" "ck_ready (mq_chunks s c) p"
  shows "(\<exists>x. mq_consumer s = DClear x) \<and> c = mq_head s \<and> p = mq_head_pos s \<or>
    ck_store (mq_chunks s c) p = Some (snd (mq_log s ! slot_no s c p))"
  using assms unfolding slots_ok_def by blast

lemma slots_okI:
  assumes "\<And>c p. ck_ready (mq_chunks s c) p \<Longrightarrow>
    p < mq_ChunkSize s \<and> slot_no s c p < length (mq_log s) \<and> length (mq_out s) \<le> slot_no s c p \<and>
    ((\<exists>x. mq_consumer s = DClear x) \<and> c = mq_head s \<and> p = mq_head_pos s \<or>
     ck_store (mq_chunks s c) p = Some (snd (mq_log s ! slot_no s c p)))"
  shows "slots_ok s"
  using assms unfolding slots_ok_def by blast

text \<open>A claim that gets a slot.\<close>

lemma inv_claim:
  assumes i: "mq_inv s" and m: "mq_producers s t = MClaim x c" and l: "ck_idx (mq_chunks s c) < mq_ChunkSize s"
  shows "mq_inv (enqueue_step t (MClaim x c) s)" (is "mq_inv ?s")
proof -
  define pos where "pos = ck_idx (mq_chunks s c)"
  have s: "?s = s\<lparr>mq_chunks := (mq_chunks s)(c := (mq_chunks s c)\<lparr>ck_idx := Suc pos\<rparr>), mq_log := mq_log s @ [(t, x)],
      mq_producers := (mq_producers s)(t := MConstruct x c pos)\<rparr>"
    using l by (simp add: pos_def goto_def on_chunk_def Let_def)
  have c: "c \<le> mq_tail s"
    using invD(5) [OF i, of t] m by simp
  note tl = tail_slot_no [OF invD(1) [OF i] c l, folded pos_def]
  have nr: "\<not> ck_ready (mq_chunks s c) pos"
    using ready_claimed(2) [OF invD(2) [OF i], of c pos] tl(2) by auto
  have "chunks_ok ?s"
    using invD(1) [OF i] l tl unfolding s chunks_ok_def slot_no_def pos_def by auto
  moreover have "slots_ok ?s"
  proof (rule slots_okI)
    fix d q
    assume "ck_ready (mq_chunks ?s d) q"
    hence r: "ck_ready (mq_chunks s d) q"
      unfolding s by (simp split: if_splits)
    show "q < mq_ChunkSize ?s \<and> slot_no ?s d q < length (mq_log ?s) \<and> length (mq_out ?s) \<le> slot_no ?s d q \<and>
      ((\<exists>x. mq_consumer ?s = DClear x) \<and> d = mq_head ?s \<and> q = mq_head_pos ?s \<or>
       ck_store (mq_chunks ?s d) q = Some (snd (mq_log ?s ! slot_no ?s d q)))"
      using ready_claimed [OF invD(2) [OF i] r] ready_content [OF invD(2) [OF i] r] unfolding s
      by (auto simp: slot_no_def nth_append)
  qed
  moreover have "history_ok ?s"
    using invD(3) [OF i] m unfolding s history_ok_def slot_no_def by auto
  moreover have "claims_ok ?s"
  proof -
    have "ck_ready (mq_chunks s d) q \<or> (\<exists>t. writing (mq_producers ?s t) = Some (d, q))"
      if a: "q < mq_ChunkSize s" "length (mq_out s) \<le> slot_no s d q" "slot_no s d q < Suc (length (mq_log s))" for d q
    proof (cases "slot_no s d q = length (mq_log s)")
      case True
      hence "d = c \<and> q = pos"
        using slot_no_inj [of q s pos d c] tl(2) l a(1) by (simp add: pos_def)
      thus ?thesis
        unfolding s by (intro disjI2 exI [of _ t]) simp
    next
      case False
      then consider "ck_ready (mq_chunks s d) q" | u where "writing (mq_producers s u) = Some (d, q)"
        using invD(4) [OF i] a unfolding claims_ok_def by (metis less_SucE)
      thus ?thesis
      proof cases
        case (2 u)
        thus ?thesis
          using m unfolding s by (intro disjI2 exI [of _ u]) auto
      qed simp
    qed
    thus ?thesis
      unfolding claims_ok_def s slot_no_def by auto
  qed
  moreover have "producer_ok ?s u (mq_producers ?s u)" for u
  proof (cases "u = t")
    case True
    thus ?thesis
      using tl(2) l nr invD(3) [OF i] unfolding s by (auto simp: slot_no_def pos_def history_ok_def nth_append)
  next
    case False
    thus ?thesis
      using invD(5) [OF i, of u] unfolding s by (cases "mq_producers s u") (auto simp: slot_no_def pos_def nth_append)
  qed
  moreover have "consumer_ok ?s (mq_consumer ?s)"
    using invD(6) [OF i] ready_claimed [OF invD(2) [OF i]] invD(3) [OF i] unfolding s
    by (cases "mq_consumer s") (auto simp: nth_append slot_no_def history_ok_def)
  ultimately show ?thesis
    by (simp add: mq_inv_def)
qed

lemma inv_claim_full:
  assumes i: "mq_inv s" and l: "mq_ChunkSize s \<le> ck_idx (mq_chunks s c)" "c \<le> mq_tail s"
  shows "mq_inv (on_chunk c (\<lambda>k. k\<lparr>ck_idx := Suc (ck_idx (mq_chunks s c))\<rparr>) s)" (is "mq_inv ?s")
proof -
  have s: "?s = s\<lparr>mq_chunks := (mq_chunks s)(c := (mq_chunks s c)\<lparr>ck_idx := Suc (ck_idx (mq_chunks s c))\<rparr>)\<rparr>"
    by (simp add: on_chunk_def)
  have k: "ck_next (mq_chunks ?s d) = ck_next (mq_chunks s d)" "ck_ready (mq_chunks ?s d) = ck_ready (mq_chunks s d)"
    "ck_store (mq_chunks ?s d) = ck_store (mq_chunks s d)" for d
    unfolding s by simp_all
  have "chunks_ok ?s"
    using invD(1) [OF i] l unfolding chunks_ok_def k by (auto simp: s le_Suc_eq)
  moreover have "slots_ok ?s"
    using invD(2) [OF i] unfolding slots_ok_def k slot_no_def by (simp add: s)
  moreover have "history_ok ?s"
    using invD(3) [OF i] unfolding history_ok_def slot_no_def s by auto
  moreover have "claims_ok ?s"
    using invD(4) [OF i] unfolding claims_ok_def k slot_no_def by (simp add: s)
  moreover have "producer_ok ?s u (mq_producers ?s u)" for u
    using invD(5) [OF i, of u] unfolding s by (cases "mq_producers s u") (auto simp: slot_no_def)
  moreover have "consumer_ok ?s (mq_consumer ?s)"
    using invD(6) [OF i] unfolding s by (cases "mq_consumer s") auto
  ultimately show ?thesis
    by (simp add: mq_inv_def)
qed

text \<open>The two writes of a producer to the slot it owns.\<close>

lemma inv_construct:
  assumes i: "mq_inv s" and m: "mq_producers s t = MConstruct x c p"
  shows "mq_inv (on_chunk c (\<lambda>k. k\<lparr>ck_store := (ck_store k)(p := Some x)\<rparr>) s)" (is "mq_inv ?s")
proof -
  have s: "?s = s\<lparr>mq_chunks := (mq_chunks s)(c := (mq_chunks s c)\<lparr>ck_store := (ck_store (mq_chunks s c))(p := Some x)\<rparr>)\<rparr>"
    by (simp add: on_chunk_def)
  have o: "owns s t x c p"
    using invD(5) [OF i, of t] m by simp
  have k: "ck_next (mq_chunks ?s d) = ck_next (mq_chunks s d)" "ck_ready (mq_chunks ?s d) = ck_ready (mq_chunks s d)"
    "ck_idx (mq_chunks ?s d) = ck_idx (mq_chunks s d)" for d
    unfolding s by simp_all
  have "chunks_ok ?s"
    using invD(1) [OF i] unfolding chunks_ok_def k by (simp add: s)
  moreover have "slots_ok ?s"
  proof (rule slots_okI)
    fix d q
    assume "ck_ready (mq_chunks ?s d) q"
    hence r: "ck_ready (mq_chunks s d) q"
      unfolding k .
    hence "(d, q) \<noteq> (c, p)"
      using o by auto
    thus "q < mq_ChunkSize ?s \<and> slot_no ?s d q < length (mq_log ?s) \<and> length (mq_out ?s) \<le> slot_no ?s d q \<and>
      ((\<exists>x. mq_consumer ?s = DClear x) \<and> d = mq_head ?s \<and> q = mq_head_pos ?s \<or>
       ck_store (mq_chunks ?s d) q = Some (snd (mq_log ?s ! slot_no ?s d q)))"
      using ready_claimed [OF invD(2) [OF i] r] ready_content [OF invD(2) [OF i] r] unfolding s
      by (auto simp: slot_no_def)
  qed
  moreover have "history_ok ?s"
    using invD(3) [OF i] unfolding history_ok_def slot_no_def s by auto
  moreover have "claims_ok ?s"
    using invD(4) [OF i] unfolding claims_ok_def k slot_no_def by (simp add: s)
  moreover have "producer_ok ?s u (mq_producers ?s u)" for u
  proof (cases "u = t")
    case True
    thus ?thesis
      using o m unfolding s by (simp add: slot_no_def)
  next
    case False
    thus ?thesis
      using invD(5) [OF i, of u] o unfolding s by (cases "mq_producers s u") (auto simp: slot_no_def)
  qed
  moreover have "consumer_ok ?s (mq_consumer ?s)"
    using invD(6) [OF i] unfolding s by (cases "mq_consumer s") auto
  ultimately show ?thesis
    by (simp add: mq_inv_def)
qed

lemma inv_publish:
  assumes i: "mq_inv s" and m: "mq_producers s t = MPublish x c p"
  shows "mq_inv (enqueue_step t (MPublish x c p) s)" 
proof -
  define s' where "s' = enqueue_step t (MPublish x c p) s"
  have s: "s' = s\<lparr>mq_chunks := (mq_chunks s)(c := (mq_chunks s c)\<lparr>ck_ready := (ck_ready (mq_chunks s c))(p := True)\<rparr>),
      mq_producers := (mq_producers s)(t := MRelease c)\<rparr>"
    by (simp add: s'_def on_chunk_def goto_def)
  have o: "owns s t x c p" "ck_store (mq_chunks s c) p = Some x"
    using invD(5) [OF i, of t] m by simp_all
  have k: "ck_next (mq_chunks s' d) = ck_next (mq_chunks s d)" "ck_store (mq_chunks s' d) = ck_store (mq_chunks s d)"
    "ck_idx (mq_chunks s' d) = ck_idx (mq_chunks s d)"
    "ck_ready (mq_chunks s' d) q \<longleftrightarrow> ck_ready (mq_chunks s d) q \<or> (d, q) = (c, p)" for d q
    unfolding s by simp_all
  have "chunks_ok s'"
    using invD(1) [OF i] unfolding chunks_ok_def k by (simp add: s)
  moreover have "slots_ok s'"
  proof (rule slots_okI)
    fix d q
    assume "ck_ready (mq_chunks s' d) q"
    then consider (new) "d = c" "q = p" | (old) "ck_ready (mq_chunks s d) q"
      unfolding k by blast
    thus "q < mq_ChunkSize s' \<and> slot_no s' d q < length (mq_log s') \<and> length (mq_out s') \<le> slot_no s' d q \<and>
      ((\<exists>x. mq_consumer s' = DClear x) \<and> d = mq_head s' \<and> q = mq_head_pos s' \<or>
       ck_store (mq_chunks s' d) q = Some (snd (mq_log s' ! slot_no s' d q)))"
    proof cases
      case new
      thus ?thesis
        using o unfolding k by (simp add: s slot_no_def)
    next
      case old
      show ?thesis
        using ready_claimed [OF invD(2) [OF i] old] ready_content [OF invD(2) [OF i] old] unfolding k
        by (simp add: s slot_no_def)
    qed
  qed
  moreover have "history_ok s'"
    using invD(3) [OF i] m unfolding history_ok_def slot_no_def s by auto
  moreover have "claims_ok s'"
    unfolding claims_ok_def k
  proof (intro allI impI)
    fix d q
    assume "q < mq_ChunkSize s' \<and> length (mq_out s') \<le> slot_no s' d q \<and> slot_no s' d q < length (mq_log s')"
    hence "ck_ready (mq_chunks s d) q \<or> (\<exists>u. writing (mq_producers s u) = Some (d, q))"
      using invD(4) [OF i] unfolding claims_ok_def by (simp add: s slot_no_def)
    thus "(ck_ready (mq_chunks s d) q \<or> (d, q) = (c, p)) \<or> (\<exists>u. writing (mq_producers s' u) = Some (d, q))"
    proof (elim disjE exE)
      fix u
      assume "writing (mq_producers s u) = Some (d, q)"
      thus ?thesis
        using m by (cases "u = t") (auto simp: s)
    qed simp
  qed
  moreover have "producer_ok s' u (mq_producers s' u)" for u
    using invD(5) [OF i, of u] o unfolding s by (cases "mq_producers s u") (auto simp: slot_no_def)
  moreover have "consumer_ok s' (mq_consumer s')"
    using invD(6) [OF i] unfolding s by (cases "mq_consumer s") auto
  ultimately show ?thesis
    unfolding s'_def [symmetric] by (simp add: mq_inv_def)
qed

text \<open>Linking a chunk and moving the tail to it.\<close>

lemma claimed_chunk:
  assumes "chunks_ok s" "slot_no s c p < length (mq_log s)"
  shows "c < mq_count s"
proof -
  have "length (mq_log s) \<le> Suc (mq_tail s) * mq_ChunkSize s"
    using assms(1) by (simp add: chunks_ok_def)
  hence "c * mq_ChunkSize s < Suc (mq_tail s) * mq_ChunkSize s"
    using assms(2) by (simp add: slot_no_def)
  thus ?thesis
    using assms(1) unfolding mult_less_cancel2 chunks_ok_def by linarith
qed

lemma inv_link:
  assumes i: "mq_inv s" and m: "mq_producers s t = MLink x c" and n: "ck_next (mq_chunks s c) = None"
  shows "mq_inv ((on_chunk c (\<lambda>k. k\<lparr>ck_next := Some (mq_count s)\<rparr>) (on_chunk (mq_count s) (\<lambda>_. Chunk_new) s))
             \<lparr>mq_count := mq_count s + 1\<rparr>)" (is "mq_inv ?s")
    and "mq_count s = Suc c"
proof -
  have c: "c \<le> mq_tail s" "mq_ChunkSize s \<le> ck_idx (mq_chunks s c)"
    using invD(5) [OF i, of t] m by simp_all
  have "\<not> Suc c < mq_count s"
    using invD(1) [OF i] n unfolding chunks_ok_def by (metis option.distinct(1))
  thus e: "mq_count s = Suc c"
    using c(1) invD(1) [OF i] unfolding chunks_ok_def by linarith
  hence tl: "mq_tail s = c"
    using c(1) invD(1) [OF i] unfolding chunks_ok_def by linarith
  have s: "?s = s\<lparr>mq_chunks := (mq_chunks s)(Suc c := Chunk_new, c := (mq_chunks s c)\<lparr>ck_next := Some (Suc c)\<rparr>), mq_count := Suc (Suc c)\<rparr>"
    by (simp add: on_chunk_def e)
  have k: "d < mq_count s \<Longrightarrow> ck_ready (mq_chunks ?s d) = ck_ready (mq_chunks s d)"
    "d < mq_count s \<Longrightarrow> ck_store (mq_chunks ?s d) = ck_store (mq_chunks s d)"
    "ck_ready (mq_chunks ?s d) q \<Longrightarrow> ck_ready (mq_chunks s d) q" for d q
    unfolding s by (auto simp: e Chunk_new_def split: if_splits)
  have "chunks_ok ?s"
    using invD(1) [OF i] c e tl unfolding chunks_ok_def s by (auto simp: Chunk_new_def less_Suc_eq)
  moreover have "slots_ok ?s"
  proof (rule slots_okI)
    fix d q
    assume "ck_ready (mq_chunks ?s d) q"
    note r = k(3) [OF this]
    note d = claimed_chunk [OF invD(1) [OF i] ready_claimed(2) [OF invD(2) [OF i] r]]
    show "q < mq_ChunkSize ?s \<and> slot_no ?s d q < length (mq_log ?s) \<and> length (mq_out ?s) \<le> slot_no ?s d q \<and>
      ((\<exists>x. mq_consumer ?s = DClear x) \<and> d = mq_head ?s \<and> q = mq_head_pos ?s \<or>
       ck_store (mq_chunks ?s d) q = Some (snd (mq_log ?s ! slot_no ?s d q)))"
      using ready_claimed [OF invD(2) [OF i] r] ready_content [OF invD(2) [OF i] r] unfolding k(2) [OF d]
      by (simp add: s slot_no_def)
  qed
  moreover have "history_ok ?s"
    using invD(3) [OF i] unfolding history_ok_def slot_no_def s by auto
  moreover have "claims_ok ?s"
    unfolding claims_ok_def
  proof (intro allI impI)
    fix d q
    assume a: "q < mq_ChunkSize ?s \<and> length (mq_out ?s) \<le> slot_no ?s d q \<and> slot_no ?s d q < length (mq_log ?s)"
    have "d < mq_count s"
      using a claimed_chunk [OF invD(1) [OF i], of d q] by (simp add: s slot_no_def)
    thus "ck_ready (mq_chunks ?s d) q \<or> (\<exists>u. writing (mq_producers ?s u) = Some (d, q))"
      using invD(4) [OF i] a k(1) [of d] unfolding claims_ok_def by (simp add: s slot_no_def)
  qed
  moreover have "producer_ok ?s u (mq_producers ?s u)" for u
    using invD(5) [OF i, of u] claimed_chunk [OF invD(1) [OF i]] e c unfolding s
    by (cases "mq_producers s u") (auto simp: slot_no_def Chunk_new_def tl)
  moreover have "consumer_ok ?s (mq_consumer ?s)"
    using invD(6) [OF i] invD(1) [OF i] e unfolding s by (cases "mq_consumer s") (auto simp: chunks_ok_def)
  ultimately show "mq_inv ?s"
    by (simp add: mq_inv_def)
qed

lemma inv_swing:
  assumes i: "mq_inv s" and m: "mq_producers s t = MSwing x c n" and tl: "mq_tail s = c"
  shows "mq_inv (s\<lparr>mq_tail := n\<rparr>)" (is "mq_inv ?s")
proof -
  have n: "n = Suc c" "n < mq_count s"
    using invD(5) [OF i, of t] m by simp_all
  have "chunks_ok ?s"
    using invD(1) [OF i] n tl unfolding chunks_ok_def by (auto simp: min_def)
  moreover have "slots_ok ?s"
    using invD(2) [OF i] unfolding slots_ok_def slot_no_def by simp
  moreover have "history_ok ?s"
    using invD(3) [OF i] unfolding history_ok_def slot_no_def by auto
  moreover have "claims_ok ?s"
    using invD(4) [OF i] unfolding claims_ok_def slot_no_def by simp
  moreover have "producer_ok ?s u (mq_producers ?s u)" for u
    using invD(5) [OF i, of u] n tl by (cases "mq_producers s u") (auto simp: slot_no_def)
  moreover have "consumer_ok ?s (mq_consumer ?s)"
    using invD(6) [OF i] by (cases "mq_consumer s") auto
  ultimately show ?thesis
    by (simp add: mq_inv_def)
qed

text \<open>Every access of a producer, and a new call.\<close>

lemma inv_enqueue_step:
  assumes i: "mq_inv s" and m: "mq_producers s t = pc"
  shows "mq_inv (enqueue_step t pc s)"
proof (cases pc)
  case (MClaim x c)
  have c: "c \<le> mq_tail s"
    using invD(5) [OF i, of t] m MClaim by simp
  show ?thesis
  proof (cases "ck_idx (mq_chunks s c) < mq_ChunkSize s")
    case True
    thus ?thesis
      using inv_claim [OF i] m MClaim by simp
  next
    case False
    hence "mq_inv (goto t (MNext x c) (on_chunk c (\<lambda>k. k\<lparr>ck_idx := Suc (ck_idx (mq_chunks s c))\<rparr>) s))"
      using c m MClaim by (intro inv_goto inv_claim_full i) (simp_all add: on_chunk_def)
    thus ?thesis
      using False MClaim by (simp add: Let_def)
  qed
next
  case (MConstruct x c p)
  have "owns s t x c p"
    using invD(5) [OF i, of t] m MConstruct by simp
  thus ?thesis
    using m MConstruct unfolding MConstruct enqueue_step.simps
    by (intro inv_goto inv_construct [OF i]) (simp_all add: on_chunk_def slot_no_def)
next
  case (MPublish x c p)
  thus ?thesis
    using inv_publish [OF i] m by simp
next
  case (MNext x c)
  thus ?thesis
    using invD(5) [OF i, of t] m invD(1) [OF i]
    by (auto intro!: inv_goto [OF i] split: option.split simp: chunks_ok_def)
next
  case (MLink x c)
  show ?thesis
  proof (cases "ck_next (mq_chunks s c)")
    case None
    show ?thesis
      using inv_link [OF i _ None, of t x] m MLink invD(5) [OF i, of t] None
      by (auto intro!: inv_goto simp: on_chunk_def)
  next
    case (Some n)
    thus ?thesis
      using invD(5) [OF i, of t] m MLink invD(1) [OF i]
      by (auto intro!: inv_goto [OF i] simp: chunks_ok_def split: if_splits)
  qed
next
  case (MSwing x c n)
  show ?thesis
    using inv_swing [OF i, of t x c n] m MSwing by (auto intro!: inv_goto inv_goto [OF i])
qed (use m invD(5) [OF i, of t] in \<open>auto intro!: inv_goto inv_goto [OF i] inv_inert [OF i] inert_refs i\<close>)

lemma inv_call:
  assumes i: "mq_inv s" and m: "mq_producers s t = MIdle"
  shows "mq_inv (goto t (MStart x) (s\<lparr>mq_started := (mq_started s)(t := mq_started s t @ [x])\<rparr>))" (is "mq_inv ?s")
proof -
  have s: "?s = s\<lparr>mq_started := (mq_started s)(t := mq_started s t @ [x]), mq_producers := (mq_producers s)(t := MStart x)\<rparr>"
    by (simp add: goto_def)
  have "chunks_ok ?s"
    using invD(1) [OF i] unfolding s chunks_ok_def by simp
  moreover have "slots_ok ?s"
    using invD(2) [OF i] unfolding s slots_ok_def slot_no_def by simp
  moreover have "history_ok ?s"
    using invD(3) [OF i] m unfolding s history_ok_def slot_no_def by auto
  moreover have "claims_ok ?s"
  proof -
    have "writing (mq_producers ?s u) = writing (mq_producers s u)" for u
      using m by (simp add: s)
    thus ?thesis
      using invD(4) [OF i] unfolding claims_ok_def slot_no_def by (simp add: s)
  qed
  moreover have "producer_ok ?s u (mq_producers ?s u)" for u
    using invD(5) [OF i, of u] unfolding s by (cases "mq_producers s u") (auto simp: slot_no_def)
  moreover have "consumer_ok ?s (mq_consumer ?s)"
    using invD(6) [OF i] unfolding s by (cases "mq_consumer s") auto
  ultimately show ?thesis
    by (simp add: mq_inv_def)
qed

text \<open>The consumer: steps that only move its program counter or its own list of retired chunks.\<close>

lemma inv_consumer:
  assumes i: "mq_inv s" and n: "\<And>x. mq_consumer s \<noteq> DClear x" and q: "consumer_ok s q"
  shows "mq_inv (s\<lparr>mq_consumer := q\<rparr>)" (is "mq_inv ?s")
proof -
  have "chunks_ok ?s"
    using invD(1) [OF i] unfolding chunks_ok_def by simp
  moreover have "slots_ok ?s"
    using invD(2) [OF i] n unfolding slots_ok_def slot_no_def by simp
  moreover have "history_ok ?s"
    using invD(3) [OF i] unfolding history_ok_def slot_no_def by auto
  moreover have "claims_ok ?s"
    using invD(4) [OF i] unfolding claims_ok_def slot_no_def by simp
  moreover have "producer_ok ?s u (mq_producers ?s u)" for u
    using invD(5) [OF i, of u] by (cases "mq_producers s u") (auto simp: slot_no_def)
  moreover have "consumer_ok ?s (mq_consumer ?s)"
    using q by (cases q) auto
  ultimately show ?thesis
    by (simp add: mq_inv_def)
qed

lemma inv_private:
  assumes i: "mq_inv s"
  shows "mq_inv (s\<lparr>mq_retired := rs, mq_retired_count := n, mq_freed := fs, mq_fault := b\<rparr>)" (is "mq_inv ?s")
proof -
  have "chunks_ok ?s"
    using invD(1) [OF i] unfolding chunks_ok_def by simp
  moreover have "slots_ok ?s"
    using invD(2) [OF i] unfolding slots_ok_def slot_no_def by simp
  moreover have "history_ok ?s"
    using invD(3) [OF i] unfolding history_ok_def slot_no_def by auto
  moreover have "claims_ok ?s"
    using invD(4) [OF i] unfolding claims_ok_def slot_no_def by simp
  moreover have "producer_ok ?s u (mq_producers ?s u)" for u
    using invD(5) [OF i, of u] by (cases "mq_producers s u") (auto simp: slot_no_def)
  moreover have "consumer_ok ?s (mq_consumer ?s)"
    using invD(6) [OF i] by (cases "mq_consumer s") auto
  ultimately show ?thesis
    by (simp add: mq_inv_def)
qed

text \<open>Taking an element out of the head slot and handing the slot back.\<close>

lemma head_slot_no:
  assumes "mq_inv s"
  shows "slot_no s (mq_head s) (mq_head_pos s) = length (mq_out s)"
  using invD(3) [OF assms] by (simp add: history_ok_def)

lemma take_content:
  assumes i: "mq_inv s" and m: "mq_consumer s = DTake"
  shows "ck_store (mq_chunks s (mq_head s)) (mq_head_pos s) = Some (snd (mq_log s ! length (mq_out s)))"
proof -
  have r: "ck_ready (mq_chunks s (mq_head s)) (mq_head_pos s)"
    using invD(6) [OF i] m by simp
  show ?thesis
    using ready_content [OF invD(2) [OF i] r] m by (simp add: head_slot_no [OF i])
qed

lemma inv_take:
  assumes i: "mq_inv s" and m: "mq_consumer s = DTake"
  shows "mq_inv (dequeue_step DTake s)"
proof -
  define s' where "s' = dequeue_step DTake s"
  define h where "h = mq_head s"
  define p where "p = mq_head_pos s"
  have s: "s' = s\<lparr>mq_chunks := (mq_chunks s)(h := (mq_chunks s h)\<lparr>ck_store := (ck_store (mq_chunks s h))(p := None)\<rparr>),
      mq_consumer := DClear (snd (mq_log s ! length (mq_out s)))\<rparr>"
    by (simp add: s'_def take_content [OF i m] h_def p_def on_chunk_def)
  have r: "ck_ready (mq_chunks s h) p" "p < mq_ChunkSize s"
    using invD(6) [OF i] m by (simp_all add: h_def p_def)
  have k: "ck_next (mq_chunks s' d) = ck_next (mq_chunks s d)" "ck_ready (mq_chunks s' d) = ck_ready (mq_chunks s d)"
    "ck_idx (mq_chunks s' d) = ck_idx (mq_chunks s d)" for d
    unfolding s by simp_all
  have "chunks_ok s'"
    using invD(1) [OF i] unfolding chunks_ok_def k by (simp add: s)
  moreover have "slots_ok s'"
  proof (rule slots_okI)
    fix d q
    assume "ck_ready (mq_chunks s' d) q"
    hence r: "ck_ready (mq_chunks s d) q"
      unfolding k .
    show "q < mq_ChunkSize s' \<and> slot_no s' d q < length (mq_log s') \<and> length (mq_out s') \<le> slot_no s' d q \<and>
      ((\<exists>x. mq_consumer s' = DClear x) \<and> d = mq_head s' \<and> q = mq_head_pos s' \<or>
       ck_store (mq_chunks s' d) q = Some (snd (mq_log s' ! slot_no s' d q)))"
      using ready_claimed [OF invD(2) [OF i] r] ready_content [OF invD(2) [OF i] r] m unfolding s
      by (auto simp: slot_no_def h_def p_def)
  qed
  moreover have "history_ok s'"
    using invD(3) [OF i] unfolding history_ok_def slot_no_def s by auto
  moreover have "claims_ok s'"
    using invD(4) [OF i] unfolding claims_ok_def k slot_no_def by (simp add: s)
  moreover have "producer_ok s' u (mq_producers s' u)" for u
    using invD(5) [OF i, of u] r unfolding s by (cases "mq_producers s u") (auto simp: slot_no_def)
  moreover have "consumer_ok s' (mq_consumer s')"
    using r unfolding s by (simp add: h_def p_def)
  ultimately show ?thesis
    unfolding s'_def [symmetric] by (simp add: mq_inv_def)
qed

lemma past_head:
  assumes i: "mq_inv s" and h: "mq_head_pos s < mq_ChunkSize s" and q: "q < mq_ChunkSize s"
    and l: "length (mq_out s) \<le> slot_no s d q" and n: "(d, q) \<noteq> (mq_head s, mq_head_pos s)"
  shows "Suc (length (mq_out s)) \<le> slot_no s d q"
proof (rule ccontr)
  assume "\<not> Suc (length (mq_out s)) \<le> slot_no s d q"
  hence "slot_no s d q = slot_no s (mq_head s) (mq_head_pos s)"
    using l by (simp add: head_slot_no [OF i])
  thus False
    using slot_no_inj [OF q h] n by blast
qed

lemma inv_clear:
  assumes i: "mq_inv s" and m: "mq_consumer s = DClear x"
  shows "mq_inv (dequeue_step (DClear x) s)"
proof -
  define s' where "s' = dequeue_step (DClear x) s"
  define h where "h = mq_head s"
  define p where "p = mq_head_pos s"
  have s: "s' = s\<lparr>mq_chunks := (mq_chunks s)(h := (mq_chunks s h)\<lparr>ck_ready := (ck_ready (mq_chunks s h))(p := False)\<rparr>),
      mq_head_pos := Suc p, mq_out := mq_out s @ [x], mq_consumer := (if Suc p = mq_ChunkSize s then DNext else DIdle)\<rparr>"
    by (simp add: s'_def h_def p_def on_chunk_def)
  have r: "ck_ready (mq_chunks s h) p" "p < mq_ChunkSize s" "x = snd (mq_log s ! length (mq_out s))"
    using invD(6) [OF i] m by (simp_all add: h_def p_def)
  have l: "length (mq_out s) < length (mq_log s)"
    using ready_claimed(2) [OF invD(2) [OF i] r(1)] head_slot_no [OF i] by (simp add: h_def p_def)
  note past = past_head [OF i r(2) [unfolded p_def], folded h_def p_def]
  have k: "ck_next (mq_chunks s' d) = ck_next (mq_chunks s d)" "ck_store (mq_chunks s' d) = ck_store (mq_chunks s d)"
    "ck_idx (mq_chunks s' d) = ck_idx (mq_chunks s d)"
    "ck_ready (mq_chunks s' d) q \<longleftrightarrow> ck_ready (mq_chunks s d) q \<and> (d, q) \<noteq> (h, p)" for d q
    unfolding s by simp_all
  have "chunks_ok s'"
    using invD(1) [OF i] unfolding chunks_ok_def k by (simp add: s)
  moreover have "slots_ok s'"
  proof (rule slots_okI)
    fix d q
    assume "ck_ready (mq_chunks s' d) q"
    hence a: "ck_ready (mq_chunks s d) q" "(d, q) \<noteq> (h, p)"
      unfolding k by simp_all
    note c = ready_claimed [OF invD(2) [OF i] a(1)]
    show "q < mq_ChunkSize s' \<and> slot_no s' d q < length (mq_log s') \<and> length (mq_out s') \<le> slot_no s' d q \<and>
      ((\<exists>x. mq_consumer s' = DClear x) \<and> d = mq_head s' \<and> q = mq_head_pos s' \<or>
       ck_store (mq_chunks s' d) q = Some (snd (mq_log s' ! slot_no s' d q)))"
      using c past [OF c(1,3) a(2)] ready_content [OF invD(2) [OF i] a(1)] a(2) unfolding k
      by (auto simp: s slot_no_def h_def p_def)
  qed
  moreover have "history_ok s'"
    using invD(3) [OF i] l r unfolding history_ok_def slot_no_def s
    by (auto simp: take_Suc_conv_app_nth p_def)
  moreover have "claims_ok s'"
    unfolding claims_ok_def k
  proof (intro allI impI)
    fix d q
    assume a: "q < mq_ChunkSize s' \<and> length (mq_out s') \<le> slot_no s' d q \<and> slot_no s' d q < length (mq_log s')"
    hence "(d, q) \<noteq> (h, p)"
      using head_slot_no [OF i] by (auto simp: s slot_no_def h_def p_def)
    thus "ck_ready (mq_chunks s d) q \<and> (d, q) \<noteq> (h, p) \<or> (\<exists>u. writing (mq_producers s' u) = Some (d, q))"
      using invD(4) [OF i] a unfolding claims_ok_def by (simp add: s slot_no_def)
  qed
  moreover have "producer_ok s' u (mq_producers s' u)" for u
    using invD(5) [OF i, of u] r(1) past unfolding s by (cases "mq_producers s u") (auto simp: slot_no_def)
  moreover have "consumer_ok s' (mq_consumer s')"
    unfolding s by simp
  ultimately show ?thesis
    unfolding s'_def [symmetric] by (simp add: mq_inv_def)
qed

lemma inv_advance:
  assumes i: "mq_inv s" and m: "mq_consumer s = DRef n b"
  shows "mq_inv (s\<lparr>mq_head := n, mq_head_pos := 0, mq_consumer := DDrop (mq_head s) b\<rparr>)" (is "mq_inv ?s")
proof -
  have n: "mq_head_pos s = mq_ChunkSize s" "n = Suc (mq_head s)" "n < mq_count s"
    using invD(6) [OF i] m by simp_all
  have "chunks_ok ?s"
    using invD(1) [OF i] n unfolding chunks_ok_def by simp
  moreover have "slots_ok ?s"
    using invD(2) [OF i] m unfolding slots_ok_def slot_no_def by simp
  moreover have "history_ok ?s"
    using invD(3) [OF i] n unfolding history_ok_def slot_no_def by (auto simp: add.commute)
  moreover have "claims_ok ?s"
    using invD(4) [OF i] unfolding claims_ok_def slot_no_def by simp
  moreover have "producer_ok ?s u (mq_producers ?s u)" for u
    using invD(5) [OF i, of u] by (cases "mq_producers s u") (auto simp: slot_no_def)
  ultimately show ?thesis
    by (simp add: mq_inv_def)
qed

lemma on_chunk_commute: "on_chunk c f s\<lparr>mq_head := n, mq_head_pos := p, mq_consumer := q\<rparr> = on_chunk c f (s\<lparr>mq_head := n, mq_head_pos := p, mq_consumer := q\<rparr>)"
  by (simp add: on_chunk_def)

lemma inv_free:
  assumes "mq_inv s" "\<And>x. mq_consumer s \<noteq> DClear x" "consumer_ok s q"
  shows "mq_inv (s\<lparr>mq_retired := rs, mq_retired_count := n, mq_freed := fs, mq_consumer := q\<rparr>)"
proof -
  let ?s = "s\<lparr>mq_retired := rs, mq_retired_count := n, mq_freed := fs\<rparr>"
  have "mq_inv ?s"
    using inv_private [OF assms(1), where rs = rs and n = n and fs = fs and b = "mq_fault s"] by simp
  moreover have "consumer_ok ?s q"
    using assms(3) by (cases q) simp_all
  ultimately show ?thesis
    using inv_consumer [of ?s q] assms(2) by simp
qed

lemma inv_dequeue_step:
  assumes i: "mq_inv s" and m: "mq_consumer s = pc"
  shows "mq_inv (dequeue_step pc s)"
proof (cases pc)
  case DTop
  thus ?thesis
    using invD(1,3) [OF i] m
    by (auto intro!: inv_consumer [OF i] simp: Let_def chunks_ok_def history_ok_def split: option.split)
next
  case DTake
  thus ?thesis
    using inv_take [OF i] m by simp
next
  case (DClear x)
  thus ?thesis
    using inv_clear [OF i] m by simp
next
  case DNext
  thus ?thesis
    using invD(1,6) [OF i] m by (auto intro!: inv_consumer [OF i] simp: chunks_ok_def split: option.split)
next
  case (DRef n b)
  thus ?thesis
    using inv_inert [OF inv_advance [OF i, of n b] inert_refs(1), of n] m by (simp add: on_chunk_commute)
next
  case (DDrop c b)
  let ?s = "on_chunk c ref_sub s"
  have "mq_inv (?s\<lparr>mq_retired := rs, mq_retired_count := n, mq_freed := mq_freed ?s, mq_consumer := q\<rparr>)"
    if "q = deq_resume b \<or> q = DScan (c # mq_retired s) [] b" for rs n q
    using m DDrop that by (intro inv_free inv_inert [OF i] inert_refs) (auto simp: deq_resume_def)
  from this [where q = "deq_resume b" and rs = "c # mq_retired s" and n = "mq_retired_count s + 1"]
    this [where q = "DScan (c # mq_retired s) [] b" and rs = "[]" and n = 0]
  show ?thesis
    using DDrop by (auto simp: try_reclaim_def retire_chunk_def on_chunk_def)
next
  case (DScan cs keep b)
  have "mq_inv (s\<lparr>mq_retired := rs, mq_retired_count := n, mq_freed := fs, mq_consumer := q\<rparr>)"
    if "q = deq_resume b \<or> (\<exists>cs keep. q = DScan cs keep b)" for rs n fs q
    using m DScan that by (intro inv_free [OF i]) (auto simp: deq_resume_def)
  note this [where q = "deq_resume b" and rs = "keep @ mq_retired s" and n = "mq_retired_count s" and fs = "mq_freed s"]
    this [where q = "DScan (tl cs) keep b" and rs = "mq_retired s" and n = "mq_retired_count s" and fs = "hd cs # mq_freed s"]
    this [where q = "DScan (tl cs) (hd cs # keep) b" and rs = "mq_retired s" and n = "Suc (mq_retired_count s)" and fs = "mq_freed s"]
  thus ?thesis
    using DScan by (cases cs) auto
qed (simp add: i)

lemma inv_event:
  assumes i: "mq_inv s"
  shows "mq_inv (mq_event_step e s)"
proof -
  have f: "mq_inv (s\<lparr>mq_fault := True\<rparr>)"
    using inv_private [OF i, where rs = "mq_retired s" and n = "mq_retired_count s" and fs = "mq_freed s" and b = True] by simp
  show ?thesis
    by (cases e) (use i in \<open>auto intro: f inv_call inv_enqueue_step inv_dequeue_step inv_consumer\<close>)
qed

lemma reachable_inv:
  assumes "mq_reachable sz s" "0 < sz"
  shows "mq_inv s"
  using assms(1)
proof induction
  case start
  show ?case
    using assms(2)
    by (simp add: mq_inv_def MPSCSegQueue_new_def chunks_ok_def slots_ok_def history_ok_def claims_ok_def Chunk_new_def slot_no_def)
qed (rule inv_event)

lemma returns_false_when:
  assumes i: "mq_inv s" and n: "length (mq_out s) < length (mq_log s)"
  shows "mq_head_pos s < mq_ChunkSize s \<Longrightarrow> ck_ready (mq_chunks s (mq_head s)) (mq_head_pos s) \<or>
      (\<exists>t. writing (mq_producers s t) = Some (mq_head s, mq_head_pos s))"
    and "mq_head_pos s = mq_ChunkSize s \<Longrightarrow> ck_next (mq_chunks s (mq_head s)) = Some (Suc (mq_head s))"
proof -
  assume "mq_head_pos s < mq_ChunkSize s"
  thus "ck_ready (mq_chunks s (mq_head s)) (mq_head_pos s) \<or> (\<exists>t. writing (mq_producers s t) = Some (mq_head s, mq_head_pos s))"
    using invD(4) [OF i] n head_slot_no [OF i] unfolding claims_ok_def by simp
next
  assume p: "mq_head_pos s = mq_ChunkSize s"
  have "slot_no s (Suc (mq_head s)) 0 < length (mq_log s)"
    using n head_slot_no [OF i] p by (simp add: slot_no_def add.commute)
  thus "ck_next (mq_chunks s (mq_head s)) = Some (Suc (mq_head s))"
    using claimed_chunk [OF invD(1) [OF i]] invD(1) [OF i] by (simp add: chunks_ok_def)
qed


text \<open>
  No slot of the multi-producer queue is shared: two producers never write the same slot, no producer
  writes the slot the consumer is taking from, and the consumer only takes an element that was
  constructed and is the next one in claim order.
\<close>

lemma mpsc_slots_exclusive:
  assumes "mq_reachable sz s" "0 < sz"
  shows "(\<forall>t u c p. t \<noteq> u \<and> writing (mq_producers s t) = Some (c, p) \<longrightarrow> writing (mq_producers s u) \<noteq> Some (c, p)) \<and>
     (mq_consumer s = DTake \<longrightarrow>
        (\<forall>t. writing (mq_producers s t) \<noteq> Some (mq_head s, mq_head_pos s)) \<and>
        ck_store (mq_chunks s (mq_head s)) (mq_head_pos s) = Some (snd (mq_log s ! length (mq_out s))))"
proof -
  note i = reachable_inv [OF assms]
  have w: "\<exists>x. owns s t x c p" if "writing (mq_producers s t) = Some (c, p)" for t c p
    using that invD(5) [OF i, of t] by (cases "mq_producers s t") auto
  have "t = u" if "writing (mq_producers s t) = Some (c, p)" "writing (mq_producers s u) = Some (c, p)" for t u c p
    using w [OF that(1)] w [OF that(2)] by auto
  moreover have "writing (mq_producers s t) \<noteq> Some (mq_head s, mq_head_pos s)" if "mq_consumer s = DTake" for t
    using w [of t "mq_head s" "mq_head_pos s"] invD(6) [OF i] that by auto
  ultimately show ?thesis
    using take_content [OF i] by blast
qed

end
