(* ===== verification/MPSC_Faults.thy ===== *)
theory MPSC_Faults
  imports MPSC_Props
begin

text \<open>
  Concrete executions of the multi-producer queue: an interleaving of two producers and the consumer,
  and the two ways in which its reference counts fail to protect a chunk.
\<close>

lemma run_reachable: "mq_reachable sz s \<Longrightarrow> mq_reachable sz (mq_run es s)"
proof (induction es arbitrary: s)
  case (Cons e es)
  thus ?case
    by (cases "mq_fault s") (auto intro: mq_reachable.step)
qed simp

text \<open>Two producers claim their slots in one order and publish in the other.\<close>

definition two_writers :: "nat mq_event list" where
  "two_writers = [ECall 0 10, ECall 1 20] @ replicate 4 (EProducer 1) @ replicate 5 (EProducer 0) @ [EProducer 0, EDequeue]"

definition two_published :: "nat mq_event list" where
  "two_published = two_writers @ [EConsumer] @ replicate 2 (EProducer 1) @ [EDequeue]"

lemma two_writers_run:
  "mq_log (mq_run two_writers (MPSCSegQueue_new 2)) = [(1, 20), (0, 10)]"
  "mq_consumer (mq_run two_writers (MPSCSegQueue_new 2)) = DTop"
  "writing (mq_producers (mq_run two_writers (MPSCSegQueue_new 2)) 1) = Some (0, 0)"
  "mq_consumer (mq_run two_published (MPSCSegQueue_new 2)) = DTop"
  "mq_out (mq_run two_published (MPSCSegQueue_new 2)) = []"
  "mq_log (mq_run two_published (MPSCSegQueue_new 2)) = [(1, 20), (0, 10)]"
  "mq_head (mq_run two_published (MPSCSegQueue_new 2)) = 0"
  "mq_head_pos (mq_run two_published (MPSCSegQueue_new 2)) = 0"
  by code_simp+

lemma two_published_quiet: "writing (mq_producers (mq_run two_published (MPSCSegQueue_new 2)) t) \<noteq> Some (0, 0)"
proof -
  have "mq_producers (mq_run two_published (MPSCSegQueue_new 2)) =
      (\<lambda>_. MIdle)(0 := mq_producers (mq_run two_published (MPSCSegQueue_new 2)) 0,
                  1 := mq_producers (mq_run two_published (MPSCSegQueue_new 2)) 1)"
    by (rule ext) (simp add: two_published_def two_writers_def MPSCSegQueue_new_def numeral_eq_Suc goto_def on_chunk_def
        ref_add_def ref_sub_def Chunk_new_def Let_def deleted_def)
  moreover have "writing (mq_producers (mq_run two_published (MPSCSegQueue_new 2)) 0) = None"
    "writing (mq_producers (mq_run two_published (MPSCSegQueue_new 2)) 1) = None"
    by code_simp+
  ultimately show ?thesis
    by (cases "t = 0"; cases "t = 1") (auto dest: fun_cong [of _ _ t])
qed


text \<open>
  Producer \<open>0\<close> fills a chunk of one slot; then both producers find it full and race to link the next one.
  Producer \<open>1\<close> loses the exchange of the tail.
\<close>

definition lost_exchange :: "nat mq_event list" where
  "lost_exchange = [ECall 0 10] @ replicate 7 (EProducer 0) @ [ECall 0 20] @ replicate 5 (EProducer 0) @
     [ECall 1 30] @ replicate 5 (EProducer 1) @ [EProducer 0, EProducer 1, EProducer 0, EProducer 1, EProducer 1] @
     replicate 3 (EProducer 0)"

text \<open>
  Reference counts of the multi-producer queue go wrong when two producers race for the tail. After the
  race both producers are back at the top of the loop and hold no chunk; the new tail should count one
  reference (the tail's) and the old chunk one (the head's). The loser gave its temporary reference back
  to the chunk that \<open>compare_exchange_strong\<close> put into \<open>cur\<close>: the tail counts zero and the old chunk two, so
  it can never be reclaimed.
\<close>

lemma refs_after_lost_exchange:
  "\<exists>s. mq_reachable 1 s \<and> \<not> mq_fault s \<and> mq_tail s = 1 \<and> mq_head s = 0 \<and>
     mq_producers s 0 = MStart (20 :: nat) \<and> mq_producers s 1 = MStart 30 \<and> mq_consumer s = DIdle \<and>
     ck_refs (mq_chunks s 1) = 0 \<and> ck_refs (mq_chunks s 0) = 2"
proof (intro exI conjI)
  show "mq_reachable 1 (mq_run lost_exchange (MPSCSegQueue_new 1))"
    by (intro run_reachable mq_reachable.start)
qed (code_simp+)

text \<open>
  The temporary reference of \<open>enqueue\<close> is taken after the tail has been loaded. Below, producer \<open>1\<close> stops
  between the two, while producer \<open>0\<close> and the consumer pass one element at a time. \<open>lap n s\<close>: they have
  left \<open>n\<close> chunks behind, all retired and without references.
\<close>

definition lap :: "nat \<Rightarrow> nat mpsc \<Rightarrow> bool" where
  "lap n s \<longleftrightarrow> mq_ChunkSize s = 1 \<and> mq_head s = n \<and> mq_head_pos s = 1 \<and> mq_tail s = n \<and> mq_count s = Suc n \<and>
     ck_refs (mq_chunks s n) = 2 \<and> 1 \<le> ck_idx (mq_chunks s n) \<and> ck_next (mq_chunks s n) = None \<and>
     (\<forall>c < n. ck_refs (mq_chunks s c) = 0) \<and> mq_freed s = [] \<and> \<not> mq_fault s \<and>
     mq_retired s = rev [0..<n] \<and> mq_retired_count s = n \<and>
     mq_producers s 0 = MIdle \<and> mq_producers s 1 = MRef 9 0 \<and> mq_consumer s = DIdle"

definition lap_start :: "nat mq_event list" where
  "lap_start = [ECall 1 9, EProducer 1, ECall 0 5] @ replicate 7 (EProducer 0) @ [EDequeue] @ replicate 4 EConsumer"

definition lap_enqueue :: "nat mq_event list" where
  "lap_enqueue = ECall 0 5 # replicate 17 (EProducer 0)"

definition lap_dequeue :: "nat mq_event list" where
  "lap_dequeue = EDequeue # replicate 3 EConsumer"

lemma lap_first: "lap 0 (mq_run lap_start (MPSCSegQueue_new 1))"
  unfolding lap_def by code_simp

lemmas lap_exec = deleted_def goto_def on_chunk_def ref_add_def ref_sub_def Chunk_new_def Let_def
  retire_chunk_def try_reclaim_def deq_resume_def kScanThreshold_def

text \<open>After the producer's half of a round the old chunk keeps the head's reference only.\<close>

definition lap_mid :: "nat \<Rightarrow> nat mpsc \<Rightarrow> bool" where
  "lap_mid n s \<longleftrightarrow> mq_ChunkSize s = 1 \<and> mq_head s = n \<and> mq_head_pos s = 1 \<and> mq_tail s = Suc n \<and> mq_count s = Suc (Suc n) \<and>
     ck_refs (mq_chunks s n) = 1 \<and> ck_next (mq_chunks s n) = Some (Suc n) \<and>
     ck_refs (mq_chunks s (Suc n)) = 1 \<and> 1 \<le> ck_idx (mq_chunks s (Suc n)) \<and> ck_next (mq_chunks s (Suc n)) = None \<and>
     ck_ready (mq_chunks s (Suc n)) 0 \<and> ck_store (mq_chunks s (Suc n)) 0 = Some 5 \<and>
     (\<forall>c < n. ck_refs (mq_chunks s c) = 0) \<and> mq_freed s = [] \<and> \<not> mq_fault s \<and>
     mq_retired s = rev [0..<n] \<and> mq_retired_count s = n \<and>
     mq_producers s 0 = MIdle \<and> mq_producers s 1 = MRef 9 0 \<and> mq_consumer s = DIdle"

lemma lap_producer:
  assumes "lap n s"
  shows "lap_mid n (mq_run lap_enqueue s)"
  using assms unfolding lap_def lap_mid_def lap_enqueue_def
  by (simp add: lap_exec numeral_eq_Suc)

text \<open>The consumer's half: below the threshold the round starts again one chunk further.\<close>

lemma lap_consumer:
  assumes "lap_mid n s" "Suc n < kScanThreshold"
  shows "lap (Suc n) (mq_run (lap_dequeue @ replicate 4 EConsumer) s)"
  using assms unfolding lap_def lap_mid_def lap_dequeue_def kScanThreshold_def
  by (simp add: lap_exec numeral_eq_Suc less_Suc_eq)

text \<open>At the threshold the consumer scans the retired chunks, with nothing to keep the first one alive.\<close>

lemma lap_scan:
  assumes "lap_mid n s" "Suc n = kScanThreshold"
  shows "mq_consumer (mq_run lap_dequeue s) = DScan (rev [0..<Suc n]) [] True \<and>
     (\<forall>c < Suc n. ck_refs (mq_chunks (mq_run lap_dequeue s) c) = 0) \<and> mq_freed (mq_run lap_dequeue s) = [] \<and>
     \<not> mq_fault (mq_run lap_dequeue s) \<and> mq_producers (mq_run lap_dequeue s) 1 = MRef 9 0"
  using assms unfolding lap_mid_def lap_dequeue_def
  by (simp add: lap_exec numeral_eq_Suc less_Suc_eq)

lemma scan_frees:
  assumes "mq_consumer s = DScan cs [] b" "\<forall>c \<in> set cs. ck_refs (mq_chunks s c) = 0" "distinct cs"
    "set cs \<inter> set (mq_freed s) = {}" "\<not> mq_fault s"
  shows "set cs \<subseteq> set (mq_freed (mq_run (replicate (length cs) EConsumer) s)) \<and>
     set (mq_freed s) \<subseteq> set (mq_freed (mq_run (replicate (length cs) EConsumer) s)) \<and>
     \<not> mq_fault (mq_run (replicate (length cs) EConsumer) s) \<and>
     mq_producers (mq_run (replicate (length cs) EConsumer) s) = mq_producers s"
  using assms
proof (induction cs arbitrary: s)
  case (Cons c cs)
  let ?s = "s\<lparr>mq_freed := c # mq_freed s, mq_consumer := DScan cs [] b\<rparr>"
  have "mq_event_step EConsumer s = ?s"
    using Cons.prems by (simp add: deleted_def)
  moreover have "mq_consumer ?s = DScan cs [] b" "\<forall>c \<in> set cs. ck_refs (mq_chunks ?s c) = 0" "distinct cs"
    "set cs \<inter> set (mq_freed ?s) = {}" "\<not> mq_fault ?s"
    using Cons.prems by auto
  ultimately show ?case
    using Cons.IH [of ?s] Cons.prems(5) by simp
qed simp

lemma laps:
  assumes "n < kScanThreshold"
  shows "\<exists>s. mq_reachable 1 s \<and> lap n s"
  using assms
proof (induction n)
  case 0
  show ?case
    using lap_first run_reachable [OF mq_reachable.start] by blast
next
  case (Suc n)
  then obtain s where "mq_reachable 1 s" "lap n s"
    by auto
  thus ?case
    using lap_consumer [OF lap_producer, OF _ Suc.prems] run_reachable by blast
qed

text \<open>
  A producer of the multi-producer queue can use a chunk after it was deleted. A producer that has
  loaded the tail and not yet taken its reference does not keep the chunk alive: once the others have
  moved on by \<open>kScanThreshold\<close> chunks the consumer deletes it, and the producer's next access is to it.
\<close>

lemma stale_tail_deleted:
  "\<exists>s. mq_reachable 1 s \<and> \<not> mq_fault s \<and> mq_producers s 1 = MRef (9 :: nat) 0 \<and> 0 \<in> set (mq_freed s) \<and>
     mq_fault (mq_event_step (EProducer 1) s)"
proof -
  obtain s0 where s0: "mq_reachable 1 s0" "lap (kScanThreshold - 1) s0"
    using laps [of "kScanThreshold - 1"] by (auto simp: kScanThreshold_def)
  define s1 where "s1 = mq_run lap_dequeue (mq_run lap_enqueue s0)"
  have r: "mq_reachable 1 s1"
    unfolding s1_def by (intro run_reachable s0)
  have k: "Suc (kScanThreshold - 1) = kScanThreshold"
    by (simp add: kScanThreshold_def)
  note sc = lap_scan [OF lap_producer [OF s0(2)] k, folded s1_def, unfolded k]
  let ?cs = "rev [0..<kScanThreshold]"
  define s2 where "s2 = mq_run (replicate (length ?cs) EConsumer) s1"
  have "set ?cs \<subseteq> set (mq_freed s2)" "\<not> mq_fault s2" "mq_producers s2 = mq_producers s1"
    using scan_frees [of s1 ?cs True] sc unfolding s2_def by auto
  moreover have "0 \<in> set ?cs"
    by (simp add: kScanThreshold_def)
  ultimately have "0 \<in> set (mq_freed s2)" "\<not> mq_fault s2" "mq_producers s2 1 = MRef 9 0"
    using sc by auto
  moreover have "mq_reachable 1 s2"
    unfolding s2_def by (rule run_reachable [OF r])
  ultimately show ?thesis
    by (auto simp: deleted_def)
qed

text \<open>
  C32. The reference counts of the multi-producer queue do not protect its chunks. After a lost race for the
  tail, with no operation in progress on either chunk, the tail counts zero references instead of one
  and the old chunk two instead of one, so that it is never reclaimed. And a producer that has loaded the
  tail without having taken its reference can find the chunk deleted: its next access is to freed memory.
\<close>

theorem mpsc_reclamation_unsafe:
  "(\<exists>s. mq_reachable 1 s \<and> \<not> mq_fault s \<and> mq_tail s = 1 \<and> mq_head s = 0 \<and>
      mq_producers s 0 = MStart (20 :: nat) \<and> mq_producers s 1 = MStart 30 \<and> mq_consumer s = DIdle \<and>
      ck_refs (mq_chunks s 1) = 0 \<and> ck_refs (mq_chunks s 0) = 2) \<and>
   (\<exists>s. mq_reachable 1 s \<and> \<not> mq_fault s \<and> mq_producers s 1 = MRef (9 :: nat) 0 \<and> 0 \<in> set (mq_freed s) \<and>
      mq_fault (mq_event_step (EProducer 1) s))"
  by (intro conjI refs_after_lost_exchange stale_tail_deleted)

end
