(* ===== verification/Level_Search.thy ===== *)
theory Level_Search
  imports Bit_Scan
begin

text \<open>
  Searching bitmaps of price levels (\<^verbatim>\<open>hft/src/order_book.hpp\<close>, the helpers above the book classes).

  \<open>search_dir\<close> stands for the two policy structs \<^verbatim>\<open>SearchHighest\<close> and \<^verbatim>\<open>SearchLowest\<close>; the template parameters
  \<^verbatim>\<open>IsBid\<close>, \<^verbatim>\<open>MsbFirst\<close> and the \<^verbatim>\<open>Side\<close> of the scanning helpers choose the same two directions and are
  modelled by it too. A bitmap is a function from word numbers to words; \<open>bmset\<close> is the set of levels it
  marks. The lemmas state what each helper finds in terms of \<open>bmset\<close>: \<open>nearest\<close> is the level the search is
  for, and \<open>dir_list\<close> lists the levels in the order the scanning loops visit them.
\<close>

datatype search_dir = SearchHighest | SearchLowest

definition kWordMask :: nat where
  "kWordMask = 63"

fun find_bit :: "search_dir \<Rightarrow> u64 \<Rightarrow> nat" where
  "find_bit SearchHighest word = kWordMask - countl_zero word"
| "find_bit SearchLowest word = countr_zero word"

fun make_mask :: "search_dir \<Rightarrow> nat \<Rightarrow> u64" where
  "make_mask SearchHighest bit_offset = (if bit_offset = 0 then 0 else push_bit bit_offset 1 - 1)"
| "make_mask SearchLowest bit_offset = (if bit_offset = kWordMask then 0 else NOT (push_bit (bit_offset + 1) 1 - 1))"

text \<open>
  The loops of \<^verbatim>\<open>iterate_words\<close> and \<^verbatim>\<open>iterate_summary\<close>: the indices they visit, in order, with the callback's
  result captured as an option. Both structs number words from \<open>0\<close>; \<open>end\<close> is \<open>0\<close> for the highest search.
\<close>

fun iterate_words :: "search_dir \<Rightarrow> nat \<Rightarrow> nat \<Rightarrow> (nat \<Rightarrow> 'b option) \<Rightarrow> 'b option" where
  "iterate_words SearchHighest start end_idx func = first_some func (rev [end_idx..<start])"
| "iterate_words SearchLowest start end_idx func = first_some func [start + 1..<end_idx]"

fun iterate_summary :: "search_dir \<Rightarrow> nat \<Rightarrow> nat \<Rightarrow> (nat \<Rightarrow> 'b option) \<Rightarrow> 'b option" where
  "iterate_summary SearchHighest start end_idx func = first_some func (rev [0..<start])"
| "iterate_summary SearchLowest start end_idx func = first_some func [start + 1..<end_idx]"

text \<open>\<^verbatim>\<open>scan_word\<close>: the set bits of a word, highest or lowest first, until the callback asks to stop.\<close>

definition scan_rest :: "search_dir \<Rightarrow> u64 \<Rightarrow> u64" where
  "scan_rest d word = (case d of SearchHighest \<Rightarrow> word AND NOT (push_bit (find_bit d word) 1)
                               | SearchLowest \<Rightarrow> word AND (word - 1))"

lemma scan_rest_less:
  assumes "word \<noteq> 0"
  shows "scan_rest d word < word"
proof (cases d)
  case SearchHighest
  then show ?thesis
    using clear_bit_less [OF countl_zero_props(1) [OF assms]] by (simp add: scan_rest_def kWordMask_def)
next
  case SearchLowest
  then show ?thesis
    using clear_bit_less [OF countr_zero_props(1) [OF assms]] and_pred_eq_clear_lowest [OF assms]
    by (simp add: scan_rest_def)
qed

function scan_word :: "search_dir \<Rightarrow> u64 \<Rightarrow> nat \<Rightarrow> (nat \<Rightarrow> 's \<Rightarrow> 's \<times> bool) \<Rightarrow> 's \<Rightarrow> 's \<times> bool" where
  "scan_word d word base_word_idx on_off s =
     (if word = 0 then (s, False)
      else
        let off = push_bit 6 base_word_idx + find_bit d word
        in (case on_off off s of (s', stop) \<Rightarrow>
             if stop then (s', True)
             else scan_word d (scan_rest d word) base_word_idx on_off s'))"
  by pat_completeness auto

termination
  by (relation "measure (\<lambda>(d, w, i, f, s). unat w)")
     (simp_all add: scan_rest_less unat_mono)

declare scan_word.simps [simp del]

definition mask_before :: "nat \<Rightarrow> u64" where
  "mask_before b = (if b = 0 then 0 else push_bit b 1 - 1)"

definition mask_after_inclusive :: "nat \<Rightarrow> u64" where
  "mask_after_inclusive b = NOT (push_bit (b + 1) 1 - 1)"

definition first_mask :: "search_dir \<Rightarrow> nat \<Rightarrow> u64" where
  "first_mask d start_off =
     (let remain = start_off AND 63 in
      case d of SearchHighest \<Rightarrow> if remain = 0 then 0 else push_bit remain 1 - 1
      | SearchLowest \<Rightarrow> if remain = kWordMask then 0 else NOT (push_bit (remain + 1) 1 - 1))"

definition scan_word_one :: "search_dir \<Rightarrow> u64 \<Rightarrow> nat \<Rightarrow> int" where
  "scan_word_one d word swi =
     (if word = 0 then - 1
      else int (push_bit 6 swi + (case d of SearchHighest \<Rightarrow> kWordMask - countl_zero word
                                          | SearchLowest \<Rightarrow> countr_zero word)))"

definition jump_next_bucket_impl :: "search_dir \<Rightarrow> u64 list \<Rightarrow> nat \<Rightarrow> int" where
  "jump_next_bucket_impl d summary start_bidx =
     (let kSummaryWords = length summary; swi = drop_bit 6 start_bidx; sbit = start_bidx AND 63;
          masked = summary ! swi AND
            (case d of SearchHighest \<Rightarrow> mask_before sbit
             | SearchLowest \<Rightarrow> if sbit = kWordMask then 0 else mask_after_inclusive sbit);
          idx = scan_word_one d masked swi
      in if idx \<noteq> - 1 then idx
         else
           let one = (\<lambda>i. let index = scan_word_one d (summary ! i) i in if index \<noteq> - 1 then Some index else None)
           in case (case d of SearchHighest \<Rightarrow> first_some one (rev [0..<swi])
                    | SearchLowest \<Rightarrow> first_some one [swi + 1..<kSummaryWords]) of
                Some index \<Rightarrow> index
              | None \<Rightarrow> - 1)"

subsection \<open>Level sets\<close>

definition bmset :: "(nat \<Rightarrow> u64) \<Rightarrow> nat set" where
  "bmset bm = {i. bit (bm (i div 64)) (i mod 64)}"

fun farther :: "search_dir \<Rightarrow> nat \<Rightarrow> nat \<Rightarrow> bool" where
  "farther SearchHighest x y \<longleftrightarrow> x < y"
| "farther SearchLowest x y \<longleftrightarrow> y < x"

text \<open>\<open>nearest d P r\<close>: among the levels satisfying \<open>P\<close>, \<open>r\<close> is the one the direction reaches first.\<close>

definition nearest :: "search_dir \<Rightarrow> (nat \<Rightarrow> bool) \<Rightarrow> nat \<Rightarrow> bool" where
  "nearest d P r \<longleftrightarrow> P r \<and> (\<forall>x. P x \<longrightarrow> x = r \<or> farther d x r)"

definition dir_list :: "search_dir \<Rightarrow> nat list \<Rightarrow> nat list" where
  "dir_list d xs = (case d of SearchHighest \<Rightarrow> rev xs | SearchLowest \<Rightarrow> xs)"

lemma nearest_unique: "nearest d P r \<Longrightarrow> nearest d P r' \<Longrightarrow> r = r'"
  unfolding nearest_def by (cases d) (metis farther.simps less_asym)+

lemma farther_trans: "farther d x y \<Longrightarrow> farther d y z \<Longrightarrow> farther d x z"
  by (cases d) auto

lemma farther_total: "x = y \<or> farther d x y \<or> farther d y x"
  by (cases d) auto

lemma farther_irrefl: "\<not> farther d x x"
  by (cases d) auto

lemma set_dir_list [simp]: "set (dir_list d xs) = set xs"
  by (simp add: dir_list_def split: search_dir.splits)

lemma nearest_cong: "(\<And>x. P x = Q x) \<Longrightarrow> nearest d P r = nearest d Q r"
  by (simp add: nearest_def)

lemma bmset_word: "b < 64 \<Longrightarrow> w * 64 + b \<in> bmset bm \<longleftrightarrow> bit (bm w) b"
  by (simp add: bmset_def)

lemma bmset_zero: "bm (i div 64) = 0 \<Longrightarrow> i \<notin> bmset bm"
  by (simp add: bmset_def)

lemma same_word_bit: "i div 64 = (k::nat) div 64 \<Longrightarrow> k mod 64 = i mod 64 \<longleftrightarrow> i = k"
  by (metis div_mult_mod_eq)

lemma bmset_put: "bmset (bm(k div 64 := put_bit (bm (k div 64)) (k mod 64))) = insert k (bmset bm)"
proof -
  have "i \<in> bmset (bm(k div 64 := put_bit (bm (k div 64)) (k mod 64))) \<longleftrightarrow> i = k \<or> i \<in> bmset bm" for i
    using same_word_bit [of i k]
    by (cases "i div 64 = k div 64") (auto simp: bmset_def bit_put_bit simp del: push_bit_of_1)
  then show ?thesis by blast
qed

lemma bmset_clear: "bmset (bm(k div 64 := clear_bit (bm (k div 64)) (k mod 64))) = bmset bm - {k}"
proof -
  have "i \<in> bmset (bm(k div 64 := clear_bit (bm (k div 64)) (k mod 64))) \<longleftrightarrow> i \<noteq> k \<and> i \<in> bmset bm" for i
    using same_word_bit [of i k]
    by (cases "i div 64 = k div 64") (auto simp: bmset_def bit_clear_bit simp del: push_bit_of_1)
  then show ?thesis by blast
qed

lemma nth_update_fun: "k < length xs \<Longrightarrow> (\<lambda>w. xs[k := v] ! w) = (\<lambda>w. xs ! w)(k := v)"
  by (rule ext) (simp add: nth_list_update)

lemma bmset_list_put:
  "k div 64 < length xs \<Longrightarrow>
     bmset (\<lambda>w. xs[k div 64 := put_bit (xs ! (k div 64)) (k mod 64)] ! w) = insert k (bmset (\<lambda>w. xs ! w))"
  by (simp only: nth_update_fun bmset_put [of "\<lambda>w. xs ! w"])

lemma bmset_list_clear:
  "k div 64 < length xs \<Longrightarrow>
     bmset (\<lambda>w. xs[k div 64 := clear_bit (xs ! (k div 64)) (k mod 64)] ! w) = bmset (\<lambda>w. xs ! w) - {k}"
  by (simp only: nth_update_fun bmset_clear [of "\<lambda>w. xs ! w"])

subsection \<open>Masks\<close>

lemma bit_low_mask: "b < 64 \<Longrightarrow> bit (push_bit b 1 - 1 :: u64) j \<longleftrightarrow> j < b"
  by (auto simp: mask_eq_exp_minus_1 [symmetric] bit_mask_iff)

lemma bit_make_mask:
  assumes "b < 64"
  shows "bit (make_mask d b) j \<longleftrightarrow> j < 64 \<and> farther d j b"
proof (cases d)
  case SearchHighest
  then show ?thesis using bit_low_mask [OF assms, of j] assms by (cases "b = 0") auto
next
  case SearchLowest
  then show ?thesis
    using bit_low_mask [of "b + 1" j] assms
    by (cases "b = 63") (auto simp: kWordMask_def bit_not_iff)
qed

lemma mask_before_eq: "b < 64 \<Longrightarrow> mask_before b = make_mask SearchHighest b"
  by (simp add: mask_before_def)

lemma mask_after_eq: "b < 63 \<Longrightarrow> mask_after_inclusive b = make_mask SearchLowest b"
  by (simp add: mask_after_inclusive_def kWordMask_def)

lemma first_mask_eq: "first_mask d off = make_mask d (off mod 64)"
  by (cases d) (simp_all add: first_mask_def idx_simps Let_def)

subsection \<open>The extreme bit of a word\<close>

lemma find_bit_props:
  assumes "w \<noteq> 0"
  shows "find_bit d w < 64" "nearest d (bit w) (find_bit d w)"
proof -
  show "find_bit d w < 64"
    using countl_zero_props [OF assms] countr_zero_props [OF assms] by (cases d) (simp_all add: kWordMask_def)
  show "nearest d (bit w) (find_bit d w)"
  proof (cases d)
    case SearchHighest
    have "x = 63 - countl_zero w \<or> x < 63 - countl_zero w" if "bit w x" for x
      using countl_zero_props(4) [OF assms, of x] that by (meson linorder_neqE_nat)
    then show ?thesis using SearchHighest countl_zero_props(1) [OF assms] by (simp add: nearest_def kWordMask_def)
  next
    case SearchLowest
    have "x = countr_zero w \<or> countr_zero w < x" if "bit w x" for x
      using countr_zero_props(3) [OF assms, of x] that by (meson linorder_neqE_nat)
    then show ?thesis using SearchLowest countr_zero_props(1) [OF assms] by (simp add: nearest_def)
  qed
qed

subsection \<open>Scanning visits the levels in order\<close>

definition dbits :: "search_dir \<Rightarrow> u64 \<Rightarrow> nat list" where
  "dbits d w = dir_list d (bits_asc w)"

definition wlevels :: "search_dir \<Rightarrow> (nat \<Rightarrow> u64) \<Rightarrow> nat \<Rightarrow> nat list" where
  "wlevels d bm w = map (\<lambda>b. w * 64 + b) (dbits d (bm w))"

definition levels :: "search_dir \<Rightarrow> (nat \<Rightarrow> u64) \<Rightarrow> nat list \<Rightarrow> nat list" where
  "levels d bm ws = concat (map (wlevels d bm) ws)"

lemma dbits_0 [simp]: "dbits d 0 = []"
  by (cases d) (simp_all add: dbits_def dir_list_def)

lemma dbits_step: "w \<noteq> 0 \<Longrightarrow> dbits d w = find_bit d w # dbits d (scan_rest d w)"
  using bits_asc_step [of w] bits_desc_step [of w]
  by (cases d) (simp_all add: dbits_def dir_list_def scan_rest_def bits_desc_def kWordMask_def)

lemma set_dbits [simp]: "set (dbits d w) = {i. bit w i}"
  by (simp add: dbits_def)

lemma scan_word_run:
  "scan_word d w base f s = run_until f (map (\<lambda>b. base * 64 + b) (dbits d w)) s"
proof (induction d w base f s rule: scan_word.induct)
  case (1 d word base f s)
  show ?case
  proof (cases "word = 0")
    case True
    then show ?thesis by (simp add: scan_word.simps)
  next
    case False
    then show ?thesis using 1
      by (subst scan_word.simps) (auto simp: dbits_step nat_push_6 Let_def split: prod.splits)
  qed
qed

lemma wlevels_zero [simp]: "bm w = 0 \<Longrightarrow> wlevels d bm w = []"
  by (simp add: wlevels_def)

lemma levels_Nil [simp]: "levels d bm [] = []"
  and levels_Cons: "levels d bm (w # ws) = wlevels d bm w @ levels d bm ws"
  and levels_append: "levels d bm (vs @ ws) = levels d bm vs @ levels d bm ws"
  by (simp_all add: levels_def)

lemma levels_zeros: "\<forall>w\<in>set ws. bm w = 0 \<Longrightarrow> levels d bm ws = []"
  by (simp add: levels_def)

lemma levels_cong: "(\<And>w. w \<in> set ws \<Longrightarrow> bm w = bm' w) \<Longrightarrow> levels d bm ws = levels d bm' ws"
  by (induction ws) (auto simp: levels_Cons wlevels_def)

definition head_opt :: "'a list \<Rightarrow> 'a option" where
  "head_opt xs = (case xs of [] \<Rightarrow> None | x # _ \<Rightarrow> Some x)"

lemma head_opt_simps [simp]: "head_opt [] = None" "head_opt (x # xs) = Some x"
  by (simp_all add: head_opt_def)

lemma head_opt_append: "head_opt (xs @ ys) = (case head_opt xs of None \<Rightarrow> head_opt ys | Some x \<Rightarrow> Some x)"
  by (cases xs) simp_all

lemma head_opt_None [simp]: "head_opt xs = None \<longleftrightarrow> xs = []"
  by (cases xs) simp_all

lemma head_opt_wlevels:
  "head_opt (wlevels d bm w) = (if bm w \<noteq> 0 then Some (w * 64 + find_bit d (bm w)) else None)"
  by (simp add: wlevels_def dbits_step)

lemma first_some_levels:
  "first_some (\<lambda>w. if bm w \<noteq> 0 then Some (w * 64 + find_bit d (bm w)) else None) ws = head_opt (levels d bm ws)"
  by (induction ws) (simp_all add: levels_Cons head_opt_append head_opt_wlevels)

lemma levels_asc:
  "levels SearchLowest bm [0..<n] = filter (\<lambda>i. i \<in> bmset bm) [0..<n * 64]"
proof (induction n)
  case (Suc n)
  have "[0..<Suc n * 64] = [0..<n * 64] @ map (\<lambda>b. n * 64 + b) [0..<64]"
    using upt_add_eq_append [of 0 "n * 64" 64] map_add_upt [of "n * 64" 64] by (simp add: add.commute)
  moreover have "filter (\<lambda>i. i \<in> bmset bm) (map (\<lambda>b. n * 64 + b) [0..<64]) = wlevels SearchLowest bm n"
  proof -
    have "filter (\<lambda>b. n * 64 + b \<in> bmset bm) [0..<64] = filter (bit (bm n)) [0..<64]"
      by (rule filter_cong) (auto simp: bmset_word)
    then show ?thesis by (simp add: filter_map comp_def wlevels_def dbits_def dir_list_def bits_asc_def del: upt_conv_Cons)
  qed
  ultimately show ?case using Suc by (simp add: levels_append levels_Cons)
qed simp

lemma rev_wlevels: "rev (wlevels SearchHighest bm w) = wlevels SearchLowest bm w"
  by (simp add: wlevels_def dbits_def dir_list_def rev_map)

lemma rev_levels: "rev (levels SearchHighest bm ws) = levels SearchLowest bm (rev ws)"
  by (induction ws) (simp_all add: levels_Cons levels_append rev_wlevels)

lemma levels_all: "levels d bm (dir_list d [0..<n]) = dir_list d (filter (\<lambda>i. i \<in> bmset bm) [0..<n * 64])"
proof (cases d)
  case SearchHighest
  have "rev (levels SearchHighest bm (rev [0..<n])) = filter (\<lambda>i. i \<in> bmset bm) [0..<n * 64]"
    by (simp add: rev_levels levels_asc)
  then show ?thesis by (metis SearchHighest dir_list_def rev_rev_ident search_dir.simps(3))
next
  case SearchLowest
  then show ?thesis by (simp add: dir_list_def levels_asc)
qed

text \<open>The levels strictly beyond a start level are those of the bitmap with the start word masked.\<close>

definition beyond :: "search_dir \<Rightarrow> (nat \<Rightarrow> u64) \<Rightarrow> nat \<Rightarrow> nat \<Rightarrow> u64" where
  "beyond d bm start w =
     (if w = start div 64 then bm w AND make_mask d (start mod 64)
      else if farther d w (start div 64) then bm w else 0)"

definition following :: "search_dir \<Rightarrow> nat \<Rightarrow> nat \<Rightarrow> nat list" where
  "following d w n = (case d of SearchHighest \<Rightarrow> rev [0..<w] | SearchLowest \<Rightarrow> [w + 1..<n])"

lemma beyond_set: "bmset (beyond d bm start) = {i \<in> bmset bm. farther d i start}"
proof -
  have "i \<in> bmset (beyond d bm start) \<longleftrightarrow> i \<in> bmset bm \<and> farther d i start" for i
  proof (cases "i div 64 = start div 64")
    case True
    have "i = i div 64 * 64 + i mod 64" "start = i div 64 * 64 + start mod 64"
      using True by (metis div_mult_mod_eq)+
    then have "farther d i start \<longleftrightarrow> farther d (i mod 64) (start mod 64)"
      by (cases d) (simp_all only: farther.simps, linarith+)
    then show ?thesis using True by (simp add: bmset_def beyond_def bit_and_iff bit_make_mask)
  next
    case False
    then have "farther d i start \<longleftrightarrow> farther d (i div 64) (start div 64)"
      by (cases d) (auto simp: less_eq_div_iff_mult_less_eq div_le_mono not_less le_less
          dest: div_le_mono [of _ _ 64])
    then show ?thesis using False by (simp add: bmset_def beyond_def)
  qed
  then show ?thesis by blast
qed

lemma levels_beyond:
  assumes "start div 64 < n"
  shows "levels d (beyond d bm start) (dir_list d [0..<n])
         = map (\<lambda>b. start div 64 * 64 + b) (dbits d (bm (start div 64) AND make_mask d (start mod 64)))
           @ levels d bm (following d (start div 64) n)"
proof -
  let ?w = "start div 64"
  have split: "[0..<n] = [0..<?w] @ ?w # [Suc ?w..<n]" using assms by (rule upt_split)
  have first: "wlevels d (beyond d bm start) ?w
      = map (\<lambda>b. ?w * 64 + b) (dbits d (bm ?w AND make_mask d (start mod 64)))"
    by (simp add: wlevels_def beyond_def)
  show ?thesis
  proof (cases d)
    case SearchHighest
    have zero: "levels d (beyond d bm start) (rev [Suc ?w..<n]) = []"
      using SearchHighest by (intro levels_zeros) (auto simp: beyond_def)
    have rest: "levels d (beyond d bm start) (rev [0..<?w]) = levels d bm (rev [0..<?w])"
      using SearchHighest by (intro levels_cong) (auto simp: beyond_def)
    have "dir_list d [0..<n] = rev [Suc ?w..<n] @ ?w # rev [0..<?w]"
      using SearchHighest split by (simp add: dir_list_def)
    then show ?thesis using zero rest first SearchHighest
      by (simp add: levels_append levels_Cons following_def)
  next
    case SearchLowest
    have zero: "levels d (beyond d bm start) [0..<?w] = []"
      using SearchLowest by (intro levels_zeros) (auto simp: beyond_def)
    have rest: "levels d (beyond d bm start) [Suc ?w..<n] = levels d bm [Suc ?w..<n]"
      using SearchLowest by (intro levels_cong) (auto simp: beyond_def)
    have "dir_list d [0..<n] = [0..<?w] @ ?w # [Suc ?w..<n]"
      using SearchLowest split by (simp add: dir_list_def)
    then show ?thesis using zero rest first SearchLowest
      by (simp add: levels_append levels_Cons following_def)
  qed
qed

lemma levels_beyond_filter:
  assumes "start div 64 < n"
  shows "map (\<lambda>b. start div 64 * 64 + b) (dbits d (bm (start div 64) AND make_mask d (start mod 64)))
           @ levels d bm (following d (start div 64) n)
         = dir_list d (filter (\<lambda>i. i \<in> bmset bm \<and> farther d i start) [0..<n * 64])"
  using levels_beyond [OF assms, of d bm] levels_all [of d "beyond d bm start" n] by (simp add: beyond_set)

lemma iterate_words_following:
  "iterate_words d w (case d of SearchHighest \<Rightarrow> 0 | SearchLowest \<Rightarrow> n) f = first_some f (following d w n)"
  by (cases d) (simp_all add: following_def)

lemma iterate_summary_following: "iterate_summary d w n f = first_some f (following d w n)"
  by (cases d) (simp_all add: following_def)

text \<open>A masked word and then the following words: the search shared by all the level searches.\<close>

lemma search_from:
  assumes "start div 64 < n"
  shows "(if bm (start div 64) AND make_mask d (start mod 64) \<noteq> 0
          then Some (start div 64 * 64 + find_bit d (bm (start div 64) AND make_mask d (start mod 64)))
          else first_some (\<lambda>w. if bm w \<noteq> 0 then Some (w * 64 + find_bit d (bm w)) else None)
                 (following d (start div 64) n))
         = head_opt (dir_list d (filter (\<lambda>i. i \<in> bmset bm \<and> farther d i start) [0..<n * 64]))"
  unfolding levels_beyond_filter [OF assms, symmetric] first_some_levels
  by (simp add: head_opt_append dbits_step)

lemma search_all:
  "first_some (\<lambda>w. if bm w \<noteq> 0 then Some (w * 64 + find_bit d (bm w)) else None) (dir_list d [0..<n])
   = head_opt (dir_list d (filter (\<lambda>i. i \<in> bmset bm) [0..<n * 64]))"
  unfolding first_some_levels levels_all ..

lemma sorted_dir_list: "sorted_wrt (\<lambda>x y. farther d y x) (dir_list d (filter P [0..<m]))"
proof -
  have "sorted_wrt (<) (filter P [0..<m])" by (intro sorted_wrt_filter) simp
  then show ?thesis by (cases d) (simp_all add: dir_list_def sorted_wrt_rev)
qed

lemma head_dir_list_nearest:
  assumes "head_opt (dir_list d (filter P [0..<m])) = Some r"
  shows "nearest d (\<lambda>i. P i \<and> i < m) r"
proof -
  obtain xs where xs: "dir_list d (filter P [0..<m]) = r # xs"
    using assms by (cases "dir_list d (filter P [0..<m])") auto
  have "set (r # xs) = {i. P i \<and> i < m}" unfolding xs [symmetric] by auto
  moreover have "\<forall>x\<in>set xs. farther d x r" using sorted_dir_list [of d P m] xs by simp
  ultimately show ?thesis by (auto simp: nearest_def)
qed

lemma head_dir_list_iff:
  "head_opt (dir_list d (filter P [0..<m])) = Some r \<longleftrightarrow> nearest d (\<lambda>i. P i \<and> i < m) r"
proof
  assume n: "nearest d (\<lambda>i. P i \<and> i < m) r"
  then have "r \<in> set (dir_list d (filter P [0..<m]))" by (simp add: nearest_def)
  then obtain r' where r': "head_opt (dir_list d (filter P [0..<m])) = Some r'"
    by (cases "dir_list d (filter P [0..<m])") auto
  with n show "head_opt (dir_list d (filter P [0..<m])) = Some r"
    using head_dir_list_nearest nearest_unique by metis
qed (rule head_dir_list_nearest)

lemma head_dir_list_None: "head_opt (dir_list d (filter P [0..<m])) = None \<longleftrightarrow> (\<forall>i<m. \<not> P i)"
  by (cases d) (auto simp: dir_list_def filter_empty_conv)

subsection \<open>Jumping to the next occupied word\<close>

lemma scan_word_one_eq:
  "scan_word_one d w i = (if w \<noteq> 0 then int (i * 64 + find_bit d w) else - 1)"
  by (cases d) (simp_all add: scan_word_one_def nat_push_6)

lemma jump_next_bucket_spec:
  fixes summary start
  defines "n \<equiv> max (length summary) (start div 64 + 1)"
  shows "jump_next_bucket_impl d summary start =
    (case head_opt (dir_list d (filter (\<lambda>i. i \<in> bmset (\<lambda>w. summary ! w) \<and> farther d i start) [0..<n * 64]))
     of Some r \<Rightarrow> int r | None \<Rightarrow> - 1)"
proof -
  let ?bm = "\<lambda>w. summary ! w" and ?w = "start div 64"
  let ?f = "\<lambda>w. if ?bm w \<noteq> 0 then Some (w * 64 + find_bit d (?bm w)) else None"
  let ?one = "\<lambda>i. let index = scan_word_one d (summary ! i) i in if index \<noteq> - 1 then Some index else None"
  have one: "first_some ?one ws = map_option int (first_some ?f ws)" for ws
    by (induction ws) (auto simp: scan_word_one_eq Let_def split: option.splits)
  have mask: "(case d of SearchHighest \<Rightarrow> mask_before (start mod 64)
      | SearchLowest \<Rightarrow> if start mod 64 = kWordMask then 0 else mask_after_inclusive (start mod 64))
      = make_mask d (start mod 64)"
    by (cases d) (auto simp: mask_before_def mask_after_inclusive_def)
  have fol: "(case d of SearchHighest \<Rightarrow> first_some ?one (rev [0..<?w])
      | SearchLowest \<Rightarrow> first_some ?one [?w + 1..<length summary]) = map_option int (first_some ?f (following d ?w n))"
  proof (cases d)
    case SearchHighest
    show ?thesis unfolding following_def SearchHighest search_dir.case by (rule one [unfolded SearchHighest])
  next
    case SearchLowest
    have "[?w + 1..<length summary] = [?w + 1..<n]" by (simp add: n_def max_def)
    then show ?thesis unfolding following_def SearchLowest search_dir.case using one [unfolded SearchLowest] by simp
  qed
  have wn: "?w < n" by (simp add: n_def)
  show ?thesis
    unfolding search_from [OF wn, symmetric] jump_next_bucket_impl_def Let_def idx_simps mask
    by (simp only: fol [unfolded Let_def]) (simp add: scan_word_one_eq split: option.splits)
qed

lemma jump_next_bucket_progress:
  assumes "0 \<le> jump_next_bucket_impl d summary start"
  defines "r \<equiv> nat (jump_next_bucket_impl d summary start)"
  shows "farther d r start" "r < max (length summary) (start div 64 + 1) * 64"
proof -
  let ?n = "max (length summary) (start div 64 + 1)"
  obtain i where i: "head_opt (dir_list d (filter (\<lambda>i. i \<in> bmset (\<lambda>w. summary ! w) \<and> farther d i start) [0..<?n * 64])) = Some i"
    using assms jump_next_bucket_spec [of d summary start] by (auto split: option.splits)
  then have "r = i" by (simp add: r_def jump_next_bucket_spec)
  then show "farther d r start" "r < ?n * 64" using head_dir_list_nearest [OF i] by (simp_all add: nearest_def)
qed

subsection \<open>Ordered level lists\<close>

lemma dir_sorted_unique:
  assumes "sorted_wrt (\<lambda>x y. farther d y x) xs" "sorted_wrt (\<lambda>x y. farther d y x) ys" "set xs = set ys"
  shows "xs = ys"
proof (cases d)
  case SearchHighest
  have "sorted_wrt (<) (rev xs)" "sorted_wrt (<) (rev ys)" using assms(1,2) SearchHighest by (simp_all add: sorted_wrt_rev)
  then have "rev xs = rev ys" using assms(3) by (intro strict_sorted_equal) auto
  then show ?thesis by simp
next
  case SearchLowest
  then show ?thesis using assms by (intro strict_sorted_equal) auto
qed

lemma dir_list_filter: "filter Q (dir_list d xs) = dir_list d (filter Q xs)"
  by (cases d) (simp_all add: dir_list_def rev_filter)

lemma dir_list_tail:
  assumes "dir_list d (filter P [0..<m]) = r # rs"
  shows "dir_list d (filter (\<lambda>i. P i \<and> farther d i r) [0..<m]) = rs"
proof -
  have "\<forall>x\<in>set rs. farther d x r" using sorted_dir_list [of d P m] assms by simp
  then have "filter (\<lambda>i. farther d i r) (r # rs) = rs" using farther_irrefl by simp
  then show ?thesis using assms dir_list_filter [of "\<lambda>i. farther d i r" d "filter P [0..<m]"]
    by (simp add: conj_commute)
qed

end
