(* ===== verification/HFT_Types.thy ===== *)
theory HFT_Types
  imports HFT_Prelude
begin

text \<open>
  The value types every component shares: enumerations and their text forms (\<^verbatim>\<open>hft/common/types.h\<close>,
  \<^verbatim>\<open>hft/core/order_entry.h\<close>), one market data entry (\<^verbatim>\<open>hft/core/market_data.h\<close>), requests and execution
  reports. An order id is the 64-bit word it wraps. A \<^verbatim>\<open>FixedPoint\<close> is its raw \<^verbatim>\<open>int64_t\<close> value; a default
  constructed one is \<open>kInvalidValue\<close>.
\<close>

type_synonym order_id = u64

definition kInvalidValue :: int64 where
  "kInvalidValue = 2 ^ 63 - 1"

definition kOrderIdInvalid :: order_id where
  "kOrderIdInvalid = - 1"

definition order_id_is_valid :: "order_id \<Rightarrow> bool" where
  "order_id_is_valid i \<longleftrightarrow> i \<noteq> kOrderIdInvalid"

definition order_id_incr :: "order_id \<Rightarrow> order_id" where
  "order_id_incr i = i + 1"

subsection \<open>Sides\<close>

datatype Side = kBuy | kSell | Side_kTrade | Side_kInvalid

fun side_toString :: "Side \<Rightarrow> string" where
  "side_toString kBuy = ''BUY''"
| "side_toString kSell = ''SELL''"
| "side_toString Side_kTrade = ''TRADE''"
| "side_toString Side_kInvalid = ''INVALID''"

definition charToSide :: "char \<Rightarrow> Side" where
  "charToSide c = (if c = CHR ''0'' then kBuy else if c = CHR ''1'' then kSell
     else if c = CHR ''2'' then Side_kTrade else Side_kInvalid)"

definition toSide :: "string \<Rightarrow> Side" where
  "toSide s = (if s = ''BUY'' then kBuy else if s = ''SELL'' then kSell
     else if s = ''TRADE'' then Side_kTrade else Side_kInvalid)"

fun sideToIndex :: "Side \<Rightarrow> nat" where
  "sideToIndex kBuy = 0"
| "sideToIndex kSell = 1"
| "sideToIndex Side_kTrade = 2"
| "sideToIndex Side_kInvalid = 3"

definition oppIndex :: "nat \<Rightarrow> nat" where
  "oppIndex idx = idx XOR 1"

definition sideToValue :: "Side \<Rightarrow> int" where
  "sideToValue s = (if s = kBuy then 1 else - 1)"

datatype PositionSide = kLong | kShort | PositionSide_kInvalid

fun position_side_toString :: "PositionSide \<Rightarrow> string" where
  "position_side_toString kLong = ''LONG''"
| "position_side_toString kShort = ''SHORT''"
| "position_side_toString PositionSide_kInvalid = ''INVALID''"

definition toPositionSide :: "string \<Rightarrow> PositionSide" where
  "toPositionSide s = (if s = ''LONG'' then kLong else if s = ''SHORT'' then kShort else PositionSide_kInvalid)"

fun positionSideToIndex :: "PositionSide \<Rightarrow> nat" where
  "positionSideToIndex kLong = 0"
| "positionSideToIndex kShort = 1"
| "positionSideToIndex PositionSide_kInvalid = 2"

subsection \<open>Market data entries\<close>

datatype MarketUpdateType = Upd_kInvalid | kClear | kAdd | kModify | kCancel | kTrade | kBookTicker

definition charToMarketUpdateType :: "char \<Rightarrow> MarketUpdateType" where
  "charToMarketUpdateType c = (if c = CHR ''0'' then kAdd else if c = CHR ''1'' then kModify
     else if c = CHR ''2'' then kCancel else Upd_kInvalid)"

fun update_type_toString :: "MarketUpdateType \<Rightarrow> string" where
  "update_type_toString Upd_kInvalid = ''INVALID''"
| "update_type_toString kClear = ''CLEAR''"
| "update_type_toString kAdd = ''ADD''"
| "update_type_toString kModify = ''MODIFY''"
| "update_type_toString kCancel = ''CANCEL''"
| "update_type_toString kTrade = ''TRADE''"
| "update_type_toString kBookTicker = ''BOOK_TICKER''"

record MarketData =
  md_type :: MarketUpdateType
  md_order_id :: order_id
  md_ticker_id :: string
  md_side :: Side
  md_price :: int64
  md_qty :: int64

datatype MarketDataType = Mdt_kTrade | Mdt_kMarket | Mdt_kBookTicker | Mdt_kNone

record MarketUpdateData =
  mu_start_idx :: u64
  mu_end_idx :: u64
  mu_prev_end_idx :: u64
  mu_type :: MarketDataType
  mu_data :: "MarketData list"

subsection \<open>Order entry enumerations\<close>

datatype ReqeustType = Req_kInvalid | kNewSingleOrderData | kOrderCancelRequest
  | kOrderCancelRequestAndNewOrderSingle | kOrderModify | kOrderMassCancelRequest

datatype OrderType = Type_kInvalid | kMarket | kLimit | kStopLoss | kStopLimit

datatype TimeInForce = Tif_kInvalid | kGoodTillCancel | kImmediateOrCancel | kFillOrKill

datatype OrderSide = Os_kNone | Os_kBuy | Os_kSell

datatype SelfTradePreventionMode = Stp_kNone | kExpireTaker | kExpireMaker | kExpireBoth | kDecrement

datatype ResponseType = Res_kInvalid | kExecutionReport | kOrderCancelReject | kOrderMassCancelReport

datatype MassCancelResponse = kCancelRequestRejected | kCancelSymbolOrders

fun order_type_toString :: "OrderType \<Rightarrow> string" where
  "order_type_toString kMarket = ''MARKET''"
| "order_type_toString kLimit = ''LIMIT''"
| "order_type_toString kStopLoss = ''STOP_LOSS''"
| "order_type_toString kStopLimit = ''STOP_LIMIT''"
| "order_type_toString Type_kInvalid = ''UNKNOWN''"

fun tif_toString :: "TimeInForce \<Rightarrow> string" where
  "tif_toString kGoodTillCancel = ''GTC''"
| "tif_toString kImmediateOrCancel = ''IOC''"
| "tif_toString kFillOrKill = ''FOK''"
| "tif_toString Tif_kInvalid = ''UNKNOWN''"

fun order_side_toString :: "OrderSide \<Rightarrow> string" where
  "order_side_toString Os_kBuy = ''BUY''"
| "order_side_toString Os_kSell = ''SELL''"
| "order_side_toString Os_kNone = ''UNKNOWN''"

fun stp_toString :: "SelfTradePreventionMode \<Rightarrow> string" where
  "stp_toString Stp_kNone = ''NONE''"
| "stp_toString kExpireTaker = ''EXPIRE_TAKER''"
| "stp_toString kExpireMaker = ''EXPIRE_MAKER''"
| "stp_toString kExpireBoth = ''EXPIRE_BOTH''"
| "stp_toString kDecrement = ''DECREMENT''"

datatype ExecType = Exec_kNew | Exec_kCanceled | Exec_kReplaced | Exec_kRejected | Exec_kSuspended | Exec_kTrade | Exec_kExpired

fun exec_type_toString :: "ExecType \<Rightarrow> string" where
  "exec_type_toString Exec_kNew = ''NEW''"
| "exec_type_toString Exec_kCanceled = ''CANCELED''"
| "exec_type_toString Exec_kReplaced = ''REPLACED''"
| "exec_type_toString Exec_kRejected = ''REJECTED''"
| "exec_type_toString Exec_kSuspended = ''SUSPENDED''"
| "exec_type_toString Exec_kTrade = ''TRADE''"
| "exec_type_toString Exec_kExpired = ''EXPIRED''"

definition toType :: "string \<Rightarrow> ExecType" where
  "toType s = (if s = ''NEW'' then Exec_kNew else if s = ''TRADE'' then Exec_kTrade
     else if s = ''CANCELED'' then Exec_kCanceled else if s = ''REJECTED'' then Exec_kRejected else Exec_kNew)"

datatype OrdStatus = Ord_kInvalid | Ord_kNew | Ord_kPartiallyFilled | Ord_kFilled | Ord_kCanceled
  | Ord_kPendingCancel | Ord_kRejected | Ord_kPendingNew | Ord_kExpired

fun ord_status_toString :: "OrdStatus \<Rightarrow> string" where
  "ord_status_toString Ord_kInvalid = ''INVALID''"
| "ord_status_toString Ord_kNew = ''NEW''"
| "ord_status_toString Ord_kPartiallyFilled = ''PARIALLY_FILLED''"
| "ord_status_toString Ord_kFilled = ''FILLED''"
| "ord_status_toString Ord_kCanceled = ''CANCELED''"
| "ord_status_toString Ord_kPendingCancel = ''PENDING_CANCEL''"
| "ord_status_toString Ord_kRejected = ''REJECTED''"
| "ord_status_toString Ord_kPendingNew = ''PENDING_NEW''"
| "ord_status_toString Ord_kExpired = ''EXPIRED''"

definition toOrderStatus :: "string \<Rightarrow> OrdStatus" where
  "toOrderStatus s =
     (if s = ''NEW'' then Ord_kNew
      else if s = ''PARTIALLY_FILLED'' then Ord_kPartiallyFilled
      else if s = ''FILLED'' then Ord_kFilled
      else if s = ''CANCELED'' then Ord_kCanceled
      else if s = ''PENDING_CANCELED'' then Ord_kPendingCancel
      else if s = ''REJECTED'' then Ord_kRejected
      else if s = ''PENDING_NEW'' then Ord_kPendingNew
      else if s = ''EXPIRED'' then Ord_kExpired
      else Ord_kInvalid)"

fun from_common_side :: "Side \<Rightarrow> OrderSide" where
  "from_common_side kBuy = Os_kBuy"
| "from_common_side kSell = Os_kSell"
| "from_common_side _ = Os_kNone"

fun to_common_side :: "OrderSide \<Rightarrow> Side" where
  "to_common_side Os_kBuy = kBuy"
| "to_common_side Os_kSell = kSell"
| "to_common_side Os_kNone = Side_kInvalid"

record RequestCommon =
  rq_req_type :: ReqeustType
  rq_cl_cancel_order_id :: order_id
  rq_cl_order_id :: order_id
  rq_orig_cl_order_id :: order_id
  rq_symbol :: string
  rq_side :: Side
  rq_order_qty :: int64
  rq_ord_type :: OrderType
  rq_price :: int64
  rq_time_in_force :: TimeInForce
  rq_self_trade_prevention_mode :: SelfTradePreventionMode
  rq_position_side :: "PositionSide option"

definition RequestCommon_default :: RequestCommon where
  "RequestCommon_default = \<lparr>rq_req_type = Req_kInvalid, rq_cl_cancel_order_id = kOrderIdInvalid,
     rq_cl_order_id = kOrderIdInvalid, rq_orig_cl_order_id = kOrderIdInvalid, rq_symbol = ''BTCUSDT'',
     rq_side = Side_kInvalid, rq_order_qty = 0, rq_ord_type = Type_kInvalid, rq_price = 0,
     rq_time_in_force = Tif_kInvalid, rq_self_trade_prevention_mode = kExpireTaker, rq_position_side = None\<rparr>"

record ExecutionReport =
  er_cl_order_id :: order_id
  er_symbol :: string
  er_exec_type :: ExecType
  er_ord_status :: OrdStatus
  er_cum_qty :: int64
  er_leaves_qty :: int64
  er_last_qty :: int64
  er_error_code :: int
  er_price :: int64
  er_side :: Side
  er_text :: string
  er_position_side :: "PositionSide option"

record RiskCfg =
  max_order_size :: int64
  max_position :: int64
  min_position :: int64
  max_loss :: int64

subsection \<open>Lemmas\<close>

lemma oppIndex_sides: "oppIndex (sideToIndex kBuy) = sideToIndex kSell" "oppIndex (sideToIndex kSell) = sideToIndex kBuy"
  by (simp_all add: oppIndex_def)

lemma sideToValue_simps [simp]: "sideToValue kBuy = 1" "sideToValue kSell = - 1"
  by (simp_all add: sideToValue_def)

lemma side_text_roundtrip: "toSide (side_toString s) = s"
  by (cases s) (simp_all add: toSide_def)

lemma position_side_text_roundtrip: "toPositionSide (position_side_toString s) = s"
  by (cases s) (simp_all add: toPositionSide_def)

lemma common_side_roundtrip: "to_common_side (from_common_side s) = s \<longleftrightarrow> s \<noteq> Side_kTrade"
  by (cases s) simp_all

text \<open>
  An order status reads back from its printed text, except \<open>kPartiallyFilled\<close> and \<open>kPendingCancel\<close>, whose printed text the
  status reader does not know.
\<close>

lemma ord_status_text_roundtrip: "toOrderStatus (ord_status_toString st) = st \<longleftrightarrow> st \<notin> {Ord_kPartiallyFilled, Ord_kPendingCancel}"
  by (cases st) (simp_all add: toOrderStatus_def)

end
