(* ===== verification/Book_Common.thy ===== *)
theory Book_Common
  imports Level_Search HFT_Types
begin

text \<open>
  What the two order book variants of \<^verbatim>\<open>hft/src/order_book.hpp\<close> share: the best bid and offer, the
  configuration computed from the INI file, the notifications sent to the trade engine, and the abstract
  specification of one side of a book. A side is its level quantities, a function from level index to
  raw quantity; \<open>quote_ok\<close> says that a cached best index, price and quantity are those of the best level.
  The two halves of every bid/ask pair in the source differ only in the search direction, so one
  definition with a \<open>search_dir\<close> argument models both: bids search the highest level, asks the lowest.
\<close>

record BBO =
  bid_price :: int64
  ask_price :: int64
  bid_qty :: int64
  ask_qty :: int64

definition BBO_default :: BBO where
  "BBO_default = \<lparr>bid_price = kInvalidValue, ask_price = kInvalidValue, bid_qty = kInvalidValue, ask_qty = kInvalidValue\<rparr>"

record OrderBookConfig =
  min_price_int :: int
  max_price_int :: int
  num_levels :: nat
  bitmap_words :: nat
  bucket_count :: nat
  summary_words :: nat
  bucket_pool_size :: nat

definition kBucketSize :: nat where
  "kBucketSize = 4096"

definition kBucketBitmapWords :: nat where
  "kBucketBitmapWords = (kBucketSize + 64 - 1) div 64"

definition kMaxBucketPoolSize :: nat where
  "kMaxBucketPoolSize = 256"

text \<open>\<open>min_price\<close> and \<open>max_price\<close> are the two values read from the INI file; the flat variant has no buckets.\<close>

definition from_ini :: "bool \<Rightarrow> int \<Rightarrow> int \<Rightarrow> OrderBookConfig" where
  "from_ini flat min_price max_price =
     (let levels = nat (max_price - min_price + 1);
          words = (levels + 64 - 1) div 64
      in if flat
         then \<lparr>min_price_int = min_price, max_price_int = max_price, num_levels = levels, bitmap_words = words,
               bucket_count = 0, summary_words = 0, bucket_pool_size = 0\<rparr>
         else
           let buckets = (levels + kBucketSize - 1) div kBucketSize;
               swords = (buckets + 64 - 1) div 64
           in \<lparr>min_price_int = min_price, max_price_int = max_price, num_levels = levels, bitmap_words = words,
               bucket_count = buckets, summary_words = swords, bucket_pool_size = min buckets kMaxBucketPoolSize\<rparr>)"

definition price_to_index :: "OrderBookConfig \<Rightarrow> int64 \<Rightarrow> int" where
  "price_to_index cfg price = i32 price - min_price_int cfg"

definition index_to_price :: "OrderBookConfig \<Rightarrow> int \<Rightarrow> int64" where
  "index_to_price cfg index = min_price_int cfg + index"

record LevelView =
  lv_idx :: nat
  lv_qty_raw :: int64
  lv_price_raw :: int64

datatype book_event =
    OnTradeUpdated MarketData
  | OnBookTickerUpdated MarketData
  | OnOrderbookUpdated string int64 Side

definition out_of_range :: "OrderBookConfig \<Rightarrow> MarketData \<Rightarrow> bool" where
  "out_of_range cfg md \<longleftrightarrow> md_price md > max_price_int cfg \<or> md_price md < min_price_int cfg"

fun dir_of_side :: "Side \<Rightarrow> search_dir" where
  "dir_of_side s = (if s = kBuy then SearchHighest else SearchLowest)"

subsection \<open>Abstract side of a book\<close>

type_synonym level_map = "nat \<Rightarrow> int64"

definition active :: "level_map \<Rightarrow> nat \<Rightarrow> bool" where
  "active q i \<longleftrightarrow> q i > 0"

definition set_level :: "level_map \<Rightarrow> nat \<Rightarrow> int64 \<Rightarrow> level_map" where
  "set_level q i v = q(i := max 0 v)"

definition quote_ok :: "search_dir \<Rightarrow> OrderBookConfig \<Rightarrow> level_map \<Rightarrow> int64 \<Rightarrow> int64 \<Rightarrow> bool" where
  "quote_ok d cfg q price qty \<longleftrightarrow>
     ((\<forall>i. \<not> active q i) \<longrightarrow> price = kInvalidValue \<and> qty = kInvalidValue)
     \<and> (\<forall>r. nearest d (active q) r \<longrightarrow> price = index_to_price cfg (int r) \<and> qty = q r)"

definition best_is :: "search_dir \<Rightarrow> level_map \<Rightarrow> int \<Rightarrow> bool" where
  "best_is d q c \<longleftrightarrow> (if \<exists>i. active q i then 0 \<le> c \<and> nearest d (active q) (nat c) else c = - 1)"

definition config_ok :: "OrderBookConfig \<Rightarrow> bool" where
  "config_ok cfg \<longleftrightarrow> 0 \<le> min_price_int cfg \<and> min_price_int cfg \<le> max_price_int cfg \<and> max_price_int cfg < 2 ^ 31"

text \<open>The plain replay of a feed into the two level maps, and when a BBO is the one of two level maps.\<close>

definition spec_apply :: "OrderBookConfig \<Rightarrow> level_map \<times> level_map \<Rightarrow> MarketData \<Rightarrow> level_map \<times> level_map" where
  "spec_apply cfg bk md =
     (case bk of (bids, asks) \<Rightarrow>
      if out_of_range cfg md then (bids, asks)
      else let idx = nat (md_price md - min_price_int cfg);
               v = (case md_type md of kAdd \<Rightarrow> Some (md_qty md) | kModify \<Rightarrow> Some (md_qty md) | kCancel \<Rightarrow> Some 0 | _ \<Rightarrow> None)
           in case v of None \<Rightarrow> (bids, asks)
              | Some qty \<Rightarrow> if md_side md = kBuy then (set_level bids idx qty, asks) else (bids, set_level asks idx qty))"

definition bbo_correct :: "OrderBookConfig \<Rightarrow> level_map \<times> level_map \<Rightarrow> BBO \<Rightarrow> bool" where
  "bbo_correct cfg lv bbo \<longleftrightarrow>
     quote_ok SearchHighest cfg (fst lv) (bid_price bbo) (bid_qty bbo)
     \<and> quote_ok SearchLowest cfg (snd lv) (ask_price bbo) (ask_qty bbo)"

subsection \<open>Lemmas on sides\<close>

lemma best_is_empty: "(\<And>i. \<not> active q i) \<Longrightarrow> best_is d q c \<longleftrightarrow> c = - 1"
  by (simp add: best_is_def)

lemma best_is_nearest: "nearest d (active q) r \<Longrightarrow> best_is d q c \<longleftrightarrow> c = int r"
  by (auto simp: best_is_def nearest_def intro: nearest_unique)
     (metis nearest_unique nearest_def int_nat_eq)+

lemma best_is_unique: "best_is d q c \<Longrightarrow> best_is d q c' \<Longrightarrow> c = c'"
  by (auto simp: best_is_def split: if_splits) (metis nearest_unique int_nat_eq)

lemma quote_ok_empty:
  "(\<And>i. \<not> active q i) \<Longrightarrow> quote_ok d cfg q p v \<longleftrightarrow> p = kInvalidValue \<and> v = kInvalidValue"
  by (auto simp: quote_ok_def nearest_def)

lemma quote_ok_nearest:
  "nearest d (active q) r \<Longrightarrow> quote_ok d cfg q p v \<longleftrightarrow> p = index_to_price cfg (int r) \<and> v = q r"
  by (auto simp: quote_ok_def nearest_def intro: nearest_unique) (metis nearest_unique nearest_def)+

lemma nearest_update_better:
  assumes "best_is d q c" "v > 0" "c < 0 \<or> farther d (nat c) idx"
  shows "nearest d (active (set_level q idx v)) idx"
proof -
  have "x = idx \<or> farther d x idx" if "active q x" for x
  proof -
    have n: "0 \<le> c" "nearest d (active q) (nat c)" using assms(1) that by (auto simp: best_is_def split: if_splits)
    then have "x = nat c \<or> farther d x (nat c)" using that by (auto simp: nearest_def)
    moreover have "farther d (nat c) idx" using assms(3) n by auto
    ultimately show ?thesis using farther_trans by blast
  qed
  then show ?thesis using assms(2) by (auto simp: nearest_def active_def set_level_def)
qed

lemma nearest_update_worse:
  assumes "nearest d (active q) r" "farther d idx r"
  shows "nearest d (active (set_level q idx v)) r"
  using assms farther_irrefl by (auto simp: nearest_def active_def set_level_def split: if_splits)

lemma nearest_update_same:
  assumes "nearest d (active q) r" "v > 0"
  shows "nearest d (active (set_level q r v)) r"
  using assms by (auto simp: nearest_def active_def set_level_def split: if_splits)

lemma range_index:
  assumes "config_ok cfg" "int (num_levels cfg) = max_price_int cfg - min_price_int cfg + 1" "\<not> out_of_range cfg md"
  shows "price_to_index cfg (md_price md) = md_price md - min_price_int cfg"
    "nat (price_to_index cfg (md_price md)) < num_levels cfg"
proof -
  have r: "min_price_int cfg \<le> md_price md" "md_price md \<le> max_price_int cfg" using assms(3) by (auto simp: out_of_range_def)
  have c: "0 \<le> min_price_int cfg" "max_price_int cfg < 2 ^ 31" using assms(1) by (auto simp: config_ok_def)
  have "i32 (md_price md) = md_price md" using r c by (simp add: i32_def signed_take_bit_int_eq_self_iff)
  then show "price_to_index cfg (md_price md) = md_price md - min_price_int cfg" by (simp add: price_to_index_def)
  then show "nat (price_to_index cfg (md_price md)) < num_levels cfg" using assms(2) r by auto
qed

end
