(* ===== verification/Mem_Pool.thy ===== *)
theory Mem_Pool
  imports HFT_Prelude
begin

text \<open>
  The fixed-size object pool (\<^verbatim>\<open>hft/common/memory_pool.hpp\<close>): bins with an alive flag, and a free list threaded
  through \<open>mp_next\<close> whose head, an index and an ABA counter, is packed into one 64-bit word. Every
  operation is run to completion, so its compare-and-swap succeeds at the first attempt. A pointer
  handed out by the pool is the bin's byte offset from the start of the store; \<^term>\<open>None\<close> is the null pointer.

  The locale \<open>allocator\<close> is the contract the order book relies on; it is interpreted here on \<open>pool_allocate\<close>,
  \<open>pool_deallocate\<close> and the accesses through a pointer.
\<close>

type_synonym bin_ptr = "int option"

record 'a bin =
  bin_storage :: 'a
  bin_alive :: bool

record 'a mpool =
  mp_store :: "'a bin list"
  mp_next :: "u64 list"
  mp_head :: u64
  mp_bin_size :: nat

record stack_head =
  sh_index :: u32
  sh_counter :: u32

definition kInvalidIndex :: u32 where
  "kInvalidIndex = - 1"

definition pack :: "stack_head \<Rightarrow> u64" where
  "pack h = (push_bit 32 (ucast (sh_counter h))) OR ucast (sh_index h)"

definition unpack :: "u64 \<Rightarrow> stack_head" where
  "unpack v = \<lparr>sh_index = ucast (v AND 0xFFFFFFFF), sh_counter = ucast (drop_bit 32 v)\<rparr>"

definition pool_new :: "nat \<Rightarrow> nat \<Rightarrow> 'a \<Rightarrow> 'a mpool" where
  "pool_new num_elems sz raw =
     \<lparr>mp_store = replicate num_elems \<lparr>bin_storage = raw, bin_alive = False\<rparr>,
      mp_next = map (\<lambda>i. if i = num_elems - 1 then ucast kInvalidIndex else of_nat (i + 1)) [0..<num_elems],
      mp_head = pack \<lparr>sh_index = 0, sh_counter = 0\<rparr>, mp_bin_size = sz\<rparr>"

definition bin_offset :: "'a mpool \<Rightarrow> nat \<Rightarrow> int" where
  "bin_offset p i = int i * int (mp_bin_size p)"

definition pool_allocate :: "'a mpool \<Rightarrow> 'a \<Rightarrow> 'a mpool \<times> bin_ptr" where
  "pool_allocate p v =
     (let old_head = unpack (mp_head p) in
      if sh_index old_head = kInvalidIndex then (p, None)
      else
        let old_idx = unat (sh_index old_head);
            next_idx = ucast (mp_next p ! old_idx) :: u32;
            new_head = \<lparr>sh_index = next_idx, sh_counter = sh_counter old_head + 1\<rparr>
        in (p\<lparr>mp_store := (mp_store p)[old_idx := \<lparr>bin_storage = v, bin_alive = True\<rparr>], mp_head := pack new_head\<rparr>,
            Some (bin_offset p old_idx)))"

definition pool_deallocate :: "'a mpool \<Rightarrow> bin_ptr \<Rightarrow> 'a mpool \<times> bool" where
  "pool_deallocate p elem =
     (case elem of None \<Rightarrow> (p, False)
      | Some off \<Rightarrow>
        if off < 0 then (p, False)
        else if nat off mod mp_bin_size p \<noteq> 0 then (p, False)
        else let idx = nat off div mp_bin_size p in
          if idx \<ge> length (mp_store p) then (p, False)
          else if \<not> bin_alive (mp_store p ! idx) then (p, False)
          else
            let old_head = unpack (mp_head p);
                new_head = \<lparr>sh_index = of_nat idx, sh_counter = sh_counter old_head + 1\<rparr>
            in (p\<lparr>mp_store := (mp_store p)[idx := (mp_store p ! idx)\<lparr>bin_alive := False\<rparr>],
                  mp_next := (mp_next p)[idx := ucast (sh_index old_head)],
                  mp_head := pack new_head\<rparr>, True))"

definition pool_capacity :: "'a mpool \<Rightarrow> nat" where
  "pool_capacity p = length (mp_store p)"

fun count_free :: "u64 list \<Rightarrow> nat \<Rightarrow> u64 \<Rightarrow> nat" where
  "count_free nx 0 idx = 0"
| "count_free nx (Suc n) idx =
     (if idx = ucast kInvalidIndex then 0 else Suc (count_free nx n (nx ! unat idx)))"

definition free_count :: "'a mpool \<Rightarrow> nat" where
  "free_count p = count_free (mp_next p) (length (mp_store p)) (ucast (sh_index (unpack (mp_head p))))"

text \<open>Accesses through a pointer the pool handed out.\<close>

definition ptr_index :: "'a mpool \<Rightarrow> int \<Rightarrow> nat" where
  "ptr_index p off = nat off div mp_bin_size p"

definition pool_get :: "'a mpool \<Rightarrow> int \<Rightarrow> 'a" where
  "pool_get p off = bin_storage (mp_store p ! ptr_index p off)"

definition pool_put :: "'a mpool \<Rightarrow> int \<Rightarrow> 'a \<Rightarrow> 'a mpool" where
  "pool_put p off v = p\<lparr>mp_store := (mp_store p)[ptr_index p off := (mp_store p ! ptr_index p off)\<lparr>bin_storage := v\<rparr>]\<rparr>"

subsection \<open>Invariant\<close>

fun is_chain :: "u64 list \<Rightarrow> u64 \<Rightarrow> nat list \<Rightarrow> bool" where
  "is_chain nx i [] \<longleftrightarrow> i = ucast kInvalidIndex"
| "is_chain nx i (x # xs) \<longleftrightarrow> i = of_nat x \<and> x < length nx \<and> is_chain nx (nx ! x) xs"

definition pool_chain :: "'a mpool \<Rightarrow> nat list \<Rightarrow> bool" where
  "pool_chain p fl \<longleftrightarrow>
     is_chain (mp_next p) (ucast (sh_index (unpack (mp_head p)))) fl \<and> distinct fl
     \<and> (\<forall>i<length (mp_store p). bin_alive (mp_store p ! i) \<longleftrightarrow> i \<notin> set fl)"

definition pool_inv :: "'a mpool \<Rightarrow> bool" where
  "pool_inv p \<longleftrightarrow> length (mp_next p) = length (mp_store p) \<and> length (mp_store p) < 2 ^ 32 - 1
     \<and> 0 < mp_bin_size p \<and> (\<exists>fl. pool_chain p fl)"

definition pool_live :: "'a mpool \<Rightarrow> int set" where
  "pool_live p = {bin_offset p i | i. i < length (mp_store p) \<and> bin_alive (mp_store p ! i)}"

text \<open>What a client of a pool may rely on.\<close>

locale allocator =
  fixes alloc :: "'p \<Rightarrow> 'a \<Rightarrow> 'p \<times> int option"
    and free :: "'p \<Rightarrow> int option \<Rightarrow> 'p \<times> bool"
    and get :: "'p \<Rightarrow> int \<Rightarrow> 'a"
    and put :: "'p \<Rightarrow> int \<Rightarrow> 'a \<Rightarrow> 'p"
    and live :: "'p \<Rightarrow> int set"
    and cap :: "'p \<Rightarrow> nat"
    and inv :: "'p \<Rightarrow> bool"
  assumes alloc_none: "inv p \<Longrightarrow> alloc p v = (p', None) \<Longrightarrow> p' = p \<and> card (live p) = cap p"
    and alloc_some: "inv p \<Longrightarrow> alloc p v = (p', Some i) \<Longrightarrow>
          inv p' \<and> i \<notin> live p \<and> live p' = insert i (live p) \<and> cap p' = cap p \<and> get p' i = v
          \<and> (\<forall>j\<in>live p. get p' j = get p j)"
    and free_live: "inv p \<Longrightarrow> i \<in> live p \<Longrightarrow> free p (Some i) = (p', r) \<Longrightarrow>
          r \<and> inv p' \<and> live p' = live p - {i} \<and> cap p' = cap p \<and> (\<forall>j\<in>live p - {i}. get p' j = get p j)"
    and free_dead: "inv p \<Longrightarrow> i \<notin> live p \<Longrightarrow> free p (Some i) = (p, False)"
    and put_live: "inv p \<Longrightarrow> i \<in> live p \<Longrightarrow>
          inv (put p i v) \<and> live (put p i v) = live p \<and> cap (put p i v) = cap p
          \<and> (\<forall>j\<in>live p. get (put p i v) j = (if j = i then v else get p j))"
    and live_bound: "inv p \<Longrightarrow> finite (live p) \<and> card (live p) \<le> cap p"
begin

lemma alloc_succeeds:
  assumes "inv p" "card (live p) < cap p"
  obtains p' i where "alloc p v = (p', Some i)"
  using assms alloc_none [of p v] by (cases "alloc p v"; cases "snd (alloc p v)") auto

lemma double_free_rejected:
  assumes "inv p" "i \<in> live p" "free p (Some i) = (p', r)"
  shows "free p' (Some i) = (p', False)"
  using free_live [OF assms] by (intro free_dead) auto

lemma alloc_card:
  assumes "inv p" "alloc p v = (p', Some i)"
  shows "card (live p') = Suc (card (live p))"
  using alloc_some [OF assms] live_bound [OF assms(1)] by simp

end

subsection \<open>The packed head\<close>

lemma unat_ucast_32_64 [simp]: "unat (ucast (i::u32) :: u64) = unat i"
proof -
  have "unat i < 2 ^ 64" by (rule order_less_le_trans [OF unsigned_less]) simp
  then show ?thesis by (simp add: unsigned_ucast_eq take_bit_nat_eq_self)
qed

lemma unat_ucast_64_32: "unat (i::u64) < 2 ^ 32 \<Longrightarrow> unat (ucast i :: u32) = unat i"
  by (simp add: unsigned_ucast_eq take_bit_nat_eq_self)

lemma ucast_64_32_64: "unat (i::u64) < 2 ^ 32 \<Longrightarrow> ucast (ucast i :: u32) = i"
  by (rule word_unat_eq_iff [THEN iffD2]) (simp only: unat_ucast_32_64 unat_ucast_64_32)

lemma unpack_pack [simp]: "unpack (pack h) = h"
proof -
  obtain i c where h: "h = \<lparr>sh_index = i, sh_counter = c\<rparr>" by (cases h)
  have m: "(0xFFFFFFFF :: u64) = mask 32" by (simp add: mask_eq_exp_minus_1)
  have 1: "ucast ((push_bit 32 (ucast c) OR ucast i) AND mask 32 :: u64) = i"
    by (rule bit_word_eqI) (simp add: bit_ucast_iff bit_and_iff bit_or_iff bit_push_bit_iff bit_mask_iff)
  have 2: "ucast (drop_bit 32 (push_bit 32 (ucast c) OR ucast i :: u64)) = c"
    by (rule bit_word_eqI)
       (auto simp: bit_ucast_iff bit_or_iff bit_push_bit_iff bit_drop_bit_eq dest: bit_imp_le_length)
  show ?thesis using 1 2 by (simp add: h pack_def unpack_def m)
qed

lemma kInvalidIndex_unat: "unat kInvalidIndex = 2 ^ 32 - 1" "unat (ucast kInvalidIndex :: u64) = 2 ^ 32 - 1"
  by (simp_all add: kInvalidIndex_def unsigned_minus_1_eq_mask mask_eq_exp_minus_1)

subsection \<open>The free list\<close>

lemma chain_start_less: "is_chain nx i fl \<Longrightarrow> length nx < 2 ^ 32 - 1 \<Longrightarrow> unat i < 2 ^ 32"
  by (cases fl) (auto simp: kInvalidIndex_unat unat_of_nat64)

lemma chain_not_invalid:
  "is_chain nx i (x # xs) \<Longrightarrow> length nx < 2 ^ 32 - 1 \<Longrightarrow> i \<noteq> ucast kInvalidIndex \<and> unat i = x"
  using kInvalidIndex_unat by (auto simp: unat_of_nat64 word_unat_eq_iff)

lemma chain_update_other:
  "x \<notin> set fl \<Longrightarrow> is_chain (nx[x := v]) i fl \<longleftrightarrow> is_chain nx i fl"
  by (induction fl arbitrary: i) auto

lemma chain_members: "is_chain nx i fl \<Longrightarrow> x \<in> set fl \<Longrightarrow> x < length nx"
  by (induction fl arbitrary: i) auto

lemma count_free_chain:
  "is_chain nx i fl \<Longrightarrow> length nx < 2 ^ 32 - 1 \<Longrightarrow> length fl \<le> n \<Longrightarrow> count_free nx n i = length fl"
proof (induction fl arbitrary: i n)
  case Nil
  then show ?case by (cases n) auto
next
  case (Cons x fl)
  then obtain m where n: "n = Suc m" by (cases n) auto
  have "i \<noteq> ucast kInvalidIndex" "unat i = x" using chain_not_invalid Cons.prems by blast+
  then show ?case using Cons n by simp
qed

lemma head_is_chain_start:
  "ucast (sh_index h) = (ucast kInvalidIndex :: u64) \<longleftrightarrow> sh_index h = kInvalidIndex"
  by (metis unat_ucast_32_64 word_unat_eq_iff)

lemma pool_new_inv:
  assumes "0 < n" "n < 2 ^ 32 - 1" "0 < sz"
  shows "pool_inv (pool_new n sz raw) \<and> pool_live (pool_new n sz raw) = {}"
proof -
  define nx :: "u64 list" where
    "nx = map (\<lambda>i. if i = n - 1 then ucast kInvalidIndex else of_nat (i + 1)) [0..<n]"
  have nth: "nx ! k = (if k = n - 1 then ucast kInvalidIndex else of_nat (k + 1))" if "k < n" for k
    using that by (simp add: nx_def)
  have len: "length nx = n" by (simp add: nx_def)
  have "is_chain nx (of_nat k) [k..<n]" if "k < n" for k
    using that
  proof (induction "n - k" arbitrary: k)
    case (Suc m)
    have up: "[k..<n] = k # [Suc k..<n]" using Suc.prems by (rule upt_conv_Cons)
    show ?case
    proof (cases "k = n - 1")
      case True
      then have "nx ! k = ucast kInvalidIndex" "[k..<n] = [k]" using Suc.prems up nth by simp_all
      then show ?thesis using Suc.prems len by simp
    next
      case False
      then have "is_chain nx (of_nat (Suc k)) [Suc k..<n]" using Suc by (intro Suc.hyps) auto
      then show ?thesis using Suc.prems False by (simp add: up nth len)
    qed
  qed simp
  from this [of 0] have "is_chain nx 0 [0..<n]" using assms by simp
  then have "pool_chain (pool_new n sz raw) [0..<n]" by (simp add: pool_chain_def pool_new_def nx_def)
  moreover have "pool_live (pool_new n sz raw) = {}" by (auto simp: pool_live_def pool_new_def)
  ultimately show ?thesis using assms by (auto simp: pool_inv_def pool_new_def)
qed

subsection \<open>The operations implement the contract\<close>

lemma bin_offset_inj: "0 < mp_bin_size p \<Longrightarrow> bin_offset p i = bin_offset p j \<longleftrightarrow> i = j"
  by (simp add: bin_offset_def)

lemma ptr_index_offset [simp]: "0 < mp_bin_size p \<Longrightarrow> ptr_index p (bin_offset p i) = i"
  by (simp add: ptr_index_def bin_offset_def nat_mult_distrib)

lemma pool_allocate_none:
  assumes "pool_inv p" "pool_allocate p v = (p', None)"
  shows "p' = p" "\<forall>i<length (mp_store p). bin_alive (mp_store p ! i)"
proof -
  obtain fl where fl: "pool_chain p fl" using assms(1) by (auto simp: pool_inv_def)
  have e: "sh_index (unpack (mp_head p)) = kInvalidIndex" "p' = p"
    using assms(2) by (auto simp: pool_allocate_def Let_def split: if_splits)
  have len: "length (mp_next p) < 2 ^ 32 - 1" using assms(1) by (simp add: pool_inv_def)
  have c: "is_chain (mp_next p) (ucast kInvalidIndex) fl" using fl e by (simp add: pool_chain_def)
  have "fl = []" using chain_not_invalid [OF _ len] c by (metis list.exhaust)
  then show "p' = p" "\<forall>i<length (mp_store p). bin_alive (mp_store p ! i)"
    using fl e by (auto simp: pool_chain_def)
qed

lemma pool_allocate_some:
  assumes inv: "pool_inv p" and al: "pool_allocate p v = (p', Some off)"
  obtains x where "off = bin_offset p x" "x < length (mp_store p)" "\<not> bin_alive (mp_store p ! x)"
    "mp_store p' = (mp_store p)[x := \<lparr>bin_storage = v, bin_alive = True\<rparr>]"
    "mp_bin_size p' = mp_bin_size p" "pool_inv p'"
proof -
  let ?h = "unpack (mp_head p)"
  obtain fl where fl: "pool_chain p fl" using inv by (auto simp: pool_inv_def)
  have len: "length (mp_next p) = length (mp_store p)" "length (mp_store p) < 2 ^ 32 - 1"
    using inv by (auto simp: pool_inv_def)
  have ne: "sh_index ?h \<noteq> kInvalidIndex" using al by (auto simp: pool_allocate_def Let_def split: if_splits)
  obtain x xs where f: "fl = x # xs" using fl ne by (cases fl) (auto simp: pool_chain_def head_is_chain_start)
  have c: "is_chain (mp_next p) (ucast (sh_index ?h)) (x # xs)" "distinct (x # xs)" using fl f by (auto simp: pool_chain_def)
  have x: "unat (sh_index ?h) = x" "x < length (mp_store p)"
    using chain_not_invalid [OF c(1)] len c(1) by auto
  let ?n = "mp_next p ! x"
  have p': "p' = p\<lparr>mp_store := (mp_store p)[x := \<lparr>bin_storage = v, bin_alive = True\<rparr>],
                   mp_head := pack \<lparr>sh_index = ucast ?n, sh_counter = sh_counter ?h + 1\<rparr>\<rparr>"
    "off = bin_offset p x"
    using al ne x by (auto simp: pool_allocate_def Let_def)
  have "unat ?n < 2 ^ 32" using c(1) len chain_start_less [of "mp_next p" ?n xs] by simp
  then have "is_chain (mp_next p) (ucast (ucast ?n :: u32)) xs" using c(1) by (simp only: ucast_64_32_64 is_chain.simps)
  moreover have "\<forall>i<length (mp_store p'). bin_alive (mp_store p' ! i) \<longleftrightarrow> i \<notin> set xs"
    using fl f c(2) p' x(2) by (auto simp: pool_chain_def nth_list_update)
  ultimately have "pool_chain p' xs" using c(2) p' by (simp add: pool_chain_def)
  then have inv': "pool_inv p'" using p' inv by (auto simp: pool_inv_def)
  have "\<not> bin_alive (mp_store p ! x)" using fl f x by (auto simp: pool_chain_def)
  then show thesis using that x p' inv' by simp
qed

lemma pool_deallocate_live:
  assumes inv: "pool_inv p" and x: "x < length (mp_store p)" "bin_alive (mp_store p ! x)"
    and de: "pool_deallocate p (Some (bin_offset p x)) = (p', r)"
  shows "r" "mp_store p' = (mp_store p)[x := (mp_store p ! x)\<lparr>bin_alive := False\<rparr>]"
    "mp_bin_size p' = mp_bin_size p" "pool_inv p'"
proof -
  let ?h = "unpack (mp_head p)"
  obtain fl where fl: "pool_chain p fl" using inv by (auto simp: pool_inv_def)
  have len: "length (mp_next p) = length (mp_store p)" "length (mp_store p) < 2 ^ 32 - 1" "0 < mp_bin_size p"
    using inv by (auto simp: pool_inv_def)
  have off: "nat (bin_offset p x) = x * mp_bin_size p" "0 \<le> bin_offset p x" by (simp_all add: bin_offset_def nat_mult_distrib)
  let ?p = "p\<lparr>mp_store := (mp_store p)[x := (mp_store p ! x)\<lparr>bin_alive := False\<rparr>],
              mp_next := (mp_next p)[x := ucast (sh_index ?h)],
              mp_head := pack \<lparr>sh_index = of_nat x, sh_counter = sh_counter ?h + 1\<rparr>\<rparr>"
  have e: "p' = ?p" "r" using de x off len by (auto simp: pool_deallocate_def Let_def)
  have nf: "x \<notin> set fl" using fl x by (auto simp: pool_chain_def)
  have u: "(ucast (of_nat x :: u32) :: u64) = of_nat x"
    using x len by (intro word_unat_eq_iff [THEN iffD2]) (simp only: unat_ucast_32_64 unat_of_nat, simp)
  have "is_chain (mp_next ?p) (of_nat x) (x # fl)"
    using fl nf x len by (simp add: pool_chain_def chain_update_other)
  moreover have "\<forall>i<length (mp_store ?p). bin_alive (mp_store ?p ! i) \<longleftrightarrow> i \<notin> set (x # fl)"
    using fl x by (auto simp: pool_chain_def nth_list_update)
  ultimately have "pool_chain ?p (x # fl)" using fl nf u by (simp add: pool_chain_def del: is_chain.simps)
  then show "r" "mp_store p' = (mp_store p)[x := (mp_store p ! x)\<lparr>bin_alive := False\<rparr>]"
    "mp_bin_size p' = mp_bin_size p" "pool_inv p'" using e len by (auto simp: pool_inv_def)
qed

lemma pool_deallocate_dead:
  assumes inv: "pool_inv p" and nl: "off \<notin> pool_live p"
  shows "pool_deallocate p (Some off) = (p, False)"
proof (cases "0 \<le> off \<and> nat off mod mp_bin_size p = 0")
  case True
  let ?x = "nat off div mp_bin_size p"
  have "nat off = ?x * mp_bin_size p" using True by (metis div_mult_mod_eq add.right_neutral)
  then have "off = bin_offset p ?x" using True by (simp add: bin_offset_def) (metis int_nat_eq of_nat_mult)
  then have "?x < length (mp_store p) \<Longrightarrow> \<not> bin_alive (mp_store p ! ?x)"
    using nl by (auto simp: pool_live_def)
  then show ?thesis using True by (auto simp: pool_deallocate_def Let_def)
qed (auto simp: pool_deallocate_def Let_def)

lemma pool_live_iff: "0 < mp_bin_size p \<Longrightarrow>
  bin_offset p x \<in> pool_live p \<longleftrightarrow> x < length (mp_store p) \<and> bin_alive (mp_store p ! x)"
  by (auto simp: pool_live_def bin_offset_inj)

lemma pool_live_image: "pool_live p = bin_offset p ` {i. i < length (mp_store p) \<and> bin_alive (mp_store p ! i)}"
  by (auto simp: pool_live_def)

lemma pool_live_card:
  "0 < mp_bin_size p \<Longrightarrow> card (pool_live p) = card {i. i < length (mp_store p) \<and> bin_alive (mp_store p ! i)}"
  unfolding pool_live_image by (rule card_image) (simp add: inj_on_def bin_offset_inj)

lemma pool_inv_size: "pool_inv p \<Longrightarrow> 0 < mp_bin_size p"
  by (simp add: pool_inv_def)

lemma bin_offset_cong: "mp_bin_size p' = mp_bin_size p \<Longrightarrow> bin_offset p' = bin_offset p"
  by (rule ext) (simp add: bin_offset_def)

lemma pool_get_offset: "0 < mp_bin_size p \<Longrightarrow> pool_get p (bin_offset p x) = bin_storage (mp_store p ! x)"
  by (simp add: pool_get_def)

interpretation pool: allocator pool_allocate pool_deallocate pool_get pool_put pool_live pool_capacity pool_inv
proof
  fix p p' :: "'a mpool" and v :: 'a and i r
  assume inv: "pool_inv p"
  have sz: "0 < mp_bin_size p" using inv by (rule pool_inv_size)
  show "finite (pool_live p) \<and> card (pool_live p) \<le> pool_capacity p"
  proof
    have "{i. i < length (mp_store p) \<and> bin_alive (mp_store p ! i)} \<subseteq> {..<length (mp_store p)}" by auto
    from card_mono [OF _ this] show "card (pool_live p) \<le> pool_capacity p"
      by (simp add: pool_live_card [OF sz] pool_capacity_def)
  qed (simp add: pool_live_image)
  show "p' = p \<and> card (pool_live p) = pool_capacity p" if "pool_allocate p v = (p', None)"
  proof -
    note n = pool_allocate_none [OF inv that]
    then have "{i. i < length (mp_store p) \<and> bin_alive (mp_store p ! i)} = {..<length (mp_store p)}" by auto
    then show ?thesis using n by (simp add: pool_live_card [OF sz] pool_capacity_def)
  qed
  show "pool_deallocate p (Some i) = (p, False)" if "i \<notin> pool_live p"
    using inv that by (rule pool_deallocate_dead)
  show "pool_inv p' \<and> i \<notin> pool_live p \<and> pool_live p' = insert i (pool_live p) \<and> pool_capacity p' = pool_capacity p
      \<and> pool_get p' i = v \<and> (\<forall>j\<in>pool_live p. pool_get p' j = pool_get p j)"
    if al: "pool_allocate p v = (p', Some i)"
  proof -
    obtain x where x: "i = bin_offset p x" "x < length (mp_store p)" "\<not> bin_alive (mp_store p ! x)"
      "mp_store p' = (mp_store p)[x := \<lparr>bin_storage = v, bin_alive = True\<rparr>]"
      "mp_bin_size p' = mp_bin_size p" "pool_inv p'" using pool_allocate_some [OF inv al] .
    have o: "bin_offset p' = bin_offset p" using x(5) by (rule bin_offset_cong)
    have g: "pool_get p' (bin_offset p k) = bin_storage (mp_store p' ! k)" for k
      using pool_get_offset [of p' k] sz x(5) o by simp
    have "pool_live p' = insert i (pool_live p)"
      using x by (auto simp: pool_live_def o nth_list_update)
    moreover have "i \<notin> pool_live p" using x sz by (simp add: pool_live_iff)
    ultimately show ?thesis using x g sz
      by (auto simp: pool_capacity_def pool_live_def pool_get_offset nth_list_update)
  qed
  assume live: "i \<in> pool_live p"
  obtain x where x: "i = bin_offset p x" "x < length (mp_store p)" "bin_alive (mp_store p ! x)"
    using live by (auto simp: pool_live_def)
  show "r \<and> pool_inv p' \<and> pool_live p' = pool_live p - {i} \<and> pool_capacity p' = pool_capacity p
      \<and> (\<forall>j\<in>pool_live p - {i}. pool_get p' j = pool_get p j)"
    if "pool_deallocate p (Some i) = (p', r)"
  proof -
    note d = pool_deallocate_live [OF inv x(2,3) that [unfolded x(1)]]
    have o: "bin_offset p' = bin_offset p" using d(3) by (rule bin_offset_cong)
    have g: "pool_get p' (bin_offset p k) = bin_storage (mp_store p' ! k)" for k
      using pool_get_offset [of p' k] sz d(3) o by simp
    have "pool_live p' = pool_live p - {i}"
      using x d(2) sz by (auto simp: pool_live_def o nth_list_update bin_offset_inj)
    moreover have "bin_storage (mp_store p' ! k) = bin_storage (mp_store p ! k)" for k
      using d(2) x(2) by (cases "k = x") (simp_all add: nth_list_update)
    then have "\<forall>j\<in>pool_live p. pool_get p' j = pool_get p j"
      using g sz by (auto simp: pool_live_def pool_get_offset)
    moreover have "pool_capacity p' = pool_capacity p" using d(2) by (simp add: pool_capacity_def)
    ultimately show ?thesis using d(1,4) by simp
  qed
  show "pool_inv (pool_put p i v) \<and> pool_live (pool_put p i v) = pool_live p
      \<and> pool_capacity (pool_put p i v) = pool_capacity p
      \<and> (\<forall>j\<in>pool_live p. pool_get (pool_put p i v) j = (if j = i then v else pool_get p j))"
  proof -
    let ?p = "pool_put p i v"
    have st: "mp_store ?p = (mp_store p)[x := (mp_store p ! x)\<lparr>bin_storage := v\<rparr>]"
      "mp_bin_size ?p = mp_bin_size p" "mp_next ?p = mp_next p" "mp_head ?p = mp_head p"
      using x(1) sz by (simp_all add: pool_put_def)
    have o: "bin_offset ?p = bin_offset p" using st(2) by (rule bin_offset_cong)
    have al: "bin_alive (mp_store ?p ! k) = bin_alive (mp_store p ! k)" for k
      using st(1) x(2) by (cases "k = x") (simp_all add: nth_list_update)
    have g: "pool_get ?p (bin_offset p k) = bin_storage (mp_store ?p ! k)" for k
      using pool_get_offset [of ?p k] sz st(2) o by simp
    have "pool_inv ?p" using inv al st by (simp add: pool_inv_def pool_chain_def)
    moreover have "pool_live ?p = pool_live p" using al o st by (simp add: pool_live_def)
    ultimately show ?thesis using g sz st x
      by (auto simp: pool_capacity_def pool_live_def pool_get_offset nth_list_update bin_offset_inj)
  qed
qed

lemma free_count_live:
  assumes inv: "pool_inv p"
  shows "free_count p + card (pool_live p) = pool_capacity p"
proof -
  obtain fl where fl: "pool_chain p fl" using inv by (auto simp: pool_inv_def)
  have len: "length (mp_next p) = length (mp_store p)" "length (mp_next p) < 2 ^ 32 - 1" "0 < mp_bin_size p"
    using inv by (auto simp: pool_inv_def)
  let ?n = "length (mp_store p)"
  have sub: "set fl \<subseteq> {..<?n}" using fl chain_members len by (fastforce simp: pool_chain_def)
  have d: "distinct fl" using fl by (simp add: pool_chain_def)
  then have "length fl \<le> ?n" using card_mono [OF _ sub] by (simp add: distinct_card)
  then have fc: "free_count p = length fl"
    using fl len count_free_chain by (simp add: free_count_def pool_chain_def)
  have "{i. i < ?n \<and> bin_alive (mp_store p ! i)} = {..<?n} - set fl"
    using fl by (auto simp: pool_chain_def)
  then have "card (pool_live p) = ?n - length fl"
    using sub d len by (simp add: pool_live_card card_Diff_subset distinct_card)
  then show ?thesis using fc \<open>length fl \<le> ?n\<close> by (simp add: pool_capacity_def)
qed

subsection \<open>Properties\<close>

text \<open>
  C28. \<open>allocate\<close> hands out a bin that is not live, constructs the value in it, leaves every live object
  untouched, and returns the null pointer exactly when all \<open>capacity\<close> bins are live; free nodes and live
  objects always add up to the capacity.
\<close>

theorem pool_allocate_correct:
  assumes "pool_inv p"
  shows "(case pool_allocate p v of
           (p', None) \<Rightarrow> p' = p \<and> card (pool_live p) = pool_capacity p
         | (p', Some i) \<Rightarrow> pool_inv p' \<and> i \<notin> pool_live p \<and> pool_live p' = insert i (pool_live p)
             \<and> pool_get p' i = v \<and> (\<forall>j. j \<in> pool_live p \<longrightarrow> pool_get p' j = pool_get p j)
             \<and> card (pool_live p) < pool_capacity p)
         \<and> free_count p + card (pool_live p) = pool_capacity p"
proof -
  obtain p' r where r: "pool_allocate p v = (p', r)" by fastforce
  show ?thesis
  proof (cases r)
    case None
    then show ?thesis using r pool.alloc_none [OF assms] free_count_live [OF assms] by simp
  next
    case (Some i)
    have a: "pool_allocate p v = (p', Some i)" using r Some by simp
    have "card (pool_live p') \<le> pool_capacity p'" using pool.alloc_some [OF assms a] pool.live_bound by blast
    then have "card (pool_live p) < pool_capacity p"
      using pool.alloc_card [OF assms a] pool.alloc_some [OF assms a] by simp
    then show ?thesis using a pool.alloc_some [OF assms a] free_count_live [OF assms] by simp
  qed
qed

theorem pool_allocate_correct_witness:
  "pool_inv (pool_new 3 8 (0::nat)) \<and> free_count (pool_new 3 8 (0::nat)) + card (pool_live (pool_new 3 8 (0::nat))) = 3"
proof
  show inv: "pool_inv (pool_new 3 8 (0::nat))" by (simp add: pool_new_inv)
  show "free_count (pool_new 3 8 (0::nat)) + card (pool_live (pool_new 3 8 (0::nat))) = 3"
    using pool_allocate_correct [OF inv, of 5] by (simp add: pool_capacity_def pool_new_def)
qed

text \<open>
  C29. \<open>deallocate\<close> accepts exactly the pointers of live objects: for such a pointer it reports success, frees
  that object only, and a second \<open>deallocate\<close> of the same pointer is rejected without effect; null,
  misaligned, out-of-range and dead pointers are rejected without effect.
\<close>

theorem pool_deallocate_correct:
  assumes "pool_inv p"
  shows "snd (pool_deallocate p e) = (\<exists>i\<in>pool_live p. e = Some i)
     \<and> (\<not> snd (pool_deallocate p e) \<longrightarrow> fst (pool_deallocate p e) = p)
     \<and> (\<forall>i\<in>pool_live p. e = Some i \<longrightarrow>
          (let p' = fst (pool_deallocate p e) in
           pool_inv p' \<and> pool_live p' = pool_live p - {i} \<and> pool_deallocate p' e = (p', False)
           \<and> (\<forall>j\<in>pool_live p'. pool_get p' j = pool_get p j)))"
proof (cases e)
  case None
  then show ?thesis by (simp add: pool_deallocate_def)
next
  case (Some i)
  show ?thesis
  proof (cases "i \<in> pool_live p")
    case True
    obtain p' r where d: "pool_deallocate p (Some i) = (p', r)" by fastforce
    show ?thesis
      using Some True d pool.free_live [OF assms True d] pool.double_free_rejected [OF assms True d] by simp
  next
    case False
    then show ?thesis using Some pool.free_dead [OF assms False] by simp
  qed
qed

theorem pool_deallocate_correct_witness:
  "let p = fst (pool_allocate (pool_new 3 8 (0::nat)) 5) in
   pool_deallocate p (Some 4) = (p, False) \<and> snd (pool_deallocate p (Some 0))"
proof -
  let ?n = "pool_new 3 8 (0::nat)"
  have n: "pool_inv ?n" "pool_live ?n = {}" using pool_new_inv [of 3 8 "0::nat"] by simp_all
  have a: "pool_allocate ?n 5 = (fst (pool_allocate ?n 5), Some 0)"
    by (simp add: pool_allocate_def pool_new_def bin_offset_def kInvalidIndex_def Let_def)
  have p: "pool_inv (fst (pool_allocate ?n 5))" "pool_live (fst (pool_allocate ?n 5)) = {0}"
    using pool.alloc_some [OF n(1) a] n(2) by auto
  show ?thesis
    using pool_deallocate_correct [OF p(1), of "Some 4"] pool_deallocate_correct [OF p(1), of "Some 0"] p(2)
    by (auto simp: Let_def prod_eq_iff)
qed

end
