(* ===== verification/Bucket_Book.thy ===== *)
theory Bucket_Book
  imports Book_Common Mem_Pool
begin

text \<open>
  The default order book (\<^verbatim>\<open>hft/src/order_book.hpp\<close>, \<^verbatim>\<open>MarketOrderBook\<close> without \<^verbatim>\<open>USE_FLAT_ORDERBOOK\<close>): price levels
  in buckets of 4096, each bucket a bitmap and an array of quantities allocated from a memory pool, and
  a summary bitmap of the occupied buckets.

  A \<open>bucket_side\<close> is the bid or the ask half: the vector of bucket pointers (\<^term>\<open>None\<close> is \<^verbatim>\<open>nullptr\<close>), the
  summary words, the pool holding the buckets and the cached best index. The fixed-size arrays inside
  a bucket are functions on the index. Operations that dereference the result of an allocation return
  an option: \<^term>\<open>None\<close> is the null dereference when the pool is exhausted, or the unguarded call of a trade
  engine that was never set.
\<close>

record bucket =
  bk_bitmap :: "nat \<Rightarrow> u64"
  bk_orders :: "nat \<Rightarrow> int64"

definition bucket_new :: bucket where
  "bucket_new = \<lparr>bk_bitmap = (\<lambda>_. 0), bk_orders = (\<lambda>_. 0)\<rparr>"

definition bucket_empty :: "bucket \<Rightarrow> bool" where
  "bucket_empty b \<longleftrightarrow> list_all (\<lambda>w. bk_bitmap b w = 0) [0..<kBucketBitmapWords]"

record bucket_side =
  bs_buckets :: "int option list"
  bs_summary :: "u64 list"
  bs_pool :: "bucket mpool"
  bs_cached :: int

record bucket_book =
  bb_config :: OrderBookConfig
  bb_bid :: bucket_side
  bb_ask :: bucket_side
  bb_bbo :: BBO
  bb_engine :: bool

definition bucket_side_new :: "OrderBookConfig \<Rightarrow> bucket_side" where
  "bucket_side_new cfg =
     \<lparr>bs_buckets = replicate (bucket_count cfg) None, bs_summary = replicate (summary_words cfg) 0,
      bs_pool = pool_new (bucket_pool_size cfg) 33288 bucket_new, bs_cached = - 1\<rparr>"

definition bucket_book_new :: "OrderBookConfig \<Rightarrow> bucket_book" where
  "bucket_book_new cfg =
     \<lparr>bb_config = cfg, bb_bid = bucket_side_new cfg, bb_ask = bucket_side_new cfg, bb_bbo = BBO_default, bb_engine = False\<rparr>"

definition set_summary :: "bucket_side \<Rightarrow> nat \<Rightarrow> bucket_side" where
  "set_summary s bid_x =
     (let w = drop_bit 6 bid_x in
      s\<lparr>bs_summary := (bs_summary s)[w := bs_summary s ! w OR push_bit (bid_x AND 63) 1]\<rparr>)"

definition clear_summary :: "bucket_side \<Rightarrow> nat \<Rightarrow> bucket_side" where
  "clear_summary s bid_x =
     (let w = drop_bit 6 bid_x in
      s\<lparr>bs_summary := (bs_summary s)[w := bs_summary s ! w AND NOT (push_bit (bid_x AND 63) 1)]\<rparr>)"

text \<open>\<^verbatim>\<open>update_bid\<close> and \<^verbatim>\<open>update_ask\<close>: first the bucket of the level is made to exist, then the level is written.\<close>

definition ensure_bucket :: "bucket_side \<Rightarrow> nat \<Rightarrow> (bucket_side \<times> int) option" where
  "ensure_bucket s bucket_idx =
     (case bs_buckets s ! bucket_idx of
        Some ptr \<Rightarrow> Some (s, ptr)
      | None \<Rightarrow>
          (case pool_allocate (bs_pool s) bucket_new of
             (_, None) \<Rightarrow> None
           | (p, Some ptr) \<Rightarrow>
               let b = pool_get p ptr;
                   p' = pool_put p ptr (b\<lparr>bk_bitmap := (\<lambda>_. 0), bk_orders := (\<lambda>_. 0)\<rparr>)
               in Some (s\<lparr>bs_pool := p', bs_buckets := (bs_buckets s)[bucket_idx := Some ptr]\<rparr>, ptr)))"

definition write_level :: "bucket_side \<Rightarrow> nat \<Rightarrow> int \<Rightarrow> nat \<Rightarrow> int64 \<Rightarrow> bucket_side" where
  "write_level s bucket_idx ptr off qty =
     (let b = pool_get (bs_pool s) ptr;
          b1 = b\<lparr>bk_orders := (bk_orders b)(off := qty)\<rparr>;
          word = drop_bit 6 off;
          mask = push_bit (off AND 63) 1
      in if qty > 0
         then set_summary (s\<lparr>bs_pool := pool_put (bs_pool s) ptr (b1\<lparr>bk_bitmap := (bk_bitmap b1)(word := bk_bitmap b1 word OR mask)\<rparr>)\<rparr>) bucket_idx
         else
           let b2 = b1\<lparr>bk_bitmap := (bk_bitmap b1)(word := bk_bitmap b1 word AND NOT mask)\<rparr>;
               s2 = s\<lparr>bs_pool := pool_put (bs_pool s) ptr b2\<rparr>
           in if bucket_empty b2
              then let s3 = clear_summary s2 bucket_idx
                   in s3\<lparr>bs_pool := fst (pool_deallocate (bs_pool s3) (Some ptr)), bs_buckets := (bs_buckets s3)[bucket_idx := None]\<rparr>
              else s2)"

definition update_side :: "bucket_side \<Rightarrow> nat \<Rightarrow> int64 \<Rightarrow> bucket_side option" where
  "update_side s idx qty =
     (let bucket_idx = idx div kBucketSize; off = idx AND 4095
      in case ensure_bucket s bucket_idx of
           None \<Rightarrow> None
         | Some (s1, ptr) \<Rightarrow> Some (write_level s1 bucket_idx ptr off qty))"

definition update_bid :: "bucket_book \<Rightarrow> nat \<Rightarrow> int64 \<Rightarrow> bucket_book option" where
  "update_bid b idx qty = map_option (\<lambda>s. b\<lparr>bb_bid := s\<rparr>) (update_side (bb_bid b) idx qty)"

definition update_ask :: "bucket_book \<Rightarrow> nat \<Rightarrow> int64 \<Rightarrow> bucket_book option" where
  "update_ask b idx qty = map_option (\<lambda>s. b\<lparr>bb_ask := s\<rparr>) (update_side (bb_ask b) idx qty)"

definition is_idx_valid :: "bucket_side \<Rightarrow> int \<Rightarrow> bool" where
  "is_idx_valid s idx =
     (if idx < 0 then False
      else case bs_buckets s ! (nat idx div kBucketSize) of
             None \<Rightarrow> False
           | Some ptr \<Rightarrow> bk_orders (pool_get (bs_pool s) ptr) (nat idx AND 4095) > 0)"

definition find_in_bucket :: "bucket \<Rightarrow> bool \<Rightarrow> int" where
  "find_in_bucket b highest =
     (let d = (if highest then SearchHighest else SearchLowest) in
      case first_some (\<lambda>iter. let word = bk_bitmap b iter in if word \<noteq> 0 then Some (iter * 64 + find_bit d word) else None)
             (dir_list d [0..<kBucketBitmapWords]) of
        Some off \<Rightarrow> int off
      | None \<Rightarrow> - 1)"

text \<open>\<^verbatim>\<open>best_bid_idx\<close> and \<^verbatim>\<open>best_ask_idx\<close>; \<open>the\<close> is the asserted non-null bucket pointer.\<close>

definition search_best :: "search_dir \<Rightarrow> bucket_side \<Rightarrow> nat option" where
  "search_best d s =
     first_some (\<lambda>sw. let word = bs_summary s ! sw in
        if word = 0 then None
        else let bidx = push_bit 6 sw + find_bit d word;
                 b = pool_get (bs_pool s) (the (bs_buckets s ! bidx))
             in first_some (\<lambda>lw. let lword = bk_bitmap b lw in
                  if lword = 0 then None else Some (bidx * kBucketSize + lw * 64 + find_bit d lword))
                  (dir_list d [0..<kBucketBitmapWords]))
       (dir_list d [0..<length (bs_summary s)])"

definition best_idx :: "search_dir \<Rightarrow> bucket_side \<Rightarrow> int \<times> bucket_side" where
  "best_idx d s =
     (if bs_cached s \<ge> 0 \<and> is_idx_valid s (bs_cached s) then (bs_cached s, s)
      else case search_best d s of
             Some r \<Rightarrow> (int r, s\<lparr>bs_cached := int r\<rparr>)
           | None \<Rightarrow> (- 1, s\<lparr>bs_cached := - 1\<rparr>))"

definition best_bid_idx :: "bucket_book \<Rightarrow> int \<times> bucket_side" where
  "best_bid_idx b = best_idx SearchHighest (bb_bid b)"

definition best_ask_idx :: "bucket_book \<Rightarrow> int \<times> bucket_side" where
  "best_ask_idx b = best_idx SearchLowest (bb_ask b)"

definition best_price :: "search_dir \<Rightarrow> OrderBookConfig \<Rightarrow> bucket_side \<Rightarrow> int64 \<times> bucket_side" where
  "best_price d cfg s = (case best_idx d s of (idx, s') \<Rightarrow>
     (if idx \<ge> 0 then index_to_price cfg idx else kInvalidValue, s'))"

definition best_qty :: "search_dir \<Rightarrow> bucket_side \<Rightarrow> int64 \<times> bucket_side" where
  "best_qty d s = (case best_idx d s of (idx, s') \<Rightarrow>
     (if idx < 0 then kInvalidValue
      else (case bs_buckets s' ! (nat idx div kBucketSize) of
              None \<Rightarrow> 0
            | Some ptr \<Rightarrow> bk_orders (pool_get (bs_pool s') ptr) (nat idx AND 4095)), s'))"

text \<open>One side with its quote: the bucket side, its price and quantity in the BBO.\<close>

type_synonym bucket_quote = "bucket_side \<times> int64 \<times> int64"

definition add_side :: "search_dir \<Rightarrow> OrderBookConfig \<Rightarrow> nat \<Rightarrow> int64 \<Rightarrow> bucket_quote \<Rightarrow> bucket_quote option" where
  "add_side d cfg idx qty q =
     (case q of (s, price, v) \<Rightarrow>
      case update_side s idx qty of
        None \<Rightarrow> None
      | Some s1 \<Rightarrow>
          if bs_cached s1 < 0 \<or> farther d (nat (bs_cached s1)) idx
          then Some (s1\<lparr>bs_cached := int idx\<rparr>, index_to_price cfg (int idx), qty)
          else if int idx = bs_cached s1 then Some (s1, price, qty)
          else Some (s1, price, v))"

definition delete_side :: "search_dir \<Rightarrow> OrderBookConfig \<Rightarrow> nat \<Rightarrow> bucket_quote \<Rightarrow> bucket_quote option" where
  "delete_side d cfg idx q =
     (case q of (s, price, v) \<Rightarrow>
      case update_side s idx 0 of
        None \<Rightarrow> None
      | Some s1 \<Rightarrow>
          if int idx = bs_cached s1
          then let s2 = s1\<lparr>bs_cached := - 1\<rparr>;
                   (price', s3) = best_price d cfg s2;
                   (qty', s4) = best_qty d s3
               in Some (s4, price', qty')
          else Some (s1, price, v))"

definition bid_quote :: "bucket_book \<Rightarrow> bucket_quote" where
  "bid_quote b = (bb_bid b, bid_price (bb_bbo b), bid_qty (bb_bbo b))"

definition ask_quote :: "bucket_book \<Rightarrow> bucket_quote" where
  "ask_quote b = (bb_ask b, ask_price (bb_bbo b), ask_qty (bb_bbo b))"

definition set_bid_quote :: "bucket_book \<Rightarrow> bucket_quote \<Rightarrow> bucket_book" where
  "set_bid_quote b q = (case q of (s, p, v) \<Rightarrow>
     b\<lparr>bb_bid := s, bb_bbo := (bb_bbo b)\<lparr>bid_price := p, bid_qty := v\<rparr>\<rparr>)"

definition set_ask_quote :: "bucket_book \<Rightarrow> bucket_quote \<Rightarrow> bucket_book" where
  "set_ask_quote b q = (case q of (s, p, v) \<Rightarrow>
     b\<lparr>bb_ask := s, bb_bbo := (bb_bbo b)\<lparr>ask_price := p, ask_qty := v\<rparr>\<rparr>)"

definition add_order :: "bucket_book \<Rightarrow> MarketData \<Rightarrow> nat \<Rightarrow> int64 \<Rightarrow> bucket_book option" where
  "add_order b md idx qty =
     (if md_side md = kBuy
      then map_option (set_bid_quote b) (add_side SearchHighest (bb_config b) idx qty (bid_quote b))
      else map_option (set_ask_quote b) (add_side SearchLowest (bb_config b) idx qty (ask_quote b)))"

definition delete_order :: "bucket_book \<Rightarrow> MarketData \<Rightarrow> nat \<Rightarrow> bucket_book option" where
  "delete_order b md idx =
     (if md_side md = kBuy
      then map_option (set_bid_quote b) (delete_side SearchHighest (bb_config b) idx (bid_quote b))
      else map_option (set_ask_quote b) (delete_side SearchLowest (bb_config b) idx (ask_quote b)))"

text \<open>The clear branch: every bucket goes back to its pool; the cached indices are not reset.\<close>

fun clear_buckets :: "nat list \<Rightarrow> bucket_side \<Rightarrow> bucket_side" where
  "clear_buckets [] s = s"
| "clear_buckets (i # is) s =
     clear_buckets is (case bs_buckets s ! i of
        None \<Rightarrow> s
      | Some ptr \<Rightarrow> s\<lparr>bs_pool := fst (pool_deallocate (bs_pool s) (Some ptr)), bs_buckets := (bs_buckets s)[i := None]\<rparr>)"

definition clear_side :: "OrderBookConfig \<Rightarrow> bucket_side \<Rightarrow> bucket_side" where
  "clear_side cfg s =
     (let s1 = clear_buckets [0..<bucket_count cfg] s
      in s1\<lparr>bs_summary := replicate (length (bs_summary s1)) 0\<rparr>)"

definition clear_book :: "bucket_book \<Rightarrow> bucket_book" where
  "clear_book b = b\<lparr>bb_bid := clear_side (bb_config b) (bb_bid b), bb_ask := clear_side (bb_config b) (bb_ask b),
                    bb_bbo := BBO_default\<rparr>"

definition on_market_data_updated :: "bucket_book \<Rightarrow> MarketData \<Rightarrow> (bucket_book \<times> book_event list) option" where
  "on_market_data_updated b md =
     (if out_of_range (bb_config b) md then Some (b, [])
      else
        let idx = nat (price_to_index (bb_config b) (md_price md)); qty = md_qty md;
            notify = (\<lambda>b'. if bb_engine b'
                           then Some (b', [OnOrderbookUpdated (md_ticker_id md) (md_price md) (md_side md)]) else None)
        in case md_type md of
             Upd_kInvalid \<Rightarrow> notify b
           | kClear \<Rightarrow> Some (clear_book b, [])
           | kAdd \<Rightarrow> Option.bind (add_order b md idx qty) notify
           | kModify \<Rightarrow> Option.bind (add_order b md idx qty) notify
           | kCancel \<Rightarrow> Option.bind (delete_order b md idx) notify
           | kTrade \<Rightarrow> Some (b, if bb_engine b then [OnTradeUpdated md] else [])
           | kBookTicker \<Rightarrow> Some (b, if bb_engine b then [OnBookTickerUpdated md] else []))"

text \<open>\<^verbatim>\<open>next_active_impl\<close>: first the bucket of the start level, then the buckets the summary marks.\<close>

definition search_bucket :: "search_dir \<Rightarrow> bucket \<Rightarrow> nat \<Rightarrow> nat \<Rightarrow> nat option" where
  "search_bucket d b bucket_index level_offset =
     (let word_index = drop_bit 6 level_offset;
          bit_offset = level_offset AND 63;
          word = bk_bitmap b word_index AND make_mask d bit_offset
      in if word \<noteq> 0 then Some (bucket_index * kBucketSize + (word_index * 64 + find_bit d word))
         else iterate_words d word_index (case d of SearchHighest \<Rightarrow> 0 | SearchLowest \<Rightarrow> kBucketBitmapWords)
                (\<lambda>word_idx. let w = bk_bitmap b word_idx in
                   if w \<noteq> 0 then Some (bucket_index * kBucketSize + (word_idx * 64 + find_bit d w)) else None))"

definition search_summary :: "search_dir \<Rightarrow> OrderBookConfig \<Rightarrow> bucket_side \<Rightarrow> nat \<Rightarrow> int" where
  "search_summary d cfg s bucket_index =
     (let summary_word_index = drop_bit 6 bucket_index;
          summary_bit_offset = bucket_index AND 63;
          sb_word = bs_summary s ! summary_word_index AND make_mask d summary_bit_offset;
          enter = (\<lambda>next_bucket_index.
            int next_bucket_index * int kBucketSize
            + find_in_bucket (pool_get (bs_pool s) (the (bs_buckets s ! next_bucket_index))) (d = SearchHighest))
      in if sb_word \<noteq> 0 then enter (push_bit 6 summary_word_index + find_bit d sb_word)
         else (case iterate_summary d summary_word_index (summary_words cfg)
                 (\<lambda>swi. let summary_word = bs_summary s ! swi in
                    if summary_word \<noteq> 0 then Some (enter (push_bit 6 swi + find_bit d summary_word)) else None) of
                 Some r \<Rightarrow> r
               | None \<Rightarrow> - 1))"

definition next_active :: "search_dir \<Rightarrow> OrderBookConfig \<Rightarrow> bucket_side \<Rightarrow> nat \<Rightarrow> int" where
  "next_active d cfg s start_idx =
     (let bucket_index = start_idx div kBucketSize;
          level_offset = start_idx AND 4095
      in case (case bs_buckets s ! bucket_index of
                 None \<Rightarrow> None
               | Some ptr \<Rightarrow> search_bucket d (pool_get (bs_pool s) ptr) bucket_index level_offset) of
           Some r \<Rightarrow> int r
         | None \<Rightarrow> search_summary d cfg s bucket_index)"

definition next_active_idx :: "bucket_book \<Rightarrow> bool \<Rightarrow> nat \<Rightarrow> int" where
  "next_active_idx b is_bid start_idx =
     (if is_bid then next_active SearchHighest (bb_config b) (bb_bid b) start_idx
      else next_active SearchLowest (bb_config b) (bb_ask b) start_idx)"

end
