(* ===== verification/Bucket_Book_Inv.thy ===== *)
theory Bucket_Book_Inv
  imports Bucket_Book
begin

text \<open>
  Invariant of one side of the bucket book and its preservation. \<open>side_inv\<close> ties together the three
  redundant representations of the occupied levels: the quantities, the bitmap of each bucket, and the
  summary of the occupied buckets; and it says that the pool's live objects are exactly the buckets the
  pointer vector refers to, without aliasing. \<open>level_qty\<close> abstracts a side to the level map of
  \<open>Book_Common\<close>; \<open>update_side_correct\<close> is the refinement of \<open>set_level\<close>.
\<close>

definition bucket_ok :: "bucket \<Rightarrow> bool" where
  "bucket_ok b \<longleftrightarrow> (\<forall>off<4096. off \<in> bmset (bk_bitmap b) \<longleftrightarrow> bk_orders b off > 0)"

text \<open>The buckets a pointer vector reaches through a pool, and the ownership of the pool's live objects.\<close>

definition bview :: "int option list \<Rightarrow> bucket mpool \<Rightarrow> nat \<Rightarrow> bucket option" where
  "bview bs p i = (if i < length bs then map_option (pool_get p) (bs ! i) else None)"

definition mem_ok :: "int option list \<Rightarrow> bucket mpool \<Rightarrow> bool" where
  "mem_ok bs p \<longleftrightarrow> pool_inv p \<and> pool_live p = {q. \<exists>i<length bs. bs ! i = Some q}
     \<and> (\<forall>i j q. i < length bs \<longrightarrow> j < length bs \<longrightarrow> bs ! i = Some q \<longrightarrow> bs ! j = Some q \<longrightarrow> i = j)"

abbreviation sview :: "bucket_side \<Rightarrow> nat \<Rightarrow> bucket option" where
  "sview s \<equiv> bview (bs_buckets s) (bs_pool s)"

abbreviation occupied :: "bucket_side \<Rightarrow> nat set" where
  "occupied s \<equiv> bmset (\<lambda>w. bs_summary s ! w)"

definition side_shape :: "OrderBookConfig \<Rightarrow> bucket_side \<Rightarrow> bool" where
  "side_shape cfg s \<longleftrightarrow> length (bs_buckets s) = bucket_count cfg \<and> length (bs_summary s) = summary_words cfg
     \<and> bucket_count cfg \<le> summary_words cfg * 64
     \<and> mem_ok (bs_buckets s) (bs_pool s) \<and> pool_capacity (bs_pool s) = bucket_pool_size cfg"

definition side_inv :: "OrderBookConfig \<Rightarrow> bucket_side \<Rightarrow> bool" where
  "side_inv cfg s \<longleftrightarrow> side_shape cfg s
     \<and> (\<forall>i b. sview s i = Some b \<longrightarrow> bucket_ok b \<and> \<not> bucket_empty b)
     \<and> (\<forall>i < summary_words cfg * 64. i \<in> occupied s \<longleftrightarrow> sview s i \<noteq> None)"

definition view_qty :: "(nat \<Rightarrow> bucket option) \<Rightarrow> level_map" where
  "view_qty v i = (case v (i div 4096) of None \<Rightarrow> 0 | Some b \<Rightarrow> max 0 (bk_orders b (i mod 4096)))"

definition level_qty :: "bucket_side \<Rightarrow> level_map" where
  "level_qty s = view_qty (sview s)"

subsection \<open>Buckets\<close>

lemma kBucketBitmapWords_eq [simp]: "kBucketBitmapWords = 64"
  by (simp add: kBucketBitmapWords_def kBucketSize_def)

lemma bucket_empty_iff: "bucket_empty b \<longleftrightarrow> (\<forall>off<4096. off \<notin> bmset (bk_bitmap b))"
proof
  assume e: "bucket_empty b"
  have "bk_bitmap b (off div 64) = 0" if "off < 4096" for off
  proof -
    have "off div 64 < 64" using that by (simp add: less_mult_imp_div_less)
    then show ?thesis using e by (simp add: bucket_empty_def list_all_iff)
  qed
  then show "\<forall>off<4096. off \<notin> bmset (bk_bitmap b)" by (simp add: bmset_def)
next
  assume n: "\<forall>off<4096. off \<notin> bmset (bk_bitmap b)"
  have "bk_bitmap b w = 0" if "w < 64" for w
  proof (rule ccontr)
    assume "bk_bitmap b w \<noteq> 0"
    then obtain i where i: "i < 64" "bit (bk_bitmap b w) i" by (auto simp: word64_nonzero_bit)
    then have "w * 64 + i \<in> bmset (bk_bitmap b)" by (simp add: bmset_word)
    moreover have "w * 64 + i < 4096" using that i by simp
    ultimately show False using n by blast
  qed
  then show "bucket_empty b" by (simp add: bucket_empty_def list_all_iff)
qed

lemma bucket_empty_active: "bucket_ok b \<Longrightarrow> bucket_empty b \<longleftrightarrow> (\<forall>off<4096. bk_orders b off \<le> 0)"
  by (auto simp: bucket_empty_iff bucket_ok_def not_less [symmetric])

lemma bucket_new_ok: "bucket_ok bucket_new" "bucket_empty bucket_new"
  by (simp_all add: bucket_ok_def bucket_new_def bmset_def bucket_empty_iff)

definition wr :: "bucket \<Rightarrow> nat \<Rightarrow> int64 \<Rightarrow> bucket" where
  "wr b off qty = b\<lparr>bk_orders := (bk_orders b)(off := qty),
     bk_bitmap := (bk_bitmap b)(off div 64 := (if qty > 0 then put_bit (bk_bitmap b (off div 64)) (off mod 64)
                                               else clear_bit (bk_bitmap b (off div 64)) (off mod 64)))\<rparr>"

lemma wr_bitmap:
  "i \<in> bmset (bk_bitmap (wr b off qty)) \<longleftrightarrow> (if i = off then qty > 0 else i \<in> bmset (bk_bitmap b))"
  by (cases "qty > 0") (simp_all add: wr_def bmset_put bmset_clear del: push_bit_of_1)

lemma bucket_ok_wr: "bucket_ok b \<Longrightarrow> bucket_ok (wr b off qty)"
  by (auto simp: bucket_ok_def wr_bitmap) (auto simp: wr_def)

subsection \<open>Memory\<close>

lemma bview_bound: "bview bs p i \<noteq> None \<Longrightarrow> i < length bs"
  by (simp add: bview_def split: if_splits)

lemma mem_live: "mem_ok bs p \<Longrightarrow> i < length bs \<Longrightarrow> bs ! i = Some q \<Longrightarrow> q \<in> pool_live p"
  by (auto simp: mem_ok_def)

lemma bview_cong:
  assumes "length bs' = length bs"
    and "\<And>j q. j < length bs \<Longrightarrow> j \<noteq> i \<Longrightarrow> bs' ! j = bs ! j \<and> (bs ! j = Some q \<longrightarrow> pool_get p' q = pool_get p q)"
  shows "bview bs' p' = (bview bs p)(i := bview bs' p' i)"
proof
  fix j
  show "bview bs' p' j = ((bview bs p)(i := bview bs' p' i)) j"
    using assms by (cases "j = i"; cases "bs ! j") (auto simp: bview_def)
qed

lemma mem_alloc:
  assumes m: "mem_ok bs p" and i: "i < length bs" "bs ! i = None" and al: "pool_allocate p v = (p', Some q)"
  shows "mem_ok (bs[i := Some q]) p'" "bview (bs[i := Some q]) p' = (bview bs p)(i := Some v)"
    "pool_capacity p' = pool_capacity p" "card (pool_live p) < pool_capacity p"
proof -
  have pinv: "pool_inv p" using m by (simp add: mem_ok_def)
  note a = pool.alloc_some [OF pinv al]
  have fresh: "bs ! j \<noteq> Some q" if "j < length bs" for j using that a mem_live [OF m] by auto
  have "pool_live p' = {r. \<exists>j<length bs. bs[i := Some q] ! j = Some r}"
  proof (intro equalityI subsetI)
    fix r assume "r \<in> pool_live p'"
    then consider "r = q" | j where "j < length bs" "bs ! j = Some r" using a m by (auto simp: mem_ok_def)
    then show "r \<in> {r. \<exists>j<length bs. bs[i := Some q] ! j = Some r}"
    proof cases
      case 1
      then show ?thesis using i by (auto intro!: exI [of _ i])
    next
      case (2 j)
      then have "j \<noteq> i" using i by auto
      then show ?thesis using 2 by (auto intro!: exI [of _ j])
    qed
  qed (use a m i in \<open>auto simp: mem_ok_def nth_list_update split: if_splits\<close>)
  moreover have "j = k" if "j < length bs" "k < length bs" "bs[i := Some q] ! j = Some r" "bs[i := Some q] ! k = Some r" for j k r
  proof (cases "j = i \<or> k = i")
    case True
    then show ?thesis using that fresh by (auto simp: nth_list_update split: if_splits)
  next
    case False
    then have "bs ! j = Some r" "bs ! k = Some r" using that by simp_all
    then show ?thesis using that(1,2) m unfolding mem_ok_def by blast
  qed
  ultimately show "mem_ok (bs[i := Some q]) p'" using a by (simp add: mem_ok_def)
  have "bview (bs[i := Some q]) p' = (bview bs p)(i := bview (bs[i := Some q]) p' i)"
    using a mem_live [OF m] by (intro bview_cong) auto
  then show "bview (bs[i := Some q]) p' = (bview bs p)(i := Some v)" using a i by (simp add: bview_def)
  show "pool_capacity p' = pool_capacity p" using a by blast
  then show "card (pool_live p) < pool_capacity p"
    using pool.alloc_card [OF pinv al] pool.live_bound [of p'] a by simp
qed

lemma mem_put:
  assumes m: "mem_ok bs p" and i: "i < length bs" "bs ! i = Some q"
  shows "mem_ok bs (pool_put p q b)" "bview bs (pool_put p q b) = (bview bs p)(i := Some b)"
    "pool_capacity (pool_put p q b) = pool_capacity p"
proof -
  have l: "q \<in> pool_live p" using mem_live [OF m i] .
  have pinv: "pool_inv p" using m by (simp add: mem_ok_def)
  note a = pool.put_live [OF pinv l, of b]
  show "mem_ok bs (pool_put p q b)" using a m by (simp add: mem_ok_def)
  have "bview bs (pool_put p q b) = (bview bs p)(i := bview bs (pool_put p q b) i)"
  proof (rule bview_cong)
    fix j r assume j: "j < length bs" "j \<noteq> i"
    have "r \<noteq> q" if "bs ! j = Some r" using that j i m unfolding mem_ok_def by blast
    then show "bs ! j = bs ! j \<and> (bs ! j = Some r \<longrightarrow> pool_get (pool_put p q b) r = pool_get p r)"
      using a j mem_live [OF m] by auto
  qed simp
  then show "bview bs (pool_put p q b) = (bview bs p)(i := Some b)" using a l i by (simp add: bview_def)
  show "pool_capacity (pool_put p q b) = pool_capacity p" using a by blast
qed

lemma mem_free:
  assumes m: "mem_ok bs p" and i: "i < length bs" "bs ! i = Some q"
  shows "mem_ok (bs[i := None]) (fst (pool_deallocate p (Some q)))"
    "bview (bs[i := None]) (fst (pool_deallocate p (Some q))) = (bview bs p)(i := None)"
    "pool_capacity (fst (pool_deallocate p (Some q))) = pool_capacity p"
proof -
  let ?p = "fst (pool_deallocate p (Some q))"
  have l: "q \<in> pool_live p" using mem_live [OF m i] .
  have pinv: "pool_inv p" using m by (simp add: mem_ok_def)
  have a: "pool_inv ?p" "pool_live ?p = pool_live p - {q}" "pool_capacity ?p = pool_capacity p"
    "\<And>j. j \<in> pool_live p - {q} \<Longrightarrow> pool_get ?p j = pool_get p j"
    using pool.free_live [OF pinv l, of ?p "snd (pool_deallocate p (Some q))"] by auto
  have neq: "r \<noteq> q" if "j < length bs" "j \<noteq> i" "bs ! j = Some r" for j r
    using that i m unfolding mem_ok_def by blast
  have "pool_live p - {q} = {r. \<exists>j<length bs. bs[i := None] ! j = Some r}"
  proof (intro equalityI subsetI)
    fix r assume "r \<in> pool_live p - {q}"
    then obtain j where j: "j < length bs" "bs ! j = Some r" "r \<noteq> q" using m by (auto simp: mem_ok_def)
    then have "j \<noteq> i" using i by auto
    then show "r \<in> {r. \<exists>j<length bs. bs[i := None] ! j = Some r}" using j by auto
  next
    fix r assume "r \<in> {r. \<exists>j<length bs. bs[i := None] ! j = Some r}"
    then obtain j where j: "j < length bs" "bs[i := None] ! j = Some r" by auto
    then have "j \<noteq> i" by (auto simp: nth_list_update)
    then have "j \<noteq> i" "bs ! j = Some r" using j by simp_all
    then show "r \<in> pool_live p - {q}" using j(1) neq mem_live [OF m] by auto
  qed
  moreover have "j = k" if "j < length bs" "k < length bs" "bs[i := None] ! j = Some r" "bs[i := None] ! k = Some r" for j k r
  proof -
    have "j \<noteq> i" "k \<noteq> i" using that by auto
    then have "bs ! j = Some r" "bs ! k = Some r" using that by simp_all
    then show ?thesis using that(1,2) m unfolding mem_ok_def by blast
  qed
  ultimately show "mem_ok (bs[i := None]) ?p" using a by (simp add: mem_ok_def)
  have "bview (bs[i := None]) ?p = (bview bs p)(i := bview (bs[i := None]) ?p i)"
    using a neq mem_live [OF m] by (intro bview_cong) auto
  then show "bview (bs[i := None]) ?p = (bview bs p)(i := None)" using i by (simp add: bview_def)
  show "pool_capacity ?p = pool_capacity p" by (rule a)
qed

subsection \<open>Updating a level\<close>

text \<open>The state between making the bucket exist and writing the level: bucket \<open>i\<close> may still be empty.\<close>

definition side_part :: "OrderBookConfig \<Rightarrow> nat \<Rightarrow> bucket_side \<Rightarrow> bool" where
  "side_part cfg i s \<longleftrightarrow> side_shape cfg s
     \<and> (\<forall>j b. sview s j = Some b \<longrightarrow> bucket_ok b \<and> (bucket_empty b \<longrightarrow> j = i))
     \<and> (\<forall>j < summary_words cfg * 64. j \<noteq> i \<longrightarrow> (j \<in> occupied s \<longleftrightarrow> sview s j \<noteq> None))
     \<and> (\<forall>b. sview s i = Some b \<longrightarrow> \<not> bucket_empty b \<longrightarrow> i \<in> occupied s)"

lemma sview_nth: "i < length (bs_buckets s) \<Longrightarrow> bs_buckets s ! i = Some q \<Longrightarrow> sview s i = Some (pool_get (bs_pool s) q)"
  by (simp add: bview_def)

lemma sview_None: "i < length (bs_buckets s) \<Longrightarrow> sview s i = None \<longleftrightarrow> bs_buckets s ! i = None"
  by (simp add: bview_def)

lemma ensure_bucket_None:
  assumes inv: "side_inv cfg s" and i: "i < bucket_count cfg" and e: "ensure_bucket s i = None"
  shows "sview s i = None \<and> card (pool_live (bs_pool s)) = bucket_pool_size cfg"
proof -
  have sh: "length (bs_buckets s) = bucket_count cfg" "pool_inv (bs_pool s)" "pool_capacity (bs_pool s) = bucket_pool_size cfg"
    using inv by (auto simp: side_inv_def side_shape_def mem_ok_def)
  have n: "bs_buckets s ! i = None" using e by (auto simp: ensure_bucket_def split: option.splits)
  obtain p' where "pool_allocate (bs_pool s) bucket_new = (p', None)"
    using e n by (auto simp: ensure_bucket_def Let_def split: option.splits prod.splits)
  from pool.alloc_none [OF sh(2) this] show ?thesis using sh i n by (simp add: sview_None)
qed

lemma ensure_bucket_Some:
  assumes inv: "side_inv cfg s" and i: "i < bucket_count cfg" and e: "ensure_bucket s i = Some (s1, q)"
  shows "side_part cfg i s1" "bs_buckets s1 ! i = Some q"
    "sview s1 = (sview s)(i := Some (case sview s i of Some b \<Rightarrow> b | None \<Rightarrow> bucket_new))"
    "bs_cached s1 = bs_cached s" "sview s i \<noteq> None \<or> card (pool_live (bs_pool s)) < bucket_pool_size cfg"
proof -
  have sh: "side_shape cfg s" and il: "i < length (bs_buckets s)" using inv i by (auto simp: side_inv_def side_shape_def)
  have "side_part cfg i s1 \<and> bs_buckets s1 ! i = Some q
    \<and> sview s1 = (sview s)(i := Some (case sview s i of Some b \<Rightarrow> b | None \<Rightarrow> bucket_new))
    \<and> bs_cached s1 = bs_cached s \<and> (sview s i \<noteq> None \<or> card (pool_live (bs_pool s)) < bucket_pool_size cfg)"
  proof (cases "bs_buckets s ! i")
    case (Some r)
    have sv: "sview s i = Some (pool_get (bs_pool s) r)" using sview_nth [OF il Some] .
    have "i < summary_words cfg * 64" using sh i by (simp add: side_shape_def)
    then have "side_part cfg i s" using inv sv by (auto simp: side_inv_def side_part_def)
    then show ?thesis using e Some sv by (simp add: ensure_bucket_def fun_upd_idem)
  next
    case None
    then obtain p' where al: "pool_allocate (bs_pool s) bucket_new = (p', Some q)"
      and s1: "s1 = s\<lparr>bs_pool := pool_put p' q ((pool_get p' q)\<lparr>bk_bitmap := (\<lambda>_. 0), bk_orders := (\<lambda>_. 0)\<rparr>),
                     bs_buckets := (bs_buckets s)[i := Some q]\<rparr>"
      using e by (auto simp: ensure_bucket_def Let_def split: option.splits prod.splits)
    have mo: "mem_ok (bs_buckets s) (bs_pool s)" using sh by (simp add: side_shape_def)
    note a = mem_alloc [OF mo il None al]
    have z: "(pool_get p' q)\<lparr>bk_bitmap := (\<lambda>_. 0), bk_orders := (\<lambda>_. 0)\<rparr> = bucket_new" by (simp add: bucket_new_def)
    note b = mem_put [OF a(1), of i q bucket_new]
    have v: "sview s1 = (sview s)(i := Some bucket_new)" using s1 z a b il by simp
    have "side_shape cfg s1" using sh s1 z a b il by (simp add: side_shape_def)
    then have "side_part cfg i s1"
      using inv v s1 bucket_new_ok by (auto simp: side_part_def side_inv_def split: if_splits)
    moreover have "sview s i = None" using None il by (simp add: sview_None)
    ultimately show ?thesis using v s1 a(4) sh il by (simp add: side_shape_def)
  qed
  then show "side_part cfg i s1" "bs_buckets s1 ! i = Some q"
    "sview s1 = (sview s)(i := Some (case sview s i of Some b \<Rightarrow> b | None \<Rightarrow> bucket_new))"
    "bs_cached s1 = bs_cached s" "sview s i \<noteq> None \<or> card (pool_live (bs_pool s)) < bucket_pool_size cfg"
    by blast+
qed

lemma write_level_spec:
  assumes part: "side_part cfg i s" and i: "i < bucket_count cfg" and q: "bs_buckets s ! i = Some q"
    and b: "sview s i = Some b" and off: "off < 4096"
  shows "side_inv cfg (write_level s i q off qty)"
    "sview (write_level s i q off qty) = (sview s)(i := if bucket_empty (wr b off qty) then None else Some (wr b off qty))"
    "bs_cached (write_level s i q off qty) = bs_cached s"
proof -
  let ?b = "wr b off qty" and ?s = "write_level s i q off qty"
  have sh: "side_shape cfg s" using part by (simp add: side_part_def)
  have il: "i < length (bs_buckets s)" and iw: "i div 64 < length (bs_summary s)" and isw: "i < summary_words cfg * 64"
    and mo: "mem_ok (bs_buckets s) (bs_pool s)"
    using sh i by (auto simp: side_shape_def less_mult_imp_div_less)
  have g: "pool_get (bs_pool s) q = b" using sview_nth [OF il q] b by simp
  have bok: "bucket_ok ?b" using part b by (auto simp: side_part_def intro: bucket_ok_wr)
  note pu = mem_put [OF mo il q, of ?b]
  note fr = mem_free [OF pu(1) il q]
  have ne: "\<not> bucket_empty ?b" if "qty > 0" using that off by (auto simp: bucket_empty_iff wr_bitmap)
  consider (put) "qty > 0" | (keep) "\<not> qty > 0" "\<not> bucket_empty ?b" | (drop) "\<not> qty > 0" "bucket_empty ?b" by blast
  then have "side_inv cfg ?s \<and> sview ?s = (sview s)(i := if bucket_empty ?b then None else Some ?b) \<and> bs_cached ?s = bs_cached s"
  proof cases
    case put
    have e: "?s = s\<lparr>bs_pool := pool_put (bs_pool s) q ?b,
        bs_summary := (bs_summary s)[i div 64 := put_bit (bs_summary s ! (i div 64)) (i mod 64)]\<rparr>"
      using put by (simp add: write_level_def Let_def set_summary_def idx_simps wr_def g)
    have o: "occupied ?s = insert i (occupied s)" unfolding e using bmset_list_put [OF iw] by simp
    have v: "sview ?s = (sview s)(i := Some ?b)" unfolding e using pu(2) by simp
    have "side_shape cfg ?s" unfolding e using sh pu by (simp add: side_shape_def)
    then show ?thesis using part v o bok ne [OF put] by (auto simp: side_inv_def side_part_def e)
  next
    case keep
    have e: "?s = s\<lparr>bs_pool := pool_put (bs_pool s) q ?b\<rparr>"
      using keep by (simp add: write_level_def Let_def idx_simps wr_def g)
    have v: "sview ?s = (sview s)(i := Some ?b)" unfolding e using pu(2) by simp
    have "\<not> bucket_empty b" using keep by (auto simp: bucket_empty_iff wr_bitmap split: if_splits)
    then have "i \<in> occupied s" using part b by (simp add: side_part_def)
    moreover have "side_shape cfg ?s" unfolding e using sh pu by (simp add: side_shape_def)
    ultimately show ?thesis using part v bok keep by (auto simp: side_inv_def side_part_def e)
  next
    case drop
    have e: "?s = s\<lparr>bs_pool := fst (pool_deallocate (pool_put (bs_pool s) q ?b) (Some q)),
        bs_buckets := (bs_buckets s)[i := None],
        bs_summary := (bs_summary s)[i div 64 := clear_bit (bs_summary s ! (i div 64)) (i mod 64)]\<rparr>"
      using drop by (simp add: write_level_def Let_def clear_summary_def idx_simps wr_def g)
    have o: "occupied ?s = occupied s - {i}" unfolding e using bmset_list_clear [OF iw] by simp
    have v: "sview ?s = (sview s)(i := None)" unfolding e using fr(2) pu(2) by simp
    have "side_shape cfg ?s" unfolding e using sh pu fr by (simp add: side_shape_def)
    then show ?thesis using part v o drop by (auto simp: side_inv_def side_part_def e)
  qed
  then show "side_inv cfg ?s" "sview ?s = (sview s)(i := if bucket_empty ?b then None else Some ?b)" "bs_cached ?s = bs_cached s"
    by blast+
qed

lemma view_qty_wr:
  assumes "bucket_ok b" "i = idx div 4096"
  shows "view_qty (v(i := if bucket_empty (wr b (idx mod 4096) qty) then None else Some (wr b (idx mod 4096) qty)))
       = set_level (view_qty (v(i := Some b))) idx qty"
proof
  fix j
  let ?b = "wr b (idx mod 4096) qty"
  show "view_qty (v(i := if bucket_empty ?b then None else Some ?b)) j = set_level (view_qty (v(i := Some b))) idx qty j"
  proof (cases "j div 4096 = i")
    case True
    have e: "j = idx \<longleftrightarrow> j mod 4096 = idx mod 4096" using True assms(2) by (metis div_mult_mod_eq)
    have z: "max 0 (bk_orders ?b (j mod 4096)) = 0" if "bucket_empty ?b"
      using that bucket_empty_active [OF bucket_ok_wr [OF assms(1)]] by simp
    have "max 0 (bk_orders ?b (j mod 4096)) = (if j = idx then max 0 qty else max 0 (bk_orders b (j mod 4096)))"
      using e by (simp add: wr_def)
    then show ?thesis using True z by (auto simp: view_qty_def set_level_def)
  next
    case False
    then have "j \<noteq> idx" using assms(2) by auto
    then show ?thesis using False by (simp add: view_qty_def set_level_def)
  qed
qed

lemma view_qty_new: "v i = None \<Longrightarrow> view_qty (v(i := Some bucket_new)) = view_qty v"
  by (rule ext) (simp add: view_qty_def bucket_new_def split: option.splits)

lemma update_side_Some:
  assumes inv: "side_inv cfg s" and idx: "idx < bucket_count cfg * 4096" and u: "update_side s idx qty = Some s'"
  shows "side_inv cfg s'" "level_qty s' = set_level (level_qty s) idx qty" "bs_cached s' = bs_cached s"
proof -
  let ?i = "idx div 4096" and ?off = "idx mod 4096"
  have i: "?i < bucket_count cfg" using idx by (simp add: less_mult_imp_div_less)
  obtain s1 q where e: "ensure_bucket s ?i = Some (s1, q)" and s': "s' = write_level s1 ?i q ?off qty"
    using u by (auto simp: update_side_def Let_def kBucketSize_def nat_and_4095 split: option.splits)
  let ?b = "case sview s ?i of Some b \<Rightarrow> b | None \<Rightarrow> bucket_new"
  note en = ensure_bucket_Some [OF inv i e]
  have b: "sview s1 ?i = Some ?b" using en(3) by simp
  have bok: "bucket_ok ?b" using en(1) b by (auto simp: side_part_def)
  note w = write_level_spec [OF en(1) i en(2) b, of ?off qty]
  show "side_inv cfg s'" "bs_cached s' = bs_cached s" using w en(4) s' by simp_all
  have "sview s' = (sview s)(?i := if bucket_empty (wr ?b ?off qty) then None else Some (wr ?b ?off qty))"
    using w(2) en(3) s' by (simp add: fun_upd_upd)
  moreover have "view_qty ((sview s)(?i := Some ?b)) = view_qty (sview s)"
    by (cases "sview s ?i") (simp_all add: view_qty_new fun_upd_idem)
  ultimately show "level_qty s' = set_level (level_qty s) idx qty"
    using view_qty_wr [OF bok refl, of "sview s" idx qty] by (simp add: level_qty_def)
qed

lemma update_side_None:
  assumes inv: "side_inv cfg s" and idx: "idx < bucket_count cfg * 4096"
  shows "update_side s idx qty = None \<longleftrightarrow>
     sview s (idx div 4096) = None \<and> card (pool_live (bs_pool s)) = bucket_pool_size cfg"
proof -
  let ?i = "idx div 4096"
  have i: "?i < bucket_count cfg" using idx by (simp add: less_mult_imp_div_less)
  have "update_side s idx qty = None \<longleftrightarrow> ensure_bucket s ?i = None"
    by (auto simp: update_side_def Let_def kBucketSize_def split: option.splits)
  then show ?thesis
    using ensure_bucket_None [OF inv i] ensure_bucket_Some(5) [OF inv i] by (cases "ensure_bucket s ?i") auto
qed

lemma live_card_less:
  assumes m: "mem_ok bs p" and i: "i < length bs" "bs ! i = None"
  shows "card (pool_live p) < length bs"
proof -
  have "pool_live p \<subseteq> (\<lambda>j. the (bs ! j)) ` ({..<length bs} - {i})"
  proof
    fix q assume "q \<in> pool_live p"
    then obtain j where j: "j < length bs" "bs ! j = Some q" using m by (auto simp: mem_ok_def)
    then have "j \<noteq> i" using i by auto
    then show "q \<in> (\<lambda>j. the (bs ! j)) ` ({..<length bs} - {i})" using j by (auto intro!: image_eqI [of _ _ j])
  qed
  then have "card (pool_live p) \<le> card ({..<length bs} - {i})"
    by (meson card_image_le card_mono finite_Diff finite_imageI finite_lessThan le_trans)
  then show ?thesis using i by simp
qed

lemma update_side_total:
  assumes inv: "side_inv cfg s" and idx: "idx < bucket_count cfg * 4096" and pool: "bucket_pool_size cfg = bucket_count cfg"
  shows "\<exists>s'. update_side s idx qty = Some s'"
proof (rule ccontr)
  assume "\<nexists>s'. update_side s idx qty = Some s'"
  then have n: "sview s (idx div 4096) = None" "card (pool_live (bs_pool s)) = bucket_count cfg"
    using update_side_None [OF inv idx, of qty] pool by auto
  have i: "idx div 4096 < length (bs_buckets s)" "mem_ok (bs_buckets s) (bs_pool s)" "length (bs_buckets s) = bucket_count cfg"
    using idx inv by (auto simp: less_mult_imp_div_less side_inv_def side_shape_def)
  then show False using live_card_less [OF i(2,1)] n sview_None [OF i(1)] by simp
qed

subsection \<open>Searching\<close>

lemma level_bound: "side_inv cfg s \<Longrightarrow> active (level_qty s) i \<Longrightarrow> i < bucket_count cfg * 4096"
  by (auto simp: active_def level_qty_def view_qty_def bview_def side_inv_def side_shape_def
      split: option.splits if_splits)

lemma is_idx_valid_iff:
  assumes "side_inv cfg s" "nat c < bucket_count cfg * 4096"
  shows "is_idx_valid s c \<longleftrightarrow> 0 \<le> c \<and> active (level_qty s) (nat c)"
proof -
  have "nat c div 4096 < length (bs_buckets s)"
    using assms by (simp add: side_inv_def side_shape_def less_mult_imp_div_less)
  then show ?thesis
    by (auto simp: is_idx_valid_def active_def level_qty_def view_qty_def bview_def kBucketSize_def nat_and_4095
        split: option.splits)
qed

lemma first_some_bind:
  "\<forall>x\<in>set xs. \<forall>y. f x = Some y \<longrightarrow> h y \<noteq> None \<Longrightarrow>
     first_some (\<lambda>x. Option.bind (f x) h) xs = Option.bind (first_some f xs) h"
  by (induction xs) (auto split: option.splits bind_splits)

lemma farther_blocks:
  assumes "farther d (x div 4096) (y div 4096) \<or> x div 4096 = y div 4096 \<and> farther d (x mod 4096) (y mod 4096)"
  shows "farther d x (y::nat)"
proof (cases d)
  case SearchHighest
  have "x = x div 4096 * 4096 + x mod 4096" "y = y div 4096 * 4096 + y mod 4096" "x mod 4096 < 4096" "y mod 4096 < 4096"
    by simp_all
  then show ?thesis using assms unfolding SearchHighest farther.simps by linarith
next
  case SearchLowest
  have "x = x div 4096 * 4096 + x mod 4096" "y = y div 4096 * 4096 + y mod 4096" "x mod 4096 < 4096" "y mod 4096 < 4096"
    by simp_all
  then show ?thesis using assms unfolding SearchLowest farther.simps by linarith
qed

lemma view_active: "active (view_qty v) x \<longleftrightarrow> (\<exists>b. v (x div 4096) = Some b \<and> bk_orders b (x mod 4096) > 0)"
  by (auto simp: active_def view_qty_def split: option.splits)

text \<open>The nearest level is the nearest level of the nearest bucket.\<close>

lemma nearest_two_level:
  assumes bk: "nearest d (\<lambda>i. v i \<noteq> None \<and> P i) b" and vb: "v b = Some bb" and o: "off < 4096"
    and off: "nearest d (\<lambda>k. bk_orders bb k > 0 \<and> k < 4096) off"
    and Q: "\<And>x. Q x \<longleftrightarrow> P (x div 4096)"
  shows "nearest d (\<lambda>x. active (view_qty v) x \<and> Q x) (b * 4096 + off)"
  unfolding nearest_def
proof (intro conjI allI impI)
  show "active (view_qty v) (b * 4096 + off)" "Q (b * 4096 + off)"
    using vb o off bk Q by (auto simp: view_active nearest_def)
  have dm: "(b * 4096 + off) div 4096 = b" "(b * 4096 + off) mod 4096 = off" using o by simp_all
  fix x assume x: "active (view_qty v) x \<and> Q x"
  then have "x div 4096 = b \<or> farther d (x div 4096) b"
    using bk Q by (auto simp: nearest_def view_active)
  then show "x = b * 4096 + off \<or> farther d x (b * 4096 + off)"
  proof
    assume e: "x div 4096 = b"
    then have "x mod 4096 = off \<or> farther d (x mod 4096) off"
      using x vb off by (auto simp: nearest_def view_active)
    moreover have "x = b * 4096 + off" if "x mod 4096 = off" using e that by (metis div_mult_mod_eq)
    ultimately show ?thesis using e dm farther_blocks [of d x "b * 4096 + off"] by auto
  next
    assume "farther d (x div 4096) b"
    then show ?thesis using dm farther_blocks [of d x "b * 4096 + off"] by simp
  qed
qed

text \<open>Searching inside one bucket.\<close>

lemma bucket_levels:
  assumes "bucket_ok b"
  shows "filter (\<lambda>i. i \<in> bmset (bk_bitmap b)) [0..<4096] = filter (\<lambda>i. bk_orders b i > 0) [0..<4096]"
  using assms by (intro filter_cong) (auto simp: bucket_ok_def)

lemma bucket_head:
  assumes ok: "bucket_ok b" and ne: "\<not> bucket_empty b"
  obtains k where "head_opt (dir_list d (filter (\<lambda>i. i \<in> bmset (bk_bitmap b)) [0..<4096])) = Some k"
    "nearest d (\<lambda>k. bk_orders b k > 0 \<and> k < 4096) k" "k < 4096"
proof -
  let ?h = "head_opt (dir_list d (filter (\<lambda>i. bk_orders b i > 0) [0..<4096]))"
  have "?h \<noteq> None" using ne bucket_empty_active [OF ok] unfolding head_dir_list_None by (auto simp: not_le)
  then obtain k where k: "?h = Some k" by (metis not_None_eq)
  then have n: "nearest d (\<lambda>k. bk_orders b k > 0 \<and> k < 4096) k" by (rule head_dir_list_nearest)
  then show thesis using that k bucket_levels [OF ok] by (simp add: nearest_def)
qed

lemma find_in_bucket_spec:
  assumes ok: "bucket_ok b" and ne: "\<not> bucket_empty b"
  obtains off where "find_in_bucket b (d = SearchHighest) = int off" "off < 4096"
    "nearest d (\<lambda>k. bk_orders b k > 0 \<and> k < 4096) off"
proof -
  have dd: "(if d = SearchHighest then SearchHighest else SearchLowest) = d" by (cases d) simp_all
  have f: "find_in_bucket b (d = SearchHighest) =
      (case head_opt (dir_list d (filter (\<lambda>i. i \<in> bmset (bk_bitmap b)) [0..<4096])) of Some off \<Rightarrow> int off | None \<Rightarrow> - 1)"
    unfolding find_in_bucket_def Let_def dd kBucketBitmapWords_eq search_all by simp
  obtain k where "head_opt (dir_list d (filter (\<lambda>i. i \<in> bmset (bk_bitmap b)) [0..<4096])) = Some k"
    "nearest d (\<lambda>k. bk_orders b k > 0 \<and> k < 4096) k" "k < 4096" by (rule bucket_head [OF ok ne])
  then show thesis using that f by simp
qed

lemma occupied_iff: "side_inv cfg s \<Longrightarrow> i < summary_words cfg * 64 \<Longrightarrow> i \<in> occupied s \<longleftrightarrow> sview s i \<noteq> None"
  by (simp add: side_inv_def)

lemma sview_bucket:
  "side_inv cfg s \<Longrightarrow> sview s i = Some b \<Longrightarrow> bucket_ok b \<and> \<not> bucket_empty b"
  by (simp add: side_inv_def)

lemma sview_lt: "side_inv cfg s \<Longrightarrow> sview s i \<noteq> None \<Longrightarrow> i < bucket_count cfg \<and> i < summary_words cfg * 64"
  using bview_bound [of "bs_buckets s" "bs_pool s" i] by (auto simp: side_inv_def side_shape_def)

lemma sview_the:
  "sview s i = Some b \<Longrightarrow> pool_get (bs_pool s) (the (bs_buckets s ! i)) = b"
  by (auto simp: bview_def split: if_splits)

lemma occupied_levels:
  assumes "side_inv cfg s"
  shows "filter (\<lambda>i. i \<in> occupied s \<and> R i) [0..<length (bs_summary s) * 64]
       = filter (\<lambda>i. sview s i \<noteq> None \<and> R i) [0..<length (bs_summary s) * 64]"
  using assms by (intro filter_cong) (auto simp: occupied_iff side_inv_def side_shape_def)

text \<open>One step of the outer loop: a summary word leads to a bucket, the bucket to a level.\<close>

definition enter_bucket :: "search_dir \<Rightarrow> bucket_side \<Rightarrow> nat \<Rightarrow> nat option" where
  "enter_bucket d s bidx = map_option (\<lambda>k. bidx * 4096 + k)
     (head_opt (dir_list d (filter (\<lambda>i. i \<in> bmset (bk_bitmap (pool_get (bs_pool s) (the (bs_buckets s ! bidx))))) [0..<4096])))"

lemma enter_bucket_spec:
  assumes inv: "side_inv cfg s" and b: "sview s i = Some b"
  obtains k where "enter_bucket d s i = Some (i * 4096 + k)" "nearest d (\<lambda>k. bk_orders b k > 0 \<and> k < 4096) k" "k < 4096"
proof -
  have ok: "bucket_ok b" "\<not> bucket_empty b" using sview_bucket [OF inv b] by simp_all
  obtain k where "head_opt (dir_list d (filter (\<lambda>i. i \<in> bmset (bk_bitmap b)) [0..<4096])) = Some k"
    "nearest d (\<lambda>k. bk_orders b k > 0 \<and> k < 4096) k" "k < 4096" by (rule bucket_head [OF ok])
  then show thesis using that sview_the [OF b] by (simp add: enter_bucket_def)
qed

lemma summary_word_found:
  assumes inv: "side_inv cfg s" and w: "w < length (bs_summary s)" "bs_summary s ! w \<noteq> 0"
  shows "sview s (w * 64 + find_bit d (bs_summary s ! w)) \<noteq> None"
proof -
  note fb = find_bit_props [OF w(2), of d]
  have "w * 64 + find_bit d (bs_summary s ! w) \<in> occupied s" using fb by (simp add: bmset_word nearest_def)
  moreover have "w * 64 + find_bit d (bs_summary s ! w) < summary_words cfg * 64"
    using fb(1) w(1) inv by (simp add: side_inv_def side_shape_def)
  ultimately show ?thesis using occupied_iff [OF inv] by blast
qed

lemma inner_search:
  "first_some (\<lambda>lw. if bk_bitmap b lw = 0 then None else Some (bidx * 4096 + lw * 64 + find_bit d (bk_bitmap b lw)))
      (dir_list d [0..<64]) = map_option (\<lambda>k. bidx * 4096 + k) (head_opt (dir_list d (filter (\<lambda>i. i \<in> bmset (bk_bitmap b)) [0..<4096])))"
proof -
  have "first_some (\<lambda>lw. if bk_bitmap b lw = 0 then None else Some (bidx * 4096 + lw * 64 + find_bit d (bk_bitmap b lw))) ws
      = map_option (\<lambda>k. bidx * 4096 + k) (first_some (\<lambda>w. if bk_bitmap b w \<noteq> 0 then Some (w * 64 + find_bit d (bk_bitmap b w)) else None) ws)" for ws
    by (induction ws) (auto simp: add.assoc split: option.splits)
  then show ?thesis using search_all [of "bk_bitmap b" d 64] by simp
qed

lemma search_best_eq:
  assumes inv: "side_inv cfg s"
  shows "search_best d s = Option.bind (head_opt (dir_list d (filter (\<lambda>i. sview s i \<noteq> None) [0..<length (bs_summary s) * 64]))) (enter_bucket d s)"
proof -
  let ?n = "length (bs_summary s)"
  let ?f = "\<lambda>w. if bs_summary s ! w \<noteq> 0 then Some (w * 64 + find_bit d (bs_summary s ! w)) else None"
  have "search_best d s = first_some (\<lambda>w. Option.bind (?f w) (enter_bucket d s)) (dir_list d [0..<?n])"
    unfolding search_best_def Let_def kBucketSize_def kBucketBitmapWords_eq nat_push_6 inner_search
    by (rule arg_cong [where f = "\<lambda>g. first_some g (dir_list d [0..<?n])"]) (auto simp: enter_bucket_def)
  also have "\<dots> = Option.bind (first_some ?f (dir_list d [0..<?n])) (enter_bucket d s)"
  proof (rule first_some_bind, intro ballI allI impI)
    fix w i assume "w \<in> set (dir_list d [0..<?n])" "?f w = Some i"
    then obtain b where "sview s i = Some b" using summary_word_found [OF inv, of w d] by (auto split: if_splits)
    then show "enter_bucket d s i \<noteq> None" using enter_bucket_spec [OF inv] by (metis option.distinct(1))
  qed
  also have "first_some ?f (dir_list d [0..<?n]) = head_opt (dir_list d (filter (\<lambda>i. sview s i \<noteq> None) [0..<?n * 64]))"
    using search_all [of "\<lambda>w. bs_summary s ! w" d ?n] occupied_levels [OF inv, of "\<lambda>_. True"] by simp
  finally show ?thesis .
qed

lemma search_best_Some:
  assumes inv: "side_inv cfg s" and r: "search_best d s = Some r"
  shows "nearest d (active (level_qty s)) r"
proof -
  let ?n = "length (bs_summary s)"
  obtain i where i: "head_opt (dir_list d (filter (\<lambda>i. sview s i \<noteq> None) [0..<?n * 64])) = Some i" "enter_bucket d s i = Some r"
    using r search_best_eq [OF inv, of d] by (auto simp: bind_eq_Some_conv)
  have "nearest d (\<lambda>i. sview s i \<noteq> None \<and> i < ?n * 64) i" using i(1) by (rule head_dir_list_nearest)
  then have nb: "nearest d (\<lambda>i. sview s i \<noteq> None \<and> True) i"
    using sview_lt [OF inv] inv by (auto simp: nearest_def side_inv_def side_shape_def)
  then obtain b where b: "sview s i = Some b" by (auto simp: nearest_def)
  obtain k where k: "enter_bucket d s i = Some (i * 4096 + k)" "nearest d (\<lambda>k. bk_orders b k > 0 \<and> k < 4096) k" "k < 4096"
    by (rule enter_bucket_spec [OF inv b])
  from nearest_two_level [OF nb b k(3) k(2), of "\<lambda>_. True"] show ?thesis using k(1) i(2) by (simp add: level_qty_def)
qed

lemma search_best_None:
  assumes inv: "side_inv cfg s"
  shows "search_best d s = None \<longleftrightarrow> (\<forall>i. \<not> active (level_qty s) i)"
proof
  assume n: "search_best d s = None"
  let ?l = "dir_list d (filter (\<lambda>i. sview s i \<noteq> None) [0..<length (bs_summary s) * 64])"
  have "head_opt ?l = None"
  proof (cases "head_opt ?l")
    case (Some i)
    then have "sview s i \<noteq> None" using head_dir_list_nearest [OF Some] by (simp add: nearest_def)
    then obtain b where "sview s i = Some b" by blast
    then show ?thesis using n Some search_best_eq [OF inv, of d] enter_bucket_spec [OF inv, of i b d]
      by (metis bind.bind_lunit option.distinct(1))
  qed
  then have h: "\<forall>i < summary_words cfg * 64. sview s i = None"
    using inv unfolding head_dir_list_None by (simp add: side_inv_def side_shape_def)
  have "sview s i = None" for i using h sview_lt [OF inv, of i] by blast
  then show "\<forall>i. \<not> active (level_qty s) i" by (simp add: level_qty_def view_active)
next
  assume "\<forall>i. \<not> active (level_qty s) i"
  then show "search_best d s = None" using search_best_Some [OF inv, of d] by (cases "search_best d s") (auto simp: nearest_def)
qed

lemma best_idx_spec:
  assumes inv: "side_inv cfg s" and c: "bs_cached s < 0 \<or> best_is d (level_qty s) (bs_cached s)"
  shows "best_is d (level_qty s) (fst (best_idx d s))" "snd (best_idx d s) = s\<lparr>bs_cached := fst (best_idx d s)\<rparr>"
proof -
  have "best_is d (level_qty s) (fst (best_idx d s)) \<and> snd (best_idx d s) = s\<lparr>bs_cached := fst (best_idx d s)\<rparr>"
  proof (cases "bs_cached s \<ge> 0 \<and> is_idx_valid s (bs_cached s)")
    case True
    then show ?thesis using c by (simp add: best_idx_def)
  next
    case False
    show ?thesis
    proof (cases "search_best d s")
      case None
      then show ?thesis using False search_best_None [OF inv, of d] by (simp add: best_idx_def best_is_empty)
    next
      case (Some r)
      then show ?thesis using False best_is_nearest [OF search_best_Some [OF inv Some]] by (auto simp: best_idx_def)
    qed
  qed
  then show "best_is d (level_qty s) (fst (best_idx d s))" "snd (best_idx d s) = s\<lparr>bs_cached := fst (best_idx d s)\<rparr>"
    by blast+
qed

lemma side_inv_cached [simp]: "side_inv cfg (s\<lparr>bs_cached := c\<rparr>) = side_inv cfg s" "level_qty (s\<lparr>bs_cached := c\<rparr>) = level_qty s"
  by (simp_all add: side_inv_def side_shape_def level_qty_def)

text \<open>The next active level beyond a start level.\<close>

lemma search_bucket_eq:
  assumes ok: "bucket_ok b" and st: "start < 4096"
  shows "search_bucket d b bi start = map_option (\<lambda>k. bi * 4096 + k)
         (head_opt (dir_list d (filter (\<lambda>i. bk_orders b i > 0 \<and> farther d i start) [0..<4096])))"
proof -
  let ?g = "\<lambda>w. if bk_bitmap b w \<noteq> 0 then Some (w * 64 + find_bit d (bk_bitmap b w)) else None"
  have st': "start div 64 < 64" using st by (simp add: less_mult_imp_div_less)
  have m: "first_some (\<lambda>w. if bk_bitmap b w \<noteq> 0 then Some (bi * 4096 + (w * 64 + find_bit d (bk_bitmap b w))) else None) ws
      = map_option (\<lambda>k. bi * 4096 + k) (first_some ?g ws)" for ws
    by (induction ws) (auto split: option.splits)
  have "filter (\<lambda>i. i \<in> bmset (bk_bitmap b) \<and> farther d i start) [0..<4096]
      = filter (\<lambda>i. bk_orders b i > 0 \<and> farther d i start) [0..<4096]"
    using ok by (intro filter_cong) (auto simp: bucket_ok_def)
  then have h: "head_opt (dir_list d (filter (\<lambda>i. bk_orders b i > 0 \<and> farther d i start) [0..<4096]))
      = (if bk_bitmap b (start div 64) AND make_mask d (start mod 64) \<noteq> 0
         then Some (start div 64 * 64 + find_bit d (bk_bitmap b (start div 64) AND make_mask d (start mod 64)))
         else first_some ?g (following d (start div 64) 64))"
    using search_from [OF st', of "bk_bitmap b" d] by simp
  show ?thesis
    unfolding h search_bucket_def Let_def idx_simps kBucketSize_def kBucketBitmapWords_eq iterate_words_following m by simp
qed

lemma search_summary_eq:
  assumes inv: "side_inv cfg s" and st: "start < bucket_count cfg"
  shows "search_summary d cfg s start =
     (case head_opt (dir_list d (filter (\<lambda>i. sview s i \<noteq> None \<and> farther d i start) [0..<length (bs_summary s) * 64]))
      of Some i \<Rightarrow> int i * 4096 + find_in_bucket (pool_get (bs_pool s) (the (bs_buckets s ! i))) (d = SearchHighest)
       | None \<Rightarrow> - 1)"
proof -
  let ?f = "\<lambda>w. if bs_summary s ! w \<noteq> 0 then Some (w * 64 + find_bit d (bs_summary s ! w)) else None"
  have n: "length (bs_summary s) = summary_words cfg" "start div 64 < length (bs_summary s)"
    using inv st by (auto simp: side_inv_def side_shape_def less_mult_imp_div_less)
  have m: "first_some (\<lambda>w. if bs_summary s ! w \<noteq> 0 then Some (g (w * 64 + find_bit d (bs_summary s ! w))) else None) ws
      = map_option g (first_some ?f ws)" for ws and g :: "nat \<Rightarrow> int"
    by (induction ws) (auto split: option.splits)
  have h: "head_opt (dir_list d (filter (\<lambda>i. sview s i \<noteq> None \<and> farther d i start) [0..<length (bs_summary s) * 64]))
      = (if bs_summary s ! (start div 64) AND make_mask d (start mod 64) \<noteq> 0
         then Some (start div 64 * 64 + find_bit d (bs_summary s ! (start div 64) AND make_mask d (start mod 64)))
         else first_some ?f (following d (start div 64) (length (bs_summary s))))"
    using search_from [OF n(2), of "\<lambda>w. bs_summary s ! w" d] occupied_levels [OF inv, of "\<lambda>i. farther d i start"] by simp
  show ?thesis
    unfolding h
    unfolding search_summary_def Let_def idx_simps kBucketSize_def iterate_summary_following n(1)
    unfolding m [of "\<lambda>i. int i * int 4096 + find_in_bucket (pool_get (bs_pool s) (the (bs_buckets s ! i))) (d = SearchHighest)"]
    by (simp split: option.splits)
qed

lemma farther_in_block:
  "farther d (x::nat) y \<longleftrightarrow> farther d (x div 4096) (y div 4096) \<or> x div 4096 = y div 4096 \<and> farther d (x mod 4096) (y mod 4096)"
proof
  assume f: "farther d x y"
  have ne: "\<not> (x div 4096 = y div 4096 \<and> x mod 4096 = y mod 4096)"
    using f farther_irrefl [of d x] by (metis div_mult_mod_eq)
  have "\<not> farther d y x" using f farther_trans farther_irrefl by blast
  then have "\<not> (farther d (y div 4096) (x div 4096) \<or> y div 4096 = x div 4096 \<and> farther d (y mod 4096) (x mod 4096))"
    using farther_blocks [of d y x] by blast
  then show "farther d (x div 4096) (y div 4096) \<or> x div 4096 = y div 4096 \<and> farther d (x mod 4096) (y mod 4096)"
    using ne farther_total [of "x div 4096" "y div 4096" d] farther_total [of "x mod 4096" "y mod 4096" d] by auto
qed (rule farther_blocks)

lemma nearest_same_block:
  assumes b: "v b = Some bb" and k: "nearest d (\<lambda>i. (bk_orders bb i > 0 \<and> farther d i off) \<and> i < 4096) k"
    and A: "\<And>x. A x \<longleftrightarrow> active (view_qty v) x \<and> (farther d (x div 4096) b \<or> x div 4096 = b \<and> farther d (x mod 4096) off)"
  shows "nearest d A (b * 4096 + k)"
proof -
  have k4: "k < 4096" using k by (simp add: nearest_def)
  have dm: "(b * 4096 + k) div 4096 = b" "(b * 4096 + k) mod 4096 = k" using k4 by simp_all
  have "x = b * 4096 + k \<or> farther d x (b * 4096 + k)" if "A x" for x
  proof (cases "x div 4096 = b")
    case True
    then have "x mod 4096 = k \<or> farther d (x mod 4096) k"
      using that A [of x] b k farther_irrefl by (auto simp: nearest_def view_active)
    moreover have "x = b * 4096 + k" if "x mod 4096 = k" using True that by (metis div_mult_mod_eq)
    ultimately show ?thesis using True dm farther_blocks [of d x "b * 4096 + k"] by auto
  next
    case False
    then show ?thesis using that A [of x] dm farther_blocks [of d x "b * 4096 + k"] by auto
  qed
  moreover have "A (b * 4096 + k)" unfolding A view_active dm using b k by (simp add: nearest_def)
  ultimately show ?thesis by (simp add: nearest_def)
qed

lemma search_summary_spec:
  fixes d :: search_dir
  assumes inv: "side_inv cfg s" and b: "b < bucket_count cfg"
  defines "A \<equiv> \<lambda>x. active (level_qty s) x \<and> farther d (x div 4096) b"
  shows "if \<exists>i. A i then 0 \<le> search_summary d cfg s b \<and> nearest d A (nat (search_summary d cfg s b))
         else search_summary d cfg s b = - 1"
proof (cases "head_opt (dir_list d (filter (\<lambda>i. sview s i \<noteq> None \<and> farther d i b) [0..<length (bs_summary s) * 64]))")
  case None
  then have "\<forall>i < summary_words cfg * 64. \<not> (sview s i \<noteq> None \<and> farther d i b)"
    using inv unfolding head_dir_list_None by (simp add: side_inv_def side_shape_def)
  then have "\<not> A x" for x
    using sview_lt [OF inv, of "x div 4096"] by (auto simp: A_def level_qty_def view_active)
  then show ?thesis using None search_summary_eq [OF inv b, of d] by simp
next
  case (Some i)
  have "nearest d (\<lambda>i. (sview s i \<noteq> None \<and> farther d i b) \<and> i < length (bs_summary s) * 64) i"
    using Some by (rule head_dir_list_nearest)
  then have n: "nearest d (\<lambda>i. sview s i \<noteq> None \<and> farther d i b) i"
    using sview_lt [OF inv] inv by (auto simp: nearest_def side_inv_def side_shape_def)
  then obtain bb where bb: "sview s i = Some bb" by (auto simp: nearest_def)
  have ok: "bucket_ok bb" "\<not> bucket_empty bb" using sview_bucket [OF inv bb] by simp_all
  obtain off where off: "find_in_bucket bb (d = SearchHighest) = int off" "off < 4096"
    "nearest d (\<lambda>k. bk_orders bb k > 0 \<and> k < 4096) off" by (rule find_in_bucket_spec [OF ok])
  have nA: "nearest d A (i * 4096 + off)"
    unfolding A_def level_qty_def by (rule nearest_two_level [OF n bb off(2,3)]) simp
  have "search_summary d cfg s b = int (i * 4096 + off)"
    using Some search_summary_eq [OF inv b, of d] sview_the [OF bb] off(1) by simp
  then have e: "0 \<le> search_summary d cfg s b" "nat (search_summary d cfg s b) = i * 4096 + off" by simp_all
  have "\<exists>i. A i" using nA by (auto simp: nearest_def)
  then show ?thesis using nA e by simp
qed

lemma next_active_spec:
  fixes d :: search_dir
  assumes inv: "side_inv cfg s" and st: "start < bucket_count cfg * 4096"
  defines "A \<equiv> \<lambda>i. active (level_qty s) i \<and> farther d i start"
  shows "if \<exists>i. A i then 0 \<le> next_active d cfg s start \<and> nearest d A (nat (next_active d cfg s start))
         else next_active d cfg s start = - 1"
proof -
  let ?b = "start div 4096" and ?o = "start mod 4096"
  have b: "?b < bucket_count cfg" and bl: "?b < length (bs_buckets s)"
    using st inv by (auto simp: less_mult_imp_div_less side_inv_def side_shape_def)
  define inb where "inb = (case sview s ?b of None \<Rightarrow> None
    | Some bb \<Rightarrow> head_opt (dir_list d (filter (\<lambda>i. bk_orders bb i > 0 \<and> farther d i ?o) [0..<4096])))"
  have na: "next_active d cfg s start = (case inb of Some k \<Rightarrow> int (?b * 4096 + k) | None \<Rightarrow> search_summary d cfg s ?b)"
  proof (cases "bs_buckets s ! ?b")
    case None
    then show ?thesis using bl by (simp add: next_active_def inb_def Let_def kBucketSize_def bview_def)
  next
    case (Some q)
    have "bucket_ok (pool_get (bs_pool s) q)" using sview_bucket [OF inv sview_nth [OF bl Some]] by simp
    from search_bucket_eq [OF this, of ?o d ?b] show ?thesis
      using Some sview_nth [OF bl Some]
      by (simp add: next_active_def inb_def Let_def kBucketSize_def nat_and_4095 split: option.split)
  qed
  have A: "A x \<longleftrightarrow> active (view_qty (sview s)) x \<and> (farther d (x div 4096) ?b \<or> x div 4096 = ?b \<and> farther d (x mod 4096) ?o)" for x
    unfolding A_def level_qty_def farther_in_block [of d x start] ..
  show ?thesis
  proof (cases inb)
    case (Some k)
    then obtain bb where bb: "sview s ?b = Some bb"
      and h: "head_opt (dir_list d (filter (\<lambda>i. bk_orders bb i > 0 \<and> farther d i ?o) [0..<4096])) = Some k"
      by (auto simp: inb_def split: option.splits)
    have "nearest d A (?b * 4096 + k)" by (rule nearest_same_block [OF bb head_dir_list_nearest [OF h] A])
    moreover have "\<exists>i. A i" using calculation by (auto simp: nearest_def)
    moreover have "0 \<le> next_active d cfg s start" "nat (next_active d cfg s start) = ?b * 4096 + k" using na Some by simp_all
    ultimately show ?thesis by simp
  next
    case None
    have "\<not> (x div 4096 = ?b \<and> active (view_qty (sview s)) x \<and> farther d (x mod 4096) ?o)" for x
    proof
      assume x: "x div 4096 = ?b \<and> active (view_qty (sview s)) x \<and> farther d (x mod 4096) ?o"
      then obtain bb where bb: "sview s ?b = Some bb" "bk_orders bb (x mod 4096) > 0" by (auto simp: view_active)
      then show False using None x unfolding inb_def by (simp add: head_dir_list_None del: head_opt_None)
    qed
    then have "A = (\<lambda>x. active (level_qty s) x \<and> farther d (x div 4096) ?b)"
      using A by (auto simp: level_qty_def fun_eq_iff)
    then show ?thesis using search_summary_spec [OF inv b, of d] na None by simp
  qed
qed

end
