(* ===== verification/Bucket_Book_Correct.thy ===== *)
theory Bucket_Book_Correct
  imports Bucket_Book_Inv
begin

text \<open>
  Correctness of the bucket book as a whole. \<open>quote_inv\<close> extends the side invariant by the cached index and
  the side's half of the BBO; \<open>add_side\<close> and \<open>delete_side\<close> keep it. \<open>run_feed\<close> applies a sequence of market
  updates to a book, \<open>spec_apply\<close> applies them to two abstract level maps, and the main theorem says that
  after every feed without a clear the BBO is the best bid and ask of the abstract levels.
\<close>

definition quote_inv :: "search_dir \<Rightarrow> OrderBookConfig \<Rightarrow> bucket_quote \<Rightarrow> bool" where
  "quote_inv d cfg q = (case q of (s, p, v) \<Rightarrow>
     side_inv cfg s \<and> best_is d (level_qty s) (bs_cached s) \<and> quote_ok d cfg (level_qty s) p v)"

definition book_inv :: "bucket_book \<Rightarrow> bool" where
  "book_inv b \<longleftrightarrow> config_ok (bb_config b) \<and> num_levels (bb_config b) \<le> bucket_count (bb_config b) * 4096
     \<and> int (num_levels (bb_config b)) = max_price_int (bb_config b) - min_price_int (bb_config b) + 1
     \<and> quote_inv SearchHighest (bb_config b) (bid_quote b)
     \<and> quote_inv SearchLowest (bb_config b) (ask_quote b)"

definition bid_levels :: "bucket_book \<Rightarrow> level_map" where
  "bid_levels b = level_qty (bb_bid b)"

definition ask_levels :: "bucket_book \<Rightarrow> level_map" where
  "ask_levels b = level_qty (bb_ask b)"

fun run_feed :: "bucket_book \<Rightarrow> MarketData list \<Rightarrow> bucket_book option" where
  "run_feed b [] = Some b"
| "run_feed b (md # mds) = (case on_market_data_updated b md of None \<Rightarrow> None | Some (b', _) \<Rightarrow> run_feed b' mds)"

text \<open>
  Updates as the market data decoders produce them: an added or modified level has a positive quantity.
  A clear is excluded when its price passes the range check.
\<close>

definition feed_ok :: "OrderBookConfig \<Rightarrow> MarketData \<Rightarrow> bool" where
  "feed_ok cfg md \<longleftrightarrow> (md_type md \<in> {kAdd, kModify} \<longrightarrow> md_qty md > 0) \<and> (md_type md = kClear \<longrightarrow> out_of_range cfg md)"

subsection \<open>A new side\<close>

lemma level_qty_new [simp]: "level_qty (bucket_side_new cfg) = (\<lambda>_. 0)"
  by (rule ext) (simp add: level_qty_def view_qty_def bview_def bucket_side_new_def)

lemma side_inv_new:
  assumes "bucket_count cfg \<le> summary_words cfg * 64" "0 < bucket_pool_size cfg" "bucket_pool_size cfg < 2 ^ 32 - 1"
  shows "side_inv cfg (bucket_side_new cfg)"
proof -
  have p: "pool_inv (pool_new (bucket_pool_size cfg) 33288 bucket_new)" "pool_live (pool_new (bucket_pool_size cfg) 33288 bucket_new) = {}"
    using pool_new_inv [OF assms(2,3), of 33288 bucket_new] by simp_all
  have "bmset (\<lambda>w. replicate (summary_words cfg) 0 ! w) \<inter> {..<summary_words cfg * 64} = {}"
    by (auto simp: bmset_def less_mult_imp_div_less)
  then show ?thesis using assms(1) p
    by (auto simp: side_inv_def side_shape_def bucket_side_new_def mem_ok_def bview_def pool_capacity_def pool_new_def)
qed

lemma quote_inv_new:
  assumes "bucket_count cfg \<le> summary_words cfg * 64" "0 < bucket_pool_size cfg" "bucket_pool_size cfg < 2 ^ 32 - 1"
  shows "quote_inv d cfg (bucket_side_new cfg, kInvalidValue, kInvalidValue)"
  using side_inv_new [OF assms]
  by (simp add: quote_inv_def best_is_def quote_ok_def active_def nearest_def) (simp add: bucket_side_new_def)

subsection \<open>Adding and deleting a level\<close>

lemma add_side_inv:
  assumes inv: "quote_inv d cfg (s, p, v)" and idx: "idx < bucket_count cfg * 4096" and qty: "qty > 0"
    and a: "add_side d cfg idx qty (s, p, v) = Some (s', p', v')"
  shows "quote_inv d cfg (s', p', v') \<and> level_qty s' = set_level (level_qty s) idx qty"
proof -
  have si: "side_inv cfg s" and bi: "best_is d (level_qty s) (bs_cached s)" and qo: "quote_ok d cfg (level_qty s) p v"
    using inv by (auto simp: quote_inv_def)
  obtain s1 where u: "update_side s idx qty = Some s1" using a by (auto simp: add_side_def split: option.splits)
  note us = update_side_Some [OF si idx u]
  let ?q = "set_level (level_qty s) idx qty"
  have vidx: "?q idx = qty" using qty by (simp add: set_level_def)
  show ?thesis
  proof (cases "bs_cached s < 0 \<or> farther d (nat (bs_cached s)) idx")
    case True
    then have n: "nearest d (active ?q) idx" using nearest_update_better [OF bi qty] by blast
    then show ?thesis using a u us True vidx best_is_nearest [OF n] quote_ok_nearest [OF n]
      by (auto simp: add_side_def quote_inv_def)
  next
    case False
    then have c: "0 \<le> bs_cached s" by simp
    have nc: "nearest d (active (level_qty s)) (nat (bs_cached s))"
      using bi c by (auto simp: best_is_def split: if_splits)
    show ?thesis
    proof (cases "int idx = bs_cached s")
      case True
      then have ci: "nat (bs_cached s) = idx" by (metis nat_int)
      then have n: "nearest d (active ?q) idx" using nearest_update_same [OF nc qty] by simp
      show ?thesis using a u us True False vidx qo quote_ok_nearest [OF nc] ci best_is_nearest [OF n] quote_ok_nearest [OF n]
        by (auto simp: add_side_def quote_inv_def)
    next
      case ne: False
      then have "farther d idx (nat (bs_cached s))" using False farther_total [of idx "nat (bs_cached s)" d] c by auto
      then have n: "nearest d (active ?q) (nat (bs_cached s))" and o: "?q (nat (bs_cached s)) = level_qty s (nat (bs_cached s))"
        using nearest_update_worse [OF nc] farther_irrefl by (auto simp: set_level_def)
      then show ?thesis using a u us False ne c qo quote_ok_nearest [OF nc] best_is_nearest [OF n] quote_ok_nearest [OF n]
        by (auto simp: add_side_def quote_inv_def)
    qed
  qed
qed

lemma best_price_qty:
  assumes si: "side_inv cfg s" and c: "bs_cached s = - 1"
    and bp: "best_price d cfg s = (p, s1)" and bq: "best_qty d s1 = (v, s2)"
  shows "quote_inv d cfg (s2, p, v) \<and> level_qty s2 = level_qty s"
proof -
  let ?c = "fst (best_idx d s)"
  have b: "best_is d (level_qty s) ?c" "snd (best_idx d s) = s\<lparr>bs_cached := ?c\<rparr>"
    using best_idx_spec [OF si, of d] c by simp_all
  have s1: "s1 = s\<lparr>bs_cached := ?c\<rparr>" "p = (if ?c \<ge> 0 then index_to_price cfg ?c else kInvalidValue)"
    using bp b by (auto simp: best_price_def split: prod.splits)
  have si1: "side_inv cfg s1" and lq1: "level_qty s1 = level_qty s" using s1 si by simp_all
  have b1: "best_is d (level_qty s) (fst (best_idx d s1))" "snd (best_idx d s1) = s1\<lparr>bs_cached := fst (best_idx d s1)\<rparr>"
    using best_idx_spec [OF si1, of d] b(1) s1(1) lq1 by simp_all
  then have same: "fst (best_idx d s1) = ?c" using best_is_unique b(1) by blast
  have s2: "s2 = s1\<lparr>bs_cached := ?c\<rparr>" using bq b1(2) same by (auto simp: best_qty_def split: prod.splits)
  have s21: "s2 = s1" using s2 s1 by simp
  have v: "v = (if ?c < 0 then kInvalidValue else level_qty s (nat ?c))"
  proof (cases "?c < 0")
    case True
    then show ?thesis using bq b1(2) same by (auto simp: best_qty_def split: prod.splits)
  next
    case False
    then have n: "nearest d (active (level_qty s)) (nat ?c)" using b(1) by (auto simp: best_is_def split: if_splits)
    then obtain bb where bb: "sview s (nat ?c div 4096) = Some bb" "bk_orders bb (nat ?c mod 4096) > 0"
      by (auto simp: nearest_def level_qty_def view_active)
    then have "level_qty s (nat ?c) = bk_orders bb (nat ?c mod 4096)" by (simp add: level_qty_def view_qty_def)
    moreover obtain q where "bs_buckets s ! (nat ?c div 4096) = Some q" "pool_get (bs_pool s) q = bb"
      using bb(1) by (auto simp: bview_def split: if_splits)
    ultimately show ?thesis using False bq b1(2) same s1
      by (auto simp: best_qty_def kBucketSize_def nat_and_4095 split: prod.splits)
  qed
  have "quote_ok d cfg (level_qty s) p v"
  proof (cases "\<exists>i. active (level_qty s) i")
    case True
    then have n: "0 \<le> ?c" "nearest d (active (level_qty s)) (nat ?c)" using b(1) by (auto simp: best_is_def)
    then show ?thesis using quote_ok_nearest [OF n(2), of cfg p v] s1(2) v by simp
  next
    case False
    then have "?c = - 1" using b(1) by (simp add: best_is_def)
    then show ?thesis using False s1(2) v quote_ok_empty by simp
  qed
  then show ?thesis using s21 s1 si1 lq1 b(1) by (auto simp: quote_inv_def)
qed

lemma delete_side_inv:
  assumes inv: "quote_inv d cfg (s, p, v)" and idx: "idx < bucket_count cfg * 4096"
    and a: "delete_side d cfg idx (s, p, v) = Some (s', p', v')"
  shows "quote_inv d cfg (s', p', v') \<and> level_qty s' = set_level (level_qty s) idx 0"
proof -
  have si: "side_inv cfg s" and bi: "best_is d (level_qty s) (bs_cached s)" and qo: "quote_ok d cfg (level_qty s) p v"
    using inv by (auto simp: quote_inv_def)
  obtain s1 where u: "update_side s idx 0 = Some s1" using a by (auto simp: delete_side_def split: option.splits)
  note us = update_side_Some [OF si idx u]
  let ?q = "set_level (level_qty s) idx 0"
  show ?thesis
  proof (cases "int idx = bs_cached s")
    case True
    let ?s2 = "s1\<lparr>bs_cached := - 1\<rparr>"
    obtain p3 s3 where bp: "best_price d cfg ?s2 = (p3, s3)" by fastforce
    obtain v4 s4 where bq: "best_qty d s3 = (v4, s4)" by fastforce
    have si2: "side_inv cfg ?s2" using us(1) by simp
    have "s' = s4" "p' = p3" "v' = v4" using a u us(3) True bp bq by (auto simp: delete_side_def Let_def)
    then show ?thesis using best_price_qty [OF si2 _ bp bq] us(2) by simp
  next
    case ne: False
    have e: "s' = s1" "p' = p" "v' = v" using a u us(3) ne by (auto simp: delete_side_def)
    show ?thesis
    proof (cases "\<exists>i. active (level_qty s) i")
      case True
      then have c: "0 \<le> bs_cached s" and nc: "nearest d (active (level_qty s)) (nat (bs_cached s))"
        using bi by (auto simp: best_is_def)
      have ne': "nat (bs_cached s) \<noteq> idx" using ne c by auto
      have n: "nearest d (active ?q) (nat (bs_cached s))"
        using nc ne' by (auto simp: nearest_def active_def set_level_def split: if_splits)
      have o: "?q (nat (bs_cached s)) = level_qty s (nat (bs_cached s))" using ne' by (simp add: set_level_def)
      then show ?thesis using e us c qo quote_ok_nearest [OF nc] best_is_nearest [OF n] quote_ok_nearest [OF n]
        by (auto simp: quote_inv_def)
    next
      case False
      then have q: "\<And>i. \<not> active ?q i" by (simp add: active_def set_level_def)
      then show ?thesis using e us bi qo False best_is_empty [OF q] quote_ok_empty [OF q] quote_ok_empty [of "level_qty s"]
        by (auto simp: quote_inv_def best_is_def)
    qed
  qed
qed

subsection \<open>Clearing\<close>

lemma clear_buckets_mem:
  "mem_ok (bs_buckets s) (bs_pool s) \<Longrightarrow> \<forall>i\<in>set is. i < length (bs_buckets s) \<Longrightarrow>
     mem_ok (bs_buckets (clear_buckets is s)) (bs_pool (clear_buckets is s))
     \<and> sview (clear_buckets is s) = (\<lambda>j. if j \<in> set is then None else sview s j)
     \<and> length (bs_buckets (clear_buckets is s)) = length (bs_buckets s)
     \<and> bs_summary (clear_buckets is s) = bs_summary s \<and> bs_cached (clear_buckets is s) = bs_cached s
     \<and> pool_capacity (bs_pool (clear_buckets is s)) = pool_capacity (bs_pool s)"
proof (induction "is" arbitrary: s)
  case (Cons i "is")
  show ?case
  proof (cases "bs_buckets s ! i")
    case None
    then have "sview s i = None" by (simp add: bview_def)
    then have "(\<lambda>j. if j \<in> set is then None else sview s j) = (\<lambda>j. if j \<in> set (i # is) then None else sview s j)" by auto
    then show ?thesis using Cons None by simp
  next
    case (Some q)
    let ?s = "s\<lparr>bs_pool := fst (pool_deallocate (bs_pool s) (Some q)), bs_buckets := (bs_buckets s)[i := None]\<rparr>"
    have i: "i < length (bs_buckets s)" using Cons.prems by simp
    note f = mem_free [OF Cons.prems(1) i Some]
    have "(\<lambda>j. if j \<in> set is then None else sview ?s j) = (\<lambda>j. if j \<in> set (i # is) then None else sview s j)"
      using f(2) by auto
    then show ?thesis using Cons.IH [of ?s] Cons.prems f Some by simp
  qed
qed (simp add: fun_eq_iff)

lemma clear_side_spec:
  assumes "side_inv cfg s"
  shows "side_inv cfg (clear_side cfg s)" "level_qty (clear_side cfg s) = (\<lambda>_. 0)"
    "bs_cached (clear_side cfg s) = bs_cached s"
proof -
  let ?s = "clear_buckets [0..<bucket_count cfg] s"
  have sh: "side_shape cfg s" using assms by (simp add: side_inv_def)
  then have m: "mem_ok (bs_buckets s) (bs_pool s)" "\<forall>i\<in>set [0..<bucket_count cfg]. i < length (bs_buckets s)"
    by (auto simp: side_shape_def)
  note c = clear_buckets_mem [OF m]
  have "sview s x = None" if "\<not> x < bucket_count cfg" for x using that sh by (simp add: bview_def side_shape_def)
  then have none: "sview (clear_side cfg s) = (\<lambda>_. None)"
    using c by (auto simp: clear_side_def Let_def fun_eq_iff)
  then show "level_qty (clear_side cfg s) = (\<lambda>_. 0)" by (simp add: level_qty_def view_qty_def fun_eq_iff)
  have "\<forall>i < summary_words cfg * 64. i \<notin> occupied (clear_side cfg s)"
    using c sh by (auto simp: clear_side_def Let_def side_shape_def bmset_def less_mult_imp_div_less)
  moreover have "side_shape cfg (clear_side cfg s)" using c sh by (simp add: clear_side_def Let_def side_shape_def)
  ultimately show "side_inv cfg (clear_side cfg s)" using none by (simp add: side_inv_def)
  show "bs_cached (clear_side cfg s) = bs_cached s" using c by (simp add: clear_side_def Let_def)
qed

subsection \<open>The book\<close>

lemma in_range_index:
  assumes "book_inv b" "\<not> out_of_range (bb_config b) md"
  shows "price_to_index (bb_config b) (md_price md) = md_price md - min_price_int (bb_config b)"
    "nat (price_to_index (bb_config b) (md_price md)) < bucket_count (bb_config b) * 4096"
proof -
  have c: "config_ok (bb_config b)" "int (num_levels (bb_config b)) = max_price_int (bb_config b) - min_price_int (bb_config b) + 1"
    "num_levels (bb_config b) \<le> bucket_count (bb_config b) * 4096" using assms(1) by (simp_all add: book_inv_def)
  note r = range_index [OF c(1,2) assms(2)]
  then show "price_to_index (bb_config b) (md_price md) = md_price md - min_price_int (bb_config b)"
    "nat (price_to_index (bb_config b) (md_price md)) < bucket_count (bb_config b) * 4096" using c(3) by simp_all
qed

lemma set_quote_fields [simp]:
  "bid_quote (set_bid_quote b q) = q" "ask_quote (set_bid_quote b q) = ask_quote b"
  "ask_quote (set_ask_quote b q) = q" "bid_quote (set_ask_quote b q) = bid_quote b"
  "bb_config (set_bid_quote b q) = bb_config b" "bb_config (set_ask_quote b q) = bb_config b"
  "bb_engine (set_bid_quote b q) = bb_engine b" "bb_engine (set_ask_quote b q) = bb_engine b"
  "bid_levels (set_bid_quote b q) = level_qty (fst q)" "ask_levels (set_bid_quote b q) = ask_levels b"
  "ask_levels (set_ask_quote b q) = level_qty (fst q)" "bid_levels (set_ask_quote b q) = bid_levels b"
  by (auto simp: set_bid_quote_def set_ask_quote_def bid_quote_def ask_quote_def bid_levels_def ask_levels_def
      split: prod.splits)

lemma order_inv:
  assumes inv: "book_inv b" and r: "idx < bucket_count (bb_config b) * 4096"
    and o: "(if cancel then delete_order b md idx else add_order b md idx qty) = Some b'"
    and q: "cancel \<or> qty > 0"
  shows "book_inv b' \<and> bb_config b' = bb_config b \<and> bb_engine b' = bb_engine b
    \<and> (bid_levels b', ask_levels b') =
        (if md_side md = kBuy then (set_level (bid_levels b) idx (if cancel then 0 else qty), ask_levels b)
         else (bid_levels b, set_level (ask_levels b) idx (if cancel then 0 else qty)))"
proof (cases "md_side md = kBuy")
  case True
  obtain s p v where bq: "bid_quote b = (s, p, v)" by (cases "bid_quote b")
  have lb: "bid_levels b = level_qty s" using bq by (simp add: bid_quote_def bid_levels_def)
  have qi: "quote_inv SearchHighest (bb_config b) (s, p, v)" using inv bq by (simp add: book_inv_def)
  obtain s' p' v' where n: "(if cancel then delete_side SearchHighest (bb_config b) idx (s, p, v)
      else add_side SearchHighest (bb_config b) idx qty (s, p, v)) = Some (s', p', v')" and b': "b' = set_bid_quote b (s', p', v')"
    using o True bq by (cases cancel) (auto simp: add_order_def delete_order_def)
  have "quote_inv SearchHighest (bb_config b) (s', p', v') \<and> level_qty s' = set_level (level_qty s) idx (if cancel then 0 else qty)"
    using n q add_side_inv [OF qi r] delete_side_inv [OF qi r] by (cases cancel) auto
  then show ?thesis using True b' inv lb by (simp add: book_inv_def)
next
  case False
  obtain s p v where bq: "ask_quote b = (s, p, v)" by (cases "ask_quote b")
  have lb: "ask_levels b = level_qty s" using bq by (simp add: ask_quote_def ask_levels_def)
  have qi: "quote_inv SearchLowest (bb_config b) (s, p, v)" using inv bq by (simp add: book_inv_def)
  obtain s' p' v' where n: "(if cancel then delete_side SearchLowest (bb_config b) idx (s, p, v)
      else add_side SearchLowest (bb_config b) idx qty (s, p, v)) = Some (s', p', v')" and b': "b' = set_ask_quote b (s', p', v')"
    using o False bq by (cases cancel) (auto simp: add_order_def delete_order_def)
  have "quote_inv SearchLowest (bb_config b) (s', p', v') \<and> level_qty s' = set_level (level_qty s) idx (if cancel then 0 else qty)"
    using n q add_side_inv [OF qi r] delete_side_inv [OF qi r] by (cases cancel) auto
  then show ?thesis using False b' inv lb by (simp add: book_inv_def)
qed

lemma update_step:
  assumes inv: "book_inv b" and ok: "feed_ok (bb_config b) md" and u: "on_market_data_updated b md = Some (b', ev)"
  shows "book_inv b' \<and> bb_config b' = bb_config b \<and> bb_engine b' = bb_engine b
    \<and> (bid_levels b', ask_levels b') = spec_apply (bb_config b) (bid_levels b, ask_levels b) md"
proof (cases "out_of_range (bb_config b) md")
  case True
  then show ?thesis using u inv by (simp add: on_market_data_updated_def spec_apply_def)
next
  case False
  let ?i = "nat (price_to_index (bb_config b) (md_price md))"
  note ix = in_range_index [OF inv False]
  show ?thesis
  proof (cases "md_type md")
    case kAdd
    then have "add_order b md ?i (md_qty md) = Some b'" "md_qty md > 0"
      using u False ok by (auto simp: on_market_data_updated_def Let_def feed_ok_def bind_eq_Some_conv split: if_splits)
    then show ?thesis using order_inv [OF inv ix(2), of False md "md_qty md" b'] kAdd False ix(1) by (simp add: spec_apply_def Let_def)
  next
    case kModify
    then have "add_order b md ?i (md_qty md) = Some b'" "md_qty md > 0"
      using u False ok by (auto simp: on_market_data_updated_def Let_def feed_ok_def bind_eq_Some_conv split: if_splits)
    then show ?thesis using order_inv [OF inv ix(2), of False md "md_qty md" b'] kModify False ix(1) by (simp add: spec_apply_def Let_def)
  next
    case kCancel
    then have "delete_order b md ?i = Some b'"
      using u False by (auto simp: on_market_data_updated_def Let_def bind_eq_Some_conv split: if_splits)
    then show ?thesis using order_inv [OF inv ix(2), of True md 0 b'] kCancel False ix(1) by (simp add: spec_apply_def Let_def)
  qed (use u False ok inv in \<open>auto simp: on_market_data_updated_def feed_ok_def spec_apply_def Let_def split: if_splits\<close>)
qed

lemma update_step_total:
  assumes inv: "book_inv b" and eng: "bb_engine b" and pool: "bucket_pool_size (bb_config b) = bucket_count (bb_config b)"
  shows "\<exists>r. on_market_data_updated b md = Some r"
proof (cases "out_of_range (bb_config b) md")
  case False
  let ?i = "nat (price_to_index (bb_config b) (md_price md))"
  note ix = in_range_index(2) [OF inv False]
  have bid: "\<exists>s'. update_side (bb_bid b) ?i q = Some s'" and ask: "\<exists>s'. update_side (bb_ask b) ?i q = Some s'" for q
    using update_side_total [OF _ ix pool] inv by (auto simp: book_inv_def quote_inv_def bid_quote_def ask_quote_def)
  have a: "\<exists>b'. add_order b md ?i (md_qty md) = Some b' \<and> bb_engine b'"
    using bid [of "md_qty md"] ask [of "md_qty md"] eng
    by (auto simp: add_order_def add_side_def bid_quote_def ask_quote_def)
  have d: "\<exists>b'. delete_order b md ?i = Some b' \<and> bb_engine b'"
    using bid [of 0] ask [of 0] eng
    by (auto simp: delete_order_def delete_side_def bid_quote_def ask_quote_def Let_def split: prod.splits)
  show ?thesis using a d False eng
    by (cases "md_type md") (auto simp: on_market_data_updated_def Let_def)
qed (simp add: on_market_data_updated_def)

lemma run_feed_spec:
  assumes "book_inv b" "list_all (feed_ok (bb_config b)) mds" "run_feed b mds = Some b'"
  shows "book_inv b' \<and> bb_config b' = bb_config b
    \<and> (bid_levels b', ask_levels b') = foldl (spec_apply (bb_config b)) (bid_levels b, ask_levels b) mds"
  using assms
proof (induction mds arbitrary: b)
  case (Cons md mds)
  then obtain b1 ev where u: "on_market_data_updated b md = Some (b1, ev)" and r: "run_feed b1 mds = Some b'"
    by (auto split: option.splits)
  have "feed_ok (bb_config b) md" using Cons.prems by simp
  note st = update_step [OF Cons.prems(1) this u]
  have l: "spec_apply (bb_config b) (bid_levels b, ask_levels b) md = (bid_levels b1, ask_levels b1)" using st by simp
  then show ?case using Cons.IH [of b1] Cons.prems r st by simp
qed simp

lemma run_feed_total:
  assumes "book_inv b" "bb_engine b" "bucket_pool_size (bb_config b) = bucket_count (bb_config b)"
    "list_all (feed_ok (bb_config b)) mds"
  shows "\<exists>b'. run_feed b mds = Some b'"
  using assms
proof (induction mds arbitrary: b)
  case (Cons md mds)
  obtain b1 ev where u: "on_market_data_updated b md = Some (b1, ev)"
    using update_step_total [OF Cons.prems(1,2,3), of md] by auto
  have "feed_ok (bb_config b) md" using Cons.prems by simp
  note st = update_step [OF Cons.prems(1) this u]
  then show ?case using Cons.IH [of b1] Cons.prems u by simp
qed simp

definition fresh_book :: "int \<Rightarrow> int \<Rightarrow> bucket_book" where
  "fresh_book lo hi = (bucket_book_new (from_ini False lo hi))\<lparr>bb_engine := True\<rparr>"

lemma from_ini_shape:
  assumes "0 \<le> lo" "lo \<le> hi" "hi < 2 ^ 31"
  defines "c \<equiv> from_ini False lo hi"
  shows "config_ok c" "num_levels c \<le> bucket_count c * 4096" "int (num_levels c) = hi - lo + 1"
    "bucket_count c \<le> summary_words c * 64" "0 < bucket_pool_size c" "bucket_pool_size c \<le> 256"
    "min_price_int c = lo" "max_price_int c = hi"
    "hi - lo < 256 * 4096 \<Longrightarrow> bucket_pool_size c = bucket_count c"
proof -
  let ?n = "nat (hi - lo + 1)"
  have n: "0 < ?n" using assms by simp
  show "config_ok c" "int (num_levels c) = hi - lo + 1" "min_price_int c = lo" "max_price_int c = hi"
    using assms by (simp_all add: c_def from_ini_def Let_def config_ok_def)
  show "num_levels c \<le> bucket_count c * 4096" "bucket_count c \<le> summary_words c * 64"
    by (simp_all add: c_def from_ini_def Let_def kBucketSize_def)
  show "0 < bucket_pool_size c" "bucket_pool_size c \<le> 256"
    using n by (auto simp: c_def from_ini_def Let_def kBucketSize_def kMaxBucketPoolSize_def)
  show "bucket_pool_size c = bucket_count c" if "hi - lo < 256 * 4096"
    using that by (simp add: c_def from_ini_def Let_def kBucketSize_def kMaxBucketPoolSize_def)
qed

lemma fresh_book_inv:
  assumes "0 \<le> lo" "lo \<le> hi" "hi < 2 ^ 31"
  shows "book_inv (fresh_book lo hi)" "bid_levels (fresh_book lo hi) = (\<lambda>_. 0)" "ask_levels (fresh_book lo hi) = (\<lambda>_. 0)"
    "bb_config (fresh_book lo hi) = from_ini False lo hi" "bb_engine (fresh_book lo hi)"
proof -
  note sh = from_ini_shape [OF assms]
  have "bucket_pool_size (from_ini False lo hi) < 2 ^ 32 - 1" using sh(6) by simp
  note q = quote_inv_new [OF sh(4) sh(5) this]
  show "book_inv (fresh_book lo hi)"
    using sh(1-3) sh(7,8) q [of SearchHighest] q [of SearchLowest]
    by (simp add: book_inv_def fresh_book_def bucket_book_new_def bid_quote_def ask_quote_def BBO_default_def)
qed (simp_all add: fresh_book_def bucket_book_new_def bid_levels_def ask_levels_def)

subsection \<open>Properties\<close>

lemma book_inv_bbo: "book_inv b \<Longrightarrow> bbo_correct (bb_config b) (bid_levels b, ask_levels b) (bb_bbo b)"
  by (simp add: book_inv_def quote_inv_def bbo_correct_def bid_quote_def ask_quote_def bid_levels_def ask_levels_def)


definition demo_md :: "MarketUpdateType \<Rightarrow> Side \<Rightarrow> int64 \<Rightarrow> int64 \<Rightarrow> MarketData" where
  "demo_md t sd p q = \<lparr>md_type = t, md_order_id = 0, md_ticker_id = ''BTCUSDT'', md_side = sd, md_price = p, md_qty = q\<rparr>"


text \<open>
  An in-range clear empties both sides and the BBO but leaves the cached best index of the bucket
  book; the next bid added below the old best is stored but not published: the BBO stays invalid.
\<close>

lemma bucket_clear_stale_best:
  assumes "book_inv b" and "bb_engine b"
    and "active (bid_levels b) best" and "nearest SearchHighest (active (bid_levels b)) best"
    and "md_type clr = kClear" and "\<not> out_of_range (bb_config b) clr"
    and "md_type md = kAdd" and "md_side md = kBuy" and "md_qty md > 0" and "\<not> out_of_range (bb_config b) md"
    and "nat (md_price md - min_price_int (bb_config b)) < best"
    and "run_feed b [clr, md] = Some b'"
  shows "active (bid_levels b') (nat (md_price md - min_price_int (bb_config b)))
     \<and> bid_price (bb_bbo b') = kInvalidValue \<and> bid_qty (bb_bbo b') = kInvalidValue"
proof -
  let ?c = "bb_config b" and ?i = "nat (md_price md - min_price_int (bb_config b))"
  have si: "side_inv ?c (bb_bid b)" and bc: "bs_cached (bb_bid b) = int best"
    using assms(1,4) best_is_nearest by (auto simp: book_inv_def quote_inv_def bid_quote_def bid_levels_def)
  note ix = in_range_index [OF assms(1,10)]
  let ?s = "clear_side ?c (bb_bid b)"
  note cs = clear_side_spec [OF si]
  have "add_order (clear_book b) md ?i (md_qty md) = Some b'"
    using assms(2,5-8,10,12) ix
    by (auto simp: on_market_data_updated_def clear_book_def Let_def bind_eq_Some_conv split: option.splits if_splits)
  then obtain s1 where u: "update_side ?s ?i (md_qty md) = Some s1"
    and b': "b' = set_bid_quote (clear_book b) (s1, kInvalidValue, kInvalidValue)"
    using assms(8,11) bc cs(3) update_side_Some(3) [OF cs(1)] ix
    by (auto simp: add_order_def add_side_def bid_quote_def clear_book_def BBO_default_def split: option.splits if_splits)
  have "level_qty s1 = set_level (level_qty ?s) ?i (md_qty md)" using update_side_Some(2) [OF cs(1) _ u] ix by simp
  then show ?thesis using b' assms(9) by (simp add: active_def set_level_def) (simp add: set_bid_quote_def)
qed

lemma clear_then_add_total:
  assumes "book_inv b" "bb_engine b" "bucket_pool_size (bb_config b) = bucket_count (bb_config b)"
    "md_type clr = kClear" "\<not> out_of_range (bb_config b) clr"
    "md_type md = kAdd" "md_side md = kBuy" "\<not> out_of_range (bb_config b) md"
  shows "\<exists>b'. run_feed b [clr, md] = Some b'"
proof -
  let ?c = "bb_config b" and ?i = "nat (price_to_index (bb_config b) (md_price md))"
  have si: "side_inv ?c (bb_bid b)" using assms(1) by (simp add: book_inv_def quote_inv_def bid_quote_def)
  obtain s' where "update_side (clear_side ?c (bb_bid b)) ?i (md_qty md) = Some s'"
    using update_side_total [OF clear_side_spec(1) [OF si] in_range_index(2) [OF assms(1,8)] assms(3)] by blast
  then show ?thesis using assms(2,4-8)
    by (auto simp: on_market_data_updated_def clear_book_def Let_def add_order_def add_side_def bid_quote_def)
qed

text \<open>A clear outside the configured range (the decoders send price 0) is dropped by the range check.\<close>

lemma bucket_clear_out_of_range_ignored:
  assumes "md_type md = kClear" and "md_price md = 0" and "0 < min_price_int (bb_config b)"
  shows "on_market_data_updated b md = Some (b, [])"
  using assms by (simp add: on_market_data_updated_def out_of_range_def)

text \<open>
  Writing a level faults exactly when its bucket does not exist yet and all buckets of the pool are in
  use: the null pointer of the failed allocation is dereferenced, for a delete as well as for an add.
  Otherwise the level map is updated at that level only and the side's invariant is kept.
\<close>

lemma update_side_correct:
  assumes "side_inv cfg s" and "idx < bucket_count cfg * 4096"
  shows "(case update_side s idx qty of
            None \<Rightarrow> sview s (idx div 4096) = None \<and> card (pool_live (bs_pool s)) = bucket_pool_size cfg
          | Some s' \<Rightarrow> side_inv cfg s' \<and> level_qty s' = set_level (level_qty s) idx qty
              \<and> (sview s (idx div 4096) \<noteq> None \<or> card (pool_live (bs_pool s)) \<noteq> bucket_pool_size cfg))"
  using update_side_None [OF assms, of qty] update_side_Some [OF assms, of qty] by (auto split: option.splits)

end
