(* ===== verification/Bucket_Peek.thy ===== *)
theory Bucket_Peek
  imports Bucket_Book_Correct
begin

text \<open>
  Depth queries of the bucket book (\<^verbatim>\<open>hft/src/order_book.hpp\<close>): \<open>peek_levels\<close>, \<open>peek_levels_with_qty\<close>, \<open>peek_qty\<close> and
  the scanning helpers they call. Each is proved to return the first levels of the side, best first, in
  terms of the level map of \<open>Bucket_Book_Inv\<close>, although it walks bitmap words and summary words. The
  output spans of \<open>peek_qty\<close> are the list of the pairs written so far; \<open>filled\<close> is its length.
\<close>

text \<open>
  The word loop the helpers share: \<open>full\<close> is the loop condition on the number of levels collected, tested
  before each word.
\<close>

fun scan_words :: "search_dir \<Rightarrow> (nat \<Rightarrow> u64) \<Rightarrow> ('s \<Rightarrow> bool) \<Rightarrow> (nat \<Rightarrow> 's \<Rightarrow> 's \<times> bool) \<Rightarrow> nat list \<Rightarrow> 's \<Rightarrow> 's \<times> bool" where
  "scan_words d bm full f [] s = (s, full s)"
| "scan_words d bm full f (w # ws) s =
     (if full s then (s, True)
      else case scan_word d (bm w) w f s of (s', stop) \<Rightarrow>
        if stop then (s', True) else scan_words d bm full f ws s')"

definition push_level_if_positive ::
  "OrderBookConfig \<Rightarrow> bucket \<Rightarrow> nat \<Rightarrow> nat \<Rightarrow> nat \<Rightarrow> LevelView list \<Rightarrow> LevelView list \<times> bool" where
  "push_level_if_positive cfg b bucket_idx level local_off out =
     (if \<not> bk_orders b local_off > 0 then (out, False)
      else
        let global_idx = bucket_idx * kBucketSize + local_off;
            out' = out @ [\<lparr>lv_idx = global_idx, lv_qty_raw = bk_orders b local_off,
                           lv_price_raw = index_to_price cfg (int global_idx)\<rparr>]
        in (out', length out' \<ge> level))"

definition consume_levels_in_bucket ::
  "search_dir \<Rightarrow> OrderBookConfig \<Rightarrow> bucket \<Rightarrow> nat \<Rightarrow> nat \<Rightarrow> nat \<Rightarrow> LevelView list \<Rightarrow> LevelView list" where
  "consume_levels_in_bucket d cfg b bucket_idx off level out =
     (if length out \<ge> level then out
      else
        let on_off = push_level_if_positive cfg b bucket_idx level;
            word_index = drop_bit 6 off;
            bi = off AND 63;
            first_mask = (case d of SearchHighest \<Rightarrow> if bi = 0 then 0 else mask_before bi
                          | SearchLowest \<Rightarrow> if bi = kWordMask then 0 else mask_after_inclusive bi);
            word = bk_bitmap b word_index AND first_mask
        in case scan_word d word word_index on_off out of (out1, stop) \<Rightarrow>
             if stop then out1
             else fst (scan_words d (bk_bitmap b) (\<lambda>s. length s \<ge> level) on_off
                         (case d of SearchHighest \<Rightarrow> rev [0..<word_index] | SearchLowest \<Rightarrow> [word_index + 1..<kBucketBitmapWords]) out1))"

definition consume_full_bucket ::
  "search_dir \<Rightarrow> OrderBookConfig \<Rightarrow> bucket_side \<Rightarrow> nat \<Rightarrow> nat \<Rightarrow> LevelView list \<Rightarrow> LevelView list \<times> bool" where
  "consume_full_bucket d cfg s level bidx out =
     (case bs_buckets s ! bidx of
        None \<Rightarrow> (out, False)
      | Some ptr \<Rightarrow>
          let b = pool_get (bs_pool s) ptr
          in scan_words d (bk_bitmap b) (\<lambda>l. length l \<ge> level) (push_level_if_positive cfg b bidx level)
               (dir_list d [0..<kBucketBitmapWords]) out)"

definition jump_measure :: "search_dir \<Rightarrow> bucket_side \<Rightarrow> nat \<Rightarrow> nat" where
  "jump_measure d s b = (case d of SearchHighest \<Rightarrow> b | SearchLowest \<Rightarrow> max (length (bs_summary s)) (b div 64 + 1) * 64 - b)"

lemma nat_diff_less: "(a::nat) \<le> n \<Longrightarrow> b < r \<Longrightarrow> r < n \<Longrightarrow> a - r < n - b"
  by linarith

lemma jump_measure_less:
  assumes "\<not> jump_next_bucket_impl d (bs_summary s) b < 0"
  shows "jump_measure d s (nat (jump_next_bucket_impl d (bs_summary s) b)) < jump_measure d s b"
proof -
  let ?r = "nat (jump_next_bucket_impl d (bs_summary s) b)" and ?n = "max (length (bs_summary s)) (b div 64 + 1)"
  have j: "farther d ?r b" "?r < ?n * 64" using jump_next_bucket_progress [of d "bs_summary s" b] assms by simp_all
  have "max (length (bs_summary s)) (?r div 64 + 1) \<le> ?n" using j(2) by (simp add: less_mult_imp_div_less Suc_leI)
  then have m: "max (length (bs_summary s)) (?r div 64 + 1) * 64 \<le> ?n * 64" by (rule mult_le_mono1)
  show ?thesis
  proof (cases d)
    case SearchHighest
    then show ?thesis using j(1) by (simp add: jump_measure_def)
  next
    case SearchLowest
    then have "b < ?r" using j(1) by simp
    then have "max (length (bs_summary s)) (?r div 64 + 1) * 64 - ?r < ?n * 64 - b"
      by (rule nat_diff_less [OF m _ j(2)])
    then show ?thesis using SearchLowest by (simp only: jump_measure_def search_dir.case)
  qed
qed

function peek_loop :: "search_dir \<Rightarrow> OrderBookConfig \<Rightarrow> bucket_side \<Rightarrow> nat \<Rightarrow> nat \<Rightarrow> LevelView list \<Rightarrow> LevelView list" where
  "peek_loop d cfg s level bucket_idx out =
     (if length out \<ge> level then out
      else let nb = jump_next_bucket_impl d (bs_summary s) bucket_idx
           in if nb < 0 then out
              else case consume_full_bucket d cfg s level (nat nb) out of (out', stop) \<Rightarrow>
                     if stop then out' else peek_loop d cfg s level (nat nb) out')"
  by pat_completeness auto

text \<open>Each jump goes strictly further in the search direction, within the summary.\<close>

termination
  by (relation "measure (\<lambda>(d, cfg, s, level, b, out). jump_measure d s b)")
     (simp_all add: jump_measure_less)

declare peek_loop.simps [simp del]

definition peek_levels_with_qty ::
  "search_dir \<Rightarrow> OrderBookConfig \<Rightarrow> bucket_side \<Rightarrow> int \<Rightarrow> LevelView list \<times> bucket_side" where
  "peek_levels_with_qty d cfg s level =
     (if level \<le> 0 then ([], s)
      else case best_idx d s of (best, s1) \<Rightarrow>
        if best < 0 then ([], s1)
        else
          let lvl = nat level;
              best_bucket_idx = nat best div kBucketSize;
              best_off = nat best AND 4095;
              out0 = (case bs_buckets s1 ! best_bucket_idx of
                        None \<Rightarrow> []
                      | Some ptr \<Rightarrow> let q = bk_orders (pool_get (bs_pool s1) ptr) best_off in
                          if q > 0 then [\<lparr>lv_idx = nat best, lv_qty_raw = q, lv_price_raw = index_to_price cfg best\<rparr>] else [])
          in if length out0 \<ge> lvl then (out0, s1)
             else
               let out1 = (case bs_buckets s1 ! best_bucket_idx of
                             None \<Rightarrow> out0
                           | Some ptr \<Rightarrow> consume_levels_in_bucket d cfg (pool_get (bs_pool s1) ptr) best_bucket_idx best_off lvl out0)
               in (peek_loop d cfg s1 lvl best_bucket_idx out1, s1))"

text \<open>\<open>peek_levels\<close>: one level per iteration until \<open>level\<close> levels are collected.\<close>

fun peek_more :: "search_dir \<Rightarrow> OrderBookConfig \<Rightarrow> bucket_side \<Rightarrow> nat \<Rightarrow> nat \<Rightarrow> nat list" where
  "peek_more d cfg s 0 idx = []"
| "peek_more d cfg s (Suc n) idx =
     (let nxt = next_active d cfg s idx in if nxt \<ge> 0 then nat nxt # peek_more d cfg s n (nat nxt) else [])"

definition peek_levels :: "search_dir \<Rightarrow> OrderBookConfig \<Rightarrow> bucket_side \<Rightarrow> nat \<Rightarrow> nat list \<times> bucket_side" where
  "peek_levels d cfg s level =
     (case best_idx d s of (idx, s1) \<Rightarrow>
       (if idx \<ge> 0 then nat idx # peek_more d cfg s1 (level - 1) (nat idx) else [], s1))"

text \<open>\<open>peek_qty\<close> and its helpers.\<close>

type_synonym peeked = "(int64 \<times> nat) list"

definition push_if_active :: "bucket \<Rightarrow> nat \<Rightarrow> nat \<Rightarrow> nat \<Rightarrow> peeked \<Rightarrow> peeked \<times> bool" where
  "push_if_active b bidx want off acc =
     (let acc' = (if bk_orders b off > 0 then acc @ [(bk_orders b off, bidx * kBucketSize + off)] else acc)
      in (acc', length acc' \<ge> want))"

definition consume_first_word :: "search_dir \<Rightarrow> bucket \<Rightarrow> nat \<Rightarrow> nat \<Rightarrow> nat \<Rightarrow> peeked \<Rightarrow> peeked \<times> bool" where
  "consume_first_word d b bidx start_off want acc =
     (let word_idx = drop_bit 6 start_off; word = bk_bitmap b word_idx AND first_mask d start_off
      in scan_word d word word_idx (push_if_active b bidx want) acc)"

definition consume_following_words :: "search_dir \<Rightarrow> bucket \<Rightarrow> nat \<Rightarrow> nat \<Rightarrow> nat \<Rightarrow> peeked \<Rightarrow> peeked \<times> bool" where
  "consume_following_words d b bidx start_off want acc =
     (let word_idx = drop_bit 6 start_off
      in scan_words d (bk_bitmap b) (\<lambda>a. length a \<ge> want) (push_if_active b bidx want)
           (case d of SearchHighest \<Rightarrow> rev [0..<word_idx] | SearchLowest \<Rightarrow> [word_idx + 1..<kBucketBitmapWords]) acc)"

definition consume_bucket_side :: "search_dir \<Rightarrow> bucket option \<Rightarrow> nat \<Rightarrow> nat \<Rightarrow> nat \<Rightarrow> peeked \<Rightarrow> peeked \<times> bool" where
  "consume_bucket_side d ob bidx start_off want acc =
     (case ob of None \<Rightarrow> (acc, False)
      | Some b \<Rightarrow>
          (case consume_first_word d b bidx start_off want acc of (acc1, stop) \<Rightarrow>
             if stop then (acc1, True) else consume_following_words d b bidx start_off want acc1))"

function peek_qty_loop :: "search_dir \<Rightarrow> bucket_side \<Rightarrow> nat \<Rightarrow> nat \<Rightarrow> peeked \<Rightarrow> peeked" where
  "peek_qty_loop d s want bidx acc =
     (if length acc \<ge> want then acc
      else let nb = jump_next_bucket_impl d (bs_summary s) bidx
           in if nb < 0 then acc
              else case (case bs_buckets s ! nat nb of
                           None \<Rightarrow> (acc, False)
                         | Some ptr \<Rightarrow>
                             let b = pool_get (bs_pool s) ptr
                             in scan_words d (bk_bitmap b) (\<lambda>a. length a \<ge> want) (push_if_active b (nat nb) want)
                                  (dir_list d [0..<kBucketBitmapWords]) acc) of (acc', stop) \<Rightarrow>
                     if stop then acc' else peek_qty_loop d s want (nat nb) acc')"
  by pat_completeness auto

termination
  by (relation "measure (\<lambda>(d, s, want, b, acc). jump_measure d s b)")
     (simp_all add: jump_measure_less)

declare peek_qty_loop.simps [simp del]

definition peek_qty :: "search_dir \<Rightarrow> bucket_side \<Rightarrow> int \<Rightarrow> nat \<Rightarrow> (int \<times> peeked) \<times> bucket_side" where
  "peek_qty d s level qty_out_size =
     (let want = min level (int qty_out_size) in
      if want \<le> 0 then ((- 1, []), s)
      else case best_idx d s of (best, s1) \<Rightarrow>
        if best < 0 then ((- 1, []), s1)
        else
          let w = nat want;
              best_bidx = nat best div kBucketSize;
              best_off = nat best AND 4095;
              bucket_at = map_option (pool_get (bs_pool s1)) (bs_buckets s1 ! best_bidx);
              acc0 = (case bucket_at of
                        None \<Rightarrow> []
                      | Some b \<Rightarrow> if bk_orders b best_off > 0 then [(bk_orders b best_off, nat best)] else [])
          in if acc0 \<noteq> [] \<and> length acc0 \<ge> w then ((int (length acc0), acc0), s1)
             else case consume_bucket_side d bucket_at best_bidx best_off w acc0 of (acc1, stop) \<Rightarrow>
               let acc2 = (if stop then acc1 else peek_qty_loop d s1 w best_bidx acc1)
               in ((int (length acc2), acc2), s1))"

subsection \<open>Collecting levels\<close>

lemma run_collect:
  assumes "\<And>x acc. x \<in> set xs \<Longrightarrow> f x acc = (acc @ [g x], n \<le> length acc + 1)" "length acc < n"
  shows "run_until f xs acc = (acc @ take (n - length acc) (map g xs), n \<le> length acc + length xs)"
  using assms
proof (induction xs arbitrary: acc)
  case (Cons x xs)
  have fx: "f x acc = (acc @ [g x], n \<le> length acc + 1)" using Cons.prems by simp
  show ?case
  proof (cases "n \<le> length acc + 1")
    case True
    then have "n - length acc = 1" using Cons.prems(2) by simp
    then show ?thesis using fx True by simp
  next
    case False
    then have "n - length acc = Suc (n - Suc (length acc))" using Cons.prems(2) by simp
    then show ?thesis using fx False Cons.IH [of "acc @ [g x]"] Cons.prems by simp
  qed
qed simp

lemma scan_words_collect:
  assumes "\<And>x acc. x \<in> set (levels d bm ws) \<Longrightarrow> f x acc = (acc @ [g x], n \<le> length acc + 1)" "length acc < n"
  shows "scan_words d bm (\<lambda>a. n \<le> length a) f ws acc =
     (acc @ take (n - length acc) (map g (levels d bm ws)), n \<le> length acc + length (levels d bm ws))"
  using assms
proof (induction ws arbitrary: acc)
  case (Cons w ws)
  have r: "scan_word d (bm w) w f acc
      = (acc @ take (n - length acc) (map g (wlevels d bm w)), n \<le> length acc + length (wlevels d bm w))"
    unfolding scan_word_run wlevels_def [symmetric]
    using Cons.prems by (intro run_collect) (auto simp: levels_Cons)
  show ?case
  proof (cases "n \<le> length acc + length (wlevels d bm w)")
    case True
    then show ?thesis using r Cons.prems(2) by (simp add: levels_Cons)
  next
    case False
    then have t: "take (n - length acc) (map g (wlevels d bm w)) = map g (wlevels d bm w)" by simp
    show ?thesis
      using r False t Cons.IH [of "acc @ map g (wlevels d bm w)"] Cons.prems by (simp add: levels_Cons add.assoc)
  qed
qed (simp add: not_le)

text \<open>A masked first word and then the following words: the levels of a bucket beyond an offset.\<close>

lemma scan_bucket_beyond:
  fixes d :: search_dir
  assumes ok: "bucket_ok b" and off: "off < 4096" and acc: "length acc < n"
    and f: "\<And>x acc. bk_orders b x > 0 \<Longrightarrow> x < 4096 \<Longrightarrow> f x acc = (acc @ [g x], n \<le> length acc + 1)"
  defines "L \<equiv> dir_list d (filter (\<lambda>k. bk_orders b k > 0 \<and> farther d k off) [0..<4096])"
  shows "(case scan_word d (bk_bitmap b (off div 64) AND make_mask d (off mod 64)) (off div 64) f acc of (acc1, stop) \<Rightarrow>
      if stop then (acc1, True) else scan_words d (bk_bitmap b) (\<lambda>a. n \<le> length a) f (following d (off div 64) 64) acc1)
     = (acc @ take (n - length acc) (map g L), n \<le> length acc + length L)"
proof -
  let ?w = "off div 64"
  let ?first = "map (\<lambda>k. ?w * 64 + k) (dbits d (bk_bitmap b ?w AND make_mask d (off mod 64)))"
  let ?rest = "levels d (bk_bitmap b) (following d ?w 64)"
  have w: "?w < 64" using off by (simp add: less_mult_imp_div_less)
  have "filter (\<lambda>i. i \<in> bmset (bk_bitmap b) \<and> farther d i off) [0..<4096]
      = filter (\<lambda>k. bk_orders b k > 0 \<and> farther d k off) [0..<4096]"
    using ok by (intro filter_cong) (auto simp: bucket_ok_def)
  then have L: "L = ?first @ ?rest" unfolding L_def using levels_beyond_filter [OF w, of d "bk_bitmap b"] by simp
  have act: "bk_orders b x > 0 \<and> x < 4096" if "x \<in> set (?first @ ?rest)" for x
    using that unfolding L [symmetric] L_def by auto
  have r: "scan_word d (bk_bitmap b ?w AND make_mask d (off mod 64)) ?w f acc
      = (acc @ take (n - length acc) (map g ?first), n \<le> length acc + length ?first)"
    unfolding scan_word_run using f act acc by (intro run_collect) auto
  show ?thesis
  proof (cases "n \<le> length acc + length ?first")
    case True
    then show ?thesis unfolding r L by simp
  next
    case False
    have "scan_words d (bk_bitmap b) (\<lambda>a. n \<le> length a) f (following d ?w 64) (acc @ map g ?first)
        = ((acc @ map g ?first) @ take (n - length (acc @ map g ?first)) (map g ?rest), n \<le> length (acc @ map g ?first) + length ?rest)"
      using f act False by (intro scan_words_collect) auto
    then show ?thesis unfolding r L using False by (simp add: add.assoc)
  qed
qed

lemma scan_bucket_full:
  fixes d :: search_dir
  assumes ok: "bucket_ok b" and acc: "length acc < n"
    and f: "\<And>x acc. bk_orders b x > 0 \<Longrightarrow> x < 4096 \<Longrightarrow> f x acc = (acc @ [g x], n \<le> length acc + 1)"
  defines "L \<equiv> dir_list d (filter (\<lambda>k. bk_orders b k > 0) [0..<4096])"
  shows "scan_words d (bk_bitmap b) (\<lambda>a. n \<le> length a) f (dir_list d [0..<64]) acc
     = (acc @ take (n - length acc) (map g L), n \<le> length acc + length L)"
proof -
  have L: "levels d (bk_bitmap b) (dir_list d [0..<64]) = L"
    using levels_all [of d "bk_bitmap b" 64] bucket_levels [OF ok] by (simp add: L_def)
  have "bk_orders b x > 0 \<and> x < 4096" if "x \<in> set L" for x using that by (simp add: L_def)
  then show ?thesis using scan_words_collect [of d "bk_bitmap b" "dir_list d [0..<64]" f g n acc] f acc L by simp
qed

subsection \<open>Walking the buckets\<close>

text \<open>The active levels of all buckets strictly beyond bucket \<open>b\<close>.\<close>

definition rest_levels :: "search_dir \<Rightarrow> OrderBookConfig \<Rightarrow> bucket_side \<Rightarrow> nat \<Rightarrow> nat list" where
  "rest_levels d cfg s b =
     dir_list d (filter (\<lambda>i. active (level_qty s) i \<and> farther d (i div 4096) b) [0..<bucket_count cfg * 4096])"

lemma sorted_blocks:
  "sorted_wrt (\<lambda>x y. farther d y x) (map (\<lambda>k. b * 4096 + k) (dir_list d (filter P [0..<4096])))"
proof -
  have "farther d (b * 4096 + x) (b * 4096 + y) \<longleftrightarrow> farther d x y" for x y by (cases d) auto
  then show ?thesis using sorted_dir_list [of d P 4096] by (simp add: sorted_wrt_map)
qed

lemma level_in_bucket:
  assumes "sview s b = Some bb" "k < 4096"
  shows "level_qty s (b * 4096 + k) = max 0 (bk_orders bb k)"
  using assms by (simp add: level_qty_def view_qty_def)

lemma block_split:
  assumes inv: "side_inv cfg s" and bb: "sview s b = Some bb"
    and P: "\<And>i. P i \<longleftrightarrow> farther d (i div 4096) b \<or> i div 4096 = b \<and> R (i mod 4096)"
  shows "dir_list d (filter (\<lambda>i. active (level_qty s) i \<and> P i) [0..<bucket_count cfg * 4096])
     = map (\<lambda>k. b * 4096 + k) (dir_list d (filter (\<lambda>k. bk_orders bb k > 0 \<and> R k) [0..<4096])) @ rest_levels d cfg s b"
    (is "?l = ?blk @ ?r")
proof (rule dir_sorted_unique)
  have b: "b < bucket_count cfg" using sview_lt [OF inv] bb by auto
  show "sorted_wrt (\<lambda>x y. farther d y x) ?l" by (rule sorted_dir_list)
  have "farther d y x" if "x \<in> set ?blk" "y \<in> set ?r" for x y
  proof -
    have "x div 4096 = b" "farther d (y div 4096) b" using that by (auto simp: rest_levels_def)
    then show ?thesis by (intro farther_blocks) simp
  qed
  then show "sorted_wrt (\<lambda>x y. farther d y x) (?blk @ ?r)"
    using sorted_blocks sorted_dir_list by (auto simp: sorted_wrt_append rest_levels_def)
  show "set ?l = set (?blk @ ?r)"
  proof (intro equalityI subsetI)
    fix i assume i: "i \<in> set ?l"
    show "i \<in> set (?blk @ ?r)"
    proof (cases "farther d (i div 4096) b")
      case True
      then show ?thesis using i by (simp add: rest_levels_def)
    next
      case False
      then have e: "i div 4096 = b" "R (i mod 4096)" using i P by auto
      then have "bk_orders bb (i mod 4096) > 0" using i bb by (auto simp: level_qty_def view_active)
      moreover have "i = b * 4096 + i mod 4096" using e by (metis div_mult_mod_eq)
      ultimately show ?thesis using e by auto
    qed
  next
    fix i assume i: "i \<in> set (?blk @ ?r)"
    then consider "i \<in> set ?r" | k where "i = b * 4096 + k" "k < 4096" "bk_orders bb k > 0" "R k" by auto
    then show "i \<in> set ?l"
    proof cases
      case 1
      then show ?thesis using P by (simp add: rest_levels_def)
    next
      case 2
      then have "active (level_qty s) i" using level_in_bucket [OF bb] by (simp add: active_def)
      then show ?thesis using 2 P level_bound [OF inv] by auto
    qed
  qed
qed

lemma jump_rest:
  assumes inv: "side_inv cfg s" and b: "b < bucket_count cfg"
  shows "if jump_next_bucket_impl d (bs_summary s) b < 0 then rest_levels d cfg s b = []
    else \<exists>bb. sview s (nat (jump_next_bucket_impl d (bs_summary s) b)) = Some bb
       \<and> rest_levels d cfg s b = map (\<lambda>k. nat (jump_next_bucket_impl d (bs_summary s) b) * 4096 + k)
            (dir_list d (filter (\<lambda>k. bk_orders bb k > 0) [0..<4096]))
          @ rest_levels d cfg s (nat (jump_next_bucket_impl d (bs_summary s) b))"
proof -
  let ?n = "length (bs_summary s)"
  have n: "?n = summary_words cfg" "max ?n (b div 64 + 1) = ?n"
    using inv b by (auto simp: side_inv_def side_shape_def less_mult_imp_div_less Suc_leI)
  let ?h = "head_opt (dir_list d (filter (\<lambda>i. sview s i \<noteq> None \<and> farther d i b) [0..<?n * 64]))"
  have j: "jump_next_bucket_impl d (bs_summary s) b = (case ?h of Some r \<Rightarrow> int r | None \<Rightarrow> - 1)"
    unfolding jump_next_bucket_spec n(2) using occupied_levels [OF inv, of "\<lambda>i. farther d i b"] by simp
  show ?thesis
  proof (cases ?h)
    case None
    then have "\<forall>i < summary_words cfg * 64. \<not> (sview s i \<noteq> None \<and> farther d i b)" unfolding head_dir_list_None n by simp
    then have "\<not> (active (level_qty s) i \<and> farther d (i div 4096) b)" for i
      using sview_lt [OF inv, of "i div 4096"] by (auto simp: level_qty_def view_active)
    then have "rest_levels d cfg s b = []" by (cases d) (simp_all add: rest_levels_def dir_list_def)
    then show ?thesis using j None by simp
  next
    case (Some r)
    have nr: "nearest d (\<lambda>i. (sview s i \<noteq> None \<and> farther d i b) \<and> i < ?n * 64) r" by (rule head_dir_list_nearest [OF Some])
    then obtain bb where bb: "sview s r = Some bb" by (auto simp: nearest_def)
    have "active (level_qty s) i \<and> farther d (i div 4096) b \<longleftrightarrow>
        active (level_qty s) i \<and> (farther d (i div 4096) r \<or> i div 4096 = r \<and> True)" for i
      using nr n sview_lt [OF inv, of "i div 4096"] farther_trans [of d _ r b] by (auto simp: nearest_def level_qty_def view_active)
    then have "rest_levels d cfg s b = dir_list d (filter (\<lambda>i. active (level_qty s) i
        \<and> (farther d (i div 4096) r \<or> i div 4096 = r \<and> True)) [0..<bucket_count cfg * 4096])"
      unfolding rest_levels_def by presburger
    also have "\<dots> = map (\<lambda>k. r * 4096 + k) (dir_list d (filter (\<lambda>k. bk_orders bb k > 0 \<and> True) [0..<4096])) @ rest_levels d cfg s r"
      by (rule block_split [OF inv bb]) simp
    finally show ?thesis using j Some bb by simp
  qed
qed

subsection \<open>The queries\<close>

definition level_view :: "OrderBookConfig \<Rightarrow> bucket_side \<Rightarrow> nat \<Rightarrow> LevelView" where
  "level_view cfg s i = \<lparr>lv_idx = i, lv_qty_raw = level_qty s i, lv_price_raw = index_to_price cfg (int i)\<rparr>"

definition side_levels :: "search_dir \<Rightarrow> OrderBookConfig \<Rightarrow> bucket_side \<Rightarrow> nat list" where
  "side_levels d cfg s = dir_list d (filter (active (level_qty s)) [0..<bucket_count cfg * 4096])"

lemma push_level_active:
  assumes "sview s b = Some bb" "bk_orders bb k > 0" "k < 4096"
  shows "push_level_if_positive cfg bb b n k acc = (acc @ [level_view cfg s (b * 4096 + k)], n \<le> length acc + 1)"
  using assms level_in_bucket [OF assms(1,3)]
  by (simp add: push_level_if_positive_def Let_def kBucketSize_def level_view_def)

lemma consume_levels_spec:
  assumes inv: "side_inv cfg s" and bb: "sview s b = Some bb" and off: "off < 4096" and acc: "length acc < n"
  shows "consume_levels_in_bucket d cfg bb b off n acc = acc @ take (n - length acc)
     (map (level_view cfg s) (map (\<lambda>k. b * 4096 + k) (dir_list d (filter (\<lambda>k. bk_orders bb k > 0 \<and> farther d k off) [0..<4096]))))"
proof -
  have ok: "bucket_ok bb" using sview_bucket [OF inv bb] by simp
  have m: "(case d of SearchHighest \<Rightarrow> if off mod 64 = 0 then 0 else mask_before (off mod 64)
      | SearchLowest \<Rightarrow> if off mod 64 = kWordMask then 0 else mask_after_inclusive (off mod 64)) = make_mask d (off mod 64)"
    by (cases d) (simp_all add: mask_before_def mask_after_inclusive_def)
  have fl: "(case d of SearchHighest \<Rightarrow> rev [0..<off div 64] | SearchLowest \<Rightarrow> [off div 64 + 1..<64]) = following d (off div 64) 64"
    by (simp add: following_def)
  let ?f = "push_level_if_positive cfg bb b n"
  let ?x = "case scan_word d (bk_bitmap bb (off div 64) AND make_mask d (off mod 64)) (off div 64) ?f acc of (acc1, stop) \<Rightarrow>
      if stop then (acc1, True) else scan_words d (bk_bitmap bb) (\<lambda>a. n \<le> length a) ?f (following d (off div 64) 64) acc1"
  have "consume_levels_in_bucket d cfg bb b off n acc = fst ?x"
    using acc unfolding consume_levels_in_bucket_def Let_def idx_simps m kBucketBitmapWords_eq fl
    by (simp split: prod.split)
  also have "\<dots> = acc @ take (n - length acc) (map (\<lambda>k. level_view cfg s (b * 4096 + k))
      (dir_list d (filter (\<lambda>k. bk_orders bb k > 0 \<and> farther d k off) [0..<4096])))"
    by (subst scan_bucket_beyond [OF ok off acc push_level_active [OF bb]]) simp_all
  finally show ?thesis by (simp add: comp_def)
qed

lemma consume_full_spec:
  fixes d :: search_dir
  assumes inv: "side_inv cfg s" and bb: "sview s b = Some bb" and acc: "length acc < n"
  defines "L \<equiv> map (\<lambda>k. b * 4096 + k) (dir_list d (filter (\<lambda>k. bk_orders bb k > 0) [0..<4096]))"
  shows "consume_full_bucket d cfg s n b acc
     = (acc @ take (n - length acc) (map (level_view cfg s) L), n \<le> length acc + length L)"
proof -
  have ok: "bucket_ok bb" using sview_bucket [OF inv bb] by simp
  obtain q where q: "bs_buckets s ! b = Some q" "pool_get (bs_pool s) q = bb" using bb by (auto simp: bview_def split: if_splits)
  have "consume_full_bucket d cfg s n b acc
     = scan_words d (bk_bitmap bb) (\<lambda>a. n \<le> length a) (push_level_if_positive cfg bb b n) (dir_list d [0..<64]) acc"
    using q by (simp add: consume_full_bucket_def)
  also have "\<dots> = (acc @ take (n - length acc) (map (\<lambda>k. level_view cfg s (b * 4096 + k))
      (dir_list d (filter (\<lambda>k. bk_orders bb k > 0) [0..<4096]))),
      n \<le> length acc + length (dir_list d (filter (\<lambda>k. bk_orders bb k > 0) [0..<4096])))"
    by (rule scan_bucket_full [OF ok acc push_level_active [OF bb]])
  finally show ?thesis by (simp add: L_def comp_def)
qed

lemma peek_loop_spec:
  "side_inv cfg s \<Longrightarrow> b < bucket_count cfg \<Longrightarrow>
     peek_loop d cfg s n b acc = acc @ take (n - length acc) (map (level_view cfg s) (rest_levels d cfg s b))"
proof (induction d cfg s n b acc rule: peek_loop.induct)
  case (1 d cfg s n b acc)
  let ?j = "jump_next_bucket_impl d (bs_summary s) b"
  note inv = "1.prems"(1)
  note jr = jump_rest [OF "1.prems", of d]
  show ?case
  proof (cases "n \<le> length acc \<or> ?j < 0")
    case True
    then show ?thesis using jr by (subst peek_loop.simps) auto
  next
    case False
    then obtain bb where bb: "sview s (nat ?j) = Some bb"
      and rl: "rest_levels d cfg s b = map (\<lambda>k. nat ?j * 4096 + k) (dir_list d (filter (\<lambda>k. bk_orders bb k > 0) [0..<4096]))
                 @ rest_levels d cfg s (nat ?j)"
      using jr by (auto split: if_splits)
    let ?L = "map (\<lambda>k. nat ?j * 4096 + k) (dir_list d (filter (\<lambda>k. bk_orders bb k > 0) [0..<4096]))"
    have acc: "length acc < n" using False by simp
    note cf = consume_full_spec [OF inv bb acc, of d]
    have nb: "nat ?j < bucket_count cfg" using sview_lt [OF inv] bb by auto
    show ?thesis
    proof (cases "n \<le> length acc + length ?L")
      case True
      then have "take (n - length acc) (map (level_view cfg s) (?L @ xs)) = take (n - length acc) (map (level_view cfg s) ?L)" for xs
        by simp
      then show ?thesis unfolding rl using True False cf by (subst peek_loop.simps) (simp add: Let_def)
    next
      case notfull: False
      then have t: "take (n - length acc) (map (level_view cfg s) ?L) = map (level_view cfg s) ?L" by simp
      have c: "consume_full_bucket d cfg s n (nat ?j) acc = (acc @ map (level_view cfg s) ?L, False)"
        using cf notfull t by simp
      have "peek_loop d cfg s n b acc = peek_loop d cfg s n (nat ?j) (acc @ map (level_view cfg s) ?L)"
        using False c by (subst peek_loop.simps) (simp add: Let_def)
      also have "\<dots> = (acc @ map (level_view cfg s) ?L) @ take (n - length (acc @ map (level_view cfg s) ?L))
          (map (level_view cfg s) (rest_levels d cfg s (nat ?j)))"
        using "1.IH" [OF _ refl _ c [symmetric] _ inv nb] False by simp
      finally show ?thesis unfolding rl using notfull by simp
    qed
  qed
qed

lemma side_levels_best:
  assumes inv: "side_inv cfg s" and n: "nearest d (active (level_qty s)) best"
  obtains bb where "sview s (best div 4096) = Some bb" "bk_orders bb (best mod 4096) > 0"
    "side_levels d cfg s = best # map (\<lambda>k. best div 4096 * 4096 + k)
       (dir_list d (filter (\<lambda>k. bk_orders bb k > 0 \<and> farther d k (best mod 4096)) [0..<4096])) @ rest_levels d cfg s (best div 4096)"
proof -
  have a: "active (level_qty s) best" using n by (simp add: nearest_def)
  then obtain bb where bb: "sview s (best div 4096) = Some bb" "bk_orders bb (best mod 4096) > 0"
    by (auto simp: level_qty_def view_active)
  have "nearest d (\<lambda>i. active (level_qty s) i \<and> i < bucket_count cfg * 4096) best"
    using n level_bound [OF inv] by (auto simp: nearest_def)
  then have "head_opt (side_levels d cfg s) = Some best" unfolding side_levels_def by (simp add: head_dir_list_iff)
  then obtain xs where xs: "side_levels d cfg s = best # xs" by (cases "side_levels d cfg s") auto
  have "xs = dir_list d (filter (\<lambda>i. active (level_qty s) i \<and> farther d i best) [0..<bucket_count cfg * 4096])"
    using dir_list_tail [of d "active (level_qty s)"] xs by (simp add: side_levels_def)
  also have "\<dots> = map (\<lambda>k. best div 4096 * 4096 + k)
       (dir_list d (filter (\<lambda>k. bk_orders bb k > 0 \<and> farther d k (best mod 4096)) [0..<4096])) @ rest_levels d cfg s (best div 4096)"
    by (rule block_split [OF inv bb(1)]) (rule farther_in_block)
  finally show thesis using that bb xs by simp
qed

lemma side_levels_empty: "\<forall>i. \<not> active (level_qty s) i \<Longrightarrow> side_levels d cfg s = []"
  by (cases d) (simp_all add: side_levels_def dir_list_def)

lemma peek_levels_with_qty_eq:
  assumes inv: "side_inv cfg s" and c: "bs_cached s < 0 \<or> best_is d (level_qty s) (bs_cached s)"
  shows "fst (peek_levels_with_qty d cfg s level) = map (level_view cfg s) (take (nat level) (side_levels d cfg s))"
proof (cases "level \<le> 0")
  case True
  then show ?thesis by (simp add: peek_levels_with_qty_def)
next
  case pos: False
  obtain best s1 where b: "best_idx d s = (best, s1)" by fastforce
  have bi: "best_is d (level_qty s) best" and s1: "s1 = s\<lparr>bs_cached := best\<rparr>" using best_idx_spec [OF inv c] b by auto
  show ?thesis
  proof (cases "best < 0")
    case True
    then have "\<forall>i. \<not> active (level_qty s) i" using bi by (auto simp: best_is_def split: if_splits)
    then show ?thesis using True pos b by (simp add: peek_levels_with_qty_def side_levels_empty)
  next
    case False
    then have n: "nearest d (active (level_qty s)) (nat best)" using bi by (auto simp: best_is_def split: if_splits)
    let ?bi = "nat best div 4096" and ?off = "nat best mod 4096" and ?n = "nat level"
    obtain bb where bb: "sview s ?bi = Some bb" "bk_orders bb ?off > 0"
      and sl: "side_levels d cfg s = nat best # map (\<lambda>k. ?bi * 4096 + k)
        (dir_list d (filter (\<lambda>k. bk_orders bb k > 0 \<and> farther d k ?off) [0..<4096])) @ rest_levels d cfg s ?bi"
      by (rule side_levels_best [OF inv n])
    let ?L = "map (\<lambda>k. ?bi * 4096 + k) (dir_list d (filter (\<lambda>k. bk_orders bb k > 0 \<and> farther d k ?off) [0..<4096]))"
    obtain q where q: "bs_buckets s ! ?bi = Some q" "pool_get (bs_pool s) q = bb" using bb(1) by (auto simp: bview_def split: if_splits)
    have v: "level_view cfg s (nat best) = \<lparr>lv_idx = nat best, lv_qty_raw = bk_orders bb ?off, lv_price_raw = index_to_price cfg best\<rparr>"
      using False bb level_in_bucket [OF bb(1), of ?off] by (simp add: level_view_def)
    have si1: "side_inv cfg s1" using inv s1 by simp
    have bi_lt: "?bi < bucket_count cfg" using sview_lt [OF inv] bb(1) by auto
    have vw: "level_view cfg s1 = level_view cfg s" "rest_levels d cfg s1 ?bi = rest_levels d cfg s ?bi"
      using s1 by (auto simp: level_view_def rest_levels_def fun_eq_iff)
    show ?thesis
    proof (cases "?n \<le> 1")
      case True
      then have "?n = 1" using pos by simp
      then show ?thesis using pos b False q bb(2) v s1 sl
        by (simp add: peek_levels_with_qty_def Let_def kBucketSize_def nat_and_4095)
    next
      case big: False
      let ?o0 = "[level_view cfg s (nat best)]"
      have o1: "consume_levels_in_bucket d cfg bb ?bi ?off ?n ?o0 = ?o0 @ take (?n - 1) (map (level_view cfg s) ?L)"
        using consume_levels_spec [OF inv bb(1), of ?off ?o0 ?n d] big by simp
      have "fst (peek_levels_with_qty d cfg s level) = peek_loop d cfg s1 ?n ?bi (?o0 @ take (?n - 1) (map (level_view cfg s) ?L))"
        using pos b False q bb(2) v s1 big o1 by (simp add: peek_levels_with_qty_def Let_def kBucketSize_def nat_and_4095)
      also have "\<dots> = map (level_view cfg s) (take ?n (nat best # ?L @ rest_levels d cfg s ?bi))"
        using big unfolding peek_loop_spec [OF si1 bi_lt] vw
        by (cases ?n) (auto simp: take_map [symmetric] min_def)
      finally show ?thesis unfolding sl .
    qed
  qed
qed

lemma next_active_head:
  assumes inv: "side_inv cfg s" and st: "start < bucket_count cfg * 4096"
  shows "next_active d cfg s start =
    (case head_opt (dir_list d (filter (\<lambda>i. active (level_qty s) i \<and> farther d i start) [0..<bucket_count cfg * 4096]))
     of Some r \<Rightarrow> int r | None \<Rightarrow> - 1)"
proof -
  let ?A = "\<lambda>i. active (level_qty s) i \<and> farther d i start" and ?N = "bucket_count cfg * 4096"
  have bd: "nearest d ?A r \<longleftrightarrow> nearest d (\<lambda>i. ?A i \<and> i < ?N) r" for r
    using level_bound [OF inv] by (auto simp: nearest_def)
  note na = next_active_spec [OF inv st, of d]
  show ?thesis
  proof (cases "\<exists>i. ?A i")
    case True
    then have r: "0 \<le> next_active d cfg s start" "nearest d ?A (nat (next_active d cfg s start))" using na by auto
    have "head_opt (dir_list d (filter ?A [0..<?N])) = Some (nat (next_active d cfg s start))"
      unfolding head_dir_list_iff using r(2) bd by simp
    then show ?thesis using r(1) by simp
  next
    case False
    then have "head_opt (dir_list d (filter ?A [0..<?N])) = None" unfolding head_dir_list_None by blast
    then show ?thesis using na False by auto
  qed
qed

lemma peek_more_eq:
  assumes inv: "side_inv cfg s" and st: "start < bucket_count cfg * 4096"
  shows "peek_more d cfg s n start
    = take n (dir_list d (filter (\<lambda>i. active (level_qty s) i \<and> farther d i start) [0..<bucket_count cfg * 4096]))"
  using st
proof (induction n arbitrary: start)
  case (Suc n)
  let ?l = "dir_list d (filter (\<lambda>i. active (level_qty s) i \<and> farther d i start) [0..<bucket_count cfg * 4096])"
  show ?case
  proof (cases ?l)
    case Nil
    then show ?thesis using next_active_head [OF inv Suc.prems, of d] by simp
  next
    case (Cons r rs)
    have "r \<in> set ?l" unfolding Cons by simp
    then have r: "r < bucket_count cfg * 4096" "farther d r start" by auto
    have "rs = dir_list d (filter (\<lambda>i. (active (level_qty s) i \<and> farther d i start) \<and> farther d i r) [0..<bucket_count cfg * 4096])"
      using dir_list_tail [OF Cons] by simp
    also have "\<dots> = dir_list d (filter (\<lambda>i. active (level_qty s) i \<and> farther d i r) [0..<bucket_count cfg * 4096])"
      using r(2) farther_trans by (metis (mono_tags, lifting))
    finally show ?thesis using next_active_head [OF inv Suc.prems, of d] Suc.IH [OF r(1)] Cons by simp
  qed
qed simp

lemma peek_levels_eq:
  assumes inv: "side_inv cfg s" and c: "bs_cached s < 0 \<or> best_is d (level_qty s) (bs_cached s)"
  shows "fst (peek_levels d cfg s level) = take (max 1 level) (side_levels d cfg s)"
proof -
  obtain best s1 where b: "best_idx d s = (best, s1)" by fastforce
  have bi: "best_is d (level_qty s) best" and s1: "s1 = s\<lparr>bs_cached := best\<rparr>" using best_idx_spec [OF inv c] b by auto
  show ?thesis
  proof (cases "best < 0")
    case True
    then have "\<forall>i. \<not> active (level_qty s) i" using bi by (auto simp: best_is_def split: if_splits)
    then show ?thesis using True b by (simp add: peek_levels_def side_levels_empty)
  next
    case False
    then have n: "nearest d (active (level_qty s)) (nat best)" using bi by (auto simp: best_is_def split: if_splits)
    then have nb: "nat best < bucket_count cfg * 4096" using level_bound [OF inv] by (simp add: nearest_def)
    have "head_opt (side_levels d cfg s) = Some (nat best)"
      unfolding side_levels_def head_dir_list_iff using n level_bound [OF inv] by (auto simp: nearest_def)
    then obtain xs where xs: "side_levels d cfg s = nat best # xs" by (cases "side_levels d cfg s") auto
    have "xs = dir_list d (filter (\<lambda>i. active (level_qty s) i \<and> farther d i (nat best)) [0..<bucket_count cfg * 4096])"
      using dir_list_tail [of d "active (level_qty s)"] xs by (simp add: side_levels_def)
    then show ?thesis using False b s1 inv xs peek_more_eq [of cfg s1 "nat best" d "level - 1"] nb
      by (cases level) (auto simp: peek_levels_def max_def)
  qed
qed

subsection \<open>Quantities only\<close>

abbreviation pair_view :: "bucket_side \<Rightarrow> nat \<Rightarrow> int64 \<times> nat" where
  "pair_view s i \<equiv> (level_qty s i, i)"

lemma push_if_active_pos:
  assumes "sview s b = Some bb" "bk_orders bb k > 0" "k < 4096"
  shows "push_if_active bb b n k acc = (acc @ [pair_view s (b * 4096 + k)], n \<le> length acc + 1)"
  using assms level_in_bucket [OF assms(1,3)] by (simp add: push_if_active_def Let_def kBucketSize_def)

lemma consume_bucket_side_spec:
  fixes d :: search_dir
  assumes inv: "side_inv cfg s" and bb: "sview s b = Some bb" and off: "off < 4096" and acc: "length acc < n"
  defines "L \<equiv> map (\<lambda>k. b * 4096 + k) (dir_list d (filter (\<lambda>k. bk_orders bb k > 0 \<and> farther d k off) [0..<4096]))"
  shows "consume_bucket_side d (Some bb) b off n acc
    = (acc @ take (n - length acc) (map (pair_view s) L), n \<le> length acc + length L)"
proof -
  have ok: "bucket_ok bb" using sview_bucket [OF inv bb] by simp
  have fl: "(case d of SearchHighest \<Rightarrow> rev [0..<off div 64] | SearchLowest \<Rightarrow> [off div 64 + 1..<64]) = following d (off div 64) 64"
    by (simp add: following_def)
  show ?thesis
    unfolding consume_bucket_side_def consume_first_word_def consume_following_words_def option.case Let_def
      first_mask_eq idx_simps kBucketBitmapWords_eq fl
    by (subst scan_bucket_beyond [OF ok off acc push_if_active_pos [OF bb]]) (simp_all add: L_def comp_def)
qed

lemma peek_qty_loop_spec:
  "side_inv cfg s \<Longrightarrow> b < bucket_count cfg \<Longrightarrow>
     peek_qty_loop d s n b acc = acc @ take (n - length acc) (map (pair_view s) (rest_levels d cfg s b))"
proof (induction d s n b acc rule: peek_qty_loop.induct)
  case (1 d s n b acc)
  let ?j = "jump_next_bucket_impl d (bs_summary s) b"
  note inv = "1.prems"(1)
  note jr = jump_rest [OF "1.prems", of d]
  show ?case
  proof (cases "n \<le> length acc \<or> ?j < 0")
    case True
    then show ?thesis using jr by (subst peek_qty_loop.simps) auto
  next
    case False
    then obtain bb where bb: "sview s (nat ?j) = Some bb"
      and rl: "rest_levels d cfg s b = map (\<lambda>k. nat ?j * 4096 + k) (dir_list d (filter (\<lambda>k. bk_orders bb k > 0) [0..<4096]))
                 @ rest_levels d cfg s (nat ?j)"
      using jr by (auto split: if_splits)
    let ?B = "dir_list d (filter (\<lambda>k. bk_orders bb k > 0) [0..<4096])"
    let ?L = "map (\<lambda>k. nat ?j * 4096 + k) ?B"
    have acc: "length acc < n" and ok: "bucket_ok bb" using False sview_bucket [OF inv bb] by simp_all
    obtain q where q: "bs_buckets s ! nat ?j = Some q" "pool_get (bs_pool s) q = bb" using bb by (auto simp: bview_def split: if_splits)
    have "scan_words d (bk_bitmap bb) (\<lambda>a. n \<le> length a) (push_if_active bb (nat ?j) n) (dir_list d [0..<64]) acc
      = (acc @ take (n - length acc) (map (\<lambda>k. pair_view s (nat ?j * 4096 + k)) ?B), n \<le> length acc + length ?B)"
      by (rule scan_bucket_full [OF ok acc push_if_active_pos [OF bb]])
    then have cf: "(case bs_buckets s ! nat ?j of None \<Rightarrow> (acc, False)
        | Some ptr \<Rightarrow> let bk = pool_get (bs_pool s) ptr in scan_words d (bk_bitmap bk) (\<lambda>a. n \<le> length a)
            (push_if_active bk (nat ?j) n) (dir_list d [0..<kBucketBitmapWords]) acc)
      = (acc @ take (n - length acc) (map (pair_view s) ?L), n \<le> length acc + length ?L)"
      using q by (simp add: comp_def)
    have nb: "nat ?j < bucket_count cfg" using sview_lt [OF inv] bb by auto
    show ?thesis
    proof (cases "n \<le> length acc + length ?L")
      case True
      then have "take (n - length acc) (map (pair_view s) (?L @ xs)) = take (n - length acc) (map (pair_view s) ?L)" for xs by simp
      then show ?thesis unfolding rl using True False cf by (subst peek_qty_loop.simps) (simp add: Let_def)
    next
      case notfull: False
      then have t: "take (n - length acc) (map (pair_view s) ?L) = map (pair_view s) ?L" by simp
      note c = cf [unfolded t]
      have "peek_qty_loop d s n b acc = peek_qty_loop d s n (nat ?j) (acc @ map (pair_view s) ?L)"
        using False c notfull by (subst peek_qty_loop.simps) (simp add: Let_def)
      also have "\<dots> = (acc @ map (pair_view s) ?L) @ take (n - length (acc @ map (pair_view s) ?L))
          (map (pair_view s) (rest_levels d cfg s (nat ?j)))"
        using "1.IH" [OF _ refl _ c [symmetric] _ inv nb] False notfull by simp
      finally show ?thesis unfolding rl using notfull by simp
    qed
  qed
qed

lemma peek_qty_eq:
  assumes inv: "side_inv cfg s" and c: "bs_cached s < 0 \<or> best_is d (level_qty s) (bs_cached s)"
  shows "fst (peek_qty d s lvl sz) =
    (let want = min lvl (int sz); res = map (pair_view s) (take (nat want) (side_levels d cfg s))
     in (if want \<le> 0 \<or> side_levels d cfg s = [] then - 1 else int (length res), res))"
proof (cases "min lvl (int sz) \<le> 0")
  case True
  then show ?thesis by (simp add: peek_qty_def Let_def)
next
  case pos: False
  obtain best s1 where b: "best_idx d s = (best, s1)" by fastforce
  have bi: "best_is d (level_qty s) best" and s1: "s1 = s\<lparr>bs_cached := best\<rparr>" using best_idx_spec [OF inv c] b by auto
  show ?thesis
  proof (cases "best < 0")
    case True
    then have "\<forall>i. \<not> active (level_qty s) i" using bi by (auto simp: best_is_def split: if_splits)
    then show ?thesis using True pos b by (simp add: peek_qty_def side_levels_empty Let_def)
  next
    case False
    then have nb: "nearest d (active (level_qty s)) (nat best)" using bi by (auto simp: best_is_def split: if_splits)
    let ?bi = "nat best div 4096" and ?off = "nat best mod 4096"
    define n where "n = nat (min lvl (int sz))"
    have w: "min lvl (int sz) = int n" and np: "0 < n" using pos by (auto simp: n_def min_le_iff_disj)
    obtain bb where bb: "sview s ?bi = Some bb" "bk_orders bb ?off > 0"
      and sl: "side_levels d cfg s = nat best # map (\<lambda>k. ?bi * 4096 + k)
        (dir_list d (filter (\<lambda>k. bk_orders bb k > 0 \<and> farther d k ?off) [0..<4096])) @ rest_levels d cfg s ?bi"
      by (rule side_levels_best [OF inv nb])
    let ?L = "map (\<lambda>k. ?bi * 4096 + k) (dir_list d (filter (\<lambda>k. bk_orders bb k > 0 \<and> farther d k ?off) [0..<4096]))"
    obtain q where q: "bs_buckets s ! ?bi = Some q" "pool_get (bs_pool s) q = bb" using bb(1) by (auto simp: bview_def split: if_splits)
    have v: "pair_view s (nat best) = (bk_orders bb ?off, nat best)" using bb level_in_bucket [OF bb(1), of ?off] by simp
    have si1: "side_inv cfg s1" and lq: "level_qty s1 = level_qty s" "rest_levels d cfg s1 ?bi = rest_levels d cfg s ?bi"
      using inv s1 by (auto simp: rest_levels_def)
    have bi_lt: "?bi < bucket_count cfg" using sview_lt [OF inv] bb(1) by auto
    let ?o0 = "[pair_view s (nat best)]" and ?rs = "rest_levels d cfg s ?bi"
    have "snd (fst (peek_qty d s lvl sz)) = map (pair_view s) (take n (nat best # ?L @ ?rs))
        \<and> fst (fst (peek_qty d s lvl sz)) = int (length (map (pair_view s) (take n (nat best # ?L @ ?rs))))"
    proof (cases "n \<le> 1")
      case True
      then have "n = 1" using np by simp
      then show ?thesis using pos b False q bb(2) v s1
        by (simp add: peek_qty_def w Let_def kBucketSize_def nat_and_4095)
    next
      case big: False
      have o1: "consume_bucket_side d (Some bb) ?bi ?off n ?o0 = (?o0 @ take (n - 1) (map (pair_view s) ?L), n \<le> 1 + length ?L)"
        using consume_bucket_side_spec [OF inv bb(1), of ?off ?o0 n d] big by simp
      have lp: "peek_qty_loop d s1 n ?bi acc = acc @ take (n - length acc) (map (pair_view s) ?rs)" for acc
        using peek_qty_loop_spec [OF si1 bi_lt, of d n acc] lq by simp
      let ?res = "if n \<le> 1 + length ?L then ?o0 @ take (n - 1) (map (pair_view s) ?L)
                  else peek_qty_loop d s1 n ?bi (?o0 @ take (n - 1) (map (pair_view s) ?L))"
      have "fst (peek_qty d s lvl sz) = (int (length ?res), ?res)"
        using pos b False q bb(2) v s1 big o1 by (simp add: peek_qty_def w Let_def kBucketSize_def nat_and_4095)
      moreover have "?res = map (pair_view s) (take n (nat best # ?L @ ?rs))"
        unfolding lp using big np by (cases n) (auto simp: take_map [symmetric] min_def)
      ultimately show ?thesis by simp
    qed
    then show ?thesis using np sl by (simp add: w Let_def prod_eq_iff)
  qed
qed

subsection \<open>Depth queries after a feed\<close>

definition side_of :: "search_dir \<Rightarrow> bucket_book \<Rightarrow> bucket_side" where
  "side_of d b = (case d of SearchHighest \<Rightarrow> bb_bid b | SearchLowest \<Rightarrow> bb_ask b)"

definition side_spec :: "search_dir \<Rightarrow> level_map \<times> level_map \<Rightarrow> level_map" where
  "side_spec d bk = (case d of SearchHighest \<Rightarrow> fst bk | SearchLowest \<Rightarrow> snd bk)"

lemma spec_apply_bounded:
  assumes "config_ok cfg" "int (num_levels cfg) = max_price_int cfg - min_price_int cfg + 1"
    and "\<forall>i. active (side_spec d bk) i \<longrightarrow> i < num_levels cfg"
  shows "\<forall>i. active (side_spec d (foldl (spec_apply cfg) bk mds)) i \<longrightarrow> i < num_levels cfg"
  using assms(3)
proof (induction mds arbitrary: bk)
  case (Cons md mds)
  have "\<forall>i. active (side_spec d (spec_apply cfg bk md)) i \<longrightarrow> i < num_levels cfg"
    using Cons.prems assms(1,2)
    by (auto simp: spec_apply_def side_spec_def active_def set_level_def out_of_range_def config_ok_def Let_def
        split: prod.splits search_dir.splits if_splits MarketUpdateType.splits Side.splits)
  then show ?case using Cons.IH by simp
qed simp

lemma book_after_feed:
  fixes d :: search_dir
  assumes "0 \<le> lo" "lo \<le> hi" "hi < 2 ^ 31" and fd: "list_all (feed_ok (from_ini False lo hi)) mds"
    and run: "run_feed (fresh_book lo hi) mds = Some b"
  defines "lv \<equiv> side_spec d (foldl (spec_apply (from_ini False lo hi)) (\<lambda>_. 0, \<lambda>_. 0) mds)"
  shows "side_inv (from_ini False lo hi) (side_of d b)" "best_is d (level_qty (side_of d b)) (bs_cached (side_of d b))"
    "level_qty (side_of d b) = lv" "bb_config b = from_ini False lo hi"
    "side_levels d (from_ini False lo hi) (side_of d b) = dir_list d (filter (active lv) [0..<nat (hi - lo + 1)])"
proof -
  let ?c = "from_ini False lo hi"
  note f = fresh_book_inv [OF assms(1-3)] and sh = from_ini_shape [OF assms(1-3)]
  have r: "book_inv b \<and> bb_config b = ?c \<and> foldl (spec_apply ?c) (\<lambda>_. 0, \<lambda>_. 0) mds = (bid_levels b, ask_levels b)"
    using run_feed_spec [OF f(1) _ run] f(2-4) fd by simp
  then show lq: "level_qty (side_of d b) = lv" and "bb_config b = ?c"
    by (auto simp: lv_def side_spec_def side_of_def bid_levels_def ask_levels_def split: search_dir.splits)
  show "side_inv ?c (side_of d b)" "best_is d (level_qty (side_of d b)) (bs_cached (side_of d b))"
    using r by (auto simp: book_inv_def quote_inv_def side_of_def bid_quote_def ask_quote_def split: search_dir.splits)
  have b: "\<forall>i. active lv i \<longrightarrow> i < num_levels ?c" unfolding lv_def
    by (rule spec_apply_bounded) (use sh in \<open>auto simp: side_spec_def active_def split: search_dir.splits\<close>)
  have nl: "num_levels ?c = nat (hi - lo + 1)" using sh(3) by simp
  have "filter (active lv) [0..<num_levels ?c + k] = filter (active lv) [0..<num_levels ?c]" for k
    using b upt_add_eq_append [of 0 "num_levels ?c" k] by (auto simp: filter_empty_conv)
  from this [of "bucket_count ?c * 4096 - num_levels ?c"]
  show "side_levels d ?c (side_of d b) = dir_list d (filter (active lv) [0..<nat (hi - lo + 1)])"
    using sh(2) unfolding nl [symmetric] side_levels_def lq by simp
qed



text \<open>
  \<open>next_active_idx\<close> after any feed, from any level of the book: the nearest active level strictly
  farther from the market than the start level (lower for bids, higher for asks), and -1 when there is none.
\<close>

lemma next_active_idx_correct:
  assumes "0 \<le> lo" and "lo \<le> hi" and "hi < 2 ^ 31" and "list_all (feed_ok (from_ini False lo hi)) mds"
    and "run_feed (fresh_book lo hi) mds = Some b" and "start \<le> nat (hi - lo)"
    and "lv = foldl (spec_apply (from_ini False lo hi)) (\<lambda>_. 0, \<lambda>_. 0) mds"
  shows "next_active_idx b True start = (case head_opt (rev (filter (active (fst lv)) [0..<start])) of Some r \<Rightarrow> int r | None \<Rightarrow> - 1)
     \<and> next_active_idx b False start
         = (case head_opt (filter (active (snd lv)) [Suc start..<nat (hi - lo + 1)]) of Some r \<Rightarrow> int r | None \<Rightarrow> - 1)"
proof -
  let ?c = "from_ini False lo hi"
  note sh = from_ini_shape [OF assms(1-3)]
  have st: "start < bucket_count ?c * 4096" using assms(6) sh(2,3) assms(2) by linarith
  note ab = book_after_feed(1-3,5) [OF assms(1-5), where d = SearchHighest]
    and aa = book_after_feed(1-3,5) [OF assms(1-5), where d = SearchLowest] and cf = book_after_feed(4) [OF assms(1-5)]
  have eq: "filter (\<lambda>i. P i \<and> i < start) [0..<bucket_count ?c * 4096] = filter P [0..<start]"
    "filter (\<lambda>i. P i \<and> start < i) xs = filter (\<lambda>i. start < i) (filter P xs)" for P and xs :: "nat list"
    using upt_add_eq_append [of 0 start "bucket_count ?c * 4096 - start"] st by (auto simp: filter_empty_conv conj_commute intro: filter_cong)
  have hi: "filter (\<lambda>i. start < i) (filter P [0..<nat (hi - lo + 1)]) = filter P [Suc start..<nat (hi - lo + 1)]" for P
    using upt_add_eq_append [of 0 "Suc start" "nat (hi - lo + 1) - Suc start"] assms(2,6)
    by (auto simp: filter_empty_conv conj_commute intro: filter_cong)
  have f: "farther SearchHighest i start \<longleftrightarrow> i < start" "farther SearchLowest i start \<longleftrightarrow> start < i" for i by simp_all
  have sd: "side_spec SearchHighest lv = fst lv" "side_spec SearchLowest lv = snd lv"
    "side_of SearchHighest b = bb_bid b" "side_of SearchLowest b = bb_ask b" by (simp_all add: side_spec_def side_of_def)
  note ab' = ab [folded assms(7), unfolded sd] and aa' = aa [folded assms(7), unfolded sd]
  have "next_active_idx b True start = (case head_opt (rev (filter (active (fst lv)) [0..<start])) of Some r \<Rightarrow> int r | None \<Rightarrow> - 1)"
    unfolding next_active_idx_def if_True cf next_active_head [OF ab'(1) st] f eq(1) ab'(3) dir_list_def search_dir.case by (rule refl)
  moreover have "next_active_idx b False start
      = (case head_opt (filter (active (snd lv)) [Suc start..<nat (hi - lo + 1)]) of Some r \<Rightarrow> int r | None \<Rightarrow> - 1)"
    unfolding next_active_idx_def if_False cf next_active_head [OF aa'(1) st] f eq(2)
      aa'(4) [unfolded side_levels_def dir_list_def search_dir.case] dir_list_def search_dir.case hi by (rule refl)
  ultimately show ?thesis ..
qed

end
