(* ===== verification/Flat_Book.thy ===== *)
theory Flat_Book
  imports Book_Common
begin

text \<open>
  The flat order book (\<^verbatim>\<open>hft/src/order_book.hpp\<close>, \<^verbatim>\<open>MarketOrderBook\<close> with \<^verbatim>\<open>USE_FLAT_ORDERBOOK\<close>): one quantity per
  price level, a bitmap of the active levels and a summary bitmap of its non-zero words.

  A \<open>flat_side\<close> is the bid or the ask half. The methods that may move the cached best index are
  \<^verbatim>\<open>const\<close> with a \<^verbatim>\<open>mutable\<close> member in the source and return the new side here. A shift of a 64-bit word by 64
  has no defined result in C++; the queries that can run into it return an option and \<^term>\<open>None\<close> is that case.
\<close>

record flat_side =
  fs_orders :: "int64 list"
  fs_bitmap :: "u64 list"
  fs_summary :: "u64 list"
  fs_cached :: int

record flat_book =
  fb_config :: OrderBookConfig
  fb_bid :: flat_side
  fb_ask :: flat_side
  fb_bbo :: BBO
  fb_engine :: bool

definition flat_side_new :: "OrderBookConfig \<Rightarrow> flat_side" where
  "flat_side_new cfg =
     \<lparr>fs_orders = replicate (num_levels cfg) 0, fs_bitmap = replicate (bitmap_words cfg) 0,
      fs_summary = replicate ((bitmap_words cfg + 64 - 1) div 64) 0, fs_cached = - 1\<rparr>"

definition flat_book_new :: "OrderBookConfig \<Rightarrow> flat_book" where
  "flat_book_new cfg =
     \<lparr>fb_config = cfg, fb_bid = flat_side_new cfg, fb_ask = flat_side_new cfg, fb_bbo = BBO_default, fb_engine = False\<rparr>"

definition flat_update_side :: "flat_side \<Rightarrow> nat \<Rightarrow> int64 \<Rightarrow> flat_side" where
  "flat_update_side s idx qty =
     (let s0 = s\<lparr>fs_orders := (fs_orders s)[idx := qty]\<rparr>;
          word = drop_bit 6 idx;
          mask = push_bit (idx AND 63) 1;
          summary_idx = drop_bit 6 word
      in if qty > 0
         then let s1 = (if fs_bitmap s0 ! word = 0
                        then s0\<lparr>fs_summary := (fs_summary s0)[summary_idx := fs_summary s0 ! summary_idx OR push_bit (word AND 63) 1]\<rparr>
                        else s0)
              in s1\<lparr>fs_bitmap := (fs_bitmap s1)[word := fs_bitmap s1 ! word OR mask]\<rparr>
         else let s1 = s0\<lparr>fs_bitmap := (fs_bitmap s0)[word := fs_bitmap s0 ! word AND NOT mask]\<rparr>
              in if fs_bitmap s1 ! word = 0
                 then s1\<lparr>fs_summary := (fs_summary s1)[summary_idx := fs_summary s1 ! summary_idx AND NOT (push_bit (word AND 63) 1)]\<rparr>
                 else s1)"

definition flat_update_bid :: "flat_book \<Rightarrow> nat \<Rightarrow> int64 \<Rightarrow> flat_book" where
  "flat_update_bid b idx qty = b\<lparr>fb_bid := flat_update_side (fb_bid b) idx qty\<rparr>"

definition flat_update_ask :: "flat_book \<Rightarrow> nat \<Rightarrow> int64 \<Rightarrow> flat_book" where
  "flat_update_ask b idx qty = b\<lparr>fb_ask := flat_update_side (fb_ask b) idx qty\<rparr>"

definition flat_idx_valid :: "flat_side \<Rightarrow> int \<Rightarrow> bool" where
  "flat_idx_valid s idx \<longleftrightarrow> idx \<ge> 0 \<and> fs_orders s ! nat idx > 0"

definition flat_search_best :: "search_dir \<Rightarrow> flat_side \<Rightarrow> nat option" where
  "flat_search_best d s =
     first_some (\<lambda>sw. let s_word = fs_summary s ! sw in
        if s_word = 0 then None
        else let word_idx = push_bit 6 sw + find_bit d s_word;
                 word = fs_bitmap s ! word_idx
             in Some (push_bit 6 word_idx + find_bit d word))
       (dir_list d [0..<length (fs_summary s)])"

definition flat_best_idx :: "search_dir \<Rightarrow> flat_side \<Rightarrow> int \<times> flat_side" where
  "flat_best_idx d s =
     (if fs_cached s \<ge> 0 \<and> fs_orders s ! nat (fs_cached s) > 0 then (fs_cached s, s)
      else case flat_search_best d s of
             Some r \<Rightarrow> (int r, s\<lparr>fs_cached := int r\<rparr>)
           | None \<Rightarrow> (- 1, s\<lparr>fs_cached := - 1\<rparr>))"

definition flat_best_bid_idx :: "flat_book \<Rightarrow> int \<times> flat_side" where
  "flat_best_bid_idx b = flat_best_idx SearchHighest (fb_bid b)"

definition flat_best_ask_idx :: "flat_book \<Rightarrow> int \<times> flat_side" where
  "flat_best_ask_idx b = flat_best_idx SearchLowest (fb_ask b)"

definition flat_best_price :: "search_dir \<Rightarrow> OrderBookConfig \<Rightarrow> flat_side \<Rightarrow> int64 \<times> flat_side" where
  "flat_best_price d cfg s = (case flat_best_idx d s of (idx, s') \<Rightarrow>
     (if idx \<ge> 0 then index_to_price cfg idx else kInvalidValue, s'))"

definition flat_best_qty :: "search_dir \<Rightarrow> flat_side \<Rightarrow> int64 \<times> flat_side" where
  "flat_best_qty d s = (case flat_best_idx d s of (idx, s') \<Rightarrow>
     (if idx < 0 then kInvalidValue else fs_orders s' ! nat idx, s'))"

type_synonym flat_quote = "flat_side \<times> int64 \<times> int64"

definition flat_requote :: "search_dir \<Rightarrow> OrderBookConfig \<Rightarrow> flat_side \<Rightarrow> flat_quote" where
  "flat_requote d cfg s =
     (let (price', s1) = flat_best_price d cfg s;
          (qty', s2) = flat_best_qty d s1
      in (s2, price', qty'))"

definition flat_add_side :: "search_dir \<Rightarrow> OrderBookConfig \<Rightarrow> nat \<Rightarrow> int64 \<Rightarrow> flat_quote \<Rightarrow> flat_quote" where
  "flat_add_side d cfg idx qty q =
     (case q of (s, price, v) \<Rightarrow>
      let s1 = flat_update_side s idx qty;
          s2 = (if fs_cached s1 < 0 \<or> farther d (nat (fs_cached s1)) idx then s1\<lparr>fs_cached := int idx\<rparr> else s1)
      in if flat_idx_valid s2 (fs_cached s2)
         then (s2, index_to_price cfg (fs_cached s2), fs_orders s2 ! nat (fs_cached s2))
         else flat_requote d cfg s2)"

definition flat_delete_side :: "search_dir \<Rightarrow> OrderBookConfig \<Rightarrow> nat \<Rightarrow> flat_quote \<Rightarrow> flat_quote" where
  "flat_delete_side d cfg idx q =
     (case q of (s, price, v) \<Rightarrow>
      let s1 = flat_update_side s idx 0
      in if int idx \<noteq> fs_cached s1 \<and> flat_idx_valid s1 (fs_cached s1) then (s1, price, v)
         else flat_requote d cfg s1)"

definition flat_bid_quote :: "flat_book \<Rightarrow> flat_quote" where
  "flat_bid_quote b = (fb_bid b, bid_price (fb_bbo b), bid_qty (fb_bbo b))"

definition flat_ask_quote :: "flat_book \<Rightarrow> flat_quote" where
  "flat_ask_quote b = (fb_ask b, ask_price (fb_bbo b), ask_qty (fb_bbo b))"

definition flat_set_bid :: "flat_book \<Rightarrow> flat_quote \<Rightarrow> flat_book" where
  "flat_set_bid b q = (case q of (s, p, v) \<Rightarrow>
     b\<lparr>fb_bid := s, fb_bbo := (fb_bbo b)\<lparr>bid_price := p, bid_qty := v\<rparr>\<rparr>)"

definition flat_set_ask :: "flat_book \<Rightarrow> flat_quote \<Rightarrow> flat_book" where
  "flat_set_ask b q = (case q of (s, p, v) \<Rightarrow>
     b\<lparr>fb_ask := s, fb_bbo := (fb_bbo b)\<lparr>ask_price := p, ask_qty := v\<rparr>\<rparr>)"

definition flat_add_order :: "flat_book \<Rightarrow> MarketData \<Rightarrow> nat \<Rightarrow> int64 \<Rightarrow> flat_book" where
  "flat_add_order b md idx qty =
     (if md_side md = kBuy
      then flat_set_bid b (flat_add_side SearchHighest (fb_config b) idx qty (flat_bid_quote b))
      else flat_set_ask b (flat_add_side SearchLowest (fb_config b) idx qty (flat_ask_quote b)))"

definition flat_delete_order :: "flat_book \<Rightarrow> MarketData \<Rightarrow> nat \<Rightarrow> flat_book" where
  "flat_delete_order b md idx =
     (if md_side md = kBuy
      then flat_set_bid b (flat_delete_side SearchHighest (fb_config b) idx (flat_bid_quote b))
      else flat_set_ask b (flat_delete_side SearchLowest (fb_config b) idx (flat_ask_quote b)))"

definition flat_clear_side :: "flat_side \<Rightarrow> flat_side" where
  "flat_clear_side s =
     s\<lparr>fs_orders := map (\<lambda>_. 0) (fs_orders s), fs_bitmap := map (\<lambda>_. 0) (fs_bitmap s), fs_summary := map (\<lambda>_. 0) (fs_summary s)\<rparr>"

definition flat_clear_book :: "flat_book \<Rightarrow> flat_book" where
  "flat_clear_book b = b\<lparr>fb_bid := flat_clear_side (fb_bid b), fb_ask := flat_clear_side (fb_ask b), fb_bbo := BBO_default\<rparr>"

definition flat_on_market_data_updated :: "flat_book \<Rightarrow> MarketData \<Rightarrow> flat_book \<times> book_event list" where
  "flat_on_market_data_updated b md =
     (if out_of_range (fb_config b) md then (b, [])
      else
        let idx = nat (price_to_index (fb_config b) (md_price md)); qty = md_qty md;
            notify = (\<lambda>b'. (b', if fb_engine b' then [OnOrderbookUpdated (md_ticker_id md) (md_price md) (md_side md)] else []))
        in case md_type md of
             Upd_kInvalid \<Rightarrow> notify b
           | kClear \<Rightarrow> (flat_clear_book b, [])
           | kAdd \<Rightarrow> notify (flat_add_order b md idx qty)
           | kModify \<Rightarrow> notify (flat_add_order b md idx qty)
           | kCancel \<Rightarrow> notify (flat_delete_order b md idx)
           | kTrade \<Rightarrow> (b, if fb_engine b then [OnTradeUpdated md] else [])
           | kBookTicker \<Rightarrow> (b, if fb_engine b then [OnBookTickerUpdated md] else []))"

subsection \<open>Queries\<close>

definition shl64 :: "u64 \<Rightarrow> nat \<Rightarrow> u64 option" where
  "shl64 w n = (if n < 64 then Some (push_bit n w) else None)"

definition flat_next_active_bid :: "OrderBookConfig \<Rightarrow> flat_side \<Rightarrow> nat \<Rightarrow> int option" where
  "flat_next_active_bid cfg s start_idx =
     (if start_idx = 0 then Some (- 1)
      else
        let word_idx = drop_bit 6 (start_idx - 1)
        in if word_idx \<ge> bitmap_words cfg then Some (- 1)
           else
             let bit_pos = (start_idx - 1) AND 63
             in map_option (\<lambda>shifted.
                  let mask = shifted - 1; word = fs_bitmap s ! word_idx AND mask
                  in if word \<noteq> 0 then int (push_bit 6 word_idx + (kWordMask - countl_zero word))
                     else case first_some (\<lambda>wi. let word = fs_bitmap s ! wi in
                                 if word \<noteq> 0 then Some (push_bit 6 wi + (kWordMask - countl_zero word)) else None)
                                 (rev [0..<word_idx]) of
                            Some r \<Rightarrow> int r
                          | None \<Rightarrow> - 1)
                  (shl64 1 (bit_pos + 1)))"

definition flat_next_active_ask :: "OrderBookConfig \<Rightarrow> flat_side \<Rightarrow> nat \<Rightarrow> int option" where
  "flat_next_active_ask cfg s start_idx =
     (if start_idx + 1 \<ge> num_levels cfg then Some (- 1)
      else
        let word_idx = drop_bit 6 (start_idx + 1)
        in if word_idx \<ge> bitmap_words cfg then Some (- 1)
           else
             let bit_pos = (start_idx + 1) AND 63
             in map_option (\<lambda>shifted.
                  let mask = NOT (shifted - 1); word = fs_bitmap s ! word_idx AND mask
                  in if word \<noteq> 0 then int (push_bit 6 word_idx + countr_zero word)
                     else case first_some (\<lambda>wi. let word = fs_bitmap s ! wi in
                                 if word \<noteq> 0 then Some (push_bit 6 wi + countr_zero word) else None)
                                 [word_idx + 1..<bitmap_words cfg] of
                            Some r \<Rightarrow> int r
                          | None \<Rightarrow> - 1)
                  (shl64 1 bit_pos))"

definition flat_next_active :: "search_dir \<Rightarrow> OrderBookConfig \<Rightarrow> flat_side \<Rightarrow> nat \<Rightarrow> int option" where
  "flat_next_active d cfg s start_idx =
     (case d of SearchHighest \<Rightarrow> flat_next_active_bid cfg s start_idx | SearchLowest \<Rightarrow> flat_next_active_ask cfg s start_idx)"

definition get_qty_at_idx :: "flat_book \<Rightarrow> bool \<Rightarrow> int \<Rightarrow> int64" where
  "get_qty_at_idx b is_bid idx =
     (if idx < 0 \<or> idx \<ge> int (num_levels (fb_config b)) then 0
      else if is_bid then fs_orders (fb_bid b) ! nat idx else fs_orders (fb_ask b) ! nat idx)"

end
