(* ===== verification/Flat_Book_Correct.thy ===== *)
theory Flat_Book_Correct
  imports Flat_Book
begin

text \<open>
  Correctness of the flat order book. \<open>flat_inv\<close> ties the bitmap to the active levels and the summary to the
  non-zero bitmap words; a level write changes one level (\<open>flat_update_spec\<close>), and the two-stage bit search
  finds the best level (\<open>flat_search_best_head\<close>). A side after any add or delete quotes its best level, even
  when the quantity is not positive or the side was cleared before, so the BBO theorem needs no
  assumption on the feed.
\<close>

definition flat_qty :: "flat_side \<Rightarrow> level_map" where
  "flat_qty s i = (if i < length (fs_orders s) then max 0 (fs_orders s ! i) else 0)"

definition flat_inv :: "OrderBookConfig \<Rightarrow> flat_side \<Rightarrow> bool" where
  "flat_inv cfg s \<longleftrightarrow>
     length (fs_orders s) = num_levels cfg \<and> length (fs_bitmap s) = bitmap_words cfg
     \<and> length (fs_summary s) = (bitmap_words cfg + 63) div 64 \<and> num_levels cfg \<le> bitmap_words cfg * 64
     \<and> fs_cached s < int (num_levels cfg)
     \<and> (\<forall>i < bitmap_words cfg * 64. i \<in> bmset (\<lambda>w. fs_bitmap s ! w) \<longleftrightarrow> active (flat_qty s) i)
     \<and> (\<forall>w < length (fs_summary s) * 64. w \<in> bmset (\<lambda>w. fs_summary s ! w) \<longleftrightarrow> w < bitmap_words cfg \<and> fs_bitmap s ! w \<noteq> 0)"

lemma flat_invD:
  assumes "flat_inv cfg s"
  shows "length (fs_orders s) = num_levels cfg" "length (fs_bitmap s) = bitmap_words cfg"
    "length (fs_summary s) = (bitmap_words cfg + 63) div 64" "num_levels cfg \<le> bitmap_words cfg * 64"
    "fs_cached s < int (num_levels cfg)"
    "i < bitmap_words cfg * 64 \<Longrightarrow> i \<in> bmset (\<lambda>w. fs_bitmap s ! w) \<longleftrightarrow> active (flat_qty s) i"
    "w < length (fs_summary s) * 64 \<Longrightarrow> w \<in> bmset (\<lambda>w. fs_summary s ! w) \<longleftrightarrow> w < bitmap_words cfg \<and> fs_bitmap s ! w \<noteq> 0"
  using assms by (auto simp: flat_inv_def)

lemma active_flat: "active (flat_qty s) i \<longleftrightarrow> i < length (fs_orders s) \<and> fs_orders s ! i > 0"
  by (auto simp: active_def flat_qty_def)

lemma flat_qty_cached [simp]: "flat_qty (s\<lparr>fs_cached := c\<rparr>) = flat_qty s"
  by (rule ext) (simp add: flat_qty_def)

lemma flat_side_same: "fs_cached s = c \<Longrightarrow> s\<lparr>fs_cached := c\<rparr> = s"
  by auto

lemma flat_inv_cached: "flat_inv cfg s \<Longrightarrow> c < int (num_levels cfg) \<Longrightarrow> flat_inv cfg (s\<lparr>fs_cached := c\<rparr>)"
  by (simp add: flat_inv_def)

lemma flat_level_bound: "flat_inv cfg s \<Longrightarrow> active (flat_qty s) i \<Longrightarrow> i < num_levels cfg"
  using flat_invD(1) by (auto simp: active_flat)

lemma bmset_zeros: "n \<le> length xs * 64 \<Longrightarrow> i < n \<Longrightarrow> i \<notin> bmset (\<lambda>w. map (\<lambda>_. 0) xs ! w)"
  by (simp add: bmset_def less_mult_imp_div_less)

lemma bmset_replicate_zeros: "i < n * 64 \<Longrightarrow> i \<notin> bmset (\<lambda>w. replicate n 0 ! w)"
  by (simp add: bmset_def less_mult_imp_div_less)

lemma flat_side_new_inv:
  assumes "num_levels cfg \<le> bitmap_words cfg * 64"
  shows "flat_inv cfg (flat_side_new cfg)" "flat_qty (flat_side_new cfg) = (\<lambda>_. 0)" "fs_cached (flat_side_new cfg) = - 1"
  using assms by (auto simp: flat_inv_def flat_side_new_def active_flat bmset_replicate_zeros flat_qty_def)

lemma flat_clear_spec:
  assumes "flat_inv cfg s"
  shows "flat_inv cfg (flat_clear_side s)" "flat_qty (flat_clear_side s) = (\<lambda>_. 0)" "fs_cached (flat_clear_side s) = fs_cached s"
proof -
  note d = flat_invD [OF assms]
  have "i \<notin> bmset (\<lambda>w. map (\<lambda>_. 0) (fs_bitmap s) ! w)" if "i < bitmap_words cfg * 64" for i
    using bmset_zeros [of "bitmap_words cfg * 64" "fs_bitmap s" i] d(2) that by simp
  moreover have "i \<notin> bmset (\<lambda>w. map (\<lambda>_. 0) (fs_summary s) ! w)" if "i < length (fs_summary s) * 64" for i
    using bmset_zeros [of "length (fs_summary s) * 64" "fs_summary s" i] that by simp
  ultimately show "flat_inv cfg (flat_clear_side s)"
    using d(1-5) by (simp add: flat_inv_def flat_clear_side_def active_flat)
qed (auto simp: flat_clear_side_def flat_qty_def)

subsection \<open>Writing a level\<close>

lemma summary_update_ok:
  fixes sm :: "u64 list" and bm bm' :: "nat \<Rightarrow> u64"
  assumes ok: "\<forall>w < length sm * 64. w \<in> bmset (\<lambda>w. sm ! w) \<longleftrightarrow> w < n \<and> bm w \<noteq> 0"
    and n: "n \<le> length sm * 64" and k: "k < n" and other: "\<forall>w. w \<noteq> k \<longrightarrow> bm' w = bm w"
    and sm': "sm' = (if bm' k \<noteq> 0 then if bm k = 0 then sm[k div 64 := put_bit (sm ! (k div 64)) (k mod 64)] else sm
                     else sm[k div 64 := clear_bit (sm ! (k div 64)) (k mod 64)])"
  shows "length sm' = length sm" "\<forall>w < length sm * 64. w \<in> bmset (\<lambda>w. sm' ! w) \<longleftrightarrow> w < n \<and> bm' w \<noteq> 0"
proof -
  show "length sm' = length sm" using sm' by simp
  have kl: "k div 64 < length sm" using k n by (simp add: less_mult_imp_div_less)
  have "bmset (\<lambda>w. sm' ! w) = (if bm' k \<noteq> 0 then if bm k = 0 then insert k (bmset (\<lambda>w. sm ! w)) else bmset (\<lambda>w. sm ! w)
      else bmset (\<lambda>w. sm ! w) - {k})"
    unfolding sm' using bmset_list_put [OF kl] bmset_list_clear [OF kl] by (simp del: push_bit_of_1)
  then show "\<forall>w < length sm * 64. w \<in> bmset (\<lambda>w. sm' ! w) \<longleftrightarrow> w < n \<and> bm' w \<noteq> 0"
    using ok k other by (auto split: if_splits)
qed

lemma put_bit_nonzero: "b < 64 \<Longrightarrow> put_bit w b \<noteq> (0::u64)"
  using bit_put_bit [of b w b] by (metis bit_0_eq bot_apply bot_bool_def)

lemma flat_update_bitmap:
  "fs_bitmap (flat_update_side s idx qty) = (fs_bitmap s)[idx div 64 :=
      if qty > 0 then put_bit (fs_bitmap s ! (idx div 64)) (idx mod 64) else clear_bit (fs_bitmap s ! (idx div 64)) (idx mod 64)]"
  "fs_orders (flat_update_side s idx qty) = (fs_orders s)[idx := qty]"
  "fs_cached (flat_update_side s idx qty) = fs_cached s"
  by (simp_all add: flat_update_side_def Let_def idx_simps del: push_bit_of_1)

lemma flat_update_summary:
  fixes s idx qty
  defines "k \<equiv> idx div 64" and "bm' \<equiv> fs_bitmap (flat_update_side s idx qty)"
  assumes "k < length (fs_bitmap s)"
  shows "fs_summary (flat_update_side s idx qty) =
    (if bm' ! k \<noteq> 0 then if fs_bitmap s ! k = 0 then (fs_summary s)[k div 64 := put_bit (fs_summary s ! (k div 64)) (k mod 64)] else fs_summary s
     else (fs_summary s)[k div 64 := clear_bit (fs_summary s ! (k div 64)) (k mod 64)])"
proof (cases "qty > 0")
  case True
  then have "bm' ! k \<noteq> 0" using put_bit_nonzero [of "idx mod 64" "fs_bitmap s ! k"] assms(3)
    by (simp add: bm'_def flat_update_bitmap k_def del: push_bit_of_1)
  then show ?thesis using True
    by (simp add: flat_update_side_def Let_def idx_simps k_def del: push_bit_of_1)
next
  case False
  have z: "bm' ! k \<noteq> 0 \<Longrightarrow> fs_bitmap s ! k \<noteq> 0" using False assms(3) by (auto simp: bm'_def flat_update_bitmap k_def)
  have b: "bm' ! k = clear_bit (fs_bitmap s ! k) (idx mod 64)"
    using False assms(3) by (simp add: bm'_def flat_update_bitmap k_def del: push_bit_of_1)
  show ?thesis using False z unfolding b
    using assms(3) by (simp add: flat_update_side_def Let_def idx_simps k_def del: push_bit_of_1)
qed

lemma flat_update_spec:
  assumes inv: "flat_inv cfg s" and i: "idx < num_levels cfg"
  shows "flat_inv cfg (flat_update_side s idx qty)" "flat_qty (flat_update_side s idx qty) = set_level (flat_qty s) idx qty"
    "fs_cached (flat_update_side s idx qty) = fs_cached s"
proof -
  note d = flat_invD [OF inv]
  let ?s = "flat_update_side s idx qty" and ?k = "idx div 64"
  have k: "?k < length (fs_bitmap s)" and kw: "?k < bitmap_words cfg" using i d(2,4) by (auto intro: less_mult_imp_div_less)
  show q: "flat_qty ?s = set_level (flat_qty s) idx qty"
    using i d(1) by (auto simp: flat_qty_def flat_update_bitmap set_level_def nth_list_update)
  show "fs_cached ?s = fs_cached s" by (simp add: flat_update_bitmap)
  have bm: "bmset (\<lambda>w. fs_bitmap ?s ! w) = (if qty > 0 then insert idx (bmset (\<lambda>w. fs_bitmap s ! w)) else bmset (\<lambda>w. fs_bitmap s ! w) - {idx})"
    unfolding flat_update_bitmap using bmset_list_put [OF k] bmset_list_clear [OF k] by (simp del: push_bit_of_1)
  have marks: "\<forall>j < bitmap_words cfg * 64. j \<in> bmset (\<lambda>w. fs_bitmap ?s ! w) \<longleftrightarrow> active (flat_qty ?s) j"
    unfolding bm q using d(6) by (auto simp: active_def set_level_def)
  have sok: "\<forall>w < length (fs_summary s) * 64. w \<in> bmset (\<lambda>w. fs_summary s ! w) \<longleftrightarrow> w < bitmap_words cfg \<and> fs_bitmap s ! w \<noteq> 0"
    using d(7) by simp
  have n: "bitmap_words cfg \<le> length (fs_summary s) * 64" using d(3) by linarith
  have other: "\<forall>w. w \<noteq> ?k \<longrightarrow> fs_bitmap ?s ! w = fs_bitmap s ! w" by (simp add: flat_update_bitmap)
  note su = summary_update_ok [OF sok n kw other flat_update_summary [OF k]]
  show "flat_inv cfg ?s" unfolding flat_inv_def using d marks su by (simp add: flat_update_bitmap)
qed

subsection \<open>Searching the best level\<close>

lemma first_some_map: "first_some (\<lambda>x. map_option g (f x)) xs = map_option g (first_some f xs)"
  by (induction xs) (auto split: option.splits)

lemma farther_words:
  assumes "farther d (x div 64) w \<or> x div 64 = w \<and> (x mod 64 = b \<or> farther d (x mod 64) b)" "b < (64::nat)"
  shows "x = w * 64 + b \<or> farther d x (w * 64 + b)"
proof (cases d)
  case SearchHighest
  then show ?thesis using assms by auto (metis add.commute div_mult_mod_eq nat_add_left_cancel_less | linarith)+
next
  case SearchLowest
  then show ?thesis using assms by auto (metis add.commute div_mult_mod_eq nat_add_left_cancel_less | linarith)+
qed

lemma flat_search_eq:
  assumes inv: "flat_inv cfg s"
  shows "flat_search_best d s = map_option (\<lambda>w. w * 64 + find_bit d (fs_bitmap s ! w))
    (head_opt (dir_list d (filter (\<lambda>w. w < bitmap_words cfg \<and> fs_bitmap s ! w \<noteq> 0) [0..<length (fs_summary s) * 64])))"
proof -
  let ?f = "\<lambda>sw. if fs_summary s ! sw \<noteq> 0 then Some (sw * 64 + find_bit d (fs_summary s ! sw)) else None"
  have "flat_search_best d s = map_option (\<lambda>w. w * 64 + find_bit d (fs_bitmap s ! w)) (first_some ?f (dir_list d [0..<length (fs_summary s)]))"
    unfolding flat_search_best_def first_some_map [symmetric]
    by (rule arg_cong [where f = "\<lambda>g. first_some g _"]) (auto simp: Let_def idx_simps)
  also have "first_some ?f (dir_list d [0..<length (fs_summary s)])
    = head_opt (dir_list d (filter (\<lambda>w. w < bitmap_words cfg \<and> fs_bitmap s ! w \<noteq> 0) [0..<length (fs_summary s) * 64]))"
    unfolding search_all using flat_invD(7) [OF inv]
    by (intro arg_cong [where f = "\<lambda>l. head_opt (dir_list d l)"] filter_cong) auto
  finally show ?thesis .
qed

lemma flat_search_Some:
  assumes inv: "flat_inv cfg s" and r: "flat_search_best d s = Some r"
  shows "nearest d (active (flat_qty s)) r"
proof -
  note dd = flat_invD [OF inv]
  let ?bm = "\<lambda>w. fs_bitmap s ! w"
  obtain w where hw: "head_opt (dir_list d (filter (\<lambda>w. w < bitmap_words cfg \<and> ?bm w \<noteq> 0) [0..<length (fs_summary s) * 64])) = Some w"
    and rw: "r = w * 64 + find_bit d (?bm w)"
    using r flat_search_eq [OF inv, of d] by auto
  note w = head_dir_list_nearest [OF hw]
  have wn: "w < bitmap_words cfg" "?bm w \<noteq> 0" using w by (auto simp: nearest_def)
  note fb = find_bit_props [OF wn(2), of d]
  have bnd: "r < bitmap_words cfg * 64" using rw fb(1) wn(1) by linarith
  have "r \<in> bmset ?bm" using fb by (simp add: rw bmset_word nearest_def)
  then have "active (flat_qty s) r" using dd(6) bnd by blast
  moreover have "x = r \<or> farther d x r" if x: "active (flat_qty s) x" for x
  proof -
    have xb: "x < bitmap_words cfg * 64" using flat_level_bound [OF inv x] dd(4) by linarith
    then have "x \<in> bmset ?bm" using dd(6) x by blast
    then have bx: "bit (?bm (x div 64)) (x mod 64)" by (simp add: bmset_def)
    then have "?bm (x div 64) \<noteq> 0" by auto
    moreover have "x div 64 < bitmap_words cfg" using xb by (simp add: less_mult_imp_div_less)
    moreover have "bitmap_words cfg \<le> length (fs_summary s) * 64" using dd(3) by linarith
    ultimately have "x div 64 = w \<or> farther d (x div 64) w" using w by (auto simp: nearest_def)
    moreover have "x div 64 = w \<Longrightarrow> x mod 64 = find_bit d (?bm w) \<or> farther d (x mod 64) (find_bit d (?bm w))"
      using bx fb(2) by (auto simp: nearest_def)
    ultimately show ?thesis unfolding rw using farther_words [OF _ fb(1)] by blast
  qed
  ultimately show ?thesis by (auto simp: nearest_def)
qed

lemma flat_search_None:
  assumes inv: "flat_inv cfg s"
  shows "flat_search_best d s = None \<longleftrightarrow> (\<forall>i. \<not> active (flat_qty s) i)"
proof
  note dd = flat_invD [OF inv]
  assume "flat_search_best d s = None"
  then have z: "\<forall>w < length (fs_summary s) * 64. \<not> (w < bitmap_words cfg \<and> fs_bitmap s ! w \<noteq> 0)"
    unfolding flat_search_eq [OF inv] map_option_is_None head_dir_list_None .
  have "\<not> active (flat_qty s) x" for x
  proof
    assume a: "active (flat_qty s) x"
    have xb: "x < bitmap_words cfg * 64" using flat_level_bound [OF inv a] dd(4) by linarith
    then have "x div 64 < bitmap_words cfg" "x div 64 < length (fs_summary s) * 64"
      using dd(3) by (auto simp: less_mult_imp_div_less)
    then have "fs_bitmap s ! (x div 64) = 0" using z by blast
    moreover have "x \<in> bmset (\<lambda>w. fs_bitmap s ! w)" using dd(6) [OF xb] a by simp
    ultimately show False by (simp add: bmset_def)
  qed
  then show "\<forall>i. \<not> active (flat_qty s) i" by blast
next
  assume n: "\<forall>i. \<not> active (flat_qty s) i"
  show "flat_search_best d s = None"
  proof (cases "flat_search_best d s")
    case (Some r)
    then show ?thesis using flat_search_Some [OF inv Some] n by (simp add: nearest_def)
  qed
qed

text \<open>What the cached index may be when the best index is asked for: unset, inactive, or exact.\<close>

definition cache_ok :: "search_dir \<Rightarrow> level_map \<Rightarrow> int \<Rightarrow> bool" where
  "cache_ok d q c \<longleftrightarrow> c < 0 \<or> \<not> active q (nat c) \<or> nearest d (active q) (nat c)"

lemma flat_best_idx_spec:
  assumes inv: "flat_inv cfg s" and c: "cache_ok d (flat_qty s) (fs_cached s)" and b: "flat_best_idx d s = (idx, s')"
  shows "best_is d (flat_qty s) idx" "s' = s\<lparr>fs_cached := idx\<rparr>" "flat_inv cfg s'"
proof -
  have act: "fs_orders s ! nat (fs_cached s) > 0 \<longleftrightarrow> active (flat_qty s) (nat (fs_cached s))" if "fs_cached s \<ge> 0"
    using that flat_invD(1,5) [OF inv] by (auto simp: active_flat)
  show bi: "best_is d (flat_qty s) idx" and s': "s' = s\<lparr>fs_cached := idx\<rparr>"
    using b c act flat_search_Some [OF inv, of d] flat_search_None [OF inv, of d]
    by (auto simp: flat_best_idx_def cache_ok_def best_is_def split: if_splits option.splits)
  have "idx < int (num_levels cfg)"
    using bi flat_level_bound [OF inv] by (fastforce simp: best_is_def nearest_def split: if_splits)
  then show "flat_inv cfg s'" using s' flat_inv_cached [OF inv] by simp
qed

lemma cache_ok_best: "best_is d q c \<Longrightarrow> cache_ok d q c"
  by (auto simp: best_is_def cache_ok_def split: if_splits)

subsection \<open>Quotes\<close>

definition flat_quote_inv :: "search_dir \<Rightarrow> OrderBookConfig \<Rightarrow> flat_quote \<Rightarrow> bool" where
  "flat_quote_inv d cfg q = (case q of (s, p, v) \<Rightarrow>
     flat_inv cfg s \<and> quote_ok d cfg (flat_qty s) p v
     \<and> (best_is d (flat_qty s) (fs_cached s) \<or> (\<forall>i. \<not> active (flat_qty s) i)))"

lemma quote_of_best:
  assumes "best_is d q idx"
  shows "quote_ok d cfg q (if idx \<ge> 0 then index_to_price cfg idx else kInvalidValue) (if idx < 0 then kInvalidValue else q (nat idx))"
proof (cases "\<exists>i. active q i")
  case True
  then have n: "0 \<le> idx" "nearest d (active q) (nat idx)" using assms by (auto simp: best_is_def)
  then show ?thesis by (simp add: quote_ok_nearest)
next
  case False
  then show ?thesis using assms by (simp add: best_is_empty quote_ok_empty)
qed

lemma flat_requote_spec:
  assumes inv: "flat_inv cfg s" and c: "cache_ok d (flat_qty s) (fs_cached s)"
  shows "flat_quote_inv d cfg (flat_requote d cfg s)" "flat_qty (fst (flat_requote d cfg s)) = flat_qty s"
proof -
  obtain i1 s1 where b1: "flat_best_idx d s = (i1, s1)" by fastforce
  obtain i2 s2 where b2: "flat_best_idx d s1 = (i2, s2)" by fastforce
  note f1 = flat_best_idx_spec [OF inv c b1]
  have q1: "flat_qty s1 = flat_qty s" and c1: "cache_ok d (flat_qty s1) (fs_cached s1)"
    using f1(1,2) by (simp_all add: cache_ok_best)
  note f2 = flat_best_idx_spec [OF f1(3) c1 b2, unfolded q1]
  have i: "i2 = i1" using best_is_unique f1(1) f2(1) by blast
  have q2: "flat_qty s2 = flat_qty s" using f2(2) q1 by simp
  have o: "fs_orders s2 ! nat i1 = flat_qty s (nat i1)" if "i1 \<ge> 0"
  proof -
    have "active (flat_qty s) (nat i1)" using f1(1) that by (auto simp: best_is_def nearest_def split: if_splits)
    then show ?thesis using f1(2) f2(2) by (auto simp: flat_qty_def active_def split: if_splits)
  qed
  have r: "flat_requote d cfg s = (s2, if i1 \<ge> 0 then index_to_price cfg i1 else kInvalidValue, if i1 < 0 then kInvalidValue else flat_qty s (nat i1))"
    using b1 b2 i o by (simp add: flat_requote_def flat_best_price_def flat_best_qty_def)
  show "flat_qty (fst (flat_requote d cfg s)) = flat_qty s" using r q2 by simp
  show "flat_quote_inv d cfg (flat_requote d cfg s)"
    unfolding r flat_quote_inv_def prod.case q2 using f2 i quote_of_best [OF f1(1), of cfg] by simp
qed

lemma cache_after_add:
  assumes b: "best_is d q c \<or> (\<forall>i. \<not> active q i)"
    and c2: "c2 = (if c < 0 \<or> farther d (nat c) idx then int idx else c)"
  shows "cache_ok d (set_level q idx qty) c2"
proof (cases "\<exists>i. active q i")
  case False
  then have "active (set_level q idx qty) i \<longleftrightarrow> i = idx \<and> qty > 0" for i by (auto simp: active_def set_level_def)
  then show ?thesis by (auto simp: cache_ok_def nearest_def)
next
  case True
  then have bi: "best_is d q c" and n: "0 \<le> c" "nearest d (active q) (nat c)" using b by (auto simp: best_is_def)
  have inact: "qty \<le> 0 \<Longrightarrow> \<not> active (set_level q idx qty) idx" by (simp add: active_def set_level_def)
  consider "farther d (nat c) idx" | "nat c = idx" | "farther d idx (nat c)" using farther_total by blast
  then show ?thesis
  proof cases
    case 1
    then show ?thesis using c2 inact nearest_update_better [OF bi, of qty idx] by (cases "qty > 0") (auto simp: cache_ok_def)
  next
    case 2
    then show ?thesis using c2 n inact nearest_update_same [OF n(2), of qty] farther_irrefl [of d idx]
      by (cases "qty > 0") (auto simp: cache_ok_def)
  next
    case 3
    then have "\<not> farther d (nat c) idx" using farther_irrefl farther_trans by blast
    then show ?thesis using c2 n nearest_update_worse [OF n(2) 3, of qty] by (simp add: cache_ok_def)
  qed
qed

lemma best_is_of_nearest: "0 \<le> c \<Longrightarrow> nearest d (active q) (nat c) \<Longrightarrow> best_is d q c"
  by (auto simp: best_is_def nearest_def)

lemma flat_add_side_spec:
  assumes inv: "flat_quote_inv d cfg q" and i: "idx < num_levels cfg"
  shows "flat_quote_inv d cfg (flat_add_side d cfg idx qty q)"
    "flat_qty (fst (flat_add_side d cfg idx qty q)) = set_level (flat_qty (fst q)) idx qty"
proof -
  obtain s p v where q: "q = (s, p, v)" by (cases q)
  have fi: "flat_inv cfg s" using inv by (simp add: q flat_quote_inv_def)
  let ?s1 = "flat_update_side s idx qty" and ?q' = "set_level (flat_qty s) idx qty"
  note u = flat_update_spec [OF fi i, of qty]
  define c2 where "c2 = (if fs_cached s < 0 \<or> farther d (nat (fs_cached s)) idx then int idx else fs_cached s)"
  let ?s2 = "?s1\<lparr>fs_cached := c2\<rparr>"
  have c2: "cache_ok d ?q' c2" by (rule cache_after_add [OF _ c2_def]) (use inv in \<open>auto simp: q flat_quote_inv_def\<close>)
  have s2: "flat_inv cfg ?s2" "flat_qty ?s2 = ?q'" "fs_cached ?s2 = c2"
    using u i flat_invD(5) [OF fi] by (auto simp: c2_def intro: flat_inv_cached)
  have r: "flat_add_side d cfg idx qty q = (if flat_idx_valid ?s2 c2 then (?s2, index_to_price cfg c2, fs_orders ?s2 ! nat c2) else flat_requote d cfg ?s2)"
    using u(3) by (simp add: q flat_add_side_def Let_def c2_def flat_side_same)
  have "flat_quote_inv d cfg (flat_add_side d cfg idx qty q) \<and> flat_qty (fst (flat_add_side d cfg idx qty q)) = ?q'"
  proof (cases "flat_idx_valid ?s2 c2")
    case True
    have c0: "0 \<le> c2" and cl: "nat c2 < length (fs_orders ?s2)"
      using True flat_invD(1,5) [OF s2(1)] by (auto simp: flat_idx_valid_def)
    then have act: "active ?q' (nat c2)" using True s2(2) by (metis active_flat flat_idx_valid_def)
    then have n: "nearest d (active ?q') (nat c2)" using c2 c0 by (auto simp: cache_ok_def)
    have "fs_orders ?s2 ! nat c2 = ?q' (nat c2)" using act cl unfolding s2(2) [symmetric] by (simp add: flat_qty_def active_def)
    then show ?thesis using True r s2 n c0 best_is_of_nearest [OF c0 n]
      by (simp add: flat_quote_inv_def quote_ok_nearest)
  next
    case False
    then show ?thesis using r flat_requote_spec [OF s2(1), of d] c2 s2(2,3) by simp
  qed
  then show "flat_quote_inv d cfg (flat_add_side d cfg idx qty q)"
    "flat_qty (fst (flat_add_side d cfg idx qty q)) = set_level (flat_qty (fst q)) idx qty" by (simp_all add: q)
qed

lemma flat_delete_side_spec:
  assumes inv: "flat_quote_inv d cfg q" and i: "idx < num_levels cfg"
  shows "flat_quote_inv d cfg (flat_delete_side d cfg idx q)"
    "flat_qty (fst (flat_delete_side d cfg idx q)) = set_level (flat_qty (fst q)) idx 0"
proof -
  obtain s p v where q: "q = (s, p, v)" by (cases q)
  have fi: "flat_inv cfg s" and b: "best_is d (flat_qty s) (fs_cached s) \<or> (\<forall>i. \<not> active (flat_qty s) i)"
    and ok: "quote_ok d cfg (flat_qty s) p v" using inv by (simp_all add: q flat_quote_inv_def)
  let ?s1 = "flat_update_side s idx 0" and ?q' = "set_level (flat_qty s) idx 0" and ?c = "fs_cached s"
  note u = flat_update_spec [OF fi i, of 0]
  have r: "flat_delete_side d cfg idx q = (if int idx \<noteq> ?c \<and> flat_idx_valid ?s1 ?c then (?s1, p, v) else flat_requote d cfg ?s1)"
    using u(3) by (simp add: q flat_delete_side_def Let_def)
  have sub: "active ?q' j \<longleftrightarrow> active (flat_qty s) j \<and> j \<noteq> idx" for j by (auto simp: active_def set_level_def)
  have "flat_quote_inv d cfg (flat_delete_side d cfg idx q) \<and> flat_qty (fst (flat_delete_side d cfg idx q)) = ?q'"
  proof (cases "int idx \<noteq> ?c \<and> flat_idx_valid ?s1 ?c")
    case True
    have c0: "0 \<le> ?c" and cl: "nat ?c < length (fs_orders ?s1)"
      using True flat_invD(1) [OF u(1)] flat_invD(5) [OF fi] by (auto simp: flat_idx_valid_def)
    then have act: "active ?q' (nat ?c)" using True u(2) by (metis active_flat flat_idx_valid_def)
    then have "active (flat_qty s) (nat ?c)" using sub by simp
    then have n0: "nearest d (active (flat_qty s)) (nat ?c)" using b by (auto simp: best_is_def split: if_splits)
    then have n: "nearest d (active ?q') (nat ?c)" using act sub by (auto simp: nearest_def)
    have "?q' (nat ?c) = flat_qty s (nat ?c)" using True c0 by (auto simp: set_level_def)
    then show ?thesis using True r u ok n0 n best_is_of_nearest [OF c0 n]
      by (simp add: flat_quote_inv_def quote_ok_nearest)
  next
    case False
    have "\<not> active ?q' (nat ?c)" if "0 \<le> ?c"
    proof (cases "int idx = ?c")
      case True
      then have "nat ?c = idx" by simp
      then show ?thesis using sub by simp
    next
      case ne: False
      then have "\<not> fs_orders ?s1 ! nat ?c > 0" using False that by (simp add: flat_idx_valid_def)
      then show ?thesis unfolding u(2) [symmetric] active_flat by simp
    qed
    then have "cache_ok d (flat_qty ?s1) (fs_cached ?s1)" using u(2,3) by (cases "0 \<le> ?c") (simp_all add: cache_ok_def)
    then show ?thesis using False r flat_requote_spec [OF u(1), of d] u(2) by auto
  qed
  then show "flat_quote_inv d cfg (flat_delete_side d cfg idx q)"
    "flat_qty (fst (flat_delete_side d cfg idx q)) = set_level (flat_qty (fst q)) idx 0" by (simp_all add: q)
qed

subsection \<open>The book\<close>

definition flat_book_inv :: "flat_book \<Rightarrow> bool" where
  "flat_book_inv b \<longleftrightarrow> config_ok (fb_config b)
     \<and> int (num_levels (fb_config b)) = max_price_int (fb_config b) - min_price_int (fb_config b) + 1
     \<and> flat_quote_inv SearchHighest (fb_config b) (flat_bid_quote b)
     \<and> flat_quote_inv SearchLowest (fb_config b) (flat_ask_quote b)"

definition flat_levels :: "flat_book \<Rightarrow> level_map \<times> level_map" where
  "flat_levels b = (flat_qty (fb_bid b), flat_qty (fb_ask b))"

text \<open>The plain replay, with the effect of an in-range clear.\<close>

definition replay_apply :: "OrderBookConfig \<Rightarrow> level_map \<times> level_map \<Rightarrow> MarketData \<Rightarrow> level_map \<times> level_map" where
  "replay_apply cfg bk md =
     (if md_type md = kClear \<and> \<not> out_of_range cfg md then (\<lambda>_. 0, \<lambda>_. 0) else spec_apply cfg bk md)"

definition flat_run :: "flat_book \<Rightarrow> MarketData list \<Rightarrow> flat_book" where
  "flat_run = foldl (\<lambda>b md. fst (flat_on_market_data_updated b md))"

lemma flat_set_fields [simp]:
  "fb_config (flat_set_bid b q) = fb_config b" "fb_config (flat_set_ask b q) = fb_config b"
  "flat_bid_quote (flat_set_bid b q) = q" "flat_ask_quote (flat_set_bid b q) = flat_ask_quote b"
  "flat_ask_quote (flat_set_ask b q) = q" "flat_bid_quote (flat_set_ask b q) = flat_bid_quote b"
  "fb_bid (flat_set_bid b q) = fst q" "fb_ask (flat_set_bid b q) = fb_ask b"
  "fb_ask (flat_set_ask b q) = fst q" "fb_bid (flat_set_ask b q) = fb_bid b"
  by (auto simp: flat_set_bid_def flat_set_ask_def flat_bid_quote_def flat_ask_quote_def split: prod.splits)

lemma flat_quote_inv_clear:
  "flat_quote_inv d cfg (s, p, v) \<Longrightarrow> flat_quote_inv d cfg (flat_clear_side s, kInvalidValue, kInvalidValue)"
  using flat_clear_spec [of cfg s] by (simp add: flat_quote_inv_def quote_ok_empty active_def)

lemma flat_step:
  fixes md :: MarketData
  assumes inv: "flat_book_inv b"
  defines "b' \<equiv> fst (flat_on_market_data_updated b md)"
  shows "flat_book_inv b'" "fb_config b' = fb_config b" "flat_levels b' = replay_apply (fb_config b) (flat_levels b) md"
proof -
  let ?c = "fb_config b" and ?i = "nat (price_to_index (fb_config b) (md_price md))"
  have c: "config_ok ?c" "int (num_levels ?c) = max_price_int ?c - min_price_int ?c + 1"
    and qb: "flat_quote_inv SearchHighest ?c (flat_bid_quote b)" and qa: "flat_quote_inv SearchLowest ?c (flat_ask_quote b)"
    using inv by (simp_all add: flat_book_inv_def)
  have f: "fst (flat_bid_quote b) = fb_bid b" "fst (flat_ask_quote b) = fb_ask b" by (simp_all add: flat_bid_quote_def flat_ask_quote_def)
  have "flat_book_inv b' \<and> fb_config b' = ?c \<and> flat_levels b' = replay_apply ?c (flat_levels b) md"
  proof (cases "out_of_range ?c md")
    case True
    then show ?thesis using inv by (simp add: b'_def flat_on_market_data_updated_def replay_apply_def spec_apply_def flat_levels_def)
  next
    case False
    note ix = range_index [OF c False]
    have add: "flat_book_inv (flat_add_order b md ?i v) \<and> fb_config (flat_add_order b md ?i v) = ?c
        \<and> flat_levels (flat_add_order b md ?i v) = (if md_side md = kBuy then (set_level (flat_qty (fb_bid b)) ?i v, flat_qty (fb_ask b))
            else (flat_qty (fb_bid b), set_level (flat_qty (fb_ask b)) ?i v))" for v
      using c qb qa flat_add_side_spec [OF qb ix(2), of v] flat_add_side_spec [OF qa ix(2), of v]
      by (simp add: flat_add_order_def flat_book_inv_def flat_levels_def f)
    have del: "flat_book_inv (flat_delete_order b md ?i) \<and> fb_config (flat_delete_order b md ?i) = ?c
        \<and> flat_levels (flat_delete_order b md ?i) = (if md_side md = kBuy then (set_level (flat_qty (fb_bid b)) ?i 0, flat_qty (fb_ask b))
            else (flat_qty (fb_bid b), set_level (flat_qty (fb_ask b)) ?i 0))"
      using c qb qa flat_delete_side_spec [OF qb ix(2)] flat_delete_side_spec [OF qa ix(2)]
      by (simp add: flat_delete_order_def flat_book_inv_def flat_levels_def f)
    have fi: "flat_inv ?c (fb_bid b)" "flat_inv ?c (fb_ask b)"
      using qb qa by (simp_all add: flat_quote_inv_def flat_bid_quote_def flat_ask_quote_def)
    have clr: "flat_book_inv (flat_clear_book b) \<and> fb_config (flat_clear_book b) = ?c \<and> flat_levels (flat_clear_book b) = (\<lambda>_. 0, \<lambda>_. 0)"
      using c qb qa flat_clear_spec(2) [OF fi(1)] flat_clear_spec(2) [OF fi(2)] flat_quote_inv_clear
      by (auto simp: flat_clear_book_def flat_book_inv_def flat_levels_def flat_bid_quote_def flat_ask_quote_def BBO_default_def)
    show ?thesis using False inv add [of "md_qty md"] del clr ix(1)
      by (cases "md_type md")
        (simp_all add: b'_def flat_on_market_data_updated_def Let_def replay_apply_def spec_apply_def flat_levels_def)
  qed
  then show "flat_book_inv b'" "fb_config b' = fb_config b" "flat_levels b' = replay_apply (fb_config b) (flat_levels b) md" by simp_all
qed

lemma flat_run_spec:
  "flat_book_inv b \<Longrightarrow> flat_book_inv (flat_run b mds) \<and> fb_config (flat_run b mds) = fb_config b
     \<and> flat_levels (flat_run b mds) = foldl (replay_apply (fb_config b)) (flat_levels b) mds"
proof (induction mds arbitrary: b)
  case (Cons md mds)
  then show ?case using flat_step [OF Cons.prems, of md] Cons.IH [of "fst (flat_on_market_data_updated b md)"]
    by (simp add: flat_run_def)
qed (simp add: flat_run_def)

lemma flat_new_inv:
  assumes "0 \<le> lo" "lo \<le> hi" "hi < 2 ^ 31"
  shows "flat_book_inv (flat_book_new (from_ini True lo hi))" "flat_levels (flat_book_new (from_ini True lo hi)) = (\<lambda>_. 0, \<lambda>_. 0)"
proof -
  let ?c = "from_ini True lo hi"
  have c: "config_ok ?c" "int (num_levels ?c) = max_price_int ?c - min_price_int ?c + 1" "num_levels ?c \<le> bitmap_words ?c * 64"
    using assms by (simp_all add: from_ini_def Let_def config_ok_def)
  note n = flat_side_new_inv [OF c(3)]
  have "flat_quote_inv d ?c (flat_side_new ?c, kInvalidValue, kInvalidValue)" for d
    using n by (simp add: flat_quote_inv_def quote_ok_empty active_def)
  then show "flat_book_inv (flat_book_new ?c)" "flat_levels (flat_book_new ?c) = (\<lambda>_. 0, \<lambda>_. 0)"
    using c(1,2) n(2) by (simp_all add: flat_book_inv_def flat_book_new_def flat_bid_quote_def flat_ask_quote_def BBO_default_def flat_levels_def)
qed

lemma flat_inv_bbo: "flat_book_inv b \<Longrightarrow> bbo_correct (fb_config b) (flat_levels b) (fb_bbo b)"
  by (simp add: flat_book_inv_def flat_quote_inv_def bbo_correct_def flat_bid_quote_def flat_ask_quote_def flat_levels_def)

text \<open>
  C11. The flat book publishes the right BBO after every feed, whatever it contains: levels outside the price
  range, zero or negative quantities, cancels of absent levels, trades, and clears followed by new levels.
  The published prices and quantities are those of the highest bid and the lowest ask of the plain replay,
  and invalid on an empty side.
\<close>

theorem flat_bbo_correct:
  assumes "0 \<le> lo" and "lo \<le> hi" and "hi < 2 ^ 31"
  shows "bbo_correct (from_ini True lo hi) (foldl (replay_apply (from_ini True lo hi)) (\<lambda>_. 0, \<lambda>_. 0) mds)
           (fb_bbo (flat_run (flat_book_new (from_ini True lo hi)) mds))"
  using flat_run_spec [OF flat_new_inv(1) [OF assms], of mds] flat_inv_bbo [of "flat_run (flat_book_new (from_ini True lo hi)) mds"]
    flat_new_inv(2) [OF assms] by (simp add: flat_book_new_def)

theorem flat_bbo_correct_witness:
  "let b = flat_run (flat_book_new (from_ini True 100 300))
       [\<lparr>md_type = kAdd, md_order_id = 0, md_ticker_id = ''BTCUSDT'', md_side = kBuy, md_price = 160, md_qty = 9\<rparr>,
        \<lparr>md_type = kClear, md_order_id = 0, md_ticker_id = ''BTCUSDT'', md_side = kBuy, md_price = 150, md_qty = 0\<rparr>,
        \<lparr>md_type = kAdd, md_order_id = 0, md_ticker_id = ''BTCUSDT'', md_side = kBuy, md_price = 150, md_qty = 7\<rparr>]
   in bid_price (fb_bbo b) = 150 \<and> bid_qty (fb_bbo b) = 7"
proof -
  let ?c = "from_ini True 100 300"
  let ?mds = "[\<lparr>md_type = kAdd, md_order_id = 0, md_ticker_id = ''BTCUSDT'', md_side = kBuy, md_price = 160, md_qty = 9\<rparr>,
    \<lparr>md_type = kClear, md_order_id = 0, md_ticker_id = ''BTCUSDT'', md_side = kBuy, md_price = 150, md_qty = 0\<rparr>,
    \<lparr>md_type = kAdd, md_order_id = 0, md_ticker_id = ''BTCUSDT'', md_side = kBuy, md_price = 150, md_qty = 7\<rparr>]"
  have c: "min_price_int ?c = 100" "max_price_int ?c = 300" by (simp_all add: from_ini_def Let_def)
  have lv: "foldl (replay_apply ?c) (\<lambda>_. 0, \<lambda>_. 0) ?mds = ((\<lambda>_. 0)(50 := 7), \<lambda>_. 0)"
    by (simp add: replay_apply_def spec_apply_def out_of_range_def c set_level_def)
  have n: "nearest SearchHighest (active ((\<lambda>_. 0)(50 := 7))) 50" by (auto simp: nearest_def active_def split: if_splits)
  show ?thesis using flat_bbo_correct [of 100 300 ?mds] quote_ok_nearest [OF n, of ?c] c
    unfolding lv by (simp add: bbo_correct_def index_to_price_def Let_def)
qed

end
