(* ===== verification/Flat_Peek.thy ===== *)
theory Flat_Peek
  imports Flat_Book_Correct
begin

text \<open>
  The depth queries of the flat book: \<open>next_active_bid\<close> and \<open>next_active_ask\<close> as searches over the active
  levels, and \<open>peek_levels\<close>, \<open>peek_levels_with_qty\<close> and \<open>peek_qty\<close>, which walk from the best level with them.
  \<^verbatim>\<open>next_active_bid\<close> shifts a word by 64 when its start level is a positive multiple of 64 (\<open>shift_ok\<close> is the
  absence of that case), so the bid queries return \<^term>\<open>None\<close> when the walk leaves such a level.
\<close>

abbreviation head_level :: "search_dir \<Rightarrow> (nat \<Rightarrow> bool) \<Rightarrow> nat \<Rightarrow> nat \<Rightarrow> int" where
  "head_level d P start n \<equiv>
     (case head_opt (dir_list d (filter (\<lambda>i. P i \<and> farther d i start) [0..<n])) of Some r \<Rightarrow> int r | None \<Rightarrow> - 1)"

definition shift_ok :: "search_dir \<Rightarrow> nat \<Rightarrow> bool" where
  "shift_ok d i \<longleftrightarrow> d = SearchLowest \<or> i = 0 \<or> i mod 64 \<noteq> 0"

lemma word_split: "r < 64 \<Longrightarrow> (q * 64 + r) div 64 = (q::nat)" "r < 64 \<Longrightarrow> (q * 64 + r) mod 64 = r"
  by simp_all

lemma pred_word:
  assumes "start mod 64 \<noteq> (0::nat)"
  shows "(start - 1) div 64 = start div 64" "(start - 1) mod 64 + 1 = start mod 64"
proof -
  have l: "start mod 64 - 1 < 64" using mod_less_divisor [of 64 start] by linarith
  have "start - 1 = start div 64 * 64 + (start mod 64 - 1)" using div_mult_mod_eq [of start 64] assms by linarith
  with word_split [OF l, of "start div 64"] assms show "(start - 1) div 64 = start div 64" "(start - 1) mod 64 + 1 = start mod 64" by simp_all
qed

lemma pred_word_0:
  assumes "start mod 64 = 0" "start \<noteq> (0::nat)"
  shows "(start - 1) mod 64 + 1 = 64"
proof -
  have "start - 1 = (start div 64 - 1) * 64 + 63" using div_mult_mod_eq [of start 64] assms by (cases "start div 64") auto
  with word_split(2) [of 63 "start div 64 - 1"] show ?thesis by simp
qed

lemma succ_word:
  assumes "start mod 64 \<noteq> (63::nat)"
  shows "(start + 1) div 64 = start div 64" "(start + 1) mod 64 = start mod 64 + 1" "start mod 64 + 1 < 64"
proof -
  show l: "start mod 64 + 1 < 64" using mod_less_divisor [of 64 start] assms by linarith
  have "start + 1 = start div 64 * 64 + (start mod 64 + 1)" using div_mult_mod_eq [of start 64] by linarith
  with word_split [OF l, of "start div 64"] show "(start + 1) div 64 = start div 64" "(start + 1) mod 64 = start mod 64 + 1" by metis+
qed

lemma succ_word_63:
  assumes "start mod 64 = (63::nat)"
  shows "(start + 1) div 64 = start div 64 + 1" "(start + 1) mod 64 = 0"
proof -
  have e: "start + 1 = (start div 64 + 1) * 64 + 0" using div_mult_mod_eq [of start 64] assms by simp
  show "(start + 1) div 64 = start div 64 + 1" by (subst e, rule word_split) simp
  show "(start + 1) mod 64 = 0" by (subst e, rule word_split) simp
qed

abbreviation opt_int :: "nat option \<Rightarrow> int" where
  "opt_int r \<equiv> (case r of Some r \<Rightarrow> int r | None \<Rightarrow> - 1)"

lemma opt_int_if: "(if p then int a else opt_int r) = opt_int (if p then Some a else r)"
  by simp

lemma flat_next_bid_raw:
  "flat_next_active_bid cfg s start =
     (if start = 0 \<or> bitmap_words cfg \<le> (start - 1) div 64 then Some (- 1)
      else if start mod 64 = 0 then None
      else Some (head_level SearchHighest (\<lambda>i. i \<in> bmset (\<lambda>w. fs_bitmap s ! w)) start (bitmap_words cfg * 64)))"
proof (cases "start = 0 \<or> bitmap_words cfg \<le> (start - 1) div 64 \<or> start mod 64 = 0")
  case True
  then show ?thesis using pred_word_0 [of start] by (auto simp: flat_next_active_bid_def Let_def idx_simps shl64_def)
next
  case False
  have nz: "start mod 64 \<noteq> 0" using False by simp
  note p = pred_word [OF nz]
  have lt: "start div 64 < bitmap_words cfg" and m: "start mod 64 < 64" using False p by auto
  have sh: "shl64 1 ((start - 1) mod 64 + 1) = Some (push_bit (start mod 64) 1)" using False p m by (simp add: shl64_def del: push_bit_of_1)
  have mk: "push_bit (start mod 64) 1 - 1 = make_mask SearchHighest (start mod 64)" using False by (simp del: push_bit_of_1)
  have fb: "kWordMask - countl_zero w = find_bit SearchHighest w" for w by simp
  have fl: "rev [0..<start div 64] = following SearchHighest (start div 64) (bitmap_words cfg)" by (simp add: following_def)
  have "flat_next_active_bid cfg s start = Some (head_level SearchHighest (\<lambda>i. i \<in> bmset (\<lambda>w. fs_bitmap s ! w)) start (bitmap_words cfg * 64))"
    unfolding flat_next_active_bid_def Let_def idx_simps p(1) sh option.map mk fb opt_int_if fl
      search_from [OF lt, of "\<lambda>w. fs_bitmap s ! w" SearchHighest]
    using False p(1) by simp
  then show ?thesis using False by simp
qed

lemma flat_next_ask_raw:
  "flat_next_active_ask cfg s start =
     Some (if num_levels cfg \<le> start + 1 \<or> bitmap_words cfg \<le> (start + 1) div 64 then - 1
      else head_level SearchLowest (\<lambda>i. i \<in> bmset (\<lambda>w. fs_bitmap s ! w)) start (bitmap_words cfg * 64))"
proof (cases "num_levels cfg \<le> start + 1 \<or> bitmap_words cfg \<le> (start + 1) div 64")
  case True
  then show ?thesis by (auto simp: flat_next_active_ask_def Let_def idx_simps)
next
  case False
  let ?f = "\<lambda>w. if fs_bitmap s ! w \<noteq> 0 then Some (w * 64 + find_bit SearchLowest (fs_bitmap s ! w)) else None"
  have lt: "start div 64 < bitmap_words cfg" using False div_le_mono [of start "start + 1" 64] by linarith
  note sf = search_from [OF lt, of "\<lambda>w. fs_bitmap s ! w" SearchLowest]
  have fb: "countr_zero w = find_bit SearchLowest w" for w by simp
  have fl: "[start div 64 + 1..<bitmap_words cfg] = following SearchLowest (start div 64) (bitmap_words cfg)" by (simp add: following_def)
  have "flat_next_active_ask cfg s start = Some (head_level SearchLowest (\<lambda>i. i \<in> bmset (\<lambda>w. fs_bitmap s ! w)) start (bitmap_words cfg * 64))"
  proof (cases "start mod 64 = 63")
    case True
    note w = succ_word_63 [OF True]
    have sh: "shl64 1 0 = Some 1" by (simp add: shl64_def)
    have mk: "NOT ((1 :: u64) - 1) = - 1" "x AND - 1 = (x :: u64)" for x by simp_all
    have z: "make_mask SearchLowest (start mod 64) = 0" using True by (simp add: kWordMask_def)
    have "[start div 64 + 1..<bitmap_words cfg] = (start div 64 + 1) # [start div 64 + 1 + 1..<bitmap_words cfg]"
      using False w by (simp add: upt_conv_Cons)
    then have c: "first_some ?f (following SearchLowest (start div 64) (bitmap_words cfg))
      = (if fs_bitmap s ! (start div 64 + 1) \<noteq> 0 then Some ((start div 64 + 1) * 64 + find_bit SearchLowest (fs_bitmap s ! (start div 64 + 1)))
         else first_some ?f [start div 64 + 1 + 1..<bitmap_words cfg])"
      unfolding fl [symmetric] by (simp only: first_some.simps split: if_split option.split) simp
    have sf': "first_some ?f (following SearchLowest (start div 64) (bitmap_words cfg))
      = head_opt (dir_list SearchLowest (filter (\<lambda>i. i \<in> bmset (\<lambda>w. fs_bitmap s ! w) \<and> farther SearchLowest i start) [0..<bitmap_words cfg * 64]))"
      using sf unfolding z by (simp del: find_bit.simps farther.simps)
    show ?thesis
      unfolding flat_next_active_ask_def Let_def idx_simps w sh option.map mk fb opt_int_if sf' [symmetric] c
      using False w by (simp del: find_bit.simps)
  next
    case neq: False
    note p = succ_word [OF neq]
    have sh: "shl64 1 (start mod 64 + 1) = Some (push_bit (start mod 64 + 1) 1)" using p(3) by (simp add: shl64_def del: push_bit_of_1)
    have mk: "NOT (push_bit (start mod 64 + 1) 1 - 1) = make_mask SearchLowest (start mod 64)" using neq by (simp add: kWordMask_def del: push_bit_of_1)
    show ?thesis
      unfolding flat_next_active_ask_def Let_def idx_simps p(1,2) sh option.map mk fb opt_int_if
      using False p(1) unfolding fl sf by simp
  qed
  then show ?thesis using False by simp
qed

lemma head_level_progress:
  "0 \<le> head_level d P start n \<Longrightarrow> farther d (nat (head_level d P start n)) start \<and> nat (head_level d P start n) < n"
  by (auto split: option.splits dest: head_dir_list_nearest simp: nearest_def)

lemma flat_next_progress:
  "flat_next_active d cfg s start = Some r \<Longrightarrow> 0 \<le> r \<Longrightarrow> farther d (nat r) start \<and> nat r < bitmap_words cfg * 64"
  using head_level_progress [of d "\<lambda>i. i \<in> bmset (\<lambda>w. fs_bitmap s ! w)" start "bitmap_words cfg * 64"]
  by (cases d) (auto simp: flat_next_active_def flat_next_bid_raw flat_next_ask_raw split: if_splits)

lemma filter_upt_bound:
  assumes "\<forall>i. P i \<longrightarrow> i < n" "n \<le> (m::nat)"
  shows "filter P [0..<m] = filter P [0..<n]"
  using assms upt_add_eq_append [of 0 n "m - n"] by (auto simp: filter_empty_conv)

lemma flat_next_active_spec:
  assumes inv: "flat_inv cfg s" and st: "start < num_levels cfg"
  shows "flat_next_active d cfg s start =
    (if shift_ok d start then Some (head_level d (active (flat_qty s)) start (num_levels cfg)) else None)"
proof -
  note dd = flat_invD [OF inv]
  let ?bm = "\<lambda>i. i \<in> bmset (\<lambda>w. fs_bitmap s ! w)"
  have "filter (\<lambda>i. ?bm i \<and> farther d i start) [0..<bitmap_words cfg * 64]
    = filter (\<lambda>i. active (flat_qty s) i \<and> farther d i start) [0..<bitmap_words cfg * 64]"
    using dd(6) by (intro filter_cong) auto
  also have "\<dots> = filter (\<lambda>i. active (flat_qty s) i \<and> farther d i start) [0..<num_levels cfg]"
    using flat_level_bound [OF inv] dd(4) by (intro filter_upt_bound) auto
  finally have eq: "head_level d ?bm start (bitmap_words cfg * 64) = head_level d (active (flat_qty s)) start (num_levels cfg)" by simp
  show ?thesis
  proof (cases d)
    case SearchHighest
    have "(start - 1) div 64 < bitmap_words cfg" using st dd(4) by (intro less_mult_imp_div_less) linarith
    then show ?thesis using SearchHighest eq
      by (auto simp: flat_next_active_def flat_next_bid_raw shift_ok_def dir_list_def)
  next
    case SearchLowest
    have "head_level SearchLowest (active (flat_qty s)) start (num_levels cfg) = - 1" if "num_levels cfg \<le> start + 1"
      using that by (auto simp: filter_empty_conv dir_list_def split: option.splits)
    moreover have "(start + 1) div 64 < bitmap_words cfg" if "\<not> num_levels cfg \<le> start + 1"
      using dd(4) that by (intro less_mult_imp_div_less) linarith
    ultimately show ?thesis using eq
      unfolding SearchLowest flat_next_active_def search_dir.case flat_next_ask_raw
      by (cases "num_levels cfg \<le> start + 1") (simp_all add: shift_ok_def del: farther.simps)
  qed
qed

subsection \<open>Peeking\<close>

fun flat_peek_more :: "search_dir \<Rightarrow> OrderBookConfig \<Rightarrow> flat_side \<Rightarrow> nat \<Rightarrow> nat \<Rightarrow> nat list option" where
  "flat_peek_more d cfg s 0 idx = Some []"
| "flat_peek_more d cfg s (Suc n) idx =
     (case flat_next_active d cfg s idx of
        None \<Rightarrow> None
      | Some r \<Rightarrow> if r < 0 then Some [] else map_option ((#) (nat r)) (flat_peek_more d cfg s n (nat r)))"

definition flat_peek_levels :: "search_dir \<Rightarrow> OrderBookConfig \<Rightarrow> flat_side \<Rightarrow> nat \<Rightarrow> nat list option \<times> flat_side" where
  "flat_peek_levels d cfg s level =
     (case flat_best_idx d s of (idx, s1) \<Rightarrow>
        (if idx < 0 then Some [] else map_option ((#) (nat idx)) (flat_peek_more d cfg s1 (level - 1) (nat idx)), s1))"

text \<open>The loop of \<^verbatim>\<open>peek_levels_with_qty\<close> and \<^verbatim>\<open>peek_qty\<close>; \<open>view\<close> is what they store for a level.\<close>

lemma flat_progress_measure:
  assumes "flat_next_active d cfg s idx = Some r" "\<not> r < 0"
  shows "(case d of SearchHighest \<Rightarrow> nat r | SearchLowest \<Rightarrow> bitmap_words cfg * 64 - nat r)
    < (case d of SearchHighest \<Rightarrow> idx | SearchLowest \<Rightarrow> bitmap_words cfg * 64 - idx)"
  using flat_next_progress [OF assms(1)] assms(2) by (cases d) auto

function flat_collect :: "search_dir \<Rightarrow> OrderBookConfig \<Rightarrow> flat_side \<Rightarrow> (nat \<Rightarrow> 'v) \<Rightarrow> nat \<Rightarrow> nat \<Rightarrow> 'v list \<Rightarrow> 'v list option" where
  "flat_collect d cfg s view want idx out =
     (if length out < want
      then case flat_next_active d cfg s idx of
             None \<Rightarrow> None
           | Some r \<Rightarrow>
               if r < 0 then Some out
               else flat_collect d cfg s view want (nat r) (if fs_orders s ! nat r > 0 then out @ [view (nat r)] else out)
      else Some out)"
  by pat_completeness auto

termination
  by (relation "measure (\<lambda>(d, cfg, s, view, want, idx, out). case d of SearchHighest \<Rightarrow> idx | SearchLowest \<Rightarrow> bitmap_words cfg * 64 - idx)")
     (auto dest: flat_progress_measure)

declare flat_collect.simps [simp del]

definition flat_view :: "OrderBookConfig \<Rightarrow> flat_side \<Rightarrow> nat \<Rightarrow> LevelView" where
  "flat_view cfg s i = \<lparr>lv_idx = i, lv_qty_raw = fs_orders s ! i, lv_price_raw = index_to_price cfg (int i)\<rparr>"

definition flat_peek_levels_with_qty :: "search_dir \<Rightarrow> OrderBookConfig \<Rightarrow> flat_side \<Rightarrow> int \<Rightarrow> LevelView list option \<times> flat_side" where
  "flat_peek_levels_with_qty d cfg s level =
     (if level \<le> 0 then (Some [], s)
      else case flat_best_idx d s of (idx, s1) \<Rightarrow>
        if idx < 0 then (Some [], s1)
        else (flat_collect d cfg s1 (flat_view cfg s1) (nat level) (nat idx)
                (if fs_orders s1 ! nat idx > 0 then [flat_view cfg s1 (nat idx)] else []), s1))"

definition flat_peek_qty :: "search_dir \<Rightarrow> OrderBookConfig \<Rightarrow> flat_side \<Rightarrow> int \<Rightarrow> nat \<Rightarrow> (int \<times> (int64 \<times> nat) list) option \<times> flat_side" where
  "flat_peek_qty d cfg s level qty_out_size =
     (let want = min level (int qty_out_size) in
      if want \<le> 0 then (Some (- 1, []), s)
      else case flat_best_idx d s of (idx, s1) \<Rightarrow>
        if idx < 0 then (Some (- 1, []), s1)
        else (map_option (\<lambda>out. (int (length out), out))
                (flat_collect d cfg s1 (\<lambda>i. (fs_orders s1 ! i, i)) (nat want) (nat idx)
                  (if fs_orders s1 ! nat idx > 0 then [(fs_orders s1 ! nat idx, nat idx)] else [])), s1))"

definition flat_side_levels :: "search_dir \<Rightarrow> OrderBookConfig \<Rightarrow> flat_side \<Rightarrow> nat list" where
  "flat_side_levels d cfg s = dir_list d (filter (active (flat_qty s)) [0..<num_levels cfg])"

text \<open>The levels beyond \<open>idx\<close>, and the guard that no search of the walk starts at a multiple of 64.\<close>

definition flat_rest :: "search_dir \<Rightarrow> OrderBookConfig \<Rightarrow> flat_side \<Rightarrow> nat \<Rightarrow> nat list" where
  "flat_rest d cfg s idx = dir_list d (filter (\<lambda>i. active (flat_qty s) i \<and> farther d i idx) [0..<num_levels cfg])"

lemma flat_rest_Cons:
  assumes "flat_rest d cfg s idx = r # rs"
  shows "flat_rest d cfg s r = rs" "r < num_levels cfg" "active (flat_qty s) r"
proof -
  have "r \<in> set (flat_rest d cfg s idx)" using assms by simp
  then have r: "r < num_levels cfg \<and> active (flat_qty s) r \<and> farther d r idx" by (auto simp: flat_rest_def)
  then show "r < num_levels cfg" "active (flat_qty s) r" by simp_all
  have "(\<lambda>i. (active (flat_qty s) i \<and> farther d i idx) \<and> farther d i r) = (\<lambda>i. active (flat_qty s) i \<and> farther d i r)"
    using r farther_trans by blast
  then show "flat_rest d cfg s r = rs" using dir_list_tail [OF assms [unfolded flat_rest_def]] by (simp add: flat_rest_def)
qed

lemma flat_next_rest:
  assumes "flat_inv cfg s" "idx < num_levels cfg"
  shows "flat_next_active d cfg s idx =
    (if shift_ok d idx then Some (case flat_rest d cfg s idx of [] \<Rightarrow> - 1 | r # _ \<Rightarrow> int r) else None)"
  unfolding flat_next_active_spec [OF assms] by (simp add: flat_rest_def head_opt_def split: list.splits)

lemma flat_peek_more_eq:
  assumes inv: "flat_inv cfg s" and i: "idx < num_levels cfg"
  shows "flat_peek_more d cfg s n idx =
    (if list_all (shift_ok d) (take n (idx # flat_rest d cfg s idx)) then Some (take n (flat_rest d cfg s idx)) else None)"
  using i
proof (induction n arbitrary: idx)
  case (Suc n)
  show ?case
  proof (cases "flat_rest d cfg s idx")
    case Nil
    then show ?thesis using flat_next_rest [OF inv Suc.prems, of d] by simp
  next
    case (Cons r rs)
    note r = flat_rest_Cons [OF Cons]
    show ?thesis using Suc.IH [OF r(2)] r(1) Cons flat_next_rest [OF inv Suc.prems, of d] by simp
  qed
qed simp

lemma flat_collect_eq:
  assumes inv: "flat_inv cfg s" and i: "idx < num_levels cfg"
  shows "flat_collect d cfg s view want idx out =
    (if list_all (shift_ok d) (take (want - length out) (idx # flat_rest d cfg s idx))
     then Some (out @ map view (take (want - length out) (flat_rest d cfg s idx))) else None)"
  using i
proof (induction "want - length out" arbitrary: idx out)
  case 0
  then show ?case by (subst flat_collect.simps) simp
next
  case (Suc n)
  then have w: "want - length out = Suc n" "want - Suc (length out) = n" "length out < want" by simp_all
  show ?case
  proof (cases "flat_rest d cfg s idx")
    case Nil
    then show ?thesis using flat_next_rest [OF inv Suc.prems, of d] w by (subst flat_collect.simps) simp
  next
    case (Cons r rs)
    note r = flat_rest_Cons [OF Cons]
    have o: "fs_orders s ! r > 0" using r(3) by (simp add: active_flat)
    have n: "n = want - length (out @ [view r])" using Suc.hyps(2) by simp
    show ?thesis using Suc.hyps(1) [OF n r(2)] r(1) o Cons flat_next_rest [OF inv Suc.prems, of d] w
      by (subst flat_collect.simps) simp
  qed
qed

lemma flat_side_levels_best:
  assumes inv: "flat_inv cfg s" and n: "nearest d (active (flat_qty s)) b"
  shows "flat_side_levels d cfg s = b # flat_rest d cfg s b"
proof -
  have lt: "b < num_levels cfg" and a: "active (flat_qty s) b" using n flat_level_bound [OF inv] by (auto simp: nearest_def)
  then have "head_opt (flat_side_levels d cfg s) = Some b"
    unfolding flat_side_levels_def head_dir_list_iff using n by (auto simp: nearest_def)
  then obtain rs where rs: "flat_side_levels d cfg s = b # rs" by (cases "flat_side_levels d cfg s") auto
  then show ?thesis using dir_list_tail [OF rs [unfolded flat_side_levels_def]] by (simp add: flat_rest_def)
qed

text \<open>What the three queries return on a side whose quote is up to date.\<close>

lemma flat_peeks:
  assumes inv: "flat_inv cfg s" and c: "cache_ok d (flat_qty s) (fs_cached s)"
    and L: "ls = flat_side_levels d cfg s"
  shows "fst (flat_peek_levels d cfg s n) = (if list_all (shift_ok d) (take (n - 1) ls) then Some (take (max 1 n) ls) else None)"
    "fst (flat_peek_levels_with_qty d cfg s k) =
       (if list_all (shift_ok d) (take (nat k - 1) ls)
        then Some (map (\<lambda>i. \<lparr>lv_idx = i, lv_qty_raw = flat_qty s i, lv_price_raw = index_to_price cfg (int i)\<rparr>) (take (nat k) ls)) else None)"
    "fst (flat_peek_qty d cfg s k m) =
       (let w = nat (min k (int m)); res = map (\<lambda>i. (flat_qty s i, i)) (take w ls)
        in if list_all (shift_ok d) (take (w - 1) ls)
           then Some (if w = 0 \<or> ls = [] then - 1 else int (length res), res) else None)"
proof -
  obtain b s1 where b: "flat_best_idx d s = (b, s1)" by fastforce
  note f = flat_best_idx_spec [OF inv c b]
  have view: "fs_orders s1 ! i = flat_qty s i" if "i \<in> set ls" for i
    using that f(2) unfolding L flat_side_levels_def by (auto simp: flat_qty_def active_def split: if_splits)
  have "fst (flat_peek_levels d cfg s n) = (if list_all (shift_ok d) (take (n - 1) ls) then Some (take (max 1 n) ls) else None)
    \<and> fst (flat_peek_levels_with_qty d cfg s k) =
       (if list_all (shift_ok d) (take (nat k - 1) ls) then Some (map (flat_view cfg s1) (take (nat k) ls)) else None)
    \<and> fst (flat_peek_qty d cfg s k m) =
       (let w = nat (min k (int m)); res = map (\<lambda>i. (fs_orders s1 ! i, i)) (take w ls)
        in if list_all (shift_ok d) (take (w - 1) ls)
           then Some (if w = 0 \<or> ls = [] then - 1 else int (length res), res) else None)"
  proof (cases "b < 0")
    case True
    then have "ls = []" using f(1) unfolding L flat_side_levels_def best_is_def
      by (auto simp: dir_list_def filter_empty_conv split: if_splits search_dir.splits)
    then show ?thesis using True b
      by (simp add: flat_peek_levels_def flat_peek_levels_with_qty_def flat_peek_qty_def Let_def)
  next
    case False
    then have n: "nearest d (active (flat_qty s)) (nat b)" using f(1) by (auto simp: best_is_def split: if_splits)
    have bn: "nat b < num_levels cfg" "fs_orders s1 ! nat b > 0"
      using n f(2) flat_level_bound [OF inv] by (auto simp: nearest_def active_flat)
    have q: "flat_qty s1 = flat_qty s" using f(2) by simp
    let ?rs = "flat_rest d cfg s (nat b)"
    have ls: "ls = nat b # ?rs" unfolding L by (rule flat_side_levels_best [OF inv n])
    have rs: "flat_rest d cfg s1 (nat b) = ?rs" by (simp add: flat_rest_def q)
    have col: "flat_collect d cfg s1 view w (nat b) [view (nat b)] =
        (if list_all (shift_ok d) (take (w - 1) ls) then Some (map view (take w ls)) else None)" if "0 < w" for w and view :: "nat \<Rightarrow> 'v"
      using flat_collect_eq [OF f(3) bn(1), of d view w "[view (nat b)]"] that unfolding rs ls by (cases w) simp_all
    have "fst (flat_peek_levels d cfg s n) = (if list_all (shift_ok d) (take (n - 1) ls) then Some (take (max 1 n) ls) else None)"
      using False b flat_peek_more_eq [OF f(3) bn(1), of d "n - 1"] unfolding rs ls by (cases n) (simp_all add: flat_peek_levels_def)
    moreover have "fst (flat_peek_levels_with_qty d cfg s k) =
       (if list_all (shift_ok d) (take (nat k - 1) ls) then Some (map (flat_view cfg s1) (take (nat k) ls)) else None)"
      using False b bn(2) col [of "nat k" "flat_view cfg s1"] by (simp add: flat_peek_levels_with_qty_def)
    moreover have "fst (flat_peek_qty d cfg s k m) =
       (let w = nat (min k (int m)); res = map (\<lambda>i. (fs_orders s1 ! i, i)) (take w ls)
        in if list_all (shift_ok d) (take (w - 1) ls)
           then Some (if w = 0 \<or> ls = [] then - 1 else int (length res), res) else None)"
    proof (cases "min k (int m) \<le> 0")
      case True
      then show ?thesis by (simp add: flat_peek_qty_def Let_def)
    next
      case pos: False
      define w where "w = nat (min k (int m))"
      have w: "0 < w" "min k (int m) = int w" using pos by (auto simp: w_def min_le_iff_disj)
      show ?thesis using False b bn(2) w(1) col [OF w(1), of "\<lambda>i. (fs_orders s1 ! i, i)"] ls
        by (simp add: flat_peek_qty_def w(2) Let_def)
    qed
    ultimately show ?thesis by blast
  qed
  moreover have "map (flat_view cfg s1) (take j ls)
      = map (\<lambda>i. \<lparr>lv_idx = i, lv_qty_raw = flat_qty s i, lv_price_raw = index_to_price cfg (int i)\<rparr>) (take j ls)"
    "map (\<lambda>i. (fs_orders s1 ! i, i)) (take j ls) = map (\<lambda>i. (flat_qty s i, i)) (take j ls)" for j
    using view by (auto simp: flat_view_def dest: in_set_takeD)
  ultimately show "fst (flat_peek_levels d cfg s n) = (if list_all (shift_ok d) (take (n - 1) ls) then Some (take (max 1 n) ls) else None)"
    "fst (flat_peek_levels_with_qty d cfg s k) =
       (if list_all (shift_ok d) (take (nat k - 1) ls)
        then Some (map (\<lambda>i. \<lparr>lv_idx = i, lv_qty_raw = flat_qty s i, lv_price_raw = index_to_price cfg (int i)\<rparr>) (take (nat k) ls)) else None)"
    "fst (flat_peek_qty d cfg s k m) =
       (let w = nat (min k (int m)); res = map (\<lambda>i. (flat_qty s i, i)) (take w ls)
        in if list_all (shift_ok d) (take (w - 1) ls)
           then Some (if w = 0 \<or> ls = [] then - 1 else int (length res), res) else None)" by simp_all
qed

end
