(* ===== verification/Book_Variants.thy ===== *)
theory Book_Variants
  imports Bucket_Peek Flat_Peek
begin

text \<open>
  The two order book variants side by side. \<open>feed_handler\<close> is the contract of a book towards the market data
  feed: every accepted update acts on the level maps as in the plain replay, and the published BBO is the
  one of the level maps. Both variants satisfy it, so the BBO after a feed is a function of the feed alone
  and the compile-time choice between them is not observable through it.
\<close>

fun feed_all :: "('b \<Rightarrow> MarketData \<Rightarrow> 'b option) \<Rightarrow> 'b \<Rightarrow> MarketData list \<Rightarrow> 'b option" where
  "feed_all step b [] = Some b"
| "feed_all step b (md # mds) = (case step b md of None \<Rightarrow> None | Some b' \<Rightarrow> feed_all step b' mds)"

locale feed_handler =
  fixes step :: "'b \<Rightarrow> MarketData \<Rightarrow> 'b option"
    and inv :: "'b \<Rightarrow> bool"
    and cfg :: "'b \<Rightarrow> OrderBookConfig"
    and lv :: "'b \<Rightarrow> level_map \<times> level_map"
    and bbo :: "'b \<Rightarrow> BBO"
    and accepts :: "OrderBookConfig \<Rightarrow> MarketData \<Rightarrow> bool"
  assumes step_replays: "inv b \<Longrightarrow> accepts (cfg b) md \<Longrightarrow> step b md = Some b' \<Longrightarrow>
      inv b' \<and> cfg b' = cfg b \<and> lv b' = spec_apply (cfg b) (lv b) md"
    and bbo_of_levels: "inv b \<Longrightarrow> bbo_correct (cfg b) (lv b) (bbo b)"
begin

lemma feed_replays:
  "inv b \<Longrightarrow> list_all (accepts (cfg b)) mds \<Longrightarrow> feed_all step b mds = Some b' \<Longrightarrow>
     inv b' \<and> cfg b' = cfg b \<and> lv b' = foldl (spec_apply (cfg b)) (lv b) mds"
proof (induction mds arbitrary: b)
  case (Cons md mds)
  then obtain b1 where b1: "step b md = Some b1" "feed_all step b1 mds = Some b'" by (auto split: option.splits)
  have "inv b1 \<and> cfg b1 = cfg b \<and> lv b1 = spec_apply (cfg b) (lv b) md"
    by (rule step_replays [OF Cons.prems(1) _ b1(1)]) (use Cons.prems(2) in simp)
  then show ?case using Cons.IH [of b1] Cons.prems(2) b1(2) by simp
qed simp

lemma feed_bbo:
  assumes "inv b" "list_all (accepts (cfg b)) mds" "feed_all step b mds = Some b'"
  shows "bbo_correct (cfg b) (foldl (spec_apply (cfg b)) (lv b) mds) (bbo b')"
  using feed_replays [OF assms] bbo_of_levels [of b'] by simp

end

definition no_clear :: "OrderBookConfig \<Rightarrow> MarketData \<Rightarrow> bool" where
  "no_clear cfg md \<longleftrightarrow> (md_type md = kClear \<longrightarrow> out_of_range cfg md)"

lemma bucket_step_law:
  assumes "book_inv b" "feed_ok (bb_config b) md" "map_option fst (on_market_data_updated b md) = Some b'"
  shows "book_inv b' \<and> bb_config b' = bb_config b
    \<and> (bid_levels b', ask_levels b') = spec_apply (bb_config b) (bid_levels b, ask_levels b) md"
proof -
  obtain ev where "on_market_data_updated b md = Some (b', ev)" using assms(3) by auto
  then show ?thesis using update_step [OF assms(1,2)] by blast
qed

lemma flat_step_law:
  assumes "flat_book_inv b" "no_clear (fb_config b) md" "Some (fst (flat_on_market_data_updated b md)) = Some b'"
  shows "flat_book_inv b' \<and> fb_config b' = fb_config b \<and> flat_levels b' = spec_apply (fb_config b) (flat_levels b) md"
  using flat_step [OF assms(1), of md] assms(2,3) by (auto simp: replay_apply_def no_clear_def)

interpretation bucket_variant: feed_handler "\<lambda>b md. map_option fst (on_market_data_updated b md)" book_inv bb_config
    "\<lambda>b. (bid_levels b, ask_levels b)" bb_bbo feed_ok
  by unfold_locales (fact bucket_step_law book_inv_bbo)+

interpretation flat_variant: feed_handler "\<lambda>b md. Some (fst (flat_on_market_data_updated b md))" flat_book_inv fb_config
    flat_levels fb_bbo no_clear
  by unfold_locales (fact flat_step_law flat_inv_bbo)+

lemma feed_all_run_feed: "feed_all (\<lambda>b md. map_option fst (on_market_data_updated b md)) b mds = run_feed b mds"
  by (induction mds arbitrary: b) (auto split: option.splits)

lemma feed_all_flat_run: "feed_all (\<lambda>b md. Some (fst (flat_on_market_data_updated b md))) b mds = Some (flat_run b mds)"
  by (induction mds arbitrary: b) (simp_all add: flat_run_def)

lemma quote_unique:
  assumes "best_is d q c" "quote_ok d cfg q p v" "quote_ok d cfg' q p' v'" "min_price_int cfg = min_price_int cfg'"
  shows "p = p' \<and> v = v'"
proof (cases "\<exists>i. active q i")
  case True
  then have "nearest d (active q) (nat c)" using assms(1) by (auto simp: best_is_def)
  then show ?thesis using assms(2-4) by (simp add: quote_ok_nearest index_to_price_def)
next
  case False
  then show ?thesis using assms(2,3) by (simp add: quote_ok_empty)
qed

lemma bbo_unique:
  assumes "book_inv b" "bbo_correct cfg' (bid_levels b, ask_levels b) x" "min_price_int cfg' = min_price_int (bb_config b)"
  shows "bb_bbo b = x"
proof -
  have "quote_inv SearchHighest (bb_config b) (bid_quote b)" "quote_inv SearchLowest (bb_config b) (ask_quote b)"
    using assms(1) by (simp_all add: book_inv_def)
  then have "bid_price (bb_bbo b) = bid_price x \<and> bid_qty (bb_bbo b) = bid_qty x"
    "ask_price (bb_bbo b) = ask_price x \<and> ask_qty (bb_bbo b) = ask_qty x"
    using assms(2,3) quote_unique [where cfg = "bb_config b" and cfg' = cfg']
    by (auto simp: quote_inv_def bid_quote_def ask_quote_def bbo_correct_def bid_levels_def ask_levels_def)
  then show ?thesis by simp
qed

lemma from_ini_range:
  "min_price_int (from_ini f lo hi) = lo" "max_price_int (from_ini f lo hi) = hi" "num_levels (from_ini f lo hi) = nat (hi - lo + 1)"
  by (simp_all add: from_ini_def Let_def)

lemma spec_apply_variant: "spec_apply (from_ini f lo hi) = spec_apply (from_ini g lo hi)"
  by (intro ext) (simp only: spec_apply_def out_of_range_def from_ini_range)

lemma feed_ok_no_clear:
  "list_all (feed_ok (from_ini f lo hi)) mds \<Longrightarrow> list_all (no_clear (from_ini g lo hi)) mds"
  by (induction mds) (simp_all add: feed_ok_def no_clear_def out_of_range_def from_ini_range)

text \<open>
  The bucketed and the flat layout are interchangeable for the BBO: over any price range of at most 256
  buckets and any feed of added, modified and cancelled levels with positive quantities, the bucketed book
  runs without a fault and publishes the same BBO as the flat book.
\<close>

lemma book_variants_agree:
  assumes "0 \<le> lo" and "lo \<le> hi" and "hi < 2 ^ 31" and "hi - lo < 256 * 4096"
    and "list_all (feed_ok (from_ini False lo hi)) mds"
  shows "\<exists>b. run_feed (fresh_book lo hi) mds = Some b \<and> bb_bbo b = fb_bbo (flat_run (flat_book_new (from_ini True lo hi)) mds)"
proof -
  let ?f = "flat_book_new (from_ini True lo hi)" and ?c = "from_ini False lo hi"
  note f = fresh_book_inv [OF assms(1-3)] and fl = flat_new_inv [OF assms(1-3)]
  have ps: "bucket_pool_size ?c = bucket_count ?c" by (rule from_ini_shape(9) [OF assms(1-4)])
  obtain b where b: "run_feed (fresh_book lo hi) mds = Some b"
    using run_feed_total [OF f(1,5)] f(4) assms(5) ps by auto
  have r: "book_inv b" "bb_config b = ?c" "(bid_levels b, ask_levels b) = foldl (spec_apply ?c) (\<lambda>_. 0, \<lambda>_. 0) mds"
    using bucket_variant.feed_replays [OF f(1), of mds b] assms(5) b f(2-4) by (simp_all add: feed_all_run_feed)
  have fc: "fb_config ?f = from_ini True lo hi" by (simp add: flat_book_new_def)
  have ok: "list_all (no_clear (fb_config ?f)) mds" unfolding fc by (rule feed_ok_no_clear [OF assms(5)])
  have "bbo_correct (from_ini True lo hi) (foldl (spec_apply (from_ini True lo hi)) (\<lambda>_. 0, \<lambda>_. 0) mds) (fb_bbo (flat_run ?f mds))"
    using flat_variant.feed_bbo [OF fl(1) ok feed_all_flat_run] unfolding fl(2) fc .
  then have "bb_bbo b = fb_bbo (flat_run ?f mds)"
    unfolding spec_apply_variant [of True lo hi False] r(3) [symmetric]
    by (rule bbo_unique [OF r(1)]) (simp add: r(2) from_ini_range)
  then show ?thesis using b by blast
qed

subsection \<open>Depth queries of the flat book\<close>

definition flat_side_of :: "search_dir \<Rightarrow> flat_book \<Rightarrow> flat_side" where
  "flat_side_of d b = (case d of SearchHighest \<Rightarrow> fb_bid b | SearchLowest \<Rightarrow> fb_ask b)"

lemma flat_quote_cache:
  assumes "flat_quote_inv d cfg (s, p, v)"
  shows "flat_inv cfg s" "cache_ok d (flat_qty s) (fs_cached s)"
  using assms cache_ok_best by (auto simp: flat_quote_inv_def cache_ok_def)

text \<open>
  The depth queries of the flat book after any feed, on either side. They list the best levels of the
  plain replay, best first, exactly when the walk never leaves a bid level whose index is a positive multiple
  of 64: there \<open>next_active_bid\<close> shifts a 64-bit one by 64 and the queries have no defined result. Ask queries
  are always defined.
\<close>

lemma flat_peek_correct:
  assumes "0 \<le> lo" and "lo \<le> hi" and "hi < 2 ^ 31"
    and "b = flat_run (flat_book_new (from_ini True lo hi)) mds"
    and "lv = side_spec d (foldl (replay_apply (from_ini True lo hi)) (\<lambda>_. 0, \<lambda>_. 0) mds)"
    and "ls = dir_list d (filter (active lv) [0..<nat (hi - lo + 1)])"
  shows "fst (flat_peek_levels d (fb_config b) (flat_side_of d b) n) =
           (if list_all (shift_ok d) (take (n - 1) ls) then Some (take (max 1 n) ls) else None)
     \<and> fst (flat_peek_levels_with_qty d (fb_config b) (flat_side_of d b) k) =
           (if list_all (shift_ok d) (take (nat k - 1) ls)
            then Some (map (\<lambda>i. \<lparr>lv_idx = i, lv_qty_raw = lv i, lv_price_raw = lo + int i\<rparr>) (take (nat k) ls)) else None)
     \<and> fst (flat_peek_qty d (fb_config b) (flat_side_of d b) k m) =
           (if list_all (shift_ok d) (take (nat (min k (int m)) - 1) ls)
            then Some (if nat (min k (int m)) = 0 \<or> ls = [] then - 1 else int (length (take (nat (min k (int m))) ls)),
                       map (\<lambda>i. (lv i, i)) (take (nat (min k (int m))) ls)) else None)"
proof -
  note r = flat_run_spec [OF flat_new_inv(1) [OF assms(1-3)], of mds, folded assms(4)]
  have c: "fb_config b = from_ini True lo hi" and fl: "flat_levels b = foldl (replay_apply (from_ini True lo hi)) (\<lambda>_. 0, \<lambda>_. 0) mds"
    using r flat_new_inv(2) [OF assms(1-3)] by (simp_all add: flat_book_new_def)
  have q: "flat_qty (flat_side_of d b) = lv"
    unfolding assms(5) fl [symmetric] by (simp add: flat_side_of_def side_spec_def flat_levels_def split: search_dir.splits)
  have "flat_quote_inv d (fb_config b) (flat_side_of d b, if d = SearchHighest then bid_price (fb_bbo b) else ask_price (fb_bbo b),
      if d = SearchHighest then bid_qty (fb_bbo b) else ask_qty (fb_bbo b))"
    using conjunct1 [OF r] unfolding flat_book_inv_def flat_bid_quote_def flat_ask_quote_def flat_side_of_def by (cases d) simp_all
  note i = flat_quote_cache [OF this]
  have L: "ls = flat_side_levels d (fb_config b) (flat_side_of d b)" unfolding flat_side_levels_def q assms(6) c from_ini_range ..
  have p: "index_to_price (fb_config b) (int j) = lo + int j" for j by (simp add: index_to_price_def c from_ini_range)
  show ?thesis using flat_peeks(1) [OF i L, of n] flat_peeks(2) [OF i L, of k] flat_peeks(3) [OF i L, of k m]
    unfolding q p by (simp add: Let_def)
qed

end
