(* ===== verification/Layer_Book.thy ===== *)
theory Layer_Book
  imports HFT_Types
begin

text \<open>
  Working orders by layer (\<^verbatim>\<open>hft/src/layer_book.h\<close>, \<^verbatim>\<open>hft/src/orders.h\<close>): each ticker, position side and side
  has a \<open>SideBook\<close> of eight slots, the price tick each slot is mapped to, the replace in flight for each
  slot and the two indices from client order ids to slots. The fixed arrays are functions on the layer
  number; the hash maps are HOL maps; a layer of \<open>-1\<close> is \<^term>\<open>None\<close>. \<^verbatim>\<open>LayerBook::side_book\<close> creates an absent
  entry with a fresh \<open>SideBook\<close>, so the book of all tickers is a total function that is fresh everywhere at
  the start.
\<close>

datatype OMOrderState = OM_kInvalid | OM_kPendingNew | OM_kLive | OM_kPendingCancel | OM_kDead | OM_kReserved | OM_kCancelReserved

fun om_state_toString :: "OMOrderState \<Rightarrow> string" where
  "om_state_toString OM_kPendingNew = ''PENDING_NEW''"
| "om_state_toString OM_kLive = ''LIVE''"
| "om_state_toString OM_kPendingCancel = ''PENDING_CANCEL''"
| "om_state_toString OM_kDead = ''DEAD''"
| "om_state_toString OM_kInvalid = ''INVALID''"
| "om_state_toString OM_kReserved = ''RESERVED''"
| "om_state_toString OM_kCancelReserved = ''CANCEL_RESERVED''"

definition kSlotsPerSide :: nat where
  "kSlotsPerSide = 8"

definition kTicksInvalid :: u64 where
  "kTicksInvalid = 0"

record OrderSlot =
  sl_state :: OMOrderState
  sl_price :: int64
  sl_qty :: int64
  sl_last_used :: u64
  sl_cl_order_id :: order_id

definition OrderSlot_new :: OrderSlot where
  "OrderSlot_new = \<lparr>sl_state = OM_kInvalid, sl_price = kInvalidValue, sl_qty = kInvalidValue, sl_last_used = 0,
     sl_cl_order_id = kOrderIdInvalid\<rparr>"

record PendingReplaceInfo =
  pr_new_price :: int64
  pr_new_qty :: int64
  pr_new_tick :: u64
  pr_new_cl_order_id :: order_id
  pr_last_qty :: int64
  pr_original_cl_order_id :: order_id
  pr_original_price :: int64
  pr_original_tick :: u64

record SideBook =
  sb_slots :: "nat \<Rightarrow> OrderSlot"
  sb_layer_ticks :: "nat \<Rightarrow> u64"
  sb_pending_repl :: "nat \<Rightarrow> PendingReplaceInfo option"
  sb_orig_id_to_layer :: "u64 \<rightharpoonup> nat"
  sb_new_id_to_layer :: "u64 \<rightharpoonup> nat"

definition SideBook_new :: SideBook where
  "SideBook_new = \<lparr>sb_slots = (\<lambda>_. OrderSlot_new), sb_layer_ticks = (\<lambda>_. kTicksInvalid), sb_pending_repl = (\<lambda>_. None),
     sb_orig_id_to_layer = Map.empty, sb_new_id_to_layer = Map.empty\<rparr>"

record AssignPlan =
  ap_layer :: nat
  ap_victim_live_layer :: "nat option"
  ap_tick :: u64

type_synonym layer_book = "string \<Rightarrow> nat \<Rightarrow> nat \<Rightarrow> SideBook"

definition LayerBook_new :: layer_book where
  "LayerBook_new = (\<lambda>_ _ _. SideBook_new)"

definition pos_idx :: "PositionSide option \<Rightarrow> nat" where
  "pos_idx position_side = (case position_side of Some p \<Rightarrow> positionSideToIndex p | None \<Rightarrow> 0)"

definition side_book :: "layer_book \<Rightarrow> string \<Rightarrow> Side \<Rightarrow> PositionSide option \<Rightarrow> SideBook" where
  "side_book lb ticker side position_side = lb ticker (pos_idx position_side) (sideToIndex side)"

definition set_side_book :: "layer_book \<Rightarrow> string \<Rightarrow> Side \<Rightarrow> PositionSide option \<Rightarrow> SideBook \<Rightarrow> layer_book" where
  "set_side_book lb ticker side position_side sb =
     lb(ticker := (lb ticker)(pos_idx position_side := (lb ticker (pos_idx position_side))(sideToIndex side := sb)))"

abbreviation upd_slot :: "nat \<Rightarrow> (OrderSlot \<Rightarrow> OrderSlot) \<Rightarrow> SideBook \<Rightarrow> SideBook" where
  "upd_slot l f sb \<equiv> sb\<lparr>sb_slots := (sb_slots sb)(l := f (sb_slots sb l))\<rparr>"

subsection \<open>Finding layers\<close>

definition find_layer_by_ticks :: "SideBook \<Rightarrow> u64 \<Rightarrow> nat option" where
  "find_layer_by_ticks sb tick =
     first_some (\<lambda>idx. if sb_layer_ticks sb idx = tick then Some idx else None) [0..<kSlotsPerSide]"

definition find_layer_by_id :: "SideBook \<Rightarrow> order_id \<Rightarrow> nat option" where
  "find_layer_by_id sb order_id =
     (if order_id = kOrderIdInvalid then None
      else first_some (\<lambda>idx. if sl_cl_order_id (sb_slots sb idx) = order_id then Some idx else None) [0..<kSlotsPerSide])"

definition find_free_layer :: "SideBook \<Rightarrow> nat option" where
  "find_free_layer sb =
     first_some (\<lambda>idx. let state = sl_state (sb_slots sb idx) in
        if state = OM_kInvalid \<or> state = OM_kDead then Some idx
        else if sb_layer_ticks sb idx = kTicksInvalid then Some idx else None) [0..<kSlotsPerSide]"

definition pick_victim_layer :: "SideBook \<Rightarrow> nat" where
  "pick_victim_layer sb =
     foldl (\<lambda>victim index. if sl_last_used (sb_slots sb index) < sl_last_used (sb_slots sb victim) then index else victim)
       0 [1..<kSlotsPerSide]"

definition erase_layer :: "(u64 \<rightharpoonup> nat) \<Rightarrow> nat \<Rightarrow> (u64 \<rightharpoonup> nat)" where
  "erase_layer m layer = (\<lambda>k. if m k = Some layer then None else m k)"

definition unmap_layer :: "SideBook \<Rightarrow> nat \<Rightarrow> SideBook" where
  "unmap_layer sb layer =
     sb\<lparr>sb_layer_ticks := (sb_layer_ticks sb)(layer := kTicksInvalid),
        sb_new_id_to_layer := erase_layer (sb_new_id_to_layer sb) layer,
        sb_orig_id_to_layer := erase_layer (sb_orig_id_to_layer sb) layer,
        sb_pending_repl := (sb_pending_repl sb)(layer := None)\<rparr>"

definition plan_layer :: "SideBook \<Rightarrow> u64 \<Rightarrow> AssignPlan" where
  "plan_layer sb tick =
     (case find_layer_by_ticks sb tick of
        Some layer \<Rightarrow> \<lparr>ap_layer = layer, ap_victim_live_layer = None, ap_tick = tick\<rparr>
      | None \<Rightarrow>
          (case find_free_layer sb of
             Some layer \<Rightarrow> \<lparr>ap_layer = layer, ap_victim_live_layer = None, ap_tick = tick\<rparr>
           | None \<Rightarrow>
               let vidx = pick_victim_layer sb
               in \<lparr>ap_layer = vidx,
                   ap_victim_live_layer = (if sl_state (sb_slots sb vidx) = OM_kLive then Some vidx else None),
                   ap_tick = tick\<rparr>))"

definition last_active :: "SideBook \<Rightarrow> u64" where
  "last_active sb =
     foldl (\<lambda>last l. let slot = sb_slots sb l in
        if sl_state slot = OM_kLive \<or> sl_state slot = OM_kReserved then max last (sl_last_used slot) else last)
       0 [0..<kSlotsPerSide]"

definition get_last_time :: "layer_book \<Rightarrow> string \<Rightarrow> nat \<Rightarrow> u64" where
  "get_last_time lb symbol i = last_active (lb symbol (i div 2) (i mod 2))"

subsection \<open>Lemmas\<close>

lemma first_some_index:
  assumes "first_some (\<lambda>i. if P i then Some i else None) xs = Some l"
  shows "P l" "l \<in> set xs"
  using assms by (induction xs) (auto split: if_splits)

lemma first_some_index_None: "first_some (\<lambda>i. if P i then Some i else None) xs = None \<longleftrightarrow> (\<forall>i\<in>set xs. \<not> P i)"
  by (induction xs) auto

lemma find_layer_by_ticks_Some:
  "find_layer_by_ticks sb t = Some l \<Longrightarrow> l < 8 \<and> sb_layer_ticks sb l = t"
  by (auto simp: find_layer_by_ticks_def kSlotsPerSide_def dest: first_some_index)

lemma find_layer_by_ticks_None: "find_layer_by_ticks sb t = None \<longleftrightarrow> (\<forall>l < 8. sb_layer_ticks sb l \<noteq> t)"
  by (auto simp: find_layer_by_ticks_def kSlotsPerSide_def first_some_index_None)

lemma find_layer_by_id_Some:
  "find_layer_by_id sb i = Some l \<Longrightarrow> l < 8 \<and> sl_cl_order_id (sb_slots sb l) = i \<and> i \<noteq> kOrderIdInvalid"
  by (auto simp: find_layer_by_id_def kSlotsPerSide_def dest: first_some_index split: if_splits)

definition free_layer :: "SideBook \<Rightarrow> nat \<Rightarrow> bool" where
  "free_layer sb l \<longleftrightarrow> sl_state (sb_slots sb l) \<in> {OM_kInvalid, OM_kDead} \<or> sb_layer_ticks sb l = kTicksInvalid"

lemma find_free_layer_eq:
  "find_free_layer sb = first_some (\<lambda>i. if free_layer sb i then Some i else None) [0..<8]"
  unfolding find_free_layer_def kSlotsPerSide_def free_layer_def Let_def
  by (rule arg_cong [where f = "\<lambda>f. first_some f _"]) auto

lemma find_free_layer_Some: "find_free_layer sb = Some l \<Longrightarrow> l < 8 \<and> free_layer sb l"
  unfolding find_free_layer_eq by (auto dest: first_some_index)

lemma find_free_layer_None: "find_free_layer sb = None \<longleftrightarrow> (\<forall>l < 8. \<not> free_layer sb l)"
  unfolding find_free_layer_eq by (auto simp: first_some_index_None)

lemma foldl_argmin:
  fixes f :: "nat \<Rightarrow> 'a::linorder"
  defines "r \<equiv> \<lambda>v xs. foldl (\<lambda>v i. if f i < f v then i else v) v xs"
  shows "r v xs \<in> insert v (set xs) \<and> (\<forall>i \<in> insert v (set xs). f (r v xs) \<le> f i)"
proof (induction xs arbitrary: v)
  case (Cons x xs)
  have "r v (x # xs) = r (if f x < f v then x else v) xs" by (simp add: r_def)
  with Cons.IH [of "if f x < f v then x else v"] show ?case by auto
qed (simp add: r_def)

lemma pick_victim_min:
  "pick_victim_layer sb < 8"
  "l < 8 \<Longrightarrow> sl_last_used (sb_slots sb (pick_victim_layer sb)) \<le> sl_last_used (sb_slots sb l)"
proof -
  have s: "insert 0 (set [1..<kSlotsPerSide]) = {..<8}" by (auto simp: kSlotsPerSide_def)
  note m = foldl_argmin [of "\<lambda>i. sl_last_used (sb_slots sb i)" 0 "[1..<kSlotsPerSide]", folded pick_victim_layer_def, unfolded s]
  show "pick_victim_layer sb < 8" using m by simp
  show "l < 8 \<Longrightarrow> sl_last_used (sb_slots sb (pick_victim_layer sb)) \<le> sl_last_used (sb_slots sb l)" using m by blast
qed

lemma plan_layer_range:
  "ap_layer (plan_layer sb tick) < 8"
  "ap_victim_live_layer (plan_layer sb tick) = Some v \<Longrightarrow> v < 8 \<and> sl_state (sb_slots sb v) = OM_kLive"
  using pick_victim_min(1) [of sb]
  by (auto simp: plan_layer_def Let_def dest: find_layer_by_ticks_Some find_free_layer_Some split: option.splits if_splits)

text \<open>
  Layer planning is total and evicts last: the planned layer always exists; a tick that is already
  mapped keeps its layer; an unmapped tick takes a free layer when there is one; only when all eight layers
  are in use is one reused, the least recently used, and it is reported as a live victim exactly when its
  order is live.
\<close>

lemma plan_layer_correct:
  "case plan_layer sb tick of p \<Rightarrow>
     ap_layer p < kSlotsPerSide \<and> ap_tick p = tick
     \<and> (if \<exists>l < kSlotsPerSide. sb_layer_ticks sb l = tick
        then sb_layer_ticks sb (ap_layer p) = tick \<and> ap_victim_live_layer p = None
        else if \<exists>l < kSlotsPerSide. free_layer sb l
        then free_layer sb (ap_layer p) \<and> ap_victim_live_layer p = None
        else sl_last_used (sb_slots sb (ap_layer p)) = Min ((\<lambda>l. sl_last_used (sb_slots sb l)) ` {..<kSlotsPerSide})
          \<and> ap_victim_live_layer p = (if sl_state (sb_slots sb (ap_layer p)) = OM_kLive then Some (ap_layer p) else None))"
proof (cases "find_layer_by_ticks sb tick")
  case (Some l)
  then show ?thesis using find_layer_by_ticks_Some [OF Some] by (auto simp: plan_layer_def kSlotsPerSide_def)
next
  case None
  then have t: "\<not> (\<exists>l < kSlotsPerSide. sb_layer_ticks sb l = tick)" by (simp add: find_layer_by_ticks_None kSlotsPerSide_def)
  show ?thesis
  proof (cases "find_free_layer sb")
    case (Some l)
    then show ?thesis using t None find_free_layer_Some [OF Some] by (auto simp: plan_layer_def kSlotsPerSide_def)
  next
    case free: None
    then have "\<not> (\<exists>l < kSlotsPerSide. free_layer sb l)" by (simp add: find_free_layer_None kSlotsPerSide_def)
    moreover have "sl_last_used (sb_slots sb (pick_victim_layer sb)) = Min ((\<lambda>l. sl_last_used (sb_slots sb l)) ` {..<kSlotsPerSide})"
      using pick_victim_min(1) [of sb] pick_victim_min(2) [of _ sb]
      by (intro Min_eqI [symmetric]) (auto simp: kSlotsPerSide_def)
    ultimately show ?thesis using t None free pick_victim_min(1) [of sb] by (simp add: plan_layer_def kSlotsPerSide_def Let_def)
  qed
qed

end
