(* ===== verification/Order_State.thy ===== *)
theory Order_State
  imports Layer_Book
begin

text \<open>
  Execution reports against the layer book (\<^verbatim>\<open>hft/src/order_state_manager.cpp\<close>) and the tracker of the
  quantity in working orders (\<^verbatim>\<open>hft/src/reserved_position_tracker.h\<close>). Every handler maps a side book and the
  reserved quantity to the new ones. \<open>scale\<close> is \<^verbatim>\<open>TickConverter::scale_int\<close>; the constructor that computes it
  from a \<^verbatim>\<open>double\<close> tick size is not modelled and the scale is assumed to be positive.

  The accounting lemma \<open>handle_report_accounting\<close> says that a report moves the reserved quantity by exactly the
  change of the open quantity of the side book, modulo \<open>2 ^ 64\<close>, as long as the report is consistent with the
  slot it hits (\<open>report_ok\<close>).
\<close>

definition to_ticks_raw :: "int64 \<Rightarrow> int64 \<Rightarrow> u64" where
  "to_ticks_raw scale price_raw = word_of_int (price_raw sdiv scale)"

subsection \<open>Reserved position tracker\<close>

definition add_reserved :: "int64 \<Rightarrow> Side \<Rightarrow> int64 \<Rightarrow> int64" where
  "add_reserved reserved side qty = i64 (reserved + sideToValue side * qty)"

definition remove_reserved :: "int64 \<Rightarrow> Side \<Rightarrow> int64 \<Rightarrow> int64" where
  "remove_reserved reserved side qty = i64 (reserved - sideToValue side * qty)"

definition remove_partial_fill :: "int64 \<Rightarrow> Side \<Rightarrow> int64 \<Rightarrow> int64" where
  "remove_partial_fill reserved side filled_qty = i64 (reserved - sideToValue side * filled_qty)"

definition reset_reserved :: int64 where
  "reset_reserved = 0"

subsection \<open>Report handlers\<close>

definition find_layer :: "int64 \<Rightarrow> SideBook \<Rightarrow> order_id \<Rightarrow> int64 \<Rightarrow> nat option" where
  "find_layer scale sb order_id price =
     (case find_layer_by_id sb order_id of
        Some layer \<Rightarrow> Some layer
      | None \<Rightarrow> find_layer_by_ticks sb (to_ticks_raw scale price))"

type_synonym om_pair = "SideBook \<times> int64"

definition handle_pending_new :: "int64 \<Rightarrow> ExecutionReport \<Rightarrow> om_pair \<Rightarrow> om_pair" where
  "handle_pending_new scale r st = (case st of (sb, reserved) \<Rightarrow>
     (case find_layer scale sb (er_cl_order_id r) (er_price r) of
        None \<Rightarrow> (sb, reserved)
      | Some layer \<Rightarrow> (upd_slot layer (\<lambda>s. s\<lparr>sl_state := OM_kPendingNew\<rparr>) sb, reserved)))"

definition new_layer :: "int64 \<Rightarrow> ExecutionReport \<Rightarrow> SideBook \<Rightarrow> nat option" where
  "new_layer scale r sb =
     (case sb_new_id_to_layer sb (er_cl_order_id r) of
        Some layer \<Rightarrow> Some layer
      | None \<Rightarrow> find_layer scale sb (er_cl_order_id r) (er_price r))"

definition handle_new :: "int64 \<Rightarrow> ExecutionReport \<Rightarrow> om_pair \<Rightarrow> om_pair" where
  "handle_new scale r st = (case st of (sb, reserved) \<Rightarrow>
     (case new_layer scale r sb of
        None \<Rightarrow> (sb, reserved)
      | Some layer \<Rightarrow>
          let live = (\<lambda>s. s\<lparr>sl_price := er_price r, sl_qty := er_leaves_qty r, sl_cl_order_id := er_cl_order_id r, sl_state := OM_kLive\<rparr>)
          in case sb_pending_repl sb layer of
               Some pend \<Rightarrow>
                 let sb1 = sb\<lparr>sb_layer_ticks := (sb_layer_ticks sb)(layer := pr_new_tick pend)\<rparr>;
                     sb2 = upd_slot layer live sb1
                 in (sb2\<lparr>sb_pending_repl := (sb_pending_repl sb2)(layer := None),
                         sb_new_id_to_layer := (sb_new_id_to_layer sb2)(er_cl_order_id r := None)\<rparr>, reserved)
             | None \<Rightarrow>
                 let sb1 = sb\<lparr>sb_layer_ticks := (sb_layer_ticks sb)(layer := to_ticks_raw scale (er_price r))\<rparr>
                 in (upd_slot layer live sb1, reserved)))"

definition handle_partially_filled :: "int64 \<Rightarrow> u64 \<Rightarrow> ExecutionReport \<Rightarrow> om_pair \<Rightarrow> om_pair" where
  "handle_partially_filled scale now_ns r st = (case st of (sb, reserved) \<Rightarrow>
     (case find_layer scale sb (er_cl_order_id r) (er_price r) of
        None \<Rightarrow> (sb, reserved)
      | Some layer \<Rightarrow>
          let filled_qty = i64 (sl_qty (sb_slots sb layer) - er_leaves_qty r);
              reserved' = remove_partial_fill reserved (er_side r) filled_qty;
              state = (if er_leaves_qty r \<le> 0 then OM_kDead else OM_kLive);
              sb1 = upd_slot layer (\<lambda>s. s\<lparr>sl_qty := er_leaves_qty r, sl_state := state\<rparr>) sb
          in (if state = OM_kDead then unmap_layer sb1 layer
              else upd_slot layer (\<lambda>s. s\<lparr>sl_last_used := now_ns\<rparr>) sb1, reserved')))"

definition handle_filled :: "int64 \<Rightarrow> ExecutionReport \<Rightarrow> om_pair \<Rightarrow> om_pair" where
  "handle_filled scale r st = (case st of (sb, reserved) \<Rightarrow>
     (case find_layer scale sb (er_cl_order_id r) (er_price r) of
        None \<Rightarrow> (sb, reserved)
      | Some layer \<Rightarrow>
          (unmap_layer (upd_slot layer (\<lambda>s. s\<lparr>sl_qty := er_leaves_qty r, sl_state := OM_kDead\<rparr>) sb) layer,
           remove_reserved reserved (er_side r) (sl_qty (sb_slots sb layer)))))"

definition handle_pending_cancel :: "int64 \<Rightarrow> ExecutionReport \<Rightarrow> om_pair \<Rightarrow> om_pair" where
  "handle_pending_cancel scale r st = (case st of (sb, reserved) \<Rightarrow>
     (case find_layer scale sb (er_cl_order_id r) (er_price r) of
        None \<Rightarrow> (sb, reserved)
      | Some layer \<Rightarrow> (upd_slot layer (\<lambda>s. s\<lparr>sl_state := OM_kPendingCancel\<rparr>) sb, reserved)))"

definition kill_layer :: "SideBook \<Rightarrow> nat \<Rightarrow> SideBook" where
  "kill_layer sb layer = unmap_layer (upd_slot layer (\<lambda>s. s\<lparr>sl_state := OM_kDead\<rparr>) sb) layer"

definition handle_canceled :: "int64 \<Rightarrow> ExecutionReport \<Rightarrow> om_pair \<Rightarrow> om_pair" where
  "handle_canceled scale r st = (case st of (sb, reserved) \<Rightarrow>
     (case sb_orig_id_to_layer sb (er_cl_order_id r) of
        Some layer \<Rightarrow>
          (upd_slot layer (\<lambda>s. s\<lparr>sl_state := OM_kReserved\<rparr>)
             (sb\<lparr>sb_orig_id_to_layer := (sb_orig_id_to_layer sb)(er_cl_order_id r := None)\<rparr>), reserved)
      | None \<Rightarrow>
          (case find_layer scale sb (er_cl_order_id r) (er_price r) of
             None \<Rightarrow> (sb, reserved)
           | Some layer \<Rightarrow> (kill_layer sb layer, remove_reserved reserved (er_side r) (sl_qty (sb_slots sb layer))))))"

text \<open>
  The C++ code forms a reference to \<^verbatim>\<open>pending_repl[layer]\<close> before it tests that \<open>layer\<close> is not \<open>-1\<close>; the element
  is only read under the test, and the model reads it there.
\<close>

definition rejected_replace :: "ExecutionReport \<Rightarrow> SideBook \<Rightarrow> (nat \<times> PendingReplaceInfo) option" where
  "rejected_replace r sb =
     (case sb_new_id_to_layer sb (er_cl_order_id r) of
        None \<Rightarrow> None
      | Some layer \<Rightarrow> map_option (Pair layer) (sb_pending_repl sb layer))"

definition handle_rejected_or_expired :: "int64 \<Rightarrow> ExecutionReport \<Rightarrow> om_pair \<Rightarrow> om_pair" where
  "handle_rejected_or_expired scale r st = (case st of (sb, reserved) \<Rightarrow>
     (case rejected_replace r sb of
        Some (layer, pend) \<Rightarrow>
          let delta_qty = i64 (pr_new_qty pend - pr_last_qty pend);
              reserved' = remove_reserved reserved (er_side r) delta_qty;
              sb1 = sb\<lparr>sb_pending_repl := (sb_pending_repl sb)(layer := None),
                       sb_new_id_to_layer := (sb_new_id_to_layer sb)(er_cl_order_id r := None)\<rparr>;
              sb2 = upd_slot layer (\<lambda>s. s\<lparr>sl_state := OM_kLive, sl_price := pr_original_price pend,
                       sl_cl_order_id := pr_original_cl_order_id pend, sl_qty := pr_last_qty pend\<rparr>) sb1
          in (sb2\<lparr>sb_layer_ticks := (sb_layer_ticks sb2)(layer := pr_original_tick pend),
                  sb_orig_id_to_layer := (sb_orig_id_to_layer sb2)(er_cl_order_id r - 1 := None)\<rparr>, reserved')
      | None \<Rightarrow>
          (case find_layer scale sb (er_cl_order_id r) (er_price r) of
             Some layer \<Rightarrow> (kill_layer sb layer, remove_reserved reserved (er_side r) (sl_qty (sb_slots sb layer)))
           | None \<Rightarrow> (sb, reserved))))"

definition handle_execution_report :: "int64 \<Rightarrow> u64 \<Rightarrow> ExecutionReport \<Rightarrow> om_pair \<Rightarrow> om_pair" where
  "handle_execution_report scale now_ns r st =
     (case er_ord_status r of
        Ord_kPendingNew \<Rightarrow> handle_pending_new scale r st
      | Ord_kNew \<Rightarrow> handle_new scale r st
      | Ord_kPartiallyFilled \<Rightarrow> handle_partially_filled scale now_ns r st
      | Ord_kFilled \<Rightarrow> handle_filled scale r st
      | Ord_kPendingCancel \<Rightarrow> handle_pending_cancel scale r st
      | Ord_kCanceled \<Rightarrow> handle_canceled scale r st
      | Ord_kRejected \<Rightarrow> handle_rejected_or_expired scale r st
      | Ord_kExpired \<Rightarrow> handle_rejected_or_expired scale r st
      | Ord_kInvalid \<Rightarrow> st)"

subsection \<open>Open quantity\<close>

definition slot_open :: "OrderSlot \<Rightarrow> bool" where
  "slot_open s \<longleftrightarrow> sl_state s \<noteq> OM_kInvalid \<and> sl_state s \<noteq> OM_kDead"

definition slot_qty :: "OrderSlot \<Rightarrow> int" where
  "slot_qty s = (if slot_open s then sl_qty s else 0)"

definition open_slots :: "(nat \<Rightarrow> OrderSlot) \<Rightarrow> int" where
  "open_slots slots = (\<Sum>l<kSlotsPerSide. slot_qty (slots l))"

definition open_qty :: "SideBook \<Rightarrow> int" where
  "open_qty sb = open_slots (sb_slots sb)"

lemma open_slots_upd:
  assumes "l < 8"
  shows "open_slots (f(l := s)) = open_slots f - slot_qty (f l) + slot_qty s"
proof -
  have l: "l \<in> {..<kSlotsPerSide}" using assms by (simp add: kSlotsPerSide_def)
  have "(\<Sum>k\<in>{..<kSlotsPerSide} - {l}. slot_qty ((f(l := s)) k)) = (\<Sum>k\<in>{..<kSlotsPerSide} - {l}. slot_qty (f k))"
    by (rule sum.cong) auto
  then show ?thesis
    unfolding open_slots_def using sum.remove [OF _ l, of "\<lambda>k. slot_qty ((f(l := s)) k)"] sum.remove [OF _ l, of "\<lambda>k. slot_qty (f k)"]
    by simp
qed

lemma unmap_frame [simp]: "sb_slots (unmap_layer sb l) = sb_slots sb"
  by (simp add: unmap_layer_def)

lemma find_layer_Some: "find_layer scale sb i p = Some l \<Longrightarrow> l < 8"
  by (auto simp: find_layer_def dest: find_layer_by_id_Some find_layer_by_ticks_Some split: option.splits)

text \<open>All layers the indices point to exist.\<close>

definition ids_ok :: "SideBook \<Rightarrow> bool" where
  "ids_ok sb \<longleftrightarrow> (\<forall>i l. sb_new_id_to_layer sb i = Some l \<longrightarrow> l < 8) \<and> (\<forall>i l. sb_orig_id_to_layer sb i = Some l \<longrightarrow> l < 8)"

lemma ids_ok_upd [simp]: "ids_ok (sb\<lparr>sb_slots := f\<rparr>) = ids_ok sb" "ids_ok (sb\<lparr>sb_layer_ticks := k\<rparr>) = ids_ok sb"
  by (simp_all add: ids_ok_def)

definition hits :: "int64 \<Rightarrow> ExecutionReport \<Rightarrow> SideBook \<Rightarrow> (OrderSlot \<Rightarrow> bool) \<Rightarrow> bool" where
  "hits scale r sb P = (case find_layer scale sb (er_cl_order_id r) (er_price r) of None \<Rightarrow> True | Some l \<Rightarrow> P (sb_slots sb l))"

text \<open>
  A report is consistent with the book when the slot it hits holds an open order, a new-order acknowledgement
  leaves the whole slot quantity open, a partial fill does not leave a negative quantity, and a rejected
  replace finds the slot with the quantity of the replace.
\<close>

definition report_ok :: "int64 \<Rightarrow> ExecutionReport \<Rightarrow> SideBook \<Rightarrow> bool" where
  "report_ok scale r sb =
     (case er_ord_status r of
        Ord_kNew \<Rightarrow> (case new_layer scale r sb of None \<Rightarrow> True
                     | Some l \<Rightarrow> slot_open (sb_slots sb l) \<and> er_leaves_qty r = sl_qty (sb_slots sb l))
      | Ord_kPartiallyFilled \<Rightarrow> hits scale r sb slot_open \<and> 0 \<le> er_leaves_qty r
      | Ord_kCanceled \<Rightarrow> (case sb_orig_id_to_layer sb (er_cl_order_id r) of
                           Some l \<Rightarrow> slot_open (sb_slots sb l) | None \<Rightarrow> hits scale r sb slot_open)
      | Ord_kRejected \<Rightarrow> (case rejected_replace r sb of
                           Some (l, p) \<Rightarrow> slot_open (sb_slots sb l) \<and> sl_qty (sb_slots sb l) = pr_new_qty p
                         | None \<Rightarrow> hits scale r sb slot_open)
      | Ord_kExpired \<Rightarrow> (case rejected_replace r sb of
                           Some (l, p) \<Rightarrow> slot_open (sb_slots sb l) \<and> sl_qty (sb_slots sb l) = pr_new_qty p
                         | None \<Rightarrow> hits scale r sb slot_open)
      | Ord_kInvalid \<Rightarrow> True
      | _ \<Rightarrow> hits scale r sb slot_open)"

subsection \<open>Accounting\<close>

text \<open>The reserved quantity moved by the signed change of the open quantity.\<close>

definition accounted :: "Side \<Rightarrow> om_pair \<Rightarrow> om_pair \<Rightarrow> bool" where
  "accounted side st st' \<longleftrightarrow> snd st' = i64 (snd st + sideToValue side * (open_qty (fst st') - open_qty (fst st)))"

lemma accountedI:
  assumes "open_qty sb' = open_qty sb + d" "reserved' = i64 (reserved + sideToValue side * d)"
  shows "accounted side (sb, reserved) (sb', reserved')"
  using assms by (simp add: accounted_def)

lemma reserved_delta: "i64 (reserved - v * i64 (a - b)) = i64 (reserved + v * (b - a))"
  unfolding i64_diff_mult_right by (rule arg_cong [where f = i64]) (simp add: right_diff_distrib)

lemma accounted_same: "in_i64 reserved \<Longrightarrow> open_qty sb' = open_qty sb \<Longrightarrow> accounted side (sb, reserved) (sb', reserved)"
  by (simp add: accounted_def)

lemma slot_qty_simps:
  "sl_state s = OM_kDead \<Longrightarrow> slot_qty s = 0"
  "sl_state s \<notin> {OM_kInvalid, OM_kDead} \<Longrightarrow> slot_qty s = sl_qty s"
  "slot_open s \<Longrightarrow> slot_qty s = sl_qty s"
  by (simp_all add: slot_qty_def slot_open_def)

lemma open_qty_kill:
  assumes "l < 8" "slot_open (sb_slots sb l)"
  shows "open_qty (kill_layer sb l) = open_qty sb - sl_qty (sb_slots sb l)"
  using open_slots_upd [OF assms(1)] assms(2) by (simp add: open_qty_def kill_layer_def slot_qty_simps)

lemma accounted_restate:
  assumes "in_i64 reserved" "l < 8" "slot_open (sb_slots sb l)" "st \<notin> {OM_kInvalid, OM_kDead}"
    "sb_slots sb0 = sb_slots sb"
  shows "accounted side (sb, reserved) (upd_slot l (\<lambda>s. s\<lparr>sl_state := st\<rparr>) sb0, reserved)"
  using assms open_slots_upd [OF assms(2)] by (intro accounted_same) (simp_all add: open_qty_def slot_qty_simps)

lemma accounted_kill:
  assumes "l < 8" "slot_open (sb_slots sb l)"
  shows "accounted side (sb, reserved) (kill_layer sb l, remove_reserved reserved side (sl_qty (sb_slots sb l)))"
  using open_qty_kill [OF assms] by (intro accountedI [where d = "- sl_qty (sb_slots sb l)"]) (simp_all add: remove_reserved_def)

lemma hits_Some: "hits scale r sb P \<Longrightarrow> find_layer scale sb (er_cl_order_id r) (er_price r) = Some l \<Longrightarrow> P (sb_slots sb l)"
  by (simp add: hits_def)

lemma pending_new_accounted:
  assumes "in_i64 reserved" "hits scale r sb slot_open"
  shows "accounted side (sb, reserved) (handle_pending_new scale r (sb, reserved))"
    and "accounted side (sb, reserved) (handle_pending_cancel scale r (sb, reserved))"
  using assms
  by (auto simp: handle_pending_new_def handle_pending_cancel_def split: option.splits
      intro: accounted_same accounted_restate dest: hits_Some find_layer_Some)

lemma new_accounted:
  assumes "in_i64 reserved" "ids_ok sb"
    and "case new_layer scale r sb of None \<Rightarrow> True | Some l \<Rightarrow> slot_open (sb_slots sb l) \<and> er_leaves_qty r = sl_qty (sb_slots sb l)"
  shows "accounted side (sb, reserved) (handle_new scale r (sb, reserved))"
proof (cases "new_layer scale r sb")
  case None
  then show ?thesis using assms(1) by (simp add: handle_new_def accounted_same)
next
  case (Some l)
  then have l: "l < 8" using assms(2) by (auto simp: new_layer_def ids_ok_def dest: find_layer_Some split: option.splits)
  have c: "slot_open (sb_slots sb l)" "er_leaves_qty r = sl_qty (sb_slots sb l)" using assms(3) Some by simp_all
  show ?thesis
    using Some assms(1) c open_slots_upd [OF l]
    by (auto simp: handle_new_def Let_def open_qty_def slot_qty_simps split: option.splits intro!: accounted_same)
qed

lemma partial_accounted:
  assumes "hits scale r sb slot_open" "0 \<le> er_leaves_qty r" "in_i64 reserved"
  shows "accounted (er_side r) (sb, reserved) (handle_partially_filled scale now r (sb, reserved))"
proof (cases "find_layer scale sb (er_cl_order_id r) (er_price r)")
  case None
  then show ?thesis using assms(3) by (simp add: handle_partially_filled_def accounted_same)
next
  case (Some l)
  note l = find_layer_Some [OF Some] and slot_op = hits_Some [OF assms(1) Some]
  show ?thesis
    using Some slot_op assms(2) open_slots_upd [OF l]
    by (auto simp: handle_partially_filled_def Let_def open_qty_def slot_qty_simps remove_partial_fill_def reserved_delta
        intro!: accountedI [where d = "er_leaves_qty r - sl_qty (sb_slots sb l)"])
qed

lemma filled_accounted:
  assumes "hits scale r sb slot_open" "in_i64 reserved"
  shows "accounted (er_side r) (sb, reserved) (handle_filled scale r (sb, reserved))"
proof (cases "find_layer scale sb (er_cl_order_id r) (er_price r)")
  case None
  then show ?thesis using assms(2) by (simp add: handle_filled_def accounted_same)
next
  case (Some l)
  note l = find_layer_Some [OF Some] and slot_op = hits_Some [OF assms(1) Some]
  show ?thesis
    using Some slot_op open_slots_upd [OF l]
    by (auto simp: handle_filled_def open_qty_def slot_qty_simps remove_reserved_def
        intro!: accountedI [where d = "- sl_qty (sb_slots sb l)"])
qed

lemma canceled_accounted:
  assumes "case sb_orig_id_to_layer sb (er_cl_order_id r) of Some l \<Rightarrow> slot_open (sb_slots sb l) | None \<Rightarrow> hits scale r sb slot_open"
    "in_i64 reserved" "ids_ok sb"
  shows "accounted (er_side r) (sb, reserved) (handle_canceled scale r (sb, reserved))"
proof (cases "sb_orig_id_to_layer sb (er_cl_order_id r)")
  case None
  then show ?thesis using assms
    by (auto simp: handle_canceled_def split: option.splits intro: accounted_same accounted_kill dest: hits_Some find_layer_Some)
next
  case (Some l)
  have "l < 8" using assms(3) Some by (auto simp: ids_ok_def)
  then show ?thesis using Some assms(1,2) accounted_restate [of reserved l sb OM_kReserved]
    by (simp add: handle_canceled_def)
qed

lemma rejected_accounted:
  assumes "case rejected_replace r sb of Some (l, p) \<Rightarrow> slot_open (sb_slots sb l) \<and> sl_qty (sb_slots sb l) = pr_new_qty p
      | None \<Rightarrow> hits scale r sb slot_open" "in_i64 reserved" "ids_ok sb"
  shows "accounted (er_side r) (sb, reserved) (handle_rejected_or_expired scale r (sb, reserved))"
proof (cases "rejected_replace r sb")
  case None
  then show ?thesis using assms
    by (auto simp: handle_rejected_or_expired_def split: option.splits intro: accounted_same accounted_kill dest: hits_Some find_layer_Some)
next
  case (Some lp)
  obtain l p where lp: "lp = (l, p)" by fastforce
  have l: "l < 8" using assms(3) Some lp by (auto simp: rejected_replace_def ids_ok_def split: option.splits)
  have c: "slot_open (sb_slots sb l)" "sl_qty (sb_slots sb l) = pr_new_qty p" using assms(1) Some lp by simp_all
  show ?thesis
    using Some lp c open_slots_upd [OF l]
    by (auto simp: handle_rejected_or_expired_def Let_def open_qty_def slot_qty_simps remove_reserved_def reserved_delta
        intro!: accountedI [where d = "pr_last_qty p - pr_new_qty p"])
qed

lemma handle_report_accounting:
  assumes "report_ok scale r sb" "in_i64 reserved" "ids_ok sb"
  shows "accounted (er_side r) (sb, reserved) (handle_execution_report scale now r (sb, reserved))"
proof (cases "er_ord_status r")
  case Ord_kInvalid
  then show ?thesis using assms(2) by (simp add: handle_execution_report_def accounted_same)
qed (use assms in \<open>simp_all add: handle_execution_report_def report_ok_def pending_new_accounted new_accounted partial_accounted
      filled_accounted canceled_accounted rejected_accounted\<close>)

text \<open>The handlers only ever erase entries of the two id indices.\<close>

definition ids_le :: "SideBook \<Rightarrow> SideBook \<Rightarrow> bool" where
  "ids_le sb' sb \<longleftrightarrow> sb_new_id_to_layer sb' \<subseteq>\<^sub>m sb_new_id_to_layer sb \<and> sb_orig_id_to_layer sb' \<subseteq>\<^sub>m sb_orig_id_to_layer sb"

lemma ids_ok_le: "ids_ok sb \<Longrightarrow> ids_le sb' sb \<Longrightarrow> ids_ok sb'"
  unfolding ids_ok_def ids_le_def map_le_def by (metis domIff option.distinct(1))

lemma erase_layer_le: "erase_layer m l \<subseteq>\<^sub>m m"
  by (auto simp: erase_layer_def map_le_def split: if_splits)

lemma ids_le_simps [simp]:
  "ids_le sb sb" "ids_le (unmap_layer (sb\<lparr>sb_slots := f\<rparr>) l) sb" "ids_le (sb\<lparr>sb_slots := f\<rparr>) sb" "ids_le (kill_layer sb l) sb"
  "ids_le (sb\<lparr>sb_layer_ticks := t, sb_slots := f\<rparr>) sb"
  by (simp_all add: ids_le_def unmap_layer_def kill_layer_def erase_layer_le)

lemma handle_report_ids_le: "ids_le (fst (handle_execution_report scale now r (sb, reserved))) sb"
proof -
  have "ids_le (fst (handle_pending_new scale r (sb, reserved))) sb" "ids_le (fst (handle_filled scale r (sb, reserved))) sb"
    "ids_le (fst (handle_pending_cancel scale r (sb, reserved))) sb"
    by (simp_all add: handle_pending_new_def handle_filled_def handle_pending_cancel_def split: option.split)
  moreover have "ids_le (fst (handle_partially_filled scale now r (sb, reserved))) sb"
    by (simp add: handle_partially_filled_def Let_def split: option.split)
  moreover have "ids_le (fst (handle_new scale r (sb, reserved))) sb"
    by (simp add: handle_new_def Let_def split: option.split) (simp add: ids_le_def)
  moreover have "ids_le (fst (handle_canceled scale r (sb, reserved))) sb"
    by (simp add: handle_canceled_def split: option.split) (simp add: ids_le_def)
  moreover have "ids_le (fst (handle_rejected_or_expired scale r (sb, reserved))) sb"
    by (simp add: handle_rejected_or_expired_def Let_def split: option.split prod.split) (simp add: ids_le_def)
  ultimately show ?thesis by (cases "er_ord_status r") (simp_all add: handle_execution_report_def)
qed

lemma handle_report_ids: "ids_ok sb \<Longrightarrow> ids_ok (fst (handle_execution_report scale now r (sb, reserved)))"
  by (rule ids_ok_le [OF _ handle_report_ids_le])

text \<open>
  A repeated cancel report is not idempotent: the slot of a cancelled order keeps its client order id and
  its quantity, so a second report for the same order finds the dead slot again and takes its quantity off
  the reserved position a second time, although the open quantity of the book does not change.
\<close>

lemma repeated_cancel_drifts:
  assumes "er_ord_status r = Ord_kCanceled" and "find_layer_by_id sb (er_cl_order_id r) = Some l"
    and "sb_orig_id_to_layer sb (er_cl_order_id r) = None"
    and "once = handle_execution_report scale now r (sb, reserved)"
    and "twice = handle_execution_report scale now r once"
  shows "open_qty (fst twice) = open_qty (fst once)
     \<and> snd twice = i64 (snd once - sideToValue (er_side r) * sl_qty (sb_slots sb l))"
proof -
  have l: "l < 8" and f: "find_layer scale sb (er_cl_order_id r) (er_price r) = Some l"
    using assms(2) find_layer_by_id_Some by (auto simp: find_layer_def)
  have once: "once = (kill_layer sb l, remove_reserved reserved (er_side r) (sl_qty (sb_slots sb l)))"
    using assms(1,3,4) f by (simp add: handle_execution_report_def handle_canceled_def)
  have id: "sl_cl_order_id (sb_slots (kill_layer sb l) k) = sl_cl_order_id (sb_slots sb k)" for k by (simp add: kill_layer_def)
  then have "find_layer_by_id (kill_layer sb l) (er_cl_order_id r) = Some l" using assms(2) by (simp add: find_layer_by_id_def split: if_splits)
  then have f2: "find_layer scale (kill_layer sb l) (er_cl_order_id r) (er_price r) = Some l" by (simp add: find_layer_def)
  have o2: "sb_orig_id_to_layer (kill_layer sb l) (er_cl_order_id r) = None"
    using assms(3) by (simp add: kill_layer_def unmap_layer_def erase_layer_def)
  have q: "sl_qty (sb_slots (kill_layer sb l) l) = sl_qty (sb_slots sb l)" by (simp add: kill_layer_def)
  have "twice = (kill_layer (kill_layer sb l) l, remove_reserved (snd once) (er_side r) (sl_qty (sb_slots sb l)))"
    unfolding assms(5) once using assms(1) f2 o2 q by (simp add: handle_execution_report_def handle_canceled_def)
  moreover have "open_qty (kill_layer (kill_layer sb l) l) = open_qty (kill_layer sb l)"
    using open_slots_upd [OF l] by (simp add: open_qty_def kill_layer_def slot_qty_def slot_open_def)
  ultimately show ?thesis using once by (simp add: remove_reserved_def)
qed

definition demo_report :: "order_id \<Rightarrow> OrdStatus \<Rightarrow> int64 \<Rightarrow> int64 \<Rightarrow> ExecutionReport" where
  "demo_report i st leaves price = \<lparr>er_cl_order_id = i, er_symbol = ''BTCUSDC'', er_exec_type = Exec_kNew, er_ord_status = st, er_cum_qty = 0,
     er_leaves_qty = leaves, er_last_qty = 0, er_error_code = 0, er_price = price, er_side = kBuy, er_text = [], er_position_side = None\<rparr>"

end
