(* ===== verification/Quote_Reconciler.thy ===== *)
theory Quote_Reconciler
  imports Order_State
begin

text \<open>
  From quote intents to order actions (\<^verbatim>\<open>hft/src/quote_reconciler.h\<close>): \<open>diff\<close> compares the intents with the layer
  book, \<open>filter_by_venue\<close> drops actions that come too soon after the last order of their book and moves quantities
  into the limits of the venue. The intent of spot trading has no position side, that of futures has one; both
  are a \<open>QuoteIntent\<close>. A division by a price or an increment of 0 is \<^term>\<open>None\<close>. \<^verbatim>\<open>FixedPointConfig::kQtyScale\<close> is
  the parameter \<open>qty_scale\<close>. The set \<^verbatim>\<open>want_ticks\<close> of \<^verbatim>\<open>diff\<close> is written and never read, and is left out, as are the
  branches of the source that are commented out.
\<close>

record QuoteIntent =
  qi_ticker :: string
  qi_side :: Side
  qi_position_side :: "PositionSide option"
  qi_price :: "int64 option"
  qi_qty :: int64

record ActionNew =
  an_layer :: nat
  an_price :: int64
  an_qty :: int64
  an_side :: Side
  an_cl_order_id :: order_id
  an_position_side :: "PositionSide option"

record ActionReplace =
  ar_layer :: nat
  ar_price :: int64
  ar_qty :: int64
  ar_side :: Side
  ar_cl_order_id :: order_id
  ar_original_cl_order_id :: order_id
  ar_last_qty :: int64
  ar_position_side :: "PositionSide option"

record ActionCancel =
  ac_layer :: nat
  ac_side :: Side
  ac_cl_order_id :: order_id
  ac_original_cl_order_id :: order_id
  ac_position_side :: "PositionSide option"

record Actions =
  news :: "ActionNew list"
  repls :: "ActionReplace list"
  cancels :: "ActionCancel list"

definition Actions_empty :: Actions where
  "Actions_empty = \<lparr>news = [], repls = [], cancels = []\<rparr>"

definition actions_empty :: "Actions \<Rightarrow> bool" where
  "actions_empty a \<longleftrightarrow> news a = [] \<and> repls a = [] \<and> cancels a = []"

subsection \<open>Venue policy\<close>

record VenuePolicy =
  vp_minimum_usdt :: int64
  vp_minimum_qty :: int64
  vp_maximum_qty :: int64
  vp_minimum_time_gap :: int64
  vp_qty_increment :: int64

definition VenuePolicy_new :: "int64 \<Rightarrow> int64 \<Rightarrow> int64 \<Rightarrow> int64 \<Rightarrow> int64 \<Rightarrow> int64 \<Rightarrow> VenuePolicy" where
  "VenuePolicy_new price_scale qty_scale min_usdt min_qty max_qty gap =
     \<lparr>vp_minimum_usdt = i64 (min_usdt * price_scale), vp_minimum_qty = i64 (min_qty * qty_scale),
      vp_maximum_qty = i64 (max_qty * qty_scale), vp_minimum_time_gap = gap, vp_qty_increment = 1\<rparr>"

definition set_qty_increment :: "int64 \<Rightarrow> VenuePolicy \<Rightarrow> VenuePolicy" where
  "set_qty_increment increment vp = vp\<lparr>vp_qty_increment := increment\<rparr>"

definition round_qty :: "VenuePolicy \<Rightarrow> int64 \<Rightarrow> int64 option" where
  "round_qty vp qty =
     map_option (\<lambda>steps. i64 (steps * vp_qty_increment vp)) (cdiv (i64 (qty + vp_qty_increment vp - 1)) (vp_qty_increment vp))"

text \<open>The erase loop moves the last element into the place of the erased one.\<close>

function erase_swap :: "('a \<Rightarrow> bool) \<Rightarrow> nat \<Rightarrow> 'a list \<Rightarrow> 'a list" where
  "erase_swap P i vec =
     (if i < length vec
      then if P (vec ! i) then erase_swap P i (butlast (vec[i := last vec])) else erase_swap P (Suc i) vec
      else vec)"
  by pat_completeness auto
termination by (relation "measure (\<lambda>(P, i, vec). length vec - i)") auto

definition erase_if_too_recent ::
  "VenuePolicy \<Rightarrow> u64 \<Rightarrow> (nat \<Rightarrow> u64) \<Rightarrow> ('a \<Rightarrow> Side) \<Rightarrow> ('a \<Rightarrow> PositionSide option) \<Rightarrow> Side \<Rightarrow> PositionSide \<Rightarrow> nat \<Rightarrow> 'a list \<Rightarrow> 'a list" where
  "erase_if_too_recent vp current_time last_times side_of pos_of side pos_side time_idx vec =
     (if current_time - last_times time_idx < word_of_int (vp_minimum_time_gap vp)
      then erase_swap (\<lambda>a. side_of a = side \<and> pos_of a = Some pos_side) 0 vec else vec)"

definition erase_four :: "VenuePolicy \<Rightarrow> u64 \<Rightarrow> (nat \<Rightarrow> u64) \<Rightarrow> ('a \<Rightarrow> Side) \<Rightarrow> ('a \<Rightarrow> PositionSide option) \<Rightarrow> 'a list \<Rightarrow> 'a list" where
  "erase_four vp current_time last_times side_of pos_of vec =
     (let erase = erase_if_too_recent vp current_time last_times side_of pos_of
      in erase kSell kShort 3 (erase kBuy kShort 2 (erase kSell kLong 1 (erase kBuy kLong 0 vec))))"

text \<open>The quantity limits, common to new orders and replaces.\<close>

definition venue_qty :: "int64 \<Rightarrow> VenuePolicy \<Rightarrow> int64 \<Rightarrow> int64 \<Rightarrow> int64 option" where
  "venue_qty qty_scale vp price qty =
     (let q1 = (if qty < vp_minimum_qty vp then vp_minimum_qty vp else qty)
      in case cdiv (i64 (price * q1)) qty_scale of
           None \<Rightarrow> None
         | Some order_usdt \<Rightarrow>
             (case (if order_usdt < vp_minimum_usdt vp then cdiv (i64 (vp_minimum_usdt vp * qty_scale)) price else Some q1) of
                None \<Rightarrow> None
              | Some q2 \<Rightarrow> round_qty vp (if q2 > vp_maximum_qty vp then vp_maximum_qty vp else q2)))"

definition venue_new :: "int64 \<Rightarrow> VenuePolicy \<Rightarrow> ActionNew \<Rightarrow> ActionNew option" where
  "venue_new qty_scale vp a = map_option (\<lambda>q. a\<lparr>an_qty := q\<rparr>) (venue_qty qty_scale vp (an_price a) (an_qty a))"

definition venue_repl :: "int64 \<Rightarrow> VenuePolicy \<Rightarrow> ActionReplace \<Rightarrow> ActionReplace option" where
  "venue_repl qty_scale vp a =
     (case venue_qty qty_scale vp (ar_price a) (ar_qty a) of
        None \<Rightarrow> None
      | Some q \<Rightarrow> map_option (\<lambda>l. a\<lparr>ar_qty := q, ar_last_qty := l\<rparr>) (round_qty vp (ar_last_qty a)))"

fun map_opt :: "('a \<Rightarrow> 'b option) \<Rightarrow> 'a list \<Rightarrow> 'b list option" where
  "map_opt f [] = Some []"
| "map_opt f (x # xs) = (case f x of None \<Rightarrow> None | Some y \<Rightarrow> map_option (Cons y) (map_opt f xs))"

definition filter_by_venue :: "int64 \<Rightarrow> VenuePolicy \<Rightarrow> string \<Rightarrow> u64 \<Rightarrow> layer_book \<Rightarrow> Actions \<Rightarrow> Actions option" where
  "filter_by_venue qty_scale vp symbol current_time lb acts =
     (let last_times = get_last_time lb symbol;
          ns = erase_four vp current_time last_times an_side an_position_side (news acts);
          rs = erase_four vp current_time last_times ar_side ar_position_side (repls acts);
          cs = erase_four vp current_time last_times ac_side ac_position_side (cancels acts)
      in case map_opt (venue_new qty_scale vp) ns of
           None \<Rightarrow> None
         | Some ns' \<Rightarrow> map_option (\<lambda>rs'. \<lparr>news = ns', repls = rs', cancels = cs\<rparr>) (map_opt (venue_repl qty_scale vp) rs))"

subsection \<open>Reconciliation\<close>

record Reconciler =
  rc_min_replace_qty_delta :: int64
  rc_min_replace_tick_delta :: u64
  rc_scale_int :: int64

definition intent_active :: "QuoteIntent \<Rightarrow> bool" where
  "intent_active i \<longleftrightarrow> (case qi_price i of None \<Rightarrow> False | Some p \<Rightarrow> p \<noteq> kInvalidValue \<and> qi_qty i > 0)"

definition diff_intent :: "Reconciler \<Rightarrow> layer_book \<Rightarrow> string \<Rightarrow> u64 \<Rightarrow> Side \<Rightarrow> QuoteIntent \<Rightarrow> Actions \<Rightarrow> Actions" where
  "diff_intent rc lb ticker_id now side intent acts =
     (if qi_side intent \<noteq> side \<or> \<not> intent_active intent then acts
      else
        let pos_side = qi_position_side intent;
            sb = side_book lb ticker_id side pos_side;
            price = the (qi_price intent);
            tick = to_ticks_raw (rc_scale_int rc) price;
            assign = plan_layer sb tick;
            slot = sb_slots sb (ap_layer assign);
            replace = (\<lambda>layer s. \<lparr>ar_layer = layer, ar_price = price, ar_qty = qi_qty intent, ar_side = side, ar_cl_order_id = now,
                         ar_original_cl_order_id = sl_cl_order_id s, ar_last_qty = sl_qty s, ar_position_side = pos_side\<rparr>)
        in case ap_victim_live_layer assign of
             Some vidx \<Rightarrow> acts\<lparr>repls := repls acts @ [replace vidx (sb_slots sb vidx)]\<rparr>
           | None \<Rightarrow>
               if sl_state slot = OM_kInvalid \<or> sl_state slot = OM_kDead
               then acts\<lparr>news := news acts @ [\<lparr>an_layer = ap_layer assign, an_price = price, an_qty = qi_qty intent, an_side = side,
                                             an_cl_order_id = now, an_position_side = pos_side\<rparr>]\<rparr>
               else if sl_state slot = OM_kLive
               then let slot_tick = to_ticks_raw (rc_scale_int rc) (sl_price slot);
                        price_diff = (if slot_tick > tick then slot_tick - tick \<ge> rc_min_replace_tick_delta rc
                                      else tick - slot_tick \<ge> rc_min_replace_tick_delta rc);
                        qty_delta = i64 (sl_qty slot - qi_qty intent);
                        qty_diff = (\<bar>qty_delta\<bar> \<ge> rc_min_replace_qty_delta rc)
                    in if price_diff \<or> qty_diff then acts\<lparr>repls := repls acts @ [replace (ap_layer assign) slot]\<rparr> else acts
               else acts)"

definition diff :: "Reconciler \<Rightarrow> QuoteIntent list \<Rightarrow> layer_book \<Rightarrow> u64 \<Rightarrow> Actions" where
  "diff rc intents lb now =
     (case intents of
        [] \<Rightarrow> Actions_empty
      | front # _ \<Rightarrow> fold (\<lambda>side acts. fold (diff_intent rc lb (qi_ticker front) now side) intents acts) [kBuy, kSell] Actions_empty)"

subsection \<open>Lemmas: erasing\<close>

declare erase_swap.simps [simp del]

lemma mset_move_last:
  assumes "i < length v"
  shows "mset (butlast (v[i := last v])) = mset v - {#v ! i#}"
proof (cases "i = length v - 1")
  case True
  then have "v[i := last v] = v" using assms by (metis last_conv_nth list_update_id list.size(3) not_less0)
  moreover have "v = butlast v @ [v ! i]" using True assms by (metis append_butlast_last_id last_conv_nth list.size(3) not_less0)
  ultimately show ?thesis by (metis add_mset_remove_trivial mset_append mset.simps add_mset_add_single mset_single_iff)
next
  case False
  define u where "u = butlast v"
  have "v \<noteq> []" using assms by auto
  then have v: "v = u @ [last v]" by (simp add: u_def)
  have i: "i < length u" using False assms by (simp add: u_def)
  have "butlast (v[i := last v]) = u[i := last v]" using i by (subst v) (simp add: list_update_append)
  moreover have "mset (u[i := last v]) = add_mset (last v) (mset u - {#u ! i#})" using i by (rule mset_update)
  moreover have "v ! i = u ! i" using i by (subst v) (simp add: nth_append)
  moreover have "mset v = add_mset (last v) (mset u)" by (subst v) simp
  ultimately show ?thesis using i by (simp add: nth_mem_mset)
qed

lemma erase_swap_mset:
  "list_all (\<lambda>x. \<not> P x) (take i v) \<Longrightarrow> mset (erase_swap P i v) = filter_mset (\<lambda>x. \<not> P x) (mset v)"
proof (induction P i v rule: erase_swap.induct)
  case (1 P i v)
  show ?case
  proof (cases "i < length v")
    case False
    then have "filter_mset (\<lambda>x. \<not> P x) (mset v) = mset v" using "1.prems" by (simp add: list_all_iff filter_mset_eq_conv)
    then show ?thesis using False by (simp add: erase_swap.simps)
  next
    case True
    show ?thesis
    proof (cases "P (v ! i)")
      case P: True
      have "take i (butlast (v[i := last v])) = take i v" using True by (simp add: take_butlast)
      then have "mset (erase_swap P i (butlast (v[i := last v]))) = filter_mset (\<lambda>x. \<not> P x) (mset v - {#v ! i#})"
        using "1.IH"(1) [OF True P] "1.prems" mset_move_last [OF True] by simp
      then show ?thesis using True P by (simp add: erase_swap.simps [of P i v])
    next
      case P: False
      then have "list_all (\<lambda>x. \<not> P x) (take (Suc i) v)" using "1.prems" True by (simp add: take_Suc_conv_app_nth)
      then show ?thesis using "1.IH"(2) [OF True P] True P by (simp add: erase_swap.simps [of P i v])
    qed
  qed
qed

definition too_recent :: "VenuePolicy \<Rightarrow> u64 \<Rightarrow> (nat \<Rightarrow> u64) \<Rightarrow> Side \<Rightarrow> PositionSide option \<Rightarrow> bool" where
  "too_recent vp current_time last_times side pos =
     (side \<in> {kBuy, kSell} \<and> pos \<in> {Some kLong, Some kShort}
      \<and> current_time - last_times (2 * pos_idx pos + sideToIndex side) < word_of_int (vp_minimum_time_gap vp))"

lemma erase_recent_mset:
  "mset (erase_if_too_recent vp now lt side_of pos_of s p i v)
     = filter_mset (\<lambda>a. \<not> (now - lt i < word_of_int (vp_minimum_time_gap vp) \<and> side_of a = s \<and> pos_of a = Some p)) (mset v)"
  by (simp add: erase_if_too_recent_def erase_swap_mset)

lemma erase_four_mset:
  "mset (erase_four vp now lt side_of pos_of v) = filter_mset (\<lambda>a. \<not> too_recent vp now lt (side_of a) (pos_of a)) (mset v)"
  unfolding erase_four_def Let_def erase_recent_mset filter_filter_mset
  by (rule filter_mset_cong) (auto simp: too_recent_def pos_idx_def)

text \<open>
  The time filter of the venue policy. Whatever order its swap-and-pop loops leave behind, it keeps exactly the
  new orders, replaces and cancels whose own side and position side did not trade within the minimum gap, each as
  often as before. An action without a position side (spot trading) matches none of the four filters and is always
  kept, whatever the gap.
\<close>

lemma venue_time_filter:
  "mset (erase_four vp now (get_last_time lb symbol) an_side an_position_side ns)
     = filter_mset (\<lambda>a. \<not> too_recent vp now (get_last_time lb symbol) (an_side a) (an_position_side a)) (mset ns)
   \<and> mset (erase_four vp now (get_last_time lb symbol) ar_side ar_position_side rs)
     = filter_mset (\<lambda>a. \<not> too_recent vp now (get_last_time lb symbol) (ar_side a) (ar_position_side a)) (mset rs)
   \<and> mset (erase_four vp now (get_last_time lb symbol) ac_side ac_position_side cs)
     = filter_mset (\<lambda>a. \<not> too_recent vp now (get_last_time lb symbol) (ac_side a) (ac_position_side a)) (mset cs)
   \<and> \<not> too_recent vp now (get_last_time lb symbol) side None"
  by (simp add: erase_four_mset too_recent_def)

subsection \<open>Venue quantities\<close>

lemma round_qty_up:
  assumes "0 < vp_qty_increment vp" "0 \<le> q" "q + vp_qty_increment vp < 2 ^ 63"
  shows "\<exists>r. round_qty vp q = Some r \<and> vp_qty_increment vp dvd r \<and> q \<le> r \<and> r < q + vp_qty_increment vp
     \<and> (vp_qty_increment vp dvd q \<longrightarrow> r = q)"
proof -
  let ?n = "vp_qty_increment vp"
  let ?s = "(q + ?n - 1) div ?n"
  have m: "?s * ?n = (q + ?n - 1) - (q + ?n - 1) mod ?n" by (simp add: minus_mod_eq_div_mult)
  have r: "q \<le> ?s * ?n" "?s * ?n < q + ?n" unfolding m using assms(1) pos_mod_bound [of ?n "q + ?n - 1"] pos_mod_sign [of ?n "q + ?n - 1"] by linarith+
  have "in_i64 (?s * ?n)" "in_i64 (q + ?n - 1)" using r assms by (auto simp: in_i64_def)
  then have "round_qty vp q = Some (?s * ?n)" using assms by (simp add: round_qty_def cdiv_nonneg)
  moreover have "?s * ?n = q" if nq: "?n dvd q"
  proof -
    obtain b where q: "q = ?n * b" using nq unfolding dvd_def by blast
    have "(?n - 1 + ?n * b) div ?n = b" using assms(1) by (subst div_mult_self2) auto
    then show ?thesis by (simp add: q algebra_simps)
  qed
  ultimately show ?thesis using r by auto
qed

text \<open>
  C33. Quantities sent to the venue. For a positive price and limits that do not overflow, the policy always produces a
  quantity: a multiple of the increment, at least the venue minimum and, unless the maximum caps it, at least the
  quantity asked for. It stays below the maximum plus one increment (the rounding comes after the cap, so it is at
  most the maximum only if that is itself a multiple of the increment), and below the maximum it misses the minimum
  notional by less than the price of one quantity unit.
\<close>

theorem venue_qty_bounds:
  assumes "0 < price" "0 < qty_scale" "0 \<le> vp_minimum_qty vp" "vp_minimum_qty vp \<le> vp_maximum_qty vp" "0 < vp_qty_increment vp"
    and "vp_maximum_qty vp + vp_qty_increment vp < 2 ^ 63" "price * max qty (vp_minimum_qty vp) < 2 ^ 63"
    and "0 \<le> vp_minimum_usdt vp" "vp_minimum_usdt vp * qty_scale < 2 ^ 63"
  shows "\<exists>q. venue_qty qty_scale vp price qty = Some q \<and> vp_qty_increment vp dvd q \<and> vp_minimum_qty vp \<le> q
     \<and> min qty (vp_maximum_qty vp) \<le> q \<and> q < vp_maximum_qty vp + vp_qty_increment vp
     \<and> (vp_qty_increment vp dvd vp_maximum_qty vp \<longrightarrow> q \<le> vp_maximum_qty vp)
     \<and> (q < vp_maximum_qty vp \<longrightarrow> vp_minimum_usdt vp * qty_scale < price * (q + 1))"
proof -
  let ?lo = "vp_minimum_qty vp" and ?hi = "vp_maximum_qty vp" and ?n = "vp_qty_increment vp"
  let ?u = "vp_minimum_usdt vp * qty_scale"
  define q1 where "q1 = (if qty < ?lo then ?lo else qty)"
  have q1: "0 \<le> q1" "?lo \<le> q1" "qty \<le> q1" "0 \<le> price * q1" "price * q1 < 2 ^ 63"
    using assms(1,3,7) by (auto simp: q1_def max_def split: if_splits)
  have d1: "cdiv (i64 (price * q1)) qty_scale = Some (price * q1 div qty_scale)"
    using q1 assms(2) by (simp add: in_i64_def cdiv_nonneg)
  have d2: "cdiv (i64 ?u) price = Some (?u div price)"
  proof -
    have "0 \<le> ?u" using assms(2,8) by simp
    then show ?thesis using assms(1,9) by (simp add: in_i64_def cdiv_nonneg)
  qed
  define q2 where "q2 = (if price * q1 div qty_scale < vp_minimum_usdt vp then ?u div price else q1)"
  have q2: "q1 \<le> q2 \<and> (?u < price * (q2 + 1))"
  proof (cases "price * q1 div qty_scale < vp_minimum_usdt vp")
    case True
    then have "price * q1 < ?u" using assms(2) by (metis div_le_mono le_less_linear nonzero_mult_div_cancel_right not_less less_irrefl zdiv_mono1 order_less_le_trans)
    then have "q1 * price \<le> ?u" by (simp add: mult.commute)
    then have "q1 \<le> ?u div price" using assms(1) by (metis nonzero_mult_div_cancel_right not_less_iff_gr_or_eq zdiv_mono1)
    moreover have "?u < price * (?u div price + 1)"
      using assms(1) pos_mod_bound [of price ?u] by (simp add: distrib_left minus_mod_eq_mult_div [symmetric])
    ultimately show ?thesis using True by (simp add: q2_def)
  next
    case False
    then have "?u \<le> price * q1 div qty_scale * qty_scale" using assms(2) by (simp add: mult_right_mono)
    also have "\<dots> \<le> price * q1" using assms(2) by (simp add: minus_mod_eq_div_mult [symmetric])
    finally show ?thesis using False assms(1) by (simp add: q2_def distrib_left)
  qed
  define q3 where "q3 = (if q2 > ?hi then ?hi else q2)"
  have q3: "?lo \<le> q3" "q3 \<le> ?hi" "min qty ?hi \<le> q3" "0 \<le> q3" "q3 < ?hi \<longrightarrow> q3 = q2"
    using q1 q2 assms(3,4) by (auto simp: q3_def)
  obtain r where r: "round_qty vp q3 = Some r" "?n dvd r" "q3 \<le> r" "r < q3 + ?n" "?n dvd q3 \<longrightarrow> r = q3"
    using round_qty_up [OF assms(5) q3(4)] q3(2) assms(6) by fastforce
  have v: "venue_qty qty_scale vp price qty = Some r"
    using r(1) unfolding venue_qty_def Let_def q1_def [symmetric] d1 d2 q3_def
    by (cases "price * q1 div qty_scale < vp_minimum_usdt vp") (simp_all add: q2_def split: if_splits)
  have le: "r \<le> ?hi" if nhi: "?n dvd ?hi"
  proof -
    obtain a b where ab: "r = ?n * a" "?hi = ?n * b" using nhi r(2) by (auto elim!: dvdE)
    have "?n * a < ?n * (b + 1)" using r(4) q3(2) by (simp add: ab [symmetric] distrib_left)
    then show ?thesis using assms(5) by (simp add: ab)
  qed
  have "?u < price * (r + 1)" if "r < ?hi"
  proof -
    have "price * (q2 + 1) \<le> price * (r + 1)" using that r(3) q3(5) assms(1) by (intro mult_left_mono) auto
    then show ?thesis using q2 by linarith
  qed
  then show ?thesis using v r(2-4) q3 le by (intro exI [of _ r]) auto
qed

theorem venue_qty_bounds_witness:
  "let vp = \<lparr>vp_minimum_usdt = 1000, vp_minimum_qty = 2, vp_maximum_qty = 1001, vp_minimum_time_gap = 5, vp_qty_increment = 10\<rparr>
   in \<exists>q. venue_qty 1000 vp 3000 5 = Some q \<and> 10 dvd q \<and> 5 \<le> q \<and> q < 1011 \<and> (q < 1001 \<longrightarrow> 1000000 < 3000 * (q + 1))"
  unfolding Let_def
  using venue_qty_bounds [of 3000 1000 "\<lparr>vp_minimum_usdt = 1000, vp_minimum_qty = 2, vp_maximum_qty = 1001, vp_minimum_time_gap = 5, vp_qty_increment = 10\<rparr>" 5]
  by simp blast

subsection \<open>Reconciliation\<close>

definition new_target_ok :: "layer_book \<Rightarrow> string \<Rightarrow> ActionNew \<Rightarrow> bool" where
  "new_target_ok lb ticker a \<longleftrightarrow> an_layer a < kSlotsPerSide
     \<and> sl_state (sb_slots (side_book lb ticker (an_side a) (an_position_side a)) (an_layer a)) \<in> {OM_kInvalid, OM_kDead}"

definition repl_target_ok :: "layer_book \<Rightarrow> string \<Rightarrow> ActionReplace \<Rightarrow> bool" where
  "repl_target_ok lb ticker a \<longleftrightarrow> ar_layer a < kSlotsPerSide
     \<and> (let slot = sb_slots (side_book lb ticker (ar_side a) (ar_position_side a)) (ar_layer a)
        in sl_state slot = OM_kLive \<and> ar_original_cl_order_id a = sl_cl_order_id slot \<and> ar_last_qty a = sl_qty slot)"

definition actions_target_ok :: "layer_book \<Rightarrow> string \<Rightarrow> u64 \<Rightarrow> Actions \<Rightarrow> bool" where
  "actions_target_ok lb ticker now acts \<longleftrightarrow>
     list_all (\<lambda>a. new_target_ok lb ticker a \<and> an_cl_order_id a = now \<and> 0 < an_qty a) (news acts)
     \<and> list_all (\<lambda>a. repl_target_ok lb ticker a \<and> ar_cl_order_id a = now \<and> 0 < ar_qty a) (repls acts) \<and> cancels acts = []"

lemma diff_intent_ok:
  assumes "actions_target_ok lb ticker now acts"
  shows "actions_target_ok lb ticker now (diff_intent rc lb ticker now side i acts)"
proof (cases "qi_side i \<noteq> side \<or> \<not> intent_active i")
  case True
  then show ?thesis using assms by (simp add: diff_intent_def)
next
  case False
  then obtain price where a: "qi_price i = Some price" "0 < qi_qty i" by (auto simp: intent_active_def split: option.splits)
  note p = plan_layer_range [of "side_book lb ticker side (qi_position_side i)" "to_ticks_raw (rc_scale_int rc) price"]
  show ?thesis using assms False a p
    by (auto simp: diff_intent_def Let_def actions_target_ok_def new_target_ok_def repl_target_ok_def kSlotsPerSide_def split: option.split)
qed

lemma fold_diff_intent_ok:
  "actions_target_ok lb ticker now acts \<Longrightarrow> actions_target_ok lb ticker now (fold (diff_intent rc lb ticker now side) xs acts)"
  by (induction xs arbitrary: acts) (simp_all add: diff_intent_ok)

lemma diff_targets_ok: "intents = front # rest \<Longrightarrow> actions_target_ok lb (qi_ticker front) now (diff rc intents lb now)"
  by (simp only: diff_def list.case fold.simps comp_apply id_apply, intro fold_diff_intent_ok diff_intent_ok)
    (simp add: actions_target_ok_def Actions_empty_def)

text \<open>
  What reconciliation may touch: \<open>diff\<close> never cancels; every new order it asks for has a positive quantity and goes
  to an existing layer without a working order; every replace goes to a layer with a live order and carries that
  order's id and quantity. So a working order is never silently overwritten by a new one planned from the same book,
  and orders that are pending, reserved or being cancelled are left alone.
\<close>

lemma diff_touches_only_free_or_live:
  "case intents of [] \<Rightarrow> actions_empty (diff rc intents lb now)
   | front # _ \<Rightarrow> actions_target_ok lb (qi_ticker front) now (diff rc intents lb now)"
  using diff_targets_ok by (auto simp: diff_def actions_empty_def Actions_empty_def split: list.split)

text \<open>
  Intents of one call are planned against the same unchanged book and share one order id. Two active intents on the
  same side and position side whose prices have no layer yet are both sent to the first free layer, with the same
  client order id, although seven more layers may be free.
\<close>

lemma diff_same_layer_twice:
  assumes "qi_side i1 = kBuy" "qi_side i2 = kBuy" "intent_active i1" "intent_active i2"
    and "qi_position_side i2 = qi_position_side i1"
    and sb: "sb = side_book lb (qi_ticker i1) kBuy (qi_position_side i1)"
    and "find_layer_by_ticks sb (to_ticks_raw (rc_scale_int rc) (the (qi_price i1))) = None"
    and "find_layer_by_ticks sb (to_ticks_raw (rc_scale_int rc) (the (qi_price i2))) = None"
    and "find_free_layer sb = Some l" "sl_state (sb_slots sb l) \<in> {OM_kInvalid, OM_kDead}"
  shows "map (\<lambda>a. (an_layer a, an_cl_order_id a)) (news (diff rc [i1, i2] lb now)) = [(l, now), (l, now)]"
  using assms by (auto simp: diff_def diff_intent_def plan_layer_def Let_def Actions_empty_def)

end
