(* ===== verification/Order_Expiry.thy ===== *)
theory Order_Expiry
  imports Layer_Book
begin

text \<open>
  Time-to-live of working orders (\<^verbatim>\<open>hft/src/order_expiry_manager.h\<close>): a min-heap of expiry keys ordered by their
  expiry time only. \<open>min_queue\<close> is what the manager relies on of \<^verbatim>\<open>std::priority_queue\<close>, and the sweep is analysed
  from those laws; a list kept sorted by expiry time is a queue with them. Which of several keys with the same
  expiry time comes first is not fixed by the C++ library; the list queue takes the one pushed last first.
\<close>

record ExpiryKey =
  ek_expire_ts :: u64
  ek_symbol :: string
  ek_side :: Side
  ek_position_side :: "PositionSide option"
  ek_layer :: nat
  ek_cl_order_id :: order_id

record OrderExpiryManager =
  ex_pq :: "ExpiryKey list"
  ex_ttl_reserved_ns :: u64
  ex_ttl_live_ns :: u64

definition pq_push :: "ExpiryKey \<Rightarrow> ExpiryKey list \<Rightarrow> ExpiryKey list" where
  "pq_push k q = insort_key ek_expire_ts k q"

definition pq_top :: "ExpiryKey list \<Rightarrow> ExpiryKey option" where
  "pq_top q = (case q of [] \<Rightarrow> None | k # _ \<Rightarrow> Some k)"

definition pq_pop :: "ExpiryKey list \<Rightarrow> ExpiryKey list" where
  "pq_pop q = tl q"

definition expiry_new :: "u64 \<Rightarrow> u64 \<Rightarrow> OrderExpiryManager" where
  "expiry_new ttl_reserved_ns ttl_live_ns =
     \<lparr>ex_pq = [], ex_ttl_reserved_ns = ttl_reserved_ns, ex_ttl_live_ns = ttl_live_ns\<rparr>"

definition register_expiry ::
  "string \<Rightarrow> Side \<Rightarrow> PositionSide option \<Rightarrow> nat \<Rightarrow> order_id \<Rightarrow> OMOrderState \<Rightarrow> u64 \<Rightarrow> OrderExpiryManager \<Rightarrow> OrderExpiryManager" where
  "register_expiry ticker side position_side layer order_id state now_ns m =
     (let ttl = (if state = OM_kReserved \<or> state = OM_kCancelReserved then ex_ttl_reserved_ns m else ex_ttl_live_ns m)
      in m\<lparr>ex_pq := pq_push \<lparr>ek_expire_ts = now_ns + ttl, ek_symbol = ticker, ek_side = side, ek_position_side = position_side,
                            ek_layer = layer, ek_cl_order_id = order_id\<rparr> (ex_pq m)\<rparr>)"

text \<open>The loop of \<^verbatim>\<open>sweep_expired\<close> over any queue; the bound is the number of keys, one of which each round removes.\<close>

fun drain :: "('q \<Rightarrow> 'k option) \<Rightarrow> ('q \<Rightarrow> 'q) \<Rightarrow> ('k \<Rightarrow> bool) \<Rightarrow> nat \<Rightarrow> 'q \<Rightarrow> 'k list \<times> 'q" where
  "drain peek pop due 0 q = ([], q)"
| "drain peek pop due (Suc n) q =
     (case peek q of
        None \<Rightarrow> ([], q)
      | Some k \<Rightarrow> if due k then (case drain peek pop due n (pop q) of (ks, q') \<Rightarrow> (k # ks, q')) else ([], q))"

definition pending_count :: "OrderExpiryManager \<Rightarrow> nat" where
  "pending_count m = length (ex_pq m)"

definition sweep_expired :: "u64 \<Rightarrow> OrderExpiryManager \<Rightarrow> ExpiryKey list \<times> OrderExpiryManager" where
  "sweep_expired now_ns m =
     (case drain pq_top pq_pop (\<lambda>k. ek_expire_ts k \<le> now_ns) (pending_count m) (ex_pq m) of
        (expired, q) \<Rightarrow> (expired, m\<lparr>ex_pq := q\<rparr>))"

definition configure_ttl :: "u64 \<Rightarrow> u64 \<Rightarrow> OrderExpiryManager \<Rightarrow> OrderExpiryManager" where
  "configure_ttl ttl_reserved_ns ttl_live_ns m = m\<lparr>ex_ttl_reserved_ns := ttl_reserved_ns, ex_ttl_live_ns := ttl_live_ns\<rparr>"

subsection \<open>Queues ordered by time\<close>

locale min_queue =
  fixes queue_inv :: "'q \<Rightarrow> bool"
    and elems :: "'q \<Rightarrow> 'k multiset"
    and push :: "'k \<Rightarrow> 'q \<Rightarrow> 'q"
    and peek :: "'q \<Rightarrow> 'k option"
    and pop :: "'q \<Rightarrow> 'q"
    and ts :: "'k \<Rightarrow> 't::linorder"
  assumes push_elems: "queue_inv q \<Longrightarrow> queue_inv (push k q) \<and> elems (push k q) = add_mset k (elems q)"
    and top_None: "queue_inv q \<Longrightarrow> peek q = None \<longleftrightarrow> elems q = {#}"
    and top_min: "queue_inv q \<Longrightarrow> peek q = Some k \<Longrightarrow> k \<in># elems q \<and> (\<forall>x \<in># elems q. ts k \<le> ts x)"
    and pop_elems: "queue_inv q \<Longrightarrow> peek q = Some k \<Longrightarrow> queue_inv (pop q) \<and> elems (pop q) = elems q - {#k#}"
begin

lemma filter_none_due: "\<forall>x \<in># M. k \<le> ts x \<Longrightarrow> \<not> k \<le> now \<Longrightarrow> filter_mset (\<lambda>x. ts x \<le> now) M = {#}"
  by (induction M) auto

lemma filter_all_kept: "\<forall>x \<in># M. k \<le> ts x \<Longrightarrow> \<not> k \<le> now \<Longrightarrow> filter_mset (\<lambda>x. \<not> ts x \<le> now) M = M"
  by (induction M) auto

lemma drain_spec:
  assumes "queue_inv q" "size (elems q) \<le> n" "drain peek pop (\<lambda>k. ts k \<le> now) n q = (ks, q')"
  shows "queue_inv q' \<and> mset ks = filter_mset (\<lambda>k. ts k \<le> now) (elems q)
    \<and> elems q' = filter_mset (\<lambda>k. \<not> ts k \<le> now) (elems q) \<and> sorted (map ts ks)"
  using assms
proof (induction n arbitrary: q ks)
  case 0
  then show ?case by simp
next
  case (Suc n)
  show ?case
  proof (cases "peek q")
    case None
    then show ?thesis using Suc.prems top_None [OF Suc.prems(1)] by simp
  next
    case (Some k)
    note m = top_min [OF Suc.prems(1) Some] and p = pop_elems [OF Suc.prems(1) Some]
    show ?thesis
    proof (cases "ts k \<le> now")
      case False
      then show ?thesis using Suc.prems Some m filter_none_due [of "elems q" "ts k" now] filter_all_kept [of "elems q" "ts k" now] by simp
    next
      case True
      obtain ks1 where d: "drain peek pop (\<lambda>k. ts k \<le> now) n (pop q) = (ks1, q')" and ks: "ks = k # ks1"
        using Suc.prems(3) Some True by (auto split: prod.splits)
      have sz: "size (elems (pop q)) \<le> n" using Suc.prems(2) p m by (simp add: size_Diff_singleton)
      note ih = Suc.IH [OF conjunct1 [OF p] sz d]
      have e: "elems q = add_mset k (elems q - {#k#})" using m by simp
      have "\<forall>x \<in> set ks1. ts k \<le> ts x"
      proof
        fix x assume "x \<in> set ks1"
        then have "x \<in># filter_mset (\<lambda>k. ts k \<le> now) (elems (pop q))" using ih by (metis set_mset_mset)
        then show "ts k \<le> ts x" using m p by (auto dest: in_diffD)
      qed
      moreover have "filter_mset (\<lambda>k. ts k \<le> now) (elems q) = add_mset k (filter_mset (\<lambda>k. ts k \<le> now) (elems q - {#k#}))"
        "filter_mset (\<lambda>k. \<not> ts k \<le> now) (elems q) = filter_mset (\<lambda>k. \<not> ts k \<le> now) (elems q - {#k#})"
        using True by (subst e, simp)+
      ultimately show ?thesis using ih p ks by simp
    qed
  qed
qed

end

interpretation expiry_queue: min_queue "sorted_wrt (\<lambda>a b. ek_expire_ts a \<le> ek_expire_ts b)" mset pq_push pq_top pq_pop ek_expire_ts
proof unfold_locales
  fix k :: ExpiryKey and q :: "ExpiryKey list"
  assume q: "sorted_wrt (\<lambda>a b. ek_expire_ts a \<le> ek_expire_ts b) q"
  then have "sorted (map ek_expire_ts q)" by (simp add: sorted_wrt_map)
  then have "sorted (map ek_expire_ts (pq_push k q))" by (simp add: pq_push_def sorted_insort_key)
  then show "sorted_wrt (\<lambda>a b. ek_expire_ts a \<le> ek_expire_ts b) (pq_push k q) \<and> mset (pq_push k q) = add_mset k (mset q)"
    by (simp add: sorted_wrt_map pq_push_def)
  show "pq_top q = None \<longleftrightarrow> mset q = {#}" by (simp add: pq_top_def split: list.splits)
  show "k \<in># mset q \<and> (\<forall>x \<in># mset q. ek_expire_ts k \<le> ek_expire_ts x)" if "pq_top q = Some k"
    using q that by (auto simp: pq_top_def split: list.splits)
  show "sorted_wrt (\<lambda>a b. ek_expire_ts a \<le> ek_expire_ts b) (pq_pop q) \<and> mset (pq_pop q) = mset q - {#k#}" if "pq_top q = Some k"
    using q that by (auto simp: pq_top_def pq_pop_def split: list.splits)
qed

definition expiry_inv :: "OrderExpiryManager \<Rightarrow> bool" where
  "expiry_inv m \<longleftrightarrow> sorted_wrt (\<lambda>a b. ek_expire_ts a \<le> ek_expire_ts b) (ex_pq m)"

lemma register_expiry_inv [inv_intros]: "expiry_inv m \<Longrightarrow> expiry_inv (register_expiry t s p l i st now m)"
  by (simp add: expiry_inv_def register_expiry_def Let_def expiry_queue.push_elems)

lemma sweep_spec:
  assumes "expiry_inv m" "sweep_expired now m = (ks, m')"
  shows "expiry_inv m'" "mset ks = filter_mset (\<lambda>k. ek_expire_ts k \<le> now) (mset (ex_pq m))"
    "mset (ex_pq m') = filter_mset (\<lambda>k. \<not> ek_expire_ts k \<le> now) (mset (ex_pq m))" "sorted (map ek_expire_ts ks)"
    "ex_ttl_reserved_ns m' = ex_ttl_reserved_ns m" "ex_ttl_live_ns m' = ex_ttl_live_ns m"
proof -
  obtain q where d: "drain pq_top pq_pop (\<lambda>k. ek_expire_ts k \<le> now) (pending_count m) (ex_pq m) = (ks, q)" and m': "m' = m\<lparr>ex_pq := q\<rparr>"
    using assms(2) by (auto simp: sweep_expired_def split: prod.splits)
  note s = expiry_queue.drain_spec [OF assms(1) [unfolded expiry_inv_def] _ d]
  show "expiry_inv m'" "mset ks = filter_mset (\<lambda>k. ek_expire_ts k \<le> now) (mset (ex_pq m))"
    "mset (ex_pq m') = filter_mset (\<lambda>k. \<not> ek_expire_ts k \<le> now) (mset (ex_pq m))" "sorted (map ek_expire_ts ks)"
    "ex_ttl_reserved_ns m' = ex_ttl_reserved_ns m" "ex_ttl_live_ns m' = ex_ttl_live_ns m"
    using s m' by (simp_all add: expiry_inv_def pending_count_def)
qed

text \<open>
  A sweep returns exactly the keys that are due, each once and in the order of their expiry times, keeps
  exactly the others, and leaves nothing due behind; the queue invariant and the configured lifetimes are kept.
\<close>

lemma expiry_sweep_exact:
  assumes "expiry_inv m" and "sweep_expired now m = (expired, m')"
  shows "expiry_inv m' \<and> mset expired = filter_mset (\<lambda>k. ek_expire_ts k \<le> now) (mset (ex_pq m))
     \<and> mset (ex_pq m) = mset expired + mset (ex_pq m') \<and> sorted (map ek_expire_ts expired)
     \<and> list_all (\<lambda>k. now < ek_expire_ts k) (ex_pq m') \<and> pending_count m = length expired + pending_count m'
     \<and> ex_ttl_reserved_ns m' = ex_ttl_reserved_ns m \<and> ex_ttl_live_ns m' = ex_ttl_live_ns m"
proof -
  note s = sweep_spec [OF assms]
  have split: "mset (ex_pq m) = mset expired + mset (ex_pq m')" unfolding s(2,3) by (rule multiset_partition)
  have "size (mset (ex_pq m)) = size (mset expired) + size (mset (ex_pq m'))" unfolding split by simp
  then have "pending_count m = length expired + pending_count m'" by (simp only: pending_count_def size_mset)
  moreover have "set (ex_pq m') = {k \<in> set (ex_pq m). \<not> ek_expire_ts k \<le> now}"
    using arg_cong [OF s(3), of set_mset] by simp
  then have "list_all (\<lambda>k. now < ek_expire_ts k) (ex_pq m')" by (simp add: list_all_iff not_le)
  ultimately show ?thesis using s(1,2,4-6) split by blast
qed

end
