(* ===== verification/Position_Keeper.thy ===== *)
theory Position_Keeper
  imports Book_Common
begin

text \<open>
  Positions and profit and loss (\<^verbatim>\<open>hft/src/position_keeper.cpp\<close>, \<^verbatim>\<open>hft/src/position_keeper.h\<close>). A \<open>PositionInfo\<close> is
  updated by fills and by BBO changes; all its members are raw \<^verbatim>\<open>int64_t\<close> values and every assignment narrows its
  right-hand side. \<open>add_fill\<close> follows the order of the source: position and volume, the long/short books of
  hedge mode, the net cost basis, the unrealised and then the realised profit. The member \<^verbatim>\<open>bbo_\<close> is only
  printed and is left out.
\<close>

record PositionInfo =
  pi_position :: int64
  pi_long_position_raw :: int64
  pi_short_position_raw :: int64
  pi_long_cost :: int64
  pi_short_cost :: int64
  pi_long_real_pnl :: int64
  pi_long_unreal_pnl :: int64
  pi_short_real_pnl :: int64
  pi_short_unreal_pnl :: int64
  pi_real_pnl :: int64
  pi_unreal_pnl :: int64
  pi_total_pnl :: int64
  pi_open_vwap :: "nat \<Rightarrow> int64"
  pi_volume :: int64

definition PositionInfo_new :: PositionInfo where
  "PositionInfo_new = \<lparr>pi_position = 0, pi_long_position_raw = 0, pi_short_position_raw = 0, pi_long_cost = 0, pi_short_cost = 0,
     pi_long_real_pnl = 0, pi_long_unreal_pnl = 0, pi_short_real_pnl = 0, pi_short_unreal_pnl = 0, pi_real_pnl = 0, pi_unreal_pnl = 0,
     pi_total_pnl = 0, pi_open_vwap = (\<lambda>_. 0), pi_volume = 0\<rparr>"

subsection \<open>Fills\<close>

definition fill_long :: "Side \<Rightarrow> int64 \<Rightarrow> int64 \<Rightarrow> PositionInfo \<Rightarrow> PositionInfo" where
  "fill_long side price last_qty p =
     (if side = kBuy
      then p\<lparr>pi_long_cost := i64 (pi_long_cost p + price * last_qty), pi_long_position_raw := i64 (pi_long_position_raw p + last_qty)\<rparr>
      else
        let close_qty = min last_qty (pi_long_position_raw p);
            p1 = (if pi_long_position_raw p > 0 \<and> close_qty > 0
                  then let long_vwap = i64 (pi_long_cost p sdiv pi_long_position_raw p)
                       in p\<lparr>pi_long_real_pnl := i64 (pi_long_real_pnl p + (price - long_vwap) * close_qty),
                            pi_long_cost := i64 (pi_long_cost p - long_vwap * close_qty)\<rparr>
                  else p);
            p2 = p1\<lparr>pi_long_position_raw := i64 (pi_long_position_raw p1 - last_qty)\<rparr>
        in if pi_long_position_raw p2 < 0 then p2\<lparr>pi_long_position_raw := 0, pi_long_cost := 0\<rparr> else p2)"

definition fill_short :: "Side \<Rightarrow> int64 \<Rightarrow> int64 \<Rightarrow> PositionInfo \<Rightarrow> PositionInfo" where
  "fill_short side price last_qty p =
     (if side = kSell
      then p\<lparr>pi_short_cost := i64 (pi_short_cost p + price * last_qty), pi_short_position_raw := i64 (pi_short_position_raw p + last_qty)\<rparr>
      else
        let close_qty = min last_qty (pi_short_position_raw p);
            p1 = (if pi_short_position_raw p > 0 \<and> close_qty > 0
                  then let short_vwap = i64 (pi_short_cost p sdiv pi_short_position_raw p)
                       in p\<lparr>pi_short_real_pnl := i64 (pi_short_real_pnl p + (short_vwap - price) * close_qty),
                            pi_short_cost := i64 (pi_short_cost p - short_vwap * close_qty)\<rparr>
                  else p);
            p2 = p1\<lparr>pi_short_position_raw := i64 (pi_short_position_raw p1 - last_qty)\<rparr>
        in if pi_short_position_raw p2 < 0 then p2\<lparr>pi_short_position_raw := 0, pi_short_cost := 0\<rparr> else p2)"

definition fill_hedge :: "ExecutionReport \<Rightarrow> PositionInfo \<Rightarrow> PositionInfo" where
  "fill_hedge r p =
     (case er_position_side r of
        Some kLong \<Rightarrow> fill_long (er_side r) (er_price r) (er_last_qty r) p
      | Some kShort \<Rightarrow> fill_short (er_side r) (er_price r) (er_last_qty r) p
      | _ \<Rightarrow> p)"

text \<open>The net cost basis; the second component is \<^verbatim>\<open>net_real_pnl_delta\<close>.\<close>

definition fill_net :: "int64 \<Rightarrow> ExecutionReport \<Rightarrow> PositionInfo \<Rightarrow> PositionInfo \<times> int64" where
  "fill_net old_position r p =
     (let idx = sideToIndex (er_side r); opp_side_index = oppIndex idx; sgn = sideToValue (er_side r);
          last_qty = er_last_qty r; price = er_price r; v = pi_open_vwap p; position = pi_position p
      in if i64 (old_position * sgn) \<ge> 0
         then (p\<lparr>pi_open_vwap := v(idx := i64 (v idx + price * last_qty))\<rparr>, 0)
         else
           let opp_side_vwap = i64 (v opp_side_index sdiv \<bar>old_position\<bar>);
               v1 = v(opp_side_index := i64 (opp_side_vwap * \<bar>position\<bar>));
               delta = i64 (min last_qty \<bar>old_position\<bar> * (opp_side_vwap - price) * sgn);
               v2 = (if i64 (position * old_position) < 0
                     then v1(idx := i64 (price * \<bar>position\<bar>), opp_side_index := 0) else v1)
           in (p\<lparr>pi_open_vwap := v2\<rparr>, delta))"

definition fill_unreal :: "int64 \<Rightarrow> PositionInfo \<Rightarrow> PositionInfo" where
  "fill_unreal price p =
     (if pi_position p = 0 then p\<lparr>pi_open_vwap := (pi_open_vwap p)(0 := 0, 1 := 0), pi_unreal_pnl := 0\<rparr>
      else if pi_position p > 0
      then p\<lparr>pi_unreal_pnl := i64 (price * \<bar>pi_position p\<bar> - pi_open_vwap p (sideToIndex kBuy))\<rparr>
      else p\<lparr>pi_unreal_pnl := i64 (pi_open_vwap p (sideToIndex kSell) - price * \<bar>pi_position p\<bar>)\<rparr>)"

definition hedge_unreal :: "int64 \<Rightarrow> PositionInfo \<Rightarrow> PositionInfo" where
  "hedge_unreal price p =
     (let p1 = p\<lparr>pi_long_unreal_pnl :=
            (if pi_long_position_raw p > 0
             then i64 ((price - i64 (pi_long_cost p sdiv pi_long_position_raw p)) * pi_long_position_raw p) else 0)\<rparr>
      in p1\<lparr>pi_short_unreal_pnl :=
            (if pi_short_position_raw p1 > 0
             then i64 ((i64 (pi_short_cost p1 sdiv pi_short_position_raw p1) - price) * pi_short_position_raw p1) else 0)\<rparr>)"

definition add_fill :: "ExecutionReport \<Rightarrow> PositionInfo \<Rightarrow> PositionInfo" where
  "add_fill r p =
     (let old_position = pi_position p;
          sgn = sideToValue (er_side r);
          p1 = p\<lparr>pi_position := i64 (pi_position p + er_last_qty r * sgn), pi_volume := i64 (pi_volume p + er_last_qty r)\<rparr>;
          p2 = fill_hedge r p1;
          (p3, net_real_pnl_delta) = fill_net old_position r p2;
          p4 = fill_unreal (er_price r) p3;
          p5 = hedge_unreal (er_price r) p4;
          p6 = (case er_position_side r of
                  Some _ \<Rightarrow> p5\<lparr>pi_real_pnl := i64 (pi_long_real_pnl p5 + pi_short_real_pnl p5)\<rparr>
                | None \<Rightarrow> p5\<lparr>pi_real_pnl := i64 (pi_real_pnl p5 + net_real_pnl_delta)\<rparr>)
      in p6\<lparr>pi_total_pnl := i64 (pi_unreal_pnl p6 + pi_real_pnl p6)\<rparr>)"

definition update_bbo :: "BBO \<Rightarrow> PositionInfo \<Rightarrow> PositionInfo" where
  "update_bbo bbo p =
     (if bid_price bbo \<le> 0 \<or> ask_price bbo \<le> 0 then p
      else
        let mid_price = i64 (i64 (bid_price bbo + ask_price bbo) sdiv 2);
            p1 = (if pi_position p \<noteq> 0
                  then if pi_position p > 0
                       then p\<lparr>pi_unreal_pnl := i64 (mid_price * \<bar>pi_position p\<bar> - pi_open_vwap p (sideToIndex kBuy))\<rparr>
                       else p\<lparr>pi_unreal_pnl := i64 (pi_open_vwap p (sideToIndex kSell) - mid_price * \<bar>pi_position p\<bar>)\<rparr>
                  else p);
            p2 = hedge_unreal mid_price p1
        in p2\<lparr>pi_total_pnl := i64 (pi_unreal_pnl p2 + pi_real_pnl p2)\<rparr>)"

text \<open>The keeper maps tickers to positions; an unknown ticker throws, which is \<^term>\<open>None\<close>.\<close>

definition PositionKeeper_new :: "string \<Rightarrow> (string \<rightharpoonup> PositionInfo)" where
  "PositionKeeper_new ticker = [ticker \<mapsto> PositionInfo_new]"

definition get_position_info :: "(string \<rightharpoonup> PositionInfo) \<Rightarrow> string \<Rightarrow> PositionInfo option" where
  "get_position_info k ticker_id = k ticker_id"

definition keeper_add_fill :: "(string \<rightharpoonup> PositionInfo) \<Rightarrow> ExecutionReport \<Rightarrow> (string \<rightharpoonup> PositionInfo) option" where
  "keeper_add_fill k r = map_option (\<lambda>p. k(er_symbol r \<mapsto> add_fill r p)) (k (er_symbol r))"

definition keeper_update_bbo :: "(string \<rightharpoonup> PositionInfo) \<Rightarrow> string \<Rightarrow> BBO \<Rightarrow> (string \<rightharpoonup> PositionInfo) option" where
  "keeper_update_bbo k ticker bbo = map_option (\<lambda>p. k(ticker \<mapsto> update_bbo bbo p)) (k ticker)"

subsection \<open>Frame lemmas\<close>

lemma fill_long_frame [simp]:
  "pi_position (fill_long s pr q p) = pi_position p" "pi_volume (fill_long s pr q p) = pi_volume p"
  "pi_open_vwap (fill_long s pr q p) = pi_open_vwap p" "pi_real_pnl (fill_long s pr q p) = pi_real_pnl p"
  by (simp_all add: fill_long_def Let_def)

lemma fill_short_frame [simp]:
  "pi_position (fill_short s pr q p) = pi_position p" "pi_volume (fill_short s pr q p) = pi_volume p"
  "pi_open_vwap (fill_short s pr q p) = pi_open_vwap p" "pi_real_pnl (fill_short s pr q p) = pi_real_pnl p"
  by (simp_all add: fill_short_def Let_def)

lemma fill_hedge_frame [simp]:
  "pi_position (fill_hedge r p) = pi_position p" "pi_volume (fill_hedge r p) = pi_volume p"
  "pi_open_vwap (fill_hedge r p) = pi_open_vwap p" "pi_real_pnl (fill_hedge r p) = pi_real_pnl p"
  by (simp_all add: fill_hedge_def split: option.splits PositionSide.splits)

lemma fill_net_frame [simp]:
  "pi_position (fst (fill_net old r p)) = pi_position p" "pi_volume (fst (fill_net old r p)) = pi_volume p"
  "pi_real_pnl (fst (fill_net old r p)) = pi_real_pnl p"
  by (simp_all add: fill_net_def Let_def)

lemma fill_unreal_frame [simp]:
  "pi_position (fill_unreal pr p) = pi_position p" "pi_volume (fill_unreal pr p) = pi_volume p"
  "pi_real_pnl (fill_unreal pr p) = pi_real_pnl p"
  by (simp_all add: fill_unreal_def)

lemma hedge_unreal_frame [simp]:
  "pi_position (hedge_unreal pr p) = pi_position p" "pi_volume (hedge_unreal pr p) = pi_volume p"
  "pi_real_pnl (hedge_unreal pr p) = pi_real_pnl p" "pi_unreal_pnl (hedge_unreal pr p) = pi_unreal_pnl p"
  "pi_open_vwap (hedge_unreal pr p) = pi_open_vwap p"
  by (simp_all add: hedge_unreal_def Let_def)

lemma add_fill_position:
  "pi_position (add_fill r p) = i64 (pi_position p + er_last_qty r * sideToValue (er_side r))"
  "pi_volume (add_fill r p) = i64 (pi_volume p + er_last_qty r)"
  by (simp_all add: add_fill_def Let_def case_prod_beta split: option.splits)

subsection \<open>Net cost basis against the cash flow\<close>

lemma in_i64_abs: "\<bar>x\<bar> < 2 ^ 63 \<Longrightarrow> in_i64 x"
  by (auto simp: in_i64_def abs_less_iff)

lemma abs_mult_le: "\<bar>x\<bar> \<le> (P::int) \<Longrightarrow> \<bar>y\<bar> \<le> V \<Longrightarrow> \<bar>x * y\<bar> \<le> P * V"
  unfolding abs_mult by (rule mult_mono) auto

text \<open>
  \<open>net_inv\<close>: prices are at most \<open>P\<close>, \<open>v\<close> is the volume so far, \<open>cash\<close> the signed cash flow of the fills, and \<open>err\<close>
  bounds the difference between the booked result (realised profit minus cost basis) and the cash flow.
\<close>

definition net_inv :: "int \<Rightarrow> int \<Rightarrow> int \<Rightarrow> int \<Rightarrow> PositionInfo \<Rightarrow> bool" where
  "net_inv P v cash err p \<longleftrightarrow>
     \<bar>pi_position p\<bar> \<le> v
     \<and> 0 \<le> pi_open_vwap p 0 \<and> pi_open_vwap p 0 \<le> P * max 0 (pi_position p)
     \<and> 0 \<le> pi_open_vwap p 1 \<and> pi_open_vwap p 1 \<le> P * max 0 (- pi_position p)
     \<and> \<bar>pi_real_pnl p\<bar> \<le> P * v
     \<and> \<bar>cash - pi_real_pnl p + pi_open_vwap p 0 - pi_open_vwap p 1\<bar> \<le> err"

text \<open>One fill on the net cost basis without narrowing: \<open>a\<close> is the size of the position it closes against, \<open>c\<close> its cost.\<close>

lemma close_facts:
  fixes a q c price P :: int
  assumes "0 < a" "0 < q" "0 \<le> c" "c \<le> P * a" "0 \<le> price" "price \<le> P"
  defines "w \<equiv> c div a"
  shows "0 \<le> w" "w \<le> P" "0 \<le> c - w * a" "c - w * a < a" "\<bar>min q a * (w - price)\<bar> \<le> P * q"
proof -
  show w: "0 \<le> w" using assms by (simp add: w_def pos_imp_zdiv_nonneg_iff)
  have "c div a \<le> (P * a) div a" using assms by (intro zdiv_mono1) auto
  then show wP: "w \<le> P" using assms by (simp add: w_def)
  have "c - w * a = c mod a" by (simp add: w_def minus_div_mult_eq_mod)
  then show "0 \<le> c - w * a" "c - w * a < a" using assms(1) by simp_all
  have "\<bar>w - price\<bar> \<le> P" using w wP assms by linarith
  from abs_mult_le [OF this, of "min q a" q] show "\<bar>min q a * (w - price)\<bar> \<le> P * q"
    using assms(1,2) by (simp add: mult.commute)
qed

text \<open>The effect of a one-way fill, in terms of the position \<open>x\<close> seen from the side of the fill.\<close>

definition net_fill :: "int \<Rightarrow> int \<Rightarrow> int \<Rightarrow> int \<Rightarrow> int \<Rightarrow> int \<times> int \<times> int" where
  "net_fill x own opp price q =
     (if 0 \<le> x then (own + price * q, opp, 0)
      else let w = opp div - x in (price * max 0 (x + q), w * max 0 (- (x + q)), min q (- x) * (w - price)))"

lemma net_fill_facts:
  fixes x own opp price q P v V cash real err sg :: int
  assumes "\<bar>x\<bar> \<le> v" "0 \<le> own" "own \<le> P * max 0 x" "0 \<le> opp" "opp \<le> P * max 0 (- x)" "\<bar>real\<bar> \<le> P * v"
    "\<bar>cash - real + sg * (own - opp)\<bar> \<le> err" "0 < q" "0 \<le> price" "price \<le> P" "sg = 1 \<or> sg = - 1"
    and r: "net_fill x own opp price q = (own', opp', d)"
  shows "\<bar>x + q\<bar> \<le> v + q" "0 \<le> own'" "own' \<le> P * max 0 (x + q)" "0 \<le> opp'" "opp' \<le> P * max 0 (- (x + q))"
    "\<bar>real + sg * d\<bar> \<le> P * (v + q)"
    "\<bar>(cash - sg * price * q) - (real + sg * d) + sg * (own' - opp')\<bar> \<le> err + (if x < 0 then \<bar>x\<bar> else 0)"
proof -
  have pq: "price * q \<le> P * q" "0 \<le> price * q" using assms(8-10) by (simp_all add: mult_right_mono)
  have sgd: "\<bar>sg * y\<bar> = \<bar>y\<bar>" for y using assms(11) by auto
  show "\<bar>x + q\<bar> \<le> v + q" using assms(1,8) by linarith
  have "0 \<le> own' \<and> own' \<le> P * max 0 (x + q) \<and> 0 \<le> opp' \<and> opp' \<le> P * max 0 (- (x + q)) \<and> \<bar>d\<bar> \<le> P * q
    \<and> \<bar>own' - own - (opp' - opp) - d - price * q\<bar> \<le> (if x < 0 then \<bar>x\<bar> else 0)"
  proof (cases "0 \<le> x")
    case True
    then have e: "own' = own + price * q" "opp' = opp" "d = 0" using r by (simp_all add: net_fill_def)
    have "P * max 0 (x + q) = P * max 0 x + P * q" using True assms(8) by (simp add: distrib_left)
    moreover have "0 \<le> P * max 0 (- (x + q))" using assms(9,10) by (intro mult_nonneg_nonneg) auto
    ultimately show ?thesis using e True assms(2-5) pq by simp
  next
    case False
    let ?a = "- x" and ?w = "opp div - x"
    have own0: "own = 0" using False assms(2,3) by simp
    have oa: "opp \<le> P * ?a" using False assms(5) by simp
    note c = close_facts [OF _ assms(8,4) oa assms(9,10)]
    have e: "own' = price * max 0 (x + q)" "opp' = ?w * max 0 (- (x + q))" "d = min q ?a * (?w - price)"
      using r False by (simp_all add: net_fill_def Let_def)
    have b: "0 \<le> own'" "own' \<le> P * max 0 (x + q)" "0 \<le> opp'" "opp' \<le> P * max 0 (- (x + q))" "\<bar>d\<bar> \<le> P * q"
      using False c(1,2,5) assms(9,10) by (simp_all add: e mult_right_mono)
    have "own' - (opp' - opp) - d - price * q = opp - ?w * ?a"
      by (cases "q \<le> ?a") (simp_all add: e algebra_simps)
    then show ?thesis using b own0 False c(3,4) by simp
  qed
  then have b: "0 \<le> own'" "own' \<le> P * max 0 (x + q)" "0 \<le> opp'" "opp' \<le> P * max 0 (- (x + q))" "\<bar>d\<bar> \<le> P * q"
    and j: "\<bar>own' - own - (opp' - opp) - d - price * q\<bar> \<le> (if x < 0 then \<bar>x\<bar> else 0)" by simp_all
  show "0 \<le> own'" "own' \<le> P * max 0 (x + q)" "0 \<le> opp'" "opp' \<le> P * max 0 (- (x + q))" by (fact b)+
  show "\<bar>real + sg * d\<bar> \<le> P * (v + q)" using b(5) sgd [of d] assms(6) by (simp add: distrib_left)
  have "(cash - sg * price * q) - (real + sg * d) + sg * (own' - opp')
      = (cash - real + sg * (own - opp)) + sg * (own' - own - (opp' - opp) - d - price * q)" by (simp add: algebra_simps)
  then show "\<bar>(cash - sg * price * q) - (real + sg * d) + sg * (own' - opp')\<bar> \<le> err + (if x < 0 then \<bar>x\<bar> else 0)"
    using assms(7) j sgd [of "own' - own - (opp' - opp) - d - price * q"] by linarith
qed

lemma add_fill_one_way:
  assumes "er_position_side r = None"
  defines "N \<equiv> \<lambda>p. fill_net (pi_position p) r (p\<lparr>pi_position := i64 (pi_position p + er_last_qty r * sideToValue (er_side r)),
      pi_volume := i64 (pi_volume p + er_last_qty r)\<rparr>)"
  shows "pi_open_vwap (add_fill r p) = pi_open_vwap (fill_unreal (er_price r) (fst (N p)))"
    "pi_real_pnl (add_fill r p) = i64 (pi_real_pnl p + snd (N p))"
    "pi_total_pnl (add_fill r p) = i64 (pi_unreal_pnl (fill_unreal (er_price r) (fst (N p))) + pi_real_pnl (add_fill r p))"
  using assms(1) by (simp_all add: add_fill_def N_def fill_hedge_def Let_def case_prod_beta)

text \<open>Within the stated bounds no assignment of a one-way fill narrows, and the fill is \<open>net_fill\<close>.\<close>

definition fill_ok :: "int \<Rightarrow> ExecutionReport \<Rightarrow> bool" where
  "fill_ok P r \<longleftrightarrow> er_position_side r = None \<and> er_side r \<in> {kBuy, kSell} \<and> 0 < er_last_qty r \<and> 0 \<le> er_price r \<and> er_price r \<le> P"

lemma net_step:
  assumes ok: "fill_ok P r" and inv: "net_inv P v cash err p"
    and V: "v + er_last_qty r \<le> V" "4 * (P * V) < 2 ^ 63" "V * V < 2 ^ 63"
  defines "sg \<equiv> sideToValue (er_side r)" and "q \<equiv> er_last_qty r" and "p' \<equiv> add_fill r p"
  shows "net_inv P (v + q) (cash - sg * er_price r * q) (err + (if pi_position p * sg < 0 then \<bar>pi_position p\<bar> else 0)) p'"
    and "pi_position p' = pi_position p + q * sg"
    and "pi_total_pnl p' = er_price r * pi_position p' + pi_real_pnl p' - pi_open_vwap p' 0 + pi_open_vwap p' 1"
proof -
  define i j where "i = sideToIndex (er_side r)" and "j = oppIndex (sideToIndex (er_side r))"
  have sd: "sg = 1 \<and> i = 0 \<and> j = 1 \<or> sg = - 1 \<and> i = 1 \<and> j = 0"
    using ok oppIndex_sides by (auto simp: fill_ok_def sg_def i_def j_def)
  define x own opp price where "x = pi_position p * sg" and "own = pi_open_vwap p i" and "opp = pi_open_vwap p j" and "price = er_price r"
  have q: "0 < q" "0 \<le> price" "price \<le> P" and none: "er_position_side r = None" using ok by (auto simp: fill_ok_def q_def price_def)
  have P0: "0 \<le> P" using q by linarith
  have ni: "\<bar>x\<bar> \<le> v" "0 \<le> own" "own \<le> P * max 0 x" "0 \<le> opp" "opp \<le> P * max 0 (- x)" "\<bar>pi_real_pnl p\<bar> \<le> P * v"
    "\<bar>cash - pi_real_pnl p + sg * (own - opp)\<bar> \<le> err"
    using inv sd by (auto simp: net_inv_def x_def own_def opp_def)
  obtain own' opp' d where nf: "net_fill x own opp price q = (own', opp', d)" by (cases "net_fill x own opp price q") auto
  note f = net_fill_facts [OF ni q _ nf]
  have V1: "1 \<le> V" "P \<le> P * V" "V < 2 ^ 63"
  proof -
    show v: "1 \<le> V" using V(1) ni(1) q(1) by (simp add: q_def)
    show "P \<le> P * V" using v P0 by (simp add: mult_le_cancel_left1)
    have "V \<le> V * V" using v by (simp add: mult_le_cancel_left1)
    then show "V < 2 ^ 63" using V(3) by linarith
  qed
  have xq: "\<bar>x\<bar> \<le> V" "\<bar>x + q\<bar> \<le> V" "q \<le> V" using ni(1) q(1) V(1) by (auto simp: q_def)
  have PV: "in_i64 y" if "\<bar>y\<bar> \<le> 4 * (P * V)" for y using that V(2) by (intro in_i64_abs) linarith
  have prod: "\<bar>a * b\<bar> \<le> P * V" if "\<bar>a\<bar> \<le> P" "\<bar>b\<bar> \<le> V" for a b by (rule abs_mult_le [OF that])
  have prod_id: "i64 (a * b) = a * b" if "\<bar>a\<bar> \<le> P" "\<bar>b\<bar> \<le> V" for a b
    using prod [OF that] by (intro i64_id PV) linarith
  have pos: "pi_position p + q * sg = sg * (x + q)" "\<bar>sg * y\<bar> = \<bar>y\<bar>" "sg * (sg * y) = y" for y
    using sd by (auto simp: x_def algebra_simps)
  have ipos: "i64 (pi_position p + q * sg) = sg * (x + q)" using xq V1(3) unfolding pos(1) by (intro i64_id in_i64_abs) (simp add: pos(2))
  then show pp: "pi_position p' = pi_position p + q * sg" by (simp add: p'_def add_fill_position q_def [symmetric] sg_def [symmetric] pos(1))
  let ?p1 = "p\<lparr>pi_position := sg * (x + q), pi_volume := i64 (pi_volume p + q)\<rparr>"
  define N where "N = fill_net (pi_position p) r ?p1"
  have ob: "own' \<le> P * V" "opp' \<le> P * V"
  proof -
    have "P * max 0 (x + q) \<le> P * V" "P * max 0 (- (x + q)) \<le> P * V" using xq(2) P0 V1(1) by (auto intro!: mult_left_mono)
    then show "own' \<le> P * V" "opp' \<le> P * V" using f(3,5) sd by auto
  qed
  have "\<exists>vv. fst N = ?p1\<lparr>pi_open_vwap := vv\<rparr> \<and> snd N = sg * d \<and> (x + q \<noteq> 0 \<longrightarrow> vv i = own' \<and> vv j = opp')"
  proof (cases "0 \<le> x")
    case True
    then have e: "own' = own + price * q" "opp' = opp" "d = 0" using nf by (simp_all add: net_fill_def)
    have "in_i64 x" using xq(1) V1(3) by (intro in_i64_abs) linarith
    moreover have "in_i64 own'" using f(2) ob(1) sd by (intro PV) auto
    ultimately show ?thesis using True e sd
      by (intro exI [of _ "(pi_open_vwap p)(i := own')"])
        (auto simp: N_def fill_net_def Let_def i_def [symmetric] j_def [symmetric] sg_def [symmetric] q_def [symmetric] price_def [symmetric]
          x_def [symmetric] own_def [symmetric] opp_def [symmetric])
  next
    case False
    define w where "w = opp div - x"
    have oa: "opp \<le> P * - x" using False ni(5) by simp
    note c = close_facts [OF _ q(1) ni(4) oa q(2,3), folded w_def]
    have e: "own' = price * max 0 (x + q)" "opp' = w * max 0 (- (x + q))" "d = min q (- x) * (w - price)"
      using nf False by (simp_all add: net_fill_def Let_def w_def)
    have own0: "own = 0" using ni(2,3) False by simp
    have ax: "\<bar>pi_position p\<bar> = - x" using False sd by (auto simp: x_def)
    have w: "i64 (opp sdiv - x) = w"
      using False ni(4) c(1,2) V1(2) by (subst sdiv_nonneg) (auto simp: w_def [symmetric] intro!: i64_id PV)
    have wp: "i64 (w * \<bar>x + q\<bar>) = w * \<bar>x + q\<bar>" "i64 (price * \<bar>x + q\<bar>) = price * \<bar>x + q\<bar>"
      using xq(2) c(1,2) q False by (auto intro!: prod_id)
    have del: "i64 (min q (- x) * (w - price) * sg) = sg * d"
    proof -
      have "P * q \<le> P * V" using xq(3) P0 by (intro mult_left_mono) auto
      then have "\<bar>min q (- x) * (w - price) * sg\<bar> \<le> 4 * (P * V)"
        using c(5) False pos(2) [of "min q (- x) * (w - price)"] V1(1,2) P0 by (simp add: mult.commute)
      then show ?thesis using PV by (simp add: e mult.commute)
    qed
    have xx: "sg * (x + q) * pi_position p = (x + q) * x" using sd by (auto simp: x_def)
    have "\<bar>(x + q) * x\<bar> \<le> V * V" by (rule abs_mult_le [OF xq(2,1)])
    then have cross: "i64 (sg * (x + q) * pi_position p) < 0 \<longleftrightarrow> 0 < x + q"
      using V(3) False unfolding xx by (subst i64_id) (auto intro!: in_i64_abs simp: mult_less_0_iff)
    have ix: "i64 x = x" using xq(1) V1(3) by (intro i64_id in_i64_abs) linarith
    let ?v = "(pi_open_vwap p)(j := w * \<bar>x + q\<bar>)"
    have oj: "oppIndex i = j" by (simp add: i_def j_def)
    have g: "fill_net (pi_position p) r p1
        = (p1\<lparr>pi_open_vwap := if 0 < x + q then ?v(i := price * \<bar>x + q\<bar>, j := 0) else ?v\<rparr>, sg * d)"
      if "pi_position p1 = sg * (x + q)" "pi_open_vwap p1 = pi_open_vwap p" for p1
      using False unfolding fill_net_def Let_def that i_def [symmetric] oj sg_def [symmetric] q_def [symmetric] price_def [symmetric]
        x_def [symmetric] opp_def [symmetric] ix ax w pos(2) wp del cross by (simp only: if_False if_True simp_thms)
    have "N = (?p1\<lparr>pi_open_vwap := if 0 < x + q then ?v(i := price * \<bar>x + q\<bar>, j := 0) else ?v\<rparr>, sg * d)"
      unfolding N_def by (rule g) simp_all
    then show ?thesis using sd own0 e
      by (intro exI [of _ "if 0 < x + q then ?v(i := price * \<bar>x + q\<bar>, j := 0) else ?v"]) (auto simp: own_def)
  qed
  then obtain vv where vv: "fst N = ?p1\<lparr>pi_open_vwap := vv\<rparr>" "snd N = sg * d" "x + q \<noteq> 0 \<Longrightarrow> vv i = own' \<and> vv j = opp'" by blast
  have N': "fill_net (pi_position p) r (p\<lparr>pi_position := i64 (pi_position p + er_last_qty r * sideToValue (er_side r)),
      pi_volume := i64 (pi_volume p + er_last_qty r)\<rparr>) = N"
    using ipos by (simp add: N_def q_def [symmetric] sg_def [symmetric])
  note ow = add_fill_one_way [OF none, of p, folded p'_def, unfolded N']
  have z: "x + q = 0 \<Longrightarrow> own' = 0 \<and> opp' = 0" using f(2-5) sd by auto
  have real': "pi_real_pnl p' = pi_real_pnl p + sg * d"
  proof -
    have "P * (v + q) \<le> P * V" using V(1) P0 by (intro mult_left_mono) (auto simp: q_def)
    then show ?thesis unfolding ow(2) vv(2) using f(6) sd V(2) by (intro i64_id PV) auto
  qed
  have open': "pi_open_vwap p' i = own'" "pi_open_vwap p' j = opp'"
    using vv(3) z sd unfolding ow(1) vv(1) by (auto simp: fill_unreal_def)
  have unreal': "pi_unreal_pnl (fill_unreal (er_price r) (fst N)) = sg * (price * (x + q) - own' + opp')"
  proof (cases "x + q = 0")
    case True
    then show ?thesis using z by (simp add: vv(1) fill_unreal_def)
  next
    case False
    have "\<bar>price * \<bar>x + q\<bar>\<bar> \<le> P * V" using prod [of price "\<bar>x + q\<bar>"] xq(2) q by simp
    then have pb: "0 \<le> price * \<bar>x + q\<bar>" "price * \<bar>x + q\<bar> \<le> P * V" using q by auto
    have i: "i64 (price * \<bar>x + q\<bar> - own') = price * \<bar>x + q\<bar> - own'" "i64 (opp' - price * \<bar>x + q\<bar>) = opp' - price * \<bar>x + q\<bar>"
      "i64 (price * \<bar>x + q\<bar> - opp') = price * \<bar>x + q\<bar> - opp'" "i64 (own' - price * \<bar>x + q\<bar>) = own' - price * \<bar>x + q\<bar>"
      using pb ob f(2,4) sd by (auto intro!: i64_id PV)
    have zz: "x + q < 0 \<Longrightarrow> own' = 0" "0 < x + q \<Longrightarrow> opp' = 0" using f(2-5) sd by auto
    show ?thesis using False sd vv(3) [OF False] zz i
      by (auto simp: vv(1) fill_unreal_def price_def [symmetric] algebra_simps)
  qed
  have disj_sg: "sg = 1 \<or> sg = - 1" and xa: "\<bar>pi_position p\<bar> = \<bar>x\<bar>" using sd by (auto simp: x_def)
  have px: "pi_position p' = sg * (x + q)" unfolding pp pos(1) ..
  show "net_inv P (v + q) (cash - sg * er_price r * q) (err + (if pi_position p * sg < 0 then \<bar>pi_position p\<bar> else 0)) p'"
  proof -
    note g = f [OF disj_sg]
    have o: "sg * (own' - opp') = pi_open_vwap p' 0 - pi_open_vwap p' 1"
      "sg = 1 \<and> pi_open_vwap p' 0 = own' \<and> pi_open_vwap p' 1 = opp' \<or> sg = - 1 \<and> pi_open_vwap p' 0 = opp' \<and> pi_open_vwap p' 1 = own'"
      using sd open' by auto
    have "0 \<le> pi_open_vwap p' 0 \<and> pi_open_vwap p' 0 \<le> P * max 0 (pi_position p')
        \<and> 0 \<le> pi_open_vwap p' 1 \<and> pi_open_vwap p' 1 \<le> P * max 0 (- pi_position p')"
      using o(2) g(2-5) unfolding px by (elim disjE conjE) (simp_all add: add.commute)
    moreover have "\<bar>pi_position p'\<bar> \<le> v + q" using g(1) unfolding px by (simp only: pos(2))
    moreover have "\<bar>pi_real_pnl p'\<bar> \<le> P * (v + q)" using g(6) unfolding real' .
    moreover have "\<bar>cash - sg * er_price r * q - pi_real_pnl p' + pi_open_vwap p' 0 - pi_open_vwap p' 1\<bar>
        \<le> err + (if pi_position p * sg < 0 then \<bar>pi_position p\<bar> else 0)"
      using g(7) unfolding real' price_def [symmetric] xa x_def [symmetric] o(1) by (simp only: add_diff_eq)
    ultimately show ?thesis unfolding net_inv_def by blast
  qed
  have t: "pi_total_pnl p' = i64 (sg * (price * (x + q) - own' + opp') + pi_real_pnl p')" unfolding ow(3) unreal' ..
  also have "\<dots> = sg * (price * (x + q) - own' + opp') + pi_real_pnl p'"
  proof (rule i64_id, rule PV)
    have "\<bar>price * (x + q)\<bar> \<le> P * V" using prod [of price "x + q"] xq(2) q by simp
    moreover have "\<bar>pi_real_pnl p'\<bar> \<le> P * V"
    proof -
      have "P * (v + q) \<le> P * V" using V(1) P0 by (intro mult_left_mono) (auto simp: q_def)
      then show ?thesis unfolding real' using f(6) sd by auto
    qed
    ultimately show "\<bar>sg * (price * (x + q) - own' + opp') + pi_real_pnl p'\<bar> \<le> 4 * (P * V)"
      using ob f(2,4) sd by auto
  qed
  finally show "pi_total_pnl p' = er_price r * pi_position p' + pi_real_pnl p' - pi_open_vwap p' 0 + pi_open_vwap p' 1"
    using sd open' by (auto simp: px price_def [symmetric] algebra_simps)
qed

text \<open>
  The cash flow of a list of fills, the position they build, and the total size of the positions that a fill of
  the opposite side closed against: each such fill divides the cost basis by that position and drops the remainder.
\<close>

definition signed_qty :: "ExecutionReport \<Rightarrow> int" where
  "signed_qty r = er_last_qty r * sideToValue (er_side r)"

definition net_position :: "ExecutionReport list \<Rightarrow> int" where
  "net_position rs = (\<Sum>r\<leftarrow>rs. signed_qty r)"

definition cash_flow :: "ExecutionReport list \<Rightarrow> int" where
  "cash_flow rs = - (\<Sum>r\<leftarrow>rs. er_price r * signed_qty r)"

fun closed_against :: "int \<Rightarrow> ExecutionReport list \<Rightarrow> int" where
  "closed_against x [] = 0"
| "closed_against x (r # rs) =
     (if x * sideToValue (er_side r) < 0 then \<bar>x\<bar> else 0) + closed_against (x + signed_qty r) rs"

lemma net_fold:
  assumes "list_all (fill_ok P) rs" "net_inv P v cash err p" "v + (\<Sum>r\<leftarrow>rs. er_last_qty r) \<le> V"
    "4 * (P * V) < 2 ^ 63" "V * V < 2 ^ 63"
  defines "p' \<equiv> fold add_fill rs p"
  shows "net_inv P (v + (\<Sum>r\<leftarrow>rs. er_last_qty r)) (cash + cash_flow rs) (err + closed_against (pi_position p) rs) p'
    \<and> pi_position p' = pi_position p + net_position rs
    \<and> (rs \<noteq> [] \<longrightarrow> pi_total_pnl p'
       = er_price (last rs) * pi_position p' + pi_real_pnl p' - pi_open_vwap p' 0 + pi_open_vwap p' 1)"
  using assms(1-3) unfolding p'_def
proof (induction rs arbitrary: p v cash err)
  case Nil
  then show ?case by (simp add: cash_flow_def net_position_def)
next
  case (Cons r rs)
  have q: "list_all (fill_ok P) rs \<Longrightarrow> 0 \<le> (\<Sum>r\<leftarrow>rs. er_last_qty r)" for rs
    by (induction rs) (auto simp: fill_ok_def)
  have v: "v + er_last_qty r \<le> V" using Cons.prems(1,3) q [of rs] by simp
  have ok: "fill_ok P r" using Cons.prems(1) by simp
  note st = net_step [OF ok Cons.prems(2) v assms(4,5)]
  have ok': "list_all (fill_ok P) rs" "v + er_last_qty r + (\<Sum>r\<leftarrow>rs. er_last_qty r) \<le> V"
    using Cons.prems(1,3) by (simp_all add: add.assoc)
  have e: "cash + cash_flow (r # rs) = cash - sideToValue (er_side r) * er_price r * er_last_qty r + cash_flow rs"
    "net_position (r # rs) = signed_qty r + net_position rs"
    "err + closed_against (pi_position p) (r # rs) = err + (if pi_position p * sideToValue (er_side r) < 0 then \<bar>pi_position p\<bar> else 0)
       + closed_against (pi_position (add_fill r p)) rs"
    "v + (\<Sum>r\<leftarrow>r # rs. er_last_qty r) = v + er_last_qty r + (\<Sum>r\<leftarrow>rs. er_last_qty r)"
    "fold add_fill (r # rs) p = fold add_fill rs (add_fill r p)"
    by (simp_all add: cash_flow_def net_position_def signed_qty_def st(2))
  show ?case using Cons.IH [OF ok'(1) st(1) ok'(2)] st(3) unfolding e
    by (cases "rs = []") (simp_all add: st(2) signed_qty_def net_position_def add.assoc)
qed

text \<open>
  C15. One-way fills tie the reported profit to the money that moved. Take fills without a position side whose
  prices are at most \<open>P\<close> and whose total quantity is at most \<open>V\<close>, with \<open>4 P V\<close> and \<open>V V\<close> below \<open>2 ^ 63\<close>. From a fresh
  position, \<open>position_\<close> is the exact signed sum of the fills, and the reported total profit differs from the cash flow
  plus the position valued at the last fill price by at most the sizes of the positions that closing fills met (the
  integer division of the cost basis loses less than one unit per unit of position). So no wrap-around and no
  accumulating drift beyond that rounding.
\<close>

theorem net_pnl_tracks_cash:
  assumes "rs \<noteq> []" "list_all (fill_ok P) rs" "(\<Sum>r\<leftarrow>rs. er_last_qty r) \<le> V" "4 * (P * V) < 2 ^ 63" "V * V < 2 ^ 63"
  defines "p \<equiv> fold add_fill rs PositionInfo_new"
  shows "pi_position p = net_position rs
    \<and> \<bar>pi_total_pnl p - (cash_flow rs + er_price (last rs) * net_position rs)\<bar> \<le> closed_against 0 rs"
proof -
  have i0: "net_inv P 0 0 0 PositionInfo_new" by (simp add: net_inv_def PositionInfo_new_def)
  have x0: "pi_position PositionInfo_new = 0" by (simp add: PositionInfo_new_def)
  have v: "0 + (\<Sum>r\<leftarrow>rs. er_last_qty r) \<le> V" using assms(3) by simp
  note n = net_fold [OF assms(2) i0 v assms(4,5), unfolded x0 add_0, folded p_def]
  show ?thesis using n assms(1) unfolding net_inv_def by simp linarith
qed

definition demo_fill :: "Side \<Rightarrow> PositionSide option \<Rightarrow> int64 \<Rightarrow> int64 \<Rightarrow> ExecutionReport" where
  "demo_fill s ps price q = \<lparr>er_cl_order_id = 1, er_symbol = ''BTCUSDC'', er_exec_type = Exec_kNew, er_ord_status = Ord_kFilled, er_cum_qty = q,
     er_leaves_qty = 0, er_last_qty = q, er_error_code = 0, er_price = price, er_side = s, er_text = [], er_position_side = ps\<rparr>"

theorem net_pnl_tracks_cash_witness:
  "let rs = [demo_fill kBuy None 100 3, demo_fill kBuy None 103 4, demo_fill kSell None 110 9];
       p = fold add_fill rs PositionInfo_new
   in pi_position p = net_position rs \<and> net_position rs = - 2
    \<and> \<bar>pi_total_pnl p - (cash_flow rs + er_price (last rs) * net_position rs)\<bar> \<le> closed_against 0 rs
    \<and> closed_against 0 rs = 7"
  unfolding Let_def
  using net_pnl_tracks_cash [of "[demo_fill kBuy None 100 3, demo_fill kBuy None 103 4, demo_fill kSell None 110 9]" 200 20]
  by (simp add: demo_fill_def fill_ok_def net_position_def signed_qty_def)

text \<open>
  Closing a hedge-mode long. While nothing narrows, selling \<open>q\<close> out of a long of size \<open>L \<ge> q\<close> books a realised profit
  of exactly the proceeds minus the cost it takes off the books. Selling the whole position leaves position 0 but
  the cost keeps the remainder \<open>cost mod L\<close> of the average-price division, which the next purchase inherits; only a
  sale of more than \<open>L\<close> resets the cost to 0.
\<close>

lemma hedge_long_close:
  assumes "0 < pi_long_position_raw p" "0 \<le> pi_long_cost p" "0 < q" "in_i64 (pi_long_cost p)" "in_i64 (pi_long_position_raw p)"
    and "in_i64 (pi_long_real_pnl p + (price - pi_long_cost p div pi_long_position_raw p) * min q (pi_long_position_raw p))"
    and "in_i64 (pi_long_position_raw p - q)"
  defines "p' \<equiv> fill_long kSell price q p"
  shows "(q \<le> pi_long_position_raw p \<longrightarrow> pi_long_position_raw p' = pi_long_position_raw p - q
       \<and> pi_long_real_pnl p' - pi_long_real_pnl p = price * q - (pi_long_cost p - pi_long_cost p'))
    \<and> (q = pi_long_position_raw p \<longrightarrow> pi_long_cost p' = pi_long_cost p mod pi_long_position_raw p)
    \<and> (pi_long_position_raw p < q \<longrightarrow> pi_long_position_raw p' = 0 \<and> pi_long_cost p' = 0)"
proof -
  let ?L = "pi_long_position_raw p" and ?c = "pi_long_cost p"
  let ?w = "?c div ?L"
  have w: "0 \<le> ?w" "?w * ?L \<le> ?c"
    using assms(1,2) by (simp_all add: pos_imp_zdiv_nonneg_iff minus_mod_eq_div_mult [symmetric])
  have "?w * 1 \<le> ?w * ?L" using w(1) assms(1) by (intro mult_left_mono) auto
  then have wc: "?w \<le> ?c" using w(2) by linarith
  have wi: "i64 (?c sdiv ?L) = ?w"
    using assms(1,2,4) w(1) wc by (subst sdiv_nonneg) (auto intro!: i64_id simp: in_i64_def)
  have "?w * min q ?L \<le> ?c" "0 \<le> ?w * min q ?L"
    using w assms(1,3) mult_left_mono [of "min q ?L" ?L ?w] by auto
  then have ci: "i64 (?c - ?w * min q ?L) = ?c - ?w * min q ?L"
    using assms(4) by (intro i64_id) (auto simp: in_i64_def)
  show ?thesis using assms(1,3) wi ci i64_id [OF assms(6)] i64_id [OF assms(7)]
    by (auto simp: p'_def fill_long_def Let_def algebra_simps minus_div_mult_eq_mod [symmetric])
qed

text \<open>
  In hedge mode the reported total profit is blind to offsetting positions. Buying \<open>q\<close> into the long book at \<open>p1\<close> and
  selling \<open>q\<close> into the short book at \<open>p2\<close> gives a net position of 0, so the unrealised profit is taken to be 0 and the
  total profit is 0 for every pair of prices, while the long and short books themselves show \<open>(p2 - p1) q\<close>. The loss
  limit of the risk check reads this total.
\<close>

lemma hedged_pair_total_blind:
  assumes "er_side r1 = kBuy" "er_position_side r1 = Some kLong" "er_side r2 = kSell" "er_position_side r2 = Some kShort"
    and "er_last_qty r1 = q" "er_last_qty r2 = q" "0 < q" "q < 2 ^ 62"
    and "0 \<le> er_price r1" "0 \<le> er_price r2" "er_price r1 * q < 2 ^ 62" "er_price r2 * q < 2 ^ 62"
  defines "p \<equiv> add_fill r2 (add_fill r1 PositionInfo_new)"
  shows "pi_total_pnl p = 0 \<and> pi_long_unreal_pnl p + pi_short_unreal_pnl p = (er_price r2 - er_price r1) * q"
proof -
  let ?a = "er_price r1" and ?b = "er_price r2"
  have nn: "0 \<le> ?a * q" "0 \<le> ?b * q" using assms(7,9,10) by simp_all
  have "?a * 1 \<le> ?a * q" "?b * 1 \<le> ?b * q" using assms(7,9,10) by (intro mult_left_mono; simp)+
  then have i: "in_i64 (?a * q)" "in_i64 (?b * q)" "in_i64 ?a" "in_i64 ?b" "in_i64 q" "in_i64 (- q)" "in_i64 ((?b - ?a) * q)"
    using assms(7-12) nn by (auto simp: in_i64_def left_diff_distrib)
  have d: "?a * q sdiv q = ?a" "?b * q sdiv q = ?b" using assms(7) nn by (simp_all add: sdiv_nonneg)
  have o: "oppIndex 0 = 1" "oppIndex 1 = 0" "oppIndex (Suc 0) = 0" using oppIndex_sides by simp_all
  define p1 where "p1 = add_fill r1 PositionInfo_new"
  have p1: "pi_position p1 = q" "pi_long_position_raw p1 = q" "pi_short_position_raw p1 = 0" "pi_long_cost p1 = ?a * q" "pi_short_cost p1 = 0"
    "pi_long_real_pnl p1 = 0" "pi_short_real_pnl p1 = 0" "pi_open_vwap p1 0 = ?a * q"
    using assms(1,2,5,7) i d o
    by (simp_all add: p1_def add_fill_def fill_hedge_def fill_long_def fill_net_def fill_unreal_def hedge_unreal_def Let_def PositionInfo_new_def)
  show ?thesis
    unfolding p_def p1_def [symmetric] using assms(3,4,6,7) i d o p1
    by (simp add: add_fill_def fill_hedge_def fill_short_def fill_net_def fill_unreal_def hedge_unreal_def Let_def)
qed

end
