(* ===== verification/Risk_Manager.thy ===== *)
theory Risk_Manager
  imports Position_Keeper
begin

text \<open>
  The pre-trade risk check (\<^verbatim>\<open>hft/src/risk_manager.h\<close>, \<^verbatim>\<open>hft/src/risk_manager.cpp\<close>). A \<open>RiskInfo\<close> holds the limits of a
  ticker and the position the pointer \<^verbatim>\<open>position_info_\<close> refers to, as it is when the check reads it. A ticker without
  an entry makes \<^verbatim>\<open>unordered_map::at\<close> throw, which is \<^term>\<open>None\<close>. Log lines are left out.
\<close>

datatype RiskCheckResult = Risk_kInvalid | kOrderTooLarge | kPositionTooLarge | kPositionTooSmall | kLossTooLarge | kAllowed

fun riskCheckResultToString :: "RiskCheckResult \<Rightarrow> string" where
  "riskCheckResultToString Risk_kInvalid = ''INVALID''"
| "riskCheckResultToString kOrderTooLarge = ''ORDER_TOO_LARGE''"
| "riskCheckResultToString kPositionTooLarge = ''POSITION_TOO_LARGE''"
| "riskCheckResultToString kPositionTooSmall = ''POSITION_TOO_Small''"
| "riskCheckResultToString kLossTooLarge = ''LOSS_TOO_LARGE''"
| "riskCheckResultToString kAllowed = ''ALLOWED''"

record RiskInfo =
  ri_position_info :: PositionInfo
  ri_risk_cfg :: RiskCfg

definition checkPreTradeRisk :: "RiskInfo \<Rightarrow> Side \<Rightarrow> int64 \<Rightarrow> int64 \<Rightarrow> RiskCheckResult" where
  "checkPreTradeRisk ri side qty reserved_position =
     (let cfg = ri_risk_cfg ri;
          current_position = pi_position (ri_position_info ri);
          current_total_pnl = pi_total_pnl (ri_position_info ri)
      in if qty > max_order_size cfg then kOrderTooLarge
         else if i64 (current_position + reserved_position + sideToValue side * qty) > max_position cfg then kPositionTooLarge
         else if i64 (current_position + reserved_position + sideToValue side * qty) < min_position cfg then kPositionTooSmall
         else if current_total_pnl < max_loss cfg then kLossTooLarge
         else kAllowed)"

definition RiskManager_new :: "string \<Rightarrow> (string \<rightharpoonup> PositionInfo) \<Rightarrow> (string \<rightharpoonup> RiskCfg) \<Rightarrow> (string \<rightharpoonup> RiskInfo) option" where
  "RiskManager_new ticker position_keeper ticker_cfg =
     (case get_position_info position_keeper ticker of
        None \<Rightarrow> None
      | Some p \<Rightarrow> (case ticker_cfg ticker of
                    None \<Rightarrow> None
                  | Some cfg \<Rightarrow> Some [ticker \<mapsto> \<lparr>ri_position_info = p, ri_risk_cfg = cfg\<rparr>]))"

definition check_pre_trade_risk :: "(string \<rightharpoonup> RiskInfo) \<Rightarrow> string \<Rightarrow> Side \<Rightarrow> int64 \<Rightarrow> int64 \<Rightarrow> RiskCheckResult option" where
  "check_pre_trade_risk ticker_risk ticker_id side qty reserved_qty =
     map_option (\<lambda>ri. checkPreTradeRisk ri side qty reserved_qty) (ticker_risk ticker_id)"

lemma checkPreTradeRisk_allowed:
  "checkPreTradeRisk ri side qty reserved = kAllowed \<longleftrightarrow>
     qty \<le> max_order_size (ri_risk_cfg ri)
     \<and> min_position (ri_risk_cfg ri) \<le> i64 (pi_position (ri_position_info ri) + reserved + sideToValue side * qty)
     \<and> i64 (pi_position (ri_position_info ri) + reserved + sideToValue side * qty) \<le> max_position (ri_risk_cfg ri)
     \<and> max_loss (ri_risk_cfg ri) \<le> pi_total_pnl (ri_position_info ri)"
  by (auto simp: checkPreTradeRisk_def Let_def)

end
