(* ===== verification/Order_Manager.thy ===== *)
theory Order_Manager
  imports Quote_Reconciler Order_Expiry Risk_Manager
begin

text \<open>
  The order manager (\<^verbatim>\<open>hft/src/order_manager.hpp\<close>): it reconciles quote intents with the layer book, filters them by
  venue and risk, sends the resulting requests, tracks the reserved quantity and the time-to-live of every order and
  applies execution reports. \<open>om_sent\<close> is the sequence of requests handed to \<^verbatim>\<open>TradeEngine::send_request\<close>, oldest
  first. The clock readings are arguments: \<open>now\<close> is the one of \<^verbatim>\<open>apply\<close> and \<open>id_now\<close> the one \<^verbatim>\<open>diff\<close> takes for the
  order ids. \<open>cfg_reorder\<close> is \<^verbatim>\<open>kSupportsCancelAndReorder\<close>. Logging and \<^verbatim>\<open>dump_all_slots\<close> are left out. \<^term>\<open>None\<close> is a
  crash: a division by zero in the venue policy or an unknown ticker in the risk manager.
\<close>

record OMConfig =
  cfg_reorder :: bool
  cfg_qty_scale :: int64
  cfg_reconciler :: Reconciler

record OrderManager =
  om_layer_book :: layer_book
  om_venue :: VenuePolicy
  om_reserved :: int64
  om_expiry :: OrderExpiryManager
  om_sent :: "RequestCommon list"

definition OrderManager_new :: "VenuePolicy \<Rightarrow> u64 \<Rightarrow> u64 \<Rightarrow> OrderManager" where
  "OrderManager_new vp ttl_reserved ttl_live =
     \<lparr>om_layer_book = LayerBook_new, om_venue = vp, om_reserved = 0, om_expiry = expiry_new ttl_reserved ttl_live, om_sent = []\<rparr>"

abbreviation om_book :: "OrderManager \<Rightarrow> string \<Rightarrow> Side \<Rightarrow> PositionSide option \<Rightarrow> SideBook" where
  "om_book m t s p \<equiv> side_book (om_layer_book m) t s p"

abbreviation set_om_book :: "string \<Rightarrow> Side \<Rightarrow> PositionSide option \<Rightarrow> SideBook \<Rightarrow> OrderManager \<Rightarrow> OrderManager" where
  "set_om_book t s p sb m \<equiv> m\<lparr>om_layer_book := set_side_book (om_layer_book m) t s p sb\<rparr>"

subsection \<open>Requests\<close>

definition send_request :: "RequestCommon \<Rightarrow> OrderManager \<Rightarrow> OrderManager" where
  "send_request r m = m\<lparr>om_sent := om_sent m @ [r]\<rparr>"

definition new_order :: "string \<Rightarrow> int64 \<Rightarrow> Side \<Rightarrow> int64 \<Rightarrow> order_id \<Rightarrow> PositionSide option \<Rightarrow> OrderManager \<Rightarrow> OrderManager" where
  "new_order ticker_id price side qty order_id position_side =
     send_request (RequestCommon_default\<lparr>rq_req_type := kNewSingleOrderData, rq_cl_order_id := order_id, rq_symbol := ticker_id,
       rq_side := side, rq_order_qty := qty, rq_ord_type := kLimit, rq_price := price, rq_time_in_force := kGoodTillCancel,
       rq_position_side := position_side\<rparr>)"

definition modify_order ::
  "bool \<Rightarrow> string \<Rightarrow> order_id \<Rightarrow> order_id \<Rightarrow> order_id \<Rightarrow> int64 \<Rightarrow> Side \<Rightarrow> int64 \<Rightarrow> PositionSide option \<Rightarrow> OrderManager \<Rightarrow> OrderManager" where
  "modify_order reorder ticker_id cancel_new_order_id order_id original_order_id price side qty position_side =
     (if reorder
      then send_request (RequestCommon_default\<lparr>rq_req_type := kOrderCancelRequestAndNewOrderSingle,
             rq_cl_cancel_order_id := cancel_new_order_id, rq_cl_order_id := order_id, rq_orig_cl_order_id := original_order_id,
             rq_symbol := ticker_id, rq_side := side, rq_order_qty := qty, rq_ord_type := kLimit, rq_price := price,
             rq_time_in_force := kGoodTillCancel, rq_position_side := position_side\<rparr>)
      else send_request (RequestCommon_default\<lparr>rq_req_type := kOrderModify, rq_cl_order_id := order_id,
             rq_orig_cl_order_id := original_order_id, rq_symbol := ticker_id, rq_side := side, rq_order_qty := qty,
             rq_ord_type := kLimit, rq_price := price, rq_time_in_force := kGoodTillCancel, rq_position_side := position_side\<rparr>))"

definition cancel_request :: "string \<Rightarrow> order_id \<Rightarrow> PositionSide option \<Rightarrow> RequestCommon" where
  "cancel_request ticker_id original_order_id position_side =
     RequestCommon_default\<lparr>rq_req_type := kOrderCancelRequest, rq_cl_order_id := original_order_id,
       rq_orig_cl_order_id := original_order_id, rq_symbol := ticker_id, rq_position_side := position_side\<rparr>"

definition cancel_order :: "string \<Rightarrow> order_id \<Rightarrow> PositionSide option \<Rightarrow> OrderManager \<Rightarrow> OrderManager" where
  "cancel_order ticker_id original_order_id position_side = send_request (cancel_request ticker_id original_order_id position_side)"

subsection \<open>Risk filter\<close>

text \<open>One pass of the erase loop; \<open>delta\<close> is the quantity an action adds. The result is the kept actions and \<^verbatim>\<open>running\<close>.\<close>

fun allow :: "(string \<rightharpoonup> RiskInfo) \<Rightarrow> string \<Rightarrow> ('a \<Rightarrow> Side) \<Rightarrow> ('a \<Rightarrow> int64) \<Rightarrow> 'a list \<Rightarrow> int64 \<Rightarrow> ('a list \<times> int64) option" where
  "allow risk ticker side_of delta [] running = Some ([], running)"
| "allow risk ticker side_of delta (a # as) running =
     (case check_pre_trade_risk risk ticker (side_of a) (delta a) running of
        None \<Rightarrow> None
      | Some res \<Rightarrow>
          if res = kAllowed
          then map_option (\<lambda>(kept, r). (a # kept, r)) (allow risk ticker side_of delta as (i64 (running + sideToValue (side_of a) * delta a)))
          else allow risk ticker side_of delta as running)"

definition repl_delta :: "ActionReplace \<Rightarrow> int64" where
  "repl_delta a = i64 (ar_qty a - ar_last_qty a)"

definition filter_by_risk :: "(string \<rightharpoonup> RiskInfo) \<Rightarrow> QuoteIntent list \<Rightarrow> int64 \<Rightarrow> Actions \<Rightarrow> Actions option" where
  "filter_by_risk risk intents reserved acts =
     (let ticker = (case intents of [] \<Rightarrow> [] | front # _ \<Rightarrow> qi_ticker front)
      in case allow risk ticker an_side an_qty (news acts) reserved of
           None \<Rightarrow> None
         | Some (ns, running) \<Rightarrow>
             map_option (\<lambda>(rs, _). acts\<lparr>news := ns, repls := rs\<rparr>) (allow risk ticker ar_side repl_delta (repls acts) running))"

subsection \<open>Applying actions\<close>

text \<open>Another layer of the book already has the tick.\<close>

definition tick_taken :: "SideBook \<Rightarrow> u64 \<Rightarrow> nat \<Rightarrow> bool" where
  "tick_taken sb tick layer = (case find_layer_by_ticks sb tick of None \<Rightarrow> False | Some existing \<Rightarrow> existing \<noteq> layer)"

definition process_new_order :: "OMConfig \<Rightarrow> string \<Rightarrow> u64 \<Rightarrow> ActionNew \<Rightarrow> OrderManager \<times> order_id list \<Rightarrow> OrderManager \<times> order_id list" where
  "process_new_order cfg ticker now a st = (case st of (m, order_ids) \<Rightarrow>
     (let sb = om_book m ticker (an_side a) (an_position_side a);
          tick = to_ticks_raw (rc_scale_int (cfg_reconciler cfg)) (an_price a)
      in if tick_taken sb tick (an_layer a) then (m, order_ids)
         else
           let sb1 = sb\<lparr>sb_layer_ticks := (sb_layer_ticks sb)(an_layer a := tick)\<rparr>;
               sb2 = upd_slot (an_layer a) (\<lambda>s. s\<lparr>sl_price := an_price a, sl_qty := an_qty a, sl_cl_order_id := an_cl_order_id a,
                       sl_state := OM_kReserved, sl_last_used := now\<rparr>) sb1;
               m1 = set_om_book ticker (an_side a) (an_position_side a) sb2 m;
               m2 = new_order ticker (an_price a) (an_side a) (an_qty a) (an_cl_order_id a) (an_position_side a) m1;
               m3 = m2\<lparr>om_reserved := add_reserved (om_reserved m2) (an_side a) (an_qty a)\<rparr>
           in (m3\<lparr>om_expiry := register_expiry ticker (an_side a) (an_position_side a) (an_layer a) (an_cl_order_id a) OM_kReserved now (om_expiry m3)\<rparr>,
               order_ids @ [an_cl_order_id a])))"

definition process_new_orders :: "OMConfig \<Rightarrow> string \<Rightarrow> Actions \<Rightarrow> u64 \<Rightarrow> OrderManager \<Rightarrow> OrderManager \<times> order_id list" where
  "process_new_orders cfg ticker acts now m = fold (process_new_order cfg ticker now) (news acts) (m, [])"

text \<open>The side book after a replace was sent: slot, ticks, id indices and the pending record.\<close>

definition replace_slot :: "bool \<Rightarrow> u64 \<Rightarrow> u64 \<Rightarrow> ActionReplace \<Rightarrow> SideBook \<Rightarrow> SideBook" where
  "replace_slot reorder tick now a sb =
     (let l = ar_layer a;
          original_price = sl_price (sb_slots sb l);
          original_tick = sb_layer_ticks sb l;
          sb1 = sb\<lparr>sb_layer_ticks := (sb_layer_ticks sb)(l := tick)\<rparr>;
          sb2 = upd_slot l (\<lambda>s. s\<lparr>sl_price := ar_price a, sl_qty := ar_qty a, sl_cl_order_id := ar_cl_order_id a,
                  sl_state := OM_kCancelReserved, sl_last_used := now\<rparr>) sb1;
          sb3 = sb2\<lparr>sb_new_id_to_layer := erase_layer (sb_new_id_to_layer sb2) l\<rparr>;
          pend = (\<lambda>new_id. \<lparr>pr_new_price = ar_price a, pr_new_qty = ar_qty a, pr_new_tick = tick, pr_new_cl_order_id = new_id,
                    pr_last_qty = ar_last_qty a, pr_original_cl_order_id = ar_original_cl_order_id a,
                    pr_original_price = original_price, pr_original_tick = original_tick\<rparr>)
      in if reorder
         then sb3\<lparr>sb_orig_id_to_layer := (sb_orig_id_to_layer sb3)(ar_cl_order_id a - 1 \<mapsto> l),
                  sb_new_id_to_layer := (sb_new_id_to_layer sb3)(ar_cl_order_id a \<mapsto> l),
                  sb_pending_repl := (sb_pending_repl sb3)(l := Some (pend (ar_cl_order_id a)))\<rparr>
         else sb3\<lparr>sb_new_id_to_layer := (sb_new_id_to_layer sb3)(ar_original_cl_order_id a \<mapsto> l),
                  sb_pending_repl := (sb_pending_repl sb3)(l := Some (pend (ar_original_cl_order_id a)))\<rparr>)"

definition process_replace_order :: "OMConfig \<Rightarrow> string \<Rightarrow> u64 \<Rightarrow> ActionReplace \<Rightarrow> OrderManager \<Rightarrow> OrderManager" where
  "process_replace_order cfg ticker now a m =
     (let sb = om_book m ticker (ar_side a) (ar_position_side a);
          tick = to_ticks_raw (rc_scale_int (cfg_reconciler cfg)) (ar_price a)
      in if tick_taken sb tick (ar_layer a) then m
         else
           let m1 = set_om_book ticker (ar_side a) (ar_position_side a) (replace_slot (cfg_reorder cfg) tick now a sb) m;
               m2 = (if cfg_reorder cfg
                     then modify_order True ticker (ar_cl_order_id a - 1) (ar_cl_order_id a) (ar_original_cl_order_id a)
                            (ar_price a) (ar_side a) (ar_qty a) (ar_position_side a) m1
                     else modify_order False ticker (ar_original_cl_order_id a) (ar_original_cl_order_id a) (ar_original_cl_order_id a)
                            (ar_price a) (ar_side a) (ar_qty a) (ar_position_side a) m1);
               m3 = m2\<lparr>om_reserved := add_reserved (om_reserved m2) (ar_side a) (i64 (ar_qty a - ar_last_qty a))\<rparr>
           in m3\<lparr>om_expiry := register_expiry ticker (ar_side a) (ar_position_side a) (ar_layer a) (ar_cl_order_id a) OM_kCancelReserved now (om_expiry m3)\<rparr>)"

definition process_replace_orders :: "OMConfig \<Rightarrow> string \<Rightarrow> Actions \<Rightarrow> u64 \<Rightarrow> OrderManager \<Rightarrow> OrderManager" where
  "process_replace_orders cfg ticker acts now m = fold (process_replace_order cfg ticker now) (repls acts) m"

definition process_cancel_order :: "string \<Rightarrow> u64 \<Rightarrow> ActionCancel \<Rightarrow> OrderManager \<Rightarrow> OrderManager" where
  "process_cancel_order ticker now a m =
     (let sb = om_book m ticker (ac_side a) (ac_position_side a);
          sb1 = upd_slot (ac_layer a) (\<lambda>s. s\<lparr>sl_state := OM_kCancelReserved, sl_last_used := now\<rparr>) sb
      in cancel_order ticker (ac_original_cl_order_id a) (ac_position_side a) (set_om_book ticker (ac_side a) (ac_position_side a) sb1 m))"

definition process_cancel_orders :: "string \<Rightarrow> Actions \<Rightarrow> u64 \<Rightarrow> OrderManager \<Rightarrow> OrderManager" where
  "process_cancel_orders ticker acts now m = fold (process_cancel_order ticker now) (cancels acts) m"

definition sweep_key :: "u64 \<Rightarrow> ExpiryKey \<Rightarrow> OrderManager \<Rightarrow> OrderManager" where
  "sweep_key now k m =
     (let sb = om_book m (ek_symbol k) (ek_side k) (ek_position_side k);
          slot = sb_slots sb (ek_layer k)
      in if ek_layer k \<ge> kSlotsPerSide then m
         else if sl_cl_order_id slot \<noteq> ek_cl_order_id k then m
         else if sl_state slot = OM_kDead \<or> sl_state slot = OM_kCancelReserved then m
         else if sl_state slot = OM_kLive \<or> sl_state slot = OM_kReserved
         then cancel_order (ek_symbol k) (sl_cl_order_id slot) None
                (set_om_book (ek_symbol k) (ek_side k) (ek_position_side k)
                   (upd_slot (ek_layer k) (\<lambda>s. s\<lparr>sl_state := OM_kCancelReserved, sl_last_used := now\<rparr>) sb) m)
         else m)"

definition sweep_expired_orders :: "u64 \<Rightarrow> OrderManager \<Rightarrow> OrderManager" where
  "sweep_expired_orders now m =
     (case sweep_expired now (om_expiry m) of (expired, e) \<Rightarrow> fold (sweep_key now) expired (m\<lparr>om_expiry := e\<rparr>))"

definition om_apply :: "OMConfig \<Rightarrow> (string \<rightharpoonup> RiskInfo) \<Rightarrow> u64 \<Rightarrow> u64 \<Rightarrow> QuoteIntent list \<Rightarrow> OrderManager \<Rightarrow> (OrderManager \<times> order_id list) option" where
  "om_apply cfg risk now id_now intents m =
     (case intents of
        [] \<Rightarrow> Some (sweep_expired_orders now m, [])
      | front # _ \<Rightarrow>
          let ticker = qi_ticker front;
              actions = diff (cfg_reconciler cfg) intents (om_layer_book m) id_now
          in case filter_by_venue (cfg_qty_scale cfg) (om_venue m) ticker now (om_layer_book m) actions of
               None \<Rightarrow> None
             | Some actions1 \<Rightarrow>
                 (case filter_by_risk risk intents (om_reserved m) actions1 of
                    None \<Rightarrow> None
                  | Some actions2 \<Rightarrow>
                      (case process_new_orders cfg ticker actions2 now m of
                         (m1, order_ids) \<Rightarrow>
                           let m2 = process_replace_orders cfg ticker actions2 now m1;
                               m3 = process_cancel_orders ticker actions2 now m2
                           in Some (sweep_expired_orders now m3, order_ids))))"

subsection \<open>Execution reports and instrument data\<close>

definition on_order_updated :: "OMConfig \<Rightarrow> u64 \<Rightarrow> ExecutionReport \<Rightarrow> OrderManager \<Rightarrow> OrderManager" where
  "on_order_updated cfg now r m =
     (case handle_execution_report (rc_scale_int (cfg_reconciler cfg)) now r
             (om_book m (er_symbol r) (er_side r) (er_position_side r), om_reserved m) of
        (sb, reserved) \<Rightarrow>
          let m1 = set_om_book (er_symbol r) (er_side r) (er_position_side r) sb (m\<lparr>om_reserved := reserved\<rparr>);
              register = (\<lambda>layer. m1\<lparr>om_expiry := register_expiry (er_symbol r) (er_side r) (er_position_side r) layer
                                       (er_cl_order_id r) OM_kLive now (om_expiry m1)\<rparr>)
          in if er_ord_status r = Ord_kNew
             then (case (case find_layer_by_id sb (er_cl_order_id r) of Some l \<Rightarrow> Some l | None \<Rightarrow> sb_new_id_to_layer sb (er_cl_order_id r)) of
                     Some layer \<Rightarrow> register layer
                   | None \<Rightarrow> m1)
             else if er_ord_status r = Ord_kPartiallyFilled
             then (case find_layer_by_id sb (er_cl_order_id r) of
                     Some layer \<Rightarrow> if sl_state (sb_slots sb layer) = OM_kLive then register layer else m1
                   | None \<Rightarrow> m1)
             else m1)"

text \<open>
  The symbols of an instrument message with their increments; \<^verbatim>\<open>static_cast<int64_t>(min_qty_increment * kQtyScale)\<close>,
  a conversion of a double, is the argument \<open>to_raw\<close>.
\<close>

definition on_instrument_info :: "('d \<Rightarrow> int64) \<Rightarrow> string \<Rightarrow> (string \<times> 'd) list \<Rightarrow> OrderManager \<Rightarrow> OrderManager" where
  "on_instrument_info to_raw target_ticker symbols m =
     (case List.find (\<lambda>(s, _). s = target_ticker) symbols of
        None \<Rightarrow> m
      | Some (_, min_qty_increment) \<Rightarrow> m\<lparr>om_venue := set_qty_increment (to_raw min_qty_increment) (om_venue m)\<rparr>)"

end
