(* ===== verification/Order_Manager_Inv.thy ===== *)
theory Order_Manager_Inv
  imports Order_Manager
begin

text \<open>
  Invariants of the order manager. \<open>om_inv\<close> says that the reserved quantity is the signed quantity of all open slots of
  the ticker, that the id indices point to existing layers and that the expiry queue is ordered. Every operation is
  a step of \<open>om_step\<close> under the condition that it is consistent with the slot it touches, and the invariant holds in
  every reachable state.
\<close>

lemma side_book_set:
  "side_book (set_side_book lb t s p sb) t' s' p' = (if t' = t \<and> pos_idx p' = pos_idx p \<and> s' = s then sb else side_book lb t' s' p')"
  by (cases s; cases s') (simp_all add: side_book_def set_side_book_def)

definition side_ok :: "Side \<Rightarrow> PositionSide option \<Rightarrow> bool" where
  "side_ok s p \<longleftrightarrow> s \<in> {kBuy, kSell} \<and> pos_idx p < 2"

definition book_net :: "layer_book \<Rightarrow> string \<Rightarrow> int" where
  "book_net lb t = (open_qty (lb t 0 0) - open_qty (lb t 0 1)) + (open_qty (lb t 1 0) - open_qty (lb t 1 1))"

lemma book_net_set:
  assumes "side_ok s p"
  shows "book_net (set_side_book lb t s p sb) t = book_net lb t + sideToValue s * (open_qty sb - open_qty (side_book lb t s p))"
proof -
  have "pos_idx p = 0 \<or> pos_idx p = 1" "s = kBuy \<or> s = kSell" using assms by (auto simp: side_ok_def)
  then show ?thesis by (elim disjE) (simp_all add: book_net_def set_side_book_def side_book_def)
qed

lemma book_net_same:
  assumes "open_qty sb = open_qty (side_book lb t' s p)"
  shows "book_net (set_side_book lb t' s p sb) t = book_net lb t"
  using assms by (simp add: book_net_def set_side_book_def side_book_def)

definition books_ok :: "layer_book \<Rightarrow> bool" where
  "books_ok lb \<longleftrightarrow> (\<forall>t p s. ids_ok (lb t p s))"

lemma books_ok_set: "books_ok lb \<Longrightarrow> ids_ok sb \<Longrightarrow> books_ok (set_side_book lb t s p sb)"
  by (simp add: books_ok_def set_side_book_def)

lemma books_ok_side: "books_ok lb \<Longrightarrow> ids_ok (side_book lb t s p)"
  by (simp add: books_ok_def side_book_def)

definition om_inv :: "string \<Rightarrow> OrderManager \<Rightarrow> bool" where
  "om_inv t m \<longleftrightarrow> om_reserved m = i64 (book_net (om_layer_book m) t) \<and> books_ok (om_layer_book m) \<and> expiry_inv (om_expiry m)"

lemma send_frame [simp]:
  "om_layer_book (send_request r m) = om_layer_book m" "om_reserved (send_request r m) = om_reserved m"
  "om_expiry (send_request r m) = om_expiry m" "om_venue (send_request r m) = om_venue m" "om_sent (send_request r m) = om_sent m @ [r]"
  by (simp_all add: send_request_def)

lemma requests_are_sends:
  "\<exists>r. new_order t pr s q i p = send_request r" "\<exists>r. modify_order b t i j k pr s q p = send_request r"
  "cancel_order t i p = send_request (cancel_request t i p)"
  by (auto simp: new_order_def modify_order_def cancel_order_def)

lemma request_frame [simp]:
  "om_layer_book (new_order t pr s q i p m) = om_layer_book m" "om_reserved (new_order t pr s q i p m) = om_reserved m"
  "om_expiry (new_order t pr s q i p m) = om_expiry m" "om_venue (new_order t pr s q i p m) = om_venue m"
  "om_layer_book (modify_order b t i j k pr s q p m) = om_layer_book m" "om_reserved (modify_order b t i j k pr s q p m) = om_reserved m"
  "om_expiry (modify_order b t i j k pr s q p m) = om_expiry m" "om_venue (modify_order b t i j k pr s q p m) = om_venue m"
  "om_layer_book (cancel_order t i p m) = om_layer_book m" "om_reserved (cancel_order t i p m) = om_reserved m"
  "om_expiry (cancel_order t i p m) = om_expiry m" "om_venue (cancel_order t i p m) = om_venue m"
  "om_sent (cancel_order t i p m) = om_sent m @ [cancel_request t i p]"
  by (simp_all add: new_order_def modify_order_def cancel_order_def)

subsection \<open>Preservation\<close>

lemma om_invI_set:
  assumes inv: "om_inv t m" and s: "side_ok s p" and ids: "ids_ok sb" and e: "expiry_inv (om_expiry m')"
    and lb: "om_layer_book m' = set_side_book (om_layer_book m) t s p sb"
    and r: "om_reserved m' = i64 (om_reserved m + sideToValue s * (open_qty sb - open_qty (om_book m t s p)))"
  shows "om_inv t m'"
  using assms books_ok_set by (simp add: om_inv_def book_net_set i64_arith)

definition new_ok :: "string \<Rightarrow> OrderManager \<Rightarrow> ActionNew \<Rightarrow> bool" where
  "new_ok t m a \<longleftrightarrow> side_ok (an_side a) (an_position_side a) \<and> an_layer a < 8
     \<and> \<not> slot_open (sb_slots (om_book m t (an_side a) (an_position_side a)) (an_layer a))"

lemma process_new_inv:
  assumes "om_inv t m" "new_ok t m a"
  shows "om_inv t (fst (process_new_order cfg t now a (m, ids)))"
proof (cases "tick_taken (om_book m t (an_side a) (an_position_side a)) (to_ticks_raw (rc_scale_int (cfg_reconciler cfg)) (an_price a)) (an_layer a)")
  case True
  then show ?thesis using assms(1) by (simp add: process_new_order_def)
next
  case False
  let ?sb = "om_book m t (an_side a) (an_position_side a)"
  let ?f = "\<lambda>s. s\<lparr>sl_price := an_price a, sl_qty := an_qty a, sl_cl_order_id := an_cl_order_id a, sl_state := OM_kReserved, sl_last_used := now\<rparr>"
  let ?sb' = "upd_slot (an_layer a) ?f (?sb\<lparr>sb_layer_ticks := (sb_layer_ticks ?sb)
      (an_layer a := to_ticks_raw (rc_scale_int (cfg_reconciler cfg)) (an_price a))\<rparr>)"
  have l: "an_layer a < 8" using assms(2) by (simp add: new_ok_def)
  have "slot_qty (sb_slots ?sb (an_layer a)) = 0" using assms(2) by (simp add: new_ok_def slot_qty_def)
  then have "open_qty ?sb' = open_qty ?sb + an_qty a"
    using open_slots_upd [OF l] by (simp add: open_qty_def slot_qty_simps)
  moreover have "ids_ok ?sb'" using assms(1) books_ok_side by (simp add: om_inv_def)
  ultimately show ?thesis using assms False
    by (intro om_invI_set [OF assms(1), where s = "an_side a" and p = "an_position_side a" and sb = ?sb'])
      (simp_all add: process_new_order_def Let_def new_ok_def om_inv_def add_reserved_def register_expiry_inv)
qed

definition repl_ok :: "string \<Rightarrow> OrderManager \<Rightarrow> ActionReplace \<Rightarrow> bool" where
  "repl_ok t m a \<longleftrightarrow> side_ok (ar_side a) (ar_position_side a) \<and> ar_layer a < 8
     \<and> (let slot = sb_slots (om_book m t (ar_side a) (ar_position_side a)) (ar_layer a) in slot_open slot \<and> sl_qty slot = ar_last_qty a)"

lemma replace_slot_slots:
  "sb_slots (replace_slot b tick now a sb) = (sb_slots sb)(ar_layer a := (sb_slots sb (ar_layer a))\<lparr>sl_price := ar_price a, sl_qty := ar_qty a,
     sl_cl_order_id := ar_cl_order_id a, sl_state := OM_kCancelReserved, sl_last_used := now\<rparr>)"
  by (simp add: replace_slot_def Let_def)

lemma replace_slot_ids: "ids_ok sb \<Longrightarrow> ar_layer a < 8 \<Longrightarrow> ids_ok (replace_slot b tick now a sb)"
  by (auto simp: replace_slot_def Let_def ids_ok_def erase_layer_def split: if_splits)

lemma process_replace_inv:
  assumes "om_inv t m" "repl_ok t m a"
  shows "om_inv t (process_replace_order cfg t now a m)"
proof (cases "tick_taken (om_book m t (ar_side a) (ar_position_side a)) (to_ticks_raw (rc_scale_int (cfg_reconciler cfg)) (ar_price a)) (ar_layer a)")
  case True
  then show ?thesis using assms(1) by (simp add: process_replace_order_def)
next
  case False
  let ?sb = "om_book m t (ar_side a) (ar_position_side a)"
  let ?sb' = "replace_slot (cfg_reorder cfg) (to_ticks_raw (rc_scale_int (cfg_reconciler cfg)) (ar_price a)) now a ?sb"
  have l: "ar_layer a < 8" and c: "slot_open (sb_slots ?sb (ar_layer a))" "sl_qty (sb_slots ?sb (ar_layer a)) = ar_last_qty a"
    using assms(2) by (simp_all add: repl_ok_def Let_def)
  have "open_qty ?sb' = open_qty ?sb + (ar_qty a - ar_last_qty a)"
    using c open_slots_upd [OF l] by (simp add: open_qty_def replace_slot_slots slot_qty_simps)
  moreover have "ids_ok ?sb'" using assms(1) l books_ok_side by (simp add: om_inv_def replace_slot_ids)
  ultimately show ?thesis using assms False
    by (intro om_invI_set [OF assms(1), where s = "ar_side a" and p = "ar_position_side a" and sb = ?sb'])
      (simp_all add: process_replace_order_def Let_def repl_ok_def om_inv_def add_reserved_def register_expiry_inv i64_arith)
qed

lemma om_inv_restate:
  assumes inv: "om_inv t m" and l: "l < 8" and o: "slot_open (sb_slots (om_book m t' s p) l)"
    and f: "\<And>x. sl_qty (f x) = sl_qty x" "\<And>x. sl_state (f x) = OM_kCancelReserved"
    and m': "om_layer_book m' = set_side_book (om_layer_book m) t' s p (upd_slot l f (om_book m t' s p))"
      "om_reserved m' = om_reserved m" "om_expiry m' = om_expiry m"
  shows "om_inv t m'"
proof -
  have "open_qty (upd_slot l f (om_book m t' s p)) = open_qty (om_book m t' s p)"
    using o f open_slots_upd [OF l] by (simp add: open_qty_def slot_qty_def slot_open_def)
  moreover have "ids_ok (upd_slot l f (om_book m t' s p))" using inv books_ok_side by (simp add: om_inv_def)
  ultimately show ?thesis using inv m' by (simp add: om_inv_def book_net_same books_ok_set)
qed

definition cancel_ok :: "string \<Rightarrow> OrderManager \<Rightarrow> ActionCancel \<Rightarrow> bool" where
  "cancel_ok t m a \<longleftrightarrow> ac_layer a < 8 \<and> slot_open (sb_slots (om_book m t (ac_side a) (ac_position_side a)) (ac_layer a))"

lemma process_cancel_inv: "om_inv t m \<Longrightarrow> cancel_ok t m a \<Longrightarrow> om_inv t (process_cancel_order t now a m)"
  by (rule om_inv_restate [where l = "ac_layer a" and s = "ac_side a" and p = "ac_position_side a"
      and f = "\<lambda>s. s\<lparr>sl_state := OM_kCancelReserved, sl_last_used := now\<rparr>"])
    (simp_all add: process_cancel_order_def Let_def cancel_ok_def)

definition sweepable :: "ExpiryKey \<Rightarrow> OrderManager \<Rightarrow> bool" where
  "sweepable k m \<longleftrightarrow> ek_layer k < kSlotsPerSide
     \<and> (let slot = sb_slots (om_book m (ek_symbol k) (ek_side k) (ek_position_side k)) (ek_layer k)
        in sl_cl_order_id slot = ek_cl_order_id k \<and> sl_state slot \<in> {OM_kLive, OM_kReserved})"

definition cancel_slot :: "u64 \<Rightarrow> ExpiryKey \<Rightarrow> OrderManager \<Rightarrow> OrderManager" where
  "cancel_slot now k m = cancel_order (ek_symbol k) (ek_cl_order_id k) None
     (set_om_book (ek_symbol k) (ek_side k) (ek_position_side k)
        (upd_slot (ek_layer k) (\<lambda>s. s\<lparr>sl_state := OM_kCancelReserved, sl_last_used := now\<rparr>)
           (om_book m (ek_symbol k) (ek_side k) (ek_position_side k))) m)"

lemma sweep_key_eq: "sweep_key now k m = (if sweepable k m then cancel_slot now k m else m)"
  by (auto simp: sweep_key_def sweepable_def cancel_slot_def Let_def)

lemma cancel_slot_inv: "om_inv t m \<Longrightarrow> sweepable k m \<Longrightarrow> om_inv t (cancel_slot now k m)"
  by (rule om_inv_restate [where l = "ek_layer k" and s = "ek_side k" and p = "ek_position_side k" and t' = "ek_symbol k"
      and f = "\<lambda>s. s\<lparr>sl_state := OM_kCancelReserved, sl_last_used := now\<rparr>"])
    (auto simp: cancel_slot_def sweepable_def kSlotsPerSide_def Let_def slot_open_def)

lemma sweep_key_inv: "om_inv t m \<Longrightarrow> om_inv t (sweep_key now k m)"
  by (simp add: sweep_key_eq cancel_slot_inv)

lemma fold_sweep_inv: "om_inv t m \<Longrightarrow> om_inv t (fold (sweep_key now) ks m)"
  by (induction ks arbitrary: m) (simp_all add: sweep_key_inv)

lemma sweep_orders_inv:
  assumes "om_inv t m"
  shows "om_inv t (sweep_expired_orders now m)"
proof -
  obtain ks e where s: "sweep_expired now (om_expiry m) = (ks, e)" by fastforce
  have "om_inv t (m\<lparr>om_expiry := e\<rparr>)" using assms sweep_spec(1) [OF _ s] by (simp add: om_inv_def)
  then have "om_inv t (fold (sweep_key now) ks (m\<lparr>om_expiry := e\<rparr>))" by (rule fold_sweep_inv)
  then show ?thesis by (simp add: sweep_expired_orders_def s)
qed

definition update_ok :: "OMConfig \<Rightarrow> string \<Rightarrow> OrderManager \<Rightarrow> ExecutionReport \<Rightarrow> bool" where
  "update_ok cfg t m r \<longleftrightarrow> er_symbol r = t \<and> side_ok (er_side r) (er_position_side r)
     \<and> report_ok (rc_scale_int (cfg_reconciler cfg)) r (om_book m t (er_side r) (er_position_side r))"

lemma on_order_updated_frame:
  "om_layer_book (on_order_updated cfg now r m) = set_side_book (om_layer_book m) (er_symbol r) (er_side r) (er_position_side r)
     (fst (handle_execution_report (rc_scale_int (cfg_reconciler cfg)) now r (om_book m (er_symbol r) (er_side r) (er_position_side r), om_reserved m)))"
  "om_reserved (on_order_updated cfg now r m) =
     snd (handle_execution_report (rc_scale_int (cfg_reconciler cfg)) now r (om_book m (er_symbol r) (er_side r) (er_position_side r), om_reserved m))"
  "expiry_inv (om_expiry m) \<Longrightarrow> expiry_inv (om_expiry (on_order_updated cfg now r m))"
  by (simp_all add: on_order_updated_def Let_def case_prod_beta register_expiry_inv split: option.split)

lemma on_order_updated_inv:
  assumes "om_inv t m" "update_ok cfg t m r"
  shows "om_inv t (on_order_updated cfg now r m)"
proof -
  let ?sb = "om_book m t (er_side r) (er_position_side r)"
  let ?h = "handle_execution_report (rc_scale_int (cfg_reconciler cfg)) now r (?sb, om_reserved m)"
  have ids: "ids_ok ?sb" using assms(1) by (simp add: om_inv_def books_ok_side)
  have sym: "er_symbol r = t" and rep: "report_ok (rc_scale_int (cfg_reconciler cfg)) r ?sb" and so: "side_ok (er_side r) (er_position_side r)"
    using assms(2) by (simp_all add: update_ok_def)
  have "in_i64 (om_reserved m)" using assms(1) by (simp add: om_inv_def)
  then have "accounted (er_side r) (?sb, om_reserved m) ?h" by (rule handle_report_accounting [OF rep _ ids])
  then have "snd ?h = i64 (om_reserved m + sideToValue (er_side r) * (open_qty (fst ?h) - open_qty ?sb))" by (simp add: accounted_def)
  then show ?thesis
    using assms(1) on_order_updated_frame [where m = m and r = r and cfg = cfg and now = now, unfolded sym] handle_report_ids [OF ids]
    by (intro om_invI_set [OF assms(1) so]) (auto simp: om_inv_def)
qed

end
