(* ===== verification/Order_Manager_Steps.thy ===== *)
theory Order_Manager_Steps
  imports Order_Manager_Inv
begin

text \<open>
  The order manager as a state machine. \<open>om_step\<close> has one rule per operation, each with the consistency condition of
  the slot it touches; \<open>reserved_matches_open_orders\<close> is the invariant of all reachable states. \<open>apply_is_steps\<close> shows
  that a whole call of \<open>om_apply\<close> is a sequence of such steps when its intents address different side books.
\<close>

inductive om_step :: "OMConfig \<Rightarrow> string \<Rightarrow> OrderManager \<Rightarrow> OrderManager \<Rightarrow> bool" for cfg t where
  step_new: "new_ok t m a \<Longrightarrow> om_step cfg t m (fst (process_new_order cfg t now a (m, ids)))"
| step_replace: "repl_ok t m a \<Longrightarrow> om_step cfg t m (process_replace_order cfg t now a m)"
| step_cancel: "cancel_ok t m a \<Longrightarrow> om_step cfg t m (process_cancel_order t now a m)"
| step_sweep: "om_step cfg t m (sweep_expired_orders now m)"
| step_report: "update_ok cfg t m r \<Longrightarrow> om_step cfg t m (on_order_updated cfg now r m)"
| step_instrument: "om_step cfg t m (m\<lparr>om_venue := vp\<rparr>)"

inductive_cases om_step_cases: "om_step cfg t m m'"

lemma om_step_inv: "om_step cfg t m m' \<Longrightarrow> om_inv t m \<Longrightarrow> om_inv t m'"
proof (induction rule: om_step.induct)
  case (step_instrument m vp)
  then show ?case by (simp add: om_inv_def)
qed (simp_all add: process_new_inv process_replace_inv process_cancel_inv sweep_orders_inv on_order_updated_inv)

lemma om_new_inv: "om_inv t (OrderManager_new vp a b)"
proof -
  have "open_slots (\<lambda>_. OrderSlot_new) = 0" by (simp add: open_slots_def slot_qty_def slot_open_def OrderSlot_new_def)
  then show ?thesis
    by (simp add: om_inv_def OrderManager_new_def LayerBook_new_def book_net_def books_ok_def ids_ok_def SideBook_new_def open_qty_def
        expiry_inv_def expiry_new_def)
qed

lemma om_steps_inv: "(om_step cfg t)\<^sup>*\<^sup>* m m' \<Longrightarrow> om_inv t m \<Longrightarrow> om_inv t m'"
  by (induction rule: rtranclp_induct) (auto intro: om_step_inv)


definition demo_cfg :: OMConfig where
  "demo_cfg = \<lparr>cfg_reorder = True, cfg_qty_scale = 1000,
     cfg_reconciler = \<lparr>rc_min_replace_qty_delta = 1, rc_min_replace_tick_delta = 1, rc_scale_int = 1\<rparr>\<rparr>"

definition demo_venue :: VenuePolicy where
  "demo_venue = \<lparr>vp_minimum_usdt = 0, vp_minimum_qty = 1, vp_maximum_qty = 1000, vp_minimum_time_gap = 0, vp_qty_increment = 1\<rparr>"

definition demo_new :: ActionNew where
  "demo_new = \<lparr>an_layer = 2, an_price = 900, an_qty = 7, an_side = kSell, an_cl_order_id = 50, an_position_side = Some kShort\<rparr>"


subsection \<open>A whole call of apply\<close>

definition book_at :: "OrderManager \<Rightarrow> string \<Rightarrow> nat \<times> Side \<Rightarrow> SideBook" where
  "book_at m t k = om_layer_book m t (fst k) (sideToIndex (snd k))"

definition nkey :: "ActionNew \<Rightarrow> nat \<times> Side" where
  "nkey a = (pos_idx (an_position_side a), an_side a)"

definition rkey :: "ActionReplace \<Rightarrow> nat \<times> Side" where
  "rkey a = (pos_idx (ar_position_side a), ar_side a)"

lemma book_at_set:
  "om_layer_book m' = set_side_book (om_layer_book m) t s p sb \<Longrightarrow> k \<noteq> (pos_idx p, s) \<Longrightarrow> book_at m' t k = book_at m t k"
  by (cases k; cases s; cases "snd k") (auto simp: book_at_def set_side_book_def)

lemma om_book_at: "om_book m t s p = book_at m t (pos_idx p, s)"
  by (simp add: book_at_def side_book_def)

lemma new_order_frame: "k \<noteq> nkey a \<Longrightarrow> book_at (fst (process_new_order cfg t now a (m, ids))) t k = book_at m t k"
  by (auto simp: process_new_order_def Let_def nkey_def intro!: book_at_set)

lemma replace_order_frame: "k \<noteq> rkey a \<Longrightarrow> book_at (process_replace_order cfg t now a m) t k = book_at m t k"
  by (auto simp: process_replace_order_def Let_def rkey_def intro!: book_at_set)

lemma new_ok_book: "new_ok t m a \<Longrightarrow> book_at m' t (nkey a) = book_at m t (nkey a) \<Longrightarrow> new_ok t m' a"
  by (simp add: new_ok_def om_book_at nkey_def)

lemma repl_ok_book: "repl_ok t m a \<Longrightarrow> book_at m' t (rkey a) = book_at m t (rkey a) \<Longrightarrow> repl_ok t m' a"
  by (simp add: repl_ok_def om_book_at rkey_def)

lemma news_steps:
  assumes "distinct (map nkey ns)" "list_all (new_ok t m) ns"
  shows "(om_step cfg t)\<^sup>*\<^sup>* m (fst (fold (process_new_order cfg t now) ns (m, ids)))
    \<and> (\<forall>k. k \<notin> nkey ` set ns \<longrightarrow> book_at (fst (fold (process_new_order cfg t now) ns (m, ids))) t k = book_at m t k)"
  using assms
proof (induction ns arbitrary: m ids)
  case (Cons a ns)
  obtain m1 ids1 where p: "process_new_order cfg t now a (m, ids) = (m1, ids1)" by fastforce
  have step: "om_step cfg t m m1" using step_new [of t m a cfg now ids] Cons.prems(2) p by simp
  have frame: "k \<noteq> nkey a \<Longrightarrow> book_at m1 t k = book_at m t k" for k using new_order_frame [of k a cfg t now m ids] p by simp
  have "list_all (new_ok t m1) ns" using Cons.prems new_ok_book [OF _ frame] by (fastforce simp: list_all_iff image_iff)
  then show ?case using Cons.IH [of m1 ids1] Cons.prems(1) step frame p by (auto intro: converse_rtranclp_into_rtranclp)
qed simp

lemma repls_steps:
  assumes "distinct (map rkey rs)" "list_all (repl_ok t m) rs"
  shows "(om_step cfg t)\<^sup>*\<^sup>* m (fold (process_replace_order cfg t now) rs m)"
  using assms
proof (induction rs arbitrary: m)
  case (Cons a rs)
  let ?m1 = "process_replace_order cfg t now a m"
  have step: "om_step cfg t m ?m1" using step_replace [of t m a cfg now] Cons.prems(2) by simp
  have "list_all (repl_ok t ?m1) rs" using Cons.prems repl_ok_book [OF _ replace_order_frame [of _ a cfg t now m]]
    by (fastforce simp: list_all_iff image_iff)
  then show ?case using Cons.IH [of ?m1] Cons.prems(1) step by (auto intro: converse_rtranclp_into_rtranclp)
qed simp

text \<open>The keys of the actions are among those of the intents, the filters only remove actions.\<close>

definition ikey :: "QuoteIntent \<Rightarrow> nat \<times> Side" where
  "ikey i = (pos_idx (qi_position_side i), qi_side i)"

definition akeys :: "Actions \<Rightarrow> (nat \<times> Side) multiset" where
  "akeys acts = mset (map nkey (news acts)) + mset (map rkey (repls acts))"

lemma diff_intent_keys:
  "akeys (diff_intent rc lb t now s i acts) \<subseteq># akeys acts + (if qi_side i = s then {#ikey i#} else {#})"
  by (auto simp: diff_intent_def Let_def akeys_def nkey_def rkey_def ikey_def split: option.split)

lemma fold_diff_keys:
  "akeys (fold (diff_intent rc lb t now s) xs acts) \<subseteq># akeys acts + mset (map ikey (filter (\<lambda>i. qi_side i = s) xs))"
proof (induction xs arbitrary: acts)
  case (Cons i xs)
  have "akeys (fold (diff_intent rc lb t now s) (i # xs) acts)
      \<subseteq># akeys (diff_intent rc lb t now s i acts) + mset (map ikey (filter (\<lambda>i. qi_side i = s) xs))"
    using Cons.IH [of "diff_intent rc lb t now s i acts"] by simp
  also have "\<dots> \<subseteq># akeys acts + (if qi_side i = s then {#ikey i#} else {#}) + mset (map ikey (filter (\<lambda>i. qi_side i = s) xs))"
    using diff_intent_keys by (rule mset_subset_eq_mono_add) simp
  finally show ?case by (cases "qi_side i = s") simp_all
qed simp

lemma diff_keys: "akeys (diff rc intents lb now) \<subseteq># mset (map ikey intents)"
proof (cases intents)
  case (Cons front rest)
  let ?f = "\<lambda>s. fold (diff_intent rc lb (qi_ticker front) now s) intents"
  let ?k = "\<lambda>s. mset (map ikey (filter (\<lambda>i. qi_side i = s) intents))"
  have "akeys (diff rc intents lb now) = akeys (?f kSell (?f kBuy Actions_empty))" by (simp add: diff_def Cons)
  also have "\<dots> \<subseteq># akeys (?f kBuy Actions_empty) + ?k kSell" by (rule fold_diff_keys)
  also have "\<dots> \<subseteq># akeys Actions_empty + ?k kBuy + ?k kSell" using fold_diff_keys by (rule mset_subset_eq_mono_add) simp
  also have "\<dots> = ?k kBuy + ?k kSell" by (simp add: akeys_def Actions_empty_def)
  also have "\<dots> \<subseteq># mset (map ikey intents)" by (induction intents) (auto intro: subset_mset.order_trans)
  finally show ?thesis .
qed (simp add: diff_def akeys_def Actions_empty_def)

lemma map_opt_list: "map_opt f xs = Some ys \<longleftrightarrow> list_all2 (\<lambda>x y. f x = Some y) xs ys"
  by (induction xs arbitrary: ys) (auto simp: list_all2_Cons1 split: option.splits)

lemma map_opt_keys:
  assumes "map_opt f xs = Some ys" "\<And>x y. f x = Some y \<Longrightarrow> key y = key x"
  shows "map key ys = map key xs"
  using assms by (auto simp: map_opt_list list_all2_conv_all_nth intro: nth_equalityI)

lemma erase_four_sub: "mset (erase_four vp now lt so po v) \<subseteq># mset v"
  by (simp add: erase_four_mset)

lemma venue_keys:
  assumes "filter_by_venue qs vp tk now lb acts = Some acts'"
  shows "akeys acts' \<subseteq># akeys acts" "cancels acts = [] \<Longrightarrow> cancels acts' = []"
proof -
  let ?e = "\<lambda>so po. erase_four vp now (get_last_time lb tk) so po"
  obtain ns rs where n: "map_opt (venue_new qs vp) (?e an_side an_position_side (news acts)) = Some ns"
    and r: "map_opt (venue_repl qs vp) (?e ar_side ar_position_side (repls acts)) = Some rs"
    and a: "acts' = \<lparr>news = ns, repls = rs, cancels = ?e ac_side ac_position_side (cancels acts)\<rparr>"
    using assms by (auto simp: filter_by_venue_def Let_def split: option.splits)
  have "map nkey ns = map nkey (?e an_side an_position_side (news acts))"
    by (rule map_opt_keys [OF n]) (auto simp: venue_new_def nkey_def)
  moreover have "map rkey rs = map rkey (?e ar_side ar_position_side (repls acts))"
    by (rule map_opt_keys [OF r]) (auto simp: venue_repl_def rkey_def split: option.splits)
  ultimately show "akeys acts' \<subseteq># akeys acts"
    by (simp only: a akeys_def Actions.select_convs mset_map) (intro subset_mset.add_mono image_mset_subseteq_mono erase_four_sub)
  show "cancels acts' = []" if "cancels acts = []"
    using erase_four_sub [of vp now "get_last_time lb tk" ac_side ac_position_side "[]"] that by (simp add: a)
qed

text \<open>Live quantities are multiples of the increment, so rounding them changes nothing.\<close>

definition lots_ok :: "OrderManager \<Rightarrow> string \<Rightarrow> bool" where
  "lots_ok m t \<longleftrightarrow> (let n = vp_qty_increment (om_venue m) in 0 < n
     \<and> (\<forall>p < 2. \<forall>s < 2. \<forall>l < 8. let slot = sb_slots (om_layer_book m t p s) l in sl_state slot = OM_kLive \<longrightarrow>
           0 \<le> sl_qty slot \<and> n dvd sl_qty slot \<and> sl_qty slot + n < 2 ^ 63))"

lemma lots_ok_round:
  assumes "lots_ok m t" "side_ok s p" "l < 8" "sl_state (sb_slots (om_book m t s p) l) = OM_kLive"
  shows "round_qty (om_venue m) (sl_qty (sb_slots (om_book m t s p) l)) = Some (sl_qty (sb_slots (om_book m t s p) l))"
proof -
  have "sideToIndex s < 2" "pos_idx p < 2" using assms(2) by (auto simp: side_ok_def)
  then have "0 < vp_qty_increment (om_venue m)" "0 \<le> sl_qty (sb_slots (om_book m t s p) l)"
    "vp_qty_increment (om_venue m) dvd sl_qty (sb_slots (om_book m t s p) l)"
    "sl_qty (sb_slots (om_book m t s p) l) + vp_qty_increment (om_venue m) < 2 ^ 63"
    using assms(1,3,4) by (auto simp: lots_ok_def Let_def side_book_def)
  then show ?thesis using round_qty_up by blast
qed

definition keys_ok :: "Actions \<Rightarrow> bool" where
  "keys_ok acts \<longleftrightarrow> (\<forall>k \<in># akeys acts. snd k \<in> {kBuy, kSell} \<and> fst k < 2)"

lemma keys_ok_side:
  "keys_ok acts \<Longrightarrow> a \<in> set (news acts) \<Longrightarrow> side_ok (an_side a) (an_position_side a)"
  "keys_ok acts \<Longrightarrow> b \<in> set (repls acts) \<Longrightarrow> side_ok (ar_side b) (ar_position_side b)"
proof -
  show "side_ok (an_side a) (an_position_side a)" if "keys_ok acts" "a \<in> set (news acts)"
  proof -
    have "nkey a \<in># akeys acts" using that(2) by (simp add: akeys_def)
    then show ?thesis using that(1) by (auto simp: keys_ok_def nkey_def side_ok_def)
  qed
  show "side_ok (ar_side b) (ar_position_side b)" if "keys_ok acts" "b \<in> set (repls acts)"
  proof -
    have "rkey b \<in># akeys acts" using that(2) by (simp add: akeys_def)
    then show ?thesis using that(1) by (auto simp: keys_ok_def rkey_def side_ok_def)
  qed
qed

lemma venue_acts_ok:
  assumes v: "filter_by_venue qs (om_venue m) tk now lb acts = Some acts'" and k: "keys_ok acts"
    and t: "actions_target_ok (om_layer_book m) t i acts" and lots: "lots_ok m t"
  shows "list_all (new_ok t m) (news acts')" "list_all (repl_ok t m) (repls acts')"
proof -
  let ?e = "\<lambda>so po. erase_four (om_venue m) now (get_last_time lb tk) so po"
  have n: "map_opt (venue_new qs (om_venue m)) (?e an_side an_position_side (news acts)) = Some (news acts')"
    and r: "map_opt (venue_repl qs (om_venue m)) (?e ar_side ar_position_side (repls acts)) = Some (repls acts')"
    using v by (auto simp: filter_by_venue_def Let_def split: option.splits)
  have sub: "set (?e an_side an_position_side (news acts)) \<subseteq> set (news acts)" "set (?e ar_side ar_position_side (repls acts)) \<subseteq> set (repls acts)"
    using set_mset_mono [OF erase_four_sub] by (metis set_mset_mset)+
  have "\<exists>a \<in> set (news acts). venue_new qs (om_venue m) a = Some a'" if "a' \<in> set (news acts')" for a'
    using n that sub(1) by (fastforce simp: map_opt_list list_all2_conv_all_nth in_set_conv_nth)
  then show "list_all (new_ok t m) (news acts')"
    using t keys_ok_side(1) [OF k]
    by (fastforce simp: list_all_iff actions_target_ok_def new_target_ok_def venue_new_def new_ok_def slot_open_def kSlotsPerSide_def)
  have r': "\<exists>a \<in> set (repls acts). venue_repl qs (om_venue m) a = Some a'" if "a' \<in> set (repls acts')" for a'
    using r that sub(2) by (fastforce simp: map_opt_list list_all2_conv_all_nth in_set_conv_nth)
  show "list_all (repl_ok t m) (repls acts')"
    unfolding list_all_iff
  proof
    fix a' assume "a' \<in> set (repls acts')"
    then obtain a where a: "a \<in> set (repls acts)" and va: "venue_repl qs (om_venue m) a = Some a'" using r' by blast
    have so: "side_ok (ar_side a) (ar_position_side a)" by (rule keys_ok_side(2) [OF k a])
    have l: "ar_layer a < 8" and live: "sl_state (sb_slots (om_book m t (ar_side a) (ar_position_side a)) (ar_layer a)) = OM_kLive"
      and q: "ar_last_qty a = sl_qty (sb_slots (om_book m t (ar_side a) (ar_position_side a)) (ar_layer a))"
      using t a by (auto simp: actions_target_ok_def list_all_iff repl_target_ok_def kSlotsPerSide_def Let_def)
    obtain q' where "a' = a\<lparr>ar_qty := q', ar_last_qty := ar_last_qty a\<rparr>"
      using va lots_ok_round [OF lots so l live] by (auto simp: venue_repl_def q split: option.splits)
    then show "repl_ok t m a'" using so l live q by (simp add: repl_ok_def slot_open_def Let_def)
  qed
qed

lemma allow_subseq: "allow risk t so de xs run = Some (ys, run') \<Longrightarrow> mset ys \<subseteq># mset xs"
proof (induction xs arbitrary: run ys)
  case (Cons x xs)
  then show ?case
    by (auto split: option.splits if_splits dest!: Cons.IH intro: subset_mset.order_trans [of _ "mset xs"])
qed simp

lemma risk_acts:
  assumes "filter_by_risk risk intents res acts = Some acts'"
  shows "mset (news acts') \<subseteq># mset (news acts)" "mset (repls acts') \<subseteq># mset (repls acts)" "cancels acts' = cancels acts"
  using assms by (auto simp: filter_by_risk_def Let_def split: option.splits prod.splits dest: allow_subseq)

lemma distinct_sub_mset:
  assumes "mset xs \<subseteq># mset ys" "distinct ys"
  shows "distinct xs"
  unfolding distinct_count_atmost_1
proof
  fix a
  have "count (mset ys) a \<le> 1" using assms(2) by (simp add: distinct_count_atmost_1)
  then have "count (mset xs) a \<le> 1" using mset_subset_eq_count [OF assms(1), of a] by linarith
  moreover have "a \<in> set xs \<longleftrightarrow> count (mset xs) a \<noteq> 0" by simp
  ultimately show "count (mset xs) a = (if a \<in> set xs then 1 else 0)" by (simp only: split: if_split) linarith
qed

lemma process_all_steps:
  fixes cfg :: OMConfig and now :: u64
  assumes n: "list_all (new_ok t m) (news acts)" and r: "list_all (repl_ok t m) (repls acts)"
    and d: "distinct (map nkey (news acts) @ map rkey (repls acts))"
  defines "m1 \<equiv> fst (process_new_orders cfg t acts now m)"
  shows "(om_step cfg t)\<^sup>*\<^sup>* m (process_replace_orders cfg t acts now m1)"
proof -
  have dn: "distinct (map nkey (news acts))" and dr: "distinct (map rkey (repls acts))" using d by simp_all
  note ns = news_steps [OF dn n, of cfg now "[]", folded process_new_orders_def m1_def]
  have "repl_ok t m1 a" if "a \<in> set (repls acts)" for a
  proof (rule repl_ok_book)
    show "repl_ok t m a" using r that by (simp add: list_all_iff)
    have "rkey a \<notin> nkey ` set (news acts)" using d that by auto
    then show "book_at m1 t (rkey a) = book_at m t (rkey a)" using conjunct2 [OF ns] by blast
  qed
  then have "list_all (repl_ok t m1) (repls acts)" by (simp add: list_all_iff)
  then have "(om_step cfg t)\<^sup>*\<^sup>* m1 (process_replace_orders cfg t acts now m1)"
    unfolding process_replace_orders_def by (rule repls_steps [OF dr])
  then show ?thesis by (rule rtranclp_trans [OF conjunct1 [OF ns]])
qed

lemma apply_steps:
  assumes "om_apply cfg risk now id_now intents m = Some (m', order_ids)"
    and "intents \<noteq> [] \<longrightarrow> qi_ticker (hd intents) = t"
    and "distinct (map ikey intents)" "list_all (\<lambda>i. side_ok (qi_side i) (qi_position_side i)) intents" "lots_ok m t"
  shows "(om_step cfg t)\<^sup>*\<^sup>* m m' \<and> (om_inv t m \<longrightarrow> om_inv t m')"
proof -
  have "(om_step cfg t)\<^sup>*\<^sup>* m m'"
  proof (cases intents)
    case Nil
    then show ?thesis using assms(1) by (auto simp: om_apply_def intro: step_sweep)
  next
    case (Cons front rest)
    let ?acts = "diff (cfg_reconciler cfg) intents (om_layer_book m) id_now"
    have t: "qi_ticker front = t" using assms(2) Cons by simp
    obtain a1 a2 m1 where v: "filter_by_venue (cfg_qty_scale cfg) (om_venue m) t now (om_layer_book m) ?acts = Some a1"
      and r: "filter_by_risk risk intents (om_reserved m) a1 = Some a2"
      and p: "process_new_orders cfg t a2 now m = (m1, order_ids)"
      and m': "m' = sweep_expired_orders now (process_cancel_orders t a2 now (process_replace_orders cfg t a2 now m1))"
      using assms(1) t by (auto simp: om_apply_def Cons Let_def split: option.splits prod.splits)
    have ok: "actions_target_ok (om_layer_book m) t id_now ?acts" using diff_targets_ok [OF Cons] t by simp
    have "keys_ok ?acts"
      using assms(4) mset_subset_eqD [OF diff_keys] by (fastforce simp: keys_ok_def ikey_def list_all_iff side_ok_def)
    note vo = venue_acts_ok [OF v this ok assms(5)] and vk = venue_keys [OF v] and ra = risk_acts [OF r]
    have "mset (map nkey (news a2) @ map rkey (repls a2)) \<subseteq># akeys a1"
      unfolding akeys_def mset_append mset_map by (intro subset_mset.add_mono image_mset_subseteq_mono ra)
    also have "\<dots> \<subseteq># mset (map ikey intents)" using vk(1) diff_keys by (rule subset_mset.order_trans)
    finally have d: "distinct (map nkey (news a2) @ map rkey (repls a2))" by (rule distinct_sub_mset [OF _ assms(3)])
    have "list_all (new_ok t m) (news a2)" "list_all (repl_ok t m) (repls a2)"
      using vo mset_subset_eqD [OF ra(1)] mset_subset_eqD [OF ra(2)] by (auto simp: list_all_iff)
    note st = process_all_steps [OF this d, of cfg now, unfolded p fst_conv]
    have "cancels a2 = []" using ra(3) vk(2) ok by (simp add: actions_target_ok_def)
    then have "m' = sweep_expired_orders now (process_replace_orders cfg t a2 now m1)" using m' by (simp add: process_cancel_orders_def)
    then show ?thesis using rtranclp.rtrancl_into_rtrancl [OF st step_sweep] by simp
  qed
  then show ?thesis using om_steps_inv by blast
qed


definition demo_risk :: "string \<rightharpoonup> RiskInfo" where
  "demo_risk = [''BTCUSDC'' \<mapsto> \<lparr>ri_position_info = PositionInfo_new,
     ri_risk_cfg = \<lparr>max_order_size = 100, max_position = 50, min_position = - 50, max_loss = - 1000\<rparr>\<rparr>]"

definition demo_intent :: "Side \<Rightarrow> int64 \<Rightarrow> QuoteIntent" where
  "demo_intent s price = \<lparr>qi_ticker = ''BTCUSDC'', qi_side = s, qi_position_side = Some kLong, qi_price = Some price, qi_qty = 5\<rparr>"

subsection \<open>No crash\<close>

lemma venue_qty_Some:
  assumes "price \<noteq> 0" "qs \<noteq> 0" "vp_qty_increment vp \<noteq> 0"
  shows "\<exists>q. venue_qty qs vp price qty = Some q" "\<exists>q. round_qty vp qty = Some q"
  using assms by (auto simp: venue_qty_def round_qty_def cdiv_def Let_def)

lemma map_opt_Some: "(\<And>x. x \<in> set xs \<Longrightarrow> \<exists>y. f x = Some y) \<Longrightarrow> \<exists>ys. map_opt f xs = Some ys"
  by (induction xs) fastforce+

lemma allow_Some: "risk t = Some ri \<Longrightarrow> allow risk t so de xs run \<noteq> None"
  by (induction xs arbitrary: run) (simp_all add: check_pre_trade_risk_def del: not_None_eq)

definition prices_ok :: "Actions \<Rightarrow> bool" where
  "prices_ok acts \<longleftrightarrow> list_all (\<lambda>a. an_price a \<noteq> 0) (news acts) \<and> list_all (\<lambda>a. ar_price a \<noteq> 0) (repls acts)"

lemma fold_diff_prices:
  assumes "prices_ok acts" "list_all (\<lambda>i. qi_price i \<noteq> Some 0) xs"
  shows "prices_ok (fold (diff_intent rc lb t now s) xs acts)"
  using assms
proof (induction xs arbitrary: acts)
  case (Cons i xs)
  have "prices_ok (diff_intent rc lb t now s i acts)"
    using Cons.prems by (auto simp: diff_intent_def Let_def prices_ok_def intent_active_def split: option.split)
  then show ?case using Cons by simp
qed simp

lemma diff_prices: "list_all (\<lambda>i. qi_price i \<noteq> Some 0) intents \<Longrightarrow> prices_ok (diff rc intents lb now)"
proof (cases intents)
  case (Cons front rest)
  assume "list_all (\<lambda>i. qi_price i \<noteq> Some 0) intents"
  then show ?thesis unfolding diff_def Cons list.case fold.simps(2,1) [of "\<lambda>side acts. fold (diff_intent rc lb (qi_ticker front) now side) (front # rest) acts"]
    comp_apply id_apply by (intro fold_diff_prices) (simp_all add: prices_ok_def Actions_empty_def)
qed (simp add: diff_def prices_ok_def Actions_empty_def)

lemma filter_by_venue_Some:
  assumes "prices_ok acts" "qs \<noteq> 0" "vp_qty_increment vp \<noteq> 0"
  shows "\<exists>a. filter_by_venue qs vp tk now lb acts = Some a"
proof -
  let ?e = "\<lambda>so po. erase_four vp now (get_last_time lb tk) so po"
  have sub: "set (?e an_side an_position_side (news acts)) \<subseteq> set (news acts)" "set (?e ar_side ar_position_side (repls acts)) \<subseteq> set (repls acts)"
    using set_mset_mono [OF erase_four_sub] by (metis set_mset_mset)+
  have "\<exists>ys. map_opt (venue_new qs vp) (?e an_side an_position_side (news acts)) = Some ys"
  proof (rule map_opt_Some)
    fix a assume "a \<in> set (?e an_side an_position_side (news acts))"
    then have "an_price a \<noteq> 0" using assms(1) sub(1) by (auto simp: prices_ok_def list_all_iff)
    then show "\<exists>y. venue_new qs vp a = Some y" using venue_qty_Some(1) [of "an_price a" qs vp "an_qty a"] assms(2,3) by (auto simp: venue_new_def)
  qed
  moreover have "\<exists>ys. map_opt (venue_repl qs vp) (?e ar_side ar_position_side (repls acts)) = Some ys"
  proof (rule map_opt_Some)
    fix a assume "a \<in> set (?e ar_side ar_position_side (repls acts))"
    then have "ar_price a \<noteq> 0" using assms(1) sub(2) by (auto simp: prices_ok_def list_all_iff)
    then show "\<exists>y. venue_repl qs vp a = Some y" 
      using venue_qty_Some(1) [of "ar_price a" qs vp "ar_qty a"] venue_qty_Some(2) [of "ar_price a" qs vp "ar_last_qty a"] assms(2,3)
      by (auto simp: venue_repl_def)
  qed
  ultimately show ?thesis by (auto simp: filter_by_venue_def Let_def)
qed

lemma apply_total:
  assumes "list_all (\<lambda>i. qi_price i \<noteq> Some 0) intents" "cfg_qty_scale cfg \<noteq> 0" "vp_qty_increment (om_venue m) \<noteq> 0"
    and "intents \<noteq> [] \<longrightarrow> risk (qi_ticker (hd intents)) \<noteq> None"
  shows "\<exists>m' order_ids. om_apply cfg risk now id_now intents m = Some (m', order_ids)"
proof (cases intents)
  case (Cons front rest)
  obtain ri where ri: "risk (qi_ticker front) = Some ri" using assms(4) Cons by auto
  obtain a1 where a1: "filter_by_venue (cfg_qty_scale cfg) (om_venue m) (qi_ticker front) now (om_layer_book m)
      (diff (cfg_reconciler cfg) intents (om_layer_book m) id_now) = Some a1"
    using filter_by_venue_Some [OF diff_prices [OF assms(1)] assms(2,3)] by blast
  obtain ns run where n: "allow risk (qi_ticker front) an_side an_qty (news a1) (om_reserved m) = Some (ns, run)"
    using allow_Some [of risk "qi_ticker front", OF ri] by fastforce
  obtain rs where r: "allow risk (qi_ticker front) ar_side repl_delta (repls a1) run = Some rs" using allow_Some [of risk "qi_ticker front", OF ri] by fastforce
  have "\<exists>a2. filter_by_risk risk intents (om_reserved m) a1 = Some a2" using n r by (simp add: filter_by_risk_def Cons Let_def)
  then show ?thesis using a1 unfolding om_apply_def Cons by (auto simp: Let_def case_prod_beta)
qed (simp add: om_apply_def)

text \<open>
  \<open>apply\<close> does not crash: with a known ticker, a non-zero increment and scale and no intent priced exactly 0 it
  returns for every layer book, all quantities and all risk limits. Each condition guards a division of the
  venue policy or the lookup of the risk manager.
\<close>

lemma apply_returns:
  assumes "list_all (\<lambda>i. qi_price i \<noteq> Some 0) intents" "cfg_qty_scale cfg \<noteq> 0" "vp_qty_increment (om_venue m) \<noteq> 0"
    and "intents \<noteq> [] \<longrightarrow> risk (qi_ticker (hd intents)) \<noteq> None"
  shows "\<exists>m' order_ids. om_apply cfg risk now id_now intents m = Some (m', order_ids)"
  using assms by (rule apply_total)


end
