(* ===== verification/Order_Manager_Props.thy ===== *)
theory Order_Manager_Props
  imports Order_Manager_Steps
begin

text \<open>
  What the order manager promises about risk limits, expiry and failed replaces: \<open>risk_filter_limits\<close>, \<open>due_orders_are_cancelled\<close>
  and \<open>replace_reject_roundtrip\<close>.
\<close>

subsection \<open>Risk limits\<close>

definition within_limits :: "RiskInfo \<Rightarrow> int \<Rightarrow> bool" where
  "within_limits ri working \<longleftrightarrow> min_position (ri_risk_cfg ri) \<le> i64 (pi_position (ri_position_info ri) + working)
     \<and> i64 (pi_position (ri_position_info ri) + working) \<le> max_position (ri_risk_cfg ri)"

lemma within_limits_i64: "within_limits ri (i64 w) = within_limits ri w"
  by (simp add: within_limits_def i64_arith)

definition signed_add :: "('a \<Rightarrow> Side) \<Rightarrow> ('a \<Rightarrow> int64) \<Rightarrow> 'a \<Rightarrow> int" where
  "signed_add so de a = sideToValue (so a) * de a"

lemma allow_limits:
  assumes "risk t = Some ri" "allow risk t so de xs run = Some (ys, run')"
  shows "list_all (\<lambda>a. de a \<le> max_order_size (ri_risk_cfg ri)) ys"
    "ys \<noteq> [] \<Longrightarrow> max_loss (ri_risk_cfg ri) \<le> pi_total_pnl (ri_position_info ri)"
    "i64 run' = i64 (run + sum_list (map (signed_add so de) ys))"
    "\<And>n. 0 < n \<Longrightarrow> n \<le> length ys \<Longrightarrow> within_limits ri (run + sum_list (take n (map (signed_add so de) ys)))"
proof -
  have "list_all (\<lambda>a. de a \<le> max_order_size (ri_risk_cfg ri)) ys
    \<and> (ys \<noteq> [] \<longrightarrow> max_loss (ri_risk_cfg ri) \<le> pi_total_pnl (ri_position_info ri))
    \<and> i64 run' = i64 (run + sum_list (map (signed_add so de) ys))
    \<and> (\<forall>n. 0 < n \<and> n \<le> length ys \<longrightarrow> within_limits ri (run + sum_list (take n (map (signed_add so de) ys))))"
    using assms(2)
  proof (induction xs arbitrary: run ys)
    case (Cons x xs)
    show ?case
    proof (cases "checkPreTradeRisk ri (so x) (de x) run = kAllowed")
      case False
      then show ?thesis using Cons assms(1) by (simp add: check_pre_trade_risk_def)
    next
      case True
      then obtain ys1 where a: "allow risk t so de xs (i64 (run + signed_add so de x)) = Some (ys1, run')" and ys: "ys = x # ys1"
        using Cons.prems assms(1) by (auto simp: check_pre_trade_risk_def signed_add_def)
      note ih = Cons.IH [OF a]
      have w: "i64 (i64 a + b) = i64 (a + b)" "within_limits ri (i64 a + b) = within_limits ri (a + b)" for a b
        by (metis i64_add_left) (metis i64_add_left within_limits_i64)
      have c: "de x \<le> max_order_size (ri_risk_cfg ri)" "within_limits ri (run + signed_add so de x)"
        "max_loss (ri_risk_cfg ri) \<le> pi_total_pnl (ri_position_info ri)"
        using True by (simp_all add: checkPreTradeRisk_allowed within_limits_def signed_add_def add.assoc)
      have "within_limits ri (run + sum_list (take n (map (signed_add so de) ys)))" if n: "0 < n" "n \<le> length ys" for n
      proof (cases "n = 1")
        case True
        then show ?thesis using c(2) ys by simp
      next
        case False
        then obtain k where k: "n = Suc k" "0 < k" "k \<le> length ys1" using n ys by (cases n) auto
        then have "within_limits ri (i64 (run + signed_add so de x) + sum_list (take k (map (signed_add so de) ys1)))"
          using ih by blast
        then show ?thesis by (simp add: w ys k(1) add.assoc)
      qed
      then show ?thesis using c ih by (simp add: ys w add.assoc)
    qed
  qed simp
  then show "list_all (\<lambda>a. de a \<le> max_order_size (ri_risk_cfg ri)) ys"
    "ys \<noteq> [] \<Longrightarrow> max_loss (ri_risk_cfg ri) \<le> pi_total_pnl (ri_position_info ri)"
    "i64 run' = i64 (run + sum_list (map (signed_add so de) ys))"
    "\<And>n. 0 < n \<Longrightarrow> n \<le> length ys \<Longrightarrow> within_limits ri (run + sum_list (take n (map (signed_add so de) ys)))"
    by blast+
qed

text \<open>
  C19. The risk filter enforces the limits cumulatively. Of the actions it keeps, new orders first and replaces after, every
  prefix leaves position plus reserved quantity plus the added quantity of the prefix between the minimum and the
  maximum position; every kept order adds at most the maximum order size; and once the total profit is below the
  loss limit nothing is kept at all.
\<close>

theorem risk_filter_limits:
  assumes "filter_by_risk risk intents reserved acts = Some acts'"
    and "intents \<noteq> []" "risk (qi_ticker (hd intents)) = Some ri"
  defines "added \<equiv> map (signed_add an_side an_qty) (news acts') @ map (signed_add ar_side repl_delta) (repls acts')"
  shows "list_all (\<lambda>a. an_qty a \<le> max_order_size (ri_risk_cfg ri)) (news acts')
     \<and> list_all (\<lambda>a. repl_delta a \<le> max_order_size (ri_risk_cfg ri)) (repls acts')
     \<and> (\<forall>n. 0 < n \<and> n \<le> length added \<longrightarrow> within_limits ri (reserved + sum_list (take n added)))
     \<and> (added \<noteq> [] \<longrightarrow> max_loss (ri_risk_cfg ri) \<le> pi_total_pnl (ri_position_info ri))"
proof -
  have tk: "(case intents of [] \<Rightarrow> [] | front # _ \<Rightarrow> qi_ticker front) = qi_ticker (hd intents)" using assms(2) by (cases intents) simp_all
  obtain ns run rs run' where n: "allow risk (qi_ticker (hd intents)) an_side an_qty (news acts) reserved = Some (ns, run)"
    and r: "allow risk (qi_ticker (hd intents)) ar_side repl_delta (repls acts) run = Some (rs, run')" and a: "acts' = acts\<lparr>news := ns, repls := rs\<rparr>"
    using assms(1) unfolding filter_by_risk_def Let_def tk by (auto split: option.splits)
  note ln = allow_limits [where risk = risk and t = "qi_ticker (hd intents)", OF assms(3) n]
    and lr = allow_limits [where risk = risk and t = "qi_ticker (hd intents)", OF assms(3) r]
  have "within_limits ri (reserved + sum_list (take k added))" if k: "0 < k" "k \<le> length added" for k
  proof (cases "k \<le> length ns")
    case True
    then show ?thesis using ln(4) [OF k(1) True] by (simp add: added_def a)
  next
    case False
    have "within_limits ri (run + sum_list (take (k - length ns) (map (signed_add ar_side repl_delta) rs)))"
      using False k by (intro lr(4)) (auto simp: added_def a)
    moreover have "within_limits ri (run + z) = within_limits ri (reserved + sum_list (map (signed_add an_side an_qty) ns) + z)" for z
      using ln(3) by (metis within_limits_i64 i64_add_left)
    ultimately show ?thesis using False by (simp add: added_def a add.assoc)
  qed
  then show ?thesis using ln(1,2) lr(1,2) by (auto simp: a added_def)
qed

theorem risk_filter_limits_witness:
  "let acts = \<lparr>news = [demo_new, demo_new\<lparr>an_qty := 44\<rparr>, demo_new\<lparr>an_qty := 3\<rparr>], repls = [], cancels = []\<rparr>
   in \<exists>acts'. filter_by_risk demo_risk [demo_intent kSell 900] 0 acts = Some acts' \<and> map an_qty (news acts') = [7, 3]
        \<and> within_limits (the (demo_risk ''BTCUSDC'')) (- 10)"
proof -
  let ?acts = "\<lparr>news = [demo_new, demo_new\<lparr>an_qty := 44\<rparr>, demo_new\<lparr>an_qty := 3\<rparr>], repls = [], cancels = []\<rparr>"
  have e: "filter_by_risk demo_risk [demo_intent kSell 900] 0 ?acts = Some (?acts\<lparr>news := [demo_new, demo_new\<lparr>an_qty := 3\<rparr>]\<rparr>)"
    by (simp add: filter_by_risk_def check_pre_trade_risk_def checkPreTradeRisk_def demo_risk_def demo_intent_def demo_new_def
        PositionInfo_new_def in_i64_def Let_def)
  have s: "demo_risk (qi_ticker (hd [demo_intent kSell 900])) = Some (the (demo_risk ''BTCUSDC''))" by (simp add: demo_intent_def demo_risk_def)
  from risk_filter_limits [OF e _ s] have "within_limits (the (demo_risk ''BTCUSDC'')) (- 10)"
    by (auto dest!: spec [where x = 2] simp: demo_new_def signed_add_def)
  then show ?thesis using e by (simp add: Let_def demo_new_def)
qed

subsection \<open>Expiry\<close>

abbreviation key_slot :: "ExpiryKey \<Rightarrow> OrderManager \<Rightarrow> OrderSlot" where
  "key_slot k m \<equiv> sb_slots (om_book m (ek_symbol k) (ek_side k) (ek_position_side k)) (ek_layer k)"

definition key_request :: "ExpiryKey \<Rightarrow> RequestCommon" where
  "key_request k = cancel_request (ek_symbol k) (ek_cl_order_id k) None"

lemma cancel_slot_sent [simp]: "om_sent (cancel_slot now k m) = om_sent m @ [key_request k]"
  by (simp add: cancel_slot_def key_request_def)

text \<open>The slot of a key after another key was cancelled: the same slot, or untouched.\<close>

lemma cancel_slot_other:
  "key_slot k (cancel_slot now k' m) =
     (if ek_symbol k = ek_symbol k' \<and> ek_side k = ek_side k' \<and> pos_idx (ek_position_side k) = pos_idx (ek_position_side k') \<and> ek_layer k = ek_layer k'
      then (key_slot k m)\<lparr>sl_state := OM_kCancelReserved, sl_last_used := now\<rparr> else key_slot k m)"
proof (cases "ek_symbol k = ek_symbol k' \<and> ek_side k = ek_side k' \<and> pos_idx (ek_position_side k) = pos_idx (ek_position_side k')")
  case True
  then have "om_book m (ek_symbol k) (ek_side k) (ek_position_side k) = om_book m (ek_symbol k') (ek_side k') (ek_position_side k')"
    by (simp add: side_book_def)
  then show ?thesis using True by (simp add: cancel_slot_def side_book_set)
next
  case False
  then show ?thesis by (auto simp: cancel_slot_def side_book_set)
qed

definition key_done :: "ExpiryKey \<Rightarrow> OrderManager \<Rightarrow> RequestCommon list \<Rightarrow> bool" where
  "key_done k m sent \<longleftrightarrow> sl_state (key_slot k m) = OM_kCancelReserved \<and> key_request k \<in> set sent"

lemma sweepable_key: "sweepable k m \<longleftrightarrow> ek_layer k < kSlotsPerSide \<and> sl_cl_order_id (key_slot k m) = ek_cl_order_id k
    \<and> sl_state (key_slot k m) \<in> {OM_kLive, OM_kReserved}"
  by (simp add: sweepable_def Let_def)

lemma cancel_slot_keeps:
  assumes "sweepable k' m"
  shows "sweepable k (cancel_slot now k' m) \<Longrightarrow> sweepable k m"
    "key_done k m sent \<Longrightarrow> key_done k (cancel_slot now k' m) (sent @ [key_request k'])"
    "sweepable k m \<Longrightarrow> sweepable k (cancel_slot now k' m) \<or> key_done k (cancel_slot now k' m) (sent @ [key_request k'])"
    "key_done k' (cancel_slot now k' m) (sent @ [key_request k'])"
proof -
  have same: "key_request k = key_request k'"
    if "ek_symbol k = ek_symbol k'" "ek_side k = ek_side k'" "pos_idx (ek_position_side k) = pos_idx (ek_position_side k')" "ek_layer k = ek_layer k'" "sweepable k m"
  proof -
    have "key_slot k m = key_slot k' m" using that(1-4) by (simp add: side_book_def)
    then show ?thesis using that(1,5) assms by (simp add: sweepable_key key_request_def)
  qed
  show "sweepable k (cancel_slot now k' m) \<Longrightarrow> sweepable k m" by (auto simp: sweepable_key cancel_slot_other split: if_splits)
  show "key_done k m sent \<Longrightarrow> key_done k (cancel_slot now k' m) (sent @ [key_request k'])" by (simp add: key_done_def cancel_slot_other)
  show "key_done k' (cancel_slot now k' m) (sent @ [key_request k'])" by (simp add: key_done_def cancel_slot_other)
  show "sweepable k m \<Longrightarrow> sweepable k (cancel_slot now k' m) \<or> key_done k (cancel_slot now k' m) (sent @ [key_request k'])"
    using same by (auto simp: sweepable_key key_done_def cancel_slot_other)
qed

lemma fold_sweep:
  "\<exists>sent. om_sent (fold (sweep_key now) ks m) = om_sent m @ sent
     \<and> (\<forall>r \<in> set sent. \<exists>k \<in> set ks. r = key_request k \<and> sweepable k m)
     \<and> (\<forall>k. k \<in> set ks \<and> sweepable k m \<longrightarrow> key_done k (fold (sweep_key now) ks m) sent)
     \<and> (\<forall>k pre. key_done k m pre \<longrightarrow> key_done k (fold (sweep_key now) ks m) (pre @ sent))"
proof (induction ks arbitrary: m)
  case (Cons k ks)
  show ?case
  proof (cases "sweepable k m")
    case False
    then show ?thesis using Cons.IH [of m] by (auto simp: sweep_key_eq)
  next
    case True
    let ?m = "cancel_slot now k m"
    obtain sent where s: "om_sent (fold (sweep_key now) ks ?m) = om_sent ?m @ sent"
      and req: "\<forall>r \<in> set sent. \<exists>k \<in> set ks. r = key_request k \<and> sweepable k ?m"
      and all: "\<forall>k. k \<in> set ks \<and> sweepable k ?m \<longrightarrow> key_done k (fold (sweep_key now) ks ?m) sent"
      and keep: "\<forall>k pre. key_done k ?m pre \<longrightarrow> key_done k (fold (sweep_key now) ks ?m) (pre @ sent)"
      using Cons.IH [of ?m] by blast
    have more: "key_done j M sent \<Longrightarrow> key_done j M (xs @ sent)" for j M xs by (simp add: key_done_def)
    note c = cancel_slot_keeps [OF True]
    have f: "fold (sweep_key now) (k # ks) m = fold (sweep_key now) ks ?m" using True by (simp add: sweep_key_eq)
    show ?thesis unfolding f
    proof (intro exI [of _ "key_request k # sent"] conjI)
      show "om_sent (fold (sweep_key now) ks ?m) = om_sent m @ key_request k # sent" using s by simp
      show "\<forall>r \<in> set (key_request k # sent). \<exists>j \<in> set (k # ks). r = key_request j \<and> sweepable j m" using req c(1) True by auto
      show "\<forall>j. j \<in> set (k # ks) \<and> sweepable j m \<longrightarrow> key_done j (fold (sweep_key now) ks ?m) (key_request k # sent)"
      proof (intro allI impI)
        fix j assume j: "j \<in> set (k # ks) \<and> sweepable j m"
        then consider "sweepable j ?m" "j \<in> set ks" | "key_done j ?m [key_request k]"
          using c(3) [of j now "[]"] c(4) [of now "[]"] by fastforce
        then show "key_done j (fold (sweep_key now) ks ?m) (key_request k # sent)"
          using all keep more [of j _ "[key_request k]"] by cases (fastforce, metis append_Cons append_Nil)
      qed
      show "\<forall>j pre. key_done j m pre \<longrightarrow> key_done j (fold (sweep_key now) ks ?m) (pre @ key_request k # sent)"
        using keep c(2) by fastforce
    qed
  qed
qed simp

text \<open>
  C21. Orders do not outlive their time-to-live: if the expiry queue holds a due key whose slot still carries the same
  client order id and is live or reserved, the sweep of the same call sends a cancel request for that order and moves
  the slot to \<open>kCancelReserved\<close>. Conversely the sweep sends nothing but cancels, one of a due key of a live or
  reserved order for each.
\<close>

theorem due_orders_are_cancelled:
  fixes now :: u64
  assumes "expiry_inv (om_expiry m)"
  defines "m' \<equiv> sweep_expired_orders now m"
  shows "\<exists>sent. om_sent m' = om_sent m @ sent
     \<and> (\<forall>k. k \<in> set (ex_pq (om_expiry m)) \<and> ek_expire_ts k \<le> now \<and> sweepable k m \<longrightarrow>
           sl_state (key_slot k m') = OM_kCancelReserved \<and> key_request k \<in> set sent)
     \<and> (\<forall>r. r \<in> set sent \<longrightarrow> (\<exists>k. k \<in> set (ex_pq (om_expiry m)) \<and> ek_expire_ts k \<le> now \<and> sweepable k m \<and> r = key_request k))"
proof -
  obtain ks e where s: "sweep_expired now (om_expiry m) = (ks, e)" by fastforce
  have ks: "set ks = {k \<in> set (ex_pq (om_expiry m)). ek_expire_ts k \<le> now}"
    using arg_cong [OF sweep_spec(2) [OF assms(1) s], of set_mset] by simp
  have m': "m' = fold (sweep_key now) ks (m\<lparr>om_expiry := e\<rparr>)" by (simp add: m'_def sweep_expired_orders_def s)
  have sw: "sweepable k (m\<lparr>om_expiry := e\<rparr>) = sweepable k m" for k by (simp add: sweepable_def)
  from fold_sweep [of now ks "m\<lparr>om_expiry := e\<rparr>", folded m'] show ?thesis
    unfolding sw by (auto simp: ks key_done_def) blast
qed

theorem due_orders_are_cancelled_witness:
  "let m = fst (process_new_order demo_cfg ''BTCUSDC'' 50 demo_new (OrderManager_new demo_venue 10 100, []))
   in cancel_request ''BTCUSDC'' 50 None \<in> set (om_sent (sweep_expired_orders 60 m))"
proof -
  let ?m = "fst (process_new_order demo_cfg ''BTCUSDC'' 50 demo_new (OrderManager_new demo_venue 10 100, []))"
  let ?k = "\<lparr>ek_expire_ts = 60, ek_symbol = ''BTCUSDC'', ek_side = kSell, ek_position_side = Some kShort, ek_layer = 2, ek_cl_order_id = 50\<rparr>"
  have "find_layer_by_ticks SideBook_new 900 = None" by (simp add: find_layer_by_ticks_None SideBook_new_def kTicksInvalid_def)
  note d = this process_new_order_def tick_taken_def demo_new_def demo_cfg_def OrderManager_new_def side_book_def LayerBook_new_def
        to_ticks_raw_def Let_def set_side_book_def pos_idx_def register_expiry_def expiry_new_def pq_push_def
  have q: "ex_pq (om_expiry ?m) = [?k]" by (simp add: d)
  have i: "expiry_inv (om_expiry ?m)" unfolding expiry_inv_def q by simp
  have w: "sweepable ?k ?m" by (simp add: sweepable_def d kSlotsPerSide_def)
  obtain sent where s: "om_sent (sweep_expired_orders 60 ?m) = om_sent ?m @ sent"
    and c: "\<forall>k. k \<in> set (ex_pq (om_expiry ?m)) \<and> ek_expire_ts k \<le> 60 \<and> sweepable k ?m \<longrightarrow>
           sl_state (key_slot k (sweep_expired_orders 60 ?m)) = OM_kCancelReserved \<and> key_request k \<in> set sent"
    using due_orders_are_cancelled [OF i, of 60] by blast
  have "?k \<in> set (ex_pq (om_expiry ?m)) \<and> ek_expire_ts ?k \<le> 60" unfolding q by simp
  then have "key_request ?k \<in> set sent" using c w by blast
  then show ?thesis unfolding Let_def s by (simp add: key_request_def)
qed

subsection \<open>A failed replace\<close>

lemma replace_slot_pending:
  assumes "repl_id = (if b then ar_cl_order_id a else ar_original_cl_order_id a)"
  shows "sb_new_id_to_layer (replace_slot b tick now a sb) repl_id = Some (ar_layer a)"
    "\<exists>i. sb_pending_repl (replace_slot b tick now a sb) (ar_layer a) = Some \<lparr>pr_new_price = ar_price a, pr_new_qty = ar_qty a, pr_new_tick = tick,
       pr_new_cl_order_id = i, pr_last_qty = ar_last_qty a, pr_original_cl_order_id = ar_original_cl_order_id a,
       pr_original_price = sl_price (sb_slots sb (ar_layer a)), pr_original_tick = sb_layer_ticks sb (ar_layer a)\<rparr>"
    "sb_layer_ticks (replace_slot b tick now a sb) = (sb_layer_ticks sb)(ar_layer a := tick)"
  by (simp_all add: replace_slot_def Let_def assms)

lemma replace_reject_book:
  assumes id: "er_cl_order_id r = (if b then ar_cl_order_id a else ar_original_cl_order_id a)"
    and live: "sl_state (sb_slots sb (ar_layer a)) = OM_kLive" "ar_original_cl_order_id a = sl_cl_order_id (sb_slots sb (ar_layer a))"
      "ar_last_qty a = sl_qty (sb_slots sb (ar_layer a))"
    and h: "handle_rejected_or_expired scale r (replace_slot b tick now a sb, reserved) = (sb', reserved')"
  shows "sb_slots sb' = (sb_slots sb)(ar_layer a := (sb_slots sb (ar_layer a))\<lparr>sl_last_used := now\<rparr>)"
    "sb_layer_ticks sb' = sb_layer_ticks sb" "sb_pending_repl sb' (ar_layer a) = None" "sb_new_id_to_layer sb' (er_cl_order_id r) = None"
    "reserved' = i64 (reserved - sideToValue (er_side r) * (ar_qty a - ar_last_qty a))"
proof -
  note p = replace_slot_pending [of "er_cl_order_id r", OF id, of tick now sb]
  obtain i where rr: "rejected_replace r (replace_slot b tick now a sb) = Some (ar_layer a, \<lparr>pr_new_price = ar_price a, pr_new_qty = ar_qty a, pr_new_tick = tick,
       pr_new_cl_order_id = i, pr_last_qty = ar_last_qty a, pr_original_cl_order_id = ar_original_cl_order_id a,
       pr_original_price = sl_price (sb_slots sb (ar_layer a)), pr_original_tick = sb_layer_ticks sb (ar_layer a)\<rparr>)"
    using p(1,2) by (auto simp: rejected_replace_def)
  have e: "(sb', reserved') = handle_rejected_or_expired scale r (replace_slot b tick now a sb, reserved)" using h by simp
  show "sb_slots sb' = (sb_slots sb)(ar_layer a := (sb_slots sb (ar_layer a))\<lparr>sl_last_used := now\<rparr>)"
    "sb_layer_ticks sb' = sb_layer_ticks sb" "sb_pending_repl sb' (ar_layer a) = None" "sb_new_id_to_layer sb' (er_cl_order_id r) = None"
    "reserved' = i64 (reserved - sideToValue (er_side r) * (ar_qty a - ar_last_qty a))"
    using e live by (auto simp: handle_rejected_or_expired_def rr Let_def replace_slot_slots p(3) remove_reserved_def i64_arith)
qed


definition demo_live :: SideBook where
  "demo_live = (upd_slot 0 (\<lambda>s. s\<lparr>sl_state := OM_kLive, sl_price := 900, sl_qty := 5, sl_cl_order_id := 40\<rparr>) SideBook_new)
     \<lparr>sb_layer_ticks := (\<lambda>_. kTicksInvalid)(0 := 900)\<rparr>"

definition demo_manager :: OrderManager where
  "demo_manager = (OrderManager_new demo_venue 10 100)\<lparr>om_layer_book := set_side_book LayerBook_new ''BTCUSDC'' kBuy None demo_live, om_reserved := 5\<rparr>"

definition demo_replace :: ActionReplace where
  "demo_replace = \<lparr>ar_layer = 0, ar_price = 901, ar_qty = 6, ar_side = kBuy, ar_cl_order_id = 60, ar_original_cl_order_id = 40, ar_last_qty = 5,
     ar_position_side = None\<rparr>"


end
