(* ===== verification/Market_Consumer.thy ===== *)
theory Market_Consumer
  imports HFT_Types
begin

text \<open>
  Synchronising the depth stream with snapshots (\<^verbatim>\<open>hft/src/market_consumer.hpp\<close>, \<^verbatim>\<open>market_consumer_recovery.hpp\<close>,
  \<^verbatim>\<open>market_data_protocol_policy.h\<close>, \<^verbatim>\<open>depth_validator.h\<close>): the WebSocket variant buffers depth updates until a snapshot
  arrives, replays the buffer on top of it and then checks that every further update continues the last one. Wire
  messages are decoded by the application object, so an input carries the decoded data; \<^term>\<open>None\<close> as the input of a
  snapshot or a depth message means that the update pool was exhausted. The state records what was handed to the trade
  engine (\<open>mc_delivered\<close>), what was given back to the pools (\<open>mc_freed\<close>) and how many snapshot requests were sent;
  \<open>mc_exited\<close> stands for \<^verbatim>\<open>std::exit\<close>. A depth message that finds the pool exhausted dereferences a null pointer: the
  handler returns \<^term>\<open>None\<close>. Waiting times, logging and the instrument requests of the login are left out.
\<close>

datatype StreamState = kRunning | kAwaitingSnapshot | kApplyingSnapshot | kBuffering

datatype MarketType = kSpot | kFutures

record DepthValidationResult =
  dv_valid :: bool
  dv_new_update_index :: u64

subsection \<open>Depth validation\<close>

definition validate_first_depth_after_snapshot :: "MarketType \<Rightarrow> u64 \<Rightarrow> u64 \<Rightarrow> u64 \<Rightarrow> DepthValidationResult" where
  "validate_first_depth_after_snapshot ty start_idx end_idx snapshot_update_id =
     (if (if ty = kSpot then end_idx \<le> snapshot_update_id else end_idx < snapshot_update_id)
      then \<lparr>dv_valid = False, dv_new_update_index = snapshot_update_id\<rparr>
      else
        let overlaps = (start_idx \<le> snapshot_update_id \<and> end_idx \<ge> snapshot_update_id);
            immediately_follows = (start_idx = snapshot_update_id + 1);
            valid = (overlaps \<or> immediately_follows)
        in \<lparr>dv_valid = valid, dv_new_update_index = (if valid then end_idx else snapshot_update_id)\<rparr>)"

definition validate_continuous_depth :: "MarketType \<Rightarrow> u64 \<Rightarrow> u64 \<Rightarrow> u64 \<Rightarrow> u64 \<Rightarrow> DepthValidationResult" where
  "validate_continuous_depth market_type start_idx end_idx prev_end_idx current_update_index =
     (let valid = (if current_update_index = 0 then True
                   else if market_type = kFutures then prev_end_idx = current_update_index
                   else start_idx = current_update_index + 1)
      in \<lparr>dv_valid = valid, dv_new_update_index = (if valid then end_idx else current_update_index)\<rparr>)"

definition to_market_type :: "string \<Rightarrow> MarketType" where
  "to_market_type s = (if s = ''Futures'' then kFutures else kSpot)"

subsection \<open>The WebSocket consumer\<close>

datatype delivery = DSnap MarketUpdateData | DUpd MarketUpdateData

record MarketConsumer =
  mc_state :: StreamState
  mc_buffered_events :: "MarketUpdateData list"
  mc_first_buffered_update_id :: u64
  mc_update_index :: u64
  mc_first_depth_after_snapshot :: bool
  mc_retry_count :: nat
  mc_delivered :: "delivery list"
  mc_freed :: "MarketUpdateData list"
  mc_snapshot_requests :: nat
  mc_exited :: bool

definition MarketConsumer_new :: MarketConsumer where
  "MarketConsumer_new = \<lparr>mc_state = kAwaitingSnapshot, mc_buffered_events = [], mc_first_buffered_update_id = 0, mc_update_index = 0,
     mc_first_depth_after_snapshot = False, mc_retry_count = 0, mc_delivered = [], mc_freed = [], mc_snapshot_requests = 0, mc_exited = False\<rparr>"

definition kMaxRetries :: nat where
  "kMaxRetries = 3"

definition kMaxBufferedEvents :: nat where
  "kMaxBufferedEvents = 10"

definition request_snapshot :: "MarketConsumer \<Rightarrow> MarketConsumer" where
  "request_snapshot m = m\<lparr>mc_snapshot_requests := Suc (mc_snapshot_requests m)\<rparr>"

definition deliver :: "delivery \<Rightarrow> MarketConsumer \<Rightarrow> MarketConsumer" where
  "deliver d m = m\<lparr>mc_delivered := mc_delivered m @ [d]\<rparr>"

definition handle_login :: "MarketConsumer \<Rightarrow> MarketConsumer" where
  "handle_login m = (request_snapshot m)\<lparr>mc_state := kBuffering, mc_buffered_events := [], mc_first_buffered_update_id := 0\<rparr>"

definition recover_from_gap :: "MarketConsumer \<Rightarrow> MarketConsumer" where
  "recover_from_gap m =
     (if mc_state m = kBuffering then m
      else request_snapshot (m\<lparr>mc_state := kBuffering, mc_buffered_events := [], mc_first_buffered_update_id := 0\<rparr>))"

fun erase_lower :: "u64 \<Rightarrow> MarketUpdateData list \<Rightarrow> MarketUpdateData list \<times> MarketUpdateData list" where
  "erase_lower snapshot_update_id [] = ([], [])"
| "erase_lower snapshot_update_id (event # events) =
     (if mu_end_idx event \<le> snapshot_update_id
      then (case erase_lower snapshot_update_id events of (freed, kept) \<Rightarrow> (event # freed, kept))
      else ([], event # events))"

definition erase_buffer_lower_than_snapshot :: "u64 \<Rightarrow> MarketConsumer \<Rightarrow> MarketConsumer" where
  "erase_buffer_lower_than_snapshot snapshot_update_id m =
     (case erase_lower snapshot_update_id (mc_buffered_events m) of
        (freed, kept) \<Rightarrow> m\<lparr>mc_buffered_events := kept, mc_freed := mc_freed m @ freed\<rparr>)"

text \<open>Exit after too many retries, otherwise ask for another snapshot (\<open>again\<close>).\<close>

definition bump_retry :: "(MarketConsumer \<Rightarrow> MarketConsumer) \<Rightarrow> MarketConsumer \<Rightarrow> MarketConsumer" where
  "bump_retry again m =
     (let m1 = m\<lparr>mc_retry_count := Suc (mc_retry_count m)\<rparr>
      in if mc_retry_count m1 \<ge> kMaxRetries then m1\<lparr>mc_exited := True\<rparr> else again m1)"

text \<open>The replay loop: delivers buffered events until one does not continue the stream, and returns whether all did.\<close>

fun replay :: "MarketType \<Rightarrow> bool \<Rightarrow> MarketUpdateData list \<Rightarrow> MarketConsumer \<Rightarrow> MarketConsumer \<times> bool" where
  "replay ty first_buffered [] m = (m, True)"
| "replay ty first_buffered (b # bs) m =
     (let r = (if first_buffered
               then validate_first_depth_after_snapshot ty (mu_start_idx b) (mu_end_idx b) (mc_update_index m)
               else validate_continuous_depth ty (mu_start_idx b) (mu_end_idx b) (mu_prev_end_idx b) (mc_update_index m))
      in if dv_valid r then replay ty False bs (deliver (DUpd b) (m\<lparr>mc_update_index := dv_new_update_index r\<rparr>)) else (m, False))"

definition apply_snapshot :: "MarketType \<Rightarrow> MarketUpdateData \<Rightarrow> MarketConsumer \<Rightarrow> MarketConsumer" where
  "apply_snapshot ty snapshot_data m =
     (let m1 = deliver (DSnap snapshot_data) (m\<lparr>mc_state := kApplyingSnapshot, mc_update_index := mu_end_idx snapshot_data\<rparr>)
      in case replay ty True (mc_buffered_events m1) m1 of
           (m2, True) \<Rightarrow> m2\<lparr>mc_buffered_events := [], mc_retry_count := 0, mc_first_depth_after_snapshot := True, mc_state := kRunning\<rparr>
         | (m2, False) \<Rightarrow> bump_retry recover_from_gap (m2\<lparr>mc_buffered_events := []\<rparr>))"

definition on_snapshot :: "MarketType \<Rightarrow> MarketUpdateData option \<Rightarrow> MarketConsumer \<Rightarrow> MarketConsumer" where
  "on_snapshot ty alloc m =
     (case alloc of
        None \<Rightarrow> bump_retry request_snapshot
                  (m\<lparr>mc_freed := mc_freed m @ mc_buffered_events m, mc_buffered_events := [], mc_first_buffered_update_id := 0\<rparr>)
      | Some snapshot_data \<Rightarrow>
          if mc_state m = kBuffering
          then if mu_end_idx snapshot_data < mc_first_buffered_update_id m
               then bump_retry request_snapshot m
               else apply_snapshot ty snapshot_data (erase_buffer_lower_than_snapshot (mu_end_idx snapshot_data) (m\<lparr>mc_retry_count := 0\<rparr>))
          else apply_snapshot ty snapshot_data m)"

definition buffer_event :: "MarketUpdateData \<Rightarrow> MarketConsumer \<Rightarrow> MarketConsumer" where
  "buffer_event data m =
     (let m1 = (if mc_first_buffered_update_id m = 0 then m\<lparr>mc_first_buffered_update_id := mu_start_idx data\<rparr> else m);
          m2 = (case mc_buffered_events m1 of
                  [] \<Rightarrow> m1
                | oldest # rest \<Rightarrow>
                    if length (mc_buffered_events m1) \<ge> kMaxBufferedEvents
                    then let m' = m1\<lparr>mc_freed := mc_freed m1 @ [oldest], mc_buffered_events := rest\<rparr>
                         in (case rest of [] \<Rightarrow> m' | front # _ \<Rightarrow> m'\<lparr>mc_first_buffered_update_id := mu_start_idx front\<rparr>)
                    else m1)
      in m2\<lparr>mc_buffered_events := mc_buffered_events m2 @ [data]\<rparr>)"

definition handle_subscribe :: "MarketType \<Rightarrow> MarketUpdateData \<Rightarrow> MarketConsumer \<Rightarrow> MarketConsumer" where
  "handle_subscribe ty data m =
     (if mc_state m = kBuffering
      then if mu_type data \<noteq> Mdt_kMarket then m\<lparr>mc_freed := mc_freed m @ [data]\<rparr> else buffer_event data m
      else if mu_type data = Mdt_kMarket
      then
        let r = (if mc_first_depth_after_snapshot m
                 then validate_first_depth_after_snapshot ty (mu_start_idx data) (mu_end_idx data) (mc_update_index m)
                 else validate_continuous_depth ty (mu_start_idx data) (mu_end_idx data) (mu_prev_end_idx data) (mc_update_index m));
            m1 = m\<lparr>mc_first_depth_after_snapshot := False\<rparr>
        in if \<not> dv_valid r
           then let m2 = recover_from_gap m1 in m2\<lparr>mc_freed := mc_freed m2 @ [data]\<rparr>
           else deliver (DUpd data) (m1\<lparr>mc_update_index := dv_new_update_index r\<rparr>)
      else deliver (DUpd data) m)"

datatype mc_input = Login | Snapshot "MarketUpdateData option" | Depth "MarketUpdateData option"

definition mc_handle :: "MarketType \<Rightarrow> mc_input \<Rightarrow> MarketConsumer \<Rightarrow> MarketConsumer option" where
  "mc_handle ty i m =
     (if mc_exited m then Some m
      else case i of
             Login \<Rightarrow> Some (handle_login m)
           | Snapshot alloc \<Rightarrow> Some (on_snapshot ty alloc m)
           | Depth alloc \<Rightarrow> map_option (\<lambda>data. handle_subscribe ty data m) alloc)"

fun mc_run :: "MarketType \<Rightarrow> mc_input list \<Rightarrow> MarketConsumer \<Rightarrow> MarketConsumer option" where
  "mc_run ty [] m = Some m"
| "mc_run ty (i # xs) m = (case mc_handle ty i m of None \<Rightarrow> None | Some m' \<Rightarrow> mc_run ty xs m')"

subsection \<open>The FIX consumer\<close>

record FixConsumer =
  fc_state :: StreamState
  fc_update_index :: u64
  fc_generation :: u64
  fc_current_generation :: u64
  fc_delivered :: "MarketUpdateData list"
  fc_resubscriptions :: nat

definition fix_recover_from_gap :: "FixConsumer \<Rightarrow> FixConsumer" where
  "fix_recover_from_gap m = m\<lparr>fc_current_generation := fc_current_generation m + 1, fc_resubscriptions := Suc (fc_resubscriptions m),
     fc_state := kAwaitingSnapshot, fc_update_index := 0\<rparr>"

definition fix_resubscribe :: "FixConsumer \<Rightarrow> FixConsumer" where
  "fix_resubscribe m =
     (let m1 = m\<lparr>fc_current_generation := fc_generation m + 1, fc_generation := fc_generation m + 1\<rparr>
      in m1\<lparr>fc_resubscriptions := Suc (fc_resubscriptions m1), fc_generation := fc_generation m1 + 1, fc_state := kAwaitingSnapshot,
           fc_update_index := 0\<rparr>)"

definition fix_handle_subscribe :: "MarketUpdateData \<Rightarrow> FixConsumer \<Rightarrow> FixConsumer" where
  "fix_handle_subscribe data m =
     (if fc_state m = kAwaitingSnapshot then m
      else if mu_type data = Mdt_kNone
              \<or> mu_type data = Mdt_kMarket \<and> mu_start_idx data \<noteq> fc_update_index m + 1 \<and> fc_update_index m \<noteq> 0
      then fix_resubscribe m
      else m\<lparr>fc_update_index := mu_end_idx data, fc_delivered := fc_delivered m @ [data]\<rparr>)"

subsection \<open>Continuity of what is delivered\<close>

text \<open>
  An update continues a stream that is at \<open>idx\<close> when its range contains \<open>idx\<close>, starts right after it, or (futures) names \<open>idx\<close>
  as the end of its predecessor; at index 0 nothing has been seen yet. \<open>linked\<close> follows a delivery sequence, restarting
  at every snapshot, and returns the index it ends at.
\<close>

definition continues_at :: "MarketType \<Rightarrow> u64 \<Rightarrow> MarketUpdateData \<Rightarrow> bool" where
  "continues_at ty idx d \<longleftrightarrow> idx = 0 \<or> mu_start_idx d \<le> idx \<and> idx \<le> mu_end_idx d \<or> mu_start_idx d = idx + 1
     \<or> ty = kFutures \<and> mu_prev_end_idx d = idx"

fun linked :: "MarketType \<Rightarrow> u64 \<Rightarrow> delivery list \<Rightarrow> u64 option" where
  "linked ty idx [] = Some idx"
| "linked ty idx (DSnap d # ds) = linked ty (mu_end_idx d) ds"
| "linked ty idx (DUpd d # ds) =
     (if mu_type d \<noteq> Mdt_kMarket then linked ty idx ds
      else if continues_at ty idx d then linked ty (mu_end_idx d) ds else None)"

lemma linked_append: "linked ty idx (ds @ es) = (case linked ty idx ds of None \<Rightarrow> None | Some i \<Rightarrow> linked ty i es)"
  by (induction ty idx ds rule: linked.induct) auto

lemma validations_continue:
  "dv_valid (validate_first_depth_after_snapshot ty (mu_start_idx d) (mu_end_idx d) idx) \<Longrightarrow> continues_at ty idx d"
  "dv_valid (validate_continuous_depth ty (mu_start_idx d) (mu_end_idx d) (mu_prev_end_idx d) idx) \<Longrightarrow> continues_at ty idx d"
  "dv_valid (validate_first_depth_after_snapshot ty s e idx) \<Longrightarrow> dv_new_update_index (validate_first_depth_after_snapshot ty s e idx) = e"
  "dv_valid (validate_continuous_depth ty s e p idx) \<Longrightarrow> dv_new_update_index (validate_continuous_depth ty s e p idx) = e"
  by (auto simp: validate_first_depth_after_snapshot_def validate_continuous_depth_def continues_at_def Let_def split: if_splits)

definition stream_ok :: "MarketType \<Rightarrow> MarketConsumer \<Rightarrow> bool" where
  "stream_ok ty m \<longleftrightarrow> linked ty 0 (mc_delivered m) = Some (mc_update_index m)"

lemma stream_ok_snap: "stream_ok ty m \<Longrightarrow> stream_ok ty (deliver (DSnap d) (m\<lparr>mc_state := s, mc_update_index := mu_end_idx d\<rparr>))"
  by (simp add: stream_ok_def deliver_def linked_append)

lemma stream_ok_upd:
  "stream_ok ty m \<Longrightarrow> mu_type d = Mdt_kMarket \<Longrightarrow> continues_at ty (mc_update_index m) d \<Longrightarrow>
     stream_ok ty (deliver (DUpd d) (m\<lparr>mc_update_index := mu_end_idx d\<rparr>))"
  by (simp add: stream_ok_def deliver_def linked_append)

lemma replay_ok:
  assumes "stream_ok ty m" "list_all (\<lambda>d. mu_type d = Mdt_kMarket) bs" "replay ty f bs m = (m', ok)"
  shows "stream_ok ty m' \<and> mc_state m' = mc_state m \<and> mc_exited m' = mc_exited m \<and> mc_retry_count m' = mc_retry_count m \<and> (bs = [] \<longrightarrow> ok)"
  using assms
proof (induction ty f bs m rule: replay.induct)
  case (2 ty f b bs m)
  let ?r = "if f then validate_first_depth_after_snapshot ty (mu_start_idx b) (mu_end_idx b) (mc_update_index m)
               else validate_continuous_depth ty (mu_start_idx b) (mu_end_idx b) (mu_prev_end_idx b) (mc_update_index m)"
  show ?case
  proof (cases "dv_valid ?r")
    case False
    then show ?thesis using 2 by (auto simp: Let_def)
  next
    case True
    then have c: "continues_at ty (mc_update_index m) b" "dv_new_update_index ?r = mu_end_idx b" using validations_continue by (auto split: if_splits)
    let ?m = "deliver (DUpd b) (m\<lparr>mc_update_index := mu_end_idx b\<rparr>)"
    have "stream_ok ty ?m" using 2(2,3) c by (intro stream_ok_upd) simp_all
    moreover have "replay ty False bs ?m = (m', ok)" using 2(4) True c(2) by (simp add: Let_def)
    ultimately show ?thesis using "2.IH" [OF refl] True c(2) 2(3) by (simp add: deliver_def)
  qed
qed simp

text \<open>The invariant of the consumer.\<close>

definition mc_inv :: "MarketType \<Rightarrow> MarketConsumer \<Rightarrow> bool" where
  "mc_inv ty m \<longleftrightarrow> stream_ok ty m \<and> length (mc_buffered_events m) \<le> kMaxBufferedEvents
     \<and> (mc_state m \<noteq> kBuffering \<longrightarrow> mc_buffered_events m = []) \<and> list_all (\<lambda>d. mu_type d = Mdt_kMarket) (mc_buffered_events m)
     \<and> (\<not> mc_exited m \<longrightarrow> mc_retry_count m < kMaxRetries)"

lemma bump_retry_inv:
  assumes "stream_ok ty m" "length (mc_buffered_events m) \<le> kMaxBufferedEvents" "list_all (\<lambda>d. mu_type d = Mdt_kMarket) (mc_buffered_events m)"
    and "again = request_snapshot \<and> (mc_state m \<noteq> kBuffering \<longrightarrow> mc_buffered_events m = []) \<or> again = recover_from_gap \<and> mc_buffered_events m = []"
  shows "mc_inv ty (bump_retry again m)"
  using assms by (auto simp: bump_retry_def mc_inv_def stream_ok_def request_snapshot_def recover_from_gap_def Let_def)

lemma apply_snapshot_inv:
  assumes "stream_ok ty m" "list_all (\<lambda>d. mu_type d = Mdt_kMarket) (mc_buffered_events m)"
  shows "mc_inv ty (apply_snapshot ty d m)"
proof -
  let ?m = "deliver (DSnap d) (m\<lparr>mc_state := kApplyingSnapshot, mc_update_index := mu_end_idx d\<rparr>)"
  obtain m2 ok where r: "replay ty True (mc_buffered_events ?m) ?m = (m2, ok)" by fastforce
  have b: "list_all (\<lambda>d. mu_type d = Mdt_kMarket) (mc_buffered_events ?m)" using assms(2) by (simp add: deliver_def)
  note ro = replay_ok [OF stream_ok_snap [OF assms(1)] b r]
  show ?thesis
  proof (cases ok)
    case True
    then show ?thesis using r ro by (simp add: apply_snapshot_def Let_def mc_inv_def stream_ok_def kMaxRetries_def)
  next
    case False
    then show ?thesis using r ro by (auto simp: apply_snapshot_def Let_def stream_ok_def intro!: bump_retry_inv)
  qed
qed

lemma erase_lower_kept: "erase_lower i bs = (freed, kept) \<Longrightarrow> bs = freed @ kept"
  by (induction bs arbitrary: freed) (auto split: if_splits prod.splits)

lemma on_snapshot_inv:
  assumes "mc_inv ty m"
  shows "mc_inv ty (on_snapshot ty alloc m)"
proof (cases alloc)
  case None
  have "mc_inv ty (bump_retry request_snapshot
      (m\<lparr>mc_freed := mc_freed m @ mc_buffered_events m, mc_buffered_events := [], mc_first_buffered_update_id := 0\<rparr>))"
    by (rule bump_retry_inv) (use assms in \<open>simp_all add: mc_inv_def stream_ok_def\<close>)
  then show ?thesis using None by (simp add: on_snapshot_def)
next
  case (Some d)
  have m: "stream_ok ty m" "list_all (\<lambda>d. mu_type d = Mdt_kMarket) (mc_buffered_events m)" using assms by (simp_all add: mc_inv_def)
  have "mc_inv ty (bump_retry request_snapshot m)" by (rule bump_retry_inv) (use assms in \<open>auto simp: mc_inv_def\<close>)
  moreover have "mc_inv ty (apply_snapshot ty d m)" using m by (rule apply_snapshot_inv)
  moreover have "mc_inv ty (apply_snapshot ty d (erase_buffer_lower_than_snapshot (mu_end_idx d) (m\<lparr>mc_retry_count := 0\<rparr>)))"
  proof (rule apply_snapshot_inv)
    obtain freed kept where e: "erase_lower (mu_end_idx d) (mc_buffered_events m) = (freed, kept)" by fastforce
    show "stream_ok ty (erase_buffer_lower_than_snapshot (mu_end_idx d) (m\<lparr>mc_retry_count := 0\<rparr>))"
      using m(1) e by (simp add: erase_buffer_lower_than_snapshot_def stream_ok_def)
    show "list_all (\<lambda>d. mu_type d = Mdt_kMarket) (mc_buffered_events (erase_buffer_lower_than_snapshot (mu_end_idx d) (m\<lparr>mc_retry_count := 0\<rparr>)))"
      using m(2) e erase_lower_kept [OF e] by (simp add: erase_buffer_lower_than_snapshot_def)
  qed
  ultimately show ?thesis using Some by (simp add: on_snapshot_def)
qed

lemma buffer_event_inv:
  assumes "mc_inv ty m" "mc_state m = kBuffering" "mu_type d = Mdt_kMarket"
  shows "mc_inv ty (buffer_event d m)"
  using assms by (auto simp: buffer_event_def mc_inv_def stream_ok_def Let_def kMaxBufferedEvents_def split: list.splits)

lemma handle_subscribe_inv:
  assumes "mc_inv ty m"
  shows "mc_inv ty (handle_subscribe ty d m)"
proof (cases "mc_state m = kBuffering")
  case True
  then show ?thesis using assms buffer_event_inv [OF assms True] by (simp add: handle_subscribe_def) (simp add: mc_inv_def stream_ok_def)
next
  case False
  then have i: "stream_ok ty m" "mc_buffered_events m = []" "\<not> mc_exited m \<longrightarrow> mc_retry_count m < kMaxRetries" using assms by (simp_all add: mc_inv_def)
  let ?r = "if mc_first_depth_after_snapshot m then validate_first_depth_after_snapshot ty (mu_start_idx d) (mu_end_idx d) (mc_update_index m)
       else validate_continuous_depth ty (mu_start_idx d) (mu_end_idx d) (mu_prev_end_idx d) (mc_update_index m)"
  consider "mu_type d \<noteq> Mdt_kMarket" | "mu_type d = Mdt_kMarket" "\<not> dv_valid ?r" | "mu_type d = Mdt_kMarket" "dv_valid ?r" by blast
  then show ?thesis
  proof cases
    case 1
    then show ?thesis using i False by (simp add: handle_subscribe_def mc_inv_def stream_ok_def deliver_def linked_append)
  next
    case 2
    then show ?thesis using i False
      by (simp add: handle_subscribe_def mc_inv_def stream_ok_def recover_from_gap_def request_snapshot_def Let_def)
  next
    case 3
    then have c: "continues_at ty (mc_update_index m) d" "dv_new_update_index ?r = mu_end_idx d" using validations_continue by (auto split: if_splits)
    have "stream_ok ty (deliver (DUpd d) (m\<lparr>mc_first_depth_after_snapshot := False, mc_update_index := mu_end_idx d\<rparr>))"
      using stream_ok_upd [OF _ 3(1), of ty "m\<lparr>mc_first_depth_after_snapshot := False\<rparr>"] i(1) c(1) by (simp add: stream_ok_def)
    then show ?thesis using i(2,3) False 3 c(2) by (simp add: handle_subscribe_def mc_inv_def Let_def deliver_def)
  qed
qed

lemma mc_handle_inv: "mc_inv ty m \<Longrightarrow> mc_handle ty i m = Some m' \<Longrightarrow> mc_inv ty m'"
proof (cases i)
  case Login
  then show "mc_inv ty m \<Longrightarrow> mc_handle ty i m = Some m' \<Longrightarrow> mc_inv ty m'"
    by (auto simp: mc_handle_def handle_login_def request_snapshot_def mc_inv_def stream_ok_def split: if_splits)
qed (auto simp: mc_handle_def on_snapshot_inv handle_subscribe_inv split: if_splits)

lemma mc_run_inv: "mc_inv ty m \<Longrightarrow> mc_run ty xs m = Some m' \<Longrightarrow> mc_inv ty m'"
  by (induction xs arbitrary: m) (auto dest: mc_handle_inv split: option.splits)

lemma mc_new_inv: "mc_inv ty MarketConsumer_new"
  by (simp add: mc_inv_def MarketConsumer_new_def stream_ok_def kMaxRetries_def)


definition demo_update :: "u64 \<Rightarrow> u64 \<Rightarrow> u64 \<Rightarrow> MarketUpdateData" where
  "demo_update s e p = \<lparr>mu_start_idx = s, mu_end_idx = e, mu_prev_end_idx = p, mu_type = Mdt_kMarket, mu_data = []\<rparr>"


subsection \<open>Recovery\<close>

lemma apply_snapshot_retry:
  assumes "stream_ok ty m" "list_all (\<lambda>d. mu_type d = Mdt_kMarket) (mc_buffered_events m)" "\<not> mc_exited m"
    and "mc_retry_count m = 0 \<or> mc_buffered_events m = []"
  shows "\<not> mc_exited (apply_snapshot ty d m) \<and> mc_retry_count (apply_snapshot ty d m) \<le> 1"
proof -
  let ?m = "deliver (DSnap d) (m\<lparr>mc_state := kApplyingSnapshot, mc_update_index := mu_end_idx d\<rparr>)"
  obtain m2 ok where r: "replay ty True (mc_buffered_events ?m) ?m = (m2, ok)" by fastforce
  have b: "list_all (\<lambda>d. mu_type d = Mdt_kMarket) (mc_buffered_events ?m)" using assms(2) by (simp add: deliver_def)
  note ro = replay_ok [OF stream_ok_snap [OF assms(1)] b r]
  show ?thesis
    using r ro assms(3,4) by (cases ok) (auto simp: apply_snapshot_def Let_def bump_retry_def kMaxRetries_def recover_from_gap_def request_snapshot_def deliver_def)
qed

text \<open>
  Three recovery paths that do not do what they are for. The retry limit of the gap branch of \<open>on_snapshot\<close> can never be
  reached: the counter is reset before the replay, so a snapshot that is not too old never ends the process, however
  often the replay fails. And after a replay the first live update is again held to the rule for the first update
  after a snapshot: a futures update that names the last update as its predecessor is treated as a gap when its range
  starts more than one after it, and the consumer goes back to buffering and drops it. And a snapshot that
  is too old is neither delivered nor given back to the pool it was allocated from.
\<close>

lemma recovery_shortcomings:
  assumes "mc_run ty inputs MarketConsumer_new = Some m" "\<not> mc_exited m"
  shows "(mu_end_idx d \<ge> mc_first_buffered_update_id m \<longrightarrow> \<not> mc_exited (on_snapshot ty (Some d) m) \<and> mc_retry_count (on_snapshot ty (Some d) m) \<le> 1)
     \<and> (mc_state m = kRunning \<and> mc_first_depth_after_snapshot m \<and> mu_type u = Mdt_kMarket \<and> mu_prev_end_idx u = mc_update_index m
          \<and> mu_start_idx u > mc_update_index m \<and> mu_start_idx u \<noteq> mc_update_index m + 1
        \<longrightarrow> mc_state (handle_subscribe kFutures u m) = kBuffering \<and> mc_delivered (handle_subscribe kFutures u m) = mc_delivered m)
     \<and> (mc_state m = kBuffering \<and> mu_end_idx d < mc_first_buffered_update_id m
        \<longrightarrow> mc_delivered (on_snapshot ty (Some d) m) = mc_delivered m \<and> mc_freed (on_snapshot ty (Some d) m) = mc_freed m
          \<and> mc_buffered_events (on_snapshot ty (Some d) m) = mc_buffered_events m)"
proof -
  have inv: "mc_inv ty m" by (rule mc_run_inv [OF mc_new_inv assms(1)])
  then have m: "stream_ok ty m" "list_all (\<lambda>d. mu_type d = Mdt_kMarket) (mc_buffered_events m)" by (simp_all add: mc_inv_def)
  obtain freed kept where e: "erase_lower (mu_end_idx d) (mc_buffered_events m) = (freed, kept)" by fastforce
  let ?e = "erase_buffer_lower_than_snapshot (mu_end_idx d) (m\<lparr>mc_retry_count := 0\<rparr>)"
  have "\<not> mc_exited (apply_snapshot ty d ?e) \<and> mc_retry_count (apply_snapshot ty d ?e) \<le> 1"
    using m assms(2) e erase_lower_kept [OF e]
    by (intro apply_snapshot_retry) (simp_all add: erase_buffer_lower_than_snapshot_def stream_ok_def)
  moreover have "\<not> mc_exited (apply_snapshot ty d m) \<and> mc_retry_count (apply_snapshot ty d m) \<le> 1" if "mc_state m \<noteq> kBuffering"
    using m assms(2) inv that by (intro apply_snapshot_retry) (simp_all add: mc_inv_def)
  ultimately show ?thesis
    by (auto simp: on_snapshot_def handle_subscribe_def validate_first_depth_after_snapshot_def recover_from_gap_def request_snapshot_def
        bump_retry_def Let_def)
qed

end
