(* ===== verification/Fixed_Point.thy ===== *)
theory Fixed_Point
  imports HFT_Prelude
begin

text \<open>
  Fixed-point numbers (\<^verbatim>\<open>hft/common/fixed_point.hpp\<close>): a raw \<^verbatim>\<open>int64_t\<close> with a compile-time decimal scale, the argument
  \<open>scale\<close>. Parsing, the two printers, multiplication and division are modelled; the conversions from and to \<^verbatim>\<open>double\<close>
  are not. The printers fill a temporary buffer from its end and copy it backwards; the buffer is the list of the
  characters written so far, in the order they are written. 128-bit intermediate products are narrowed with \<open>i128\<close>.
\<close>

definition kDecimalBase :: int where
  "kDecimalBase = 10"

definition kScale8Decimal :: int64 where
  "kScale8Decimal = 100000000"

definition i128 :: "int \<Rightarrow> int" where
  "i128 x = signed_take_bit 127 x"

definition kInverseScale8 :: int where
  "kInverseScale8 = 2 ^ 64 div kScale8Decimal + 1"

subsection \<open>Parsing\<close>

record parse_state =
  ps_integer_part :: int64
  ps_frac_part :: int64
  ps_frac_digits :: nat
  ps_in_frac :: bool
  ps_negative :: bool

definition char_digit :: "char \<Rightarrow> int" where
  "char_digit c = int (of_char c) - 48"

definition is_digit :: "char \<Rightarrow> bool" where
  "is_digit c \<longleftrightarrow> 0 \<le> char_digit c \<and> char_digit c \<le> 9"

definition parse_char :: "char \<Rightarrow> parse_state \<Rightarrow> parse_state" where
  "parse_char chr s =
     (if chr = CHR ''-'' then s\<lparr>ps_negative := True\<rparr>
      else if chr = CHR ''.'' then s\<lparr>ps_in_frac := True\<rparr>
      else if is_digit chr
      then if ps_in_frac s
           then s\<lparr>ps_frac_part := i64 (ps_frac_part s * kDecimalBase + char_digit chr), ps_frac_digits := Suc (ps_frac_digits s)\<rparr>
           else s\<lparr>ps_integer_part := i64 (ps_integer_part s * kDecimalBase + char_digit chr)\<rparr>
      else s)"

fun frac_scale :: "nat \<Rightarrow> int64" where
  "frac_scale 0 = 1"
| "frac_scale (Suc n) = i64 (frac_scale n * kDecimalBase)"

text \<open>\<^verbatim>\<open>frac_scale\<close> is 0 after 64 digits, and the division by it traps: \<^term>\<open>None\<close>.\<close>

definition string_to_fixed :: "int64 \<Rightarrow> string \<Rightarrow> int64 option" where
  "string_to_fixed scale str =
     (let s = fold parse_char str \<lparr>ps_integer_part = 0, ps_frac_part = 0, ps_frac_digits = 0, ps_in_frac = False, ps_negative = False\<rparr>
      in case cdiv (i64 (ps_frac_part s * scale)) (frac_scale (ps_frac_digits s)) of
           None \<Rightarrow> None
         | Some f \<Rightarrow> let result = i64 (ps_integer_part s * scale + f) in Some (if ps_negative s then i64 (- result) else result))"

subsection \<open>Arithmetic\<close>

definition fp_from_int64 :: "int64 \<Rightarrow> int64 \<Rightarrow> int64" where
  "fp_from_int64 scale val = i64 (val * scale)"

definition fp_is_valid :: "int64 \<Rightarrow> bool" where
  "fp_is_valid value \<longleftrightarrow> value \<noteq> 2 ^ 63 - 1"

definition fp_add :: "int64 \<Rightarrow> int64 \<Rightarrow> int64" where
  "fp_add a b = i64 (a + b)"

definition fp_sub :: "int64 \<Rightarrow> int64 \<Rightarrow> int64" where
  "fp_sub a b = i64 (a - b)"

definition fp_mul :: "int64 \<Rightarrow> int64 \<Rightarrow> int64 \<Rightarrow> int64" where
  "fp_mul scale value other =
     (let temp = i128 (value * other)
      in if scale = kScale8Decimal then i64 (drop_bit 64 (i128 (temp * kInverseScale8))) else i64 (temp sdiv scale))"

definition fp_div :: "int64 \<Rightarrow> int64 \<Rightarrow> int64 \<Rightarrow> int64 option" where
  "fp_div scale value other = (let temp = i128 (value * scale) in cdiv temp other)"

subsection \<open>Printing\<close>

definition digit_char :: "int \<Rightarrow> char" where
  "digit_char d = char_of (nat (48 + d))"

function scale_digits :: "int \<Rightarrow> nat" where
  "scale_digits temp_scale = (if temp_scale > 1 then Suc (scale_digits (temp_scale sdiv kDecimalBase)) else 0)"
  by pat_completeness auto
termination by (relation "measure nat") (auto simp: kDecimalBase_def sdiv_nonneg)

fun trim_zeros :: "nat \<Rightarrow> int64 \<Rightarrow> nat \<times> int64" where
  "trim_zeros 0 frac_part = (0, frac_part)"
| "trim_zeros (Suc d) frac_part =
     (if frac_part smod kDecimalBase = 0 then trim_zeros d (frac_part sdiv kDecimalBase) else (Suc d, frac_part))"

fun frac_chars :: "nat \<Rightarrow> int64 \<Rightarrow> string" where
  "frac_chars 0 frac_part = []"
| "frac_chars (Suc d) frac_part = digit_char (frac_part smod kDecimalBase) # frac_chars d (frac_part sdiv kDecimalBase)"

function int_chars :: "int64 \<Rightarrow> string" where
  "int_chars integer_part =
     (if integer_part > 0 then digit_char (integer_part smod kDecimalBase) # int_chars (integer_part sdiv kDecimalBase) else [])"
  by pat_completeness auto
termination by (relation "measure nat") (auto simp: kDecimalBase_def sdiv_nonneg)

definition copy_out :: "nat \<Rightarrow> string \<Rightarrow> string" where
  "copy_out buf_size temp = take (if length temp \<ge> buf_size then buf_size - 1 else length temp) (rev temp)"

definition fp_chars :: "int64 \<Rightarrow> int64 \<Rightarrow> string" where
  "fp_chars scale value =
     (let negative = (value < 0);
          val = (if negative then i64 (- value) else value);
          integer_part = i64 (val sdiv scale);
          (frac_digits, frac_part) = trim_zeros (scale_digits scale) (val smod scale)
      in (if frac_digits > 0 then frac_chars frac_digits frac_part @ ''.'' else [])
         @ (if integer_part = 0 then ''0'' else int_chars integer_part)
         @ (if negative then ''-'' else []))"

text \<open>The result is the text before the terminating NUL; its length is the returned size.\<close>

definition to_string :: "int64 \<Rightarrow> int64 \<Rightarrow> nat \<Rightarrow> string" where
  "to_string scale value buf_size = (if buf_size = 0 then [] else copy_out buf_size (fp_chars scale value))"

definition kDigitsLut :: string where
  "kDigitsLut = ''00010203040506070809101112131415161718192021222324252627282930313233343536373839404142434445464748495051525354555657585960616263646566676869707172737475767778798081828384858687888990919293949596979899''"

definition kLutBase :: int where
  "kLutBase = 100"

definition lut_pair :: "int \<Rightarrow> string" where
  "lut_pair two_digits = (let idx = nat (two_digits * 2) in [kDigitsLut ! (idx + 1), kDigitsLut ! idx])"

fun frac_chars2 :: "nat \<Rightarrow> int64 \<Rightarrow> string" where
  "frac_chars2 (Suc (Suc d)) frac_part = lut_pair (frac_part smod kLutBase) @ frac_chars2 d (frac_part sdiv kLutBase)"
| "frac_chars2 (Suc 0) frac_part = [digit_char (frac_part smod kDecimalBase)]"
| "frac_chars2 0 frac_part = []"

function int_chars2 :: "int64 \<Rightarrow> string" where
  "int_chars2 integer_part =
     (if integer_part \<ge> kLutBase then lut_pair (integer_part smod kLutBase) @ int_chars2 (integer_part sdiv kLutBase)
      else if integer_part < kDecimalBase then [digit_char integer_part]
      else lut_pair integer_part)"
  by pat_completeness auto
termination by (relation "measure nat") (auto simp: kLutBase_def sdiv_nonneg)

definition fp_chars2 :: "int64 \<Rightarrow> int64 \<Rightarrow> string" where
  "fp_chars2 scale value =
     (let negative = (value < 0);
          val = (if negative then i64 (- value) else value);
          integer_part = i64 (val sdiv scale);
          (frac_digits, frac_part) = trim_zeros (scale_digits scale) (val smod scale)
      in (if frac_digits > 0 then frac_chars2 frac_digits frac_part @ ''.'' else [])
         @ (if integer_part = 0 then ''0'' else int_chars2 integer_part)
         @ (if negative then ''-'' else []))"

definition to_string2 :: "int64 \<Rightarrow> int64 \<Rightarrow> nat \<Rightarrow> string" where
  "to_string2 scale value buf_size = (if buf_size = 0 then [] else copy_out buf_size (fp_chars2 scale value))"

text \<open>The integer parts of \<^verbatim>\<open>qty_to_actual_double\<close>, \<^verbatim>\<open>price_to_actual_double\<close> and \<^verbatim>\<open>to_double_truncated_fast\<close>.\<close>

definition truncate_raw :: "int64 \<Rightarrow> int64 \<Rightarrow> int64 option" where
  "truncate_raw ratio value = map_option (\<lambda>q. i64 (q * ratio)) (cdiv value ratio)"

declare kDecimalBase_def [simp] kLutBase_def [simp]
declare scale_digits.simps [simp del] int_chars.simps [simp del] int_chars2.simps [simp del]

subsection \<open>The two printers agree\<close>

lemma lut_pair_digits:
  assumes "0 \<le> n" "n < 100"
  shows "lut_pair n = [digit_char (n mod 10), digit_char (n div 10)]"
proof -
  have t: "list_all (\<lambda>k. kDigitsLut ! (2 * k) = digit_char (int (k div 10)) \<and> kDigitsLut ! (2 * k + 1) = digit_char (int (k mod 10))) [0..<100]"
    by code_simp
  have "nat n < 100" using assms by simp
  then have "kDigitsLut ! (2 * nat n) = digit_char (int (nat n div 10))" "kDigitsLut ! (2 * nat n + 1) = digit_char (int (nat n mod 10))"
    using t by (simp_all add: list_all_iff)
  then show ?thesis using assms by (simp add: lut_pair_def Let_def nat_mult_distrib mult.commute zdiv_int zmod_int)
qed

lemma div_100: "(x::int) div 100 = x div 10 div 10" "(x mod 100) mod 10 = x mod 10" "(x mod 100) div 10 = x div 10 mod 10"
proof -
  show d: "x div 100 = x div 10 div 10" by (simp add: zdiv_zmult2_eq [of 10 x 10, simplified])
  show "(x mod 100) mod 10 = x mod 10" by (simp add: mod_mod_cancel)
  have "x mod 100 = 10 * (x div 10 mod 10) + x mod 10" by (simp add: zmod_zmult2_eq [of 10 x 10, simplified])
  then show "(x mod 100) div 10 = x div 10 mod 10" by simp
qed

lemma base_ops:
  fixes f :: int
  assumes "0 \<le> f"
  shows "f sdiv 10 = f div 10" "f smod 10 = f mod 10" "f sdiv 100 = f div 100" "f smod 100 = f mod 100"
  using assms by (simp_all add: sdiv_nonneg signed_modulo_int_def sgn_if)

lemma frac_chars2_eq: "0 \<le> f \<Longrightarrow> frac_chars2 d f = frac_chars d f"
  by (induction d f rule: frac_chars2.induct) (simp_all add: base_ops lut_pair_digits div_100 pos_imp_zdiv_nonneg_iff)

lemma int_chars_unfold: "0 < n \<Longrightarrow> int_chars n = digit_char (n mod 10) # int_chars (n div 10)" "int_chars 0 = []"
  by (simp_all add: int_chars.simps [of n] int_chars.simps [of 0] base_ops)

lemma int_chars2_eq: "0 < n \<Longrightarrow> int_chars2 n = int_chars n"
proof (induction n rule: int_chars2.induct)
  case (1 n)
  consider "100 \<le> n" | "n < 10" | "10 \<le> n" "n < 100" by linarith
  then show ?case
  proof cases
    case 1
    then have "0 < n div 100" "0 < n div 10" by (simp_all add: pos_imp_zdiv_pos_iff)
    have "int_chars2 n = lut_pair (n mod 100) @ int_chars (n div 100)"
      using 1 \<open>0 < n div 100\<close> "1.IH" by (simp add: int_chars2.simps [of n] base_ops)
    also have "\<dots> = digit_char (n mod 10) # digit_char (n div 10 mod 10) # int_chars (n div 10 div 10)"
      by (simp add: lut_pair_digits div_100)
    also have "\<dots> = int_chars n" using \<open>0 < n div 10\<close> 1 by (simp add: int_chars_unfold(1) [of n] int_chars_unfold(1) [of "n div 10"])
    finally show ?thesis .
  next
    case 2
    then show ?thesis using "1.prems" by (simp add: int_chars2.simps [of n] int_chars_unfold)
  next
    case 3
    then have "0 < n div 10" "n div 10 < 10" by (simp_all add: pos_imp_zdiv_pos_iff)
    then show ?thesis using 3 by (simp add: int_chars2.simps [of n] int_chars_unfold lut_pair_digits)
  qed
qed

lemma trim_zeros_props:
  assumes "trim_zeros d f = (d', f')" "0 \<le> f" "f < 10 ^ d"
  shows "d' \<le> d" "0 \<le> f'" "f' < 10 ^ d'" "f = f' * 10 ^ (d - d')"
proof -
  have "d' \<le> d \<and> 0 \<le> f' \<and> f' < 10 ^ d' \<and> f = f' * 10 ^ (d - d')"
    using assms
  proof (induction d f rule: trim_zeros.induct)
    case (2 d f)
    show ?case
    proof (cases "f mod 10 = 0")
      case True
      then have "f = 10 * (f div 10)" by (metis add.right_neutral mult_div_mod_eq)
      moreover have "d' \<le> d \<and> 0 \<le> f' \<and> f' < 10 ^ d' \<and> f div 10 = f' * 10 ^ (d - d')"
        using 2 True by (auto simp: base_ops pos_imp_zdiv_nonneg_iff)
      ultimately show ?thesis by (simp add: Suc_diff_le)
    next
      case False
      then show ?thesis using 2 by (simp add: base_ops split: if_splits)
    qed
  qed simp
  then show "d' \<le> d" "0 \<le> f'" "f' < 10 ^ d'" "f = f' * 10 ^ (d - d')" by simp_all
qed

text \<open>The magnitude and its two parts, for every value but the most negative one.\<close>

lemma magnitude:
  assumes "- (2 ^ 63) < value" "value < 2 ^ 63" "0 < (scale::int)"
  defines "val \<equiv> if value < 0 then i64 (- value) else value"
  shows "val = \<bar>value\<bar>" "val sdiv scale = \<bar>value\<bar> div scale" "val smod scale = \<bar>value\<bar> mod scale"
    "0 \<le> \<bar>value\<bar> div scale" "in_i64 (\<bar>value\<bar> div scale)"
proof -
  have "in_i64 (- value)" using assms(1,2) by (auto simp: in_i64_def)
  then show v: "val = \<bar>value\<bar>" by (simp add: val_def)
  show "val sdiv scale = \<bar>value\<bar> div scale" "val smod scale = \<bar>value\<bar> mod scale" "0 \<le> \<bar>value\<bar> div scale"
    using assms(3) unfolding v by (simp_all add: sdiv_nonneg signed_modulo_int_def sgn_if pos_imp_zdiv_nonneg_iff)
  moreover have "\<bar>value\<bar> div scale \<le> \<bar>value\<bar>" using assms(3) zdiv_mono2 [of "\<bar>value\<bar>" 1 scale] by simp
  ultimately show "in_i64 (\<bar>value\<bar> div scale)" using assms(1,2) by (auto simp: in_i64_def)
qed

text \<open>
  C34. The table-driven printer \<open>to_string2\<close> writes the same text as the plain \<open>to_string\<close> for every value but the most
  negative \<open>int64_t\<close>, every positive scale and every buffer size, truncated output included.
\<close>

theorem printers_agree:
  assumes "- (2 ^ 63) < value" "value < 2 ^ 63" "0 < scale"
  shows "to_string2 scale value buf_size = to_string scale value buf_size"
proof -
  note m = magnitude [OF assms]
  obtain d f where t: "trim_zeros (scale_digits scale) (\<bar>value\<bar> mod scale) = (d, f)" by fastforce
  have nn: "0 \<le> f'" if "trim_zeros k g = (d', f')" "0 \<le> g" for k g d' f'
    using that by (induction k g rule: trim_zeros.induct) (auto simp: base_ops pos_imp_zdiv_nonneg_iff split: if_splits)
  have f: "0 \<le> f" using nn [OF t] assms(3) by simp
  have "int_chars2 (\<bar>value\<bar> div scale) = int_chars (\<bar>value\<bar> div scale)" if "\<bar>value\<bar> div scale \<noteq> 0" using m(4) that by (intro int_chars2_eq) linarith
  then have "fp_chars2 scale value = fp_chars scale value"
    unfolding fp_chars2_def fp_chars_def Let_def m(2,3) i64_id [OF m(5)] t by (simp add: frac_chars2_eq [OF f])
  then show ?thesis by (simp add: to_string2_def to_string_def)
qed

theorem printers_agree_witness:
  "to_string2 1000 (- 1234567) 64 = to_string 1000 (- 1234567) 64"
  by (rule printers_agree) simp_all

subsection \<open>Parsing what was printed\<close>

lemma digit_char_parse:
  assumes "0 \<le> d" "d < 10"
  shows "char_digit (digit_char d) = d" "is_digit (digit_char d)" "digit_char d \<noteq> CHR ''-''" "digit_char d \<noteq> CHR ''.''"
proof -
  show c: "char_digit (digit_char d) = d" using assms by (simp add: char_digit_def digit_char_def)
  show "is_digit (digit_char d)" using assms by (simp add: is_digit_def c)
  show "digit_char d \<noteq> CHR ''-''" "digit_char d \<noteq> CHR ''.''" using c assms by (auto simp: char_digit_def)
qed

lemma parse_digit:
  assumes "0 \<le> d" "d < 10"
  shows "parse_char (digit_char d) s =
    (if ps_in_frac s then s\<lparr>ps_frac_part := i64 (ps_frac_part s * 10 + d), ps_frac_digits := Suc (ps_frac_digits s)\<rparr>
     else s\<lparr>ps_integer_part := i64 (ps_integer_part s * 10 + d)\<rparr>)"
  using digit_char_parse [OF assms] by (simp add: parse_char_def)

lemma parse_int:
  assumes "\<not> ps_in_frac s" "ps_integer_part s = 0" "0 \<le> n" "n < 2 ^ 63"
  shows "fold parse_char (rev (int_chars n)) s = s\<lparr>ps_integer_part := n\<rparr>"
  using assms(3,4)
proof (induction n rule: int_chars.induct)
  case (1 n)
  show ?case
  proof (cases "n = 0")
    case True
    then show ?thesis using assms(2) by (simp add: int_chars_unfold)
  next
    case False
    then have n: "0 < n" using "1.prems" by simp
    have "0 \<le> n div 10" "n div 10 < 2 ^ 63" using "1.prems" by (auto simp: pos_imp_zdiv_nonneg_iff)
    then have ih: "fold parse_char (rev (int_chars (n div 10))) s = s\<lparr>ps_integer_part := n div 10\<rparr>"
      using "1.IH" n by (simp add: base_ops)
    have "i64 (n div 10 * 10 + n mod 10) = n" using "1.prems" by (simp add: in_i64_def)
    then show ?thesis using n ih assms(1) by (simp add: int_chars_unfold parse_digit)
  qed
qed

lemma parse_frac:
  assumes "ps_in_frac s" "ps_frac_part s = 0" "d \<le> 18" "0 \<le> f" "f < 10 ^ d"
  shows "fold parse_char (rev (frac_chars d f)) s = s\<lparr>ps_frac_part := f, ps_frac_digits := ps_frac_digits s + d\<rparr>"
  using assms(3-5)
proof (induction d f rule: frac_chars.induct)
  case (1 f)
  then show ?case using assms(2) by simp
next
  case (2 d f)
  have "0 \<le> f div 10" "f div 10 < 10 ^ d" using "2.prems" by (auto simp: pos_imp_zdiv_nonneg_iff)
  then have ih: "fold parse_char (rev (frac_chars d (f div 10))) s = s\<lparr>ps_frac_part := f div 10, ps_frac_digits := ps_frac_digits s + d\<rparr>"
    using "2.IH" "2.prems" by (simp add: base_ops)
  have "(10::int) ^ Suc d \<le> 10 ^ 18" using "2.prems"(1) by (intro power_increasing) auto
  then have "f < 2 ^ 63" using "2.prems"(3) by simp
  then have "i64 (f div 10 * 10 + f mod 10) = f" using "2.prems"(2) by (simp add: in_i64_def)
  then show ?case using "2.prems"(2) ih assms(1) by (simp add: base_ops parse_digit)
qed

lemma scale_digits_pow: "scale_digits (10 ^ k) = k"
proof (induction k)
  case (Suc k)
  have "(1::int) < 10 * 10 ^ k" using one_le_power [of "10::int" k] by linarith
  then show ?case using Suc by (simp add: scale_digits.simps [of "10 * 10 ^ k"] base_ops)
qed (simp add: scale_digits.simps [of 1])

lemma frac_scale_pow: "d \<le> 18 \<Longrightarrow> frac_scale d = 10 ^ d"
proof (induction d)
  case (Suc d)
  have "(10::int) ^ Suc d \<le> 10 ^ 18" using Suc.prems by (intro power_increasing) auto
  moreover have "(0::int) \<le> 10 ^ d" by simp
  moreover have "0 \<le> x \<Longrightarrow> x \<le> 10 ^ 18 \<Longrightarrow> in_i64 x" for x :: int by (simp add: in_i64_def)
  ultimately have "in_i64 (10 * 10 ^ d)" by simp
  then show ?case using Suc by (simp add: mult.commute)
qed simp

lemma parse_sign [simp]: "parse_char (CHR ''-'') s = s\<lparr>ps_negative := True\<rparr>" "parse_char (CHR ''.'') s = s\<lparr>ps_in_frac := True\<rparr>"
  by (simp_all add: parse_char_def)

definition parse_init :: parse_state where
  "parse_init = \<lparr>ps_integer_part = 0, ps_frac_part = 0, ps_frac_digits = 0, ps_in_frac = False, ps_negative = False\<rparr>"

lemma parse_printed:
  assumes "0 \<le> n" "n < 2 ^ 63" "0 \<le> f" "f < 10 ^ d" "d \<le> 18"
  shows "fold parse_char (rev ((if d > 0 then frac_chars d f @ ''.'' else []) @ (if n = 0 then ''0'' else int_chars n) @ (if neg then ''-'' else []))) parse_init
    = parse_init\<lparr>ps_integer_part := n, ps_frac_part := f, ps_frac_digits := d, ps_in_frac := (0 < d), ps_negative := neg\<rparr>"
proof -
  let ?s = "parse_init\<lparr>ps_negative := neg\<rparr>"
  have s: "fold parse_char (rev (if neg then ''-'' else [])) parse_init = ?s" by (simp add: parse_init_def)
  have "CHR ''0'' = digit_char 0" by code_simp
  then have n: "fold parse_char (rev (if n = 0 then ''0'' else int_chars n)) ?s = ?s\<lparr>ps_integer_part := n\<rparr>"
    using parse_int [of ?s n] assms(1,2) by (auto simp: parse_digit parse_init_def)
  have "fold parse_char (rev (if d > 0 then frac_chars d f @ ''.'' else [])) (?s\<lparr>ps_integer_part := n\<rparr>)
      = ?s\<lparr>ps_integer_part := n, ps_frac_part := f, ps_frac_digits := d, ps_in_frac := (0 < d)\<rparr>"
    using parse_frac [of "?s\<lparr>ps_integer_part := n, ps_in_frac := True\<rparr>" d f] assms(3-5) by (auto simp: parse_init_def)
  then show ?thesis unfolding rev_append fold_append comp_apply s n by (simp add: parse_init_def)
qed

text \<open>
  C35. Printing and parsing are inverse: for a power-of-ten scale of at most nine digits, every value but the most negative
  one survives \<open>to_string\<close> into a large enough buffer and \<open>string_to_fixed\<close> back, although the printer drops trailing
  zeros of the fraction.
\<close>

theorem fixed_point_text_roundtrip:
  assumes "k \<le> 9" "- (2 ^ 63) < value" "value < 2 ^ 63" "length (fp_chars (10 ^ k) value) < buf_size"
  shows "string_to_fixed (10 ^ k) (to_string (10 ^ k) value buf_size) = Some value"
proof -
  let ?S = "10 ^ k :: int" and ?v = "\<bar>value\<bar>"
  have S: "0 < ?S" "?S \<le> 10 ^ 9" using power_increasing [OF assms(1), of "10::int"] by simp_all
  note m = magnitude [OF assms(2,3) S(1)]
  obtain d f where t: "trim_zeros k (?v mod ?S) = (d, f)" by fastforce
  have r: "0 \<le> ?v mod ?S" "?v mod ?S < ?S" using S(1) by simp_all
  note z = trim_zeros_props [OF t r]
  have nb: "?v div ?S < 2 ^ 63" using m(5) by (simp add: in_i64_def)
  have d18: "d \<le> 18" using z(1) assms(1) by linarith
  have tx: "fp_chars ?S value = (if d > 0 then frac_chars d f @ ''.'' else []) @ (if ?v div ?S = 0 then ''0'' else int_chars (?v div ?S))
      @ (if value < 0 then ''-'' else [])"
    unfolding fp_chars_def Let_def m(2,3) i64_id [OF m(5)] scale_digits_pow t by simp
  have out: "to_string ?S value buf_size = rev (fp_chars ?S value)" using assms(4) by (simp add: to_string_def copy_out_def)
  have fs: "f * ?S div 10 ^ d = ?v mod ?S"
  proof -
    have "f * ?S = (f * 10 ^ (k - d)) * 10 ^ d" using z(1) by (simp add: power_add [symmetric] mult.assoc)
    then show ?thesis unfolding z(4) by (simp only: nonzero_mult_div_cancel_right power_not_zero zero_neq_numeral not_False_eq_True)
  qed
  have "f * ?S \<le> ?S * ?S" using z(1,3) S by (intro mult_right_mono) (meson less_imp_le order_trans power_increasing one_le_numeral, simp)
  also have "\<dots> \<le> 10 ^ 9 * 10 ^ 9" using S by (intro mult_mono) auto
  finally have fb: "0 \<le> f * ?S" "f * ?S < 2 ^ 63" using z(2) S(1) by simp_all
  have c: "cdiv (i64 (f * ?S)) (frac_scale d) = Some (?v mod ?S)"
    using fb fs frac_scale_pow [OF d18] by (simp add: in_i64_def cdiv_nonneg)
  have "?v div ?S * ?S + ?v mod ?S = ?v" by (rule div_mult_mod_eq)
  moreover have "in_i64 ?v" "in_i64 (- ?v)" using assms(2,3) by (auto simp: in_i64_def)
  ultimately show ?thesis
    unfolding string_to_fixed_def out tx parse_init_def [symmetric] parse_printed [OF m(4) nb z(2,3) d18]
    using c by (auto simp: Let_def)
qed

theorem fixed_point_text_roundtrip_witness:
  "string_to_fixed (10 ^ 3) (to_string (10 ^ 3) (- 12340) 64) = Some (- 12340) \<and> to_string (10 ^ 3) (- 12340) 64 = ''-12.34''"
proof -
  have t: "fp_chars (10 ^ 3) (- 12340) = ''43.21-''" by code_simp
  then have "to_string (10 ^ 3) (- 12340) 64 = ''-12.34''" by (simp add: to_string_def copy_out_def)
  then show ?thesis using fixed_point_text_roundtrip [of 3 "- 12340" 64] t by simp
qed

subsection \<open>Multiplication by a reciprocal\<close>

text \<open>
  The reciprocal multiplication of scale \<open>10 ^ 8\<close>. For non-negative operands whose product and result fit, the fast path
  never returns less than the exact truncated product and overshoots by at most \<open>product * 90448384 / (2 ^ 64 * 10 ^ 8)\<close>
  plus one; it is exact while \<open>product * 90448384 < 2 ^ 64\<close>. Larger products are wrong: \<open>1000 * 1000\<close> gives
  \<open>1000000.00000490\<close>.
\<close>

lemma reciprocal_product_error:
  assumes "0 \<le> a" "0 \<le> b" "a * b * kInverseScale8 < 2 ^ 127" "a * b div 10 ^ 8 + a * b * 90448384 div (2 ^ 64 * 10 ^ 8) + 1 < 2 ^ 63"
  shows "a * b div 10 ^ 8 \<le> fp_mul kScale8Decimal a b
     \<and> fp_mul kScale8Decimal a b \<le> a * b div 10 ^ 8 + a * b * 90448384 div (2 ^ 64 * 10 ^ 8) + 1
     \<and> (a * b * 90448384 < 2 ^ 64 \<longrightarrow> fp_mul kScale8Decimal a b = a * b div 10 ^ 8)
     \<and> fp_mul kScale8Decimal (1000 * 10 ^ 8) (1000 * 10 ^ 8) = 1000000 * 10 ^ 8 + 490"
proof -
  let ?p = "a * b" and ?K = "kInverseScale8"
  define q1 q2 r where "q1 = ?p div 10 ^ 8" and "q2 = ?p * 90448384 div (2 ^ 64 * 10 ^ 8)" and "r = ?p * ?K div 2 ^ 64"
  have p0: "0 \<le> ?p" using assms(1,2) by simp
  have K: "10 ^ 8 * ?K = 2 ^ 64 + 90448384" "1 \<le> ?K" by (simp_all add: kInverseScale8_def kScale8Decimal_def)
  have pK: "10 ^ 8 * (?p * ?K) = ?p * 2 ^ 64 + ?p * 90448384" using K(1) by (simp add: algebra_simps)
  have ple: "?p \<le> ?p * ?K" using mult_left_mono [OF K(2) p0] by simp
  have i: "i128 ?p = ?p" "i128 (?p * ?K) = ?p * ?K"
    using p0 ple assms(3) by (simp_all add: i128_def signed_take_bit_int_eq_self_iff)
  have d1: "10 ^ 8 * q1 \<le> ?p" "?p < 10 ^ 8 * (q1 + 1)"
    using pos_mod_sign [of "10 ^ 8" ?p] pos_mod_bound [of "10 ^ 8" ?p] by (simp_all add: q1_def distrib_left minus_mod_eq_mult_div [symmetric])
  have d2: "?p * 90448384 < 2 ^ 64 * 10 ^ 8 * (q2 + 1)"
    using pos_mod_bound [of "2 ^ 64 * 10 ^ 8" "?p * 90448384"] by (simp add: q2_def distrib_left minus_mod_eq_mult_div [symmetric])
  have r: "2 ^ 64 * r \<le> ?p * ?K" "?p * ?K < 2 ^ 64 * (r + 1)"
    using pos_mod_sign [of "2 ^ 64" "?p * ?K"] pos_mod_bound [of "2 ^ 64" "?p * ?K"] by (simp_all add: r_def distrib_left minus_mod_eq_mult_div [symmetric])
  obtain P Q where PQ: "P = ?p" "Q = ?p * ?K" by blast
  note f = d1 [folded PQ] r [folded PQ] pK [folded PQ] p0 [folded PQ]
  have lo: "q1 \<le> r" using f by simp
  have hi: "r \<le> q1 + q2 + 1" using f d2 [folded PQ] by simp
  have ex: "r = q1" if "?p * 90448384 < 2 ^ 64" using that [folded PQ] f lo by simp
  have "in_i64 r" using lo hi assms(4) p0 by (auto simp: in_i64_def q1_def q2_def)
  then have m: "fp_mul kScale8Decimal a b = r" using i by (simp add: fp_mul_def Let_def drop_bit_eq_div r_def)
  have "fp_mul kScale8Decimal (1000 * 10 ^ 8) (1000 * 10 ^ 8) = 1000000 * 10 ^ 8 + 490"
    by (simp add: fp_mul_def Let_def drop_bit_eq_div i128_def signed_take_bit_int_eq_self kInverseScale8_def kScale8Decimal_def in_i64_def)
  then show ?thesis using lo hi ex m by (auto simp: q1_def q2_def)
qed

end
