(* ===== verification/Order_Requests.thy ===== *)
theory Order_Requests
  imports HFT_Types Fixed_Point
begin

text \<open>
  Order requests on their way to the exchange: the request structures of \<^verbatim>\<open>hft/core/order_entry.h\<close>, the two JSON
  encoders (\<^verbatim>\<open>binance_spot_oe_encoder.tpp\<close>, \<^verbatim>\<open>binance_futures_oe_encoder.hpp\<close>) up to the JSON library, and
  \<^verbatim>\<open>WsOrderManager::extract_client_order_id\<close>, which has to find the client order id in the request id the
  exchange echoes. A message is the structure handed to \<^verbatim>\<open>glz::write_json\<close>; the timestamp is left out. The quantity
  and price texts go through a \<^verbatim>\<open>double\<close>: the two conversions are the arguments \<open>fq\<close> and \<open>fp\<close>.
\<close>

subsection \<open>Decimal text of unsigned 64-bit integers\<close>

text \<open>\<^verbatim>\<open>std::to_string(uint64_t)\<close> and \<^verbatim>\<open>std::from_chars\<close> for \<^verbatim>\<open>uint64_t\<close> in base 10: the value and the unread rest.\<close>

fun dec_digits :: "nat \<Rightarrow> string" where
  "dec_digits n = (if n < 10 then [digit_char (int n)] else dec_digits (n div 10) @ [digit_char (int (n mod 10))])"

definition to_string_u64 :: "u64 \<Rightarrow> string" where
  "to_string_u64 w = dec_digits (unat w)"

definition dec_value :: "string \<Rightarrow> nat" where
  "dec_value ds = foldl (\<lambda>a c. 10 * a + nat (char_digit c)) 0 ds"

definition from_chars_u64 :: "string \<Rightarrow> (u64 \<times> string) option" where
  "from_chars_u64 s =
     (let ds = takeWhile is_digit s
      in if ds = [] \<or> dec_value ds \<ge> 2 ^ 64 then None else Some (word_of_nat (dec_value ds), dropWhile is_digit s))"

subsection \<open>Request structures\<close>

record NewSingleOrderData =
  ns_cl_order_id :: order_id
  ns_symbol :: string
  ns_side :: OrderSide
  ns_order_qty :: int64
  ns_ord_type :: OrderType
  ns_price :: int64
  ns_time_in_force :: TimeInForce
  ns_self_trade_prevention_mode :: SelfTradePreventionMode
  ns_position_side :: "PositionSide option"

record OrderCancelRequest =
  oc_cl_order_id :: order_id
  oc_orig_cl_order_id :: order_id
  oc_symbol :: string
  oc_position_side :: "PositionSide option"

record OrderCancelAndNewOrderSingle =
  cn_mode :: int
  cn_cancel_new_order_id :: order_id
  cn_cl_new_order_id :: order_id
  cn_cl_origin_order_id :: order_id
  cn_symbol :: string
  cn_side :: OrderSide
  cn_order_qty :: int64
  cn_ord_type :: OrderType
  cn_price :: int64
  cn_time_in_force :: TimeInForce
  cn_self_trade_prevention_mode :: SelfTradePreventionMode
  cn_position_side :: "PositionSide option"

record OrderMassCancelRequest =
  mc_cl_order_id :: order_id
  mc_symbol :: string
  mc_mass_cancel_request_type :: char

record OrderModifyRequest =
  mo_orig_client_order_id :: order_id
  mo_symbol :: string
  mo_side :: OrderSide
  mo_price :: int64
  mo_order_qty :: int64
  mo_position_side :: "PositionSide option"

subsection \<open>Request ids\<close>

definition kOrderPlace :: char where
  "kOrderPlace = CHR ''p''"

definition kOrderCancel :: char where
  "kOrderCancel = CHR ''c''"

definition kOrderReplace :: char where
  "kOrderReplace = CHR ''r''"

definition kOrderModify_id :: char where
  "kOrderModify_id = CHR ''m''"

definition extract_client_order_id :: "string \<Rightarrow> u64 option" where
  "extract_client_order_id request_id =
     (case dropWhile (\<lambda>c. c \<noteq> CHR ''_'') request_id of
        [] \<Rightarrow> None
      | _ # numeric_part \<Rightarrow>
          if numeric_part = [] then None
          else case from_chars_u64 numeric_part of
                 Some (result, rest) \<Rightarrow> if rest = [] then Some result else None
               | None \<Rightarrow> None)"

subsection \<open>Spot encoder\<close>

record 't PlaceOrderParams =
  pp_symbol :: string
  pp_side :: string
  pp_type :: string
  pp_time_in_force :: "string option"
  pp_price :: "'t option"
  pp_quantity :: 't
  pp_new_client_order_id :: string
  pp_self_trade_prevention_mode :: string
  pp_position_side :: "string option"

record CancelOrderParams =
  cp_symbol :: string
  cp_orig_client_order_id :: string
  cp_new_client_order_id :: "string option"
  cp_position_side :: "string option"

record 't CancelReplaceOrderParams =
  rp_symbol :: string
  rp_cancel_replace_mode :: string
  rp_side :: string
  rp_type :: string
  rp_cancel_orig_client_order_id :: string
  rp_cancel_new_client_order_id :: string
  rp_time_in_force :: "string option"
  rp_price :: "'t option"
  rp_quantity :: 't
  rp_new_client_order_id :: string
  rp_self_trade_prevention_mode :: string

record 't ModifyOrderParams =
  mp_symbol :: string
  mp_side :: string
  mp_origin_client_order_id :: u64
  mp_price :: "'t option"
  mp_quantity :: 't
  mp_position_side :: "string option"

text \<open>
  The outgoing messages with the id of their envelope; the session messages carry no data of the model, and \<open>NoMessage\<close>
  is the empty string, which is not sent.
\<close>

datatype 't OutMessage =
    OrderPlace string "'t PlaceOrderParams"
  | OrderCancel string CancelOrderParams
  | OrderCancelReplace string "'t CancelReplaceOrderParams"
  | OrderModify string "'t ModifyOrderParams"
  | OpenOrdersCancelAll string string
  | SessionLogon
  | SessionLogout
  | UserDataStreamSubscribe
  | NoMessage

definition spot_create_order_message :: "(int64 \<Rightarrow> 't) \<Rightarrow> (int64 \<Rightarrow> 't) \<Rightarrow> NewSingleOrderData \<Rightarrow> 't OutMessage" where
  "spot_create_order_message fq fp order =
     OrderPlace (''orderplace_'' @ to_string_u64 (ns_cl_order_id order))
       \<lparr>pp_symbol = ns_symbol order, pp_side = order_side_toString (ns_side order), pp_type = order_type_toString (ns_ord_type order),
        pp_time_in_force = (if ns_ord_type order = kLimit then Some (tif_toString (ns_time_in_force order)) else None),
        pp_price = (if ns_ord_type order = kLimit then Some (fp (ns_price order)) else None),
        pp_quantity = fq (ns_order_qty order), pp_new_client_order_id = to_string_u64 (ns_cl_order_id order),
        pp_self_trade_prevention_mode = stp_toString (ns_self_trade_prevention_mode order), pp_position_side = None\<rparr>"

definition spot_create_cancel_order_message :: "OrderCancelRequest \<Rightarrow> 't OutMessage" where
  "spot_create_cancel_order_message cancel =
     OrderCancel (''ordercancel_'' @ to_string_u64 (oc_cl_order_id cancel))
       \<lparr>cp_symbol = oc_symbol cancel, cp_orig_client_order_id = to_string_u64 (oc_orig_cl_order_id cancel),
        cp_new_client_order_id = Some (to_string_u64 (oc_cl_order_id cancel)), cp_position_side = None\<rparr>"

definition spot_create_cancel_and_reorder_message :: "(int64 \<Rightarrow> 't) \<Rightarrow> (int64 \<Rightarrow> 't) \<Rightarrow> OrderCancelAndNewOrderSingle \<Rightarrow> 't OutMessage" where
  "spot_create_cancel_and_reorder_message fq fp replace =
     OrderCancelReplace (''orderreplace_'' @ to_string_u64 (cn_cl_new_order_id replace))
       \<lparr>rp_symbol = cn_symbol replace, rp_cancel_replace_mode = ''STOP_ON_FAILURE'', rp_side = order_side_toString (cn_side replace),
        rp_type = order_type_toString (cn_ord_type replace),
        rp_cancel_orig_client_order_id = to_string_u64 (cn_cl_origin_order_id replace),
        rp_cancel_new_client_order_id = to_string_u64 (cn_cancel_new_order_id replace),
        rp_time_in_force = (if cn_ord_type replace = kLimit then Some (tif_toString (cn_time_in_force replace)) else None),
        rp_price = (if cn_ord_type replace = kLimit then Some (fp (cn_price replace)) else None),
        rp_quantity = fq (cn_order_qty replace), rp_new_client_order_id = to_string_u64 (cn_cl_new_order_id replace),
        rp_self_trade_prevention_mode = stp_toString (cn_self_trade_prevention_mode replace)\<rparr>"

definition spot_create_order_all_cancel :: "OrderMassCancelRequest \<Rightarrow> 't OutMessage" where
  "spot_create_order_all_cancel request = OpenOrdersCancelAll (''ordercancelAll_'' @ to_string_u64 (mc_cl_order_id request)) (mc_symbol request)"

subsection \<open>Futures encoder\<close>

definition futures_create_order_message :: "(int64 \<Rightarrow> 't) \<Rightarrow> (int64 \<Rightarrow> 't) \<Rightarrow> NewSingleOrderData \<Rightarrow> 't OutMessage" where
  "futures_create_order_message fq fp order =
     OrderPlace (kOrderPlace # to_string_u64 (ns_cl_order_id order))
       \<lparr>pp_symbol = ns_symbol order, pp_side = order_side_toString (ns_side order), pp_type = order_type_toString (ns_ord_type order),
        pp_time_in_force = (if ns_ord_type order = kLimit then Some (tif_toString (ns_time_in_force order)) else None),
        pp_price = (if ns_ord_type order = kLimit then Some (fp (ns_price order)) else None),
        pp_quantity = fq (ns_order_qty order), pp_new_client_order_id = to_string_u64 (ns_cl_order_id order),
        pp_self_trade_prevention_mode = stp_toString (ns_self_trade_prevention_mode order),
        pp_position_side = map_option position_side_toString (ns_position_side order)\<rparr>"

definition futures_create_cancel_order_message :: "OrderCancelRequest \<Rightarrow> 't OutMessage" where
  "futures_create_cancel_order_message cancel =
     OrderCancel (kOrderCancel # to_string_u64 (oc_cl_order_id cancel))
       \<lparr>cp_symbol = oc_symbol cancel, cp_orig_client_order_id = to_string_u64 (oc_orig_cl_order_id cancel),
        cp_new_client_order_id = None, cp_position_side = map_option position_side_toString (oc_position_side cancel)\<rparr>"

definition futures_create_cancel_and_reorder_message :: "(int64 \<Rightarrow> 't) \<Rightarrow> (int64 \<Rightarrow> 't) \<Rightarrow> OrderCancelAndNewOrderSingle \<Rightarrow> 't OutMessage" where
  "futures_create_cancel_and_reorder_message fq fp replace =
     OrderModify (kOrderReplace # to_string_u64 (cn_cl_new_order_id replace))
       \<lparr>mp_symbol = cn_symbol replace, mp_side = order_side_toString (cn_side replace),
        mp_origin_client_order_id = cn_cl_origin_order_id replace,
        mp_price = (if cn_ord_type replace = kLimit then Some (fp (cn_price replace)) else None),
        mp_quantity = fq (cn_order_qty replace), mp_position_side = map_option position_side_toString (cn_position_side replace)\<rparr>"

definition futures_create_modify_order_message :: "(int64 \<Rightarrow> 't) \<Rightarrow> (int64 \<Rightarrow> 't) \<Rightarrow> OrderModifyRequest \<Rightarrow> 't OutMessage" where
  "futures_create_modify_order_message fq fp modify =
     OrderModify (kOrderModify_id # to_string_u64 (mo_orig_client_order_id modify))
       \<lparr>mp_symbol = mo_symbol modify, mp_side = order_side_toString (mo_side modify),
        mp_origin_client_order_id = mo_orig_client_order_id modify, mp_price = Some (fp (mo_price modify)),
        mp_quantity = fq (mo_order_qty modify), mp_position_side = map_option position_side_toString (mo_position_side modify)\<rparr>"

definition futures_create_order_all_cancel :: "OrderMassCancelRequest \<Rightarrow> 't OutMessage" where
  "futures_create_order_all_cancel request = NoMessage"

fun message_id :: "'t OutMessage \<Rightarrow> string" where
  "message_id (OrderPlace i _) = i"
| "message_id (OrderCancel i _) = i"
| "message_id (OrderCancelReplace i _) = i"
| "message_id (OrderModify i _) = i"
| "message_id (OpenOrdersCancelAll i _) = i"
| "message_id _ = []"

subsection \<open>Lemmas: decimal text\<close>

declare dec_digits.simps [simp del]

lemma dec_digits_is_digit: "list_all is_digit (dec_digits n)"
proof (induction n rule: dec_digits.induct)
  case (1 n)
  then show ?case by (subst dec_digits.simps) (simp add: digit_char_parse)
qed

lemma dec_digits_value: "dec_value (dec_digits n) = n"
proof (induction n rule: dec_digits.induct)
  case (1 n)
  then show ?case by (subst dec_digits.simps) (simp add: dec_value_def digit_char_parse)
qed

lemma dec_digits_nonempty: "dec_digits n \<noteq> []"
  by (subst dec_digits.simps) simp

lemma from_chars_to_string: "from_chars_u64 (to_string_u64 w) = Some (w, [])"
proof -
  have all: "\<forall>c\<in>set (to_string_u64 w). is_digit c"
    using dec_digits_is_digit [of "unat w"] by (simp add: to_string_u64_def list_all_iff)
  moreover have "unat w < 2 ^ 64" using unsigned_less [of w] by simp
  ultimately show ?thesis
    by (simp add: from_chars_u64_def takeWhile_eq_all_conv [THEN iffD2] dropWhile_eq_Nil_conv [THEN iffD2])
       (simp add: to_string_u64_def dec_digits_value dec_digits_nonempty)
qed

lemma underscore_not_digit: "\<not> is_digit CHR ''_''"
  by (simp add: is_digit_def char_digit_def)

lemma to_string_nonempty: "to_string_u64 w \<noteq> []"
  by (simp add: to_string_u64_def dec_digits_nonempty)

lemma drop_to_underscore:
  "CHR ''_'' \<notin> set pre \<Longrightarrow> dropWhile (\<lambda>c. c \<noteq> CHR ''_'') (pre @ CHR ''_'' # s) = CHR ''_'' # s"
  "CHR ''_'' \<notin> set pre \<Longrightarrow> dropWhile (\<lambda>c. c \<noteq> CHR ''_'') pre = []"
  by (induction pre) auto

lemma extract_prefixed: "CHR ''_'' \<notin> set pre \<Longrightarrow> extract_client_order_id (pre @ CHR ''_'' # to_string_u64 w) = Some w"
  by (simp add: extract_client_order_id_def drop_to_underscore from_chars_to_string to_string_nonempty)

lemma extract_no_underscore: "CHR ''_'' \<notin> set s \<Longrightarrow> extract_client_order_id s = None"
  by (simp add: extract_client_order_id_def drop_to_underscore)

lemma to_string_no_underscore: "CHR ''_'' \<notin> set (to_string_u64 w)"
  using dec_digits_is_digit [of "unat w"] underscore_not_digit by (auto simp: to_string_u64_def list_all_iff)

lemma spot_ids_readable:
  "extract_client_order_id (message_id (spot_create_order_message fq fp order)) = Some (ns_cl_order_id order)"
  "extract_client_order_id (message_id (spot_create_cancel_order_message cancel)) = Some (oc_cl_order_id cancel)"
  "extract_client_order_id (message_id (spot_create_cancel_and_reorder_message fq fp replace)) = Some (cn_cl_new_order_id replace)"
  "extract_client_order_id (message_id (spot_create_order_all_cancel mass)) = Some (mc_cl_order_id mass)"
  using extract_prefixed [of "''orderplace''" "ns_cl_order_id order"] extract_prefixed [of "''ordercancel''" "oc_cl_order_id cancel"]
    extract_prefixed [of "''orderreplace''" "cn_cl_new_order_id replace"] extract_prefixed [of "''ordercancelAll''" "mc_cl_order_id mass"]
  by (simp_all add: spot_create_order_message_def spot_create_cancel_order_message_def spot_create_cancel_and_reorder_message_def
      spot_create_order_all_cancel_def)

lemma extract_letter_id: "c \<noteq> CHR ''_'' \<Longrightarrow> extract_client_order_id (c # to_string_u64 i) = None"
  using to_string_no_underscore by (intro extract_no_underscore) auto

lemma futures_ids_unreadable:
  "extract_client_order_id (message_id (futures_create_order_message fq fp order)) = None"
  "extract_client_order_id (message_id (futures_create_cancel_order_message cancel)) = None"
  "extract_client_order_id (message_id (futures_create_cancel_and_reorder_message fq fp replace)) = None"
  "extract_client_order_id (message_id (futures_create_modify_order_message fq fp modify)) = None"
  by (simp_all add: futures_create_order_message_def futures_create_cancel_order_message_def
      futures_create_cancel_and_reorder_message_def futures_create_modify_order_message_def extract_letter_id
      kOrderPlace_def kOrderCancel_def kOrderReplace_def kOrderModify_id_def)

text \<open>
  The request ids of the spot encoder carry the client order id so that \<^verbatim>\<open>extract_client_order_id\<close> recovers it from
  every order, cancel, replace and mass-cancel message, for every 64-bit id. From the ids of the futures
  encoder, which consist of a letter and the number without an underscore, it never recovers anything.
\<close>

lemma request_id_roundtrip:
  "extract_client_order_id (message_id (spot_create_order_message fq fp order)) = Some (ns_cl_order_id order)
   \<and> extract_client_order_id (message_id (spot_create_cancel_order_message cancel)) = Some (oc_cl_order_id cancel)
   \<and> extract_client_order_id (message_id (spot_create_cancel_and_reorder_message fq fp replace)) = Some (cn_cl_new_order_id replace)
   \<and> extract_client_order_id (message_id (spot_create_order_all_cancel mass)) = Some (mc_cl_order_id mass)
   \<and> extract_client_order_id (message_id (futures_create_order_message fq fp order)) = None
   \<and> extract_client_order_id (message_id (futures_create_cancel_order_message cancel)) = None
   \<and> extract_client_order_id (message_id (futures_create_cancel_and_reorder_message fq fp replace)) = None
   \<and> extract_client_order_id (message_id (futures_create_modify_order_message fq fp modify)) = None"
  by (simp add: spot_ids_readable futures_ids_unreadable)

end
