(* ===== verification/Ws_Orders.thy ===== *)
theory Ws_Orders
  imports Order_Requests
begin

text \<open>
  Bookkeeping of the websocket order entry (\<^verbatim>\<open>hft/core/websocket/order_entry/ws_order_manager.hpp\<close>) and the messages
  the exchange sends. \<open>WsOrderManager\<close> remembers every request until its outcome is known and fabricates a
  rejecting execution report when the exchange refuses one. The two \<^verbatim>\<open>concurrent_hash_map\<close>s are maps; every
  operation holds one accessor and is one step.

  Numbers of the wire format are \<^verbatim>\<open>double\<close>s. Their type is the parameter \<open>'d\<close> and the operations the code uses
  on them are the fields of \<open>Dbl\<close>. \<open>dbl_laws\<close> states what the theorems need of them for the values that occur:
  a raw price or quantity survives the conversion to a \<^verbatim>\<open>double\<close> and back, and subtracting zero from a non-negative number
  and taking the maximum with zero give it back.
\<close>

record 'd Dbl =
  d_zero :: 'd
  d_sub :: "'d \<Rightarrow> 'd \<Rightarrow> 'd"
  d_max :: "'d \<Rightarrow> 'd \<Rightarrow> 'd"
  qty_from_double :: "'d \<Rightarrow> int64"
  price_from_double :: "'d \<Rightarrow> int64"
  qty_to_double :: "int64 \<Rightarrow> 'd"
  price_to_double :: "int64 \<Rightarrow> 'd"

definition dbl_laws :: "'d Dbl \<Rightarrow> int64 \<Rightarrow> int64 \<Rightarrow> bool" where
  "dbl_laws d qty price \<longleftrightarrow>
     d_max d (d_zero d) (d_sub d (qty_to_double d qty) (d_zero d)) = qty_to_double d qty
     \<and> qty_from_double d (qty_to_double d qty) = qty \<and> qty_from_double d (d_zero d) = 0
     \<and> price_from_double d (price_to_double d price) = price"

subsection \<open>Messages of the exchange\<close>

text \<open>
  The fields of an order update the code reads. The spot structure has no position side; there it is the
  empty string and is not read.
\<close>

record 'd OrderUpdateInfo =
  ev_symbol :: string
  ev_client_order_id :: u64
  ev_side :: string
  ev_order_type :: string
  ev_time_in_force :: string
  ev_order_quantity :: 'd
  ev_order_price :: 'd
  ev_execution_type :: string
  ev_order_status :: string
  ev_last_executed_quantity :: 'd
  ev_cumulative_filled_quantity :: 'd
  ev_position_side :: string
  ev_reject_reason :: string

text \<open>The error data of a cancel-and-reorder is its cancel result and its new-order result.\<close>

record ErrorResponse =
  err_code :: int
  err_message :: string
  err_data :: "(string \<times> string) option"

record ApiResponse =
  rs_id :: string
  rs_status :: int
  rs_error :: "ErrorResponse option"

text \<open>The variant of all messages; a user stream response also carries the listen key.\<close>

datatype 'd WireMessage =
    W_Monostate
  | W_ExecutionReport "'d OrderUpdateInfo"
  | W_SessionLogon ApiResponse
  | W_UserSubscription ApiResponse "string option"
  | W_UserUnsubscription ApiResponse
  | W_CancelAndReorder ApiResponse
  | W_ModifyOrder ApiResponse
  | W_CancelAllOrders ApiResponse
  | W_PlaceOrder ApiResponse
  | W_CancelOrder ApiResponse
  | W_ApiResponse ApiResponse
  | W_BalanceUpdate
  | W_AccountPosition
  | W_ListenKeyExpired

datatype Exchange = Spot | Futures

fun requires_listen_key :: "Exchange \<Rightarrow> bool" where
  "requires_listen_key Spot = False"
| "requires_listen_key Futures = True"

fun requires_stream_transport :: "Exchange \<Rightarrow> bool" where
  "requires_stream_transport Spot = False"
| "requires_stream_transport Futures = True"

subsection \<open>Pending requests\<close>

record PendingOrderRequest =
  pd_client_order_id :: u64
  pd_symbol :: string
  pd_side :: Side
  pd_price :: int64
  pd_order_qty :: int64
  pd_ord_type :: OrderType
  pd_time_in_force :: TimeInForce
  pd_position_side :: "PositionSide option"

definition PendingOrderRequest_new :: PendingOrderRequest where
  "PendingOrderRequest_new = \<lparr>pd_client_order_id = 0, pd_symbol = [], pd_side = Side_kInvalid, pd_price = 0, pd_order_qty = 0,
     pd_ord_type = Type_kInvalid, pd_time_in_force = Tif_kInvalid, pd_position_side = None\<rparr>"

record WsOrderManager =
  wm_pending_requests :: "u64 \<rightharpoonup> PendingOrderRequest"
  wm_cancel_reorder_pairs :: "u64 \<rightharpoonup> u64"

definition WsOrderManager_new :: WsOrderManager where
  "WsOrderManager_new = \<lparr>wm_pending_requests = Map.empty, wm_cancel_reorder_pairs = Map.empty\<rparr>"

definition register_pending_request :: "PendingOrderRequest \<Rightarrow> WsOrderManager \<Rightarrow> WsOrderManager" where
  "register_pending_request request w =
     w\<lparr>wm_pending_requests := (wm_pending_requests w)(pd_client_order_id request \<mapsto> request)\<rparr>"

definition remove_pending_request :: "u64 \<Rightarrow> WsOrderManager \<Rightarrow> WsOrderManager" where
  "remove_pending_request request_id w = w\<lparr>wm_pending_requests := (wm_pending_requests w)(request_id := None)\<rparr>"

definition register_cancel_and_reorder_pair :: "u64 \<Rightarrow> u64 \<Rightarrow> WsOrderManager \<Rightarrow> WsOrderManager" where
  "register_cancel_and_reorder_pair new_order_id original_order_id w =
     w\<lparr>wm_cancel_reorder_pairs := (wm_cancel_reorder_pairs w)(new_order_id \<mapsto> original_order_id)\<rparr>"

definition get_original_order_id :: "u64 \<Rightarrow> WsOrderManager \<Rightarrow> u64 option" where
  "get_original_order_id new_order_id w = wm_cancel_reorder_pairs w new_order_id"

definition remove_cancel_and_reorder_pair :: "u64 \<Rightarrow> WsOrderManager \<Rightarrow> WsOrderManager" where
  "remove_cancel_and_reorder_pair new_order_id w =
     w\<lparr>wm_cancel_reorder_pairs := (wm_cancel_reorder_pairs w)(new_order_id := None)\<rparr>"

text \<open>
  The fabricated event of a refused request. \<open>ticker\<close> is the configured ticker, used when no request is pending.
\<close>

definition synthetic_event :: "'d Dbl \<Rightarrow> Exchange \<Rightarrow> string \<Rightarrow> u64 \<Rightarrow> string \<Rightarrow> PendingOrderRequest option \<Rightarrow> 'd OrderUpdateInfo" where
  "synthetic_event d ex ticker client_order_id error_message found =
     (let event = \<lparr>ev_symbol = [], ev_client_order_id = client_order_id, ev_side = [], ev_order_type = [], ev_time_in_force = [],
            ev_order_quantity = d_zero d, ev_order_price = d_zero d, ev_execution_type = ''REJECTED'', ev_order_status = ''REJECTED'',
            ev_last_executed_quantity = d_zero d, ev_cumulative_filled_quantity = d_zero d, ev_position_side = [],
            ev_reject_reason = error_message\<rparr>
      in case found of
           Some pending \<Rightarrow>
             event\<lparr>ev_symbol := pd_symbol pending, ev_side := side_toString (pd_side pending),
                   ev_order_type := order_type_toString (pd_ord_type pending),
                   ev_time_in_force := tif_toString (pd_time_in_force pending),
                   ev_order_price := price_to_double d (pd_price pending),
                   ev_order_quantity := qty_to_double d (pd_order_qty pending),
                   ev_position_side := (if requires_listen_key ex
                     then (case pd_position_side pending of Some ps \<Rightarrow> position_side_toString ps | None \<Rightarrow> ''BOTH'') else [])\<rparr>
         | None \<Rightarrow>
             event\<lparr>ev_symbol := ticker, ev_side := ''UNKNOWN'', ev_order_type := ''UNKNOWN'', ev_time_in_force := ''UNKNOWN'',
                   ev_position_side := (if requires_listen_key ex then ''BOTH'' else [])\<rparr>)"

definition create_synthetic_execution_report ::
  "'d Dbl \<Rightarrow> Exchange \<Rightarrow> string \<Rightarrow> string \<Rightarrow> string \<Rightarrow> WsOrderManager \<Rightarrow> 'd OrderUpdateInfo option \<times> WsOrderManager" where
  "create_synthetic_execution_report d ex ticker request_id error_message w =
     (case extract_client_order_id request_id of
        None \<Rightarrow> (None, w)
      | Some client_order_id \<Rightarrow>
          let found = wm_pending_requests w client_order_id
          in (Some (synthetic_event d ex ticker client_order_id error_message found),
              case found of Some _ \<Rightarrow> remove_pending_request client_order_id w | None \<Rightarrow> w))"

subsection \<open>Mapping an order update to an execution report\<close>

definition spot_report :: "'d Dbl \<Rightarrow> 'd OrderUpdateInfo \<Rightarrow> ExecutionReport" where
  "spot_report d event =
     \<lparr>er_cl_order_id = ev_client_order_id event, er_symbol = ev_symbol event, er_exec_type = toType (ev_execution_type event),
      er_ord_status = toOrderStatus (ev_order_status event),
      er_cum_qty = qty_from_double d (ev_cumulative_filled_quantity event),
      er_leaves_qty = qty_from_double d (d_max d (d_zero d) (d_sub d (ev_order_quantity event) (ev_cumulative_filled_quantity event))),
      er_last_qty = qty_from_double d (ev_last_executed_quantity event), er_error_code = 0,
      er_price = price_from_double d (ev_order_price event), er_side = toSide (ev_side event), er_text = ev_reject_reason event,
      er_position_side = None\<rparr>"

definition futures_report :: "'d Dbl \<Rightarrow> 'd OrderUpdateInfo \<Rightarrow> ExecutionReport" where
  "futures_report d event =
     \<lparr>er_cl_order_id = ev_client_order_id event, er_symbol = ev_symbol event, er_exec_type = toType (ev_execution_type event),
      er_ord_status = toOrderStatus (ev_order_status event),
      er_cum_qty = qty_from_double d (ev_cumulative_filled_quantity event),
      er_leaves_qty = qty_from_double d (d_max d (d_zero d) (d_sub d (ev_order_quantity event) (ev_cumulative_filled_quantity event))),
      er_last_qty = qty_from_double d (ev_last_executed_quantity event), er_error_code = 0,
      er_price = price_from_double d (ev_order_price event), er_side = toSide (ev_side event), er_text = ev_reject_reason event,
      er_position_side = (if ev_position_side event \<noteq> [] then Some (toPositionSide (ev_position_side event)) else None)\<rparr>"

fun to_report :: "'d Dbl \<Rightarrow> Exchange \<Rightarrow> 'd OrderUpdateInfo \<Rightarrow> ExecutionReport" where
  "to_report d Spot event = spot_report d event"
| "to_report d Futures event = futures_report d event"

subsection \<open>Lemmas\<close>

lemma ws_frame [simp]:
  "wm_cancel_reorder_pairs (register_pending_request r w) = wm_cancel_reorder_pairs w"
  "wm_cancel_reorder_pairs (remove_pending_request i w) = wm_cancel_reorder_pairs w"
  "wm_pending_requests (remove_cancel_and_reorder_pair i w) = wm_pending_requests w"
  by (simp_all add: register_pending_request_def remove_pending_request_def remove_cancel_and_reorder_pair_def)

lemma synthetic_frame [simp]:
  "wm_cancel_reorder_pairs (snd (create_synthetic_execution_report d ex ticker request_id msg w)) = wm_cancel_reorder_pairs w"
  by (simp add: create_synthetic_execution_report_def Let_def split: option.split)

text \<open>The report fabricated for a pending request says what the request said.\<close>

lemma synthetic_report:
  assumes "dbl_laws d (pd_order_qty p) (pd_price p)"
  shows "spot_report d (synthetic_event d Spot ticker i msg (Some p)) =
     \<lparr>er_cl_order_id = i, er_symbol = pd_symbol p, er_exec_type = Exec_kRejected, er_ord_status = Ord_kRejected, er_cum_qty = 0,
      er_leaves_qty = pd_order_qty p, er_last_qty = 0, er_error_code = 0, er_price = pd_price p, er_side = pd_side p, er_text = msg,
      er_position_side = None\<rparr>"
  using assms by (simp add: spot_report_def synthetic_event_def Let_def dbl_laws_def side_text_roundtrip toType_def toOrderStatus_def)

text \<open>One-way futures positions are reported as \<^verbatim>\<open>BOTH\<close>, which reads back as an invalid position side.\<close>

lemma futures_both: "ev_position_side event = ''BOTH'' \<Longrightarrow> er_position_side (futures_report d event) = Some PositionSide_kInvalid"
  by (simp add: futures_report_def toPositionSide_def)

end
