(* ===== verification/Order_Gateway.thy ===== *)
theory Order_Gateway
  imports Ws_Orders SPSC_Queue Mem_Pool
begin

text \<open>
  The order gateway (\<^verbatim>\<open>hft/src/order_gateway.hpp\<close>) with the websocket application below it
  (\<^verbatim>\<open>hft/core/websocket/order_entry/ws_oe_app.hpp\<close>), the decoders and the dispatchers of both exchanges, and the
  response manager. Requests of the trade engine are encoded, written and remembered; messages of the exchange
  are decoded and dispatched, and what concerns an order is put into a pool block whose pointer is enqueued for
  the trade engine. The pools and the queue are those of \<open>Mem_Pool\<close> and \<open>SPSC_Queue\<close>.

  Arguments of the model: \<open>wr\<close> says whether the transport writes a message, \<open>read\<close> is \<^verbatim>\<open>glz::read_json\<close> per message
  type, \<open>header\<close> the partial read of the \<^verbatim>\<open>id\<close> field, \<open>ticker\<close> the configured ticker, \<open>d\<close>, \<open>fq\<close> and \<open>fp\<close> the conversions of
  numbers. \<^term>\<open>None\<close> is an exception: \<^verbatim>\<open>std::get\<close> on a variant that holds another alternative.
\<close>

subsection \<open>Responses and their pools\<close>

record OrderCancelReject =
  cj_cl_order_id :: order_id
  cj_symbol :: string
  cj_error_code :: int
  cj_text :: string

record OrderMassCancelReport =
  mr_cl_order_id :: order_id
  mr_symbol :: string
  mr_mass_cancel_request_type :: char
  mr_mass_cancel_response :: MassCancelResponse
  mr_total_affected_orders :: int
  mr_error_code :: int
  mr_text :: string

record ResponseManager =
  rm_execution_report_pool :: "ExecutionReport mpool"
  rm_order_cancel_reject_pool :: "OrderCancelReject mpool"
  rm_order_mass_cancel_report_pool :: "OrderMassCancelReport mpool"

record ResponseCommon =
  re_res_type :: ResponseType
  re_execution_report :: bin_ptr
  re_order_cancel_reject :: bin_ptr
  re_order_mass_cancel_report :: bin_ptr

definition ResponseCommon_new :: ResponseCommon where
  "ResponseCommon_new = \<lparr>re_res_type = Res_kInvalid, re_execution_report = None, re_order_cancel_reject = None,
     re_order_mass_cancel_report = None\<rparr>"

text \<open>Allocation and initialisation of a block in one step: every field of the model is assigned right after it.\<close>

definition execution_report_allocate :: "ExecutionReport \<Rightarrow> ResponseManager \<Rightarrow> ResponseManager \<times> bin_ptr" where
  "execution_report_allocate r rm =
     (case pool_allocate (rm_execution_report_pool rm) r of (p, ptr) \<Rightarrow> (rm\<lparr>rm_execution_report_pool := p\<rparr>, ptr))"

definition order_cancel_reject_allocate :: "OrderCancelReject \<Rightarrow> ResponseManager \<Rightarrow> ResponseManager \<times> bin_ptr" where
  "order_cancel_reject_allocate r rm =
     (case pool_allocate (rm_order_cancel_reject_pool rm) r of (p, ptr) \<Rightarrow> (rm\<lparr>rm_order_cancel_reject_pool := p\<rparr>, ptr))"

definition order_mass_cancel_report_allocate :: "OrderMassCancelReport \<Rightarrow> ResponseManager \<Rightarrow> ResponseManager \<times> bin_ptr" where
  "order_mass_cancel_report_allocate r rm =
     (case pool_allocate (rm_order_mass_cancel_report_pool rm) r of (p, ptr) \<Rightarrow> (rm\<lparr>rm_order_mass_cancel_report_pool := p\<rparr>, ptr))"

definition execution_report_deallocate :: "bin_ptr \<Rightarrow> ResponseManager \<Rightarrow> ResponseManager" where
  "execution_report_deallocate ptr rm = rm\<lparr>rm_execution_report_pool := fst (pool_deallocate (rm_execution_report_pool rm) ptr)\<rparr>"

definition order_cancel_reject_deallocate :: "bin_ptr \<Rightarrow> ResponseManager \<Rightarrow> ResponseManager" where
  "order_cancel_reject_deallocate ptr rm =
     rm\<lparr>rm_order_cancel_reject_pool := fst (pool_deallocate (rm_order_cancel_reject_pool rm) ptr)\<rparr>"

definition order_mass_cancel_report_deallocate :: "bin_ptr \<Rightarrow> ResponseManager \<Rightarrow> ResponseManager" where
  "order_mass_cancel_report_deallocate ptr rm =
     rm\<lparr>rm_order_mass_cancel_report_pool := fst (pool_deallocate (rm_order_mass_cancel_report_pool rm) ptr)\<rparr>"

subsection \<open>Mappers\<close>

definition to_execution_report :: "'d Dbl \<Rightarrow> Exchange \<Rightarrow> 'd OrderUpdateInfo \<Rightarrow> ResponseManager \<Rightarrow> ResponseManager \<times> bin_ptr" where
  "to_execution_report d ex event rm = execution_report_allocate (to_report d ex event) rm"

definition to_cancel_reject :: "'d OrderUpdateInfo \<Rightarrow> ResponseManager \<Rightarrow> ResponseManager \<times> bin_ptr" where
  "to_cancel_reject event rm =
     order_cancel_reject_allocate \<lparr>cj_cl_order_id = ev_client_order_id event, cj_symbol = ev_symbol event, cj_error_code = 0,
       cj_text = ev_reject_reason event\<rparr> rm"

definition to_mass_cancel_report :: "'d OrderUpdateInfo \<Rightarrow> ResponseManager \<Rightarrow> ResponseManager \<times> bin_ptr" where
  "to_mass_cancel_report event rm =
     order_mass_cancel_report_allocate \<lparr>mr_cl_order_id = ev_client_order_id event, mr_symbol = ev_symbol event,
       mr_mass_cancel_request_type = CHR ''7'', mr_mass_cancel_response = kCancelSymbolOrders, mr_total_affected_orders = 0, mr_error_code = 0, mr_text = ev_reject_reason event\<rparr> rm"

subsection \<open>Gateway state\<close>

record 't Gateway =
  gw_orders :: WsOrderManager
  gw_pools :: ResponseManager
  gw_queue :: "ResponseCommon spsc"
  gw_session_ready :: bool
  gw_listen_key :: "string option"
  gw_written :: "'t OutMessage list"

definition kResponseQueueSize :: u64 where
  "kResponseQueueSize = 64"

definition gateway_new :: "ResponseManager \<Rightarrow> 't Gateway" where
  "gateway_new rm = \<lparr>gw_orders = WsOrderManager_new, gw_pools = rm, gw_queue = spsc_new kResponseQueueSize ResponseCommon_new,
     gw_session_ready = False, gw_listen_key = None, gw_written = []\<rparr>"

definition app_send :: "('t OutMessage \<Rightarrow> bool) \<Rightarrow> 't OutMessage \<Rightarrow> 't Gateway \<Rightarrow> 't Gateway" where
  "app_send wr msg g = (case msg of NoMessage \<Rightarrow> g | _ \<Rightarrow> if wr msg then g\<lparr>gw_written := gw_written g @ [msg]\<rparr> else g)"

definition on_orders :: "(WsOrderManager \<Rightarrow> WsOrderManager) \<Rightarrow> 't Gateway \<Rightarrow> 't Gateway" where
  "on_orders f g = g\<lparr>gw_orders := f (gw_orders g)\<rparr>"

subsection \<open>Requests\<close>

definition post_new_order :: "NewSingleOrderData \<Rightarrow> 't Gateway \<Rightarrow> 't Gateway" where
  "post_new_order data = on_orders (register_pending_request
     (PendingOrderRequest_new\<lparr>pd_client_order_id := ns_cl_order_id data, pd_symbol := ns_symbol data, pd_side := to_common_side (ns_side data),
        pd_price := ns_price data, pd_order_qty := ns_order_qty data, pd_ord_type := ns_ord_type data,
        pd_time_in_force := ns_time_in_force data, pd_position_side := ns_position_side data\<rparr>))"

definition post_cancel_order :: "OrderCancelRequest \<Rightarrow> 't Gateway \<Rightarrow> 't Gateway" where
  "post_cancel_order data = on_orders (register_pending_request
     (PendingOrderRequest_new\<lparr>pd_client_order_id := oc_cl_order_id data, pd_symbol := oc_symbol data,
        pd_position_side := oc_position_side data\<rparr>))"

definition post_cancel_and_reorder :: "OrderCancelAndNewOrderSingle \<Rightarrow> 't Gateway \<Rightarrow> 't Gateway" where
  "post_cancel_and_reorder data = on_orders (register_pending_request
     (PendingOrderRequest_new\<lparr>pd_client_order_id := cn_cl_new_order_id data, pd_symbol := cn_symbol data,
        pd_side := to_common_side (cn_side data), pd_price := cn_price data, pd_order_qty := cn_order_qty data,
        pd_ord_type := cn_ord_type data, pd_time_in_force := cn_time_in_force data, pd_position_side := cn_position_side data\<rparr>))"

definition post_modify_order :: "OrderModifyRequest \<Rightarrow> 't Gateway \<Rightarrow> 't Gateway" where
  "post_modify_order data = on_orders (register_pending_request
     (PendingOrderRequest_new\<lparr>pd_client_order_id := mo_orig_client_order_id data, pd_symbol := mo_symbol data,
        pd_side := to_common_side (mo_side data), pd_price := mo_price data, pd_order_qty := mo_order_qty data,
        pd_ord_type := kLimit, pd_time_in_force := kGoodTillCancel, pd_position_side := mo_position_side data\<rparr>))"

definition post_mass_cancel_order :: "OrderMassCancelRequest \<Rightarrow> 't Gateway \<Rightarrow> 't Gateway" where
  "post_mass_cancel_order data = on_orders (register_pending_request
     (PendingOrderRequest_new\<lparr>pd_client_order_id := mc_cl_order_id data, pd_symbol := mc_symbol data\<rparr>))"

definition new_single_order_data ::
  "('t OutMessage \<Rightarrow> bool) \<Rightarrow> (int64 \<Rightarrow> 't) \<Rightarrow> (int64 \<Rightarrow> 't) \<Rightarrow> Exchange \<Rightarrow> RequestCommon \<Rightarrow> 't Gateway \<Rightarrow> 't Gateway" where
  "new_single_order_data wr fq fp ex request g =
     (let order_data = \<lparr>ns_cl_order_id = rq_cl_order_id request, ns_symbol = rq_symbol request,
            ns_side = from_common_side (rq_side request), ns_order_qty = rq_order_qty request, ns_ord_type = rq_ord_type request,
            ns_price = rq_price request, ns_time_in_force = rq_time_in_force request,
            ns_self_trade_prevention_mode = rq_self_trade_prevention_mode request, ns_position_side = rq_position_side request\<rparr>;
          msg = (case ex of Spot \<Rightarrow> spot_create_order_message fq fp order_data | Futures \<Rightarrow> futures_create_order_message fq fp order_data)
      in post_new_order order_data (app_send wr msg g))"

definition order_cancel_request :: "('t OutMessage \<Rightarrow> bool) \<Rightarrow> Exchange \<Rightarrow> RequestCommon \<Rightarrow> 't Gateway \<Rightarrow> 't Gateway" where
  "order_cancel_request wr ex request g =
     (let cancel_request = \<lparr>oc_cl_order_id = rq_cl_order_id request, oc_orig_cl_order_id = rq_orig_cl_order_id request,
            oc_symbol = rq_symbol request, oc_position_side = rq_position_side request\<rparr>;
          msg = (case ex of Spot \<Rightarrow> spot_create_cancel_order_message cancel_request
                 | Futures \<Rightarrow> futures_create_cancel_order_message cancel_request)
      in post_cancel_order cancel_request (app_send wr msg g))"

definition order_cancel_request_and_new_order_single ::
  "('t OutMessage \<Rightarrow> bool) \<Rightarrow> (int64 \<Rightarrow> 't) \<Rightarrow> (int64 \<Rightarrow> 't) \<Rightarrow> Exchange \<Rightarrow> RequestCommon \<Rightarrow> 't Gateway \<Rightarrow> 't Gateway" where
  "order_cancel_request_and_new_order_single wr fq fp ex request g =
     (let cancel_and_reorder = \<lparr>cn_mode = 1, cn_cancel_new_order_id = rq_cl_cancel_order_id request,
            cn_cl_new_order_id = rq_cl_order_id request, cn_cl_origin_order_id = rq_orig_cl_order_id request,
            cn_symbol = rq_symbol request, cn_side = from_common_side (rq_side request), cn_order_qty = rq_order_qty request,
            cn_ord_type = rq_ord_type request, cn_price = rq_price request, cn_time_in_force = rq_time_in_force request,
            cn_self_trade_prevention_mode = rq_self_trade_prevention_mode request, cn_position_side = rq_position_side request\<rparr>;
          msg = (case ex of Spot \<Rightarrow> spot_create_cancel_and_reorder_message fq fp cancel_and_reorder
                 | Futures \<Rightarrow> futures_create_cancel_and_reorder_message fq fp cancel_and_reorder)
      in post_cancel_and_reorder cancel_and_reorder (app_send wr msg g))"

text \<open>The spot encoder has no modify message; the order manager modifies only where cancel-and-reorder is not supported.\<close>

definition order_modify ::
  "('t OutMessage \<Rightarrow> bool) \<Rightarrow> (int64 \<Rightarrow> 't) \<Rightarrow> (int64 \<Rightarrow> 't) \<Rightarrow> Exchange \<Rightarrow> RequestCommon \<Rightarrow> 't Gateway \<Rightarrow> 't Gateway" where
  "order_modify wr fq fp ex request g =
     (let modify_request = \<lparr>mo_orig_client_order_id = rq_orig_cl_order_id request, mo_symbol = rq_symbol request,
            mo_side = from_common_side (rq_side request), mo_price = rq_price request, mo_order_qty = rq_order_qty request,
            mo_position_side = rq_position_side request\<rparr>;
          msg = (case ex of Spot \<Rightarrow> NoMessage | Futures \<Rightarrow> futures_create_modify_order_message fq fp modify_request)
      in post_modify_order modify_request (app_send wr msg g))"

definition order_mass_cancel_request :: "('t OutMessage \<Rightarrow> bool) \<Rightarrow> Exchange \<Rightarrow> RequestCommon \<Rightarrow> 't Gateway \<Rightarrow> 't Gateway" where
  "order_mass_cancel_request wr ex request g =
     (let all_cancel_request = \<lparr>mc_cl_order_id = rq_cl_order_id request, mc_symbol = rq_symbol request,
            mc_mass_cancel_request_type = CHR ''1''\<rparr>;
          msg = (case ex of Spot \<Rightarrow> spot_create_order_all_cancel all_cancel_request
                 | Futures \<Rightarrow> futures_create_order_all_cancel all_cancel_request)
      in post_mass_cancel_order all_cancel_request (app_send wr msg g))"

definition order_request ::
  "('t OutMessage \<Rightarrow> bool) \<Rightarrow> (int64 \<Rightarrow> 't) \<Rightarrow> (int64 \<Rightarrow> 't) \<Rightarrow> Exchange \<Rightarrow> RequestCommon \<Rightarrow> 't Gateway \<Rightarrow> 't Gateway" where
  "order_request wr fq fp ex request g =
     (case rq_req_type request of
        kNewSingleOrderData \<Rightarrow> new_single_order_data wr fq fp ex request g
      | kOrderCancelRequest \<Rightarrow> order_cancel_request wr ex request g
      | kOrderCancelRequestAndNewOrderSingle \<Rightarrow> order_cancel_request_and_new_order_single wr fq fp ex request g
      | kOrderModify \<Rightarrow> order_modify wr fq fp ex request g
      | kOrderMassCancelRequest \<Rightarrow> order_mass_cancel_request wr ex request g
      | Req_kInvalid \<Rightarrow> g)"

subsection \<open>Callbacks\<close>

definition enqueue_response :: "ResponseCommon \<Rightarrow> 't Gateway \<Rightarrow> 't Gateway" where
  "enqueue_response res g = g\<lparr>gw_queue := fst (enqueue (gw_queue g) res)\<rparr>"

definition on_login :: "'t Gateway \<Rightarrow> 't Gateway" where
  "on_login g = g\<lparr>gw_session_ready := True\<rparr>"

definition on_execution_report :: "'d Dbl \<Rightarrow> Exchange \<Rightarrow> 'd OrderUpdateInfo \<Rightarrow> 't Gateway \<Rightarrow> 't Gateway" where
  "on_execution_report d ex event g =
     (case to_execution_report d ex event (gw_pools g) of (rm, ptr) \<Rightarrow>
        enqueue_response (ResponseCommon_new\<lparr>re_res_type := kExecutionReport, re_execution_report := ptr\<rparr>) (g\<lparr>gw_pools := rm\<rparr>))"

definition on_order_cancel_reject :: "'d OrderUpdateInfo \<Rightarrow> 't Gateway \<Rightarrow> 't Gateway" where
  "on_order_cancel_reject event g =
     (case to_cancel_reject event (gw_pools g) of (rm, ptr) \<Rightarrow>
        enqueue_response (ResponseCommon_new\<lparr>re_res_type := kOrderCancelReject, re_order_cancel_reject := ptr\<rparr>) (g\<lparr>gw_pools := rm\<rparr>))"

definition on_order_mass_cancel_report :: "'d OrderUpdateInfo \<Rightarrow> 't Gateway \<Rightarrow> 't Gateway" where
  "on_order_mass_cancel_report event g =
     (case to_mass_cancel_report event (gw_pools g) of (rm, ptr) \<Rightarrow>
        enqueue_response (ResponseCommon_new\<lparr>re_res_type := kOrderMassCancelReport, re_order_mass_cancel_report := ptr\<rparr>)
          (g\<lparr>gw_pools := rm\<rparr>))"

definition on_logout :: "('t OutMessage \<Rightarrow> bool) \<Rightarrow> 't Gateway \<Rightarrow> 't Gateway" where
  "on_logout wr g = app_send wr SessionLogout g"

definition on_heartbeat :: "('t OutMessage \<Rightarrow> bool) \<Rightarrow> 't Gateway \<Rightarrow> 't Gateway" where
  "on_heartbeat wr g = app_send wr NoMessage g"

text \<open>
  \<^verbatim>\<open>dispatch\<close> looks the callback up; the typed callbacks take the alternative they need out of the variant and throw
  when it holds another. The rejection callback only logs, because the reason is always \<^verbatim>\<open>WebSocket\<close>.
\<close>

definition dispatch :: "('t OutMessage \<Rightarrow> bool) \<Rightarrow> 'd Dbl \<Rightarrow> Exchange \<Rightarrow> string \<Rightarrow> 'd WireMessage \<Rightarrow> 't Gateway \<Rightarrow> 't Gateway option" where
  "dispatch wr d ex typ message g =
     (if typ = ''A'' then Some (on_login g)
      else if typ = ''1'' then Some (on_heartbeat wr g)
      else if typ = ''5'' then Some (on_logout wr g)
      else if typ = ''8'' then (case message of W_ExecutionReport event \<Rightarrow> Some (on_execution_report d ex event g) | _ \<Rightarrow> None)
      else if typ = ''9'' then (case message of W_ExecutionReport event \<Rightarrow> Some (on_order_cancel_reject event g) | _ \<Rightarrow> None)
      else if typ = ''r'' then (case message of W_ExecutionReport event \<Rightarrow> Some (on_order_mass_cancel_report event g) | _ \<Rightarrow> None)
      else if typ = ''3'' then (case message of W_ApiResponse _ \<Rightarrow> Some g | _ \<Rightarrow> None)
      else Some g)"

end
