(* ===== verification/Order_Dispatch.thy ===== *)
theory Order_Dispatch
  imports Order_Gateway
begin

text \<open>
  Decoding and dispatching of exchange messages: the two decoders (\<^verbatim>\<open>spot_ws_oe_decoder.h\<close>,
  \<^verbatim>\<open>futures_ws_oe_decoder.h\<close>), the two dispatch routers (\<^verbatim>\<open>binance_spot_oe_dispatcher.hpp\<close>,
  \<^verbatim>\<open>binance_futures_oe_dispatcher.hpp\<close>) with the connection handlers, and the payload handlers of the application.
  \<open>gw_step\<close> is one event of the gateway: a request of the trade engine or a payload of the exchange.
\<close>

definition kHttpOK :: int where
  "kHttpOK = 200"

subsection \<open>Decoding\<close>

datatype WireType = T_ExecutionReport | T_SessionLogon | T_UserSubscription | T_UserUnsubscription | T_CancelAndReorder
  | T_ModifyOrder | T_CancelAllOrders | T_PlaceOrder | T_CancelOrder | T_ApiResponse | T_BalanceUpdate | T_AccountPosition
  | T_ListenKeyExpired

text \<open>Message types an exchange does not have are \<^verbatim>\<open>std::monostate\<close>; decoding one yields the empty message.\<close>

fun is_monostate :: "Exchange \<Rightarrow> WireType \<Rightarrow> bool" where
  "is_monostate Spot T_ModifyOrder = True"
| "is_monostate Futures T_CancelAndReorder = True"
| "is_monostate Futures T_CancelAllOrders = True"
| "is_monostate _ _ = False"

definition decode_or_log :: "(WireType \<Rightarrow> string \<Rightarrow> 'd WireMessage option) \<Rightarrow> Exchange \<Rightarrow> WireType \<Rightarrow> string \<Rightarrow> 'd WireMessage" where
  "decode_or_log read ex t payload =
     (if is_monostate ex t then W_Monostate else case read t payload of None \<Rightarrow> W_Monostate | Some m \<Rightarrow> m)"

definition starts_with :: "string \<Rightarrow> string \<Rightarrow> bool" where
  "starts_with s p \<longleftrightarrow> take (length p) s = p"

fun contains :: "string \<Rightarrow> string \<Rightarrow> bool" where
  "contains [] p = (p = [])"
| "contains (c # s) p = (starts_with (c # s) p \<or> contains s p)"

definition spot_decode :: "(WireType \<Rightarrow> string \<Rightarrow> 'd WireMessage option) \<Rightarrow> (string \<Rightarrow> string option) \<Rightarrow> string \<Rightarrow> 'd WireMessage" where
  "spot_decode read header payload =
     (let dec = (\<lambda>t. decode_or_log read Spot t payload)
      in if payload = [] then W_Monostate
         else if contains payload ''executionReport'' then dec T_ExecutionReport
         else if contains payload ''outboundAccountPosition'' then dec T_AccountPosition
         else if contains payload ''balanceUpdate'' then dec T_BalanceUpdate
         else case header payload of
                None \<Rightarrow> W_Monostate
              | Some i \<Rightarrow>
                  if starts_with i ''login_'' then dec T_SessionLogon
                  else if starts_with i ''subscribe'' then dec T_UserSubscription
                  else if starts_with i ''unsubscribe'' then dec T_UserUnsubscription
                  else if starts_with i ''order''
                  then if starts_with i ''orderreplace'' then dec T_CancelAndReorder
                       else if starts_with i ''ordercancelAll'' then dec T_CancelAllOrders
                       else if starts_with i ''ordercancel'' then dec T_CancelOrder
                       else dec T_PlaceOrder
                  else dec T_ApiResponse)"

definition decode_id_response :: "(WireType \<Rightarrow> string \<Rightarrow> 'd WireMessage option) \<Rightarrow> string \<Rightarrow> 'd WireMessage" where
  "decode_id_response read payload =
     (let dec = (\<lambda>t. decode_or_log read Futures t payload); id_char = payload ! 7
      in if id_char = CHR ''s'' then dec T_UserSubscription
         else if id_char = CHR ''u'' then dec T_UserUnsubscription
         else if id_char = CHR ''l'' then dec T_SessionLogon
         else if id_char = kOrderPlace then dec T_PlaceOrder
         else if id_char = kOrderCancel then dec T_CancelOrder
         else if id_char = kOrderReplace then dec T_CancelAndReorder
         else if id_char = kOrderModify_id then dec T_CancelAndReorder
         else dec T_ApiResponse)"

definition futures_decode :: "(WireType \<Rightarrow> string \<Rightarrow> 'd WireMessage option) \<Rightarrow> string \<Rightarrow> 'd WireMessage" where
  "futures_decode read payload =
     (let dec = (\<lambda>t. decode_or_log read Futures t payload)
      in if length payload < 8 then W_Monostate
         else let event_char = payload ! 6
              in if event_char = CHR ''O'' then dec T_ExecutionReport
                 else if event_char = CHR ''T'' then W_Monostate
                 else if event_char = CHR ''A'' then dec T_BalanceUpdate
                 else if event_char = CHR ''l'' then dec T_ListenKeyExpired
                 else if payload ! 2 = CHR ''i'' then decode_id_response read payload
                 else dec T_ApiResponse)"

subsection \<open>Handlers\<close>

text \<open>The reject reason that marks a cancelled order as not refused.\<close>

fun no_reason :: "Exchange \<Rightarrow> string" where
  "no_reason Spot = ''NONE''"
| "no_reason Futures = ''0''"

definition handle_execution_report_message ::
  "('t OutMessage \<Rightarrow> bool) \<Rightarrow> 'd Dbl \<Rightarrow> Exchange \<Rightarrow> 'd OrderUpdateInfo \<Rightarrow> 't Gateway \<Rightarrow> 't Gateway option" where
  "handle_execution_report_message wr d ex event g =
     (let dispatch_type = (if ev_execution_type event = ''CANCELED'' \<and> ev_reject_reason event \<noteq> no_reason ex then ''9'' else ''8'')
      in map_option (on_orders (\<lambda>w. remove_cancel_and_reorder_pair (ev_client_order_id event) (remove_pending_request (ev_client_order_id event) w)))
           (dispatch wr d ex dispatch_type (W_ExecutionReport event) g))"

text \<open>A refused request: fabricate its report and dispatch it when the request id could be read.\<close>

definition dispatch_synthetic ::
  "('t OutMessage \<Rightarrow> bool) \<Rightarrow> 'd Dbl \<Rightarrow> Exchange \<Rightarrow> string \<Rightarrow> string \<Rightarrow> ErrorResponse \<Rightarrow> 't Gateway \<Rightarrow> 't Gateway option" where
  "dispatch_synthetic wr d ex ticker request_id error g =
     (case create_synthetic_execution_report d ex ticker request_id (err_message error) (gw_orders g) of (report, w) \<Rightarrow>
        let g1 = g\<lparr>gw_orders := w\<rparr>
        in case report of None \<Rightarrow> Some g1 | Some event \<Rightarrow> dispatch wr d ex ''8'' (W_ExecutionReport event) g1)"

definition handle_failed_response ::
  "('t OutMessage \<Rightarrow> bool) \<Rightarrow> 'd Dbl \<Rightarrow> Exchange \<Rightarrow> string \<Rightarrow> ApiResponse \<Rightarrow> 't Gateway \<Rightarrow> 't Gateway option" where
  "handle_failed_response wr d ex ticker response g =
     (case rs_error response of
        Some error \<Rightarrow> if rs_status response \<noteq> kHttpOK then dispatch_synthetic wr d ex ticker (rs_id response) error g else Some g
      | None \<Rightarrow> Some g)"

definition spot_handle_place_order_response ::
  "('t OutMessage \<Rightarrow> bool) \<Rightarrow> 'd Dbl \<Rightarrow> string \<Rightarrow> ApiResponse \<Rightarrow> 't Gateway \<Rightarrow> 't Gateway option" where
  "spot_handle_place_order_response wr d = handle_failed_response wr d Spot"

definition spot_handle_cancel_all_response ::
  "('t OutMessage \<Rightarrow> bool) \<Rightarrow> 'd Dbl \<Rightarrow> string \<Rightarrow> ApiResponse \<Rightarrow> 't Gateway \<Rightarrow> 't Gateway option" where
  "spot_handle_cancel_all_response wr d = handle_failed_response wr d Spot"

definition futures_handle_place_order_response ::
  "('t OutMessage \<Rightarrow> bool) \<Rightarrow> 'd Dbl \<Rightarrow> string \<Rightarrow> ApiResponse \<Rightarrow> 't Gateway \<Rightarrow> 't Gateway option" where
  "futures_handle_place_order_response wr d = handle_failed_response wr d Futures"

definition futures_handle_modify_order_response ::
  "('t OutMessage \<Rightarrow> bool) \<Rightarrow> 'd Dbl \<Rightarrow> string \<Rightarrow> ApiResponse \<Rightarrow> 't Gateway \<Rightarrow> 't Gateway option" where
  "futures_handle_modify_order_response wr d = handle_failed_response wr d Futures"

definition handle_api_response ::
  "('t OutMessage \<Rightarrow> bool) \<Rightarrow> 'd Dbl \<Rightarrow> Exchange \<Rightarrow> ApiResponse \<Rightarrow> 't Gateway \<Rightarrow> 't Gateway option" where
  "handle_api_response wr d ex response g =
     (if rs_status response \<noteq> kHttpOK \<and> rs_error response \<noteq> None then dispatch wr d ex ''8'' (W_ApiResponse response) g else Some g)"

definition handle_cancel_and_reorder_response ::
  "('t OutMessage \<Rightarrow> bool) \<Rightarrow> 'd Dbl \<Rightarrow> Exchange \<Rightarrow> string \<Rightarrow> ApiResponse \<Rightarrow> 't Gateway \<Rightarrow> 't Gateway option" where
  "handle_cancel_and_reorder_response wr d ex ticker response g =
     (case rs_error response of
        None \<Rightarrow> Some g
      | Some error \<Rightarrow>
          if rs_status response = kHttpOK then Some g
          else case err_data error of
            None \<Rightarrow> Some g
          | Some (cancel_result, new_order_result) \<Rightarrow>
              (case extract_client_order_id (rs_id response) of
                 None \<Rightarrow> Some g
               | Some new_order_id \<Rightarrow>
                   (case get_original_order_id new_order_id (gw_orders g) of
                      None \<Rightarrow> dispatch_synthetic wr d ex ticker (rs_id response) error g
                    | Some original_order_id \<Rightarrow>
                        (case (if new_order_result \<noteq> ''SUCCESS'' then dispatch_synthetic wr d ex ticker (rs_id response) error g else Some g) of
                           None \<Rightarrow> None
                         | Some g1 \<Rightarrow>
                             map_option
                               (on_orders (\<lambda>w. remove_cancel_and_reorder_pair new_order_id
                                  (remove_pending_request original_order_id (remove_pending_request new_order_id w))))
                               (if cancel_result = ''FAILURE'' \<and> new_order_result \<noteq> ''SUCCESS''
                                then dispatch_synthetic wr d ex ticker (''ordercancel_'' @ to_string_u64 original_order_id) error g1
                                else Some g1)))))"

definition handle_cancel_order_response :: "ApiResponse \<Rightarrow> 't Gateway \<Rightarrow> 't Gateway" where
  "handle_cancel_order_response response g =
     (case extract_client_order_id (rs_id response) of
        Some client_order_id \<Rightarrow> on_orders (remove_pending_request client_order_id) g
      | None \<Rightarrow> g)"

definition spot_handle_session_logon ::
  "('t OutMessage \<Rightarrow> bool) \<Rightarrow> 'd Dbl \<Rightarrow> ApiResponse \<Rightarrow> 't Gateway \<Rightarrow> 't Gateway option" where
  "spot_handle_session_logon wr d response g =
     dispatch wr d Spot ''A'' (W_SessionLogon response)
       (if rs_status response = kHttpOK then app_send wr UserDataStreamSubscribe g else g)"

definition futures_handle_session_logon ::
  "('t OutMessage \<Rightarrow> bool) \<Rightarrow> 'd Dbl \<Rightarrow> ApiResponse \<Rightarrow> 't Gateway \<Rightarrow> 't Gateway option" where
  "futures_handle_session_logon wr d response g =
     dispatch wr d Futures ''A'' (W_SessionLogon response)
       (if rs_status response = kHttpOK then app_send wr UserDataStreamSubscribe g else g)"

definition spot_handle_user_subscription :: "ApiResponse \<Rightarrow> 't Gateway \<Rightarrow> 't Gateway" where
  "spot_handle_user_subscription response g = (if rs_status response \<noteq> kHttpOK then g else g\<lparr>gw_session_ready := True\<rparr>)"

definition futures_handle_user_subscription :: "ApiResponse \<Rightarrow> string option \<Rightarrow> 't Gateway \<Rightarrow> 't Gateway" where
  "futures_handle_user_subscription response listen_key g =
     (if rs_status response \<noteq> kHttpOK then g
      else case listen_key of
             Some k \<Rightarrow> if k \<noteq> [] then g\<lparr>gw_listen_key := Some k\<rparr> else g
           | None \<Rightarrow> g)"

subsection \<open>Routers\<close>

definition spot_process_message ::
  "('t OutMessage \<Rightarrow> bool) \<Rightarrow> 'd Dbl \<Rightarrow> string \<Rightarrow> 'd WireMessage \<Rightarrow> 't Gateway \<Rightarrow> 't Gateway option" where
  "spot_process_message wr d ticker message g =
     (case message of
        W_ExecutionReport event \<Rightarrow> handle_execution_report_message wr d Spot event g
      | W_SessionLogon r \<Rightarrow> spot_handle_session_logon wr d r g
      | W_UserSubscription r _ \<Rightarrow> Some (spot_handle_user_subscription r g)
      | W_CancelAndReorder r \<Rightarrow> handle_cancel_and_reorder_response wr d Spot ticker r g
      | W_CancelAllOrders r \<Rightarrow> spot_handle_cancel_all_response wr d ticker r g
      | W_PlaceOrder r \<Rightarrow> spot_handle_place_order_response wr d ticker r g
      | W_ApiResponse r \<Rightarrow> handle_api_response wr d Spot r g
      | _ \<Rightarrow> Some g)"

definition futures_process_message ::
  "('t OutMessage \<Rightarrow> bool) \<Rightarrow> 'd Dbl \<Rightarrow> string \<Rightarrow> 'd WireMessage \<Rightarrow> 't Gateway \<Rightarrow> 't Gateway option" where
  "futures_process_message wr d ticker message g =
     (case message of
        W_ExecutionReport event \<Rightarrow> handle_execution_report_message wr d Futures event g
      | W_SessionLogon r \<Rightarrow> futures_handle_session_logon wr d r g
      | W_UserSubscription r k \<Rightarrow> Some (futures_handle_user_subscription r k g)
      | W_ModifyOrder r \<Rightarrow> futures_handle_modify_order_response wr d ticker r g
      | W_PlaceOrder r \<Rightarrow> futures_handle_place_order_response wr d ticker r g
      | W_CancelOrder r \<Rightarrow> Some (handle_cancel_order_response r g)
      | W_ApiResponse r \<Rightarrow> handle_api_response wr d Futures r g
      | W_ListenKeyExpired \<Rightarrow> Some (app_send wr UserDataStreamSubscribe g)
      | _ \<Rightarrow> Some g)"

fun process_message :: "('t OutMessage \<Rightarrow> bool) \<Rightarrow> 'd Dbl \<Rightarrow> Exchange \<Rightarrow> string \<Rightarrow> 'd WireMessage \<Rightarrow> 't Gateway \<Rightarrow> 't Gateway option" where
  "process_message wr d Spot = spot_process_message wr d"
| "process_message wr d Futures = futures_process_message wr d"

subsection \<open>Payloads\<close>

fun decode :: "(WireType \<Rightarrow> string \<Rightarrow> 'd WireMessage option) \<Rightarrow> (string \<Rightarrow> string option) \<Rightarrow> Exchange \<Rightarrow> string \<Rightarrow> 'd WireMessage" where
  "decode read header Spot = spot_decode read header"
| "decode read header Futures = futures_decode read"

definition handle_api_payload ::
  "('t OutMessage \<Rightarrow> bool) \<Rightarrow> 'd Dbl \<Rightarrow> (WireType \<Rightarrow> string \<Rightarrow> 'd WireMessage option) \<Rightarrow> (string \<Rightarrow> string option) \<Rightarrow> Exchange \<Rightarrow> string
    \<Rightarrow> string \<Rightarrow> 't Gateway \<Rightarrow> 't Gateway option" where
  "handle_api_payload wr d read header ex ticker payload g =
     (if payload = [] then Some g
      else if payload = ''__CONNECTED__'' then Some (app_send wr SessionLogon g)
      else case decode read header ex payload of W_Monostate \<Rightarrow> Some g | m \<Rightarrow> process_message wr d ex ticker m g)"

definition handle_stream_payload ::
  "('t OutMessage \<Rightarrow> bool) \<Rightarrow> 'd Dbl \<Rightarrow> (WireType \<Rightarrow> string \<Rightarrow> 'd WireMessage option) \<Rightarrow> (string \<Rightarrow> string option) \<Rightarrow> Exchange \<Rightarrow> string
    \<Rightarrow> string \<Rightarrow> 't Gateway \<Rightarrow> 't Gateway option" where
  "handle_stream_payload wr d read header ex ticker payload g =
     (if \<not> requires_stream_transport ex then Some g
      else if payload = [] then Some g
      else if payload = ''__CONNECTED__'' then Some (g\<lparr>gw_session_ready := True\<rparr>)
      else case decode read header ex payload of W_Monostate \<Rightarrow> Some g | m \<Rightarrow> process_message wr d ex ticker m g)"

subsection \<open>Steps of the gateway\<close>

text \<open>
  Requests and payloads in any order; whether a write succeeds may differ from step to step. The trade engine
  empties the queue and returns blocks to the pools, and the gateway does not depend on how.
\<close>

inductive gw_step :: "'d Dbl \<Rightarrow> Exchange \<Rightarrow> string \<Rightarrow> 't Gateway \<Rightarrow> 't Gateway \<Rightarrow> bool" for d ex ticker where
  step_request: "gw_step d ex ticker g (order_request wr fq fp ex request g)"
| step_api: "handle_api_payload wr d read header ex ticker payload g = Some g' \<Longrightarrow> gw_step d ex ticker g g'"
| step_stream: "handle_stream_payload wr d read header ex ticker payload g = Some g' \<Longrightarrow> gw_step d ex ticker g g'"
| step_engine: "gw_step d ex ticker g (g\<lparr>gw_queue := q, gw_pools := rm\<rparr>)"

subsection \<open>Lemmas\<close>

abbreviation gw_pairs :: "'t Gateway \<Rightarrow> u64 \<rightharpoonup> u64" where
  "gw_pairs g \<equiv> wm_cancel_reorder_pairs (gw_orders g)"

lemma orders_frame [simp]:
  "gw_orders (app_send wr msg g) = gw_orders g" "gw_orders (on_login g) = gw_orders g"
  "gw_orders (enqueue_response res g) = gw_orders g" "gw_orders (on_execution_report d ex event g) = gw_orders g"
  "gw_orders (on_order_cancel_reject event g) = gw_orders g" "gw_orders (on_order_mass_cancel_report event g) = gw_orders g"
  by (simp_all add: app_send_def on_login_def enqueue_response_def on_execution_report_def on_order_cancel_reject_def
      on_order_mass_cancel_report_def split: OutMessage.split prod.split)

lemma dispatch_orders: "dispatch wr d ex typ m g = Some g' \<Longrightarrow> gw_orders g' = gw_orders g"
  by (auto simp: dispatch_def on_heartbeat_def on_logout_def split: if_splits WireMessage.splits)

lemma order_request_pairs: "gw_pairs (order_request wr fq fp ex request g) = gw_pairs g"
  by (simp add: order_request_def new_single_order_data_def order_cancel_request_def order_cancel_request_and_new_order_single_def
      order_modify_def order_mass_cancel_request_def post_new_order_def post_cancel_order_def post_cancel_and_reorder_def
      post_modify_order_def post_mass_cancel_order_def Let_def on_orders_def split: ReqeustType.split)

lemma dispatch_synthetic_pairs: "dispatch_synthetic wr d ex ticker i e g = Some g' \<Longrightarrow> gw_pairs g' = gw_pairs g"
  using synthetic_frame [of d ex ticker i "err_message e" "gw_orders g"]
  by (cases "create_synthetic_execution_report d ex ticker i (err_message e) (gw_orders g)")
     (auto simp: dispatch_synthetic_def Let_def split: option.splits dest: dispatch_orders)

lemma failed_response_pairs: "handle_failed_response wr d ex ticker r g = Some g' \<Longrightarrow> gw_pairs g' = gw_pairs g"
  by (auto simp: handle_failed_response_def split: option.splits if_splits dest: dispatch_synthetic_pairs)

lemma reorder_response_pairs:
  "gw_pairs g = Map.empty \<Longrightarrow> handle_cancel_and_reorder_response wr d ex ticker r g = Some g' \<Longrightarrow> gw_pairs g' = Map.empty"
  by (auto simp: handle_cancel_and_reorder_response_def get_original_order_id_def split: option.splits if_splits
      dest!: dispatch_synthetic_pairs)

lemma report_message_pairs:
  "gw_pairs g = Map.empty \<Longrightarrow> handle_execution_report_message wr d ex event g = Some g' \<Longrightarrow> gw_pairs g' = Map.empty"
  by (auto simp: handle_execution_report_message_def Let_def on_orders_def remove_cancel_and_reorder_pair_def dest: dispatch_orders)

lemma process_message_pairs:
  "gw_pairs g = Map.empty \<Longrightarrow> process_message wr d ex ticker m g = Some g' \<Longrightarrow> gw_pairs g' = Map.empty"
  by (cases ex; cases m)
     (auto simp: spot_process_message_def futures_process_message_def spot_handle_session_logon_def futures_handle_session_logon_def
        spot_handle_user_subscription_def futures_handle_user_subscription_def spot_handle_place_order_response_def
        spot_handle_cancel_all_response_def futures_handle_place_order_response_def futures_handle_modify_order_response_def
        handle_api_response_def handle_cancel_order_response_def on_orders_def
        dest: report_message_pairs reorder_response_pairs failed_response_pairs dispatch_orders split: option.splits if_splits)

lemma decoded_pairs:
  assumes "gw_pairs g = Map.empty" "(case m of W_Monostate \<Rightarrow> Some g | m \<Rightarrow> process_message wr d ex ticker m g) = Some g'"
  shows "gw_pairs g' = Map.empty"
  using assms process_message_pairs [OF assms(1), of wr d ex ticker m g'] by (cases m) simp_all

lemma gw_step_pairs: "gw_step d ex ticker g g' \<Longrightarrow> gw_pairs g = Map.empty \<Longrightarrow> gw_pairs g' = Map.empty"
proof (induction rule: gw_step.induct)
  case (step_request g wr fq fp request)
  then show ?case by (simp add: order_request_pairs)
next
  case (step_api wr read header payload g g')
  then show ?case by (auto simp: handle_api_payload_def split: if_splits dest: decoded_pairs)
next
  case (step_stream wr read header payload g g')
  then show ?case by (auto simp: handle_stream_payload_def split: if_splits dest: decoded_pairs)
qed simp

lemma gw_steps_pairs: "(gw_step d ex ticker)\<^sup>*\<^sup>* g g' \<Longrightarrow> gw_pairs g = Map.empty \<Longrightarrow> gw_pairs g' = Map.empty"
  by (induction rule: rtranclp_induct) (simp_all add: gw_step_pairs)

text \<open>Room for one more execution report.\<close>

definition channel_ok :: "'t Gateway \<Rightarrow> bool" where
  "channel_ok g \<longleftrightarrow> pool_inv (rm_execution_report_pool (gw_pools g))
     \<and> card (pool_live (rm_execution_report_pool (gw_pools g))) < pool_capacity (rm_execution_report_pool (gw_pools g))
     \<and> spsc_inv (gw_queue g) \<and> length (q_list (gw_queue g)) < q_cap (gw_queue g)"

text \<open>A response with a report: the block it points to is live and holds the report.\<close>

definition report_queued :: "'t Gateway \<Rightarrow> 't Gateway \<Rightarrow> int \<Rightarrow> ExecutionReport \<Rightarrow> bool" where
  "report_queued g g' ptr rep \<longleftrightarrow>
     q_list (gw_queue g') = q_list (gw_queue g) @ [ResponseCommon_new\<lparr>re_res_type := kExecutionReport, re_execution_report := Some ptr\<rparr>]
     \<and> spsc_inv (gw_queue g') \<and> pool_inv (rm_execution_report_pool (gw_pools g'))
     \<and> ptr \<notin> pool_live (rm_execution_report_pool (gw_pools g))
     \<and> pool_live (rm_execution_report_pool (gw_pools g')) = insert ptr (pool_live (rm_execution_report_pool (gw_pools g)))
     \<and> pool_get (rm_execution_report_pool (gw_pools g')) ptr = rep"

lemma on_execution_report_queued:
  assumes "channel_ok g"
  obtains ptr where "report_queued g (on_execution_report d ex event g) ptr (to_report d ex event)"
proof -
  let ?p = "rm_execution_report_pool (gw_pools g)"
  have inv: "pool_inv ?p" and room: "card (pool_live ?p) < pool_capacity ?p" and q: "spsc_inv (gw_queue g)"
    "length (q_list (gw_queue g)) < q_cap (gw_queue g)" using assms by (simp_all add: channel_ok_def)
  obtain p' ptr where a: "pool_allocate ?p (to_report d ex event) = (p', Some ptr)" by (rule pool.alloc_succeeds [OF inv room])
  have "report_queued g (on_execution_report d ex event g) ptr (to_report d ex event)"
    using pool.alloc_some [OF inv a] ring.enq_ok [OF q] ring.enq_inv [OF q(1)] a
    by (simp add: report_queued_def on_execution_report_def to_execution_report_def execution_report_allocate_def enqueue_response_def)
  then show ?thesis by (rule that)
qed

lemma spot_refusal_reported:
  assumes "channel_ok g" "wm_pending_requests (gw_orders g) i = Some p"
    and "extract_client_order_id (rs_id r) = Some i" "rs_status r \<noteq> kHttpOK" "rs_error r = Some e"
  obtains g' ptr where "spot_process_message wr d ticker (W_PlaceOrder r) g = Some g'"
    "report_queued g g' ptr (to_report d Spot (synthetic_event d Spot ticker i (err_message e) (Some p)))"
    "wm_pending_requests (gw_orders g') i = None"
proof -
  let ?g1 = "g\<lparr>gw_orders := remove_pending_request i (gw_orders g)\<rparr>"
  let ?ev = "synthetic_event d Spot ticker i (err_message e) (Some p)"
  have c: "channel_ok ?g1" using assms(1) by (simp add: channel_ok_def)
  obtain ptr where rq: "report_queued ?g1 (on_execution_report d Spot ?ev ?g1) ptr (to_report d Spot ?ev)"
    by (rule on_execution_report_queued [OF c])
  have "spot_process_message wr d ticker (W_PlaceOrder r) g = Some (on_execution_report d Spot ?ev ?g1)"
    using assms(2-5) by (simp add: spot_process_message_def spot_handle_place_order_response_def handle_failed_response_def
        dispatch_synthetic_def create_synthetic_execution_report_def dispatch_def Let_def)
  moreover have "report_queued g (on_execution_report d Spot ?ev ?g1) ptr (to_report d Spot ?ev)" using rq by (simp add: report_queued_def)
  ultimately show ?thesis by (rule that) (simp add: remove_pending_request_def)
qed

text \<open>
  The table of cancel-and-reorder pairs is never filled: in every state the gateway can reach by any sequence of
  requests and payloads the lookup of the original order fails. So whatever the exchange reports about the cancel
  and the new order of a refused cancel-and-reorder, the gateway fabricates one rejection, of the new order.
\<close>

lemma reorder_pairs_never_known:
  assumes "(gw_step d ex ticker)\<^sup>*\<^sup>* (gateway_new rm) g"
    and "rs_error r = Some e" "rs_status r \<noteq> kHttpOK" "err_data e = Some results" "extract_client_order_id (rs_id r) = Some i"
  shows "get_original_order_id i (gw_orders g) = None
     \<and> handle_cancel_and_reorder_response wr d ex ticker r g = dispatch_synthetic wr d ex ticker (rs_id r) e g"
proof -
  have "gw_pairs g = Map.empty" using gw_steps_pairs [OF assms(1)] by (simp add: gateway_new_def WsOrderManager_new_def)
  then have "get_original_order_id i (gw_orders g) = None" by (simp add: get_original_order_id_def)
  then show ?thesis using assms(2-5) by (simp add: handle_cancel_and_reorder_response_def case_prod_beta)
qed

definition demo_dbl :: "int Dbl" where
  "demo_dbl = \<lparr>d_zero = 0, d_sub = (-), d_max = max, qty_from_double = id, price_from_double = id, qty_to_double = id, price_to_double = id\<rparr>"

definition demo_pools :: ResponseManager where
  "demo_pools = \<lparr>rm_execution_report_pool = pool_new 2 8 \<lparr>er_cl_order_id = 0, er_symbol = [], er_exec_type = Exec_kNew,
       er_ord_status = Ord_kInvalid, er_cum_qty = 0, er_leaves_qty = 0, er_last_qty = 0, er_error_code = 0, er_price = 0, er_side = kBuy,
       er_text = [], er_position_side = None\<rparr>,
     rm_order_cancel_reject_pool = pool_new 2 8 \<lparr>cj_cl_order_id = 0, cj_symbol = [], cj_error_code = 0, cj_text = []\<rparr>,
     rm_order_mass_cancel_report_pool = pool_new 2 8 \<lparr>mr_cl_order_id = 0, mr_symbol = [], mr_mass_cancel_request_type = CHR ''7'',
       mr_mass_cancel_response = kCancelSymbolOrders, mr_total_affected_orders = 0, mr_error_code = 0, mr_text = []\<rparr>\<rparr>"

lemma demo_id_text: "to_string_u64 42 = ''42''"
  by code_simp

definition demo_reorder :: RequestCommon where
  "demo_reorder = RequestCommon_default\<lparr>rq_req_type := kOrderCancelRequestAndNewOrderSingle, rq_cl_cancel_order_id := 41,
     rq_cl_order_id := 42, rq_orig_cl_order_id := 40, rq_side := kBuy\<rparr>"

text \<open>
  C39. On futures no refusal reaches the trade engine: a response to an order, cancel or modify request carries an id
  the gateway cannot read, and processing it leaves the whole gateway as it was, so the pending request stays and
  nothing is queued, whatever the status. The response to a modify does not even reach its handler: its payload
  decodes to the empty message.
\<close>

theorem futures_refusals_lost:
  assumes "rs_id r \<in> {message_id (futures_create_order_message fq fp order), message_id (futures_create_cancel_order_message cancel),
      message_id (futures_create_modify_order_message fq fp modify)}"
  shows "futures_process_message wr d ticker (W_PlaceOrder r) g = Some g
     \<and> futures_process_message wr d ticker (W_ModifyOrder r) g = Some g
     \<and> futures_process_message wr d ticker (W_CancelOrder r) g = Some g
     \<and> futures_decode read (CHR ''{'' # CHR 0x22 # CHR ''i'' # CHR ''d'' # CHR 0x22 # CHR '':'' # CHR 0x22 # kOrderModify_id # rest) = W_Monostate"
proof -
  have "extract_client_order_id (rs_id r) = None"
    using assms futures_ids_unreadable by auto
  then have "dispatch_synthetic wr d Futures ticker (rs_id r) e g = Some g" "handle_cancel_order_response r g = g" for e
    by (simp_all add: dispatch_synthetic_def create_synthetic_execution_report_def handle_cancel_order_response_def)
  then show ?thesis
    by (simp add: futures_process_message_def futures_handle_place_order_response_def futures_handle_modify_order_response_def
        handle_failed_response_def futures_decode_def decode_id_response_def decode_or_log_def
        kOrderPlace_def kOrderCancel_def kOrderReplace_def kOrderModify_id_def split: option.split)
qed

definition demo_order :: NewSingleOrderData where
  "demo_order = \<lparr>ns_cl_order_id = 42, ns_symbol = ''BTCUSDT'', ns_side = Os_kBuy, ns_order_qty = 5, ns_ord_type = kLimit, ns_price = 100,
     ns_time_in_force = kGoodTillCancel, ns_self_trade_prevention_mode = kExpireTaker, ns_position_side = Some kLong\<rparr>"

theorem futures_refusals_lost_witness:
  "futures_process_message (\<lambda>_. True) demo_dbl ''BTCUSDT'' (W_PlaceOrder \<lparr>rs_id = ''p42'', rs_status = 400,
      rs_error = Some \<lparr>err_code = - 2019, err_message = ''Margin is insufficient.'', err_data = None\<rparr>\<rparr>)
     (post_new_order demo_order (gateway_new demo_pools)) = Some (post_new_order demo_order (gateway_new demo_pools))"
proof -
  let ?r = "\<lparr>rs_id = ''p42'', rs_status = 400, rs_error = Some \<lparr>err_code = - 2019, err_message = ''Margin is insufficient.'', err_data = None\<rparr>\<rparr>"
  have "rs_id ?r = message_id (futures_create_order_message id id demo_order)"
    by (simp add: futures_create_order_message_def demo_order_def kOrderPlace_def demo_id_text)
  then have "rs_id ?r \<in> {message_id (futures_create_order_message id id demo_order), message_id (futures_create_cancel_order_message c),
      message_id (futures_create_modify_order_message id id m)}" for c m by (simp only: insert_iff simp_thms)
  note this [THEN futures_refusals_lost, THEN conjunct1]
  then show ?thesis .
qed

end
