(* ===== verification/Trade_Engine.thy ===== *)
theory Trade_Engine
  imports Order_Dispatch Order_Manager_Steps
begin

text \<open>
  The trade engine (\<^verbatim>\<open>hft/src/trade_engine.hpp\<close>): it feeds market data to the order book of the ticker, gives execution
  reports to the position keeper, the strategy and the order manager, and hands requests to the gateway. The two
  loops of \<^verbatim>\<open>run\<close> are \<open>drain_batch\<close>, on the ring buffer of \<open>SPSC_Queue\<close>: what the producer thread enqueues just before the
  \<open>i\<close>-th dequeue is the \<open>i\<close>-th element of \<open>env\<close>. The update of an order book and the callback of the strategy are
  arguments (\<open>upd\<close>, \<open>strat\<close>): both are compile-time choices. \<^term>\<open>None\<close> is a crash.
  The blocks of market data messages are not tracked; those of responses are.
\<close>

record ('b, 's) TradeEngine =
  te_ticker_order_book :: "string \<rightharpoonup> 'b"
  te_position_keeper :: "string \<rightharpoonup> PositionInfo"
  te_strategy :: 's
  te_order_manager :: OrderManager

definition kMarketDataBatchLimit :: nat where
  "kMarketDataBatchLimit = 128"

definition kResponseBatchLimit :: nat where
  "kResponseBatchLimit = 64"

definition engine_on_order_updated ::
  "(ExecutionReport \<Rightarrow> (string \<rightharpoonup> PositionInfo) \<Rightarrow> 's \<Rightarrow> 's) \<Rightarrow> OMConfig \<Rightarrow> u64 \<Rightarrow> ExecutionReport \<Rightarrow> ('b, 's) TradeEngine \<Rightarrow> ('b, 's) TradeEngine option" where
  "engine_on_order_updated strat cfg now report e =
     (case (if er_exec_type report = Exec_kTrade then keeper_add_fill (te_position_keeper e) report else Some (te_position_keeper e)) of
        None \<Rightarrow> None
      | Some keeper \<Rightarrow>
          Some (e\<lparr>te_position_keeper := keeper, te_strategy := strat report keeper (te_strategy e),
                  te_order_manager := on_order_updated cfg now report (te_order_manager e)\<rparr>))"

definition engine_send_request ::
  "('t OutMessage \<Rightarrow> bool) \<Rightarrow> (int64 \<Rightarrow> 't) \<Rightarrow> (int64 \<Rightarrow> 't) \<Rightarrow> Exchange \<Rightarrow> bool \<Rightarrow> RequestCommon \<Rightarrow> 't Gateway \<Rightarrow> 't Gateway" where
  "engine_send_request wr fq fp ex order_request_handler request g =
     (if order_request_handler then order_request wr fq fp ex request g else g)"

text \<open>One response; the report is read through its pointer and its block is returned afterwards.\<close>

definition handle_response ::
  "(ExecutionReport \<Rightarrow> (string \<rightharpoonup> PositionInfo) \<Rightarrow> 's \<Rightarrow> 's) \<Rightarrow> OMConfig \<Rightarrow> u64 \<Rightarrow> ResponseCommon
    \<Rightarrow> ('b, 's) TradeEngine \<times> ResponseManager \<Rightarrow> (('b, 's) TradeEngine \<times> ResponseManager) option" where
  "handle_response strat cfg now response st = (case st of (e, rm) \<Rightarrow>
     (case re_res_type response of
        kExecutionReport \<Rightarrow>
          (case re_execution_report response of
             None \<Rightarrow> None
           | Some ptr \<Rightarrow>
               map_option (\<lambda>e'. (e', execution_report_deallocate (Some ptr) rm))
                 (engine_on_order_updated strat cfg now (pool_get (rm_execution_report_pool rm) ptr) e))
      | kOrderCancelReject \<Rightarrow>
          (case re_order_cancel_reject response of None \<Rightarrow> None | Some ptr \<Rightarrow> Some (e, order_cancel_reject_deallocate (Some ptr) rm))
      | kOrderMassCancelReport \<Rightarrow>
          (case re_order_mass_cancel_report response of None \<Rightarrow> None | Some ptr \<Rightarrow> Some (e, order_mass_cancel_report_deallocate (Some ptr) rm))
      | Res_kInvalid \<Rightarrow> Some (e, rm)))"

text \<open>The entries of one market data message.\<close>

fun apply_market_data :: "('b \<Rightarrow> MarketData \<Rightarrow> 'b option) \<Rightarrow> MarketData list \<Rightarrow> (string \<rightharpoonup> 'b) \<Rightarrow> (string \<rightharpoonup> 'b) option" where
  "apply_market_data upd [] books = Some books"
| "apply_market_data upd (market_data # rest) books =
     (case books (md_ticker_id market_data) of
        None \<Rightarrow> None
      | Some book \<Rightarrow>
          (case upd book market_data of
             None \<Rightarrow> None
           | Some book' \<Rightarrow> apply_market_data upd rest (books(md_ticker_id market_data \<mapsto> book'))))"

subsection \<open>The batch loops\<close>

lemma dequeue_size: "dequeue q = (q', Some m) \<Longrightarrow> q_size q' < q_size q"
proof -
  assume "dequeue q = (q', Some m)"
  then have d: "sq_head q - sq_tail q \<noteq> 0" and q': "q' = q\<lparr>sq_tail := sq_tail q + 1\<rparr>"
    by (auto simp: dequeue_def Let_def split: if_splits)
  have "unat (sq_head q - sq_tail q - 1) < unat (sq_head q - sq_tail q)" using d by (simp add: unat_minus_one unat_gt_0)
  then show ?thesis by (simp add: q_size_def q' algebra_simps)
qed

definition arrive :: "'m list \<Rightarrow> 'm spsc \<Rightarrow> 'm spsc" where
  "arrive ms q = fold (\<lambda>m q. fst (enqueue q m)) ms q"

text \<open>
  \<^verbatim>\<open>while (queue->dequeue(message) && processed < limit)\<close>: the message is taken before the count is tested. The body \<open>f\<close> says
  whether the message counts; a null message does not.
\<close>

function drain_batch :: "('m \<Rightarrow> 's \<Rightarrow> ('s \<times> bool) option) \<Rightarrow> nat \<Rightarrow> nat \<Rightarrow> 'm list list \<Rightarrow> 'm spsc \<Rightarrow> 's \<Rightarrow> ('m spsc \<times> 's \<times> nat) option" where
  "drain_batch f limit n env q s =
     (case dequeue (case env of [] \<Rightarrow> q | ms # _ \<Rightarrow> arrive ms q) of
        (q', None) \<Rightarrow> Some (q', s, n)
      | (q', Some m) \<Rightarrow>
          if n < limit
          then (case f m s of
                  None \<Rightarrow> None
                | Some (s', counted) \<Rightarrow> drain_batch f limit (if counted then Suc n else n) (tl env) q' s')
          else Some (q', s, n))"
  by pat_completeness auto
termination
  by (relation "measures [\<lambda>(f, limit, n, env, q, s). length env, \<lambda>(f, limit, n, env, q, s). q_size q]")
     (auto split: list.splits dest: dequeue_size sym)

declare drain_batch.simps [simp del]

definition md_body :: "('b \<Rightarrow> MarketData \<Rightarrow> 'b option) \<Rightarrow> MarketUpdateData option \<Rightarrow> ('b, 's) TradeEngine \<Rightarrow> (('b, 's) TradeEngine \<times> bool) option" where
  "md_body upd message e =
     (case message of
        None \<Rightarrow> Some (e, False)
      | Some md \<Rightarrow> map_option (\<lambda>books. (e\<lparr>te_ticker_order_book := books\<rparr>, True)) (apply_market_data upd (mu_data md) (te_ticker_order_book e)))"

definition run_market_data where
  "run_market_data upd env q e = drain_batch (md_body upd) kMarketDataBatchLimit 0 env q e"

definition run_responses where
  "run_responses strat cfg now env q st =
     drain_batch (\<lambda>response st. map_option (\<lambda>st'. (st', True)) (handle_response strat cfg now response st)) kResponseBatchLimit 0 env q st"

subsection \<open>Lemmas: the batch loops\<close>

text \<open>A body that succeeds and counts on every queued message, as a state update \<open>g\<close>.\<close>

lemma drain_take:
  assumes "spsc_inv q" "\<And>m s. m \<in> set (q_list q) \<Longrightarrow> f m s = Some (g m s, True)"
  shows "\<exists>q'. drain_batch f limit n [] q s = Some (q', fold g (take (limit - n) (q_list q)) s, n + min (limit - n) (length (q_list q)))
     \<and> spsc_inv q' \<and> q_list q' = drop (Suc (limit - n)) (q_list q)"
  using assms
proof (induction "q_list q" arbitrary: q s n)
  case Nil
  then show ?case using ring.deq_empty [of q] by (subst drain_batch.simps) simp
next
  case (Cons x xs)
  obtain q' where d: "dequeue q = (q', Some x)" "q_list q' = xs" "spsc_inv q'"
    using ring.deq_ok [of q x xs] ring.deq_inv [of q] Cons.hyps(2) Cons.prems(1) by (cases "dequeue q") auto
  have f: "f m s = Some (g m s, True)" if "m = x \<or> m \<in> set xs" for m s
    using Cons.prems(2) that by (simp add: Cons.hyps(2) [symmetric])
  show ?case
  proof (cases "n < limit")
    case True
    then have "limit - n = Suc (limit - Suc n)" by simp
    then show ?thesis using Cons.hyps(1) [of q' "Suc n" "g x s"] d f True Cons.hyps(2) [symmetric]
      by (subst drain_batch.simps) (auto simp: min_def)
  qed (use d Cons.hyps(2) [symmetric] in \<open>subst drain_batch.simps, simp\<close>)
qed

lemma arrive_one:
  assumes "spsc_inv q" "length (q_list q) < q_cap q"
  shows "spsc_inv (arrive [y] q) \<and> q_list (arrive [y] q) = q_list q @ [y]"
  using ring.enq_ok [OF assms] ring.enq_inv [OF assms(1)] by (simp add: arrive_def)

lemma drain_arrive: "drain_batch f limit n [ms] q s = drain_batch f limit n [] (arrive ms q) s"
  unfolding drain_batch.simps [of f limit n "[ms]" q s] drain_batch.simps [of f limit n "[]" "arrive ms q" s] list.case list.sel ..

lemma drain_last:
  assumes "spsc_inv q" "q_list q = xs @ [y]" "\<And>m s. m \<in> set xs \<Longrightarrow> f m s = Some (g m s, True)" "limit = n + length xs"
  shows "\<exists>q'. drain_batch f limit n [] q s = Some (q', fold g xs s, limit) \<and> spsc_inv q' \<and> q_list q' = []"
  using assms
proof (induction xs arbitrary: q s n)
  case Nil
  then show ?case using ring.deq_ok [of q y "[]"] ring.deq_inv [of q] by (cases "dequeue q") (subst drain_batch.simps, auto)
next
  case (Cons x xs)
  obtain q1 where d: "dequeue q = (q1, Some x)" "q_list q1 = xs @ [y]" "spsc_inv q1"
    using ring.deq_ok [of q x "xs @ [y]"] ring.deq_inv [of q] Cons.prems by (cases "dequeue q") auto
  show ?case using Cons.IH [of q1 "Suc n" "g x s"] Cons.prems d by (subst drain_batch.simps) auto
qed

text \<open>
  When the queue holds exactly what the batch may still process, a message that arrives before the \<open>j\<close>-th dequeue
  from now is taken by the last dequeue, whose count test fails.
\<close>

lemma drain_arrival:
  assumes "spsc_inv q" "\<And>m s. m \<in> set (q_list q) \<Longrightarrow> f m s = Some (g m s, True)"
    and "limit = n + length (q_list q)" "j \<le> length (q_list q)" "0 < j \<or> length (q_list q) < q_cap q" "length (q_list q) \<le> q_cap q"
  shows "\<exists>q'. drain_batch f limit n (replicate j [] @ [[y]]) q s = Some (q', fold g (q_list q) s, limit) \<and> spsc_inv q' \<and> q_list q' = []"
  using assms
proof (induction j arbitrary: q s n)
  case 0
  then have "spsc_inv (arrive [y] q)" "q_list (arrive [y] q) = q_list q @ [y]" using arrive_one [of q y] by auto
  then show ?case using drain_last [of "arrive [y] q" "q_list q" y f g limit n s] 0(2,3) by (simp add: drain_arrive)
next
  case (Suc j)
  then obtain x xs where q: "q_list q = x # xs" by (cases "q_list q") auto
  obtain q1 where d: "dequeue q = (q1, Some x)" "q_list q1 = xs" "spsc_inv q1" "q_cap q1 = q_cap q"
    using ring.deq_ok [of q x xs] ring.deq_inv [of q] ring.deq_cap [of q] Suc.prems(1) q by (cases "dequeue q") auto
  show ?case using Suc.IH [of q1 "Suc n" "g x s"] Suc.prems d q by (subst drain_batch.simps) (auto simp: arrive_def)
qed

text \<open>
  C40. The batch loop returns, and it can lose a message. When a full ring is drained with the batch limit equal to its
  capacity, as both loops of the engine are configured, and one more message arrives at any moment after the first
  dequeue, the loop processes exactly the messages that were in the ring, in order, and leaves the ring empty: the
  newcomer is taken out by the dequeue that precedes the failing count test and is never processed.
\<close>

theorem batch_drain_loses_arrival:
  assumes "spsc_inv q" "limit = q_cap q" "length (q_list q) = limit" "0 < j" "j \<le> limit"
    and "\<And>m s. m \<in> set (q_list q) \<Longrightarrow> f m s = Some (g m s, True)"
  shows "\<exists>q'. drain_batch f limit 0 (replicate j [] @ [[y]]) q s = Some (q', fold g (q_list q) s, limit) \<and> q_list q' = []"
  using drain_arrival [of q f g limit 0 j y s] assms by auto

theorem batch_drain_loses_arrival_witness:
  "\<exists>q'. drain_batch (\<lambda>m s. Some (m # s, True)) 2 0 [[], [7 :: nat]] \<lparr>sq_Capacity = 2, sq_buffer = [5, 6], sq_head = 2, sq_tail = 0\<rparr> []
     = Some (q', [6, 5], 2) \<and> q_list q' = []"
proof -
  let ?q = "\<lparr>sq_Capacity = 2, sq_buffer = [5, 6 :: nat], sq_head = 2, sq_tail = 0\<rparr>"
  have "spsc_inv ?q" "q_list ?q = [5, 6]" "q_cap ?q = 2"
    by (simp_all add: spsc_inv_def capacity_ok_def q_list_def q_size_def sq_slot_def q_cap_def upt_rec)
  then show ?thesis using batch_drain_loses_arrival [of ?q 2 1 "\<lambda>m s. Some (m # s, True)" "\<lambda>m s. m # s" 7 "[]"] by simp
qed

subsection \<open>Exposure\<close>

text \<open>A fill that agrees with the slot of the order: what was filled is what left the slot.\<close>

definition fill_matches :: "int64 \<Rightarrow> ExecutionReport \<Rightarrow> SideBook \<Rightarrow> bool" where
  "fill_matches scale r sb =
     (case find_layer scale sb (er_cl_order_id r) (er_price r) of
        None \<Rightarrow> False
      | Some l \<Rightarrow> (er_ord_status r = Ord_kPartiallyFilled \<and> er_last_qty r = sl_qty (sb_slots sb l) - er_leaves_qty r)
          \<or> (er_ord_status r = Ord_kFilled \<and> er_last_qty r = sl_qty (sb_slots sb l)))"

lemma i64_move: "i64 (i64 (a + q * v) + i64 (b - v * q)) = i64 (a + b)"
proof -
  have "i64 (i64 (a + q * v) + i64 (b - v * q)) = i64 ((a + q * v) + (b - v * q))" by (simp only: i64_arith)
  then show ?thesis by (simp add: mult.commute)
qed

lemma fill_reserved:
  assumes "fill_matches scale r sb"
  shows "snd (handle_execution_report scale now r (sb, reserved)) = i64 (reserved - sideToValue (er_side r) * er_last_qty r)"
proof -
  obtain l where l: "find_layer scale sb (er_cl_order_id r) (er_price r) = Some l" using assms by (auto simp: fill_matches_def split: option.splits)
  then show ?thesis using assms
    by (auto simp: fill_matches_def handle_execution_report_def handle_partially_filled_def handle_filled_def Let_def
        remove_partial_fill_def remove_reserved_def i64_diff_mult_right)
qed


definition demo_engine :: "(unit, unit) TradeEngine" where
  "demo_engine = \<lparr>te_ticker_order_book = Map.empty, te_position_keeper = PositionKeeper_new ''BTCUSDC'', te_strategy = (),
     te_order_manager = fst (process_new_order demo_cfg ''BTCUSDC'' 50 demo_new (OrderManager_new demo_venue 10 100, []))\<rparr>"

definition demo_trade :: ExecutionReport where
  "demo_trade = \<lparr>er_cl_order_id = 50, er_symbol = ''BTCUSDC'', er_exec_type = Exec_kTrade, er_ord_status = Ord_kPartiallyFilled, er_cum_qty = 3,
     er_leaves_qty = 4, er_last_qty = 3, er_error_code = 0, er_price = 900, er_side = kSell, er_text = [], er_position_side = Some kShort\<rparr>"

lemma demo_ticks_free: "find_layer_by_ticks SideBook_new 900 = None"
  by (simp add: find_layer_by_ticks_None SideBook_new_def kTicksInvalid_def)

lemma demo_book:
  "om_book (te_order_manager demo_engine) ''BTCUSDC'' kSell (Some kShort) =
     upd_slot 2 (\<lambda>s. s\<lparr>sl_price := 900, sl_qty := 7, sl_cl_order_id := 50, sl_state := OM_kReserved, sl_last_used := 50\<rparr>)
       (SideBook_new\<lparr>sb_layer_ticks := (sb_layer_ticks SideBook_new)(2 := 900)\<rparr>)"
  "om_reserved (te_order_manager demo_engine) = - 7"
  using demo_ticks_free
  by (simp_all add: demo_engine_def process_new_order_def tick_taken_def demo_new_def demo_cfg_def OrderManager_new_def side_book_def
      set_side_book_def LayerBook_new_def to_ticks_raw_def Let_def add_reserved_def in_i64_def)


subsection \<open>The way of a refused order\<close>

text \<open>
  An order the order manager accepts for a layer, without a position side as on spot, under an id that no slot and no
  pending replace of the side book has.
\<close>

definition fresh_order :: "OMConfig \<Rightarrow> string \<Rightarrow> OrderManager \<Rightarrow> ActionNew \<Rightarrow> bool" where
  "fresh_order cfg t m a =
     (let sb = om_book m t (an_side a) None
      in an_side a \<in> {kBuy, kSell} \<and> an_position_side a = None \<and> an_layer a < kSlotsPerSide \<and> an_cl_order_id a \<noteq> kOrderIdInvalid
         \<and> \<not> tick_taken sb (to_ticks_raw (rc_scale_int (cfg_reconciler cfg)) (an_price a)) (an_layer a)
         \<and> list_all (\<lambda>l. sl_cl_order_id (sb_slots sb l) \<noteq> an_cl_order_id a) [0..<kSlotsPerSide]
         \<and> sb_new_id_to_layer sb (an_cl_order_id a) = None)"

lemma fresh_order_sent:
  assumes "fresh_order cfg t m a" "m1 = fst (process_new_order cfg t now a (m, ids))"
  shows "om_sent m1 = om_sent m @ [RequestCommon_default\<lparr>rq_req_type := kNewSingleOrderData, rq_cl_order_id := an_cl_order_id a, rq_symbol := t,
       rq_side := an_side a, rq_order_qty := an_qty a, rq_ord_type := kLimit, rq_price := an_price a, rq_time_in_force := kGoodTillCancel,
       rq_position_side := None\<rparr>]"
    and "om_reserved m1 = i64 (om_reserved m + sideToValue (an_side a) * an_qty a)"
    and "find_layer_by_id (om_book m1 t (an_side a) None) (an_cl_order_id a) = Some (an_layer a)"
    and "sl_qty (sb_slots (om_book m1 t (an_side a) None) (an_layer a)) = an_qty a"
    and "sb_new_id_to_layer (om_book m1 t (an_side a) None) (an_cl_order_id a) = None"
proof -
  let ?sb = "om_book m t (an_side a) None" and ?l = "an_layer a"
  let ?sb1 = "upd_slot ?l (\<lambda>s. s\<lparr>sl_price := an_price a, sl_qty := an_qty a, sl_cl_order_id := an_cl_order_id a, sl_state := OM_kReserved,
      sl_last_used := now\<rparr>) (?sb\<lparr>sb_layer_ticks := (sb_layer_ticks ?sb)(?l := to_ticks_raw (rc_scale_int (cfg_reconciler cfg)) (an_price a))\<rparr>)"
  have a: "an_position_side a = None" "?l < kSlotsPerSide" "an_cl_order_id a \<noteq> kOrderIdInvalid" "sb_new_id_to_layer ?sb (an_cl_order_id a) = None"
    "\<forall>l<kSlotsPerSide. sl_cl_order_id (sb_slots ?sb l) \<noteq> an_cl_order_id a"
    "\<not> tick_taken ?sb (to_ticks_raw (rc_scale_int (cfg_reconciler cfg)) (an_price a)) ?l"
    using assms(1) by (simp_all add: fresh_order_def Let_def list_all_iff)
  have b: "om_book m1 t (an_side a) None = ?sb1" using a(1,6) by (simp add: assms(2) process_new_order_def Let_def side_book_set)
  show "om_reserved m1 = i64 (om_reserved m + sideToValue (an_side a) * an_qty a)" using a(1,6)
    by (simp add: assms(2) process_new_order_def Let_def add_reserved_def)
  show "om_sent m1 = om_sent m @ [RequestCommon_default\<lparr>rq_req_type := kNewSingleOrderData, rq_cl_order_id := an_cl_order_id a, rq_symbol := t,
       rq_side := an_side a, rq_order_qty := an_qty a, rq_ord_type := kLimit, rq_price := an_price a, rq_time_in_force := kGoodTillCancel,
       rq_position_side := None\<rparr>]" using a(1,6) by (simp add: assms(2) process_new_order_def Let_def new_order_def send_request_def)
  show "sl_qty (sb_slots (om_book m1 t (an_side a) None) ?l) = an_qty a" "sb_new_id_to_layer (om_book m1 t (an_side a) None) (an_cl_order_id a) = None"
    using a(4) by (simp_all add: b)
  show "find_layer_by_id (om_book m1 t (an_side a) None) (an_cl_order_id a) = Some ?l"
  proof -
    have "first_some (\<lambda>idx. if sl_cl_order_id (sb_slots ?sb1 idx) = an_cl_order_id a then Some idx else None) [0..<kSlotsPerSide] \<noteq> None"
      using a(2) by (subst first_some_index_None) (auto intro: bexI [of _ ?l])
    then obtain k where k: "find_layer_by_id ?sb1 (an_cl_order_id a) = Some k" using a(3) by (auto simp: find_layer_by_id_def)
    then have "k < kSlotsPerSide" "sl_cl_order_id (sb_slots ?sb1 k) = an_cl_order_id a"
      using find_layer_by_id_Some [OF k] by (auto simp: kSlotsPerSide_def)
    then have "k = ?l" using a(5) by (auto split: if_splits)
    then show ?thesis using k by (simp add: b)
  qed
qed

text \<open>The gateway remembers the order when it sends it, whether or not the write succeeds.\<close>

lemma order_request_new:
  assumes "rq_req_type r = kNewSingleOrderData" "rq_side r \<in> {kBuy, kSell}"
  shows "wm_pending_requests (gw_orders (order_request wr fq fp Spot r g)) (rq_cl_order_id r) =
      Some \<lparr>pd_client_order_id = rq_cl_order_id r, pd_symbol = rq_symbol r, pd_side = rq_side r, pd_price = rq_price r,
        pd_order_qty = rq_order_qty r, pd_ord_type = rq_ord_type r, pd_time_in_force = rq_time_in_force r, pd_position_side = rq_position_side r\<rparr>"
    and "gw_queue (order_request wr fq fp Spot r g) = gw_queue g" "gw_pools (order_request wr fq fp Spot r g) = gw_pools g"
  using assms by (auto simp: order_request_def new_single_order_data_def post_new_order_def on_orders_def register_pending_request_def
      PendingOrderRequest_new_def app_send_def spot_create_order_message_def Let_def)

lemma rejected_fresh:
  assumes "er_ord_status r = Ord_kRejected" "find_layer_by_id sb (er_cl_order_id r) = Some l" "sb_new_id_to_layer sb (er_cl_order_id r) = None"
  shows "handle_execution_report scale now r (sb, reserved) = (kill_layer sb l, remove_reserved reserved (er_side r) (sl_qty (sb_slots sb l)))"
  using assms by (simp add: handle_execution_report_def handle_rejected_or_expired_def rejected_replace_def find_layer_def)


definition demo_spot_new :: ActionNew where
  "demo_spot_new = \<lparr>an_layer = 2, an_price = 900, an_qty = 7, an_side = kBuy, an_cl_order_id = 42, an_position_side = None\<rparr>"

definition demo_refusal :: ApiResponse where
  "demo_refusal = \<lparr>rs_id = ''orderplace_42'', rs_status = 400,
     rs_error = Some \<lparr>err_code = - 2010, err_message = ''Account has insufficient balance.'', err_data = None\<rparr>\<rparr>"

lemma demo_fresh: "fresh_order demo_cfg ''BTCUSDC'' (OrderManager_new demo_venue 10 100) demo_spot_new"
  using demo_ticks_free
  by (simp add: fresh_order_def demo_spot_new_def demo_cfg_def OrderManager_new_def LayerBook_new_def side_book_def kSlotsPerSide_def
      kOrderIdInvalid_def tick_taken_def to_ticks_raw_def upt_rec) (simp add: SideBook_new_def OrderSlot_new_def kOrderIdInvalid_def)

lemma demo_channel: "channel_ok (gateway_new demo_pools)" "q_list (gw_queue (gateway_new demo_pools)) = []"
proof -
  have "capacity_ok kResponseQueueSize" by (simp add: capacity_ok_def kResponseQueueSize_def)
  note q = spsc_new_inv [OF this, of ResponseCommon_new]
  then show "q_list (gw_queue (gateway_new demo_pools)) = []" by (simp add: gateway_new_def)
  have "q_cap (spsc_new kResponseQueueSize ResponseCommon_new) = 64" by (simp add: q_cap_def spsc_new_def kResponseQueueSize_def)
  moreover have "pool_capacity (pool_new 2 8 (r :: ExecutionReport)) = 2" for r by (simp add: pool_capacity_def pool_new_def)
  moreover have "pool_inv (pool_new 2 8 (r :: ExecutionReport))" "pool_live (pool_new 2 8 (r :: ExecutionReport)) = {}" for r
    using pool_new_inv [of 2 8 r] by simp_all
  ultimately show "channel_ok (gateway_new demo_pools)" using q by (simp add: channel_ok_def gateway_new_def demo_pools_def)
qed


end
