(* ===== verification/Onepass_Decoder.thy ===== *)
theory Onepass_Decoder
  imports Order_Requests "HOL-Library.Monad_Syntax"
begin

text \<open>
  The hand-written decoder of futures market data (\<^verbatim>\<open>onepass_binance_futures_md_decoder.hpp\<close>), which walks a
  pointer over the payload and skips keys by their known lengths, and the decimal parser of the JSON decoder it
  replaces (\<^verbatim>\<open>parse_quoted_decimal_to_int\<close> of \<^verbatim>\<open>schema/price_qty_array.h\<close>).

  The pointer is the rest of the payload it points at. Reading at or moving past the end of the payload is undefined
  in the code, and so is an index outside \<^verbatim>\<open>kPowersOf10\<close>: both are \<^term>\<open>None\<close>. \<^verbatim>\<open>memchr\<close> reads its bytes in order and stops at the
  first match. The mantissa of a price is accumulated in a \<^verbatim>\<open>double\<close>, because \<^verbatim>\<open>kDecimalBase\<close> is one: \<open>rnd53\<close> is the
  rounding of a non-negative integer to a \<^verbatim>\<open>double\<close>, to nearest and ties to even, and the conversion back is
  undefined from \<open>2 ^ 63\<close> on. The price and quantity scale (the template parameters \<^verbatim>\<open>kGlobalPriceScale\<close> and
  \<^verbatim>\<open>kGlobalQtyScale\<close>) are arguments, and the JSON library is the record \<open>Glz\<close>. The fields the decoder leaves
  unassigned are not part of the records.

  The second half of the theory has the messages of the exchange as a datatype with their text (\<open>render\<close>), and
  shows that decoding the text gives back the values.
\<close>

subsection \<open>Reading the payload\<close>

abbreviation dq :: char where
  "dq \<equiv> CHR 0x22"

definition advance :: "nat \<Rightarrow> string \<Rightarrow> string option" where
  "advance n ptr = (if n \<le> length ptr then Some (drop n ptr) else None)"

definition deref :: "string \<Rightarrow> char option" where
  "deref ptr = (case ptr of [] \<Rightarrow> None | chr # rest \<Rightarrow> Some chr)"

definition is_digit_u8 :: "char \<Rightarrow> bool" where
  "is_digit_u8 chr \<longleftrightarrow> char_digit chr mod 256 < 10"

text \<open>The result is \<^term>\<open>Some None\<close> for a null pointer.\<close>

fun memchr :: "char \<Rightarrow> nat \<Rightarrow> string \<Rightarrow> string option option" where
  "memchr chr 0 ptr = Some None"
| "memchr chr (Suc n) [] = None"
| "memchr chr (Suc n) (c # ptr) = (if c = chr then Some (Some (c # ptr)) else memchr chr n ptr)"

abbreviation (input) kShortSearchLen :: nat where
  "kShortSearchLen \<equiv> 32"

definition skip_to :: "string \<Rightarrow> char \<Rightarrow> string option" where
  "skip_to ptr chr = do {
     found \<leftarrow> memchr chr kShortSearchLen ptr;
     Some (case found of Some p \<Rightarrow> p | None \<Rightarrow> ptr)
   }"

fun skip_digits :: "string \<Rightarrow> string option" where
  "skip_digits [] = None"
| "skip_digits (chr # ptr) = (if is_digit_u8 chr then skip_digits ptr else Some (chr # ptr))"

fun parse_uint_loop :: "u64 \<Rightarrow> string \<Rightarrow> (u64 \<times> string) option" where
  "parse_uint_loop val [] = None"
| "parse_uint_loop val (chr # ptr) =
     (if is_digit_u8 chr then parse_uint_loop (val * 10 + word_of_int (char_digit chr)) ptr else Some (val, chr # ptr))"

definition parse_uint_inline :: "string \<Rightarrow> (u64 \<times> string) option" where
  "parse_uint_inline ptr = parse_uint_loop 0 ptr"

text \<open>\<^verbatim>\<open>symbol.assign(ptr, s_end)\<close>: the characters between two pointers.\<close>

definition assign :: "string \<Rightarrow> string \<Rightarrow> string" where
  "assign ptr s_end = take (length ptr - length s_end) ptr"

subsection \<open>Decimal numbers\<close>

fun excess_bits :: "nat \<Rightarrow> nat" where
  "excess_bits n = (if n < 2 ^ 53 then 0 else Suc (excess_bits (n div 2)))"

declare excess_bits.simps [simp del]

definition rnd53 :: "nat \<Rightarrow> nat" where
  "rnd53 n =
     (let k = excess_bits n; q = n div 2 ^ k; r = n mod 2 ^ k
      in if k = 0 then n else if 2 * r > 2 ^ k \<or> 2 * r = 2 ^ k \<and> odd q then (q + 1) * 2 ^ k else q * 2 ^ k)"

definition mantissa_step :: "nat \<Rightarrow> nat \<Rightarrow> nat option" where
  "mantissa_step mantissa digit =
     (let v = rnd53 (rnd53 (rnd53 mantissa * 10) + digit) in if v < 2 ^ 63 then Some v else None)"

fun fixed_loop :: "nat \<Rightarrow> nat \<Rightarrow> bool \<Rightarrow> string \<Rightarrow> (nat \<times> nat \<times> string) option" where
  "fixed_loop mantissa frac_digits in_frac [] = None"
| "fixed_loop mantissa frac_digits in_frac (chr # ptr) =
     (if is_digit_u8 chr
      then (case mantissa_step mantissa (nat (char_digit chr)) of
              None \<Rightarrow> None
            | Some m \<Rightarrow> fixed_loop m (if in_frac then Suc frac_digits else frac_digits) in_frac ptr)
      else if chr = CHR ''.'' then fixed_loop mantissa frac_digits True ptr
      else Some (mantissa, frac_digits, chr # ptr))"

definition kPowersOf10 :: "nat \<Rightarrow> int64 option" where
  "kPowersOf10 i = (if i \<le> 10 then Some (10 ^ i) else None)"

definition parse_fixed_inline :: "int64 \<Rightarrow> string \<Rightarrow> (int64 \<times> string) option" where
  "parse_fixed_inline Scale ptr = do {
     (mantissa, frac_digits, ptr1) \<leftarrow> fixed_loop 0 0 False ptr;
     ptr2 \<leftarrow> advance 1 ptr1;
     if frac_digits = 0 then Some (i64 (int mantissa * Scale), ptr2)
     else do {
       scale_divisor \<leftarrow> kPowersOf10 frac_digits;
       Some (i64 (int mantissa * (Scale sdiv scale_divisor)), ptr2)
     }
   }"

text \<open>The parser of the JSON decoder: it reads the characters between two pointers and skips what it does not know.\<close>

fun quoted_loop :: "int64 \<Rightarrow> nat \<Rightarrow> bool \<Rightarrow> string \<Rightarrow> int64 \<times> nat" where
  "quoted_loop mantissa frac_digits in_frac [] = (mantissa, frac_digits)"
| "quoted_loop mantissa frac_digits in_frac (chr # ptr) =
     (if is_digit chr
      then quoted_loop (i64 (mantissa * 10 + char_digit chr)) (if in_frac then Suc frac_digits else frac_digits) in_frac ptr
      else if chr = CHR ''.'' then quoted_loop mantissa frac_digits True ptr
      else quoted_loop mantissa frac_digits in_frac ptr)"

definition parse_quoted_decimal_to_int :: "int64 \<Rightarrow> string \<Rightarrow> int64 option" where
  "parse_quoted_decimal_to_int Scale str =
     (let (mantissa, frac_digits) = quoted_loop 0 0 False str
      in if frac_digits = 0 then Some (i64 (mantissa * Scale))
         else do {
           scale_divisor \<leftarrow> kPowersOf10 frac_digits;
           if Scale \<ge> scale_divisor then Some (i64 (mantissa * (Scale sdiv scale_divisor)))
           else do { d \<leftarrow> cdiv scale_divisor Scale; cdiv mantissa d }
         })"

subsection \<open>Wire messages\<close>

record DepthData =
  dd_symbol :: string
  dd_start_update_id :: u64
  dd_end_update_id :: u64
  dd_final_update_id_in_last_stream :: u64
  dd_bids :: "(int64 \<times> int64) list"
  dd_asks :: "(int64 \<times> int64) list"

record AggregateTradeEvent =
  at_symbol :: string
  at_price :: int64
  at_quantity :: int64
  at_is_buyer_market_maker :: bool

record BookTickerData =
  bt_update_id :: u64
  bt_symbol :: string
  bt_best_bid_price :: int64
  bt_best_bid_qty :: int64
  bt_best_ask_price :: int64
  bt_best_ask_qty :: int64

record DepthSnapshot =
  ds_id :: string
  ds_book_update_id :: u64
  ds_bids :: "(int64 \<times> int64) list"
  ds_asks :: "(int64 \<times> int64) list"

record ErrorResponse =
  er_code :: int
  er_message :: string

record ApiResponse =
  ap_id :: string
  ap_status :: int
  ap_error :: "ErrorResponse option"

record SymbolFilter =
  sf_filter_type :: string
  sf_tick_size :: "string option"
  sf_min_qty :: "string option"
  sf_max_qty :: "string option"
  sf_step_size :: "string option"

record SymbolInfo =
  si_symbol :: string
  si_quote_asset :: string
  si_filters :: "SymbolFilter list"

type_synonym ExchangeInfoHttpResponse = "SymbolInfo list"

datatype MdWireMessage =
    Md_Monostate
  | Md_Depth DepthData
  | Md_Trade AggregateTradeEvent
  | Md_BookTicker BookTickerData
  | Md_Snapshot DepthSnapshot
  | Md_Api ApiResponse
  | Md_ExchangeInfo ExchangeInfoHttpResponse

record Glz =
  read_api_response :: "string \<Rightarrow> ApiResponse option"
  read_exchange_info :: "string \<Rightarrow> ExchangeInfoHttpResponse option"

subsection \<open>Offsets\<close>

text \<open>The lengths of the literals the code takes \<^verbatim>\<open>sizeof\<close> of.\<close>

abbreviation (input) kStreamValueStart :: nat where
  "kStreamValueStart \<equiv> length ''{\"stream\":\"''"

abbreviation (input) kDataEventStart :: nat where
  "kDataEventStart \<equiv> length ''\",\"data\":{\"e\":\"''"

abbreviation (input) kPriceQtyEntry :: nat where
  "kPriceQtyEntry \<equiv> length ''[\"''"

abbreviation (input) kSkipQuoteKeyValue :: nat where
  "kSkipQuoteKeyValue \<equiv> length ''\",\"X\":''"

abbreviation (input) kSkipKeyValue :: nat where
  "kSkipKeyValue \<equiv> length '',\"X\":''"

abbreviation (input) kSkipQuoteKeyQuote :: nat where
  "kSkipQuoteKeyQuote \<equiv> length '',\"X\":\"''"

abbreviation (input) kDepthPuSkip :: nat where
  "kDepthPuSkip \<equiv> length '',\"pu\":''"

abbreviation (input) kDepthBidsStart :: nat where
  "kDepthBidsStart \<equiv> length '',\"b\":[''"

abbreviation (input) kDepthAsksStart :: nat where
  "kDepthAsksStart \<equiv> length ''],\"a\":[''"

abbreviation (input) kTradeAggIdSkip :: nat where
  "kTradeAggIdSkip \<equiv> length '',\"a\":''"

abbreviation (input) kTradePriceSkip :: nat where
  "kTradePriceSkip \<equiv> length ''\",\"p\":\"''"

abbreviation (input) kTradeQtySkip :: nat where
  "kTradeQtySkip \<equiv> length '',\"q\":\"''"

abbreviation (input) kTradeFirstIdSkip :: nat where
  "kTradeFirstIdSkip \<equiv> length '',\"f\":''"

abbreviation (input) kBookTickerBidPriceSkip :: nat where
  "kBookTickerBidPriceSkip \<equiv> length ''\",\"b\":\"''"

abbreviation (input) kBookTickerBidQtySkip :: nat where
  "kBookTickerBidQtySkip \<equiv> length '',\"B\":\"''"

abbreviation (input) kBookTickerAskPriceSkip :: nat where
  "kBookTickerAskPriceSkip \<equiv> length '',\"a\":\"''"

abbreviation (input) kBookTickerAskQtySkip :: nat where
  "kBookTickerAskQtySkip \<equiv> length '',\"A\":\"''"

abbreviation (input) kSnapshotIdStart :: nat where
  "kSnapshotIdStart \<equiv> length ''{\"id\":\"''"

abbreviation (input) kSnapshotStatusSkip :: nat where
  "kSnapshotStatusSkip \<equiv> length ''\",\"status\":''"

abbreviation (input) kSnapshotResultSkip :: nat where
  "kSnapshotResultSkip \<equiv> length '',\"result\":{\"lastUpdateId\":''"

abbreviation (input) kSnapshotBidsStart :: nat where
  "kSnapshotBidsStart \<equiv> length '',\"bids\":[''"

abbreviation (input) kSnapshotAsksStart :: nat where
  "kSnapshotAsksStart \<equiv> length ''],\"asks\":[''"

abbreviation (input) kMinPayloadLen :: nat where
  "kMinPayloadLen \<equiv> length ''{\"s\":\"\"}''"

abbreviation (input) kFirstCharOffset :: nat where
  "kFirstCharOffset \<equiv> 2"

abbreviation (input) kAtSearchStart :: nat where
  "kAtSearchStart \<equiv> length ''{\"stream\":\"x''"

abbreviation (input) kStreamTypeOffset :: nat where
  "kStreamTypeOffset \<equiv> 1"

subsection \<open>Decoding\<close>

lemma advance_length: "advance n p = Some q \<Longrightarrow> length p = n + length q"
  by (auto simp: advance_def split: if_splits)

lemma fixed_loop_length: "fixed_loop m f b p = Some (m', f', q) \<Longrightarrow> length q \<le> length p"
  by (induction m f b p arbitrary: m' f' q rule: fixed_loop.induct)
    (auto split: if_splits option.splits intro: le_SucI)

lemma parse_fixed_inline_length: "parse_fixed_inline sc p = Some (v, q) \<Longrightarrow> length q < length p"
  by (auto simp: parse_fixed_inline_def bind_eq_Some_conv split: if_splits dest!: fixed_loop_length advance_length)

text \<open>The loop over the price levels of one side.\<close>

function parse_levels :: "int64 \<Rightarrow> int64 \<Rightarrow> string \<Rightarrow> ((int64 \<times> int64) list \<times> string) option" where
  "parse_levels ps qs ptr = do {
     chr \<leftarrow> deref ptr;
     if chr = CHR ''['' then do {
       ptr1 \<leftarrow> advance kPriceQtyEntry ptr;
       (price, ptr2) \<leftarrow> parse_fixed_inline ps ptr1;
       ptr3 \<leftarrow> advance kPriceQtyEntry ptr2;
       (qty, ptr4) \<leftarrow> parse_fixed_inline qs ptr3;
       ptr5 \<leftarrow> advance 1 ptr4;
       chr5 \<leftarrow> deref ptr5;
       ptr6 \<leftarrow> (if chr5 = CHR '','' then advance 1 ptr5 else Some ptr5);
       (rest, ptr7) \<leftarrow> parse_levels ps qs ptr6;
       Some ((price, qty) # rest, ptr7)
     } else Some ([], ptr)
   }"
  by pat_completeness auto
termination
  by (relation "measure (\<lambda>(_, _, p). length p)")
    (auto split: if_splits dest!: advance_length parse_fixed_inline_length)

declare parse_levels.simps [simp del]

definition decode_depth :: "int64 \<Rightarrow> int64 \<Rightarrow> string \<Rightarrow> MdWireMessage option" where
  "decode_depth ps qs payload = do {
     ptr \<leftarrow> advance kStreamValueStart payload;
     ptr \<leftarrow> skip_to ptr dq;
     ptr \<leftarrow> advance kDataEventStart ptr;
     ptr \<leftarrow> skip_to ptr dq;
     ptr \<leftarrow> advance kSkipQuoteKeyValue ptr;
     ptr \<leftarrow> skip_digits ptr;
     ptr \<leftarrow> advance kSkipKeyValue ptr;
     ptr \<leftarrow> skip_digits ptr;
     ptr \<leftarrow> advance kSkipQuoteKeyQuote ptr;
     s_end \<leftarrow> skip_to ptr dq;
     symbol \<leftarrow> Some (assign ptr s_end);
     ptr \<leftarrow> advance kSkipQuoteKeyValue s_end;
     (start_update_id, ptr) \<leftarrow> parse_uint_inline ptr;
     ptr \<leftarrow> advance kSkipKeyValue ptr;
     (end_update_id, ptr) \<leftarrow> parse_uint_inline ptr;
     ptr \<leftarrow> advance kDepthPuSkip ptr;
     (final_update_id, ptr) \<leftarrow> parse_uint_inline ptr;
     ptr \<leftarrow> advance kDepthBidsStart ptr;
     (bids, ptr) \<leftarrow> parse_levels ps qs ptr;
     ptr \<leftarrow> advance kDepthAsksStart ptr;
     (asks, ptr) \<leftarrow> parse_levels ps qs ptr;
     Some (Md_Depth \<lparr>dd_symbol = symbol, dd_start_update_id = start_update_id, dd_end_update_id = end_update_id,
       dd_final_update_id_in_last_stream = final_update_id, dd_bids = bids, dd_asks = asks\<rparr>)
   }"

definition decode_trade :: "int64 \<Rightarrow> int64 \<Rightarrow> string \<Rightarrow> MdWireMessage option" where
  "decode_trade ps qs payload = do {
     ptr \<leftarrow> advance kStreamValueStart payload;
     ptr \<leftarrow> skip_to ptr dq;
     ptr \<leftarrow> advance kDataEventStart ptr;
     ptr \<leftarrow> skip_to ptr dq;
     ptr \<leftarrow> advance kSkipQuoteKeyValue ptr;
     ptr \<leftarrow> skip_digits ptr;
     ptr \<leftarrow> advance kTradeAggIdSkip ptr;
     ptr \<leftarrow> skip_digits ptr;
     ptr \<leftarrow> advance kSkipQuoteKeyQuote ptr;
     s_end \<leftarrow> skip_to ptr dq;
     symbol \<leftarrow> Some (assign ptr s_end);
     ptr \<leftarrow> advance kTradePriceSkip s_end;
     (price, ptr) \<leftarrow> parse_fixed_inline ps ptr;
     ptr \<leftarrow> advance kTradeQtySkip ptr;
     (quantity, ptr) \<leftarrow> parse_fixed_inline qs ptr;
     ptr \<leftarrow> advance kTradeFirstIdSkip ptr;
     ptr \<leftarrow> skip_digits ptr;
     ptr \<leftarrow> advance kSkipKeyValue ptr;
     ptr \<leftarrow> skip_digits ptr;
     ptr \<leftarrow> advance kSkipKeyValue ptr;
     ptr \<leftarrow> skip_digits ptr;
     ptr \<leftarrow> advance kSkipKeyValue ptr;
     m \<leftarrow> deref ptr;
     Some (Md_Trade \<lparr>at_symbol = symbol, at_price = price, at_quantity = quantity, at_is_buyer_market_maker = (m = CHR ''t'')\<rparr>)
   }"

definition decode_book_ticker :: "int64 \<Rightarrow> int64 \<Rightarrow> string \<Rightarrow> MdWireMessage option" where
  "decode_book_ticker ps qs payload = do {
     ptr \<leftarrow> advance kStreamValueStart payload;
     ptr \<leftarrow> skip_to ptr dq;
     ptr \<leftarrow> advance kDataEventStart ptr;
     ptr \<leftarrow> skip_to ptr dq;
     ptr \<leftarrow> advance kSkipQuoteKeyValue ptr;
     (update_id, ptr) \<leftarrow> parse_uint_inline ptr;
     ptr \<leftarrow> advance kSkipQuoteKeyQuote ptr;
     s_end \<leftarrow> skip_to ptr dq;
     symbol \<leftarrow> Some (assign ptr s_end);
     ptr \<leftarrow> advance kBookTickerBidPriceSkip s_end;
     (best_bid_price, ptr) \<leftarrow> parse_fixed_inline ps ptr;
     ptr \<leftarrow> advance kBookTickerBidQtySkip ptr;
     (best_bid_qty, ptr) \<leftarrow> parse_fixed_inline qs ptr;
     ptr \<leftarrow> advance kBookTickerAskPriceSkip ptr;
     (best_ask_price, ptr) \<leftarrow> parse_fixed_inline ps ptr;
     ptr \<leftarrow> advance kBookTickerAskQtySkip ptr;
     (best_ask_qty, ptr) \<leftarrow> parse_fixed_inline qs ptr;
     Some (Md_BookTicker \<lparr>bt_update_id = update_id, bt_symbol = symbol, bt_best_bid_price = best_bid_price,
       bt_best_bid_qty = best_bid_qty, bt_best_ask_price = best_ask_price, bt_best_ask_qty = best_ask_qty\<rparr>)
   }"

definition decode_snapshot :: "int64 \<Rightarrow> int64 \<Rightarrow> string \<Rightarrow> MdWireMessage option" where
  "decode_snapshot ps qs view = do {
     ptr \<leftarrow> advance kSnapshotIdStart view;
     id_end \<leftarrow> skip_to ptr dq;
     snapshot_id \<leftarrow> Some (assign ptr id_end);
     ptr \<leftarrow> advance kSnapshotStatusSkip id_end;
     ptr \<leftarrow> skip_digits ptr;
     ptr \<leftarrow> advance kSnapshotResultSkip ptr;
     (book_update_id, ptr) \<leftarrow> parse_uint_inline ptr;
     ptr \<leftarrow> advance kSkipKeyValue ptr;
     ptr \<leftarrow> skip_digits ptr;
     ptr \<leftarrow> advance kSkipKeyValue ptr;
     ptr \<leftarrow> skip_digits ptr;
     ptr \<leftarrow> advance kSnapshotBidsStart ptr;
     (bids, ptr) \<leftarrow> parse_levels ps qs ptr;
     ptr \<leftarrow> advance kSnapshotAsksStart ptr;
     (asks, ptr) \<leftarrow> parse_levels ps qs ptr;
     Some (Md_Snapshot \<lparr>ds_id = snapshot_id, ds_book_update_id = book_update_id, ds_bids = bids, ds_asks = asks\<rparr>)
   }"

definition decode_with_glaze :: "Glz \<Rightarrow> string \<Rightarrow> MdWireMessage" where
  "decode_with_glaze glz payload =
     (case read_exchange_info glz payload of Some parsed \<Rightarrow> Md_ExchangeInfo parsed | None \<Rightarrow> Md_Monostate)"

definition decode_api_response :: "Glz \<Rightarrow> string \<Rightarrow> MdWireMessage" where
  "decode_api_response glz payload =
     (case read_api_response glz payload of Some api_response \<Rightarrow> Md_Api api_response | None \<Rightarrow> Md_Monostate)"

definition onepass_decode :: "Glz \<Rightarrow> int64 \<Rightarrow> int64 \<Rightarrow> string \<Rightarrow> MdWireMessage option" where
  "onepass_decode glz ps qs payload =
     (if length payload < kMinPayloadLen then Some Md_Monostate
      else let first_chr = payload ! kFirstCharOffset in
        if first_chr = CHR ''s'' then do {
          p_start \<leftarrow> advance kAtSearchStart payload;
          at_ptr \<leftarrow> memchr (CHR ''@'') (length payload - kAtSearchStart) p_start;
          case at_ptr of
            None \<Rightarrow> Some (decode_api_response glz payload)
          | Some p \<Rightarrow> do {
              q \<leftarrow> advance kStreamTypeOffset p;
              stream_type \<leftarrow> deref q;
              if stream_type = CHR ''d'' then decode_depth ps qs payload
              else if stream_type = CHR ''a'' then decode_trade ps qs payload
              else if stream_type = CHR ''b'' then decode_book_ticker ps qs payload
              else Some (decode_api_response glz payload)
            }
        }
        else if first_chr = CHR ''i'' then decode_snapshot ps qs payload
        else if first_chr = CHR ''t'' then Some (decode_with_glaze glz payload)
        else Some (decode_api_response glz payload))"

subsection \<open>The messages of the exchange\<close>

text \<open>A decimal number as the exchange writes it: the digits before and after the point.\<close>

type_synonym decimal = "string \<times> string"

definition dec_text :: "decimal \<Rightarrow> string" where
  "dec_text d = (case d of (ip, fp) \<Rightarrow> ip @ (if fp = [] then [] else CHR ''.'' # fp))"

text \<open>The number times \<open>10 ^ k\<close>, exact when it has at most \<open>k\<close> decimals.\<close>

definition dec_fixed :: "nat \<Rightarrow> decimal \<Rightarrow> int64" where
  "dec_fixed k d = (case d of (ip, fp) \<Rightarrow> int (dec_value (ip @ fp)) * 10 ^ (k - length fp))"

definition dec_ok :: "nat \<Rightarrow> decimal \<Rightarrow> bool" where
  "dec_ok k d \<longleftrightarrow>
     (case d of (ip, fp) \<Rightarrow> list_all is_digit ip \<and> list_all is_digit fp \<and> length fp \<le> k \<and> length fp \<le> 10
        \<and> dec_value (ip @ fp) < 2 ^ 53 \<and> dec_value (ip @ fp) * 10 ^ (k - length fp) < 2 ^ 63)"

definition level_text :: "decimal \<times> decimal \<Rightarrow> string" where
  "level_text l = ''[\"'' @ dec_text (fst l) @ ''\",\"'' @ dec_text (snd l) @ ''\"]''"

fun levels_text :: "(decimal \<times> decimal) list \<Rightarrow> string" where
  "levels_text [] = []"
| "levels_text [l] = level_text l"
| "levels_text (l # l' # ls) = level_text l @ '','' @ levels_text (l' # ls)"

definition levels_ok :: "nat \<Rightarrow> nat \<Rightarrow> (decimal \<times> decimal) list \<Rightarrow> bool" where
  "levels_ok kp kq = list_all (\<lambda>(p, q). dec_ok kp p \<and> dec_ok kq q)"

definition levels_fixed :: "nat \<Rightarrow> nat \<Rightarrow> (decimal \<times> decimal) list \<Rightarrow> (int64 \<times> int64) list" where
  "levels_fixed kp kq = map (\<lambda>(p, q). (dec_fixed kp p, dec_fixed kq q))"

text \<open>Names shorter than the bytes \<^verbatim>\<open>skip_to\<close> searches.\<close>

definition name_ok :: "string \<Rightarrow> bool" where
  "name_ok s \<longleftrightarrow> dq \<notin> set s \<and> length s < 32"

definition stream_kind :: "string \<Rightarrow> char option" where
  "stream_kind stream = (case dropWhile (\<lambda>c. c \<noteq> CHR ''@'') (tl stream) of a # c # _ \<Rightarrow> Some c | _ \<Rightarrow> None)"

text \<open>
  The messages with their fields in the order of the formats the decoder documents; numbers the decoder skips are
  natural numbers. \<open>rest\<close> is what follows the last field the decoder reads.
\<close>

datatype md_message =
    M_Depth string string nat nat string u64 u64 u64 "(decimal \<times> decimal) list" "(decimal \<times> decimal) list" string
  | M_Trade string string nat nat string decimal decimal nat nat nat bool string
  | M_BookTicker string string u64 string decimal decimal decimal decimal string
  | M_Snapshot string nat u64 nat nat "(decimal \<times> decimal) list" "(decimal \<times> decimal) list" string

fun render :: "md_message \<Rightarrow> string" where
  "render (M_Depth stream e E T sy U u pu bids asks rest) =
     ''{\"stream\":\"'' @ stream @ ''\",\"data\":{\"e\":\"'' @ e @ ''\",\"E\":'' @ dec_digits E @ '',\"T\":'' @ dec_digits T
     @ '',\"s\":\"'' @ sy @ ''\",\"U\":'' @ to_string_u64 U @ '',\"u\":'' @ to_string_u64 u @ '',\"pu\":'' @ to_string_u64 pu
     @ '',\"b\":['' @ levels_text bids @ ''],\"a\":['' @ levels_text asks @ '']'' @ rest"
| "render (M_Trade stream e E a sy p q f l T m rest) =
     ''{\"stream\":\"'' @ stream @ ''\",\"data\":{\"e\":\"'' @ e @ ''\",\"E\":'' @ dec_digits E @ '',\"a\":'' @ dec_digits a
     @ '',\"s\":\"'' @ sy @ ''\",\"p\":\"'' @ dec_text p @ ''\",\"q\":\"'' @ dec_text q @ ''\",\"f\":'' @ dec_digits f
     @ '',\"l\":'' @ dec_digits l @ '',\"T\":'' @ dec_digits T @ '',\"m\":'' @ (if m then ''true'' else ''false'') @ rest"
| "render (M_BookTicker stream e u sy bp bq ap aq rest) =
     ''{\"stream\":\"'' @ stream @ ''\",\"data\":{\"e\":\"'' @ e @ ''\",\"u\":'' @ to_string_u64 u @ '',\"s\":\"'' @ sy
     @ ''\",\"b\":\"'' @ dec_text bp @ ''\",\"B\":\"'' @ dec_text bq @ ''\",\"a\":\"'' @ dec_text ap @ ''\",\"A\":\"'' @ dec_text aq
     @ ''\"'' @ rest"
| "render (M_Snapshot sid status u E T bids asks rest) =
     ''{\"id\":\"'' @ sid @ ''\",\"status\":'' @ dec_digits status @ '',\"result\":{\"lastUpdateId\":'' @ to_string_u64 u
     @ '',\"E\":'' @ dec_digits E @ '',\"T\":'' @ dec_digits T @ '',\"bids\":['' @ levels_text bids @ ''],\"asks\":['' @ levels_text asks @ '']'' @ rest"

fun md_ok :: "nat \<Rightarrow> nat \<Rightarrow> md_message \<Rightarrow> bool" where
  "md_ok kp kq (M_Depth stream e E T sy U u pu bids asks rest) \<longleftrightarrow>
     name_ok stream \<and> name_ok e \<and> name_ok sy \<and> stream_kind stream = Some CHR ''d'' \<and> levels_ok kp kq bids \<and> levels_ok kp kq asks"
| "md_ok kp kq (M_Trade stream e E a sy p q f l T m rest) \<longleftrightarrow>
     name_ok stream \<and> name_ok e \<and> name_ok sy \<and> stream_kind stream = Some CHR ''a'' \<and> dec_ok kp p \<and> dec_ok kq q"
| "md_ok kp kq (M_BookTicker stream e u sy bp bq ap aq rest) \<longleftrightarrow>
     name_ok stream \<and> name_ok e \<and> name_ok sy \<and> stream_kind stream = Some CHR ''b''
     \<and> dec_ok kp bp \<and> dec_ok kq bq \<and> dec_ok kp ap \<and> dec_ok kq aq"
| "md_ok kp kq (M_Snapshot sid status u E T bids asks rest) \<longleftrightarrow> name_ok sid \<and> levels_ok kp kq bids \<and> levels_ok kp kq asks"

fun md_meaning :: "nat \<Rightarrow> nat \<Rightarrow> md_message \<Rightarrow> MdWireMessage" where
  "md_meaning kp kq (M_Depth stream e E T sy U u pu bids asks rest) =
     Md_Depth \<lparr>dd_symbol = sy, dd_start_update_id = U, dd_end_update_id = u, dd_final_update_id_in_last_stream = pu,
       dd_bids = levels_fixed kp kq bids, dd_asks = levels_fixed kp kq asks\<rparr>"
| "md_meaning kp kq (M_Trade stream e E a sy p q f l T m rest) =
     Md_Trade \<lparr>at_symbol = sy, at_price = dec_fixed kp p, at_quantity = dec_fixed kq q, at_is_buyer_market_maker = m\<rparr>"
| "md_meaning kp kq (M_BookTicker stream e u sy bp bq ap aq rest) =
     Md_BookTicker \<lparr>bt_update_id = u, bt_symbol = sy, bt_best_bid_price = dec_fixed kp bp, bt_best_bid_qty = dec_fixed kq bq,
       bt_best_ask_price = dec_fixed kp ap, bt_best_ask_qty = dec_fixed kq aq\<rparr>"
| "md_meaning kp kq (M_Snapshot sid status u E T bids asks rest) =
     Md_Snapshot \<lparr>ds_id = sid, ds_book_update_id = u, ds_bids = levels_fixed kp kq bids, ds_asks = levels_fixed kp kq asks\<rparr>"

subsection \<open>Lemmas: reading one field\<close>

text \<open>Each lemma reads a field that is followed by a literal \<open>lit\<close> and anything.\<close>

named_theorems read_field "reading one field of a message"

lemma is_digit_u8_eq [simp]: "is_digit_u8 c = is_digit c"
proof (cases "char_digit c < 0")
  case True
  then have "(char_digit c + 256) mod 256 = char_digit c + 256"
    by (intro mod_pos_pos_trivial) (auto simp: char_digit_def)
  then have "char_digit c mod 256 = char_digit c + 256" by simp
  then show ?thesis using True by (simp add: is_digit_u8_def is_digit_def char_digit_def)
next
  case False
  have "int (of_char c) < int 256" by (simp only: of_nat_less_iff nat_of_char_less_256)
  then have "char_digit c < 256" unfolding char_digit_def by linarith
  with False have "char_digit c mod 256 = char_digit c" by simp
  then show ?thesis using False by (auto simp: is_digit_u8_def is_digit_def)
qed

lemma advance_app [read_field]: "length lit = n \<Longrightarrow> advance n (lit @ r) = Some r"
  by (auto simp: advance_def)

lemma deref_app [read_field]: "lit \<noteq> [] \<Longrightarrow> deref (lit @ r) = Some (hd lit)"
  by (cases lit) (auto simp: deref_def)

lemma memchr_app: "chr \<notin> set s \<Longrightarrow> length s < n \<Longrightarrow> memchr chr n (s @ chr # r) = Some (Some (chr # r))"
  by (induction s arbitrary: n) (case_tac n; auto)+

lemma skip_to_app [read_field]:
  "name_ok s \<Longrightarrow> lit \<noteq> [] \<Longrightarrow> hd lit = dq \<Longrightarrow> skip_to (s @ lit @ r) dq = Some (lit @ r)"
  by (cases lit) (auto simp: skip_to_def name_ok_def memchr_app)

lemma assign_app [read_field]: "assign (s @ lit @ r) (lit @ r) = s"
  by (simp add: assign_def)

lemma skip_digits_app: "list_all is_digit ds \<Longrightarrow> lit \<noteq> [] \<Longrightarrow> \<not> is_digit (hd lit) \<Longrightarrow> skip_digits (ds @ lit @ r) = Some (lit @ r)"
  by (induction ds) (cases lit; auto)+

lemma skip_number [read_field]: "lit \<noteq> [] \<Longrightarrow> \<not> is_digit (hd lit) \<Longrightarrow> skip_digits (dec_digits n @ lit @ r) = Some (lit @ r)"
  by (rule skip_digits_app [OF dec_digits_is_digit])

lemma parse_uint_loop_app:
  "list_all is_digit ds \<Longrightarrow> lit \<noteq> [] \<Longrightarrow> \<not> is_digit (hd lit) \<Longrightarrow>
    parse_uint_loop (word_of_nat a) (ds @ lit @ r) = Some (word_of_nat (foldl (\<lambda>a c. 10 * a + nat (char_digit c)) a ds), lit @ r)"
proof (induction ds arbitrary: a)
  case Nil
  then show ?case by (cases lit) auto
next
  case (Cons c ds)
  have e: "(word_of_nat a :: u64) * 10 + word_of_int (char_digit c) = word_of_nat (10 * a + nat (char_digit c))"
    using Cons.prems(1) by (simp add: is_digit_def mult.commute)
  show ?case unfolding append_Cons parse_uint_loop.simps e using Cons by (simp del: of_nat_add of_nat_mult)
qed

lemma parse_uint_app [read_field]:
  "lit \<noteq> [] \<Longrightarrow> \<not> is_digit (hd lit) \<Longrightarrow> parse_uint_inline (to_string_u64 w @ lit @ r) = Some (w, lit @ r)"
  using parse_uint_loop_app [OF dec_digits_is_digit, of lit 0 "unat w" r] dec_digits_value [of "unat w"]
  by (simp add: parse_uint_inline_def to_string_u64_def dec_value_def)


lemma rnd53_exact: "n < 2 ^ 53 \<Longrightarrow> rnd53 n = n"
  by (simp add: rnd53_def excess_bits.simps [of n])

lemma mantissa_step_exact: "10 * m + d < 2 ^ 53 \<Longrightarrow> mantissa_step m d = Some (10 * m + d)"
  by (simp add: mantissa_step_def rnd53_exact mult.commute)

lemma foldl_dec_mono: "a \<le> foldl (\<lambda>a c. 10 * a + nat (char_digit c)) a ds"
proof (induction ds arbitrary: a)
  case (Cons c ds)
  show ?case using Cons [of "10 * a + nat (char_digit c)"] by simp
qed simp

lemma fixed_loop_digits:
  "list_all is_digit ds \<Longrightarrow> foldl (\<lambda>a c. 10 * a + nat (char_digit c)) m ds < 2 ^ 53 \<Longrightarrow>
    fixed_loop m fd b (ds @ r) =
      fixed_loop (foldl (\<lambda>a c. 10 * a + nat (char_digit c)) m ds) (if b then fd + length ds else fd) b r"
proof (induction ds arbitrary: m fd)
  case (Cons c ds)
  have "10 * m + nat (char_digit c) < 2 ^ 53"
    using Cons.prems(2) foldl_dec_mono [of "10 * m + nat (char_digit c)" ds] by simp
  then show ?case using Cons by (simp add: mantissa_step_exact)
qed simp

lemma sdiv_pow10: "l \<le> k \<Longrightarrow> (10 ^ k :: int) sdiv 10 ^ l = 10 ^ (k - l)"
  by (simp add: sdiv_nonneg power_diff)

lemma dot_not_digit [simp]: "\<not> is_digit CHR ''.''"
  by (simp add: is_digit_def char_digit_def)

lemma dq_not_digit [simp]: "\<not> is_digit dq"
  by (simp add: is_digit_def char_digit_def)

lemma fixed_loop_dec:
  assumes "list_all is_digit ip" "list_all is_digit fp" "dec_value (ip @ fp) < 2 ^ 53"
  shows "fixed_loop 0 0 False (dec_text (ip, fp) @ dq # r) = Some (dec_value (ip @ fp), length fp, dq # r)"
proof -
  have v: "dec_value (ip @ fp) = foldl (\<lambda>a c. 10 * a + nat (char_digit c)) (dec_value ip) fp" by (simp add: dec_value_def)
  have i: "dec_value ip < 2 ^ 53" using assms(3) foldl_dec_mono [of "dec_value ip" fp] unfolding v by linarith
  have "fixed_loop 0 0 False (ip @ s) = fixed_loop (dec_value ip) 0 False s" for s
    using fixed_loop_digits [OF assms(1), of 0 0 False s] i by (simp add: dec_value_def)
  moreover have "fixed_loop (dec_value ip) 0 True (fp @ dq # r) = Some (dec_value (ip @ fp), length fp, dq # r)"
    using fixed_loop_digits [OF assms(2), of "dec_value ip" 0 True "dq # r"] assms(3) unfolding v by simp
  ultimately show ?thesis by (cases "fp = []") (simp_all add: dec_text_def)
qed

lemma dec_fixed_in_i64: "dec_ok k d \<Longrightarrow> in_i64 (dec_fixed k d)"
proof -
  assume ok: "dec_ok k d"
  obtain ip fp where d: "d = (ip, fp)" by (cases d)
  have "int (dec_value (ip @ fp) * 10 ^ (k - length fp)) < int (2 ^ 63)"
    using ok unfolding of_nat_less_iff by (simp add: dec_ok_def d)
  then show "in_i64 (dec_fixed k d)"
    by (auto simp: in_i64_def dec_fixed_def d intro: order_trans [of _ 0])
qed

lemma parse_fixed_app [read_field]:
  assumes "dec_ok k d" "lit \<noteq> []" "hd lit = dq"
  shows "parse_fixed_inline (10 ^ k) (dec_text d @ lit @ r) = Some (dec_fixed k d, tl lit @ r)"
proof -
  obtain ip fp where d: "d = (ip, fp)" by (cases d)
  obtain l where lit: "lit = dq # l" using assms(2,3) by (cases lit) auto
  have ok: "list_all is_digit ip" "list_all is_digit fp" "length fp \<le> k" "length fp \<le> 10"
    "dec_value (ip @ fp) < 2 ^ 53"
    using assms(1) by (auto simp: dec_ok_def d)
  have "i64 (dec_fixed k d) = dec_fixed k d" by (rule i64_id [OF dec_fixed_in_i64 [OF assms(1)]])
  then show ?thesis
    using fixed_loop_dec [OF ok(1,2,5), of "l @ r"] ok(3,4)
    by (auto simp: parse_fixed_inline_def d lit kPowersOf10_def sdiv_pow10 dec_fixed_def advance_def)
qed

lemma parse_level:
  assumes "dec_ok kp p" "dec_ok kq q"
  shows "parse_levels (10 ^ kp) (10 ^ kq) (level_text (p, q) @ c # r) =
    map_option (\<lambda>(ls, ptr). ((dec_fixed kp p, dec_fixed kq q) # ls, ptr))
      (parse_levels (10 ^ kp) (10 ^ kq) (if c = CHR '','' then r else c # r))"
proof -
  have "parse_fixed_inline (10 ^ kp) (dec_text p @ ''\",\"'' @ dec_text q @ ''\"]'' @ c # r)
      = Some (dec_fixed kp p, '',\"'' @ dec_text q @ ''\"]'' @ c # r)"
    using parse_fixed_app [OF assms(1), of "''\",\"''" "dec_text q @ ''\"]'' @ c # r"] by simp
  moreover have "parse_fixed_inline (10 ^ kq) (dec_text q @ ''\"]'' @ c # r) = Some (dec_fixed kq q, '']'' @ c # r)"
    using parse_fixed_app [OF assms(2), of "''\"]''" "c # r"] by simp
  ultimately show ?thesis
    by (subst parse_levels.simps)
      (auto simp: level_text_def deref_def advance_def bind_eq_Some_conv map_option_case split: option.splits)
qed

lemma parse_levels_app [read_field]:
  assumes "levels_ok kp kq ls" "lit \<noteq> []" "hd lit = CHR '']''"
  shows "parse_levels (10 ^ kp) (10 ^ kq) (levels_text ls @ lit @ r) = Some (levels_fixed kp kq ls, lit @ r)"
proof -
  obtain l where lit: "lit = CHR '']'' # l" using assms(2,3) by (cases lit) auto
  have nil: "parse_levels (10 ^ kp) (10 ^ kq) (lit @ r) = Some ([], lit @ r)"
    by (subst parse_levels.simps) (simp add: lit deref_def)
  show ?thesis using assms(1)
    by (induction ls rule: levels_text.induct)
      (use nil in \<open>auto simp: levels_ok_def levels_fixed_def parse_level lit\<close>)
qed

subsection \<open>Lemmas: the decoders\<close>

lemma decode_depth_render:
  assumes "md_ok kp kq (M_Depth stream e E T sy U u pu bids asks rest)"
  shows "decode_depth (10 ^ kp) (10 ^ kq) (render (M_Depth stream e E T sy U u pu bids asks rest))
    = Some (md_meaning kp kq (M_Depth stream e E T sy U u pu bids asks rest))"
  using assms by (simp add: decode_depth_def read_field is_digit_def char_digit_def del: append.simps)

lemma decode_trade_render:
  assumes "md_ok kp kq (M_Trade stream e E a sy p q f l T m rest)"
  shows "decode_trade (10 ^ kp) (10 ^ kq) (render (M_Trade stream e E a sy p q f l T m rest))
    = Some (md_meaning kp kq (M_Trade stream e E a sy p q f l T m rest))"
  using assms by (simp add: decode_trade_def read_field is_digit_def char_digit_def del: append.simps)

lemma decode_book_ticker_render:
  assumes "md_ok kp kq (M_BookTicker stream e u sy bp bq ap aq rest)"
  shows "decode_book_ticker (10 ^ kp) (10 ^ kq) (render (M_BookTicker stream e u sy bp bq ap aq rest))
    = Some (md_meaning kp kq (M_BookTicker stream e u sy bp bq ap aq rest))"
  using assms by (simp add: decode_book_ticker_def read_field is_digit_def char_digit_def del: append.simps)

lemma decode_snapshot_render:
  assumes "md_ok kp kq (M_Snapshot sid status u E T bids asks rest)"
  shows "decode_snapshot (10 ^ kp) (10 ^ kq) (render (M_Snapshot sid status u E T bids asks rest))
    = Some (md_meaning kp kq (M_Snapshot sid status u E T bids asks rest))"
  using assms by (simp add: decode_snapshot_def read_field is_digit_def char_digit_def del: append.simps)


lemma stream_kind_split:
  assumes "stream_kind stream = Some k"
  shows "\<exists>x a b. stream = x # a @ CHR ''@'' # k # b \<and> CHR ''@'' \<notin> set a"
proof -
  let ?d = "dropWhile (\<lambda>c. c \<noteq> CHR ''@'') (tl stream)" and ?t = "takeWhile (\<lambda>c. c \<noteq> CHR ''@'') (tl stream)"
  obtain c b where d: "?d = c # k # b"
    using assms by (auto simp: stream_kind_def split: list.splits)
  have "c = CHR ''@''" using hd_dropWhile [of "\<lambda>c. c \<noteq> CHR ''@''" "tl stream"] d by auto
  moreover have "tl stream = ?t @ ?d" by simp
  ultimately have "tl stream = ?t @ CHR ''@'' # k # b" using d by simp
  moreover have "CHR ''@'' \<notin> set ?t" by (auto dest: set_takeWhileD)
  moreover obtain x where "stream = x # tl stream" using \<open>tl stream = ?t @ CHR ''@'' # k # b\<close> by (cases stream) auto
  ultimately show ?thesis by metis
qed

lemma onepass_stream_dispatch:
  assumes "stream_kind stream = Some k"
  shows "onepass_decode glz ps qs (''{\"stream\":\"'' @ stream @ r) =
    (if k = CHR ''d'' then decode_depth ps qs (''{\"stream\":\"'' @ stream @ r)
     else if k = CHR ''a'' then decode_trade ps qs (''{\"stream\":\"'' @ stream @ r)
     else if k = CHR ''b'' then decode_book_ticker ps qs (''{\"stream\":\"'' @ stream @ r)
     else Some (decode_api_response glz (''{\"stream\":\"'' @ stream @ r)))"
proof -
  let ?p = "''{\"stream\":\"'' @ stream @ r"
  obtain x a b where st: "stream = x # a @ CHR ''@'' # k # b" "CHR ''@'' \<notin> set a" using stream_kind_split [OF assms] by blast
  have "advance kAtSearchStart ?p = Some (a @ CHR ''@'' # k # b @ r)" by (simp add: advance_def st)
  moreover have "memchr CHR ''@'' (length ?p - kAtSearchStart) (a @ CHR ''@'' # k # b @ r) = Some (Some (CHR ''@'' # k # b @ r))"
    by (rule memchr_app) (auto simp: st)
  moreover have "?p ! kFirstCharOffset = CHR ''s''" "\<not> length ?p < kMinPayloadLen" by (simp_all add: numeral_2_eq_2)
  moreover have "advance kStreamTypeOffset (CHR ''@'' # k # b @ r) = Some (k # b @ r)" by (simp add: advance_def)
  ultimately show ?thesis unfolding onepass_decode_def Let_def by (simp add: deref_def del: append.simps list.size)
qed

lemma onepass_snapshot_dispatch:
  "onepass_decode glz ps qs (''{\"id\":\"'' @ r) = decode_snapshot ps qs (''{\"id\":\"'' @ r)" if "r \<noteq> []"
  using that by (cases r) (simp_all add: onepass_decode_def numeral_2_eq_2)

lemma onepass_decode_render_l:
  assumes "md_ok kp kq msg"
  shows "onepass_decode glz (10 ^ kp) (10 ^ kq) (render msg) = Some (md_meaning kp kq msg)"
proof (cases msg)
  case (M_Depth stream e E T sy U u pu bids asks rest)
  then show ?thesis using assms decode_depth_render [of kp kq stream e E T sy U u pu bids asks rest]
    by (simp add: onepass_stream_dispatch del: append.simps)
next
  case (M_Trade stream e E a sy p q f l T m rest)
  then show ?thesis using assms decode_trade_render [of kp kq stream e E a sy p q f l T m rest]
    by (simp add: onepass_stream_dispatch del: append.simps)
next
  case (M_BookTicker stream e u sy bp bq ap aq rest)
  then show ?thesis using assms decode_book_ticker_render [of kp kq stream e u sy bp bq ap aq rest]
    by (simp add: onepass_stream_dispatch del: append.simps)
next
  case (M_Snapshot sid status u E T bids asks rest)
  then show ?thesis using assms decode_snapshot_render [of kp kq sid status u E T bids asks rest]
    by (simp add: onepass_snapshot_dispatch del: append.simps)
qed


text \<open>The depth update of the repository's decoder test.\<close>

definition demo_depth :: md_message where
  "demo_depth = M_Depth ''btcusdt@depth'' ''depthUpdate'' 1234567890123 1234567890124 ''BTCUSDT'' 100 200 99
     [((''50000'', ''5''), (''1'', ''5'')), ((''49999'', ''0''), (''2'', ''0''))]
     [((''50001'', ''0''), (''0'', ''5'')), ((''50002'', ''5''), (''1'', ''0''))] ''}}''"

definition no_json :: Glz where
  "no_json = \<lparr>read_api_response = (\<lambda>_. None), read_exchange_info = (\<lambda>_. None)\<rparr>"


subsection \<open>The two decimal parsers\<close>

lemma quoted_loop_digits:
  "list_all is_digit ds \<Longrightarrow> foldl (\<lambda>a c. 10 * a + nat (char_digit c)) m ds < 2 ^ 53 \<Longrightarrow>
    quoted_loop (int m) fd b (ds @ r) =
      quoted_loop (int (foldl (\<lambda>a c. 10 * a + nat (char_digit c)) m ds)) (if b then fd + length ds else fd) b r"
proof (induction ds arbitrary: m fd)
  case (Cons c ds)
  have "10 * m + nat (char_digit c) < 2 ^ 53"
    using Cons.prems(2) foldl_dec_mono [of "10 * m + nat (char_digit c)" ds] by simp
  moreover have "int m * 10 + char_digit c = int (10 * m + nat (char_digit c))" using Cons.prems(1) by (simp add: is_digit_def)
  ultimately have "i64 (int m * 10 + char_digit c) = int (10 * m + nat (char_digit c))"
    by (simp add: in_i64_def del: of_nat_add of_nat_mult)
  then show ?case using Cons by (simp del: of_nat_add of_nat_mult)
qed simp

lemma quoted_loop_dec:
  assumes "list_all is_digit ip" "list_all is_digit fp" "dec_value (ip @ fp) < 2 ^ 53"
  shows "quoted_loop 0 0 False (dec_text (ip, fp)) = (int (dec_value (ip @ fp)), length fp)"
proof -
  have v: "dec_value (ip @ fp) = foldl (\<lambda>a c. 10 * a + nat (char_digit c)) (dec_value ip) fp" by (simp add: dec_value_def)
  have i: "dec_value ip < 2 ^ 53" using assms(3) foldl_dec_mono [of "dec_value ip" fp] unfolding v by linarith
  have "quoted_loop 0 0 False (ip @ s) = quoted_loop (int (dec_value ip)) 0 False s" for s
    using quoted_loop_digits [OF assms(1), of 0 0 False s] i by (simp add: dec_value_def)
  moreover from this have "quoted_loop 0 0 False ip = quoted_loop (int (dec_value ip)) 0 False []" by (metis append_Nil2)
  moreover have "quoted_loop (int (dec_value ip)) 0 True fp = (int (dec_value (ip @ fp)), length fp)"
    using quoted_loop_digits [OF assms(2), of "dec_value ip" 0 True "[]"] assms(3) unfolding v by simp
  ultimately show ?thesis by (cases "fp = []") (simp_all add: dec_text_def)
qed

lemma scaled_quotient: "(v::nat) * 10 ^ k div 10 ^ l = (if l \<le> k then v * 10 ^ (k - l) else v div 10 ^ (l - k))"
proof (cases "l \<le> k")
  case True
  then have e: "v * 10 ^ k = v * 10 ^ (k - l) * 10 ^ l" by (simp flip: power_add)
  show ?thesis unfolding e using True by simp
next
  case False
  then have "(10::nat) ^ l = 10 ^ k * 10 ^ (l - k)" by (simp flip: power_add)
  then show ?thesis using False by (simp add: div_mult2_eq)
qed

text \<open>
  C37. On a decimal number the two decoders' parsers return the number scaled and truncated, and the same value, as long
  as it has no more decimals than the scale; on a number with more decimals the JSON decoder's parser still does,
  but the one-pass parser returns 0.
\<close>

theorem decimal_parsers_differ:
  assumes "list_all is_digit ip" "list_all is_digit fp" "length fp \<le> 10"
    and "dec_value (ip @ fp) < 2 ^ 53" "dec_value (ip @ fp) * 10 ^ k < 2 ^ 63"
  shows "parse_quoted_decimal_to_int (10 ^ k) (dec_text (ip, fp)) = Some (int (dec_value (ip @ fp) * 10 ^ k div 10 ^ length fp))
    \<and> parse_fixed_inline (10 ^ k) (dec_text (ip, fp) @ dq # r)
      = Some (if length fp \<le> k then int (dec_value (ip @ fp) * 10 ^ k div 10 ^ length fp) else 0, r)"
proof -
  let ?v = "dec_value (ip @ fp)" and ?l = "length fp"
  have q: "?v * 10 ^ k div 10 ^ ?l = (if ?l \<le> k then ?v * 10 ^ (k - ?l) else ?v div 10 ^ (?l - k))"
    by (rule scaled_quotient)
  have "?v * 10 ^ k div 10 ^ ?l \<le> ?v * 10 ^ k" by (rule div_le_dividend)
  then have "int (?v * 10 ^ k div 10 ^ ?l) < int (2 ^ 63)" using assms(5) unfolding of_nat_less_iff by linarith
  then have b: "in_i64 (int (?v * 10 ^ k div 10 ^ ?l))" by (auto simp: in_i64_def intro: order_trans [of _ 0])
  have sc: "(10::int) ^ k sdiv 10 ^ ?l = 0" if "k < ?l"
    using that by (simp add: sdiv_nonneg)
  have cd: "cdiv (10 ^ ?l) (10 ^ k) = Some (10 ^ (?l - k))" if "k < ?l"
  proof -
    have "(10::int) ^ (?l - k) \<le> 10 ^ 10" using assms(3) by (intro power_increasing) auto
    then have "in_i64 (10 ^ (?l - k))" by (auto simp: in_i64_def intro: order_trans [of _ 0])
    then show ?thesis using that by (simp add: cdiv_def sdiv_pow10)
  qed
  have cv: "cdiv (int ?v) (10 ^ (?l - k)) = Some (int (?v div 10 ^ (?l - k)))" if "k < ?l"
    using that b unfolding q by (simp add: cdiv_def sdiv_nonneg of_nat_div)
  have "parse_quoted_decimal_to_int (10 ^ k) (dec_text (ip, fp)) = Some (int (?v * 10 ^ k div 10 ^ ?l))"
    using assms(3) b quoted_loop_dec [OF assms(1,2,4)] unfolding q
    by (auto simp: parse_quoted_decimal_to_int_def kPowersOf10_def sdiv_pow10 cd cv)
  moreover have "parse_fixed_inline (10 ^ k) (dec_text (ip, fp) @ dq # r) = Some (if ?l \<le> k then int (?v * 10 ^ k div 10 ^ ?l) else 0, r)"
    using assms(3) b fixed_loop_dec [OF assms(1,2,4), of r] unfolding q
    by (auto simp: parse_fixed_inline_def kPowersOf10_def sdiv_pow10 sc advance_def)
  ultimately show ?thesis by (rule conjI)
qed

theorem decimal_parsers_differ_witness:
  "parse_quoted_decimal_to_int 10 ''90558.30'' = Some 905583 \<and> parse_fixed_inline 10 ''90558.30\"'' = Some (0, [])"
proof -
  have h: "list_all is_digit ''90558''" "list_all is_digit ''30''" "length ''30'' \<le> 10" "dec_value (''90558'' @ ''30'') < 2 ^ 53"
    "dec_value (''90558'' @ ''30'') * 10 ^ 1 < 2 ^ 63"
    by (simp_all add: is_digit_def char_digit_def dec_value_def)
  have "dec_text (''90558'', ''30'') = ''90558.30''" "dec_value (''90558'' @ ''30'') = 9055830"
    by (simp_all add: dec_text_def dec_value_def char_digit_def)
  then show ?thesis using decimal_parsers_differ [OF h, of "[]"] by simp
qed

subsection \<open>Messages outside the documented formats\<close>

lemma memchr_numeral: "memchr chr (numeral n) [] = None"
  "memchr chr (numeral n) (c # ptr) = (if c = chr then Some (Some (c # ptr)) else memchr chr (pred_numeral n) ptr)"
  by (simp_all add: numeral_eq_Suc)

lemmas read_simps = advance_def skip_to_def memchr_numeral deref_def assign_def is_digit_def char_digit_def parse_uint_inline_def

definition refused_snapshot :: string where
  "refused_snapshot = ''{\"id\":\"snapshot_BTCUSDC\",\"status\":429,\"error\":{\"code\":-1003,\"msg\":\"Too many requests; current limit of IP is 2400 requests per minute.\"}}''"

text \<open>A trade with the notional quantity, the field \<^verbatim>\<open>schema/futures/response/trade.h\<close> says was added at the end of 2025.\<close>

definition nq_trade :: string where
  "nq_trade = ''{\"stream\":\"btcusdc@aggTrade\",\"data\":{\"e\":\"aggTrade\",\"E\":1767225600000,\"a\":5933014,\"s\":\"BTCUSDC\",\"p\":\"90558.3\",\"q\":\"0.005\",\"nq\":\"0.005\",\"f\":100,\"l\":105,\"T\":1767225599999,\"m\":true}}''"

text \<open>
  Three inputs the decoder does not guard against: a refused snapshot request is decoded as a snapshot with update id 0
  and no levels instead of an error; an aggregate trade that carries the notional quantity, sold by the taker, is decoded
  as bought; and a payload of the minimal accepted length that starts like a stream is read past its end.
\<close>

lemma onepass_misreads:
  "onepass_decode glz 10 1000 refused_snapshot
     = Some (Md_Snapshot \<lparr>ds_id = ''snapshot_BTCUSDC'', ds_book_update_id = 0, ds_bids = [], ds_asks = []\<rparr>)
   \<and> onepass_decode glz 10 1000 nq_trade
     = Some (Md_Trade \<lparr>at_symbol = ''BTCUSDC'', at_price = 905583, at_quantity = 5, at_is_buyer_market_maker = False\<rparr>)
   \<and> onepass_decode glz 10 1000 ''{\"s\":\"\"}'' = None"
proof (intro conjI)
  show "onepass_decode glz 10 1000 refused_snapshot
     = Some (Md_Snapshot \<lparr>ds_id = ''snapshot_BTCUSDC'', ds_book_update_id = 0, ds_bids = [], ds_asks = []\<rparr>)"
    by (simp add: refused_snapshot_def onepass_decode_def decode_snapshot_def read_simps parse_levels.simps)
  show "onepass_decode glz 10 1000 nq_trade
     = Some (Md_Trade \<lparr>at_symbol = ''BTCUSDC'', at_price = 905583, at_quantity = 5, at_is_buyer_market_maker = False\<rparr>)"
    by (simp add: nq_trade_def onepass_decode_def decode_trade_def read_simps parse_fixed_inline_def
        mantissa_step_exact kPowersOf10_def sdiv_nonneg in_i64_def)
  show "onepass_decode glz 10 1000 ''{\"s\":\"\"}'' = None" by (simp add: onepass_decode_def advance_def)
qed

end
