(* ===== verification/Price_Qty_Array.thy ===== *)
theory Price_Qty_Array
  imports Onepass_Decoder
begin

text \<open>
  The readers the JSON library calls for price levels and scaled numbers (\<^verbatim>\<open>schema/price_qty_array.h\<close>,
  \<^verbatim>\<open>from<JSON, ScaledInt64PriceQtyArray>\<close> and \<^verbatim>\<open>from<JSON, ScaledInt64>\<close>). The iterator is the rest of the input it
  stands at; unlike the one-pass decoder these loops test for the end before every read. \<^term>\<open>None\<close> is an index outside the
  table of powers in \<^verbatim>\<open>parse_quoted_decimal_to_int\<close>.
\<close>

definition is_ws :: "char \<Rightarrow> bool" where
  "is_ws c \<longleftrightarrow> c = CHR '' '' \<or> c = CHR 0x09 \<or> c = CHR 0x0A \<or> c = CHR 0x0D"

text \<open>\<^verbatim>\<open>while (iter != end && *iter != c) ++iter\<close> and the step over \<open>c\<close> when it is there.\<close>

definition seek :: "char \<Rightarrow> string \<Rightarrow> string" where
  "seek c iter = dropWhile (\<lambda>x. x \<noteq> c) iter"

definition step_over :: "string \<Rightarrow> string" where
  "step_over iter = (case iter of [] \<Rightarrow> [] | _ # rest \<Rightarrow> rest)"

text \<open>A quoted text: \<^term>\<open>None\<close> when the input ends first.\<close>

definition read_quoted :: "string \<Rightarrow> (string \<times> string) option" where
  "read_quoted iter =
     (case seek dq iter of
        [] \<Rightarrow> None
      | _ # start \<Rightarrow> (case seek dq start of [] \<Rightarrow> None | q # rest \<Rightarrow> Some (assign start (q # rest), rest)))"

text \<open>One entry, after its opening bracket. The inner option is the \<^verbatim>\<open>break\<close> at the end of the input.\<close>

definition read_entry :: "int64 \<Rightarrow> int64 \<Rightarrow> string \<Rightarrow> ((int64 \<times> int64) \<times> string) option option" where
  "read_entry ps qs iter =
     (case read_quoted iter of
        None \<Rightarrow> Some None
      | Some (price_text, iter1) \<Rightarrow>
          (case parse_quoted_decimal_to_int ps price_text of
             None \<Rightarrow> None
           | Some price \<Rightarrow>
               (case read_quoted (step_over (seek CHR '','' iter1)) of
                  None \<Rightarrow> Some None
                | Some (qty_text, iter2) \<Rightarrow>
                    (case parse_quoted_decimal_to_int qs qty_text of
                       None \<Rightarrow> None
                     | Some qty \<Rightarrow> Some (Some ((price, qty), step_over (seek CHR '']'' iter2)))))))"

lemma seek_length: "length (seek c s) \<le> length s"
  by (simp add: seek_def length_dropWhile_le)

lemma step_over_length: "length (step_over s) \<le> length s"
  by (cases s) (auto simp: step_over_def)

lemma read_quoted_length: "read_quoted s = Some (t, r) \<Longrightarrow> length r < length s"
  using seek_length [of dq s] seek_length [of dq "tl (seek dq s)"] by (auto simp: read_quoted_def split: list.splits)

lemma read_entry_length: "read_entry ps qs s = Some (Some (e, r)) \<Longrightarrow> length r < length s"
  using seek_length step_over_length
  by (auto simp: read_entry_def split: option.splits prod.splits dest!: read_quoted_length)
    (meson le_less_trans less_imp_le_nat less_le_trans)

function read_levels :: "int64 \<Rightarrow> int64 \<Rightarrow> string \<Rightarrow> ((int64 \<times> int64) list \<times> string) option" where
  "read_levels ps qs iter =
     (case dropWhile is_ws iter of
        [] \<Rightarrow> Some ([], [])
      | c # rest \<Rightarrow>
          if c = CHR '']'' then Some ([], rest)
          else if c = CHR '','' then read_levels ps qs rest
          else if c \<noteq> CHR ''['' then Some ([], c # rest)
          else (case read_entry ps qs rest of
                  None \<Rightarrow> None
                | Some None \<Rightarrow> Some ([], [])
                | Some (Some (entry, iter1)) \<Rightarrow>
                    map_option (\<lambda>(entries, iter2). (entry # entries, iter2)) (read_levels ps qs iter1)))"
  by pat_completeness auto
termination
proof (relation "measure (\<lambda>(_, _, p). length p)", goal_cases)
  case (2 ps qs iter c rest)
  then show ?case using length_dropWhile_le [of is_ws iter] by simp
next
  case (3 ps qs iter c rest a b entry iter1)
  then show ?case using length_dropWhile_le [of is_ws iter] read_entry_length [of ps qs rest entry iter1] by simp
qed simp

declare read_levels.simps [simp del]

definition read_price_qty_array :: "int64 \<Rightarrow> int64 \<Rightarrow> string \<Rightarrow> ((int64 \<times> int64) list \<times> string) option" where
  "read_price_qty_array ps qs iter =
     (case dropWhile is_ws iter of
        [] \<Rightarrow> Some ([], [])
      | c # rest \<Rightarrow> if c \<noteq> CHR ''['' then Some ([], c # rest) else read_levels ps qs rest)"

text \<open>\<^verbatim>\<open>from<JSON, ScaledInt64>\<close>: the value is left as it was (\<open>old\<close>) when there is no opening quote.\<close>

definition read_scaled :: "int64 \<Rightarrow> int64 \<Rightarrow> string \<Rightarrow> (int64 \<times> string) option" where
  "read_scaled Scale old iter =
     (case dropWhile is_ws iter of
        [] \<Rightarrow> Some (old, [])
      | c # start \<Rightarrow>
          if c \<noteq> dq then Some (old, c # start)
          else map_option (\<lambda>v. (v, step_over (seek dq start))) (parse_quoted_decimal_to_int Scale (assign start (seek dq start))))"

subsection \<open>Agreement with the one-pass loop\<close>

lemma seek_app: "c \<notin> set s \<Longrightarrow> seek c (s @ c # r) = c # r"
  unfolding seek_def by (induction s) auto

lemma read_quoted_app: "dq \<notin> set s \<Longrightarrow> read_quoted (dq # s @ dq # r) = Some (s, r)"
  using seek_app [of dq s r] seek_app [of dq "[]" "s @ dq # r"] by (simp add: read_quoted_def assign_def)

lemma dec_text_no_quote: "dec_ok k d \<Longrightarrow> dq \<notin> set (dec_text d)"
  by (auto simp: dec_ok_def dec_text_def list_all_iff is_digit_def char_digit_def split: if_splits)

lemma parse_quoted_dec:
  assumes "dec_ok k d"
  shows "parse_quoted_decimal_to_int (10 ^ k) (dec_text d) = Some (dec_fixed k d)"
proof -
  obtain ip fp where d: "d = (ip, fp)" by (cases d)
  have ok: "list_all is_digit ip" "list_all is_digit fp" "length fp \<le> k" "length fp \<le> 10"
    "dec_value (ip @ fp) < 2 ^ 53" "dec_value (ip @ fp) * 10 ^ (k - length fp) < 2 ^ 63"
    using assms by (auto simp: dec_ok_def d)
  have "in_i64 (dec_fixed k d)" using assms by (rule dec_fixed_in_i64)
  then show ?thesis
    using quoted_loop_dec [OF ok(1,2,5)] ok(3,4)
    by (auto simp: parse_quoted_decimal_to_int_def d kPowersOf10_def sdiv_pow10 dec_fixed_def)
qed

lemma read_entry_app:
  assumes "dec_ok kp p" "dec_ok kq q"
  shows "read_entry (10 ^ kp) (10 ^ kq) (dq # dec_text p @ ''\",\"'' @ dec_text q @ ''\"]'' @ r)
    = Some (Some ((dec_fixed kp p, dec_fixed kq q), r))"
proof -
  have "read_quoted (dq # dec_text p @ dq # '',\"'' @ dec_text q @ ''\"]'' @ r) = Some (dec_text p, '',\"'' @ dec_text q @ ''\"]'' @ r)"
    by (rule read_quoted_app [OF dec_text_no_quote [OF assms(1)]])
  moreover have "read_quoted (dq # dec_text q @ dq # '']'' @ r) = Some (dec_text q, '']'' @ r)"
    by (rule read_quoted_app [OF dec_text_no_quote [OF assms(2)]])
  ultimately show ?thesis
    using seek_app [of "CHR '',''" "[]" "dq # dec_text q @ ''\"]'' @ r"] seek_app [of "CHR '']''" "[]" r]
    by (simp add: read_entry_def parse_quoted_dec assms step_over_def)
qed

lemma read_levels_close: "read_levels ps qs (CHR '']'' # r) = Some ([], r)"
  by (subst read_levels.simps) (simp add: is_ws_def)

lemma read_levels_comma: "read_levels ps qs (CHR '','' # r) = read_levels ps qs r"
  by (subst read_levels.simps) (simp add: is_ws_def)

lemma read_levels_entry:
  assumes "dec_ok kp p" "dec_ok kq q"
  shows "read_levels (10 ^ kp) (10 ^ kq) (level_text (p, q) @ r) =
    map_option (\<lambda>(ls, ptr). ((dec_fixed kp p, dec_fixed kq q) # ls, ptr)) (read_levels (10 ^ kp) (10 ^ kq) r)"
  using read_entry_app [OF assms, of r] by (subst read_levels.simps) (simp add: is_ws_def level_text_def)

text \<open>
  C36. The loop of the one-pass decoder and the reader of the JSON decoder agree on the price levels of a message: on the text
  of any list of levels whose numbers fit the configured precision both return the same list of scaled prices and
  quantities, in order, and stop at the closing bracket.
\<close>

theorem level_readers_agree:
  assumes "levels_ok kp kq ls"
  shows "read_price_qty_array (10 ^ kp) (10 ^ kq) (''['' @ levels_text ls @ '']'' @ r) = Some (levels_fixed kp kq ls, r)
    \<and> parse_levels (10 ^ kp) (10 ^ kq) (levels_text ls @ '']'' @ r) = Some (levels_fixed kp kq ls, '']'' @ r)"
proof
  have "read_levels (10 ^ kp) (10 ^ kq) (levels_text ls @ '']'' @ r) = Some (levels_fixed kp kq ls, r)"
    using assms by (induction ls rule: levels_text.induct)
      (auto simp: levels_ok_def levels_fixed_def read_levels_entry read_levels_close read_levels_comma)
  then show "read_price_qty_array (10 ^ kp) (10 ^ kq) (''['' @ levels_text ls @ '']'' @ r) = Some (levels_fixed kp kq ls, r)"
    by (simp add: read_price_qty_array_def is_ws_def)
  show "parse_levels (10 ^ kp) (10 ^ kq) (levels_text ls @ '']'' @ r) = Some (levels_fixed kp kq ls, '']'' @ r)"
    using assms by (intro parse_levels_app) simp_all
qed

theorem level_readers_agree_witness:
  "read_price_qty_array 10 1000 ''[[\"50000.5\",\"1.5\"],[\"49999\",\"2\"]]}'' = Some ([(500005, 1500), (499990, 2000)], ''}'')
   \<and> parse_levels 10 1000 ''[\"50000.5\",\"1.5\"],[\"49999\",\"2\"]]}'' = Some ([(500005, 1500), (499990, 2000)], '']}'')"
proof -
  have h: "levels_ok 1 3 [((''50000'', ''5''), (''1'', ''5'')), ((''49999'', []), (''2'', []))]"
    by (simp add: levels_ok_def dec_ok_def is_digit_def char_digit_def dec_value_def)
  show ?thesis using level_readers_agree [OF h, of "''}''"]
    by (simp add: level_text_def dec_text_def levels_fixed_def dec_fixed_def dec_value_def char_digit_def)
qed

end
