(* ===== verification/Md_Converter.thy ===== *)
theory Md_Converter
  imports Onepass_Decoder Mem_Pool
begin

text \<open>
  From decoded messages to market data entries: the two domain converters
  (\<^verbatim>\<open>binance_future_domain_converter.hpp\<close>, \<^verbatim>\<open>binance_spot_domain_converter.h\<close>) and the two dispatch routers. An
  entry is constructed in a block of the entry pool (\<open>Mem_Pool\<close>) and a message holds the pointers, \<^term>\<open>None\<close> for
  null. The visitors that build depth updates and snapshots push a null pointer when the pool is exhausted; those for
  trades and book tickers leave it out. \<^verbatim>\<open>INI_CONFIG.get("meta", "ticker")\<close> is the argument \<open>ticker\<close>. Numbers of the
  instrument list are \<^verbatim>\<open>double\<close>: the type \<open>'d\<close>, with \<^verbatim>\<open>strtod\<close> as the argument \<open>strtod\<close>, \<^term>\<open>None\<close> when nothing was
  read. A default \<^verbatim>\<open>MarketUpdateData\<close> is zero-initialised, so its type is \<open>kTrade\<close>.
\<close>

type_synonym md_pool = "MarketData mpool"

text \<open>\<^verbatim>\<open>MarketUpdateData\<close> with the pointers of its entries.\<close>

record MdUpdate =
  up_start_idx :: u64
  up_end_idx :: u64
  up_prev_end_idx :: u64
  up_type :: MarketDataType
  up_data :: "bin_ptr list"

definition MdUpdate_default :: MdUpdate where
  "MdUpdate_default = \<lparr>up_start_idx = 0, up_end_idx = 0, up_prev_end_idx = 0, up_type = Mdt_kTrade, up_data = []\<rparr>"

definition md_entry :: "string \<Rightarrow> Side \<Rightarrow> MarketUpdateType \<Rightarrow> int64 \<times> int64 \<Rightarrow> MarketData" where
  "md_entry symbol side update_type level =
     (case level of (price, qty) \<Rightarrow>
        \<lparr>md_type = (if qty \<le> 0 then kCancel else update_type), md_order_id = 0, md_ticker_id = symbol, md_side = side,
         md_price = price, md_qty = qty\<rparr>)"

definition make_entry :: "md_pool \<Rightarrow> string \<Rightarrow> Side \<Rightarrow> int64 \<Rightarrow> int64 \<Rightarrow> MarketUpdateType \<Rightarrow> md_pool \<times> bin_ptr" where
  "make_entry pool symbol side price qty update_type = pool_allocate pool (md_entry symbol side update_type (price, qty))"

definition clear_entry :: "string \<Rightarrow> MarketData" where
  "clear_entry symbol =
     \<lparr>md_type = kClear, md_order_id = kOrderIdInvalid, md_ticker_id = symbol, md_side = Side_kInvalid, md_price = 0, md_qty = 0\<rparr>"

text \<open>The loop over the levels of one side.\<close>

fun push_levels :: "string \<Rightarrow> Side \<Rightarrow> (int64 \<times> int64) list \<Rightarrow> md_pool \<times> bin_ptr list \<Rightarrow> md_pool \<times> bin_ptr list" where
  "push_levels symbol side [] st = st"
| "push_levels symbol side ((price, qty) # levels) (pool, entries) =
     (case make_entry pool symbol side price qty kAdd of (pool', entry) \<Rightarrow> push_levels symbol side levels (pool', entries @ [entry]))"

definition push_clear :: "string \<Rightarrow> md_pool \<times> bin_ptr list \<Rightarrow> md_pool \<times> bin_ptr list" where
  "push_clear symbol st =
     (case st of (pool, entries) \<Rightarrow> (case pool_allocate pool (clear_entry symbol) of (pool', entry) \<Rightarrow> (pool', entries @ [entry])))"

definition push_checked :: "string \<Rightarrow> Side \<Rightarrow> int64 \<Rightarrow> int64 \<Rightarrow> MarketUpdateType \<Rightarrow> md_pool \<times> bin_ptr list \<Rightarrow> md_pool \<times> bin_ptr list" where
  "push_checked symbol side price qty update_type st =
     (case st of (pool, entries) \<Rightarrow>
        (case make_entry pool symbol side price qty update_type of
           (pool', entry) \<Rightarrow> (pool', if entry \<noteq> None then entries @ [entry] else entries)))"

text \<open>A depth update and a snapshot with the given ids: the common body of their visitors.\<close>

definition depth_update :: "string \<Rightarrow> u64 \<Rightarrow> u64 \<Rightarrow> (int64 \<times> int64) list \<Rightarrow> (int64 \<times> int64) list \<Rightarrow> md_pool \<Rightarrow> md_pool \<times> MdUpdate" where
  "depth_update symbol start_id end_id bids asks pool =
     (case push_levels symbol kSell asks (push_levels symbol kBuy bids (pool, [])) of
        (pool', entries) \<Rightarrow> (pool', MdUpdate_default\<lparr>up_start_idx := start_id, up_end_idx := end_id, up_type := Mdt_kMarket, up_data := entries\<rparr>))"

definition snapshot_update :: "string \<Rightarrow> u64 \<Rightarrow> (int64 \<times> int64) list \<Rightarrow> (int64 \<times> int64) list \<Rightarrow> md_pool \<Rightarrow> md_pool \<times> MdUpdate" where
  "snapshot_update symbol update_id bids asks pool =
     (case push_levels symbol kSell asks (push_levels symbol kBuy bids (push_clear symbol (pool, []))) of
        (pool', entries) \<Rightarrow> (pool', MdUpdate_default\<lparr>up_start_idx := update_id, up_end_idx := update_id, up_type := Mdt_kMarket, up_data := entries\<rparr>))"

definition trade_side :: "bool \<Rightarrow> Side" where
  "trade_side is_buyer_market_maker = (if is_buyer_market_maker then kSell else kBuy)"

definition trade_update :: "md_pool \<times> bin_ptr list \<Rightarrow> md_pool \<times> MdUpdate" where
  "trade_update st = (case st of (pool, entries) \<Rightarrow>
     (pool, MdUpdate_default\<lparr>up_start_idx := - 1, up_end_idx := - 1, up_type := Mdt_kTrade, up_data := entries\<rparr>))"

subsection \<open>Futures\<close>

fun futures_market_data_visitor :: "string \<Rightarrow> MdWireMessage \<Rightarrow> md_pool \<Rightarrow> md_pool \<times> MdUpdate" where
  "futures_market_data_visitor ticker (Md_Depth msg) pool =
     (case depth_update (dd_symbol msg) (dd_start_update_id msg) (dd_end_update_id msg) (dd_bids msg) (dd_asks msg) pool of
        (pool', result) \<Rightarrow> (pool', result\<lparr>up_prev_end_idx := dd_final_update_id_in_last_stream msg\<rparr>))"
| "futures_market_data_visitor ticker (Md_Trade msg) pool =
     trade_update (push_checked (at_symbol msg) (trade_side (at_is_buyer_market_maker msg)) (at_price msg) (at_quantity msg) kTrade (pool, []))"
| "futures_market_data_visitor ticker (Md_BookTicker msg) pool =
     (case push_checked (bt_symbol msg) kSell (bt_best_ask_price msg) (bt_best_ask_qty msg) kBookTicker
             (push_checked (bt_symbol msg) kBuy (bt_best_bid_price msg) (bt_best_bid_qty msg) kBookTicker (pool, [])) of
        (pool', entries) \<Rightarrow> (pool', MdUpdate_default\<lparr>up_start_idx := bt_update_id msg, up_end_idx := bt_update_id msg,
           up_type := Mdt_kBookTicker, up_data := entries\<rparr>))"
| "futures_market_data_visitor ticker (Md_Snapshot msg) pool =
     snapshot_update ticker (ds_book_update_id msg) (ds_bids msg) (ds_asks msg) pool"
| "futures_market_data_visitor ticker _ pool = (pool, MdUpdate_default)"

text \<open>The symbol after the first underscore of a snapshot id, the configured ticker when there is none.\<close>

definition snapshot_symbol :: "string \<Rightarrow> string \<Rightarrow> string" where
  "snapshot_symbol ticker sid =
     (case dropWhile (\<lambda>c. c \<noteq> CHR ''_'') sid of _ # c # rest \<Rightarrow> c # rest | _ \<Rightarrow> ticker)"

fun futures_snapshot_visitor :: "string \<Rightarrow> MdWireMessage \<Rightarrow> md_pool \<Rightarrow> md_pool \<times> MdUpdate" where
  "futures_snapshot_visitor ticker (Md_Snapshot msg) pool =
     snapshot_update (snapshot_symbol ticker (ds_id msg)) (ds_book_update_id msg) (ds_bids msg) (ds_asks msg) pool"
| "futures_snapshot_visitor ticker _ pool = (pool, MdUpdate_default)"

fun futures_dispatch_type :: "MdWireMessage \<Rightarrow> string option" where
  "futures_dispatch_type (Md_Snapshot _) = Some ''W''"
| "futures_dispatch_type (Md_Depth _) = Some ''X''"
| "futures_dispatch_type (Md_Trade _) = Some ''X''"
| "futures_dispatch_type (Md_BookTicker _) = Some ''X''"
| "futures_dispatch_type _ = None"

subsection \<open>Spot\<close>

text \<open>The messages of the JSON and of the binary stream, with the fields the converter reads.\<close>

datatype SpotWireMessage =
    Sp_Monostate
  | Sp_Depth string u64 u64 "(int64 \<times> int64) list" "(int64 \<times> int64) list"
  | Sp_Trade string int64 int64 bool
  | Sp_Snapshot string u64 "(int64 \<times> int64) list" "(int64 \<times> int64) list"
  | Sp_SbeDepth string u64 u64 "(int64 \<times> int64) list" "(int64 \<times> int64) list"
  | Sp_SbeTrade string "(int64 \<times> int64 \<times> bool) list"
  | Sp_SbeSnapshot string u64 "(int64 \<times> int64) list" "(int64 \<times> int64) list"
  | Sp_SbeBestBidAsk string u64 int64 int64 int64 int64
  | Sp_Api ApiResponse
  | Sp_ExchangeInfo string "SymbolInfo list"

fun spot_market_data_visitor :: "SpotWireMessage \<Rightarrow> md_pool \<Rightarrow> md_pool \<times> MdUpdate" where
  "spot_market_data_visitor (Sp_Depth symbol start_id end_id bids asks) pool = depth_update symbol start_id end_id bids asks pool"
| "spot_market_data_visitor (Sp_Trade symbol price quantity is_buyer_market_maker) pool =
     trade_update (push_checked symbol (trade_side is_buyer_market_maker) price quantity kTrade (pool, []))"
| "spot_market_data_visitor (Sp_SbeDepth symbol first_id last_id bids asks) pool = depth_update symbol first_id last_id bids asks pool"
| "spot_market_data_visitor (Sp_SbeTrade symbol trades) pool =
     trade_update (fold (\<lambda>(price, qty, is_buyer_maker). push_checked symbol (trade_side is_buyer_maker) price qty kTrade) trades (pool, []))"
| "spot_market_data_visitor (Sp_SbeSnapshot symbol update_id bids asks) pool = snapshot_update symbol update_id bids asks pool"
| "spot_market_data_visitor (Sp_SbeBestBidAsk symbol update_id bid_price bid_qty ask_price ask_qty) pool =
     depth_update symbol update_id update_id [(bid_price, bid_qty)] [(ask_price, ask_qty)] pool"
| "spot_market_data_visitor _ pool = (pool, MdUpdate_default)"

fun spot_snapshot_visitor :: "string \<Rightarrow> SpotWireMessage \<Rightarrow> md_pool \<Rightarrow> md_pool \<times> MdUpdate" where
  "spot_snapshot_visitor ticker (Sp_Snapshot sid update_id bids asks) pool =
     snapshot_update (snapshot_symbol ticker sid) update_id bids asks pool"
| "spot_snapshot_visitor ticker (Sp_SbeSnapshot symbol update_id bids asks) pool = snapshot_update symbol update_id bids asks pool"
| "spot_snapshot_visitor ticker _ pool = (pool, MdUpdate_default)"

fun spot_dispatch_type :: "SpotWireMessage \<Rightarrow> string option" where
  "spot_dispatch_type (Sp_SbeSnapshot _ _ _ _) = Some ''W''"
| "spot_dispatch_type (Sp_Snapshot _ _ _ _) = Some ''W''"
| "spot_dispatch_type (Sp_SbeDepth _ _ _ _ _) = Some ''X''"
| "spot_dispatch_type (Sp_Depth _ _ _ _ _) = Some ''X''"
| "spot_dispatch_type (Sp_SbeTrade _ _) = Some ''X''"
| "spot_dispatch_type (Sp_Trade _ _ _ _) = Some ''X''"
| "spot_dispatch_type (Sp_SbeBestBidAsk _ _ _ _ _ _) = Some ''X''"
| "spot_dispatch_type (Sp_ExchangeInfo _ _) = Some ''y''"
| "spot_dispatch_type _ = None"

subsection \<open>Instruments and rejects\<close>

record 'd RelatedSym =
  rs_symbol :: string
  rs_currency :: string
  rs_min_trade_vol :: 'd
  rs_max_trade_vol :: 'd
  rs_min_qty_increment :: 'd
  rs_market_min_trade_vol :: 'd
  rs_market_max_trade_vol :: 'd
  rs_market_min_qty_increment :: 'd
  rs_min_price_increment :: 'd

record 'd InstrumentInfo =
  ii_instrument_req_id :: string
  ii_no_related_sym :: nat
  ii_symbols :: "'d RelatedSym list"

definition parse_or_default :: "(string \<Rightarrow> 'd option) \<Rightarrow> string option \<Rightarrow> 'd \<Rightarrow> 'd" where
  "parse_or_default strtod str default_value =
     (case str of
        None \<Rightarrow> default_value
      | Some s \<Rightarrow> if s = [] then default_value else (case strtod s of None \<Rightarrow> default_value | Some v \<Rightarrow> v))"

text \<open>The last filter of a type, as the loop leaves it.\<close>

definition last_filter :: "string \<Rightarrow> SymbolFilter list \<Rightarrow> SymbolFilter option" where
  "last_filter ty filters = fold (\<lambda>f found. if sf_filter_type f = ty then Some f else found) filters None"

definition related_sym :: "(string \<Rightarrow> 'd option) \<Rightarrow> 'd \<Rightarrow> 'd \<Rightarrow> SymbolInfo \<Rightarrow> 'd RelatedSym" where
  "related_sym strtod zero kTickSize sy =
     (let num = parse_or_default strtod;
          related = \<lparr>rs_symbol = si_symbol sy, rs_currency = si_quote_asset sy, rs_min_trade_vol = zero, rs_max_trade_vol = zero,
            rs_min_qty_increment = zero, rs_market_min_trade_vol = zero, rs_market_max_trade_vol = zero,
            rs_market_min_qty_increment = zero, rs_min_price_increment = zero\<rparr>;
          r1 = (case last_filter ''LOT_SIZE'' (si_filters sy) of
                  None \<Rightarrow> related
                | Some f \<Rightarrow> related\<lparr>rs_min_trade_vol := num (sf_min_qty f) zero, rs_max_trade_vol := num (sf_max_qty f) zero,
                    rs_min_qty_increment := num (sf_step_size f) zero\<rparr>);
          r2 = (case last_filter ''MARKET_LOT_SIZE'' (si_filters sy) of
                  Some f \<Rightarrow> r1\<lparr>rs_market_min_trade_vol := num (sf_min_qty f) (rs_min_trade_vol r1),
                    rs_market_max_trade_vol := num (sf_max_qty f) (rs_max_trade_vol r1),
                    rs_market_min_qty_increment := num (sf_step_size f) (rs_min_qty_increment r1)\<rparr>
                | None \<Rightarrow> r1\<lparr>rs_market_min_trade_vol := rs_min_trade_vol r1, rs_market_max_trade_vol := rs_max_trade_vol r1,
                    rs_market_min_qty_increment := rs_min_qty_increment r1\<rparr>)
      in (case last_filter ''PRICE_FILTER'' (si_filters sy) of
            None \<Rightarrow> r2
          | Some f \<Rightarrow> r2\<lparr>rs_min_price_increment := num (sf_tick_size f) kTickSize\<rparr>))"

definition instrument_info :: "(string \<Rightarrow> 'd option) \<Rightarrow> 'd \<Rightarrow> 'd \<Rightarrow> string \<Rightarrow> SymbolInfo list \<Rightarrow> 'd InstrumentInfo" where
  "instrument_info strtod zero kTickSize req_id symbols =
     \<lparr>ii_instrument_req_id = req_id, ii_no_related_sym = length symbols, ii_symbols = map (related_sym strtod zero kTickSize) symbols\<rparr>"

record MarketDataReject =
  mr_session_reject_reason :: string
  mr_rejected_message_type :: int
  mr_error_message :: string
  mr_error_code :: int

definition md_reject :: "ApiResponse \<Rightarrow> MarketDataReject" where
  "md_reject msg =
     (let reject = \<lparr>mr_session_reject_reason = [], mr_rejected_message_type = 0, mr_error_message = [], mr_error_code = 0\<rparr>
      in case ap_error msg of
           None \<Rightarrow> reject
         | Some e \<Rightarrow> reject\<lparr>mr_error_code := er_code e, mr_session_reject_reason := er_message e, mr_error_message := er_message e\<rparr>)"

end
