(* ===== verification/Md_Feed.thy ===== *)
theory Md_Feed
  imports Md_Converter Book_Variants
begin

text \<open>
  The market data path from a payload to the order book: decoding (\<open>Onepass_Decoder\<close>), conversion (\<open>Md_Converter\<close>) and the
  loop of the trade engine that applies the entries of a message and returns their blocks to the pool
  (\<^verbatim>\<open>TradeEngine::run\<close>). \<open>feed_payload\<close> puts them in sequence for a payload the market data consumer passes on. The
  consumer's sequence checks are in \<open>Market_Consumer\<close>; the queue between the two threads keeps order and content by
  \<open>SPSC_Threads\<close>. The book is a parameter; the properties are for the bucket book.
\<close>

text \<open>A null entry is dereferenced, and an unknown ticker is: \<^term>\<open>None\<close>.\<close>

fun consume_entries :: "('b \<Rightarrow> MarketData \<Rightarrow> 'b option) \<Rightarrow> bin_ptr list \<Rightarrow> md_pool \<Rightarrow> (string \<rightharpoonup> 'b) \<Rightarrow> (md_pool \<times> (string \<rightharpoonup> 'b)) option" where
  "consume_entries upd [] pool books = Some (pool, books)"
| "consume_entries upd (None # entries) pool books = None"
| "consume_entries upd (Some ptr # entries) pool books =
     (let market_data = pool_get pool ptr
      in case books (md_ticker_id market_data) of
           None \<Rightarrow> None
         | Some book \<Rightarrow>
             (case upd book market_data of
                None \<Rightarrow> None
              | Some book' \<Rightarrow>
                  consume_entries upd entries (fst (pool_deallocate pool (Some ptr))) (books(md_ticker_id market_data \<mapsto> book'))))"

text \<open>
  The websocket application decodes a payload and routes it: type \<open>W\<close> to the snapshot visitor, type \<open>X\<close> to the market data
  visitor. The connection marker of the transport is not a message. The result is the pool and the update, if any.
\<close>

definition stream_update :: "Glz \<Rightarrow> int64 \<Rightarrow> int64 \<Rightarrow> string \<Rightarrow> string \<Rightarrow> md_pool \<Rightarrow> (md_pool \<times> MdUpdate option) option" where
  "stream_update glz ps qs ticker payload pool =
     (if payload = [] \<or> payload = ''__CONNECTED__'' then Some (pool, None)
      else do {
        msg \<leftarrow> onepass_decode glz ps qs payload;
        Some (case futures_dispatch_type msg of
                None \<Rightarrow> (pool, None)
              | Some ty \<Rightarrow>
                  (case (if ty = ''W'' then futures_snapshot_visitor ticker msg pool else futures_market_data_visitor ticker msg pool) of
                     (pool', u) \<Rightarrow> (pool', Some u)))
      })"

definition feed_payload ::
  "Glz \<Rightarrow> int64 \<Rightarrow> int64 \<Rightarrow> string \<Rightarrow> ('b \<Rightarrow> MarketData \<Rightarrow> 'b option) \<Rightarrow> string \<Rightarrow> md_pool \<times> (string \<rightharpoonup> 'b) \<Rightarrow> (md_pool \<times> (string \<rightharpoonup> 'b)) option" where
  "feed_payload glz ps qs ticker upd payload st = (case st of (pool, books) \<Rightarrow> do {
     (pool', u) \<leftarrow> stream_update glz ps qs ticker payload pool;
     (case u of None \<Rightarrow> Some (pool', books) | Some up \<Rightarrow> consume_entries upd (up_data up) pool' books)
   })"

lemma render_is_message: "render m \<noteq> []" "render m \<noteq> ''__CONNECTED__''"
  by (cases m; simp)+

fun feed_payloads ::
  "Glz \<Rightarrow> int64 \<Rightarrow> int64 \<Rightarrow> string \<Rightarrow> ('b \<Rightarrow> MarketData \<Rightarrow> 'b option) \<Rightarrow> string list \<Rightarrow> md_pool \<times> (string \<rightharpoonup> 'b) \<Rightarrow> (md_pool \<times> (string \<rightharpoonup> 'b)) option" where
  "feed_payloads glz ps qs ticker upd [] st = Some st"
| "feed_payloads glz ps qs ticker upd (payload # payloads) st =
     (case feed_payload glz ps qs ticker upd payload st of None \<Rightarrow> None | Some st' \<Rightarrow> feed_payloads glz ps qs ticker upd payloads st')"

abbreviation bucket_update :: "bucket_book \<Rightarrow> MarketData \<Rightarrow> bucket_book option" where
  "bucket_update b md \<equiv> map_option fst (on_market_data_updated b md)"

subsection \<open>Lemmas: building the entries\<close>

text \<open>Pointers \<open>ps\<close> to fresh blocks that hold \<open>mds\<close>, and nothing else of the pool changed.\<close>

definition entries_built :: "md_pool \<Rightarrow> md_pool \<Rightarrow> int list \<Rightarrow> MarketData list \<Rightarrow> bool" where
  "entries_built p p' ps mds \<longleftrightarrow>
     pool_inv p' \<and> pool_capacity p' = pool_capacity p \<and> distinct ps \<and> set ps \<inter> pool_live p = {}
     \<and> pool_live p' = pool_live p \<union> set ps \<and> map (pool_get p') ps = mds"

lemma entries_built_nil: "pool_inv p \<Longrightarrow> entries_built p p [] []"
  by (simp add: entries_built_def)

lemma entries_built_card:
  assumes "pool_inv p" "entries_built p p' ps mds"
  shows "card (pool_live p') = card (pool_live p) + length mds"
proof -
  have "card (pool_live p \<union> set ps) = card (pool_live p) + card (set ps)"
    using assms pool.live_bound [OF assms(1)] by (intro card_Un_disjoint) (auto simp: entries_built_def)
  then show ?thesis using assms(2) by (auto simp: entries_built_def distinct_card)
qed

lemma entries_built_step:
  assumes "pool_inv p" "entries_built p p' ps mds" "card (pool_live p) + length mds < pool_capacity p"
  shows "\<exists>p'' i. pool_allocate p' md = (p'', Some i) \<and> entries_built p p'' (ps @ [i]) (mds @ [md])"
proof -
  have e: "pool_inv p'" "pool_capacity p' = pool_capacity p" "distinct ps" "set ps \<inter> pool_live p = {}"
    "pool_live p' = pool_live p \<union> set ps" "map (pool_get p') ps = mds"
    using assms(2) by (auto simp: entries_built_def)
  have "card (pool_live p') < pool_capacity p'" using entries_built_card [OF assms(1,2)] assms(3) e(2) by simp
  then obtain p'' i where a: "pool_allocate p' md = (p'', Some i)" using pool.alloc_succeeds [OF e(1)] by metis
  note s = pool.alloc_some [OF e(1) a]
  have "map (pool_get p'') ps = map (pool_get p') ps" using s e(5) by auto
  then have "entries_built p p'' (ps @ [i]) (mds @ [md])" using s e by (auto simp: entries_built_def)
  then show ?thesis using a by blast
qed

lemma push_levels_built:
  assumes "pool_inv p" "entries_built p p' ps mds" "card (pool_live p) + length mds + length ls \<le> pool_capacity p"
  shows "\<exists>p'' ps'. push_levels sy sd ls (p', map Some ps) = (p'', map Some ps') \<and> entries_built p p'' ps' (mds @ map (md_entry sy sd kAdd) ls)"
  using assms
proof (induction ls arbitrary: p' ps mds)
  case (Cons l ls)
  obtain pr q where l: "l = (pr, q)" by (cases l)
  obtain p1 i where a: "pool_allocate p' (md_entry sy sd kAdd l) = (p1, Some i)"
    and b: "entries_built p p1 (ps @ [i]) (mds @ [md_entry sy sd kAdd l])"
    using entries_built_step [OF Cons.prems(1,2)] Cons.prems(3) by fastforce
  then show ?case using Cons.IH [OF Cons.prems(1) b] Cons.prems(3) by (simp add: l make_entry_def)
qed auto

lemma depth_update_built:
  assumes "pool_inv p" "card (pool_live p) + length bids + length asks \<le> pool_capacity p"
  shows "\<exists>p' ps u. depth_update sy s e bids asks p = (p', u) \<and> up_data u = map Some ps
    \<and> entries_built p p' ps (map (md_entry sy kBuy kAdd) bids @ map (md_entry sy kSell kAdd) asks)"
proof -
  obtain p1 ps1 where b: "push_levels sy kBuy bids (p, map Some []) = (p1, map Some ps1)"
    "entries_built p p1 ps1 ([] @ map (md_entry sy kBuy kAdd) bids)"
    using push_levels_built [OF assms(1) entries_built_nil [OF assms(1)], of bids sy kBuy] assms(2) by auto
  obtain p2 ps2 where a: "push_levels sy kSell asks (p1, map Some ps1) = (p2, map Some ps2)"
    "entries_built p p2 ps2 (([] @ map (md_entry sy kBuy kAdd) bids) @ map (md_entry sy kSell kAdd) asks)"
    using push_levels_built [OF assms(1) b(2), of asks sy kSell] assms(2) by auto
  show ?thesis using a b by (auto simp: depth_update_def)
qed

lemma snapshot_update_built:
  assumes "pool_inv p" "card (pool_live p) + length bids + length asks < pool_capacity p"
  shows "\<exists>p' ps u. snapshot_update sy s bids asks p = (p', u) \<and> up_data u = map Some ps
    \<and> entries_built p p' ps (clear_entry sy # map (md_entry sy kBuy kAdd) bids @ map (md_entry sy kSell kAdd) asks)"
proof -
  obtain p0 i where c: "pool_allocate p (clear_entry sy) = (p0, Some i)" "entries_built p p0 [i] [clear_entry sy]"
    using entries_built_step [OF assms(1) entries_built_nil [OF assms(1)], of "clear_entry sy"] assms(2) by auto
  obtain p1 ps1 where b: "push_levels sy kBuy bids (p0, map Some [i]) = (p1, map Some ps1)"
    "entries_built p p1 ps1 ([clear_entry sy] @ map (md_entry sy kBuy kAdd) bids)"
    using push_levels_built [OF assms(1) c(2), of bids sy kBuy] assms(2) by auto
  obtain p2 ps2 where a: "push_levels sy kSell asks (p1, map Some ps1) = (p2, map Some ps2)"
    "entries_built p p2 ps2 (([clear_entry sy] @ map (md_entry sy kBuy kAdd) bids) @ map (md_entry sy kSell kAdd) asks)"
    using push_levels_built [OF assms(1) b(2), of asks sy kSell] assms(2) by auto
  show ?thesis using a b c by (auto simp: snapshot_update_def push_clear_def)
qed

subsection \<open>Lemmas: consuming the entries\<close>

lemma consume_entries_feed:
  assumes "pool_inv p" "distinct ps" "set ps \<subseteq> pool_live p" "books tk = Some b"
    "\<And>i. i \<in> set ps \<Longrightarrow> md_ticker_id (pool_get p i) = tk" "feed_all upd b (map (pool_get p) ps) = Some b'"
  shows "\<exists>p'. consume_entries upd (map Some ps) p books = Some (p', books(tk \<mapsto> b')) \<and> pool_inv p'
    \<and> pool_capacity p' = pool_capacity p \<and> pool_live p' = pool_live p - set ps"
  using assms
proof (induction ps arbitrary: p books b)
  case Nil
  then show ?case by (auto simp: fun_upd_idem)
next
  case (Cons i ps)
  obtain p1 r where d: "pool_deallocate p (Some i) = (p1, r)" by fastforce
  note f = pool.free_live [OF Cons.prems(1) _ d]
  obtain b1 where u: "upd b (pool_get p i) = Some b1" "feed_all upd b1 (map (pool_get p) ps) = Some b'"
    using Cons.prems(6) by (auto split: option.splits)
  have g: "pool_get p1 j = pool_get p j" if "j \<in> set ps" for j using f Cons.prems(2,3) that by auto
  have m: "map (pool_get p1) ps = map (pool_get p) ps" using g by simp
  have "\<exists>p'. consume_entries upd (map Some ps) p1 (books(tk \<mapsto> b1)) = Some (p', (books(tk \<mapsto> b1))(tk \<mapsto> b')) \<and> pool_inv p'
      \<and> pool_capacity p' = pool_capacity p1 \<and> pool_live p' = pool_live p1 - set ps"
    by (rule Cons.IH) (use f Cons.prems g u(2) in \<open>auto simp: m\<close>)
  then obtain p' where p': "consume_entries upd (map Some ps) p1 (books(tk \<mapsto> b1)) = Some (p', books(tk \<mapsto> b'))" "pool_inv p'"
      "pool_capacity p' = pool_capacity p1" "pool_live p' = pool_live p1 - set ps"
    unfolding fun_upd_upd by blast
  moreover have "consume_entries upd (map Some (i # ps)) p books = consume_entries upd (map Some ps) p1 (books(tk \<mapsto> b1))"
    using Cons.prems(4,5) u(1) d by (simp add: Let_def)
  ultimately show ?case using f Cons.prems(3) by auto
qed

lemma built_consumed:
  assumes "entries_built p p' ps mds" "books tk = Some b" "list_all (\<lambda>md. md_ticker_id md = tk) mds" "feed_all upd b mds = Some b'"
  shows "\<exists>p''. consume_entries upd (map Some ps) p' books = Some (p'', books(tk \<mapsto> b')) \<and> pool_inv p''
    \<and> pool_capacity p'' = pool_capacity p \<and> pool_live p'' = pool_live p"
proof -
  have e: "pool_inv p'" "pool_capacity p' = pool_capacity p" "distinct ps" "set ps \<inter> pool_live p = {}"
    "pool_live p' = pool_live p \<union> set ps" "map (pool_get p') ps = mds"
    using assms(1) by (auto simp: entries_built_def)
  have "md_ticker_id (pool_get p' i) = tk" if "i \<in> set ps" for i using assms(3) that by (auto simp: list_all_iff simp flip: e(6))
  moreover have "pool_live p \<union> set ps - set ps = pool_live p" using e(4) by auto
  ultimately show ?thesis
    using consume_entries_feed [of p' ps books tk b upd b'] assms(2,4) e(1,3) unfolding e(6) e(5) e(2) by auto
qed

lemma md_entry_feed_ok [simp]: "feed_ok cfg (md_entry sy sd kAdd l)"
  by (cases l) (auto simp: feed_ok_def md_entry_def)

lemma md_entry_fields [simp]:
  "md_ticker_id (md_entry sy sd ty l) = sy" "md_side (md_entry sy sd ty l) = sd" "md_price (md_entry sy sd ty l) = fst l"
  by (cases l; simp add: md_entry_def)+

subsection \<open>Properties\<close>

text \<open>The entries of a depth update, and its symbol and number of levels.\<close>

fun depth_entries :: "nat \<Rightarrow> nat \<Rightarrow> md_message \<Rightarrow> MarketData list" where
  "depth_entries kp kq (M_Depth stream e E T sy U u pu bids asks rest) =
     map (md_entry sy kBuy kAdd) (levels_fixed kp kq bids) @ map (md_entry sy kSell kAdd) (levels_fixed kp kq asks)"
| "depth_entries kp kq _ = []"

fun depth_of :: "string \<Rightarrow> nat \<Rightarrow> md_message \<Rightarrow> bool" where
  "depth_of tk n (M_Depth stream e E T sy U u pu bids asks rest) \<longleftrightarrow> sy = tk \<and> length bids + length asks \<le> n"
| "depth_of tk n _ \<longleftrightarrow> False"

lemma feed_depth_payload:
  assumes "md_ok kp kq m" "depth_of tk n m" "pool_inv p" "card (pool_live p) + n \<le> pool_capacity p" "books tk = Some b"
    "feed_all upd b (depth_entries kp kq m) = Some b'"
  shows "\<exists>p'. feed_payload glz (10 ^ kp) (10 ^ kq) ticker upd (render m) (p, books) = Some (p', books(tk \<mapsto> b')) \<and> pool_inv p'
    \<and> pool_capacity p' = pool_capacity p \<and> pool_live p' = pool_live p"
proof (cases m)
  case (M_Depth stream e E T sy U u pu bids asks rest)
  let ?b = "levels_fixed kp kq bids" and ?a = "levels_fixed kp kq asks"
  have l: "length ?b = length bids" "length ?a = length asks" by (simp_all add: levels_fixed_def)
  have sy: "sy = tk" using assms(2) M_Depth by simp
  obtain p1 ps u1 where d: "depth_update tk U u ?b ?a p = (p1, u1)" "up_data u1 = map Some ps" "entries_built p p1 ps (depth_entries kp kq m)"
    using depth_update_built [OF assms(3), of ?b ?a tk U u] assms(2,4) l by (auto simp: M_Depth)
  have t: "list_all (\<lambda>md. md_ticker_id md = tk) (depth_entries kp kq m)" by (auto simp: M_Depth sy list_all_iff)
  show ?thesis
    using built_consumed [of p p1 ps "depth_entries kp kq m" books tk b upd b'] d(3) assms(5,6) t onepass_decode_render_l [OF assms(1), of glz] d(1,2)
    by (simp add: feed_payload_def stream_update_def render_is_message M_Depth sy del: render.simps)
qed (use assms(2) in simp_all)

lemma feed_all_append: "feed_all step b (xs @ ys) = (case feed_all step b xs of None \<Rightarrow> None | Some b' \<Rightarrow> feed_all step b' ys)"
  by (induction xs arbitrary: b) (auto split: option.splits)

lemma feed_depth_payloads:
  assumes "list_all (\<lambda>m. md_ok kp kq m \<and> depth_of tk n m) ms" "pool_inv p" "card (pool_live p) + n \<le> pool_capacity p" "books tk = Some b"
    "feed_all upd b (concat (map (depth_entries kp kq) ms)) = Some b'"
  shows "\<exists>p'. feed_payloads glz (10 ^ kp) (10 ^ kq) ticker upd (map render ms) (p, books) = Some (p', books(tk \<mapsto> b')) \<and> pool_inv p'
    \<and> pool_live p' = pool_live p"
  using assms
proof (induction ms arbitrary: p books b)
  case Nil
  then show ?case by (auto simp: fun_upd_idem)
next
  case (Cons m ms)
  obtain b1 where b1: "feed_all upd b (depth_entries kp kq m) = Some b1" "feed_all upd b1 (concat (map (depth_entries kp kq) ms)) = Some b'"
    using Cons.prems(5) by (auto simp: feed_all_append split: option.splits)
  obtain p1 where p1: "feed_payload glz (10 ^ kp) (10 ^ kq) ticker upd (render m) (p, books) = Some (p1, books(tk \<mapsto> b1))" "pool_inv p1"
      "pool_capacity p1 = pool_capacity p" "pool_live p1 = pool_live p"
    using feed_depth_payload [of kp kq m tk n p books b upd b1 glz ticker] Cons.prems b1(1) by auto
  obtain p' where "feed_payloads glz (10 ^ kp) (10 ^ kq) ticker upd (map render ms) (p1, books(tk \<mapsto> b1)) = Some (p', books(tk \<mapsto> b'))"
      "pool_inv p'" "pool_live p' = pool_live p1"
    using Cons.IH [of p1 "books(tk \<mapsto> b1)" b1] Cons.prems p1 b1(2) unfolding fun_upd_upd by (auto simp del: fun_upd_apply simp: fun_upd_same)
  then show ?case using p1 by auto
qed


definition demo_pool :: md_pool where
  "demo_pool = pool_new 8 64 (clear_entry [])"

lemma demo_pool_ok: "pool_inv demo_pool" "pool_live demo_pool = {}" "pool_capacity demo_pool = 8"
  using pool_new_inv [of 8 64 "clear_entry []"] by (simp_all add: demo_pool_def pool_capacity_def pool_new_def)

lemma demo_depth_ok: "md_ok 1 3 demo_depth"
  by (simp add: demo_depth_def name_ok_def stream_kind_def levels_ok_def dec_ok_def is_digit_def char_digit_def dec_value_def)


text \<open>
  A snapshot is prefixed by a clear entry with price 0, which the book's range check drops.
\<close>

lemma clear_entry_dropped:
  assumes "0 < min_price_int cfg"
  shows "feed_ok cfg (clear_entry sy)" "spec_apply cfg lv (clear_entry sy) = lv"
  using assms by (auto simp: feed_ok_def clear_entry_def spec_apply_def out_of_range_def split: prod.splits)

lemma spec_apply_other:
  assumes "\<And>md. md \<in> set mds \<Longrightarrow> md_side md = kBuy \<Longrightarrow> md_price md \<noteq> min_price_int cfg + int i"
  shows "fst (foldl (spec_apply cfg) lv mds) i = fst lv i"
  using assms
proof (induction mds arbitrary: lv)
  case (Cons md mds)
  have "fst (spec_apply cfg lv md) i = fst lv i"
    using Cons.prems [of md]
    by (cases "md_type md") (auto simp: spec_apply_def out_of_range_def set_level_def Let_def split: prod.splits)
  then show ?case using Cons by simp
qed simp

fun snapshot_of :: "string \<Rightarrow> nat \<Rightarrow> md_message \<Rightarrow> bool" where
  "snapshot_of tk n (M_Snapshot sid status u E T bids asks rest) \<longleftrightarrow> snapshot_symbol tk sid = tk \<and> length bids + length asks < n"
| "snapshot_of tk n _ \<longleftrightarrow> False"

fun snapshot_bids :: "nat \<Rightarrow> md_message \<Rightarrow> int64 list" where
  "snapshot_bids kp (M_Snapshot sid status u E T bids asks rest) = map (\<lambda>(p, q). dec_fixed kp p) bids"
| "snapshot_bids kp _ = []"

text \<open>
  C38. A snapshot does not reset the book: when a snapshot payload is decoded, converted and applied to a book whose price
  range does not start at 0, every bid level the snapshot does not list keeps the quantity it had before, although the
  converter puts a clear entry in front of the levels.
\<close>

theorem snapshot_keeps_stale_levels:
  assumes "md_ok kp kq m" and "snapshot_of tk n m" and "pool_inv p" and "card (pool_live p) + n \<le> pool_capacity p"
    and "book_inv b" and "bb_engine b" and "bucket_pool_size (bb_config b) = bucket_count (bb_config b)"
    and "0 < min_price_int (bb_config b)"
    and "min_price_int (bb_config b) + int i \<notin> set (snapshot_bids kp m)"
  shows "\<exists>p' b'. feed_payload glz (10 ^ kp) (10 ^ kq) tk bucket_update (render m) (p, [tk \<mapsto> b]) = Some (p', [tk \<mapsto> b'])
    \<and> book_inv b' \<and> bid_levels b' i = bid_levels b i"
proof (cases m)
  case (M_Snapshot sid status u E T bids asks rest)
  let ?b = "levels_fixed kp kq bids" and ?a = "levels_fixed kp kq asks"
  let ?mds = "clear_entry tk # map (md_entry tk kBuy kAdd) ?b @ map (md_entry tk kSell kAdd) ?a"
  have l: "length ?b = length bids" "length ?a = length asks" by (simp_all add: levels_fixed_def)
  have sy: "snapshot_symbol tk sid = tk" "length bids + length asks < n" using assms(2) M_Snapshot by simp_all
  obtain p1 ps u1 where d: "snapshot_update tk u ?b ?a p = (p1, u1)" "up_data u1 = map Some ps" "entries_built p p1 ps ?mds"
    using snapshot_update_built [OF assms(3), of ?b ?a tk u] sy(2) assms(4) l by auto
  have ok: "list_all (feed_ok (bb_config b)) ?mds" using clear_entry_dropped(1) [OF assms(8)] by (auto simp: list_all_iff)
  obtain b' where b': "run_feed b ?mds = Some b'" using run_feed_total [OF assms(5-7) ok] by blast
  note r = run_feed_spec [OF assms(5) ok b']
  have "map fst ?b = snapshot_bids kp m" by (simp add: M_Snapshot levels_fixed_def case_prod_unfold)
  then have "min_price_int (bb_config b) + int i \<notin> fst ` set ?b" using assms(9) by (metis list.set_map)
  then have "fst (foldl (spec_apply (bb_config b)) (bid_levels b, ask_levels b) ?mds) i = fst (bid_levels b, ask_levels b) i"
    by (intro spec_apply_other) (auto simp: clear_entry_def rev_image_eqI)
  then have e: "bid_levels b' i = bid_levels b i" using r by (metis fst_conv)
  have t: "list_all (\<lambda>md. md_ticker_id md = tk) ?mds" by (auto simp: list_all_iff clear_entry_def)
  obtain p'' where "consume_entries bucket_update (map Some ps) p1 [tk \<mapsto> b] = Some (p'', [tk \<mapsto> b, tk \<mapsto> b'])"
    using built_consumed [of p p1 ps ?mds "[tk \<mapsto> b]" tk b bucket_update b'] d(3) t b' unfolding feed_all_run_feed by auto
  then show ?thesis using r e d(1,2) sy(1) onepass_decode_render_l [OF assms(1), of glz]
    by (auto simp: feed_payload_def stream_update_def render_is_message M_Snapshot simp del: render.simps)
qed (use assms(2) in simp_all)

definition demo_snapshot :: md_message where
  "demo_snapshot = M_Snapshot ''snapshot_BTCUSDT'' 200 7 1 2 [((''49999'', ''0''), (''2'', ''0''))] [] ''}}''"

theorem snapshot_keeps_stale_levels_witness:
  "\<exists>b p' b'. run_feed (fresh_book 400000 600000) [md_entry ''BTCUSDT'' kBuy kAdd (500005, 1500)] = Some b
     \<and> feed_payload no_json 10 1000 ''BTCUSDT'' bucket_update (render demo_snapshot) (demo_pool, [''BTCUSDT'' \<mapsto> b]) = Some (p', [''BTCUSDT'' \<mapsto> b'])
     \<and> bid_levels b' 100005 = 1500"
proof -
  let ?mds = "[md_entry ''BTCUSDT'' kBuy kAdd (500005, 1500)]" and ?c = "from_ini False 400000 600000"
  note f = fresh_book_inv [of 400000 600000, simplified]
  have ps: "bucket_pool_size ?c = bucket_count ?c" by (rule from_ini_shape(9)) simp_all
  have ok: "list_all (feed_ok (bb_config (fresh_book 400000 600000))) ?mds" by simp
  obtain b where b: "run_feed (fresh_book 400000 600000) ?mds = Some b"
    using run_feed_total [OF f(1,5) _ ok] ps f(4) by auto
  have s: "book_inv b" "bb_config b = ?c" "bid_levels b 100005 = 1500"
    using run_feed_spec [OF f(1) ok b] f(2-4) by (auto simp: spec_apply_def out_of_range_def from_ini_range md_entry_def set_level_def)
  obtain ev where u: "on_market_data_updated (fresh_book 400000 600000) (md_entry ''BTCUSDT'' kBuy kAdd (500005, 1500)) = Some (b, ev)"
    using b by (auto split: option.splits)
  have e: "bb_engine b" using update_step [OF f(1) _ u] f(5) by simp
  have m: "md_ok 1 3 demo_snapshot" "snapshot_of ''BTCUSDT'' 2 demo_snapshot"
    by (simp_all add: demo_snapshot_def name_ok_def levels_ok_def dec_ok_def is_digit_def char_digit_def dec_value_def snapshot_symbol_def)
  have n: "min_price_int (bb_config b) + int 100005 \<notin> set (snapshot_bids 1 demo_snapshot)"
    by (simp add: s(2) from_ini_range demo_snapshot_def dec_fixed_def dec_value_def char_digit_def)
  show ?thesis
    using snapshot_keeps_stale_levels [OF m demo_pool_ok(1) _ s(1) e _ _ n, of no_json] b s demo_pool_ok ps by (auto simp: from_ini_range)
qed

end
