(* ===== verification/Sbe_Decoder.thy ===== *)
theory Sbe_Decoder
  imports HFT_Prelude "HOL-Library.Monad_Syntax"
begin

text \<open>
  The binary decoder of the spot market data stream: \<^verbatim>\<open>exchanges/binance/spot/binance_sbe_ops.h\<close>, the messages of
  \<^verbatim>\<open>schema/spot/sbe\<close> and \<open>decode_impl\<close> of \<^verbatim>\<open>sbe_md_decoder.hpp\<close>. A payload is a string of bytes and a pointer into it is an
  offset; a \<open>memcpy\<close> that reaches beyond the payload is the value \<^term>\<open>None\<close>. Numbers are little-endian, as on the machines
  the program runs on. \<open>decode_mantissa\<close> computes in \<^verbatim>\<open>double\<close>, so it is the argument \<open>dm\<close> and prices have the type \<open>'d\<close>. A
  decoder that rejects its buffer returns the default message, which the model keeps apart from undefined behaviour.
\<close>

fun le_nat :: "string \<Rightarrow> nat" where
  "le_nat [] = 0"
| "le_nat (c # cs) = of_char c + 256 * le_nat cs"

definition mem_copy :: "string \<Rightarrow> nat \<Rightarrow> nat \<Rightarrow> string option" where
  "mem_copy buf pos n = (if pos + n \<le> length buf then Some (take n (drop pos buf)) else None)"

definition read_uint :: "nat \<Rightarrow> string \<Rightarrow> nat \<Rightarrow> nat option" where
  "read_uint n buf pos = map_option le_nat (mem_copy buf pos n)"

definition read_int64 :: "string \<Rightarrow> nat \<Rightarrow> int64 option" where
  "read_int64 buf pos = map_option (\<lambda>v. i64 (int v)) (read_uint 8 buf pos)"

definition i8 :: "int \<Rightarrow> int" where
  "i8 x = signed_take_bit 7 x"

definition read_int8 :: "string \<Rightarrow> nat \<Rightarrow> int option" where
  "read_int8 buf pos = map_option (\<lambda>v. i8 (int v)) (read_uint 1 buf pos)"

record SBEMessageHeader =
  sh_block_length :: nat
  sh_template_id :: nat
  sh_schema_id :: nat
  sh_version :: nat

definition kHeaderSize :: nat where
  "kHeaderSize = 8"

record GroupSize =
  gs_block_length :: nat
  gs_num_in_group :: nat

record 'd SbeTrade =
  sbt_id :: int64
  sbt_price :: 'd
  sbt_qty :: 'd
  sbt_is_buyer_maker :: bool
  sbt_is_best_match :: bool

record 'd SbeTradeEvent =
  ste_event_time :: int64
  ste_transact_time :: int64
  ste_symbol :: string
  ste_trades :: "'d SbeTrade list"

record 'd SbeBestBidAsk =
  sba_event_time :: int64
  sba_book_update_id :: int64
  sba_symbol :: string
  sba_bid_price :: 'd
  sba_bid_qty :: 'd
  sba_ask_price :: 'd
  sba_ask_qty :: 'd

record 'd SbeDepthSnapshot =
  sds_event_time :: int64
  sds_book_update_id :: int64
  sds_symbol :: string
  sds_bids :: "('d \<times> 'd) list"
  sds_asks :: "('d \<times> 'd) list"

record 'd SbeDepthResponse =
  sdr_event_time :: int64
  sdr_first_book_update_id :: int64
  sdr_last_book_update_id :: int64
  sdr_symbol :: string
  sdr_bids :: "('d \<times> 'd) list"
  sdr_asks :: "('d \<times> 'd) list"

text \<open>
  \<^verbatim>\<open>sizeof(GroupSize32)\<close> is 8 because of padding, although the header takes 6 bytes of the message.
\<close>

definition parse_group_header16 :: "string \<Rightarrow> nat \<Rightarrow> (GroupSize \<times> nat) option" where
  "parse_group_header16 buf pos =
     do {
       block_length \<leftarrow> read_uint 2 buf pos;
       num_in_group \<leftarrow> read_uint 2 buf (pos + 2);
       Some (\<lparr>gs_block_length = block_length, gs_num_in_group = num_in_group\<rparr>, pos + 4)
     }"

definition parse_group_header32 :: "string \<Rightarrow> nat \<Rightarrow> (GroupSize \<times> nat) option" where
  "parse_group_header32 buf pos =
     do {
       block_length \<leftarrow> read_uint 2 buf pos;
       num_in_group \<leftarrow> read_uint 4 buf (pos + 2);
       Some (\<lparr>gs_block_length = block_length, gs_num_in_group = num_in_group\<rparr>, pos + 6)
     }"

definition parse_varString8 :: "string \<Rightarrow> nat \<Rightarrow> (string \<times> nat) option" where
  "parse_varString8 buf pos =
     do {
       len \<leftarrow> read_uint 1 buf pos;
       (if len > 0 then
          do {
            str \<leftarrow> mem_copy buf (pos + 1) len;
            Some (str, pos + 1 + len)
          }
        else Some ([], pos + 1))
     }"

definition decode_price_level :: "(int64 \<Rightarrow> int \<Rightarrow> 'd) \<Rightarrow> string \<Rightarrow> nat \<Rightarrow> int \<Rightarrow> int \<Rightarrow> ('d \<times> 'd) option" where
  "decode_price_level dm buf pos price_exponent qty_exponent =
     do {
       price_mantissa \<leftarrow> read_int64 buf pos;
       qty_mantissa \<leftarrow> read_int64 buf (pos + 8);
       Some (dm price_mantissa price_exponent, dm qty_mantissa qty_exponent)
     }"

text \<open>The loop over the levels of a group; each entry takes the block length of the group, whatever is read of it.\<close>

fun decode_levels :: "(int64 \<Rightarrow> int \<Rightarrow> 'd) \<Rightarrow> string \<Rightarrow> int \<Rightarrow> int \<Rightarrow> nat \<Rightarrow> nat \<Rightarrow> nat \<Rightarrow> (('d \<times> 'd) list \<times> nat) option" where
  "decode_levels dm buf pe qe block_length 0 pos = Some ([], pos)"
| "decode_levels dm buf pe qe block_length (Suc n) pos =
     do {
       level \<leftarrow> decode_price_level dm buf pos pe qe;
       (levels, end_pos) \<leftarrow> decode_levels dm buf pe qe block_length n (pos + block_length);
       Some (level # levels, end_pos)
     }"

definition decode_trade :: "(int64 \<Rightarrow> int \<Rightarrow> 'd) \<Rightarrow> string \<Rightarrow> nat \<Rightarrow> int \<Rightarrow> int \<Rightarrow> 'd SbeTrade option" where
  "decode_trade dm buf entry_start price_exponent qty_exponent =
     do {
       tid \<leftarrow> read_int64 buf entry_start;
       price_mantissa \<leftarrow> read_int64 buf (entry_start + 8);
       qty_mantissa \<leftarrow> read_int64 buf (entry_start + 16);
       is_buyer_maker \<leftarrow> read_uint 1 buf (entry_start + 24);
       Some \<lparr>sbt_id = tid, sbt_price = dm price_mantissa price_exponent, sbt_qty = dm qty_mantissa qty_exponent,
             sbt_is_buyer_maker = (is_buyer_maker \<noteq> 0), sbt_is_best_match = True\<rparr>
     }"

fun decode_trades :: "(int64 \<Rightarrow> int \<Rightarrow> 'd) \<Rightarrow> string \<Rightarrow> int \<Rightarrow> int \<Rightarrow> nat \<Rightarrow> nat \<Rightarrow> nat \<Rightarrow> ('d SbeTrade list \<times> nat) option" where
  "decode_trades dm buf pe qe block_length 0 pos = Some ([], pos)"
| "decode_trades dm buf pe qe block_length (Suc n) pos =
     do {
       trade \<leftarrow> decode_trade dm buf pos pe qe;
       (trades, end_pos) \<leftarrow> decode_trades dm buf pe qe block_length n (pos + block_length);
       Some (trade # trades, end_pos)
     }"

definition SbeTradeEvent_default :: "'d SbeTradeEvent" where
  "SbeTradeEvent_default = \<lparr>ste_event_time = 0, ste_transact_time = 0, ste_symbol = [], ste_trades = []\<rparr>"

definition decode_trade_event :: "(int64 \<Rightarrow> int \<Rightarrow> 'd) \<Rightarrow> string \<Rightarrow> nat \<Rightarrow> nat \<Rightarrow> 'd SbeTradeEvent option" where
  "decode_trade_event dm buf start remaining =
     (if remaining < 8 * 2 + 2 + 8 then Some SbeTradeEvent_default
      else do {
        event_time \<leftarrow> read_int64 buf start;
        transact_time \<leftarrow> read_int64 buf (start + 8);
        price_exponent \<leftarrow> read_int8 buf (start + 16);
        qty_exponent \<leftarrow> read_int8 buf (start + 17);
        (group_size, pos) \<leftarrow> parse_group_header32 buf (start + 18);
        (if gs_block_length group_size < 25 \<or>
            remaining < (pos - start) + gs_block_length group_size * gs_num_in_group group_size
         then Some SbeTradeEvent_default
         else do {
           (trades, pos') \<leftarrow> decode_trades dm buf price_exponent qty_exponent (gs_block_length group_size) (gs_num_in_group group_size) pos;
           (symbol, _) \<leftarrow> parse_varString8 buf pos';
           Some \<lparr>ste_event_time = event_time, ste_transact_time = transact_time, ste_symbol = symbol, ste_trades = trades\<rparr>
         })
      })"

text \<open>The zero a default-initialised \<^verbatim>\<open>double\<close> member holds is the argument \<open>zero\<close>.\<close>

definition SbeBestBidAsk_default :: "'d \<Rightarrow> 'd SbeBestBidAsk" where
  "SbeBestBidAsk_default zero = \<lparr>sba_event_time = 0, sba_book_update_id = 0, sba_symbol = [],
     sba_bid_price = zero, sba_bid_qty = zero, sba_ask_price = zero, sba_ask_qty = zero\<rparr>"

definition decode_best_bid_ask :: "(int64 \<Rightarrow> int \<Rightarrow> 'd) \<Rightarrow> 'd \<Rightarrow> string \<Rightarrow> nat \<Rightarrow> nat \<Rightarrow> 'd SbeBestBidAsk option" where
  "decode_best_bid_ask dm zero buf start remaining =
     (if remaining < 8 * 6 + 2 then Some (SbeBestBidAsk_default zero)
      else do {
        event_time \<leftarrow> read_int64 buf start;
        book_update_id \<leftarrow> read_int64 buf (start + 8);
        price_exponent \<leftarrow> read_int8 buf (start + 16);
        qty_exponent \<leftarrow> read_int8 buf (start + 17);
        bid_price_mantissa \<leftarrow> read_int64 buf (start + 18);
        bid_qty_mantissa \<leftarrow> read_int64 buf (start + 26);
        ask_price_mantissa \<leftarrow> read_int64 buf (start + 34);
        ask_qty_mantissa \<leftarrow> read_int64 buf (start + 42);
        (symbol, _) \<leftarrow> parse_varString8 buf (start + 50);
        Some \<lparr>sba_event_time = event_time, sba_book_update_id = book_update_id, sba_symbol = symbol,
          sba_bid_price = dm bid_price_mantissa price_exponent, sba_bid_qty = dm bid_qty_mantissa qty_exponent,
          sba_ask_price = dm ask_price_mantissa price_exponent, sba_ask_qty = dm ask_qty_mantissa qty_exponent\<rparr>
      })"

text \<open>
  The end of a snapshot and of a diff: the symbol, with the two checks that it is inside the buffer. The inner
  \<^term>\<open>None\<close> is a rejected buffer.
\<close>

definition decode_symbol :: "string \<Rightarrow> nat \<Rightarrow> nat \<Rightarrow> nat \<Rightarrow> string option option" where
  "decode_symbol buf start remaining pos =
     (let consumed = pos - start in
      if remaining < consumed + 1 then Some None
      else do {
        symbol_length \<leftarrow> read_uint 1 buf pos;
        (if remaining < consumed + 1 + symbol_length then Some None
         else do {
           (symbol, _) \<leftarrow> parse_varString8 buf pos;
           Some (Some symbol)
         })
      })"

text \<open>
  The part the snapshot and the diff decoder have in common, from the bids group to the symbol.
\<close>

definition decode_book :: "(int64 \<Rightarrow> int \<Rightarrow> 'd) \<Rightarrow> string \<Rightarrow> nat \<Rightarrow> nat \<Rightarrow> int \<Rightarrow> int \<Rightarrow> nat \<Rightarrow>
    (('d \<times> 'd) list \<times> ('d \<times> 'd) list \<times> string) option option" where
  "decode_book dm buf start remaining pe qe pos0 =
     do {
       (bids_group, pos1) \<leftarrow> parse_group_header16 buf pos0;
       (if gs_block_length bids_group < 16 \<or>
           remaining < (pos1 - start) + gs_block_length bids_group * gs_num_in_group bids_group + 4
        then Some None
        else do {
          (bids, pos2) \<leftarrow> decode_levels dm buf pe qe (gs_block_length bids_group) (gs_num_in_group bids_group) pos1;
          (asks_group, pos3) \<leftarrow> parse_group_header16 buf pos2;
          (if gs_block_length asks_group < 16 \<or>
              remaining < (pos3 - start) + gs_block_length asks_group * gs_num_in_group asks_group
           then Some None
           else do {
             (asks, pos4) \<leftarrow> decode_levels dm buf pe qe (gs_block_length asks_group) (gs_num_in_group asks_group) pos3;
             symbol \<leftarrow> decode_symbol buf start remaining pos4;
             Some (map_option (\<lambda>symbol. (bids, asks, symbol)) symbol)
           })
        })
     }"

definition SbeDepthSnapshot_default :: "'d SbeDepthSnapshot" where
  "SbeDepthSnapshot_default = \<lparr>sds_event_time = 0, sds_book_update_id = 0, sds_symbol = [], sds_bids = [], sds_asks = []\<rparr>"

definition decode_depth_snapshot :: "(int64 \<Rightarrow> int \<Rightarrow> 'd) \<Rightarrow> string \<Rightarrow> nat \<Rightarrow> nat \<Rightarrow> 'd SbeDepthSnapshot option" where
  "decode_depth_snapshot dm buf start remaining =
     (if remaining < 8 * 2 + 2 + 4 * 2 then Some SbeDepthSnapshot_default
      else do {
        event_time \<leftarrow> read_int64 buf start;
        book_update_id \<leftarrow> read_int64 buf (start + 8);
        price_exponent \<leftarrow> read_int8 buf (start + 16);
        qty_exponent \<leftarrow> read_int8 buf (start + 17);
        book \<leftarrow> decode_book dm buf start remaining price_exponent qty_exponent (start + 18);
        Some (case book of
            None \<Rightarrow> SbeDepthSnapshot_default
          | Some (bids, asks, symbol) \<Rightarrow> \<lparr>sds_event_time = event_time, sds_book_update_id = book_update_id, sds_symbol = symbol,
              sds_bids = bids, sds_asks = asks\<rparr>)
      })"

definition SbeDepthResponse_default :: "'d SbeDepthResponse" where
  "SbeDepthResponse_default = \<lparr>sdr_event_time = 0, sdr_first_book_update_id = 0, sdr_last_book_update_id = 0, sdr_symbol = [],
     sdr_bids = [], sdr_asks = []\<rparr>"

definition decode_depth_diff :: "(int64 \<Rightarrow> int \<Rightarrow> 'd) \<Rightarrow> string \<Rightarrow> nat \<Rightarrow> nat \<Rightarrow> 'd SbeDepthResponse option" where
  "decode_depth_diff dm buf start remaining =
     (if remaining < 8 * 3 + 2 + 4 * 2 then Some SbeDepthResponse_default
      else do {
        event_time \<leftarrow> read_int64 buf start;
        first_book_update_id \<leftarrow> read_int64 buf (start + 8);
        last_book_update_id \<leftarrow> read_int64 buf (start + 16);
        price_exponent \<leftarrow> read_int8 buf (start + 24);
        qty_exponent \<leftarrow> read_int8 buf (start + 25);
        book \<leftarrow> decode_book dm buf start remaining price_exponent qty_exponent (start + 26);
        Some (case book of
            None \<Rightarrow> SbeDepthResponse_default
          | Some (bids, asks, symbol) \<Rightarrow> \<lparr>sdr_event_time = event_time, sdr_first_book_update_id = first_book_update_id,
              sdr_last_book_update_id = last_book_update_id, sdr_symbol = symbol, sdr_bids = bids, sdr_asks = asks\<rparr>)
      })"

datatype 'd SbeWireMessage =
    Sbe_Monostate
  | Sbe_Trade "'d SbeTradeEvent"
  | Sbe_BestBidAsk "'d SbeBestBidAsk"
  | Sbe_Snapshot "'d SbeDepthSnapshot"
  | Sbe_Depth "'d SbeDepthResponse"

definition kTradesStreamEventId :: nat where "kTradesStreamEventId = 10000"
definition kBestBidAskStreamEventId :: nat where "kBestBidAskStreamEventId = 10001"
definition kDepthSnapshotStreamEventId :: nat where "kDepthSnapshotStreamEventId = 10002"
definition kDepthDiffStreamEventId :: nat where "kDepthDiffStreamEventId = 10003"

definition read_header :: "string \<Rightarrow> SBEMessageHeader option" where
  "read_header buf =
     do {
       block_length \<leftarrow> read_uint 2 buf 0;
       template_id \<leftarrow> read_uint 2 buf 2;
       schema_id \<leftarrow> read_uint 2 buf 4;
       version \<leftarrow> read_uint 2 buf 6;
       Some \<lparr>sh_block_length = block_length, sh_template_id = template_id, sh_schema_id = schema_id, sh_version = version\<rparr>
     }"

definition sbe_decode_impl :: "(int64 \<Rightarrow> int \<Rightarrow> 'd) \<Rightarrow> 'd \<Rightarrow> string \<Rightarrow> 'd SbeWireMessage option" where
  "sbe_decode_impl dm zero payload =
     (if payload = [] then Some Sbe_Monostate
      else if payload = ''__CONNECTED__'' then Some Sbe_Monostate
      else do {
        header \<leftarrow> read_header payload;
        let pos = kHeaderSize; remaining = length payload - kHeaderSize in
        if sh_template_id header = kTradesStreamEventId then map_option Sbe_Trade (decode_trade_event dm payload pos remaining)
        else if sh_template_id header = kBestBidAskStreamEventId then map_option Sbe_BestBidAsk (decode_best_bid_ask dm zero payload pos remaining)
        else if sh_template_id header = kDepthSnapshotStreamEventId then map_option Sbe_Snapshot (decode_depth_snapshot dm payload pos remaining)
        else if sh_template_id header = kDepthDiffStreamEventId then map_option Sbe_Depth (decode_depth_diff dm payload pos remaining)
        else Some Sbe_Monostate
      })"

end
