(* ===== verification/Sbe_Props.thy ===== *)
theory Sbe_Props
  imports Sbe_Decoder
begin

text \<open>
  The binary decoder reads back every message written in the format its comments give, and which of its
  reads stay inside the payload for arbitrary bytes.
\<close>

subsection \<open>Writing messages\<close>

primrec le_bytes :: "nat \<Rightarrow> nat \<Rightarrow> string" where
  "le_bytes 0 v = []"
| "le_bytes (Suc n) v = char_of (v mod 256) # le_bytes n (v div 256)"

definition put_int64 :: "int64 \<Rightarrow> string" where
  "put_int64 x = le_bytes 8 (nat (x mod 2 ^ 64))"

definition put_int8 :: "int \<Rightarrow> string" where
  "put_int8 x = le_bytes 1 (nat (x mod 256))"

definition put_symbol :: "string \<Rightarrow> string" where
  "put_symbol s = le_bytes 1 (length s) @ s"

text \<open>An entry of a group may be longer than the fields the decoder knows; \<open>pad\<close> is what follows them.\<close>

definition put_level :: "string \<Rightarrow> int64 \<times> int64 \<Rightarrow> string" where
  "put_level pad l = put_int64 (fst l) @ put_int64 (snd l) @ pad"

definition put_levels :: "string \<Rightarrow> (int64 \<times> int64) list \<Rightarrow> string" where
  "put_levels pad ls = le_bytes 2 (16 + length pad) @ le_bytes 2 (length ls) @ concat (map (put_level pad) ls)"

definition put_trade :: "string \<Rightarrow> int64 \<times> int64 \<times> int64 \<times> bool \<Rightarrow> string" where
  "put_trade pad t = (case t of (tid, p, q, m) \<Rightarrow> put_int64 tid @ put_int64 p @ put_int64 q @ le_bytes 1 (if m then 1 else 0) @ pad)"

definition put_trades :: "string \<Rightarrow> (int64 \<times> int64 \<times> int64 \<times> bool) list \<Rightarrow> string" where
  "put_trades pad ts = le_bytes 2 (25 + length pad) @ le_bytes 4 (length ts) @ concat (map (put_trade pad) ts)"

definition put_header :: "nat \<Rightarrow> nat \<Rightarrow> nat \<Rightarrow> nat \<Rightarrow> string" where
  "put_header block_length template schema version =
     le_bytes 2 block_length @ le_bytes 2 template @ le_bytes 2 schema @ le_bytes 2 version"

lemma length_le_bytes [simp]: "length (le_bytes n v) = n"
  by (induction n arbitrary: v) simp_all

lemma le_nat_le_bytes: "le_nat (le_bytes n v) = v mod 256 ^ n"
proof (induction n arbitrary: v)
  case (Suc n)
  have "v mod 256 + 256 * (v div 256 mod 256 ^ n) = v mod (256 * 256 ^ n)"
    by (simp add: mod_mult2_eq add.commute)
  thus ?case
    using Suc by simp
qed simp

lemma length_put [simp]:
  "length (put_int64 x) = 8" "length (put_int8 y) = 1" "length (put_symbol s) = Suc (length s)" "length (put_level pad l) = 16 + length pad"
  "length (put_trade pad t) = 25 + length pad" "length (put_header a b c d) = 8"
  by (simp_all add: put_int64_def put_int8_def put_symbol_def put_level_def put_trade_def put_header_def split: prod.split)

lemma length_concat_const: "(\<And>x. length (f x) = k) \<Longrightarrow> length (concat (map f xs)) = k * length xs"
  by (induction xs) simp_all

subsection \<open>Reading what was written\<close>

definition rest_at :: "string \<Rightarrow> nat \<Rightarrow> string \<Rightarrow> bool" where
  "rest_at buf pos r \<longleftrightarrow> pos \<le> length buf \<and> drop pos buf = r"

lemma rest_at_length: "rest_at buf pos r \<Longrightarrow> length buf = pos + length r"
  by (auto simp: rest_at_def)

lemma rest_at_skip:
  assumes "rest_at buf pos (b @ r)"
  shows "rest_at buf (pos + length b) r"
proof -
  have "drop (pos + length b) buf = drop (length b) (drop pos buf)"
    by (simp add: add.commute)
  thus ?thesis
    using rest_at_length [OF assms] assms by (simp add: rest_at_def del: drop_drop)
qed

lemma mem_copy_at:
  assumes "rest_at buf pos (b @ r)"
  shows "mem_copy buf pos (length b) = Some b"
  using rest_at_length [OF assms] assms by (simp add: mem_copy_def rest_at_def)

lemma read_uint_at:
  assumes "rest_at buf pos (le_bytes n v @ r)" "v < 256 ^ n"
  shows "read_uint n buf pos = Some v" "rest_at buf (pos + n) r"
  using mem_copy_at [OF assms(1)] rest_at_skip [OF assms(1)] assms(2) by (simp_all add: read_uint_def le_nat_le_bytes)

lemma read_int64_at:
  assumes "rest_at buf pos (put_int64 x @ r)" "in_i64 x"
  shows "read_int64 buf pos = Some x" "rest_at buf (pos + 8) r"
proof -
  have l: "nat (x mod 2 ^ 64) < 256 ^ 8"
    by (simp add: nat_less_iff)
  have "i64 (x mod 2 ^ 64) = x"
    using assms(2) i64_id [OF assms(2)] by (metis i64_cong_iff mod_mod_trivial)
  thus "read_int64 buf pos = Some x" "rest_at buf (pos + 8) r"
    using read_uint_at [OF assms(1) [unfolded put_int64_def] l] by (simp_all add: read_int64_def)
qed

lemma i8_mod: "- 128 \<le> x \<Longrightarrow> x < 128 \<Longrightarrow> i8 (x mod 256) = x"
proof -
  assume "- 128 \<le> x" "x < 128"
  hence "signed_take_bit 7 x = x"
    by (simp add: signed_take_bit_int_eq_self_iff)
  moreover have "signed_take_bit 7 (x mod 256) = signed_take_bit 7 x"
    by (simp add: signed_take_bit_eq_iff_take_bit_eq take_bit_eq_mod)
  ultimately show ?thesis
    by (simp add: i8_def)
qed

lemma read_int8_at:
  assumes "rest_at buf pos (put_int8 x @ r)" "- 128 \<le> x" "x < 128"
  shows "read_int8 buf pos = Some x" "rest_at buf (pos + 1) r"
proof -
  have l: "nat (x mod 256) < 256 ^ 1"
    by (simp add: nat_less_iff)
  show "read_int8 buf pos = Some x" "rest_at buf (pos + 1) r"
    using read_uint_at [OF assms(1) [unfolded put_int8_def] l] i8_mod [OF assms(2,3)] by (simp_all add: read_int8_def)
qed

lemma parse_varString8_at:
  assumes "rest_at buf pos (put_symbol s @ r)" "length s < 256"
  shows "parse_varString8 buf pos = Some (s, pos + 1 + length s)" "read_uint 1 buf pos = Some (length s)"
proof -
  have a: "rest_at buf pos (le_bytes 1 (length s) @ s @ r)" "length s < 256 ^ 1"
    using assms by (simp_all add: put_symbol_def)
  note u = read_uint_at [OF a]
  show "parse_varString8 buf pos = Some (s, pos + 1 + length s)" "read_uint 1 buf pos = Some (length s)"
    using u(1) mem_copy_at [OF u(2)] by (simp_all add: parse_varString8_def)
qed

definition level_ok :: "int64 \<times> int64 \<Rightarrow> bool" where
  "level_ok l \<longleftrightarrow> in_i64 (fst l) \<and> in_i64 (snd l)"

definition level_value :: "(int64 \<Rightarrow> int \<Rightarrow> 'd) \<Rightarrow> int \<Rightarrow> int \<Rightarrow> int64 \<times> int64 \<Rightarrow> 'd \<times> 'd" where
  "level_value dm pe qe l = (dm (fst l) pe, dm (snd l) qe)"

lemma decode_price_level_at:
  assumes "rest_at buf pos (put_level pad l @ r)" "level_ok l"
  shows "decode_price_level dm buf pos pe qe = Some (level_value dm pe qe l)"
proof -
  have a: "rest_at buf pos (put_int64 (fst l) @ put_int64 (snd l) @ pad @ r)"
    using assms(1) by (simp add: put_level_def)
  show ?thesis
    using read_int64_at [OF a] read_int64_at(1) [OF read_int64_at(2) [OF a]] assms(2)
    by (simp add: decode_price_level_def level_ok_def level_value_def)
qed

lemma decode_levels_at:
  assumes "rest_at buf pos (concat (map (put_level pad) ls) @ r)" "list_all level_ok ls"
  shows "decode_levels dm buf pe qe (16 + length pad) (length ls) pos =
      Some (map (level_value dm pe qe) ls, pos + (16 + length pad) * length ls)"
    "rest_at buf (pos + (16 + length pad) * length ls) r"
proof -
  show "rest_at buf (pos + (16 + length pad) * length ls) r"
    using rest_at_skip [OF assms(1)] by (simp add: length_concat_const)
  show "decode_levels dm buf pe qe (16 + length pad) (length ls) pos =
      Some (map (level_value dm pe qe) ls, pos + (16 + length pad) * length ls)"
    using assms
  proof (induction ls arbitrary: pos)
    case (Cons l ls)
    have a: "rest_at buf pos (put_level pad l @ concat (map (put_level pad) ls) @ r)"
      using Cons.prems by simp
    have "rest_at buf (pos + (16 + length pad)) (concat (map (put_level pad) ls) @ r)"
      using rest_at_skip [OF a] by simp
    from Cons.IH [OF this] show ?case
      using decode_price_level_at [OF a, of dm pe qe] Cons.prems(2) by (simp add: algebra_simps)
  qed simp
qed

lemma parse_group_header16_at:
  assumes "rest_at buf pos (put_levels pad ls @ r)" "16 + length pad < 65536" "length ls < 65536"
  shows "parse_group_header16 buf pos = Some (\<lparr>gs_block_length = 16 + length pad, gs_num_in_group = length ls\<rparr>, pos + 4)"
    "rest_at buf (pos + 4) (concat (map (put_level pad) ls) @ r)"
proof -
  have a: "rest_at buf pos (le_bytes 2 (16 + length pad) @ le_bytes 2 (length ls) @ concat (map (put_level pad) ls) @ r)"
    using assms(1) by (simp add: put_levels_def)
  have b: "16 + length pad < 256 ^ 2" "length ls < 256 ^ 2"
    using assms(2,3) by simp_all
  note u = read_uint_at [OF a b(1)]
  note w = read_uint_at [OF u(2) b(2)]
  have q: "pos + 2 + 2 = pos + 4"
    by simp
  show "parse_group_header16 buf pos = Some (\<lparr>gs_block_length = 16 + length pad, gs_num_in_group = length ls\<rparr>, pos + 4)"
    "rest_at buf (pos + 4) (concat (map (put_level pad) ls) @ r)"
    using u(1) w unfolding q by (simp_all only: parse_group_header16_def Option.bind.simps)
qed

definition levels_fit :: "string \<Rightarrow> (int64 \<times> int64) list \<Rightarrow> bool" where
  "levels_fit pad ls \<longleftrightarrow> 16 + length pad < 65536 \<and> length ls < 65536 \<and> list_all level_ok ls"

lemma decode_symbol_at:
  assumes a: "rest_at buf pos (put_symbol s @ r)" "length s < 256" and st: "start \<le> pos"
  shows "decode_symbol buf start (length buf - start) pos = Some (Some s)"
proof -
  have "\<not> length buf - start < pos - start + 1" "\<not> length buf - start < pos - start + 1 + length s"
    using rest_at_length [OF a(1)] st by simp_all
  thus ?thesis
    unfolding decode_symbol_def Let_def parse_varString8_at [OF a] by simp
qed

lemma decode_book_at:
  assumes a: "rest_at buf pos (put_levels pad bids @ put_levels pad' asks @ put_symbol s @ r)" and st: "start \<le> pos"
    and f: "levels_fit pad bids" "levels_fit pad' asks" "length s < 256"
  shows "decode_book dm buf start (length buf - start) pe qe pos =
    Some (Some (map (level_value dm pe qe) bids, map (level_value dm pe qe) asks, s))"
proof -
  have b: "16 + length pad < 65536" "length bids < 65536" "list_all level_ok bids"
    "16 + length pad' < 65536" "length asks < 65536" "list_all level_ok asks"
    using f(1,2) unfolding levels_fit_def by blast+
  define n where "n = (16 + length pad) * length bids"
  define m where "m = (16 + length pad') * length asks"
  define p2 where "p2 = pos + 4 + n"
  define p4 where "p4 = p2 + 4 + m"
  note h1 = parse_group_header16_at [OF a b(1,2)]
  note l1 = decode_levels_at [OF h1(2) b(3), folded n_def, folded p2_def]
  note h2 = parse_group_header16_at [OF l1(2) b(4,5)]
  note l2 = decode_levels_at [OF h2(2) b(6), folded m_def, folded p4_def]
  have p4: "start \<le> p4"
    using st by (simp add: p4_def p2_def)
  note sy = decode_symbol_at [OF l2(2) f(3) p4]
  have len: "length buf = p4 + Suc (length s + length r)"
    using rest_at_length [OF l2(2)] by simp
  have g: "\<not> length buf - start < pos + 4 - start + n + 4" "\<not> length buf - start < p2 + 4 - start + m"
    using st len unfolding p2_def p4_def by linarith+
  have h: "\<not> 16 + length pad < 16" "\<not> 16 + length pad' < 16"
    by simp_all
  show ?thesis
    unfolding decode_book_def
    by (simp only: h1(1) h2(1) l1(1) l2(1) sy Let_def Option.bind.simps prod.case GroupSize.simps n_def [symmetric] m_def [symmetric]
        g h if_False simp_thms option.map)
qed

definition trade_ok :: "int64 \<times> int64 \<times> int64 \<times> bool \<Rightarrow> bool" where
  "trade_ok t = (case t of (tid, p, q, m) \<Rightarrow> in_i64 tid \<and> in_i64 p \<and> in_i64 q)"

definition trade_value :: "(int64 \<Rightarrow> int \<Rightarrow> 'd) \<Rightarrow> int \<Rightarrow> int \<Rightarrow> int64 \<times> int64 \<times> int64 \<times> bool \<Rightarrow> 'd SbeTrade" where
  "trade_value dm pe qe t = (case t of (tid, p, q, m) \<Rightarrow>
     \<lparr>sbt_id = tid, sbt_price = dm p pe, sbt_qty = dm q qe, sbt_is_buyer_maker = m, sbt_is_best_match = True\<rparr>)"

lemma decode_trade_at:
  assumes "rest_at buf pos (put_trade pad t @ r)" "trade_ok t"
  shows "decode_trade dm buf pos pe qe = Some (trade_value dm pe qe t)"
proof -
  obtain tid p q m where t: "t = (tid, p, q, m)"
    by (cases t)
  have i: "in_i64 tid" "in_i64 p" "in_i64 q"
    using assms(2) by (simp_all add: trade_ok_def t)
  have a: "rest_at buf pos (put_int64 tid @ put_int64 p @ put_int64 q @ le_bytes 1 (if m then 1 else 0) @ pad @ r)"
    using assms(1) by (simp add: put_trade_def t)
  have b: "(if m then 1 else 0 :: nat) < 256 ^ 1"
    by simp
  note r1 = read_int64_at [OF a i(1)]
  note r2 = read_int64_at [OF r1(2) i(2)]
  note r3 = read_int64_at [OF r2(2) i(3)]
  note r4 = read_uint_at(1) [OF r3(2) b]
  have e: "pos + 8 + 8 = pos + 16" "pos + 16 + 8 = pos + 24"
    by simp_all
  show ?thesis
    using r1(1) r2(1) r3(1) r4 unfolding e by (simp add: decode_trade_def trade_value_def t)
qed

lemma decode_trades_at:
  assumes "rest_at buf pos (concat (map (put_trade pad) ts) @ r)" "list_all trade_ok ts"
  shows "decode_trades dm buf pe qe (25 + length pad) (length ts) pos =
      Some (map (trade_value dm pe qe) ts, pos + (25 + length pad) * length ts)"
    "rest_at buf (pos + (25 + length pad) * length ts) r"
proof -
  show "rest_at buf (pos + (25 + length pad) * length ts) r"
    using rest_at_skip [OF assms(1)] by (simp add: length_concat_const)
  show "decode_trades dm buf pe qe (25 + length pad) (length ts) pos =
      Some (map (trade_value dm pe qe) ts, pos + (25 + length pad) * length ts)"
    using assms
  proof (induction ts arbitrary: pos)
    case (Cons l ts)
    have a: "rest_at buf pos (put_trade pad l @ concat (map (put_trade pad) ts) @ r)"
      using Cons.prems by simp
    have "rest_at buf (pos + (25 + length pad)) (concat (map (put_trade pad) ts) @ r)"
      using rest_at_skip [OF a] by simp
    from Cons.IH [OF this] show ?case
      using decode_trade_at [OF a, of dm pe qe] Cons.prems(2) by (simp add: algebra_simps)
  qed simp
qed

lemma parse_group_header32_at:
  assumes "rest_at buf pos (put_trades pad ts @ r)" "25 + length pad < 65536" "length ts < 2 ^ 32"
  shows "parse_group_header32 buf pos = Some (\<lparr>gs_block_length = 25 + length pad, gs_num_in_group = length ts\<rparr>, pos + 6)"
    "rest_at buf (pos + 6) (concat (map (put_trade pad) ts) @ r)"
proof -
  have a: "rest_at buf pos (le_bytes 2 (25 + length pad) @ le_bytes 4 (length ts) @ concat (map (put_trade pad) ts) @ r)"
    using assms(1) by (simp add: put_trades_def)
  have b: "25 + length pad < 256 ^ 2" "length ts < 256 ^ 4"
    using assms(2,3) by simp_all
  note u = read_uint_at [OF a b(1)]
  note w = read_uint_at [OF u(2) b(2)]
  have q: "pos + 2 + 4 = pos + 6"
    by simp
  show "parse_group_header32 buf pos = Some (\<lparr>gs_block_length = 25 + length pad, gs_num_in_group = length ts\<rparr>, pos + 6)"
    "rest_at buf (pos + 6) (concat (map (put_trade pad) ts) @ r)"
    using u(1) w unfolding q by (simp_all only: parse_group_header32_def Option.bind.simps)
qed

subsection \<open>Round trip\<close>

text \<open>
  A message as the exchange writes it: the fields in the order of the comments of the decoder, mantissas and exponents
  for the numbers.
\<close>

datatype sbe_written =
    W_Trade int64 int64 int int string "(int64 \<times> int64 \<times> int64 \<times> bool) list" string
  | W_BestBidAsk int64 int64 int int int64 int64 int64 int64 string
  | W_Snapshot int64 int64 int int string "(int64 \<times> int64) list" string "(int64 \<times> int64) list" string
  | W_Depth int64 int64 int64 int int string "(int64 \<times> int64) list" string "(int64 \<times> int64) list" string

fun put_message :: "sbe_written \<Rightarrow> string" where
  "put_message (W_Trade et tt pe qe pad ts sy) =
     put_int64 et @ put_int64 tt @ put_int8 pe @ put_int8 qe @ put_trades pad ts @ put_symbol sy"
| "put_message (W_BestBidAsk et uid pe qe bp bq ap aq sy) =
     put_int64 et @ put_int64 uid @ put_int8 pe @ put_int8 qe @ put_int64 bp @ put_int64 bq @ put_int64 ap @ put_int64 aq @ put_symbol sy"
| "put_message (W_Snapshot et uid pe qe pad bids pad' asks sy) =
     put_int64 et @ put_int64 uid @ put_int8 pe @ put_int8 qe @ put_levels pad bids @ put_levels pad' asks @ put_symbol sy"
| "put_message (W_Depth et u1 u2 pe qe pad bids pad' asks sy) =
     put_int64 et @ put_int64 u1 @ put_int64 u2 @ put_int8 pe @ put_int8 qe @ put_levels pad bids @ put_levels pad' asks @ put_symbol sy"

fun written_template :: "sbe_written \<Rightarrow> nat" where
  "written_template (W_Trade et tt pe qe pad ts sy) = kTradesStreamEventId"
| "written_template (W_BestBidAsk et uid pe qe bp bq ap aq sy) = kBestBidAskStreamEventId"
| "written_template (W_Snapshot et uid pe qe pad bids pad' asks sy) = kDepthSnapshotStreamEventId"
| "written_template (W_Depth et u1 u2 pe qe pad bids pad' asks sy) = kDepthDiffStreamEventId"

fun written_value :: "(int64 \<Rightarrow> int \<Rightarrow> 'd) \<Rightarrow> sbe_written \<Rightarrow> 'd SbeWireMessage" where
  "written_value dm (W_Trade et tt pe qe pad ts sy) =
     Sbe_Trade \<lparr>ste_event_time = et, ste_transact_time = tt, ste_symbol = sy, ste_trades = map (trade_value dm pe qe) ts\<rparr>"
| "written_value dm (W_BestBidAsk et uid pe qe bp bq ap aq sy) =
     Sbe_BestBidAsk \<lparr>sba_event_time = et, sba_book_update_id = uid, sba_symbol = sy,
       sba_bid_price = dm bp pe, sba_bid_qty = dm bq qe, sba_ask_price = dm ap pe, sba_ask_qty = dm aq qe\<rparr>"
| "written_value dm (W_Snapshot et uid pe qe pad bids pad' asks sy) =
     Sbe_Snapshot \<lparr>sds_event_time = et, sds_book_update_id = uid, sds_symbol = sy,
       sds_bids = map (level_value dm pe qe) bids, sds_asks = map (level_value dm pe qe) asks\<rparr>"
| "written_value dm (W_Depth et u1 u2 pe qe pad bids pad' asks sy) =
     Sbe_Depth \<lparr>sdr_event_time = et, sdr_first_book_update_id = u1, sdr_last_book_update_id = u2, sdr_symbol = sy,
       sdr_bids = map (level_value dm pe qe) bids, sdr_asks = map (level_value dm pe qe) asks\<rparr>"

definition exponent_ok :: "int \<Rightarrow> bool" where
  "exponent_ok e \<longleftrightarrow> - 128 \<le> e \<and> e < 128"

text \<open>
  Every field fits its width. The decoder wants two bytes more than the shortest trade message has, so a trade
  message has at least one trade or a symbol.
\<close>

fun written_ok :: "sbe_written \<Rightarrow> bool" where
  "written_ok (W_Trade et tt pe qe pad ts sy) \<longleftrightarrow>
     in_i64 et \<and> in_i64 tt \<and> exponent_ok pe \<and> exponent_ok qe \<and> 25 + length pad < 65536 \<and> length ts < 2 ^ 32 \<and>
     list_all trade_ok ts \<and> length sy < 256 \<and> (ts \<noteq> [] \<or> sy \<noteq> [])"
| "written_ok (W_BestBidAsk et uid pe qe bp bq ap aq sy) \<longleftrightarrow>
     in_i64 et \<and> in_i64 uid \<and> exponent_ok pe \<and> exponent_ok qe \<and> in_i64 bp \<and> in_i64 bq \<and> in_i64 ap \<and> in_i64 aq \<and> length sy < 256"
| "written_ok (W_Snapshot et uid pe qe pad bids pad' asks sy) \<longleftrightarrow>
     in_i64 et \<and> in_i64 uid \<and> exponent_ok pe \<and> exponent_ok qe \<and> levels_fit pad bids \<and> levels_fit pad' asks \<and> length sy < 256"
| "written_ok (W_Depth et u1 u2 pe qe pad bids pad' asks sy) \<longleftrightarrow>
     in_i64 et \<and> in_i64 u1 \<and> in_i64 u2 \<and> exponent_ok pe \<and> exponent_ok qe \<and> levels_fit pad bids \<and> levels_fit pad' asks \<and> length sy < 256"

lemma two_times_at:
  assumes "rest_at buf pos (put_int64 a @ put_int64 b @ put_int8 pe @ put_int8 qe @ r)" "in_i64 a" "in_i64 b" "exponent_ok pe" "exponent_ok qe"
  shows "read_int64 buf pos = Some a" "read_int64 buf (pos + 8) = Some b" "read_int8 buf (pos + 16) = Some pe" "read_int8 buf (pos + 17) = Some qe"
    "rest_at buf (pos + 18) r"
proof -
  have e: "- 128 \<le> pe" "pe < 128" "- 128 \<le> qe" "qe < 128"
    using assms(4,5) by (simp_all add: exponent_ok_def)
  note r1 = read_int64_at [OF assms(1,2)]
  note r2 = read_int64_at [OF r1(2) assms(3)]
  note r3 = read_int8_at [OF r2(2) e(1,2)]
  note r4 = read_int8_at [OF r3(2) e(3,4)]
  have q: "pos + 8 + 8 = pos + 16" "pos + 16 + 1 = pos + 17" "pos + 17 + 1 = pos + 18"
    by simp_all
  show "read_int64 buf pos = Some a" "read_int64 buf (pos + 8) = Some b" "read_int8 buf (pos + 16) = Some pe" "read_int8 buf (pos + 17) = Some qe"
    "rest_at buf (pos + 18) r"
    using r1(1) r2(1) r3(1) r4 unfolding q by blast+
qed

lemma decode_snapshot_at:
  assumes a: "rest_at buf start (put_message (W_Snapshot et uid pe qe pad bids pad' asks sy) @ r)"
    and ok: "written_ok (W_Snapshot et uid pe qe pad bids pad' asks sy)"
  shows "map_option Sbe_Snapshot (decode_depth_snapshot dm buf start (length buf - start)) =
    Some (written_value dm (W_Snapshot et uid pe qe pad bids pad' asks sy))"
proof -
  have b: "rest_at buf start (put_int64 et @ put_int64 uid @ put_int8 pe @ put_int8 qe @ put_levels pad bids @ put_levels pad' asks @ put_symbol sy @ r)"
    using a by simp
  have o: "in_i64 et" "in_i64 uid" "exponent_ok pe" "exponent_ok qe" "levels_fit pad bids" "levels_fit pad' asks" "length sy < 256"
    using ok by simp_all
  note t = two_times_at [OF b o(1-4)]
  note d = decode_book_at [OF t(5) _ o(5-7), of start dm pe qe]
  have "\<not> length buf - start < 8 * 2 + 2 + 4 * 2"
    using rest_at_length [OF t(5)] by (simp add: put_levels_def)
  thus ?thesis
    using t(1-4) d by (simp add: decode_depth_snapshot_def)
qed

lemma decode_depth_at:
  assumes a: "rest_at buf start (put_message (W_Depth et u1 u2 pe qe pad bids pad' asks sy) @ r)"
    and ok: "written_ok (W_Depth et u1 u2 pe qe pad bids pad' asks sy)"
  shows "map_option Sbe_Depth (decode_depth_diff dm buf start (length buf - start)) =
    Some (written_value dm (W_Depth et u1 u2 pe qe pad bids pad' asks sy))"
proof -
  have b: "rest_at buf start (put_int64 et @ put_int64 u1 @ put_int64 u2 @ put_int8 pe @ put_int8 qe @ put_levels pad bids @ put_levels pad' asks @ put_symbol sy @ r)"
    using a by simp
  have o: "in_i64 et" "in_i64 u1" "in_i64 u2" "exponent_ok pe" "exponent_ok qe" "levels_fit pad bids" "levels_fit pad' asks" "length sy < 256"
    using ok by simp_all
  note e = read_int64_at [OF b o(1)]
  have q: "start + 8 + 8 = start + 16" "start + 8 + 16 = start + 24" "start + 8 + 17 = start + 25" "start + 8 + 18 = start + 26"
    by simp_all
  note t = two_times_at [OF e(2) o(2-5), unfolded q]
  note d = decode_book_at [OF t(5) _ o(6-8), of start dm pe qe]
  have "\<not> length buf - start < 8 * 3 + 2 + 4 * 2"
    using rest_at_length [OF t(5)] by (simp add: put_levels_def)
  thus ?thesis
    using e(1) t(1-4) d by (simp add: decode_depth_diff_def)
qed

lemma decode_best_bid_ask_at:
  assumes a: "rest_at buf start (put_message (W_BestBidAsk et uid pe qe bp bq ap aq sy) @ r)"
    and ok: "written_ok (W_BestBidAsk et uid pe qe bp bq ap aq sy)"
  shows "map_option Sbe_BestBidAsk (decode_best_bid_ask dm zero buf start (length buf - start)) =
    Some (written_value dm (W_BestBidAsk et uid pe qe bp bq ap aq sy))"
proof -
  have b: "rest_at buf start (put_int64 et @ put_int64 uid @ put_int8 pe @ put_int8 qe @ put_int64 bp @ put_int64 bq @ put_int64 ap @ put_int64 aq @ put_symbol sy @ r)"
    using a by simp
  have o: "in_i64 et" "in_i64 uid" "exponent_ok pe" "exponent_ok qe" "in_i64 bp" "in_i64 bq" "in_i64 ap" "in_i64 aq" "length sy < 256"
    using ok by simp_all
  note t = two_times_at [OF b o(1-4)]
  have q: "start + 18 + 8 = start + 26" "start + 26 + 8 = start + 34" "start + 34 + 8 = start + 42" "start + 42 + 8 = start + 50"
    by simp_all
  note p1 = read_int64_at [OF t(5) o(5), unfolded q]
  note p2 = read_int64_at [OF p1(2) o(6), unfolded q]
  note p3 = read_int64_at [OF p2(2) o(7), unfolded q]
  note p4 = read_int64_at [OF p3(2) o(8), unfolded q]
  note sy = parse_varString8_at(1) [OF p4(2) o(9)]
  have "\<not> length buf - start < 8 * 6 + 2"
    using rest_at_length [OF p4(2)] by simp
  thus ?thesis
    using t(1-4) p1(1) p2(1) p3(1) p4(1) sy by (simp add: decode_best_bid_ask_def)
qed

lemma decode_trade_event_at:
  assumes a: "rest_at buf start (put_message (W_Trade et tt pe qe pad ts sy) @ r)" and ok: "written_ok (W_Trade et tt pe qe pad ts sy)"
  shows "map_option Sbe_Trade (decode_trade_event dm buf start (length buf - start)) = Some (written_value dm (W_Trade et tt pe qe pad ts sy))"
proof -
  have b: "rest_at buf start (put_int64 et @ put_int64 tt @ put_int8 pe @ put_int8 qe @ put_trades pad ts @ put_symbol sy @ r)"
    using a by simp
  have o: "in_i64 et" "in_i64 tt" "exponent_ok pe" "exponent_ok qe" "25 + length pad < 65536" "length ts < 2 ^ 32"
    "list_all trade_ok ts" "length sy < 256" "ts \<noteq> [] \<or> sy \<noteq> []"
    using ok by simp_all
  define n where "n = (25 + length pad) * length ts"
  note t = two_times_at [OF b o(1-4)]
  have q: "start + 18 + 6 = start + 24"
    by simp
  note h = parse_group_header32_at [OF t(5) o(5,6), unfolded q]
  note l = decode_trades_at [OF h(2) o(7), folded n_def]
  note sy = parse_varString8_at(1) [OF l(2) o(8)]
  have len: "length buf = start + 24 + n + Suc (length sy + length r)"
    using rest_at_length [OF l(2)] by simp
  have "25 \<le> n \<or> 0 < length sy"
    using o(9) by (cases ts) (auto simp: n_def)
  hence g: "\<not> length buf - start < 8 * 2 + 2 + 8" "\<not> length buf - start < start + 24 - start + n" "\<not> 25 + length pad < 25"
    using len by linarith+
  show ?thesis
    using t(1-4) sy unfolding decode_trade_event_def
    by (simp only: h(1) l(1) Option.bind.simps prod.case GroupSize.simps n_def [symmetric] g if_False simp_thms option.map written_value.simps)
qed

lemma read_header_at:
  assumes "a < 65536" "t < 65536" "c < 65536" "v < 65536"
  shows "read_header (put_header a t c v @ r) = Some \<lparr>sh_block_length = a, sh_template_id = t, sh_schema_id = c, sh_version = v\<rparr>"
    "rest_at (put_header a t c v @ r) kHeaderSize r"
proof -
  let ?b = "put_header a t c v @ r"
  have s: "rest_at ?b 0 (le_bytes 2 a @ le_bytes 2 t @ le_bytes 2 c @ le_bytes 2 v @ r)"
    by (simp add: rest_at_def put_header_def)
  have l: "a < 256 ^ 2" "t < 256 ^ 2" "c < 256 ^ 2" "v < 256 ^ 2"
    using assms by simp_all
  have q: "0 + 2 = (2 :: nat)" "2 + 2 = (4 :: nat)" "4 + 2 = (6 :: nat)" "6 + 2 = (8 :: nat)"
    by simp_all
  note r1 = read_uint_at [OF s l(1), unfolded q]
  note r2 = read_uint_at [OF r1(2) l(2), unfolded q]
  note r3 = read_uint_at [OF r2(2) l(3), unfolded q]
  note r4 = read_uint_at [OF r3(2) l(4), unfolded q]
  show "read_header ?b = Some \<lparr>sh_block_length = a, sh_template_id = t, sh_schema_id = c, sh_version = v\<rparr>" "rest_at ?b kHeaderSize r"
    using r1(1) r2(1) r3(1) r4 by (simp_all add: read_header_def kHeaderSize_def)
qed

lemmas template_ids = kTradesStreamEventId_def kBestBidAskStreamEventId_def kDepthSnapshotStreamEventId_def kDepthDiffStreamEventId_def

lemma length_put_message: "18 \<le> length (put_message m)"
  by (cases m) simp_all

lemma decode_impl_with_header:
  assumes "a < 65536" "t < 65536" "c < 65536" "v < 65536" "18 \<le> length r"
  defines "payload \<equiv> put_header a t c v @ r"
  shows "sbe_decode_impl dm zero payload =
     (if t = kTradesStreamEventId then map_option Sbe_Trade (decode_trade_event dm payload kHeaderSize (length payload - kHeaderSize))
      else if t = kBestBidAskStreamEventId then map_option Sbe_BestBidAsk (decode_best_bid_ask dm zero payload kHeaderSize (length payload - kHeaderSize))
      else if t = kDepthSnapshotStreamEventId then map_option Sbe_Snapshot (decode_depth_snapshot dm payload kHeaderSize (length payload - kHeaderSize))
      else if t = kDepthDiffStreamEventId then map_option Sbe_Depth (decode_depth_diff dm payload kHeaderSize (length payload - kHeaderSize))
      else Some Sbe_Monostate)"
proof -
  have "length payload \<noteq> length ''__CONNECTED__''" "payload \<noteq> []"
    using assms(5) unfolding payload_def by (auto simp: put_header_def)
  hence "payload \<noteq> ''__CONNECTED__''" "payload \<noteq> []"
    by metis+
  thus ?thesis
    using read_header_at(1) [OF assms(1-4), of r] unfolding sbe_decode_impl_def payload_def [symmetric] by (simp add: Let_def)
qed

text \<open>
  C13. The binary decoder reads back every trade, best bid and ask, snapshot and depth message written in the format its
  comments give, with any header, longer group entries than it knows and any bytes after the message: every field,
  every level and every trade in order.
\<close>

theorem sbe_decode_roundtrip:
  assumes "written_ok m" "a < 65536" "c < 65536" "v < 65536"
  shows "sbe_decode_impl dm zero (put_header a (written_template m) c v @ put_message m @ r) = Some (written_value dm m)"
proof -
  have t: "written_template m < 65536"
    by (cases m) (simp_all add: template_ids)
  note h = read_header_at(2) [OF assms(2) t assms(3,4), of "put_message m @ r"]
  have l: "18 \<le> length (put_message m @ r)"
    using length_put_message [of m] by simp
  note d = decode_impl_with_header [OF assms(2) t assms(3,4) l]
  define payload where "payload = put_header a (written_template m) c v @ put_message m @ r"
  note f = h [folded payload_def]
  note e = d [of dm zero, folded payload_def]
  have "sbe_decode_impl dm zero payload = Some (written_value dm m)"
  proof (cases m)
    case W_Trade
    show ?thesis
      unfolding e using decode_trade_event_at [OF f [unfolded W_Trade], of dm] assms(1) unfolding W_Trade
      by (simp add: template_ids del: written_ok.simps put_message.simps written_value.simps)
  next
    case W_BestBidAsk
    show ?thesis
      unfolding e using decode_best_bid_ask_at [OF f [unfolded W_BestBidAsk], of dm zero] assms(1) unfolding W_BestBidAsk
      by (simp add: template_ids del: written_ok.simps put_message.simps written_value.simps)
  next
    case W_Snapshot
    show ?thesis
      unfolding e using decode_snapshot_at [OF f [unfolded W_Snapshot], of dm] assms(1) unfolding W_Snapshot
      by (simp add: template_ids del: written_ok.simps put_message.simps written_value.simps)
  next
    case W_Depth
    show ?thesis
      unfolding e using decode_depth_at [OF f [unfolded W_Depth], of dm] assms(1) unfolding W_Depth
      by (simp add: template_ids del: written_ok.simps put_message.simps written_value.simps)
  qed
  thus ?thesis
    by (simp only: payload_def)
qed

subsection \<open>Reads inside the payload\<close>

lemma mem_copy_defined: "pos + n \<le> length buf \<Longrightarrow> mem_copy buf pos n = Some (take n (drop pos buf))"
  by (simp add: mem_copy_def)

lemma read_defined:
  "pos + n \<le> length buf \<Longrightarrow> read_uint n buf pos = Some (le_nat (take n (drop pos buf)))"
  "pos + 8 \<le> length buf \<Longrightarrow> \<exists>x. read_int64 buf pos = Some x"
  "pos + 1 \<le> length buf \<Longrightarrow> \<exists>y. read_int8 buf pos = Some y"
  by (simp_all add: read_uint_def read_int64_def read_int8_def mem_copy_def)

lemma decode_levels_defined:
  assumes "16 \<le> bl" "pos + bl * n \<le> length buf"
  shows "\<exists>ls. decode_levels dm buf pe qe bl n pos = Some (ls, pos + bl * n)"
  using assms(2)
proof (induction n arbitrary: pos)
  case (Suc n)
  have "pos + bl + bl * n \<le> length buf"
    using Suc.prems by simp
  then obtain ls where "decode_levels dm buf pe qe bl n (pos + bl) = Some (ls, pos + bl + bl * n)"
    using Suc.IH by blast
  moreover have "pos + 8 \<le> length buf" "pos + 8 + 8 \<le> length buf"
    using Suc.prems assms(1) by simp_all
  then obtain x y where "read_int64 buf pos = Some x" "read_int64 buf (pos + 8) = Some y"
    using read_defined(2) by blast
  ultimately show ?case
    by (simp add: decode_price_level_def algebra_simps)
qed simp

lemma decode_trades_defined:
  assumes "25 \<le> bl" "pos + bl * n \<le> length buf"
  shows "\<exists>ts. decode_trades dm buf pe qe bl n pos = Some (ts, pos + bl * n)"
  using assms(2)
proof (induction n arbitrary: pos)
  case (Suc n)
  have "pos + bl + bl * n \<le> length buf"
    using Suc.prems by simp
  then obtain ts where "decode_trades dm buf pe qe bl n (pos + bl) = Some (ts, pos + bl + bl * n)"
    using Suc.IH by blast
  moreover have b: "pos + 8 \<le> length buf" "pos + 8 + 8 \<le> length buf" "pos + 16 + 8 \<le> length buf" "pos + 24 + 1 \<le> length buf"
    using Suc.prems assms(1) by simp_all
  moreover obtain x y z where "read_int64 buf pos = Some x" "read_int64 buf (pos + 8) = Some y" "read_int64 buf (pos + 16) = Some z"
    using read_defined(2) [OF b(1)] read_defined(2) [OF b(2)] read_defined(2) [OF b(3)] by auto
  ultimately show ?case
    using read_defined(1) [OF b(4)] by (simp add: decode_trade_def algebra_simps)
qed simp

lemma parse_group_header_defined:
  "pos + 4 \<le> length buf \<Longrightarrow> \<exists>g. parse_group_header16 buf pos = Some (g, pos + 4)"
  "pos + 6 \<le> length buf \<Longrightarrow> parse_group_header32 buf pos =
     Some (\<lparr>gs_block_length = le_nat (take 2 (drop pos buf)), gs_num_in_group = le_nat (take 4 (drop (pos + 2) buf))\<rparr>, pos + 6)"
  by (simp_all add: parse_group_header16_def parse_group_header32_def read_defined(1))

definition symbol_fits :: "string \<Rightarrow> nat \<Rightarrow> bool" where
  "symbol_fits buf pos \<longleftrightarrow> pos < length buf \<and> pos + 1 + le_nat (take 1 (drop pos buf)) \<le> length buf"

lemma parse_varString8_defined: "parse_varString8 buf pos = None \<longleftrightarrow> \<not> symbol_fits buf pos"
  by (auto simp: parse_varString8_def symbol_fits_def read_uint_def mem_copy_def Let_def)

lemma decode_symbol_defined:
  assumes st: "start \<le> pos"
  shows "\<exists>v. decode_symbol buf start (length buf - start) pos = Some v"
proof (cases "length buf - start < pos - start + 1")
  case False
  hence "pos + 1 \<le> length buf"
    using st by linarith
  note u = read_defined(1) [OF this]
  show ?thesis
  proof (cases "length buf - start < pos - start + 1 + le_nat (take 1 (drop pos buf))")
    case True
    thus ?thesis
      unfolding decode_symbol_def Let_def u by simp
  next
    case f: False
    hence "symbol_fits buf pos"
      using st False unfolding symbol_fits_def by linarith
    then obtain y where "parse_varString8 buf pos = Some y"
      using parse_varString8_defined by fastforce
    thus ?thesis
      unfolding decode_symbol_def Let_def u using f False by (cases y) simp
  qed
qed (simp add: decode_symbol_def)

lemma decode_book_defined:
  assumes "start \<le> pos" "pos + 4 \<le> length buf"
  shows "\<exists>v. decode_book dm buf start (length buf - start) pe qe pos = Some v"
proof -
  let ?rem = "length buf - start"
  obtain g where g: "parse_group_header16 buf pos = Some (g, pos + 4)"
    using parse_group_header_defined(1) [OF assms(2)] by blast
  define n where "n = gs_block_length g * gs_num_in_group g"
  show ?thesis
  proof (cases "gs_block_length g < 16 \<or> ?rem < (pos + 4 - start) + n + 4")
    case True
    thus ?thesis
      by (simp add: decode_book_def g n_def)
  next
    case c1: False
    have b1: "pos + 4 + n + 4 \<le> length buf"
      using c1 assms by linarith
    obtain bids where l1: "decode_levels dm buf pe qe (gs_block_length g) (gs_num_in_group g) (pos + 4) = Some (bids, pos + 4 + n)"
      using decode_levels_defined [of "gs_block_length g" "pos + 4" "gs_num_in_group g" buf dm pe qe] c1 b1 by (auto simp: n_def)
    obtain g' where g': "parse_group_header16 buf (pos + 4 + n) = Some (g', pos + 4 + n + 4)"
      using parse_group_header_defined(1) [OF b1] by blast
    define m where "m = gs_block_length g' * gs_num_in_group g'"
    define p3 where "p3 = pos + 4 + n + 4"
    show ?thesis
    proof (cases "gs_block_length g' < 16 \<or> ?rem < (p3 - start) + m")
      case True
      show ?thesis
        unfolding decode_book_def by (simp only: g g' [folded p3_def] l1 True [unfolded m_def] c1 [unfolded n_def] Option.bind.simps
            prod.case if_True if_False) blast
    next
      case c2: False
      have b2: "p3 + m \<le> length buf" "start \<le> p3 + m"
        using c2 assms unfolding p3_def by linarith+
      obtain asks where l2: "decode_levels dm buf pe qe (gs_block_length g') (gs_num_in_group g') p3 = Some (asks, p3 + m)"
        using decode_levels_defined [of "gs_block_length g'" p3 "gs_num_in_group g'" buf dm pe qe] c2 b2 by (auto simp: m_def)
      obtain v where v: "decode_symbol buf start ?rem (p3 + m) = Some v"
        using decode_symbol_defined [OF b2(2)] by blast
      show ?thesis
        unfolding decode_book_def by (simp only: g g' [folded p3_def] l1 l2 v c2 [unfolded m_def] c1 [unfolded n_def] Option.bind.simps
            prod.case if_False) blast
    qed
  qed
qed

text \<open>The group header of a trade message whose body starts at \<open>start\<close>.\<close>

definition trade_block :: "string \<Rightarrow> nat \<Rightarrow> nat" where
  "trade_block buf start = le_nat (take 2 (drop (start + 18) buf))"

definition trade_count :: "string \<Rightarrow> nat \<Rightarrow> nat" where
  "trade_count buf start = le_nat (take 4 (drop (start + 20) buf))"

lemma fixed_part_defined:
  assumes "start + 18 \<le> length buf"
  obtains a b pe qe where "read_int64 buf start = Some a" "read_int64 buf (start + 8) = Some b"
    "read_int8 buf (start + 16) = Some pe" "read_int8 buf (start + 17) = Some qe"
  using read_defined(2) [of start buf] read_defined(2) [of "start + 8" buf] read_defined(3) [of "start + 16" buf]
    read_defined(3) [of "start + 17" buf] assms by auto

lemma decode_trade_event_undefined:
  assumes "start \<le> length buf"
  shows "decode_trade_event dm buf start (length buf - start) = None \<longleftrightarrow>
     start + 26 \<le> length buf \<and> 25 \<le> trade_block buf start \<and> start + 24 + trade_block buf start * trade_count buf start \<le> length buf \<and>
     \<not> symbol_fits buf (start + 24 + trade_block buf start * trade_count buf start)"
proof (cases "start + 26 \<le> length buf")
  case True
  hence "start + 18 \<le> length buf" "start + 18 + 6 \<le> length buf" "\<not> length buf - start < 26"
    by simp_all
  note b = this
  obtain x y pe qe where r: "read_int64 buf start = Some x" "read_int64 buf (start + 8) = Some y"
    "read_int8 buf (start + 16) = Some pe" "read_int8 buf (start + 17) = Some qe"
    using fixed_part_defined [OF b(1)] by blast
  let ?l = "trade_block buf start" and ?n = "trade_count buf start"
  have q: "start + 18 + 6 = start + 24" "start + 18 + 2 = start + 20" "8 * 2 + 2 + 8 = (26 :: nat)" "start + 24 - start = 24"
    by simp_all
  have h: "parse_group_header32 buf (start + 18) = Some (\<lparr>gs_block_length = ?l, gs_num_in_group = ?n\<rparr>, start + 24)"
    using parse_group_header_defined(2) [OF b(2)] unfolding q trade_block_def trade_count_def .
  show ?thesis
  proof (cases "?l < 25 \<or> length buf - start < 24 + ?l * ?n")
    case c: True
    have "decode_trade_event dm buf start (length buf - start) = Some SbeTradeEvent_default"
      unfolding decode_trade_event_def by (simp only: q b(3) r h c Option.bind.simps prod.case GroupSize.simps if_True if_False)
    thus ?thesis
      using c by auto
  next
    case c: False
    hence l: "25 \<le> ?l" "start + 24 + ?l * ?n \<le> length buf"
      using True by linarith+
    obtain ts where ts: "decode_trades dm buf pe qe ?l ?n (start + 24) = Some (ts, start + 24 + ?l * ?n)"
      using decode_trades_defined [OF l] by blast
    have "decode_trade_event dm buf start (length buf - start) = None \<longleftrightarrow> parse_varString8 buf (start + 24 + ?l * ?n) = None"
      unfolding decode_trade_event_def
      by (simp only: q b(3) r h c ts Option.bind.simps prod.case GroupSize.simps if_False)
        (cases "parse_varString8 buf (start + 24 + ?l * ?n)"; auto)
    thus ?thesis
      unfolding parse_varString8_defined using l True by blast
  qed
next
  case False
  hence "length buf - start < 26"
    using assms by linarith
  thus ?thesis
    using False by (simp add: decode_trade_event_def)
qed

lemma decode_best_bid_ask_undefined:
  assumes "start \<le> length buf"
  shows "decode_best_bid_ask dm zero buf start (length buf - start) = None \<longleftrightarrow>
     start + 50 \<le> length buf \<and> \<not> symbol_fits buf (start + 50)"
proof (cases "start + 50 \<le> length buf")
  case True
  hence b: "start + 18 \<le> length buf" "\<not> length buf - start < 8 * 6 + 2"
    by simp_all
  obtain x y pe qe where r: "read_int64 buf start = Some x" "read_int64 buf (start + 8) = Some y"
    "read_int8 buf (start + 16) = Some pe" "read_int8 buf (start + 17) = Some qe"
    using fixed_part_defined [OF b(1)] by blast
  obtain p1 p2 p3 p4 where p: "read_int64 buf (start + 18) = Some p1" "read_int64 buf (start + 26) = Some p2"
    "read_int64 buf (start + 34) = Some p3" "read_int64 buf (start + 42) = Some p4"
    using read_defined(2) [of "start + 18" buf] read_defined(2) [of "start + 26" buf] read_defined(2) [of "start + 34" buf]
      read_defined(2) [of "start + 42" buf] True by auto
  have "decode_best_bid_ask dm zero buf start (length buf - start) = None \<longleftrightarrow> parse_varString8 buf (start + 50) = None"
    unfolding decode_best_bid_ask_def by (simp only: b(2) r p Option.bind.simps if_False)
      (cases "parse_varString8 buf (start + 50)"; auto)
  thus ?thesis
    unfolding parse_varString8_defined using True by blast
next
  case False
  hence "length buf - start < 50"
    using assms by linarith
  thus ?thesis
    using False by (simp add: decode_best_bid_ask_def)
qed

lemma decode_snapshot_defined:
  assumes "start \<le> length buf"
  shows "decode_depth_snapshot dm buf start (length buf - start) \<noteq> None"
proof (cases "start + 26 \<le> length buf")
  case True
  hence b: "start + 18 \<le> length buf" "start + 18 + 4 \<le> length buf" "start \<le> start + 18"
    by simp_all
  obtain x y pe qe where r: "read_int64 buf start = Some x" "read_int64 buf (start + 8) = Some y"
    "read_int8 buf (start + 16) = Some pe" "read_int8 buf (start + 17) = Some qe"
    using fixed_part_defined [OF b(1)] by blast
  obtain v where "decode_book dm buf start (length buf - start) pe qe (start + 18) = Some v"
    using decode_book_defined [OF b(3,2)] by blast
  thus ?thesis
    using r by (simp add: decode_depth_snapshot_def)
next
  case False
  hence "length buf - start < 26"
    using assms by linarith
  thus ?thesis
    by (simp add: decode_depth_snapshot_def)
qed

lemma decode_depth_defined:
  assumes "start \<le> length buf"
  shows "decode_depth_diff dm buf start (length buf - start) \<noteq> None"
proof (cases "start + 34 \<le> length buf")
  case True
  hence b: "start + 8 \<le> length buf" "start + 8 + 18 \<le> length buf" "start + 26 + 4 \<le> length buf" "start \<le> start + 26"
    by simp_all
  have q: "start + 8 + 8 = start + 16" "start + 8 + 16 = start + 24" "start + 8 + 17 = start + 25"
    by simp_all
  obtain w where w: "read_int64 buf start = Some w"
    using read_defined(2) [OF b(1)] by blast
  obtain x y pe qe where r: "read_int64 buf (start + 8) = Some x" "read_int64 buf (start + 16) = Some y"
    "read_int8 buf (start + 24) = Some pe" "read_int8 buf (start + 25) = Some qe"
    using fixed_part_defined [OF b(2), unfolded q] by blast
  obtain v where "decode_book dm buf start (length buf - start) pe qe (start + 26) = Some v"
    using decode_book_defined [OF b(4,3)] by blast
  thus ?thesis
    using w r by (simp add: decode_depth_diff_def)
next
  case False
  hence "length buf - start < 34"
    using assms by linarith
  thus ?thesis
    by (simp add: decode_depth_diff_def)
qed

definition payload_template :: "string \<Rightarrow> nat" where
  "payload_template payload = le_nat (take 2 (drop 2 payload))"

lemma read_header_defined:
  assumes "8 \<le> length payload"
  obtains h where "read_header payload = Some h" "sh_template_id h = payload_template payload"
  using assms by (auto simp: read_header_def payload_template_def read_defined(1))

text \<open>
  C14. For arbitrary bytes the binary decoder reads outside the payload in exactly three cases: the payload is shorter than
  the message header, a best bid and ask message ends before its symbol does, or a trade message with an acceptable group
  ends before its symbol does. Snapshots, depth updates and unknown templates never read outside.
\<close>

theorem sbe_out_of_bounds_reads:
  assumes "payload \<noteq> []" "payload \<noteq> ''__CONNECTED__''"
  shows "sbe_decode_impl dm zero payload = None \<longleftrightarrow>
     length payload < 8 \<or>
     payload_template payload = kBestBidAskStreamEventId \<and> 58 \<le> length payload \<and> \<not> symbol_fits payload 58 \<or>
     payload_template payload = kTradesStreamEventId \<and> 34 \<le> length payload \<and> 25 \<le> trade_block payload 8 \<and>
       32 + trade_block payload 8 * trade_count payload 8 \<le> length payload \<and>
       \<not> symbol_fits payload (32 + trade_block payload 8 * trade_count payload 8)"
proof (cases "length payload < 8")
  case True
  hence "read_header payload = None"
    by (auto simp: read_header_def read_uint_def mem_copy_def bind_eq_None_conv)
  thus ?thesis
    using True assms by (simp add: sbe_decode_impl_def)
next
  case False
  hence "8 \<le> length payload"
    by simp
  then obtain h where h: "read_header payload = Some h" "sh_template_id h = payload_template payload"
    using read_header_defined by blast
  have k: "kHeaderSize \<le> length payload"
    using False by (simp add: kHeaderSize_def)
  show ?thesis
    using False decode_trade_event_undefined [OF k, of dm] decode_best_bid_ask_undefined [OF k, of dm zero] decode_snapshot_defined [OF k, of dm]
      decode_depth_defined [OF k, of dm] assms h
    unfolding sbe_decode_impl_def by (simp add: Let_def template_ids kHeaderSize_def)
qed

text \<open>A depth update with two bids in entries of 18 bytes, one ask, and bytes after the message.\<close>

theorem sbe_decode_roundtrip_witness:
  "sbe_decode_impl (\<lambda>m e. (m, e)) (0, 0)
     (put_header 26 (written_template (W_Depth 5 100 104 (- 2) (- 5) ''ab'' [(9326326, 87238), (9326300, 0)] [] [(9326327, 325577)] ''BTCUSDT'')) 1 0 @
      put_message (W_Depth 5 100 104 (- 2) (- 5) ''ab'' [(9326326, 87238), (9326300, 0)] [] [(9326327, 325577)] ''BTCUSDT'') @ ''xyz'') =
   Some (Sbe_Depth \<lparr>sdr_event_time = 5, sdr_first_book_update_id = 100, sdr_last_book_update_id = 104, sdr_symbol = ''BTCUSDT'',
     sdr_bids = [((9326326, - 2), (87238, - 5)), ((9326300, - 2), (0, - 5))], sdr_asks = [((9326327, - 2), (325577, - 5))]\<rparr>)"
proof -
  have "written_ok (W_Depth 5 100 104 (- 2) (- 5) ''ab'' [(9326326, 87238), (9326300, 0)] [] [(9326327, 325577)] ''BTCUSDT'')"
    by (simp add: in_i64_def exponent_ok_def levels_fit_def level_ok_def)
  from sbe_decode_roundtrip [OF this, of 26 1 0 "\<lambda>m e. (m, e)" "(0, 0)" "''xyz''"] show ?thesis
    by (simp add: level_value_def del: put_message.simps written_template.simps)
qed

text \<open>A best bid and ask message that ends where its symbol should start.\<close>

definition cut_best_bid_ask :: string where
  "cut_best_bid_ask = put_header 50 kBestBidAskStreamEventId 1 0 @ replicate 50 (CHR 0x00)"

theorem sbe_out_of_bounds_reads_witness:
  "sbe_decode_impl (\<lambda>m e. (m, e)) (0, 0) cut_best_bid_ask = None"
proof -
  have l: "length cut_best_bid_ask = 58"
    by (simp add: cut_best_bid_ask_def)
  hence "length cut_best_bid_ask \<noteq> length ''__CONNECTED__''"
    by simp
  hence "cut_best_bid_ask \<noteq> ''__CONNECTED__''"
    by metis
  moreover have "cut_best_bid_ask \<noteq> []" "\<not> symbol_fits cut_best_bid_ask 58" "58 \<le> length cut_best_bid_ask"
    using l by (auto simp: symbol_fits_def)
  moreover have "payload_template cut_best_bid_ask = kBestBidAskStreamEventId"
    by (simp add: payload_template_def cut_best_bid_ask_def put_header_def le_nat_le_bytes template_ids)
  ultimately show ?thesis
    using sbe_out_of_bounds_reads [of cut_best_bid_ask "\<lambda>m e. (m, e)" "(0, 0)"] by blast
qed

end
