(* ===== verification/Signal_Scale.thy ===== *)
theory Signal_Scale
  imports HFT_Prelude "HOL-Library.Monad_Syntax"
begin

text \<open>
  The integer scales of the strategy calculations (\<^verbatim>\<open>common/fixed_point_config.hpp\<close>) and the arithmetic they share: truncating
  division with a positive divisor, clamping, the exponential moving average step, and \<^verbatim>\<open>static_cast<size_t>\<close> of an \<^verbatim>\<open>int\<close>.
\<close>

abbreviation (input) kZScoreScale :: int64 where
  "kZScoreScale \<equiv> 10000"

abbreviation (input) kSignalScale :: int64 where
  "kSignalScale \<equiv> 10000"

abbreviation (input) kBpsScale :: int64 where
  "kBpsScale \<equiv> 10000"

abbreviation (input) kObiScale :: int64 where
  "kObiScale \<equiv> 10000"

abbreviation (input) kEmaScale :: int64 where
  "kEmaScale \<equiv> 10000"

definition size_of_int :: "int \<Rightarrow> nat" where
  "size_of_int n = nat (n mod 2 ^ 64)"

definition clamp :: "int64 \<Rightarrow> int64 \<Rightarrow> int64 \<Rightarrow> int64" where
  "clamp v lo hi = (if v < lo then lo else if hi < v then hi else v)"

definition ema_step :: "int64 \<Rightarrow> int64 \<Rightarrow> int64 \<Rightarrow> int64" where
  "ema_step alpha x old = i64 (i64 (alpha * x) + i64 (i64 (kEmaScale - alpha) * old)) sdiv kEmaScale"

text \<open>The most recent elements of a sequence, oldest first.\<close>

definition last_n :: "nat \<Rightarrow> 'a list \<Rightarrow> 'a list" where
  "last_n n xs = drop (length xs - n) xs"

text \<open>An array of \<open>n\<close> slots, written round robin, that holds the most recent elements of a sequence.\<close>

definition ring_ok :: "nat \<Rightarrow> 'a list \<Rightarrow> 'a list \<Rightarrow> bool" where
  "ring_ok n xs arr \<longleftrightarrow> length arr = n \<and> (\<forall>j<length xs. length xs \<le> j + n \<longrightarrow> arr ! (j mod n) = xs ! j)"

subsection \<open>Lemmas\<close>

lemma clamp_between: "lo \<le> hi \<Longrightarrow> lo \<le> clamp v lo hi" "lo \<le> hi \<Longrightarrow> clamp v lo hi \<le> hi"
  by (auto simp: clamp_def)

lemma sdiv_pos: "0 < b \<Longrightarrow> a sdiv b = sgn a * (\<bar>a\<bar> div (b::int))"
  by (simp add: signed_divide_int_def)

lemma sdiv_abs_le:
  assumes "0 < b" "\<bar>a\<bar> \<le> m * b"
  shows "\<bar>a sdiv b\<bar> \<le> (m::int)"
proof -
  have "0 \<le> m" using assms by (metis abs_ge_zero linorder_not_less mult_neg_pos order_trans)
  moreover have "\<bar>a\<bar> div b \<le> m" using assms zdiv_mono1 [of "\<bar>a\<bar>" "m * b" b] by simp
  moreover have "0 \<le> \<bar>a\<bar> div b" using assms by (simp add: pos_imp_zdiv_nonneg_iff)
  ultimately show ?thesis using assms(1) by (simp add: sdiv_pos abs_mult abs_sgn_eq)
qed

lemma sdiv_sign:
  assumes "0 < (b::int)"
  shows "0 \<le> a \<Longrightarrow> 0 \<le> a sdiv b" "a \<le> 0 \<Longrightarrow> a sdiv b \<le> 0"
  using assms by (simp_all add: sdiv_pos sgn_if pos_imp_zdiv_nonneg_iff)

text \<open>Narrowed values are equal when they are equal as 64-bit words, where nested narrowing disappears.\<close>

lemma i64_eq_word: "i64 x = i64 y \<longleftrightarrow> (of_int x :: u64) = of_int y"
  unfolding i64_cong_iff by (simp add: word_of_int_eq_iff take_bit_eq_mod)

lemma of_int_i64 [simp]: "(of_int (i64 x) :: u64) = of_int x"
  unfolding i64_eq_word [symmetric] i64_cong_iff by (rule i64_mod)

lemma in_i64_between: "in_i64 a \<Longrightarrow> in_i64 b \<Longrightarrow> a \<le> x \<Longrightarrow> x \<le> b \<Longrightarrow> in_i64 x"
  by (auto simp: in_i64_def)

lemma in_i64_nonneg: "0 \<le> x \<Longrightarrow> x \<le> y \<Longrightarrow> y < 2 ^ 63 \<Longrightarrow> in_i64 x"
  by (auto simp: in_i64_def)

lemma in_i64_of_abs: "\<bar>x\<bar> < 2 ^ 63 \<Longrightarrow> in_i64 x"
  by (auto simp: in_i64_def)

lemma div_between:
  assumes "0 < b" "lo * b \<le> a" "a \<le> hi * b"
  shows "lo \<le> a div b" "a div b \<le> (hi::int)"
  using assms zdiv_mono1 [of "lo * b" a b] zdiv_mono1 [of a "hi * b" b] by simp_all

text \<open>A step of the average stays between its two arguments; nothing wraps for values below \<open>2 ^ 63 / 10000\<close>.\<close>

lemma ema_step_between:
  assumes "0 \<le> alpha" "alpha \<le> 10000" "0 \<le> lo" "lo \<le> x" "x \<le> hi" "lo \<le> old" "old \<le> hi" "hi * 10000 < 2 ^ 63"
  shows "lo \<le> ema_step alpha x old" "ema_step alpha x old \<le> hi"
proof -
  have ax: "alpha * lo \<le> alpha * x" "alpha * x \<le> alpha * hi" using assms by (auto intro: mult_left_mono)
  have bo: "(10000 - alpha) * lo \<le> (10000 - alpha) * old" "(10000 - alpha) * old \<le> (10000 - alpha) * hi"
    using assms by (auto intro!: mult_left_mono)
  have ub: "alpha * hi \<le> 10000 * hi" "(10000 - alpha) * hi \<le> 10000 * hi" using assms by (auto intro!: mult_right_mono)
  have nn: "0 \<le> alpha * lo" "0 \<le> (10000 - alpha) * lo" using assms by auto
  let ?s = "alpha * x + (10000 - alpha) * old"
  have s: "lo * 10000 \<le> ?s" "?s \<le> hi * 10000" using ax bo by (simp_all add: algebra_simps)
  have "in_i64 (alpha * x)" "in_i64 (10000 - alpha)" "in_i64 ((10000 - alpha) * old)" "in_i64 ?s"
    using ax bo ub nn s assms by (simp_all add: in_i64_def)
  then have "ema_step alpha x old = ?s div 10000"
    using s assms by (simp add: ema_step_def sdiv_nonneg)
  then show "lo \<le> ema_step alpha x old" "ema_step alpha x old \<le> hi"
    using div_between [of 10000 lo ?s hi] s by simp_all
qed

lemma last_n_snoc: "last_n n (xs @ [x]) = (if length (last_n n xs @ [x]) > n then tl (last_n n xs @ [x]) else last_n n xs @ [x])"
proof (cases "length xs < n")
  case False
  then have "tl (drop (length xs - n) xs @ [x]) = drop (Suc (length xs - n)) (xs @ [x])"
    by (cases "n = 0") (simp_all add: drop_Suc tl_drop tl_append2)
  then show ?thesis using False by (simp add: last_n_def Suc_diff_le)
qed (simp add: last_n_def)

lemma set_last_n: "set (last_n n xs) \<subseteq> set xs"
  by (simp add: last_n_def set_drop_subset)

lemma last_n_nth: "j < length (last_n n xs) \<Longrightarrow> last_n n xs ! j = xs ! (length xs - n + j)"
  by (simp add: last_n_def)

lemma length_last_n: "length (last_n n xs) = min n (length xs)"
  by (simp add: last_n_def)

lemma mod_window:
  assumes "j mod n = m mod n" "j < m" "m < j + (n::nat)"
  shows False
proof -
  have "n dvd m - j" using assms mod_eq_dvd_iff_nat [of j m n] by simp
  then show False using assms by (auto dest: dvd_imp_le)
qed

lemma ring_push:
  assumes "ring_ok n xs arr" "0 < n"
  shows "ring_ok n (xs @ [x]) (arr[length xs mod n := x])"
  unfolding ring_ok_def
proof (intro conjI allI impI)
  show "length (arr[length xs mod n := x]) = n" using assms by (simp add: ring_ok_def)
  fix j assume j: "j < length (xs @ [x])" "length (xs @ [x]) \<le> j + n"
  then show "arr[length xs mod n := x] ! (j mod n) = (xs @ [x]) ! j"
    using assms mod_window [of j n "length xs"] by (cases "j = length xs") (auto simp: ring_ok_def nth_append nth_list_update)
qed

lemma ring_oldest: "ring_ok n xs arr \<Longrightarrow> 0 < n \<Longrightarrow> n \<le> length xs \<Longrightarrow> arr ! (length xs mod n) = xs ! (length xs - n)"
  by (auto simp: ring_ok_def le_mod_geq)

lemma sum_last_n_snoc:
  assumes "0 < n"
  shows "sum_list (map f (last_n n (xs @ [x]))) =
    sum_list (map f (last_n n xs)) - (if n \<le> length xs then f (xs ! (length xs - n)) else 0) + (f x :: int)"
proof (cases "n \<le> length xs")
  case True
  define ys where "ys = drop (Suc (length xs - n)) xs"
  have "last_n n xs = xs ! (length xs - n) # ys" using True assms by (simp add: last_n_def ys_def Cons_nth_drop_Suc)
  moreover have "last_n n (xs @ [x]) = ys @ [x]" using True assms by (cases n) (simp_all add: last_n_def ys_def Suc_diff_Suc Suc_le_eq)
  ultimately show ?thesis using True by simp
next
  case False
  then show ?thesis by (simp add: last_n_def)
qed

end
