(* ===== verification/Robust_Zscore.thy ===== *)
theory Robust_Zscore
  imports Signal_Scale "HOL-Library.Multiset"
begin

text \<open>
  The robust z-score of the mean-reversion strategy (\<^verbatim>\<open>strategy/mean_reversion_maker/robust_zscore.h\<close>): a window of prices kept
  both in order of arrival and sorted, the exponential moving price and deviation, the history of deviations behind the
  adaptive threshold. \<^verbatim>\<open>calculate_zscore\<close> appends to that history, so it returns the new state too. Erasing at the end
  iterator and dividing by zero are \<^term>\<open>None\<close>.
\<close>

record RobustZScoreConfig =
  zc_window_size :: int
  zc_min_samples :: int
  zc_min_mad_threshold_raw :: int64
  zc_ema_alpha :: int64
  zc_baseline_window :: int
  zc_min_vol_scalar :: int64
  zc_max_vol_scalar :: int64
  zc_vol_ratio_low :: int64
  zc_vol_ratio_high :: int64
  zc_baseline_min_history :: int

record RobustZScore =
  zs_prices :: "int64 list"
  zs_sorted_prices :: "int64 list"
  zs_ema_price :: int64
  zs_emad :: int64
  zs_sample_count :: int
  zs_emad_history :: "int64 list"
  zs_emad_sum :: int64

definition RobustZScore_new :: RobustZScore where
  "RobustZScore_new = \<lparr>zs_prices = [], zs_sorted_prices = [], zs_ema_price = 0, zs_emad = 0, zs_sample_count = 0,
     zs_emad_history = [], zs_emad_sum = 0\<rparr>"

text \<open>\<^verbatim>\<open>std::lower_bound\<close> on a partitioned range: the position of the first element that is not smaller.\<close>

definition lower_bound :: "int64 list \<Rightarrow> int64 \<Rightarrow> nat" where
  "lower_bound xs x = length (takeWhile (\<lambda>y. y < x) xs)"

definition insert_at :: "nat \<Rightarrow> int64 \<Rightarrow> int64 list \<Rightarrow> int64 list" where
  "insert_at k x xs = take k xs @ x # drop k xs"

definition erase_at :: "nat \<Rightarrow> int64 list \<Rightarrow> int64 list option" where
  "erase_at k xs = (if k < length xs then Some (take k xs @ drop (Suc k) xs) else None)"

definition slide_window :: "RobustZScoreConfig \<Rightarrow> int64 \<Rightarrow> int64 list \<times> int64 list \<Rightarrow> (int64 list \<times> int64 list) option" where
  "slide_window cfg price_raw w =
     (let prices = fst w @ [price_raw];
          sorted_prices = insert_at (lower_bound (snd w) price_raw) price_raw (snd w)
      in if length prices > size_of_int (zc_window_size cfg) then
           (let old_val = hd prices
            in do { sorted' \<leftarrow> erase_at (lower_bound sorted_prices old_val) sorted_prices; Some (tl prices, sorted') })
         else Some (prices, sorted_prices))"

definition on_price :: "RobustZScoreConfig \<Rightarrow> int64 \<Rightarrow> RobustZScore \<Rightarrow> RobustZScore option" where
  "on_price cfg price_raw z = do {
     (prices, sorted_prices) \<leftarrow> slide_window cfg price_raw (zs_prices z, zs_sorted_prices z);
     let z1 = z\<lparr>zs_prices := prices, zs_sorted_prices := sorted_prices\<rparr>;
         z2 = (if zs_sample_count z1 = 0 then z1\<lparr>zs_ema_price := price_raw, zs_emad := 0\<rparr>
               else (let deviation = i64 \<bar>i64 (price_raw - zs_ema_price z1)\<bar>
                     in z1\<lparr>zs_emad := ema_step (zc_ema_alpha cfg) deviation (zs_emad z1),
                           zs_ema_price := ema_step (zc_ema_alpha cfg) price_raw (zs_ema_price z1)\<rparr>))
     in Some (z2\<lparr>zs_sample_count := i32 (zs_sample_count z2 + 1)\<rparr>)
   }"

definition calculate_median :: "RobustZScore \<Rightarrow> int64" where
  "calculate_median z =
     (let xs = zs_sorted_prices z; mid = length xs div 2
      in if xs = [] then 0
         else if length xs mod 2 = 0 then i64 (xs ! (mid - 1) + xs ! mid) sdiv 2
         else xs ! mid)"

abbreviation (input) kMadScaleFactor :: int64 where
  "kMadScaleFactor \<equiv> 14826"

abbreviation (input) kMadScaleDivisor :: int64 where
  "kMadScaleDivisor \<equiv> 10000"

definition get_robust_std :: "RobustZScore \<Rightarrow> int64" where
  "get_robust_std z = i64 (zs_emad z * kMadScaleFactor) sdiv kMadScaleDivisor"

definition track_emad :: "RobustZScoreConfig \<Rightarrow> RobustZScore \<Rightarrow> RobustZScore" where
  "track_emad cfg z =
     (let z1 = z\<lparr>zs_emad_sum := i64 (zs_emad_sum z + zs_emad z), zs_emad_history := zs_emad_history z @ [zs_emad z]\<rparr>
      in if length (zs_emad_history z1) > size_of_int (zc_baseline_window cfg)
         then z1\<lparr>zs_emad_sum := i64 (zs_emad_sum z1 - hd (zs_emad_history z1)), zs_emad_history := tl (zs_emad_history z1)\<rparr>
         else z1)"

definition calculate_zscore :: "RobustZScoreConfig \<Rightarrow> int64 \<Rightarrow> RobustZScore \<Rightarrow> (int64 \<times> RobustZScore) option" where
  "calculate_zscore cfg current_price_raw z =
     (if length (zs_prices z) < size_of_int (zc_min_samples cfg) then Some (0, z)
      else
        let median = calculate_median z;
            z' = track_emad cfg z;
            robust_std = max (get_robust_std z) (zc_min_mad_threshold_raw cfg)
        in if robust_std = 0 then Some (0, z')
           else (let delta = i64 (current_price_raw - median)
                 in do { r \<leftarrow> cdiv (i64 (delta * kZScoreScale)) robust_std; Some (r, z') }))"

definition calculate_baseline_emad :: "RobustZScoreConfig \<Rightarrow> RobustZScore \<Rightarrow> int64 option" where
  "calculate_baseline_emad cfg z =
     (if length (zs_emad_history z) < size_of_int (zc_baseline_min_history cfg) then Some (zs_emad z)
      else cdiv (zs_emad_sum z) (int (min (length (zs_emad_history z)) (size_of_int (zc_baseline_window cfg)))))"

definition get_adaptive_threshold :: "RobustZScoreConfig \<Rightarrow> int64 \<Rightarrow> RobustZScore \<Rightarrow> int64 option" where
  "get_adaptive_threshold cfg base_threshold_scaled z = do {
     baseline_emad \<leftarrow> calculate_baseline_emad cfg z;
     if baseline_emad = 0 then Some base_threshold_scaled
     else do {
       vol_ratio \<leftarrow> cdiv (i64 (zs_emad z * kSignalScale)) baseline_emad;
       let vol_range = i64 (zc_vol_ratio_high cfg - zc_vol_ratio_low cfg);
       if vol_range = 0 then Some base_threshold_scaled
       else do {
         vol_scalar \<leftarrow>
           (if vol_ratio \<le> zc_vol_ratio_low cfg then Some (zc_min_vol_scalar cfg)
            else if vol_ratio \<ge> zc_vol_ratio_high cfg then Some (zc_max_vol_scalar cfg)
            else do {
              q \<leftarrow> cdiv (i64 (i64 (zc_max_vol_scalar cfg - zc_min_vol_scalar cfg) * i64 (vol_ratio - zc_vol_ratio_low cfg))) vol_range;
              Some (i64 (zc_min_vol_scalar cfg + q))
            });
         Some (i64 (base_threshold_scaled * vol_scalar) sdiv kSignalScale)
       }
     }
   }"

subsection \<open>Sequences of calls\<close>

datatype zs_op = On_Price int64 | Calculate int64

fun zs_step :: "RobustZScoreConfig \<Rightarrow> zs_op \<Rightarrow> RobustZScore \<Rightarrow> RobustZScore option" where
  "zs_step cfg (On_Price p) z = on_price cfg p z"
| "zs_step cfg (Calculate p) z = map_option snd (calculate_zscore cfg p z)"

fun zs_run :: "RobustZScoreConfig \<Rightarrow> zs_op list \<Rightarrow> RobustZScore \<Rightarrow> RobustZScore option" where
  "zs_run cfg [] z = Some z"
| "zs_run cfg (op # ops) z = (case zs_step cfg op z of None \<Rightarrow> None | Some z' \<Rightarrow> zs_run cfg ops z')"

fun fed :: "zs_op list \<Rightarrow> int64 list" where
  "fed [] = []"
| "fed (On_Price p # ops) = p # fed ops"
| "fed (Calculate p # ops) = fed ops"

subsection \<open>Lemmas: the sorted window\<close>

lemma insert_at_lower_bound: "insert_at (lower_bound xs x) x xs = insort x xs"
  by (induction xs) (auto simp: insert_at_def lower_bound_def)

lemma erase_at_lower_bound: "sorted xs \<Longrightarrow> x \<in> set xs \<Longrightarrow> erase_at (lower_bound xs x) xs = Some (remove1 x xs)"
  by (induction xs) (auto simp: erase_at_def lower_bound_def split: if_splits)

lemma sort_Nil_iff [simp]: "sort xs = [] \<longleftrightarrow> xs = []"
  by (metis length_0_conv length_sort)

lemma sort_snoc: "sort (xs @ [x]) = insort x (sort xs)"
  by (rule properties_for_sort) (simp_all add: sorted_insort)

lemma slide_window_sort:
  "slide_window cfg p (w, sort w) = Some (let w' = w @ [p]; w'' = (if length w' > size_of_int (zc_window_size cfg) then tl w' else w') in (w'', sort w''))"
proof -
  let ?w' = "w @ [p]"
  have "erase_at (lower_bound (sort ?w') (hd ?w')) (sort ?w') = Some (sort (tl ?w'))"
    by (cases w) (simp_all add: erase_at_lower_bound sorted_insort set_insort_key)
  then show ?thesis by (simp add: slide_window_def Let_def insert_at_lower_bound sort_snoc [symmetric])
qed

subsection \<open>Lemmas: the median\<close>

lemma length_filter_drop:
  assumes "\<And>x. x \<in> set (drop k ys) \<Longrightarrow> \<not> P x"
  shows "length (filter P ys) \<le> k"
proof -
  have "filter P ys = filter P (take k ys)" using assms
    by (metis append_Nil2 append_take_drop_id filter_False filter_append)
  then show ?thesis by (metis length_filter_le length_take min.cobounded2 order_trans)
qed

lemma length_filter_take:
  assumes "\<And>x. x \<in> set (take k ys) \<Longrightarrow> \<not> P x"
  shows "length (filter P ys) \<le> length ys - k"
proof -
  have "filter P ys = filter P (drop k ys)" using assms
    by (metis append_Nil append_take_drop_id filter_False filter_append)
  then show ?thesis by (metis length_drop length_filter_le)
qed

lemma length_filter_sort: "length (filter P (sort xs)) = length (filter P xs)"
  by (metis mset_filter mset_sort size_mset)

definition is_median :: "int64 \<Rightarrow> int64 list \<Rightarrow> bool" where
  "is_median m xs \<longleftrightarrow> 2 * length (filter (\<lambda>x. x < m) xs) \<le> length xs \<and> 2 * length (filter (\<lambda>x. m < x) xs) \<le> length xs"

lemma sorted_middle_median:
  assumes "sorted ys" "ys \<noteq> []" "m \<le> ys ! (length ys div 2)" "ys ! ((length ys - 1) div 2) \<le> m"
  shows "is_median m ys"
proof -
  let ?k = "length ys div 2" and ?j = "(length ys - 1) div 2"
  have l: "?k < length ys" "?j < length ys" using assms(2) by (cases ys; simp; linarith)+
  have "m \<le> x" if d: "x \<in> set (drop ?k ys)" for x
  proof -
    obtain i where "i < length ys - ?k" "x = ys ! (?k + i)" using d by (auto simp: in_set_conv_nth)
    moreover have "?k + i < length ys" using calculation by linarith
    ultimately show ?thesis using assms(3) sorted_nth_mono [OF assms(1), of ?k "?k + i"] by simp
  qed
  then have "length (filter (\<lambda>x. x < m) ys) \<le> ?k" by (intro length_filter_drop) fastforce
  moreover have "x \<le> m" if t: "x \<in> set (take (Suc ?j) ys)" for x
  proof -
    obtain i where "i \<le> ?j" "x = ys ! i" using t l by (auto simp: in_set_conv_nth less_Suc_eq_le)
    then show ?thesis using assms(4) l sorted_nth_mono [OF assms(1), of i ?j] by simp
  qed
  then have "length (filter (\<lambda>x. m < x) ys) \<le> length ys - Suc ?j" by (intro length_filter_take) fastforce
  ultimately show ?thesis unfolding is_median_def by linarith
qed

lemma mid_between: "a \<le> b \<Longrightarrow> a \<le> (a + b) div 2" "a \<le> b \<Longrightarrow> (a + b) div 2 \<le> (b::int)"
  by linarith+

lemma calculate_median_correct:
  assumes "zs_sorted_prices z = sort w" "\<And>x. x \<in> set w \<Longrightarrow> 0 \<le> lo \<and> lo \<le> x \<and> x \<le> hi" "2 * hi < 2 ^ 63"
  shows "is_median (calculate_median z) w" "w \<noteq> [] \<Longrightarrow> lo \<le> calculate_median z \<and> calculate_median z \<le> hi"
proof -
  let ?ys = "sort w" and ?m = "calculate_median z"
  have "w = [] \<or> is_median ?m ?ys \<and> lo \<le> ?m \<and> ?m \<le> hi"
  proof (cases "w = []")
    case False
    let ?k = "length ?ys div 2"
    have k: "?k < length ?ys" "?k - 1 < length ?ys" using False by (cases w; simp; linarith)+
    have r: "0 \<le> lo" "lo \<le> ?ys ! ?k" "?ys ! ?k \<le> hi" "lo \<le> ?ys ! (?k - 1)" "?ys ! (?k - 1) \<le> hi"
      using assms(2) [of "?ys ! ?k"] assms(2) [of "?ys ! (?k - 1)"] k by (metis nth_mem set_sort)+
    have "?m \<le> ?ys ! ?k \<and> ?ys ! ((length ?ys - 1) div 2) \<le> ?m \<and> lo \<le> ?m \<and> ?m \<le> hi"
    proof (cases "even (length w)")
      case True
      then have j: "(length w - 1) div 2 = length w div 2 - 1" using False by (cases w) (auto elim!: evenE oddE)
      have o: "?ys ! (?k - 1) \<le> ?ys ! ?k" using k by (intro sorted_nth_mono) auto
      have "?m = (?ys ! (?k - 1) + ?ys ! ?k) div 2"
        using True False r assms(1,3) by (simp add: calculate_median_def Let_def in_i64_def sdiv_nonneg even_iff_mod_2_eq_zero)
      then show ?thesis using r o j mid_between [OF o] by (simp del: One_nat_def)
    next
      case odd: False
      then have "?m = ?ys ! ?k" using False assms(1) by (simp add: calculate_median_def Let_def odd_iff_mod_2_eq_one)
      moreover have "(length w - 1) div 2 = length w div 2" using odd by (auto elim!: oddE)
      ultimately show ?thesis using r by simp
    qed
    then show ?thesis using sorted_middle_median [of ?ys ?m] False by auto
  qed simp
  then show "is_median ?m w" "w \<noteq> [] \<Longrightarrow> lo \<le> ?m \<and> ?m \<le> hi"
    by (auto simp: is_median_def length_filter_sort)
qed

subsection \<open>Lemmas: invariant\<close>

text \<open>
  The window holds the last prices, sorted in the second list, and the running sum is that of the history, whatever wraps.
\<close>

definition zs_inv :: "RobustZScoreConfig \<Rightarrow> int64 list \<Rightarrow> RobustZScore \<Rightarrow> bool" where
  "zs_inv cfg ps z \<longleftrightarrow>
     zs_prices z = last_n (size_of_int (zc_window_size cfg)) ps \<and> zs_sorted_prices z = sort (zs_prices z)
     \<and> zs_emad_sum z = i64 (sum_list (zs_emad_history z)) \<and> length (zs_emad_history z) \<le> size_of_int (zc_baseline_window cfg)"

lemma zs_inv_new: "zs_inv cfg [] RobustZScore_new"
  by (simp add: zs_inv_def RobustZScore_new_def last_n_def)

lemma on_price_inv:
  assumes "zs_inv cfg ps z"
  shows "\<exists>z'. on_price cfg p z = Some z' \<and> zs_inv cfg (ps @ [p]) z'"
  using assms by (simp add: zs_inv_def on_price_def slide_window_sort Let_def last_n_snoc split del: if_split) simp

lemma sum_list_tl: "xs \<noteq> [] \<Longrightarrow> sum_list (tl xs) = sum_list xs - (hd xs :: int)"
  by (cases xs) simp_all

lemma track_emad_inv: "zs_inv cfg ps z \<Longrightarrow> zs_inv cfg ps (track_emad cfg z)"
  by (auto simp: zs_inv_def track_emad_def Let_def sum_list_tl i64_arith)

text \<open>Prices in a range keep the moving price and the moving deviation in it.\<close>

definition zs_bounded :: "int64 \<Rightarrow> int64 \<Rightarrow> RobustZScore \<Rightarrow> bool" where
  "zs_bounded lo hi z \<longleftrightarrow>
     (zs_sample_count z \<noteq> 0 \<longrightarrow> lo \<le> zs_ema_price z \<and> zs_ema_price z \<le> hi) \<and> 0 \<le> zs_emad z \<and> zs_emad z \<le> hi - lo
     \<and> list_all (\<lambda>e. 0 \<le> e \<and> e \<le> hi - lo) (zs_emad_history z)"

definition zs_config_ok :: "RobustZScoreConfig \<Rightarrow> int64 \<Rightarrow> int64 \<Rightarrow> bool" where
  "zs_config_ok cfg lo hi \<longleftrightarrow>
     0 \<le> zc_ema_alpha cfg \<and> zc_ema_alpha cfg \<le> 10000 \<and> 0 < zc_min_mad_threshold_raw cfg \<and> 0 \<le> lo \<and> lo \<le> hi \<and> hi * 14826 < 2 ^ 63"

lemma on_price_bounded:
  assumes "zs_bounded lo hi z" "zs_config_ok cfg lo hi" "lo \<le> p" "p \<le> hi" "on_price cfg p z = Some z'"
  shows "zs_bounded lo hi z'"
proof (cases "zs_sample_count z = 0")
  case True
  then show ?thesis using assms by (auto simp: on_price_def zs_bounded_def zs_config_ok_def bind_eq_Some_conv Let_def)
next
  case False
  let ?d = "p - zs_ema_price z"
  have h: "0 \<le> lo" "lo \<le> hi" "hi * 10000 < 2 ^ 63" "(hi - lo) * 10000 < 2 ^ 63" using assms(2) by (auto simp: zs_config_ok_def)
  have d: "\<bar>?d\<bar> \<le> hi - lo" "in_i64 ?d" "in_i64 \<bar>?d\<bar>" using assms(1,3,4) False h by (auto simp: zs_bounded_def in_i64_def)
  note e = ema_step_between [of "zc_ema_alpha cfg" 0 "\<bar>?d\<bar>" "hi - lo" "zs_emad z"]
    ema_step_between [of "zc_ema_alpha cfg" lo p hi "zs_ema_price z"]
  show ?thesis using assms False h d e
    by (auto simp: on_price_def zs_bounded_def zs_config_ok_def bind_eq_Some_conv Let_def)
qed

lemma list_all_tl: "list_all P xs \<Longrightarrow> list_all P (tl xs)"
  by (cases xs) simp_all

lemma track_emad_bounded: "zs_bounded lo hi z \<Longrightarrow> zs_bounded lo hi (track_emad cfg z)"
  by (simp add: zs_bounded_def track_emad_def Let_def list_all_tl)

lemma track_emad_window [simp]: "zs_prices (track_emad cfg z) = zs_prices z"
  by (simp add: track_emad_def Let_def)

lemma calculate_zscore_inv:
  assumes "zs_inv cfg ps z"
  shows "\<exists>r z'. calculate_zscore cfg p z = Some (r, z') \<and> zs_inv cfg ps z' \<and> (zs_bounded lo hi z \<longrightarrow> zs_bounded lo hi z')"
  using assms by (auto simp: calculate_zscore_def Let_def cdiv_def intro: track_emad_inv track_emad_bounded)

lemma calculate_zscore_result:
  assumes "zs_inv cfg ps z" "zs_bounded lo hi z" "zs_config_ok cfg lo hi" "\<And>x. x \<in> set ps \<Longrightarrow> lo \<le> x \<and> x \<le> hi" "lo \<le> p" "p \<le> hi"
    and "zs_prices z \<noteq> []"
  shows "\<exists>r z'. calculate_zscore cfg p z = Some (r, z') \<and> \<bar>r\<bar> \<le> (hi - lo) * 10000 div zc_min_mad_threshold_raw cfg
    \<and> (p \<ge> calculate_median z \<longrightarrow> r \<ge> 0) \<and> (p \<le> calculate_median z \<longrightarrow> r \<le> 0)"
proof -
  let ?m = "calculate_median z" and ?t = "zc_min_mad_threshold_raw cfg" and ?s = "max (get_robust_std z) (zc_min_mad_threshold_raw cfg)"
  let ?n = "(p - calculate_median z) * 10000"
  have h: "0 \<le> lo" "lo \<le> hi" "hi * 14826 < 2 ^ 63" "0 < ?t" "0 \<le> zs_emad z" "zs_emad z \<le> hi"
    using assms(2,3) by (auto simp: zs_config_ok_def zs_bounded_def)
  have m: "lo \<le> ?m" "?m \<le> hi"
    using calculate_median_correct(2) [of z "zs_prices z" lo hi] assms(1,4,7) h set_last_n by (fastforce simp: zs_inv_def)+
  have d: "\<bar>?n\<bar> \<le> (hi - lo) * 10000" "in_i64 (p - ?m)" "in_i64 ?n" using m assms(5,6) h by (auto simp: in_i64_def abs_mult)
  have s: "0 < ?s" "?t \<le> ?s" using h by auto
  have b: "(hi - lo) * 10000 div ?s \<le> (hi - lo) * 10000 div ?t" using h s by (intro zdiv_mono2) auto
  have "\<bar>?n\<bar> div ?s \<le> (hi - lo) * 10000 div ?s" using d s by (intro zdiv_mono1) auto
  moreover have "0 \<le> (hi - lo) * 10000 div ?t" using h by (simp add: pos_imp_zdiv_nonneg_iff)
  ultimately have q: "\<bar>?n sdiv ?s\<bar> \<le> (hi - lo) * 10000 div ?t" using s b by (simp add: sdiv_pos abs_mult abs_sgn_eq pos_imp_zdiv_nonneg_iff)
  have "(hi - lo) * 10000 div ?t \<le> (hi - lo) * 10000" using h zdiv_mono2 [of "(hi - lo) * 10000" 1 ?t] by simp
  then have i: "in_i64 (?n sdiv ?s)" using q h by (intro in_i64_of_abs) auto
  have sg: "p \<ge> ?m \<longrightarrow> ?n sdiv ?s \<ge> 0" "p \<le> ?m \<longrightarrow> ?n sdiv ?s \<le> 0" using sdiv_sign [OF s(1), of ?n] by auto
  show ?thesis
  proof (cases "length (zs_prices z) < size_of_int (zc_min_samples cfg)")
    case True
    then show ?thesis using assms(1,2) h by (auto simp: calculate_zscore_def pos_imp_zdiv_nonneg_iff)
  next
    case False
    then have "calculate_zscore cfg p z = Some (?n sdiv ?s, track_emad cfg z)"
      using s d i by (auto simp: calculate_zscore_def Let_def cdiv_def)
    then show ?thesis using q sg by blast
  qed
qed

lemma zs_run_inv:
  assumes "zs_inv cfg ps z"
  shows "\<exists>z'. zs_run cfg ops z = Some z' \<and> zs_inv cfg (ps @ fed ops) z'
    \<and> (zs_bounded lo hi z \<longrightarrow> zs_config_ok cfg lo hi \<longrightarrow> list_all (\<lambda>p. lo \<le> p \<and> p \<le> hi) (fed ops) \<longrightarrow> zs_bounded lo hi z')"
  using assms
proof (induction ops arbitrary: ps z)
  case (Cons op ops)
  show ?case
  proof (cases op)
    case (On_Price p)
    obtain z1 where "on_price cfg p z = Some z1" "zs_inv cfg (ps @ [p]) z1" using on_price_inv Cons.prems by blast
    then show ?thesis using Cons.IH [of "ps @ [p]" z1] on_price_bounded [of lo hi z cfg p z1] by (auto simp: On_Price)
  next
    case (Calculate p)
    obtain r z1 where "calculate_zscore cfg p z = Some (r, z1)" "zs_inv cfg ps z1" "zs_bounded lo hi z \<longrightarrow> zs_bounded lo hi z1"
      using calculate_zscore_inv [OF Cons.prems] by blast
    then show ?thesis using Cons.IH [of ps z1] by (auto simp: Calculate)
  qed
qed simp

lemma zs_bounded_new: "lo \<le> hi \<Longrightarrow> zs_bounded lo hi RobustZScore_new"
  by (simp add: zs_bounded_def RobustZScore_new_def)

text \<open>
  C25. The robust z-score: after any sequence of prices and evaluations the two lists of the calculator are the last
  \<^verbatim>\<open>window_size\<close> prices and their sorting, the value it returns as median has at most half of the window on
  either side, and for prices in a range \<open>lo..hi\<close> the z-score of a price never overflows, has the sign of the price's distance
  from the median and is at most the width of the range over the minimum deviation.
\<close>

theorem robust_zscore_correct:
  assumes "zs_config_ok cfg lo hi" and "list_all (\<lambda>p. lo \<le> p \<and> p \<le> hi) (fed ops)" and "lo \<le> p" and "p \<le> hi"
    and "0 < size_of_int (zc_window_size cfg)" and "fed ops \<noteq> []"
  shows "\<exists>z r z'. zs_run cfg ops RobustZScore_new = Some z \<and> calculate_zscore cfg p z = Some (r, z')
    \<and> zs_prices z = last_n (size_of_int (zc_window_size cfg)) (fed ops) \<and> zs_sorted_prices z = sort (zs_prices z)
    \<and> is_median (calculate_median z) (zs_prices z)
    \<and> \<bar>r\<bar> \<le> (hi - lo) * 10000 div zc_min_mad_threshold_raw cfg
    \<and> (p \<ge> calculate_median z \<longrightarrow> r \<ge> 0) \<and> (p \<le> calculate_median z \<longrightarrow> r \<le> 0)"
proof -
  have h: "0 \<le> lo" "lo \<le> hi" "2 * hi < 2 ^ 63" using assms(1) by (auto simp: zs_config_ok_def)
  obtain z where z: "zs_run cfg ops RobustZScore_new = Some z" "zs_inv cfg (fed ops) z" "zs_bounded lo hi z"
    using zs_run_inv [OF zs_inv_new, of cfg ops lo hi] zs_bounded_new [OF h(2)] assms(1,2) by auto
  have i: "zs_prices z = last_n (size_of_int (zc_window_size cfg)) (fed ops)" "zs_sorted_prices z = sort (zs_prices z)"
    using z(2) by (auto simp: zs_inv_def)
  have r: "x \<in> set (fed ops) \<Longrightarrow> lo \<le> x \<and> x \<le> hi" for x using assms(2) by (auto simp: list_all_iff)
  have "zs_prices z \<noteq> []" using assms(5,6) by (cases "fed ops") (auto simp: i last_n_def)
  then obtain q z' where "calculate_zscore cfg p z = Some (q, z')" "\<bar>q\<bar> \<le> (hi - lo) * 10000 div zc_min_mad_threshold_raw cfg"
      "p \<ge> calculate_median z \<longrightarrow> q \<ge> 0" "p \<le> calculate_median z \<longrightarrow> q \<le> 0"
    using calculate_zscore_result [OF z(2,3) assms(1) r assms(3,4)] by blast
  moreover have "is_median (calculate_median z) (zs_prices z)"
    using calculate_median_correct(1) [OF i(2), of lo hi] r h set_last_n unfolding i(1) by fastforce
  ultimately show ?thesis using z(1) i by blast
qed

definition demo_zconfig :: RobustZScoreConfig where
  "demo_zconfig = \<lparr>zc_window_size = 3, zc_min_samples = 2, zc_min_mad_threshold_raw = 50, zc_ema_alpha = 645, zc_baseline_window = 100,
     zc_min_vol_scalar = 7000, zc_max_vol_scalar = 13000, zc_vol_ratio_low = 5000, zc_vol_ratio_high = 20000, zc_baseline_min_history = 30\<rparr>"

theorem robust_zscore_correct_witness:
  "\<exists>z r z'. zs_run demo_zconfig [On_Price 100, On_Price 130, Calculate 120, On_Price 110, On_Price 90] RobustZScore_new = Some z
     \<and> calculate_zscore demo_zconfig 120 z = Some (r, z')
     \<and> zs_prices z = [130, 110, 90] \<and> is_median (calculate_median z) [130, 110, 90] \<and> \<bar>r\<bar> \<le> 10000"
  using robust_zscore_correct [of demo_zconfig 90 140 "[On_Price 100, On_Price 130, Calculate 120, On_Price 110, On_Price 90]" 120]
  by (auto simp: demo_zconfig_def zs_config_ok_def size_of_int_def last_n_def)

subsection \<open>The adaptive threshold\<close>

definition threshold_config_ok :: "RobustZScoreConfig \<Rightarrow> int64 \<Rightarrow> int64 \<Rightarrow> bool" where
  "threshold_config_ok cfg width base \<longleftrightarrow>
     0 \<le> zc_vol_ratio_low cfg \<and> zc_vol_ratio_low cfg < zc_vol_ratio_high cfg \<and> zc_vol_ratio_high cfg < 2 ^ 63
     \<and> 0 \<le> zc_min_vol_scalar cfg \<and> zc_min_vol_scalar cfg \<le> 10000 \<and> 10000 \<le> zc_max_vol_scalar cfg
     \<and> 0 \<le> base \<and> base * zc_max_vol_scalar cfg < 2 ^ 63 \<and> zc_max_vol_scalar cfg * zc_vol_ratio_high cfg < 2 ^ 63
     \<and> 0 < size_of_int (zc_baseline_min_history cfg) \<and> 0 < size_of_int (zc_baseline_window cfg)
     \<and> int (size_of_int (zc_baseline_window cfg)) * width < 2 ^ 63"

lemma sum_list_between:
  assumes "list_all (\<lambda>e. 0 \<le> e \<and> e \<le> w) xs"
  shows "0 \<le> sum_list xs" "sum_list xs \<le> int (length xs) * (w::int)"
  using assms by (induction xs) (auto simp: algebra_simps)

lemma baseline_emad_nonneg:
  assumes "zs_inv cfg ps z" "zs_bounded lo hi z" "threshold_config_ok cfg (hi - lo) base"
  shows "\<exists>b. calculate_baseline_emad cfg z = Some b \<and> 0 \<le> b"
proof (cases "length (zs_emad_history z) < size_of_int (zc_baseline_min_history cfg)")
  case True
  then show ?thesis using assms(2) by (simp add: calculate_baseline_emad_def zs_bounded_def)
next
  case False
  let ?xs = "zs_emad_history z" and ?n = "min (length (zs_emad_history z)) (size_of_int (zc_baseline_window cfg))"
  have s: "0 \<le> sum_list ?xs" "sum_list ?xs \<le> int (length ?xs) * (hi - lo)"
    using sum_list_between [of "hi - lo" ?xs] assms(2) by (auto simp: zs_bounded_def)
  have "int (length ?xs) * (hi - lo) \<le> int (size_of_int (zc_baseline_window cfg)) * (hi - lo)"
    using assms(1,2) by (intro mult_right_mono) (auto simp: zs_inv_def zs_bounded_def)
  then have u: "sum_list ?xs < 2 ^ 63" using s assms(3) by (simp add: threshold_config_ok_def)
  then have "zs_emad_sum z = sum_list ?xs" using s assms(1) by (simp add: zs_inv_def in_i64_def)
  moreover have "0 < int ?n" using False assms(3) by (auto simp: threshold_config_ok_def)
  ultimately show ?thesis
    using False s(1) u cdiv_nonneg [of "sum_list ?xs" "int ?n"] by (simp add: calculate_baseline_emad_def pos_imp_zdiv_nonneg_iff)
qed

lemma vol_scalar_interpolated:
  assumes "0 \<le> lo" "lo < r" "r < hi" "hi < 2 ^ 63" "0 \<le> mn" "mn \<le> mx" "mx * hi < 2 ^ 63"
  shows "\<exists>q. cdiv (i64 (i64 (mx - mn) * i64 (r - lo))) (i64 (hi - lo)) = Some q \<and> mn \<le> i64 (mn + q) \<and> i64 (mn + q) \<le> mx"
proof -
  let ?a = "(mx - mn) * (r - lo)"
  have mx: "0 \<le> mx" "mx \<le> mx * hi" using assms by (auto simp: mult_le_cancel_left1)
  have a: "0 \<le> ?a" "?a \<le> (mx - mn) * (hi - lo)" using assms by (auto intro: mult_left_mono)
  have "(mx - mn) * (hi - lo) \<le> mx * hi" using assms mx by (intro mult_mono) auto
  then have u: "?a < 2 ^ 63" using a assms(7) by linarith
  then have "in_i64 ?a" using a by (intro in_i64_nonneg [OF _ order_refl])
  moreover have "in_i64 (mx - mn)" "in_i64 (r - lo)" "in_i64 (hi - lo)" using assms mx by (auto simp: in_i64_def)
  moreover have q: "0 \<le> ?a div (hi - lo)" "?a div (hi - lo) \<le> mx - mn" using a assms div_between [of "hi - lo" 0 ?a "mx - mn"] by auto
  moreover have "in_i64 (mn + ?a div (hi - lo))" using q assms mx by (simp add: in_i64_def)
  ultimately show ?thesis using cdiv_nonneg [of ?a "hi - lo"] a(1) u assms by simp
qed

lemma threshold_scaled:
  assumes "0 \<le> base" "0 \<le> mn" "mn \<le> v" "v \<le> mx" "base * mx < 2 ^ 63"
  shows "base * mn div 10000 \<le> i64 (base * v) sdiv 10000" "i64 (base * v) sdiv 10000 \<le> base * mx div 10000"
proof -
  have m: "0 \<le> base * v" "base * mn \<le> base * v" "base * v \<le> base * mx" using assms by (auto intro: mult_left_mono)
  then have "i64 (base * v) = base * v" using assms(5) by (intro i64_id in_i64_nonneg)
  then show "base * mn div 10000 \<le> i64 (base * v) sdiv 10000" "i64 (base * v) sdiv 10000 \<le> base * mx div 10000"
    using m by (simp_all add: sdiv_nonneg zdiv_mono1)
qed

text \<open>
  The adaptive threshold: after any sequence of calls with prices in a range it is defined (no division by zero) and
  lies between the base threshold scaled by the smallest and by the largest volatility scalar.
\<close>

lemma adaptive_threshold_bounds:
  assumes "zs_config_ok cfg lo hi" and "list_all (\<lambda>p. lo \<le> p \<and> p \<le> hi) (fed ops)" and "threshold_config_ok cfg (hi - lo) base"
  shows "\<exists>z t. zs_run cfg ops RobustZScore_new = Some z \<and> get_adaptive_threshold cfg base z = Some t
    \<and> base * zc_min_vol_scalar cfg div 10000 \<le> t \<and> t \<le> base * zc_max_vol_scalar cfg div 10000"
proof -
  let ?lo = "zc_vol_ratio_low cfg" and ?hi = "zc_vol_ratio_high cfg" and ?mn = "zc_min_vol_scalar cfg" and ?mx = "zc_max_vol_scalar cfg"
  have h: "0 \<le> lo" "lo \<le> hi" "hi * 14826 < 2 ^ 63" using assms(1) by (auto simp: zs_config_ok_def)
  have c: "0 \<le> ?lo" "?lo < ?hi" "?hi < 2 ^ 63" "0 \<le> ?mn" "?mn \<le> 10000" "10000 \<le> ?mx" "0 \<le> base" "base * ?mx < 2 ^ 63" "?mx * ?hi < 2 ^ 63"
    using assms(3) by (auto simp: threshold_config_ok_def)
  obtain z where z: "zs_run cfg ops RobustZScore_new = Some z" "zs_inv cfg (fed ops) z" "zs_bounded lo hi z"
    using zs_run_inv [OF zs_inv_new, of cfg ops lo hi] zs_bounded_new [OF h(2)] assms(1,2) by auto
  obtain b where b: "calculate_baseline_emad cfg z = Some b" "0 \<le> b" using baseline_emad_nonneg [OF z(2,3) assms(3)] by blast
  have e: "0 \<le> zs_emad z" "zs_emad z * 10000 < 2 ^ 63" using z(3) h by (auto simp: zs_bounded_def)
  have base: "base * ?mn div 10000 \<le> base" "base \<le> base * ?mx div 10000"
    using c mult_left_mono [of ?mn 10000 base] mult_left_mono [of 10000 ?mx base] div_between [of 10000 base "base * ?mx" "base * ?mx"]
      zdiv_mono1 [of "base * ?mn" "base * 10000" 10000] by simp_all
  have range: "i64 (?hi - ?lo) = ?hi - ?lo" using c by (simp add: in_i64_def)
  show ?thesis
  proof (cases "b = 0")
    case True
    then show ?thesis using z b base by (simp add: get_adaptive_threshold_def)
  next
    case False
    let ?r = "zs_emad z * 10000 div b"
    have r: "cdiv (i64 (zs_emad z * 10000)) b = Some ?r"
      using e False b cdiv_nonneg [of "zs_emad z * 10000" b] by (simp add: in_i64_def)
    obtain v where v: "?mn \<le> v" "v \<le> ?mx" "get_adaptive_threshold cfg base z = Some (i64 (base * v) sdiv 10000)"
    proof (cases "?lo < ?r \<and> ?r < ?hi")
      case True
      then show thesis using vol_scalar_interpolated [of ?lo ?r ?hi ?mn ?mx] c b r False that range
        by (force simp: get_adaptive_threshold_def)
    next
      case out: False
      then have "get_adaptive_threshold cfg base z = Some (i64 (base * (if ?r \<le> ?lo then ?mn else ?mx)) sdiv 10000)"
        using c b r False range by (auto simp: get_adaptive_threshold_def)
      then show thesis using that [of "if ?r \<le> ?lo then ?mn else ?mx"] c by auto
    qed
    then show ?thesis using z(1) threshold_scaled [of base ?mn v ?mx] c by auto
  qed
qed

end
