(* ===== verification/Wall_Detector.thy ===== *)
theory Wall_Detector
  imports Signal_Scale Book_Common Fixed_Point
begin

text \<open>
  Walls of liquidity in the order book: the tracker of a wall's quality and the detection over the peeked levels
  (\<^verbatim>\<open>strategy/mean_reversion_maker/wall_detector.h\<close>), and the threshold a wall has to reach
  (\<^verbatim>\<open>strategy/mean_reversion_maker/dynamic_wall_threshold.h\<close>). What \<^verbatim>\<open>peek_qty\<close> returns is an argument, as the list of the
  (quantity, level) pairs it wrote. \<open>qty_scale\<close> is \<^verbatim>\<open>FixedPointConfig::kQtyScale\<close>.
\<close>

record WallInfo =
  wi_accumulated_notional :: int64
  wi_distance_bps :: int64
  wi_levels_checked :: nat
  wi_is_valid :: bool

definition WallInfo_new :: WallInfo where
  "WallInfo_new = \<lparr>wi_accumulated_notional = 0, wi_distance_bps = 0, wi_levels_checked = 0, wi_is_valid = False\<rparr>"

record WallTracker =
  wt_first_seen :: u64
  wt_last_update :: u64
  wt_snapshot_count :: int
  wt_size_snapshots :: "int64 list"
  wt_distance_snapshots :: "int64 list"
  wt_write_index :: nat

abbreviation (input) kMaxSnapshots :: nat where
  "kMaxSnapshots \<equiv> 20"

definition WallTracker_new :: WallTracker where
  "WallTracker_new = \<lparr>wt_first_seen = 0, wt_last_update = 0, wt_snapshot_count = 0, wt_size_snapshots = replicate kMaxSnapshots 0,
     wt_distance_snapshots = replicate kMaxSnapshots 0, wt_write_index = 0\<rparr>"

definition wall_update :: "u64 \<Rightarrow> int64 \<Rightarrow> int64 \<Rightarrow> WallTracker \<Rightarrow> WallTracker" where
  "wall_update now notional_raw distance_bps t =
     t\<lparr>wt_first_seen := (if wt_snapshot_count t = 0 then now else wt_first_seen t),
       wt_last_update := now,
       wt_snapshot_count := i32 (wt_snapshot_count t + 1),
       wt_size_snapshots := (wt_size_snapshots t)[wt_write_index t := notional_raw],
       wt_distance_snapshots := (wt_distance_snapshots t)[wt_write_index t := distance_bps],
       wt_write_index := (wt_write_index t + 1) mod kMaxSnapshots\<rparr>"

definition wall_reset :: "WallTracker \<Rightarrow> WallTracker" where
  "wall_reset t = t\<lparr>wt_first_seen := 0, wt_last_update := 0, wt_snapshot_count := 0, wt_write_index := 0\<rparr>"

definition buffer_size :: "WallTracker \<Rightarrow> nat" where
  "buffer_size t = min (size_of_int (wt_snapshot_count t)) kMaxSnapshots"

abbreviation (input) kMinSnapshotsForPersistence :: int where
  "kMinSnapshotsForPersistence \<equiv> 5"

abbreviation (input) kMinSnapshotsForStability :: nat where
  "kMinSnapshotsForStability \<equiv> 10"

definition persistence_score :: "WallTracker \<Rightarrow> int64" where
  "persistence_score t =
     (if wt_snapshot_count t < kMinSnapshotsForPersistence then 0
      else (let duration_ns = sint (wt_last_update t - wt_first_seen t)
            in clamp (i64 (duration_ns * kSignalScale) sdiv 2000000000) 0 kSignalScale))"

definition wrapped_sum :: "int64 list \<Rightarrow> int64" where
  "wrapped_sum xs = foldl (\<lambda>s x. i64 (s + x)) 0 xs"

definition stability_score :: "WallTracker \<Rightarrow> int64" where
  "stability_score t =
     (let cnt = buffer_size t; sizes = take cnt (wt_size_snapshots t)
      in if cnt < kMinSnapshotsForStability then 0
         else let avg = wrapped_sum sizes sdiv int cnt
              in if avg = 0 then 0
                 else let variance_sum = wrapped_sum (map (\<lambda>x. let diff = i64 (x - avg) in i64 (i128 (diff * diff) sdiv avg)) sizes);
                          normalized_variance = variance_sum sdiv int cnt;
                          threshold = avg sdiv 4
                      in if threshold = 0 then kSignalScale
                         else clamp (i64 (kSignalScale - i64 (i64 (normalized_variance * kSignalScale) sdiv threshold))) 0 kSignalScale)"

definition distance_consistency_score :: "WallTracker \<Rightarrow> int64" where
  "distance_consistency_score t =
     (let cnt = buffer_size t
      in if cnt < kMinSnapshotsForStability then 0
         else let avg_bps = wrapped_sum (take cnt (wt_distance_snapshots t)) sdiv int cnt
              in if avg_bps \<le> 5 then kSignalScale
                 else if avg_bps \<ge> 15 then 0
                 else i64 (kSignalScale * i64 (15 - avg_bps)) sdiv 10)"

definition composite_quality :: "WallTracker \<Rightarrow> int64" where
  "composite_quality t =
     i64 (i64 (i64 (stability_score t * 5000) + i64 (persistence_score t * 3500)) + i64 (distance_consistency_score t * 1500)) sdiv kSignalScale"

text \<open>The loop of the detection; \<open>i\<close> counts the levels before the rest of the list. A break ends the recursion.\<close>

fun wall_loop :: "int64 \<Rightarrow> int64 \<Rightarrow> int64 \<Rightarrow> int64 \<Rightarrow> int64 \<Rightarrow> nat \<Rightarrow> (int64 \<times> nat) list \<Rightarrow> int \<Rightarrow> WallInfo \<Rightarrow> WallInfo option" where
  "wall_loop qty_scale threshold max_distance min_price base i [] weighted_sum info = Some info"
| "wall_loop qty_scale threshold max_distance min_price base i ((qty, price_idx) # lvls) weighted_sum info =
     (if qty \<le> 0 then Some info
      else do {
        let price_raw = i64 (min_price + int price_idx);
        notional \<leftarrow> cdiv (i64 (price_raw * qty)) qty_scale;
        let info' = info\<lparr>wi_accumulated_notional := i64 (wi_accumulated_notional info + notional), wi_levels_checked := i + 1\<rparr>;
        let weighted_sum' = i128 (weighted_sum + i128 (price_raw * notional));
        if wi_accumulated_notional info' \<ge> threshold then
          (if wi_accumulated_notional info' = 0 then None
           else do {
             let weighted_avg_price = i64 (weighted_sum' sdiv wi_accumulated_notional info');
             d \<leftarrow> cdiv (i64 (i64 \<bar>i64 (weighted_avg_price - base)\<bar> * kBpsScale)) base;
             Some (info'\<lparr>wi_distance_bps := d, wi_is_valid := d \<le> max_distance\<rparr>)
           })
        else wall_loop qty_scale threshold max_distance min_price base (i + 1) lvls weighted_sum' info'
      })"

definition detect_wall ::
  "int64 \<Rightarrow> BBO \<Rightarrow> (int64 \<times> nat) list \<Rightarrow> Side \<Rightarrow> int64 \<Rightarrow> int64 \<Rightarrow> int64 \<Rightarrow> WallInfo option" where
  "detect_wall qty_scale bbo lvls side threshold max_distance min_price =
     (if bid_price bbo = kInvalidValue \<or> ask_price bbo = kInvalidValue then Some WallInfo_new
      else let base_price = (if side = kBuy then bid_price bbo else ask_price bbo)
           in if base_price = 0 then Some WallInfo_new
              else do {
                info \<leftarrow> wall_loop qty_scale threshold max_distance min_price base_price 0 lvls 0 WallInfo_new;
                Some (if wi_accumulated_notional info < threshold then info\<lparr>wi_is_valid := False\<rparr> else info)
              })"

subsection \<open>The threshold\<close>

record DynamicWallThreshold =
  dw_volume_ema_alpha :: int64
  dw_volume_multiplier :: int64
  dw_volume_min_samples :: int
  dw_ema_notional_raw :: int64
  dw_sample_count :: int
  dw_volume_threshold_raw :: int64
  dw_orderbook_multiplier :: int64
  dw_orderbook_percentile :: int64
  dw_orderbook_threshold_raw :: int64
  dw_volume_weight :: int64
  dw_orderbook_weight :: int64
  dw_min_quantity_raw :: int64

definition calculate_threshold :: "int64 \<Rightarrow> BBO \<Rightarrow> DynamicWallThreshold \<Rightarrow> int64 option" where
  "calculate_threshold qty_scale bbo w = do {
     let mid_price = i64 (bid_price bbo + ask_price bbo) sdiv 2;
     min_threshold \<leftarrow> cdiv (i64 (dw_min_quantity_raw w * mid_price)) qty_scale;
     let hybrid = i64 (i64 (dw_volume_threshold_raw w * dw_volume_weight w) + i64 (dw_orderbook_threshold_raw w * dw_orderbook_weight w)) sdiv kSignalScale;
     Some (max hybrid min_threshold)
   }"

definition wall_on_trade :: "int64 \<Rightarrow> int64 \<Rightarrow> int64 \<Rightarrow> DynamicWallThreshold \<Rightarrow> DynamicWallThreshold option" where
  "wall_on_trade qty_scale price_raw qty_raw w = do {
     notional \<leftarrow> cdiv (i64 (price_raw * qty_raw)) qty_scale;
     let w1 = w\<lparr>dw_ema_notional_raw :=
                 (if dw_sample_count w = 0 then notional else ema_step (dw_volume_ema_alpha w) notional (dw_ema_notional_raw w)),
                dw_sample_count := i32 (dw_sample_count w + 1)\<rparr>;
     Some (if dw_sample_count w1 \<ge> dw_volume_min_samples w1
           then w1\<lparr>dw_volume_threshold_raw := i64 (dw_ema_notional_raw w1 * dw_volume_multiplier w1) sdiv kSignalScale\<rparr> else w1)
   }"

text \<open>
  \<^verbatim>\<open>std::nth_element\<close> on the first \<open>cnt\<close> entries of the buffer puts the element of the sorted order at the index. A count
  beyond the buffer is undefined behaviour. The buffers are filled by \<^verbatim>\<open>peek_qty\<close> before every use, so only what it wrote is
  an argument: the number it returned and the quantities.
\<close>

definition calculate_percentile_fast :: "int64 \<Rightarrow> int64 list \<Rightarrow> nat \<Rightarrow> int64 option" where
  "calculate_percentile_fast percentile data cnt =
     (if cnt = 0 then Some 0
      else if cnt > length data then None
      else let index = min (unat (of_nat cnt * of_int percentile :: u64) div 10000) (cnt - 1) in Some (sort (take cnt data) ! index))"

definition update_orderbook_threshold ::
  "int64 \<Rightarrow> BBO \<Rightarrow> int \<times> int64 list \<Rightarrow> int \<times> int64 list \<Rightarrow> DynamicWallThreshold \<Rightarrow> DynamicWallThreshold option" where
  "update_orderbook_threshold qty_scale bbo bids asks w =
     (if fst bids = 0 \<or> fst asks = 0 then Some (w\<lparr>dw_orderbook_threshold_raw := 0\<rparr>)
      else do {
        bid_percentile_qty \<leftarrow> calculate_percentile_fast (dw_orderbook_percentile w) (snd bids) (size_of_int (fst bids));
        ask_percentile_qty \<leftarrow> calculate_percentile_fast (dw_orderbook_percentile w) (snd asks) (size_of_int (fst asks));
        let avg_qty = i64 (bid_percentile_qty + ask_percentile_qty) sdiv 2;
        let mid_price = i64 (bid_price bbo + ask_price bbo) sdiv 2;
        n \<leftarrow> cdiv (i64 (avg_qty * mid_price)) qty_scale;
        Some (w\<lparr>dw_orderbook_threshold_raw := i64 (n * dw_orderbook_multiplier w) sdiv kSignalScale\<rparr>)
      })"

subsection \<open>Lemmas: scores\<close>

lemma stability_score_range: "0 \<le> stability_score t" "stability_score t \<le> 10000"
  by (auto simp: stability_score_def Let_def clamp_def)

lemma persistence_score_range: "0 \<le> persistence_score t" "persistence_score t \<le> 10000"
  by (auto simp: persistence_score_def Let_def clamp_def)

lemma distance_consistency_score_range: "0 \<le> distance_consistency_score t" "distance_consistency_score t \<le> 10000"
proof -
  have "0 \<le> i64 (10000 * i64 (15 - a)) sdiv 10 \<and> i64 (10000 * i64 (15 - a)) sdiv 10 \<le> 10000" if "5 < a" "a < 15" for a :: int
    using that by (simp add: in_i64_def sdiv_nonneg)
  then show "0 \<le> distance_consistency_score t" "distance_consistency_score t \<le> 10000"
    by (auto simp: distance_consistency_score_def Let_def not_le)
qed

lemma composite_quality_eq:
  "composite_quality t = (stability_score t * 5000 + persistence_score t * 3500 + distance_consistency_score t * 1500) div 10000"
proof -
  note r = stability_score_range [of t] persistence_score_range [of t] distance_consistency_score_range [of t]
  show ?thesis using r by (simp add: composite_quality_def in_i64_def sdiv_nonneg)
qed

lemma composite_quality_range: "0 \<le> composite_quality t" "composite_quality t \<le> 10000"
  using stability_score_range [of t] persistence_score_range [of t] distance_consistency_score_range [of t]
  by (simp_all add: composite_quality_eq)

subsection \<open>Lemmas: detection\<close>

definition level_price :: "int64 \<Rightarrow> int64 \<times> nat \<Rightarrow> int" where
  "level_price mp l = mp + int (snd l)"

definition level_notional :: "int64 \<Rightarrow> int64 \<Rightarrow> int64 \<times> nat \<Rightarrow> int" where
  "level_notional qs mp l = level_price mp l * fst l div qs"

definition wall_sum :: "int64 \<Rightarrow> int64 \<Rightarrow> (int64 \<times> nat) list \<Rightarrow> int" where
  "wall_sum qs mp lv = sum_list (map (level_notional qs mp) lv)"

definition wall_weight :: "int64 \<Rightarrow> int64 \<Rightarrow> (int64 \<times> nat) list \<Rightarrow> int" where
  "wall_weight qs mp lv = sum_list (map (\<lambda>l. level_price mp l * level_notional qs mp l) lv)"

definition wall_distance :: "int64 \<Rightarrow> int64 \<Rightarrow> int64 \<Rightarrow> (int64 \<times> nat) list \<Rightarrow> int" where
  "wall_distance qs mp base lv = \<bar>wall_weight qs mp lv div wall_sum qs mp lv - base\<bar> * 10000 div base"

definition levels_bounded :: "int64 \<Rightarrow> int64 \<Rightarrow> int \<Rightarrow> (int64 \<times> nat) list \<Rightarrow> bool" where
  "levels_bounded qs mp P lv \<longleftrightarrow>
     list_all (\<lambda>l. 0 < fst l \<and> 0 \<le> level_price mp l \<and> level_price mp l \<le> P \<and> level_price mp l * fst l < 2 ^ 63) lv
     \<and> wall_sum qs mp lv < 2 ^ 63 \<and> P * 10000 < 2 ^ 63 \<and> 0 < qs"

lemma level_bounds:
  assumes "levels_bounded qs mp P lv" "l \<in> set lv"
  shows "0 < fst l" "0 \<le> level_price mp l" "level_price mp l \<le> P" "0 \<le> level_price mp l * fst l" "level_price mp l * fst l < 2 ^ 63"
    "0 \<le> level_notional qs mp l"
proof -
  show a: "0 < fst l" "0 \<le> level_price mp l" "level_price mp l \<le> P" "level_price mp l * fst l < 2 ^ 63"
    using assms by (auto simp: levels_bounded_def list_all_iff)
  show "0 \<le> level_price mp l * fst l" using a by (intro mult_nonneg_nonneg) auto
  then show "0 \<le> level_notional qs mp l" using assms(1) by (simp add: level_notional_def levels_bounded_def pos_imp_zdiv_nonneg_iff)
qed

lemma levels_bounded_prefix:
  assumes "levels_bounded qs mp P (xs @ ys)"
  shows "levels_bounded qs mp P xs"
proof -
  have "0 \<le> wall_sum qs mp ys"
    unfolding wall_sum_def by (rule sum_list_nonneg) (use level_bounds(6) [OF assms] in auto)
  then show ?thesis using assms by (auto simp: levels_bounded_def wall_sum_def)
qed

lemma wall_weight_between:
  assumes "levels_bounded qs mp P lv"
  shows "0 \<le> wall_sum qs mp lv" "0 \<le> wall_weight qs mp lv" "wall_weight qs mp lv \<le> P * wall_sum qs mp lv"
  using level_bounds(2,3,6) [OF assms]
  by (induction lv) (auto simp: wall_sum_def wall_weight_def distrib_left intro!: add_mono mult_right_mono)

lemma wall_sum_snoc: "wall_sum qs mp (xs @ [l]) = wall_sum qs mp xs + level_notional qs mp l"
  and wall_weight_snoc: "wall_weight qs mp (xs @ [l]) = wall_weight qs mp xs + level_price mp l * level_notional qs mp l"
  by (simp_all add: wall_sum_def wall_weight_def)

lemma i128_id: "0 \<le> x \<Longrightarrow> x < 2 ^ 127 \<Longrightarrow> i128 x = x"
  by (simp add: i128_def signed_take_bit_int_eq_self_iff)

definition reaches :: "int64 \<Rightarrow> int64 \<Rightarrow> int64 \<Rightarrow> (int64 \<times> nat) list \<Rightarrow> nat \<Rightarrow> bool" where
  "reaches qs mp thr lv k \<longleftrightarrow>
     k \<le> length lv \<and> thr \<le> wall_sum qs mp (take k lv) \<and> (\<forall>j<k. wall_sum qs mp (take j lv) < thr)"

lemma wall_step_arith:
  assumes "levels_bounded qs mp P (pre @ [l])" "0 < base" "base \<le> P"
  shows "cdiv (i64 (i64 (mp + int (snd l)) * fst l)) qs = Some (level_notional qs mp l)"
    "i64 (wall_sum qs mp pre + level_notional qs mp l) = wall_sum qs mp (pre @ [l])"
    "i128 (wall_weight qs mp pre + i128 (i64 (mp + int (snd l)) * level_notional qs mp l)) = wall_weight qs mp (pre @ [l])"
    "0 < wall_sum qs mp (pre @ [l]) \<Longrightarrow>
       cdiv (i64 (i64 \<bar>i64 (i64 (wall_weight qs mp (pre @ [l]) sdiv wall_sum qs mp (pre @ [l])) - base)\<bar> * 10000)) base
       = Some (wall_distance qs mp base (pre @ [l]))"
proof -
  let ?p = "level_price mp l" and ?n = "level_notional qs mp l" and ?W = "wall_weight qs mp (pre @ [l])" and ?A = "wall_sum qs mp (pre @ [l])"
  note l = level_bounds [OF assms(1), of l, simplified] and w = wall_weight_between [OF assms(1)]
  note w0 = wall_weight_between [OF levels_bounded_prefix [OF assms(1)]]
  have P: "P * 10000 < 2 ^ 63" "?A < 2 ^ 63" "0 < qs" "0 \<le> P" using assms(1,2,3) by (auto simp: levels_bounded_def)
  have p: "i64 (mp + int (snd l)) = ?p" using l P by (simp add: level_price_def in_i64_def)
  show "cdiv (i64 (i64 (mp + int (snd l)) * fst l)) qs = Some ?n"
    unfolding p using l(4,5) P cdiv_nonneg [of "?p * fst l" qs] by (simp add: level_notional_def in_i64_def)
  show "i64 (wall_sum qs mp pre + ?n) = ?A" using w(1) P by (simp add: wall_sum_snoc in_i64_def)
  have "P * ?A \<le> 2 ^ 63 * 2 ^ 63" using P w(1) by (intro mult_mono) auto
  then have W: "?W < 2 ^ 127" using w(3) by simp
  have q: "0 \<le> ?p * ?n" using l(2,6) by simp
  show "i128 (wall_weight qs mp pre + i128 (i64 (mp + int (snd l)) * ?n)) = ?W"
    unfolding p using q w0(2) W by (simp add: wall_weight_snoc i128_id)
  assume A: "0 < ?A"
  have d: "0 \<le> ?W div ?A" "?W div ?A \<le> P" using div_between [OF A, of 0 ?W P] w by simp_all
  let ?d = "\<bar>?W div ?A - base\<bar>"
  have D: "?d \<le> P" "0 \<le> ?d" using d assms(2,3) by linarith+
  then have D': "0 \<le> ?d * 10000" "?d * 10000 \<le> P * 10000" by (auto intro: mult_nonneg_nonneg mult_right_mono)
  have "in_i64 (?W div ?A)" "in_i64 (?W div ?A - base)" using d assms(2,3) P by (simp_all add: in_i64_def)
  moreover have "in_i64 ?d" using D P by (intro in_i64_nonneg [of _ P]) auto
  moreover have "in_i64 (?d * 10000)" using D' P(1) by (rule in_i64_nonneg)
  moreover have "?W sdiv ?A = ?W div ?A" using w(2) A by (simp add: sdiv_nonneg)
  moreover have "?d * 10000 < 2 ^ 63" using D'(2) P(1) by (rule order.strict_trans1)
  ultimately show "cdiv (i64 (i64 \<bar>i64 (i64 (?W sdiv ?A) - base)\<bar> * 10000)) base = Some (wall_distance qs mp base (pre @ [l]))"
    using cdiv_nonneg [of "?d * 10000" base] D'(1) assms(2) by (simp add: wall_distance_def)
qed

lemma wall_loop_correct:
  assumes "levels_bounded qs mp P full" "0 < thr" "0 < base" "base \<le> P" "full = pre @ lv"
    "\<forall>j\<le>length pre. wall_sum qs mp (take j full) < thr" "wi_accumulated_notional info = wall_sum qs mp pre" "\<not> wi_is_valid info"
  shows "\<exists>info'. wall_loop qs thr md mp base (length pre) lv (wall_weight qs mp pre) info = Some info'
    \<and> ((\<exists>k. reaches qs mp thr full k \<and> wi_levels_checked info' = k \<and> wi_accumulated_notional info' = wall_sum qs mp (take k full)
           \<and> wi_distance_bps info' = wall_distance qs mp base (take k full)
           \<and> (wi_is_valid info' \<longleftrightarrow> wall_distance qs mp base (take k full) \<le> md))
       \<or> (\<forall>j\<le>length full. wall_sum qs mp (take j full) < thr) \<and> wi_accumulated_notional info' < thr \<and> \<not> wi_is_valid info')"
  using assms(5-8)
proof (induction lv arbitrary: pre info)
  case Nil
  then show ?case by auto
next
  case (Cons l lv)
  obtain q i where l: "l = (q, i)" by (cases l)
  have full: "full = (pre @ [l]) @ lv" using Cons.prems(1) by simp
  then have b: "levels_bounded qs mp P (pre @ [l])" using assms(1) levels_bounded_prefix by metis
  note a = wall_step_arith [OF b assms(3,4)] and q = level_bounds(1) [OF b, of l]
  have t: "take (Suc (length pre)) full = pre @ [l]" using Cons.prems(1) by simp
  let ?info = "info\<lparr>wi_accumulated_notional := wall_sum qs mp (pre @ [l]), wi_levels_checked := Suc (length pre)\<rparr>"
  show ?case
  proof (cases "thr \<le> wall_sum qs mp (pre @ [l])")
    case True
    then have "0 < wall_sum qs mp (pre @ [l])" using assms(2) by linarith
    moreover have "reaches qs mp thr full (Suc (length pre))"
      using True t Cons.prems(1,2) by (auto simp: reaches_def less_Suc_eq_le)
    ultimately show ?thesis using True a q Cons.prems(3) t by (auto simp: l)
  next
    case False
    have "\<forall>j\<le>length (pre @ [l]). wall_sum qs mp (take j full) < thr" using False t Cons.prems(2) by (auto simp: le_Suc_eq)
    then show ?thesis using Cons.IH [of "pre @ [l]" ?info] full False a q Cons.prems(3,4) by (simp add: l)
  qed
qed

text \<open>
  C26. Wall detection: over peeked levels with positive quantities it finds the shortest prefix whose notional reaches the
  threshold; the wall is valid exactly when such a prefix exists and its average price, weighted by notional, is within the
  allowed distance of the best price. Nothing overflows within the stated bounds.
\<close>

theorem detect_wall_correct:
  assumes "levels_bounded qs mp P lv" and "0 < thr" and "0 < base" and "base \<le> P"
    and "base = (if side = kBuy then bid_price bbo else ask_price bbo)" and "bid_price bbo \<noteq> kInvalidValue" and "ask_price bbo \<noteq> kInvalidValue"
  shows "\<exists>info. detect_wall qs bbo lv side thr md mp = Some info
    \<and> (wi_is_valid info \<longleftrightarrow> (\<exists>k. reaches qs mp thr lv k \<and> wall_distance qs mp base (take k lv) \<le> md))
    \<and> (wi_is_valid info \<longrightarrow> reaches qs mp thr lv (wi_levels_checked info)
         \<and> wi_accumulated_notional info = wall_sum qs mp (take (wi_levels_checked info) lv)
         \<and> wi_distance_bps info = wall_distance qs mp base (take (wi_levels_checked info) lv))"
proof -
  have uniq: "k = k'" if "reaches qs mp thr lv k" "reaches qs mp thr lv k'" for k k'
    using that by (metis linorder_neqE_nat not_le reaches_def)
  obtain info where i: "wall_loop qs thr md mp base 0 lv 0 WallInfo_new = Some info"
    and c: "(\<exists>k. reaches qs mp thr lv k \<and> wi_levels_checked info = k \<and> wi_accumulated_notional info = wall_sum qs mp (take k lv)
           \<and> wi_distance_bps info = wall_distance qs mp base (take k lv) \<and> (wi_is_valid info \<longleftrightarrow> wall_distance qs mp base (take k lv) \<le> md))
       \<or> (\<forall>j\<le>length lv. wall_sum qs mp (take j lv) < thr) \<and> wi_accumulated_notional info < thr \<and> \<not> wi_is_valid info"
    using wall_loop_correct [OF assms(1-4), of "[]" lv WallInfo_new md] assms(2) by (auto simp: WallInfo_new_def wall_sum_def wall_weight_def)
  have "detect_wall qs bbo lv side thr md mp = Some (if wi_accumulated_notional info < thr then info\<lparr>wi_is_valid := False\<rparr> else info)"
    using i assms(3,5-7) by (auto simp: detect_wall_def)
  then show ?thesis using c
  proof (elim disjE exE conjE)
    fix k assume k: "reaches qs mp thr lv k" "wi_levels_checked info = k" "wi_accumulated_notional info = wall_sum qs mp (take k lv)"
      "wi_distance_bps info = wall_distance qs mp base (take k lv)" "wi_is_valid info \<longleftrightarrow> wall_distance qs mp base (take k lv) \<le> md"
    assume "detect_wall qs bbo lv side thr md mp = Some (if wi_accumulated_notional info < thr then info\<lparr>wi_is_valid := False\<rparr> else info)"
    moreover have "\<not> wi_accumulated_notional info < thr" using k(1,3) by (simp add: reaches_def)
    moreover have "(\<exists>k'. reaches qs mp thr lv k' \<and> wall_distance qs mp base (take k' lv) \<le> md) \<longleftrightarrow> wall_distance qs mp base (take k lv) \<le> md"
      using uniq [OF k(1)] k(1) by blast
    ultimately show ?thesis using k by simp
  qed (auto simp: reaches_def not_less)
qed

theorem detect_wall_correct_witness:
  "\<exists>info. detect_wall 1000 \<lparr>bid_price = 1000, ask_price = 1001, bid_qty = 10, ask_qty = 10\<rparr> [(5000, 900), (7000, 899), (1, 898)] kBuy 12000 15 100 = Some info
     \<and> (wi_is_valid info \<longrightarrow> wi_accumulated_notional info = wall_sum 1000 100 (take (wi_levels_checked info) [(5000, 900), (7000, 899), (1, 898)]))"
  using detect_wall_correct [of 1000 100 2000 "[(5000, 900), (7000, 899), (1, 898)]" 12000 1000 kBuy
      "\<lparr>bid_price = 1000, ask_price = 1001, bid_qty = 10, ask_qty = 10\<rparr>" 15]
  by (auto simp: levels_bounded_def level_price_def level_notional_def wall_sum_def kInvalidValue_def)

end
