(* ===== verification/Feature_Engine.thy ===== *)
theory Feature_Engine
  imports Signal_Scale Book_Common
begin

text \<open>
  The feature engine (\<^verbatim>\<open>feature_engine.hpp\<close>): volume-weighted market price and spread, the VWAP over a ring of the last trades,
  the trade history and the order-book imbalance, and the linear skew of the inventory model (\<^verbatim>\<open>inventory_model.h\<close>). The BBO
  of the book is an argument of the callbacks that read it. An access outside a vector is \<^term>\<open>None\<close>.
\<close>

record TradeInfo =
  ti_side :: Side
  ti_price_raw :: int64
  ti_qty_raw :: int64
  ti_timestamp :: u64

record FeatureEngine =
  fe_agg_trade_qty_ratio :: int64
  fe_vwap_size :: u32
  fe_vwap_index :: u32
  fe_mkt_price_raw :: int64
  fe_spread_raw :: int64
  fe_acc_vwap_qty_raw :: int64
  fe_acc_vwap_raw :: int64
  fe_vwap_raw :: int64
  fe_vwap_qty_raw :: "int64 list"
  fe_vwap_price_raw :: "int64 list"
  fe_recent_trades :: "TradeInfo list"
  fe_trade_history_index :: nat
  fe_trade_history_count :: nat
  fe_book_ticker_raw :: BBO

abbreviation (input) kMaxTradeHistory :: nat where
  "kMaxTradeHistory \<equiv> 128"

definition FeatureEngine_new :: "u32 \<Rightarrow> FeatureEngine" where
  "FeatureEngine_new vwap_size = \<lparr>fe_agg_trade_qty_ratio = 0, fe_vwap_size = vwap_size, fe_vwap_index = 0, fe_mkt_price_raw = 0, fe_spread_raw = 0,
     fe_acc_vwap_qty_raw = 0, fe_acc_vwap_raw = 0, fe_vwap_raw = 0, fe_vwap_qty_raw = replicate (unat vwap_size) 0,
     fe_vwap_price_raw = replicate (unat vwap_size) 0,
     fe_recent_trades = replicate kMaxTradeHistory \<lparr>ti_side = Side_kInvalid, ti_price_raw = 0, ti_qty_raw = 0, ti_timestamp = 0\<rparr>,
     fe_trade_history_index = 0, fe_trade_history_count = 0,
     fe_book_ticker_raw = \<lparr>bid_price = 0, ask_price = 0, bid_qty = 0, ask_qty = 0\<rparr>\<rparr>"

definition update_trade_ratio :: "MarketData \<Rightarrow> BBO \<Rightarrow> FeatureEngine \<Rightarrow> FeatureEngine" where
  "update_trade_ratio market_update bbo fe =
     (if bid_price bbo > 0 \<and> ask_price bbo > 0 then
        (let denom = (if md_side market_update = kBuy then ask_qty bbo else bid_qty bbo)
         in if denom > 0 then fe\<lparr>fe_agg_trade_qty_ratio := i64 (md_qty market_update * kSignalScale) sdiv denom\<rparr> else fe)
      else fe)"

definition update_vwap :: "MarketData \<Rightarrow> FeatureEngine \<Rightarrow> FeatureEngine option" where
  "update_vwap market_update fe =
     (let idx = unat (fe_vwap_index fe AND (fe_vwap_size fe - 1))
      in if idx < length (fe_vwap_qty_raw fe) then
           (let fe1 = (if fe_vwap_index fe \<ge> fe_vwap_size fe then
                         (let old_q = fe_vwap_qty_raw fe ! idx; old_p = fe_vwap_price_raw fe ! idx
                          in fe\<lparr>fe_acc_vwap_qty_raw := i64 (fe_acc_vwap_qty_raw fe - old_q),
                                fe_acc_vwap_raw := i64 (fe_acc_vwap_raw fe - i64 (old_p * old_q))\<rparr>)
                       else fe);
                p = md_price market_update; q = md_qty market_update;
                fe2 = fe1\<lparr>fe_vwap_price_raw := (fe_vwap_price_raw fe1)[idx := p], fe_vwap_qty_raw := (fe_vwap_qty_raw fe1)[idx := q],
                          fe_acc_vwap_qty_raw := i64 (fe_acc_vwap_qty_raw fe1 + q),
                          fe_acc_vwap_raw := i64 (fe_acc_vwap_raw fe1 + i64 (p * q))\<rparr>;
                fe3 = (if fe_acc_vwap_qty_raw fe2 > 0
                       then fe2\<lparr>fe_vwap_raw := fe_acc_vwap_raw fe2 sdiv fe_acc_vwap_qty_raw fe2\<rparr> else fe2)
            in Some (fe3\<lparr>fe_vwap_index := fe_vwap_index fe3 + 1\<rparr>))
         else None)"

definition record_trade :: "MarketData \<Rightarrow> FeatureEngine \<Rightarrow> FeatureEngine option" where
  "record_trade market_update fe =
     (if fe_trade_history_index fe < length (fe_recent_trades fe) then
        Some (fe\<lparr>fe_recent_trades := (fe_recent_trades fe)[fe_trade_history_index fe :=
                    \<lparr>ti_side = md_side market_update, ti_price_raw = md_price market_update, ti_qty_raw = md_qty market_update, ti_timestamp = 0\<rparr>],
                 fe_trade_history_index := (fe_trade_history_index fe + 1) mod kMaxTradeHistory,
                 fe_trade_history_count := (if fe_trade_history_count fe < kMaxTradeHistory then fe_trade_history_count fe + 1
                                            else fe_trade_history_count fe)\<rparr>)
      else None)"

definition fe_on_trade_updated :: "MarketData \<Rightarrow> BBO \<Rightarrow> FeatureEngine \<Rightarrow> FeatureEngine option" where
  "fe_on_trade_updated market_update bbo fe = do {
     fe1 \<leftarrow> update_vwap market_update (update_trade_ratio market_update bbo fe);
     record_trade market_update fe1
   }"

definition fe_on_book_ticker_updated :: "MarketData \<Rightarrow> FeatureEngine \<Rightarrow> FeatureEngine" where
  "fe_on_book_ticker_updated market_update fe =
     (let t = fe_book_ticker_raw fe
      in fe\<lparr>fe_book_ticker_raw :=
           (if md_side market_update = kBuy then t\<lparr>bid_price := md_price market_update, bid_qty := md_qty market_update\<rparr>
            else t\<lparr>ask_price := md_price market_update, ask_qty := md_qty market_update\<rparr>)\<rparr>)"

definition fe_on_order_book_updated :: "BBO \<Rightarrow> FeatureEngine \<Rightarrow> FeatureEngine" where
  "fe_on_order_book_updated bbo fe =
     (if bid_price bbo > 0 \<and> ask_price bbo > 0 then
        (let num = i64 (i64 (bid_price bbo * ask_qty bbo) + i64 (ask_price bbo * bid_qty bbo));
             den = i64 (bid_qty bbo + ask_qty bbo);
             fe1 = (if den > 0 then fe\<lparr>fe_mkt_price_raw := num sdiv den\<rparr> else fe)
         in fe1\<lparr>fe_spread_raw := i64 (ask_price bbo - bid_price bbo)\<rparr>)
      else fe)"

text \<open>The imbalance: four levels a round, then one, then what is left of the longer side. A round works on the lists that remain.\<close>

fun obi_rest :: "int64 \<Rightarrow> int64 \<Rightarrow> int64 list \<Rightarrow> int64 list \<Rightarrow> int64 \<times> int64" where
  "obi_rest total_qty diff (bid # bids) (ask # asks) = obi_rest (i64 (total_qty + i64 (bid + ask))) (i64 (diff + i64 (bid - ask))) bids asks"
| "obi_rest total_qty diff (bid # bids) [] = obi_rest (i64 (total_qty + bid)) (i64 (diff + bid)) bids []"
| "obi_rest total_qty diff [] (ask # asks) = obi_rest (i64 (total_qty + ask)) (i64 (diff - ask)) [] asks"
| "obi_rest total_qty diff [] [] = (total_qty, diff)"

fun obi_unrolled :: "int64 \<Rightarrow> int64 \<Rightarrow> int64 list \<Rightarrow> int64 list \<Rightarrow> int64 \<times> int64" where
  "obi_unrolled total_qty diff (bid0 # bid1 # bid2 # bid3 # bids) (ask0 # ask1 # ask2 # ask3 # asks) =
     obi_unrolled
       (i64 (total_qty + i64 (i64 (i64 (i64 (bid0 + ask0) + i64 (bid1 + ask1)) + i64 (bid2 + ask2)) + i64 (bid3 + ask3))))
       (i64 (diff + i64 (i64 (i64 (i64 (bid0 - ask0) + i64 (bid1 - ask1)) + i64 (bid2 - ask2)) + i64 (bid3 - ask3))))
       bids asks"
| "obi_unrolled total_qty diff bids asks = obi_rest total_qty diff bids asks"

definition orderbook_imbalance_int64 :: "int64 list \<Rightarrow> int64 list \<Rightarrow> int64" where
  "orderbook_imbalance_int64 bid_levels ask_levels =
     (case obi_unrolled 0 0 bid_levels ask_levels of
        (total_qty, diff) \<Rightarrow> if total_qty \<le> 0 then 0 else i64 (diff * kObiScale) sdiv total_qty)"

definition get_mid_price :: "FeatureEngine \<Rightarrow> int64" where
  "get_mid_price fe = i64 (bid_price (fe_book_ticker_raw fe) + ask_price (fe_book_ticker_raw fe)) sdiv 2"

definition get_spread_fast :: "FeatureEngine \<Rightarrow> int64" where
  "get_spread_fast fe = i64 (ask_price (fe_book_ticker_raw fe) - bid_price (fe_book_ticker_raw fe))"

definition get_trade :: "FeatureEngine \<Rightarrow> nat \<Rightarrow> TradeInfo" where
  "get_trade fe offset = fe_recent_trades fe ! ((fe_trade_history_index fe + kMaxTradeHistory - 1 - offset) AND (kMaxTradeHistory - 1))"

text \<open>The linear skew of the inventory model; \<open>qty_scale\<close> is \<^verbatim>\<open>FixedPointConfig::kQtyScale\<close>.\<close>

definition calculate_quote_adjustment :: "int64 \<Rightarrow> int64 \<Rightarrow> Side \<Rightarrow> int64 \<Rightarrow> int64 \<Rightarrow> int64 option" where
  "calculate_quote_adjustment qty_scale skew_coefficient_scaled side current_position target_position = do {
     skew \<leftarrow> cdiv (i64 (skew_coefficient_scaled * i64 (current_position - target_position))) qty_scale;
     Some (if side = kBuy then i64 (- skew) else skew)
   }"

subsection \<open>Sequences of callbacks\<close>

datatype fe_op = FE_Trade MarketData BBO | FE_Book BBO | FE_Ticker MarketData

fun fe_step :: "fe_op \<Rightarrow> FeatureEngine \<Rightarrow> FeatureEngine option" where
  "fe_step (FE_Trade md bbo) fe = fe_on_trade_updated md bbo fe"
| "fe_step (FE_Book bbo) fe = Some (fe_on_order_book_updated bbo fe)"
| "fe_step (FE_Ticker md) fe = Some (fe_on_book_ticker_updated md fe)"

fun fe_run :: "fe_op list \<Rightarrow> FeatureEngine \<Rightarrow> FeatureEngine option" where
  "fe_run [] fe = Some fe"
| "fe_run (op # ops) fe = (case fe_step op fe of None \<Rightarrow> None | Some fe' \<Rightarrow> fe_run ops fe')"

fun trades :: "fe_op list \<Rightarrow> MarketData list" where
  "trades [] = []"
| "trades (FE_Trade md bbo # ops) = md # trades ops"
| "trades (op # ops) = trades ops"

subsection \<open>Lemmas: the rings\<close>

definition trade_info :: "MarketData \<Rightarrow> TradeInfo" where
  "trade_info md = \<lparr>ti_side = md_side md, ti_price_raw = md_price md, ti_qty_raw = md_qty md, ti_timestamp = 0\<rparr>"

definition notional :: "MarketData \<Rightarrow> int" where
  "notional md = md_price md * md_qty md"

definition fe_inv :: "nat \<Rightarrow> MarketData list \<Rightarrow> FeatureEngine \<Rightarrow> bool" where
  "fe_inv k ts fe \<longleftrightarrow>
     fe_vwap_size fe = 2 ^ k \<and> fe_vwap_index fe = of_nat (length ts)
     \<and> ring_ok (2 ^ k) (map md_qty ts) (fe_vwap_qty_raw fe) \<and> ring_ok (2 ^ k) (map md_price ts) (fe_vwap_price_raw fe)
     \<and> fe_acc_vwap_qty_raw fe = i64 (sum_list (map md_qty (last_n (2 ^ k) ts)))
     \<and> fe_acc_vwap_raw fe = i64 (sum_list (map notional (last_n (2 ^ k) ts)))
     \<and> (fe_acc_vwap_qty_raw fe > 0 \<longrightarrow> fe_vwap_raw fe = fe_acc_vwap_raw fe sdiv fe_acc_vwap_qty_raw fe)
     \<and> ring_ok kMaxTradeHistory (map trade_info ts) (fe_recent_trades fe)
     \<and> fe_trade_history_index fe = length ts mod kMaxTradeHistory \<and> fe_trade_history_count fe = min kMaxTradeHistory (length ts)"

lemma unat_and_pow2: "unat ((w::u32) AND (2 ^ k - 1)) = unat w mod 2 ^ k"
proof -
  have "w AND (2 ^ k - 1) = take_bit k w" by (simp add: take_bit_eq_mask mask_eq_exp_minus_1)
  moreover have "unat (take_bit k w) = take_bit k (unat w)" by (rule unsigned_take_bit_eq)
  ultimately show ?thesis by (simp only: take_bit_eq_mod [of k "unat w"])
qed

lemma unat_of_nat32: "n < 2 ^ 32 \<Longrightarrow> unat (of_nat n :: u32) = n"
  by (simp add: unat_of_nat)

lemma unat_u32_pow2:
  assumes "k < 32"
  shows "unat ((2::u32) ^ k) = 2 ^ k"
proof -
  have "unat (of_nat (2 ^ k) :: u32) = 2 ^ k" using assms by (intro unat_of_nat32 power_strict_increasing) simp_all
  then show ?thesis by simp
qed

lemma fe_inv_new: "k < 32 \<Longrightarrow> fe_inv k [] (FeatureEngine_new (2 ^ k))"
  by (simp add: fe_inv_def FeatureEngine_new_def ring_ok_def last_n_def unat_u32_pow2)

lemma update_vwap_inv:
  assumes "fe_inv k ts fe" "k < 32" "length ts < 2 ^ 32"
  shows "\<exists>fe'. update_vwap md fe = Some fe' \<and> fe_vwap_size fe' = 2 ^ k \<and> fe_vwap_index fe' = of_nat (Suc (length ts))
    \<and> ring_ok (2 ^ k) (map md_qty (ts @ [md])) (fe_vwap_qty_raw fe') \<and> ring_ok (2 ^ k) (map md_price (ts @ [md])) (fe_vwap_price_raw fe')
    \<and> fe_acc_vwap_qty_raw fe' = i64 (sum_list (map md_qty (last_n (2 ^ k) (ts @ [md]))))
    \<and> fe_acc_vwap_raw fe' = i64 (sum_list (map notional (last_n (2 ^ k) (ts @ [md]))))
    \<and> (fe_acc_vwap_qty_raw fe' > 0 \<longrightarrow> fe_vwap_raw fe' = fe_acc_vwap_raw fe' sdiv fe_acc_vwap_qty_raw fe')
    \<and> fe_recent_trades fe' = fe_recent_trades fe \<and> fe_trade_history_index fe' = fe_trade_history_index fe
    \<and> fe_trade_history_count fe' = fe_trade_history_count fe"
proof -
  let ?n = "2 ^ k :: nat" and ?l = "length ts"
  have i: "fe_vwap_size fe = 2 ^ k" "fe_vwap_index fe = of_nat ?l" "ring_ok ?n (map md_qty ts) (fe_vwap_qty_raw fe)"
    "ring_ok ?n (map md_price ts) (fe_vwap_price_raw fe)"
    "fe_acc_vwap_qty_raw fe = i64 (sum_list (map md_qty (last_n ?n ts)))" "fe_acc_vwap_raw fe = i64 (sum_list (map notional (last_n ?n ts)))"
    using assms(1) by (auto simp: fe_inv_def)
  have idx: "unat (fe_vwap_index fe AND (fe_vwap_size fe - 1)) = ?l mod ?n"
    unfolding i(1,2) unat_and_pow2 unat_of_nat32 [OF assms(3)] ..
  have ge: "fe_vwap_index fe \<ge> fe_vwap_size fe \<longleftrightarrow> ?n \<le> ?l"
    unfolding i(1,2) word_le_nat_alt unat_u32_pow2 [OF assms(2)] unat_of_nat32 [OF assms(3)] ..
  have len: "?l mod ?n < length (fe_vwap_qty_raw fe)" using i(3) by (simp add: ring_ok_def)
  have old: "fe_vwap_qty_raw fe ! (?l mod ?n) = md_qty (ts ! (?l - ?n))" "fe_vwap_price_raw fe ! (?l mod ?n) = md_price (ts ! (?l - ?n))" if "?n \<le> ?l"
  proof -
    have "0 < ?n" by simp
    then have "?l - ?n < ?l" using that by linarith
    then show "fe_vwap_qty_raw fe ! (?l mod ?n) = md_qty (ts ! (?l - ?n))" "fe_vwap_price_raw fe ! (?l mod ?n) = md_price (ts ! (?l - ?n))"
      using ring_oldest [OF i(3)] ring_oldest [OF i(4)] that by simp_all
  qed
  have push: "ring_ok ?n (map md_qty (ts @ [md])) ((fe_vwap_qty_raw fe)[?l mod ?n := md_qty md])"
    "ring_ok ?n (map md_price (ts @ [md])) ((fe_vwap_price_raw fe)[?l mod ?n := md_price md])"
    using ring_push [OF i(3), of "md_qty md"] ring_push [OF i(4), of "md_price md"] by simp_all
  note snoc = sum_last_n_snoc [of ?n md_qty ts md, simplified] sum_last_n_snoc [of ?n notional ts md, simplified]
  show ?thesis
    unfolding update_vwap_def Let_def idx ge using push old len
    by (cases "?n \<le> ?l") (simp_all add: i(1,2,5,6) snoc notional_def i64_eq_word algebra_simps del: map_append)
qed

lemma update_trade_ratio_inv [simp]: "fe_inv k ts (update_trade_ratio md bbo fe) = fe_inv k ts fe"
  by (simp add: update_trade_ratio_def fe_inv_def Let_def)

lemma fe_on_trade_updated_inv:
  assumes "fe_inv k ts fe" "k < 32" "length ts < 2 ^ 32"
  shows "\<exists>fe'. fe_on_trade_updated md bbo fe = Some fe' \<and> fe_inv k (ts @ [md]) fe'"
proof -
  let ?fe = "update_trade_ratio md bbo fe"
  have i: "fe_inv k ts ?fe" using assms(1) by simp
  obtain fe1 where fe1: "update_vwap md ?fe = Some fe1" "fe_vwap_size fe1 = 2 ^ k" "fe_vwap_index fe1 = of_nat (Suc (length ts))"
      "ring_ok (2 ^ k) (map md_qty (ts @ [md])) (fe_vwap_qty_raw fe1)" "ring_ok (2 ^ k) (map md_price (ts @ [md])) (fe_vwap_price_raw fe1)"
      "fe_acc_vwap_qty_raw fe1 = i64 (sum_list (map md_qty (last_n (2 ^ k) (ts @ [md]))))"
      "fe_acc_vwap_raw fe1 = i64 (sum_list (map notional (last_n (2 ^ k) (ts @ [md]))))"
      "fe_acc_vwap_qty_raw fe1 > 0 \<longrightarrow> fe_vwap_raw fe1 = fe_acc_vwap_raw fe1 sdiv fe_acc_vwap_qty_raw fe1"
      "fe_recent_trades fe1 = fe_recent_trades ?fe" "fe_trade_history_index fe1 = fe_trade_history_index ?fe"
      "fe_trade_history_count fe1 = fe_trade_history_count ?fe"
    using update_vwap_inv [OF i assms(2,3)] by blast
  have r: "ring_ok kMaxTradeHistory (map trade_info ts) (fe_recent_trades fe1)" "fe_trade_history_index fe1 = length ts mod kMaxTradeHistory"
    "fe_trade_history_count fe1 = min kMaxTradeHistory (length ts)"
    using i fe1 by (simp_all add: fe_inv_def)
  have p: "ring_ok kMaxTradeHistory (map trade_info (ts @ [md])) ((fe_recent_trades fe1)[length ts mod kMaxTradeHistory := trade_info md])"
    using ring_push [OF r(1), of "trade_info md"] by simp
  have "record_trade md fe1 = Some (fe1\<lparr>fe_recent_trades := (fe_recent_trades fe1)[length ts mod kMaxTradeHistory := trade_info md],
      fe_trade_history_index := Suc (length ts) mod kMaxTradeHistory, fe_trade_history_count := min kMaxTradeHistory (Suc (length ts))\<rparr>)"
    using r by (simp add: record_trade_def ring_ok_def trade_info_def mod_Suc)
  then show ?thesis using fe1 p by (simp add: fe_on_trade_updated_def fe_inv_def del: map_append)
qed

lemma fe_run_inv:
  assumes "fe_inv k ts fe" "k < 32" "length ts + length (trades ops) \<le> 2 ^ 32"
  shows "\<exists>fe'. fe_run ops fe = Some fe' \<and> fe_inv k (ts @ trades ops) fe'"
  using assms
proof (induction ops arbitrary: ts fe)
  case (Cons op ops)
  show ?case
  proof (cases op)
    case (FE_Trade md bbo)
    obtain fe1 where "fe_on_trade_updated md bbo fe = Some fe1" "fe_inv k (ts @ [md]) fe1"
      using fe_on_trade_updated_inv [of k ts fe md bbo] Cons.prems by (auto simp: FE_Trade)
    then show ?thesis using Cons.IH [of "ts @ [md]" fe1] Cons.prems by (auto simp: FE_Trade)
  next
    case (FE_Book bbo)
    have "fe_inv k ts (fe_on_order_book_updated bbo fe)"
      using Cons.prems(1) by (simp add: fe_on_order_book_updated_def fe_inv_def Let_def)
    then show ?thesis using Cons.IH [of ts] Cons.prems by (auto simp: FE_Book)
  next
    case (FE_Ticker md)
    have "fe_inv k ts (fe_on_book_ticker_updated md fe)"
      using Cons.prems(1) by (simp add: fe_on_book_ticker_updated_def fe_inv_def Let_def)
    then show ?thesis using Cons.IH [of ts] Cons.prems by (auto simp: FE_Ticker)
  qed
qed simp

lemma get_trade_recent:
  assumes "fe_inv k ts fe" "j < kMaxTradeHistory" "j < length ts"
  shows "get_trade fe j = trade_info (ts ! (length ts - 1 - j))"
proof -
  let ?m = "length ts - 1 - j"
  define q r where "q = length ts div 128" and "r = length ts mod 128"
  have "length ts = 128 * q + r" by (simp add: q_def r_def)
  then have "r + 128 - 1 - j + 128 * q = ?m + 128" using assms(2,3) by linarith
  then have "(length ts mod 128 + 128 - 1 - j) mod 128 = ?m mod 128" unfolding r_def by (metis mod_add_self2 mod_mult_self2)
  then have "(length ts mod 128 + 128 - 1 - j) AND 127 = ?m mod 128" using nat_and_mask [of _ 7] by simp
  moreover have "fe_recent_trades fe ! (?m mod 128) = map trade_info ts ! ?m"
    using assms by (simp add: fe_inv_def ring_ok_def)
  ultimately show ?thesis using assms by (simp add: get_trade_def fe_inv_def)
qed

subsection \<open>Properties\<close>

lemma weighted_average_between:
  assumes "list_all (\<lambda>md. lo \<le> md_price md \<and> md_price md \<le> hi \<and> 0 < md_qty md) ts"
  shows "lo * sum_list (map md_qty ts) \<le> sum_list (map notional ts)" "sum_list (map notional ts) \<le> hi * sum_list (map md_qty ts)"
    "int (length ts) \<le> sum_list (map md_qty ts)"
proof -
  have "lo * md_qty md \<le> notional md \<and> notional md \<le> hi * md_qty md" if "lo \<le> md_price md \<and> md_price md \<le> hi \<and> 0 < md_qty md" for md
    using that by (auto simp: notional_def intro: mult_right_mono)
  then show "lo * sum_list (map md_qty ts) \<le> sum_list (map notional ts)" "sum_list (map notional ts) \<le> hi * sum_list (map md_qty ts)"
    "int (length ts) \<le> sum_list (map md_qty ts)"
    using assms by (induction ts) (fastforce simp: distrib_left)+
qed

text \<open>
  C27. The VWAP: with a ring of \<open>2 ^ k\<close> trades, after any sequence of callbacks with fewer than \<open>2 ^ 32\<close> trades the engine never leaves
  its vectors, the VWAP is the truncated average price of the last \<open>2 ^ k\<close> trades weighted by quantity and lies in their price range,
  and \<^verbatim>\<open>get_trade(j)\<close> is the \<open>j\<close>-th most recent trade for the 128 most recent ones.
\<close>

theorem vwap_correct:
  assumes "k < 32" and "length (trades ops) \<le> 2 ^ 32" and "trades ops \<noteq> []"
    and "list_all (\<lambda>md. 0 \<le> lo \<and> lo \<le> md_price md \<and> md_price md \<le> hi \<and> 0 < md_qty md) (trades ops)"
    and "sum_list (map md_qty (last_n (2 ^ k) (trades ops))) * max hi 1 < 2 ^ 63"
  shows "\<exists>fe. fe_run ops (FeatureEngine_new (2 ^ k)) = Some fe
    \<and> fe_vwap_raw fe = sum_list (map notional (last_n (2 ^ k) (trades ops))) div sum_list (map md_qty (last_n (2 ^ k) (trades ops)))
    \<and> lo \<le> fe_vwap_raw fe \<and> fe_vwap_raw fe \<le> hi
    \<and> fe_trade_history_count fe = min 128 (length (trades ops))
    \<and> (\<forall>j < fe_trade_history_count fe. get_trade fe j = trade_info (trades ops ! (length (trades ops) - 1 - j)))"
proof -
  let ?ts = "trades ops" and ?w = "last_n (2 ^ k) (trades ops)"
  let ?q = "sum_list (map md_qty ?w)" and ?n = "sum_list (map notional ?w)"
  obtain fe where fe: "fe_run ops (FeatureEngine_new (2 ^ k)) = Some fe" "fe_inv k ?ts fe"
    using fe_run_inv [OF fe_inv_new [OF assms(1)] assms(1), of ops] assms(2) by auto
  have lo: "0 \<le> lo" using assms(3,4) by (cases ?ts) auto
  have "list_all (\<lambda>md. lo \<le> md_price md \<and> md_price md \<le> hi \<and> 0 < md_qty md) ?w"
    using assms(4) set_last_n by (fastforce simp: list_all_iff)
  note b = weighted_average_between [OF this]
  have "0 < length ?w" using assms(3) by (simp add: length_last_n)
  then have q: "0 < ?q" using b(3) by linarith
  have q1: "?q \<le> ?q * max hi 1" using q by (simp add: mult_le_cancel_left1)
  have "0 \<le> lo * ?q" "hi * ?q \<le> ?q * max hi 1" using lo q by (simp_all add: mult.commute [of hi] mult_left_mono)
  then have n: "0 \<le> ?n" "?n \<le> ?q * max hi 1" using b(1,2) by linarith+
  have "i64 ?q = ?q" "i64 ?n = ?n" using in_i64_nonneg [OF _ q1 assms(5)] in_i64_nonneg [OF n assms(5)] q by simp_all
  then have v: "fe_vwap_raw fe = ?n div ?q" using fe(2) q n by (simp add: fe_inv_def sdiv_nonneg)
  then have "lo \<le> fe_vwap_raw fe" "fe_vwap_raw fe \<le> hi" using div_between [OF q b(1,2)] by simp_all
  moreover have "fe_trade_history_count fe = min 128 (length ?ts)" using fe(2) by (simp add: fe_inv_def)
  ultimately show ?thesis using fe v get_trade_recent [OF fe(2)] by auto
qed

lemma obi_rest_sums:
  assumes "in_i64 t" "in_i64 d"
  shows "obi_rest t d bids asks = (i64 (t + sum_list bids + sum_list asks), i64 (d + sum_list bids - sum_list asks))"
  using assms by (induction t d bids asks rule: obi_rest.induct) (simp_all add: i64_eq_word algebra_simps)

lemma obi_unrolled_sums:
  assumes "in_i64 t" "in_i64 d"
  shows "obi_unrolled t d bids asks = (i64 (t + sum_list bids + sum_list asks), i64 (d + sum_list bids - sum_list asks))"
  using assms by (induction t d bids asks rule: obi_unrolled.induct) (simp_all add: obi_rest_sums i64_eq_word algebra_simps)

text \<open>
  The unrolled imbalance computes the difference of the two sides over their sum, for lists of any lengths and whatever
  wraps; for non-negative quantities whose scaled sum fits it lies between \<open>-10000\<close> and \<open>10000\<close> and has the sign of the difference.
\<close>

lemma obi_correct:
  assumes "list_all (\<lambda>q. 0 \<le> q) bids" and "list_all (\<lambda>q. 0 \<le> q) asks" and "(sum_list bids + sum_list asks) * 10000 < 2 ^ 63"
  shows "obi_unrolled 0 0 xs ys = (i64 (sum_list xs + sum_list ys), i64 (sum_list xs - sum_list ys))
    \<and> orderbook_imbalance_int64 bids asks = (sum_list bids - sum_list asks) * 10000 sdiv (sum_list bids + sum_list asks)
    \<and> \<bar>orderbook_imbalance_int64 bids asks\<bar> \<le> 10000
    \<and> (sum_list asks \<le> sum_list bids \<longrightarrow> 0 \<le> orderbook_imbalance_int64 bids asks)
    \<and> (sum_list bids \<le> sum_list asks \<longrightarrow> orderbook_imbalance_int64 bids asks \<le> 0)"
proof -
  let ?b = "sum_list bids" and ?a = "sum_list asks"
  have u: "obi_unrolled 0 0 xs ys = (i64 (sum_list xs + sum_list ys), i64 (sum_list xs - sum_list ys))" for xs ys
    using obi_unrolled_sums [of 0 0 xs ys] by (simp add: in_i64_def)
  have s: "0 \<le> ?b" "0 \<le> ?a" using assms(1,2) by (auto simp: list_all_iff intro: sum_list_nonneg)
  then have i: "in_i64 (?b + ?a)" "in_i64 (?b - ?a)" "in_i64 ((?b - ?a) * 10000)" using assms(3) by (auto simp: in_i64_def)
  have o: "orderbook_imbalance_int64 bids asks = (?b - ?a) * 10000 sdiv (?b + ?a)"
    using s i by (cases "?b + ?a = 0") (simp_all add: orderbook_imbalance_int64_def u signed_divide_int_def)
  show ?thesis
  proof (cases "?b + ?a = 0")
    case True
    then show ?thesis using u s o by (simp add: signed_divide_int_def)
  next
    case False
    then have p: "0 < ?b + ?a" using s by simp
    have "\<bar>(?b - ?a) * 10000\<bar> \<le> 10000 * (?b + ?a)" using s by (simp add: abs_mult)
    then show ?thesis using u o sdiv_abs_le [OF p] sdiv_sign [OF p, of "(?b - ?a) * 10000"] by auto
  qed
qed

definition demo_trade :: "Side \<Rightarrow> int64 \<Rightarrow> int64 \<Rightarrow> fe_op" where
  "demo_trade sd p q = FE_Trade \<lparr>md_type = kTrade, md_order_id = 0, md_ticker_id = ''BTCUSDC'', md_side = sd, md_price = p, md_qty = q\<rparr>
     \<lparr>bid_price = 99, ask_price = 101, bid_qty = 10, ask_qty = 10\<rparr>"

theorem vwap_correct_witness:
  "\<exists>fe. fe_run [demo_trade kBuy 500 7, demo_trade kSell 100 2, demo_trade kBuy 103 1] (FeatureEngine_new 2) = Some fe
     \<and> fe_vwap_raw fe = 101 \<and> ti_price_raw (get_trade fe 2) = 500"
  using vwap_correct [of 1 "[demo_trade kBuy 500 7, demo_trade kSell 100 2, demo_trade kBuy 103 1]" 100 500]
  by (auto simp: demo_trade_def last_n_def notional_def trade_info_def)

text \<open>
  A ring whose size is not a power of two: the mask selects only some slots, and the first trades on a slot are overwritten
  without being taken off the accumulators, so the VWAP is not an average of the last trades.
\<close>

lemma vwap_odd_ring:
  "map_option fe_vwap_raw (fe_run [demo_trade kBuy 1000 1, demo_trade kBuy 100 1, demo_trade kBuy 100 1, demo_trade kBuy 100 1,
     demo_trade kBuy 100 1, demo_trade kBuy 100 1] (FeatureEngine_new 3)) = Some 400"
  by code_simp

end
