(* ===== verification/Mean_Reversion_Signals.thy ===== *)
theory Mean_Reversion_Signals
  imports Robust_Zscore Wall_Detector Feature_Engine
begin

text \<open>
  The signals of the mean-reversion strategy (\<^verbatim>\<open>strategy/mean_reversion_maker/mean_reversion_maker.h\<close>): the two phase machines, entry and
  exit scores and the adverse-selection tracker. The configuration records hold the fields the code reads. The three z-score
  thresholds are the members \<^verbatim>\<open>zscore_fast/mid/slow_threshold_\<close>, as a \<open>ZScores\<close> triple.
\<close>

datatype MarketPhase = Ph_kNeutral | Ph_kBuilding | Ph_kDeep | Ph_kWeak | Ph_kVeryWeak

record PhaseState =
  ps_long_phase :: MarketPhase
  ps_short_phase :: MarketPhase
  ps_peak_z :: int64
  ps_phase_entry_time :: u64

record ZScores =
  z_fast :: int64
  z_mid :: int64
  z_slow :: int64

record EntryConfig =
  en_obi_threshold :: int64
  en_obi_levels :: int
  en_position_size_raw :: int64
  en_safety_margin_entry_bps :: int64
  en_min_signal_quality :: int64
  en_wall_weight :: int64
  en_obi_weight :: int64
  en_wall_norm_multiplier :: int64
  en_obi_norm_min :: int64
  en_obi_norm_max :: int64
  en_defense_max_price_slippage_raw :: int64

record ExitConfig =
  ex_wall_amount_decay_ratio :: int64
  ex_wall_distance_expand_ratio :: int64
  ex_max_loss_bps :: int64
  ex_max_hold_time_ns :: u64
  ex_obi_exit_threshold :: int64
  ex_min_exit_quality :: int64
  ex_obi_reversal_weight :: int64
  ex_wall_decay_weight :: int64
  ex_time_weight :: int64
  ex_soft_time_ratio :: int64

record AdverseSelectionConfig =
  ac_max_fill_history :: int
  ac_measurement_window_ns :: u64
  ac_measurement_tolerance_ns :: u64
  ac_adverse_threshold_bps :: int64
  ac_min_samples :: int
  ac_ratio_threshold :: int64
  ac_margin_multiplier :: int64

record MeanReversionConfig =
  mr_min_reversal_bounce :: int64
  mr_building_multiplier :: int64
  mr_deep_multiplier :: int64
  mr_reversal_weak_multiplier :: int64
  mr_false_reversal_ratio :: int64

subsection \<open>Entry and exit scores\<close>

record SignalScore =
  sg_wall_strength :: int64
  sg_obi_strength :: int64

definition signal_composite :: "EntryConfig \<Rightarrow> SignalScore \<Rightarrow> int64" where
  "signal_composite cfg s = i64 (i64 (en_wall_weight cfg * sg_wall_strength s) + i64 (en_obi_weight cfg * sg_obi_strength s)) sdiv kSignalScale"

record ExitScore =
  xs_obi_reversal_strength :: int64
  xs_wall_decay_strength :: int64
  xs_time_pressure :: int64

definition exit_composite :: "ExitConfig \<Rightarrow> ExitScore \<Rightarrow> int64" where
  "exit_composite cfg s =
     i64 (i64 (i64 (ex_obi_reversal_weight cfg * xs_obi_reversal_strength s) + i64 (ex_wall_decay_weight cfg * xs_wall_decay_strength s))
          + i64 (ex_time_weight cfg * xs_time_pressure s)) sdiv kSignalScale"

text \<open>The long and the short entry score have the same body; \<open>min_quantity\<close> is that of the dynamic threshold.\<close>

definition calculate_signal_score :: "int64 \<Rightarrow> EntryConfig \<Rightarrow> int64 \<Rightarrow> WallInfo \<Rightarrow> int64 \<Rightarrow> int64 \<Rightarrow> SignalScore option" where
  "calculate_signal_score qty_scale cfg min_quantity wall obi mid_price = do {
     min_notional \<leftarrow> cdiv (i64 (min_quantity * mid_price)) qty_scale;
     let wall_target = i64 (min_notional * en_wall_norm_multiplier cfg) sdiv kSignalScale;
         wall_strength = (if wall_target > 0
           then clamp (i64 (wi_accumulated_notional wall * kSignalScale) sdiv wall_target) 0 kSignalScale else 0);
         obi_abs = i64 \<bar>obi\<bar>;
         obi_range = i64 (en_obi_norm_max cfg - en_obi_norm_min cfg);
         obi_strength = (if obi_range > 0
           then clamp (i64 (i64 (en_obi_norm_max cfg - obi_abs) * kSignalScale) sdiv obi_range) 0 kSignalScale else 0)
     in Some \<lparr>sg_wall_strength = wall_strength, sg_obi_strength = obi_strength\<rparr>
   }"

definition calculate_obi_reversal_strength :: "int64 \<Rightarrow> int64 \<Rightarrow> bool \<Rightarrow> int64" where
  "calculate_obi_reversal_strength current_obi exit_threshold is_long =
     (let reversal_condition = (if is_long then current_obi < i64 (- exit_threshold) else current_obi > exit_threshold);
          obi_excess = (if is_long then i64 (i64 \<bar>current_obi\<bar> - exit_threshold) else i64 (current_obi - exit_threshold));
          obi_max_range = i64 (kObiScale - exit_threshold)
      in if \<not> reversal_condition \<or> obi_excess \<le> 0 \<or> obi_max_range \<le> 0 then 0
         else clamp (i64 (obi_excess * kSignalScale) sdiv obi_max_range) 0 kSignalScale)"

definition calculate_wall_decay_strength :: "ExitConfig \<Rightarrow> WallInfo \<Rightarrow> WallInfo \<Rightarrow> int64" where
  "calculate_wall_decay_strength cfg current entry =
     (if wi_accumulated_notional entry \<le> 0 then 0
      else
        let wall_ratio = i64 (wi_accumulated_notional current * kSignalScale) sdiv wi_accumulated_notional entry;
            decay_range = ex_wall_amount_decay_ratio cfg;
            strength = (if wall_ratio < ex_wall_amount_decay_ratio cfg \<and> decay_range > 0
              then clamp (i64 (i64 (ex_wall_amount_decay_ratio cfg - wall_ratio) * kSignalScale) sdiv decay_range) 0 kSignalScale else 0)
        in if wi_distance_bps entry > 0
              \<and> i64 (wi_distance_bps current * kSignalScale) > i64 (wi_distance_bps entry * ex_wall_distance_expand_ratio cfg)
           then (let distance_ratio = i64 (wi_distance_bps current * kSignalScale) sdiv wi_distance_bps entry;
                     distance_excess = i64 (distance_ratio - ex_wall_distance_expand_ratio cfg);
                     distance_contribution = min (distance_excess sdiv 2) (kSignalScale sdiv 2)
                 in min (i64 (strength + distance_contribution)) kSignalScale)
           else strength)"

definition calculate_time_pressure :: "ExitConfig \<Rightarrow> u64 \<Rightarrow> int64" where
  "calculate_time_pressure cfg hold_time_ns =
     (if hold_time_ns = 0 then 0
      else
        let soft_time = (ex_max_hold_time_ns cfg * of_int (ex_soft_time_ratio cfg)) div 10000;
            pressure =
              (if hold_time_ns < soft_time then sint ((hold_time_ns * of_int (ex_soft_time_ratio cfg)) div soft_time)
               else let excess_time = hold_time_ns - soft_time; remaining_time = ex_max_hold_time_ns cfg - soft_time
                    in if remaining_time > 0
                       then i64 (ex_soft_time_ratio cfg + sint ((excess_time * of_int (kSignalScale - ex_soft_time_ratio cfg)) div remaining_time))
                       else 0)
        in clamp pressure 0 kSignalScale)"

definition calculate_exit_score :: "ExitConfig \<Rightarrow> bool \<Rightarrow> WallInfo \<Rightarrow> WallInfo \<Rightarrow> int64 \<Rightarrow> u64 \<Rightarrow> ExitScore" where
  "calculate_exit_score cfg is_long wall_info entry_wall_info current_obi hold_time_ns =
     \<lparr>xs_obi_reversal_strength = calculate_obi_reversal_strength current_obi (ex_obi_exit_threshold cfg) is_long,
      xs_wall_decay_strength = calculate_wall_decay_strength cfg wall_info entry_wall_info,
      xs_time_pressure = calculate_time_pressure cfg hold_time_ns\<rparr>"

subsection \<open>Adverse selection\<close>

record FillRecord =
  fr_fill_time :: u64
  fr_fill_price_raw :: int64
  fr_side :: Side
  fr_price_1s_later_raw :: int64
  fr_measured :: bool

record AdverseSelectionTracker =
  as_recent_fills :: "FillRecord list"
  as_adverse_count :: int
  as_total_measured :: int

definition adverse_on_fill :: "u64 \<Rightarrow> int64 \<Rightarrow> Side \<Rightarrow> int \<Rightarrow> AdverseSelectionTracker \<Rightarrow> AdverseSelectionTracker" where
  "adverse_on_fill time price_raw side max_history t =
     (let fills = as_recent_fills t @ [\<lparr>fr_fill_time = time, fr_fill_price_raw = price_raw, fr_side = side, fr_price_1s_later_raw = 0, fr_measured = False\<rparr>]
      in t\<lparr>as_recent_fills := (if int (length fills) > max_history then tl fills else fills)\<rparr>)"

fun adverse_measure ::
  "u64 \<Rightarrow> int64 \<Rightarrow> AdverseSelectionConfig \<Rightarrow> FillRecord list \<Rightarrow> int \<times> int \<Rightarrow> (FillRecord list \<times> int \<times> int) option" where
  "adverse_measure now price cfg [] counts = Some ([], counts)"
| "adverse_measure now price cfg (fill # fills) counts =
     (let elapsed = now - fr_fill_time fill
      in if \<not> fr_measured fill \<and> elapsed \<ge> ac_measurement_window_ns cfg - ac_measurement_tolerance_ns cfg
            \<and> elapsed < ac_measurement_window_ns cfg + ac_measurement_tolerance_ns cfg
         then do {
           let delta = i64 (price - fr_fill_price_raw fill);
           ret_bps \<leftarrow> cdiv (i64 (delta * kBpsScale)) (fr_fill_price_raw fill);
           let adverse = (fr_side fill = kBuy \<and> ret_bps < i64 (- ac_adverse_threshold_bps cfg)
                          \<or> fr_side fill = kSell \<and> ret_bps > ac_adverse_threshold_bps cfg);
           let counts' = (if adverse then i32 (fst counts + 1) else fst counts, i32 (snd counts + 1));
           (rest, counts'') \<leftarrow> adverse_measure now price cfg fills counts';
           Some (fill\<lparr>fr_price_1s_later_raw := price, fr_measured := True\<rparr> # rest, counts'')
         }
         else do { (rest, counts'') \<leftarrow> adverse_measure now price cfg fills counts; Some (fill # rest, counts'') })"

definition adverse_on_price_update :: "u64 \<Rightarrow> int64 \<Rightarrow> AdverseSelectionConfig \<Rightarrow> AdverseSelectionTracker \<Rightarrow> AdverseSelectionTracker option" where
  "adverse_on_price_update now price cfg t = do {
     (fills, counts) \<leftarrow> adverse_measure now price cfg (as_recent_fills t) (as_adverse_count t, as_total_measured t);
     Some (t\<lparr>as_recent_fills := fills, as_adverse_count := fst counts, as_total_measured := snd counts\<rparr>)
   }"

definition is_being_picked_off :: "AdverseSelectionConfig \<Rightarrow> AdverseSelectionTracker \<Rightarrow> bool option" where
  "is_being_picked_off cfg t = do {
     ratio \<leftarrow> (if as_total_measured t < ac_min_samples cfg then Some 0
               else cdiv (i64 (as_adverse_count t * kSignalScale)) (as_total_measured t));
     Some (ratio > ac_ratio_threshold cfg)
   }"

subsection \<open>Phases\<close>

definition scaled :: "int64 \<Rightarrow> int64 \<Rightarrow> int64" where
  "scaled threshold multiplier = i64 (threshold * multiplier) sdiv kSignalScale"

definition update_short_phase :: "MeanReversionConfig \<Rightarrow> ZScores \<Rightarrow> u64 \<Rightarrow> ZScores \<Rightarrow> int64 \<Rightarrow> PhaseState \<Rightarrow> PhaseState" where
  "update_short_phase cfg thr now z adaptive ps =
     (case ps_short_phase ps of
        Ph_kNeutral \<Rightarrow>
          if z_mid z < i64 (- scaled adaptive (mr_building_multiplier cfg))
          then ps\<lparr>ps_short_phase := Ph_kBuilding, ps_phase_entry_time := now\<rparr> else ps
      | Ph_kBuilding \<Rightarrow>
          if z_mid z < i64 (- scaled adaptive (mr_deep_multiplier cfg)) then ps\<lparr>ps_short_phase := Ph_kDeep, ps_peak_z := z_mid z\<rparr>
          else if z_mid z > i64 (- scaled adaptive (mr_building_multiplier cfg)) then ps\<lparr>ps_short_phase := Ph_kNeutral\<rparr> else ps
      | Ph_kDeep \<Rightarrow>
          (let ps1 = (if z_mid z < ps_peak_z ps then ps\<lparr>ps_peak_z := z_mid z\<rparr> else ps)
           in if z_mid z > i64 (- scaled adaptive (mr_reversal_weak_multiplier cfg)) then ps1\<lparr>ps_short_phase := Ph_kWeak\<rparr> else ps1)
      | Ph_kWeak \<Rightarrow>
          (let bounce = i64 (z_mid z - ps_peak_z ps); min_bounce = scaled (mr_min_reversal_bounce cfg) (mr_false_reversal_ratio cfg)
           in if bounce < min_bounce then ps\<lparr>ps_short_phase := Ph_kDeep\<rparr>
              else if z_fast z > i64 (- z_fast thr) \<and> z_mid z > i64 (- z_mid thr) \<and> z_slow z > i64 (- z_slow thr)
              then ps\<lparr>ps_short_phase := Ph_kVeryWeak\<rparr> else ps)
      | Ph_kVeryWeak \<Rightarrow>
          if z_mid z > i64 (- scaled adaptive (mr_building_multiplier cfg)) then ps\<lparr>ps_short_phase := Ph_kNeutral\<rparr> else ps)"

definition update_long_phase :: "MeanReversionConfig \<Rightarrow> ZScores \<Rightarrow> u64 \<Rightarrow> ZScores \<Rightarrow> int64 \<Rightarrow> PhaseState \<Rightarrow> PhaseState" where
  "update_long_phase cfg thr now z adaptive ps =
     (case ps_long_phase ps of
        Ph_kNeutral \<Rightarrow>
          if z_mid z > scaled adaptive (mr_building_multiplier cfg)
          then ps\<lparr>ps_long_phase := Ph_kBuilding, ps_phase_entry_time := now\<rparr> else ps
      | Ph_kBuilding \<Rightarrow>
          if z_mid z > scaled adaptive (mr_deep_multiplier cfg) then ps\<lparr>ps_long_phase := Ph_kDeep, ps_peak_z := z_mid z\<rparr>
          else if z_mid z < scaled adaptive (mr_building_multiplier cfg) then ps\<lparr>ps_long_phase := Ph_kNeutral\<rparr> else ps
      | Ph_kDeep \<Rightarrow>
          (let ps1 = (if z_mid z > ps_peak_z ps then ps\<lparr>ps_peak_z := z_mid z\<rparr> else ps)
           in if z_mid z < scaled adaptive (mr_reversal_weak_multiplier cfg) then ps1\<lparr>ps_long_phase := Ph_kWeak\<rparr> else ps1)
      | Ph_kWeak \<Rightarrow>
          (let bounce = i64 (ps_peak_z ps - z_mid z); min_bounce = scaled (mr_min_reversal_bounce cfg) (mr_false_reversal_ratio cfg)
           in if bounce < min_bounce then ps\<lparr>ps_long_phase := Ph_kDeep\<rparr>
              else if z_fast z < z_fast thr \<and> z_mid z < z_mid thr \<and> z_slow z < z_slow thr
              then ps\<lparr>ps_long_phase := Ph_kVeryWeak\<rparr> else ps)
      | Ph_kVeryWeak \<Rightarrow>
          if z_mid z < scaled adaptive (mr_building_multiplier cfg) then ps\<lparr>ps_long_phase := Ph_kNeutral\<rparr> else ps)"

subsection \<open>Lemmas: scores\<close>

lemma clamp_signal: "0 \<le> clamp v 0 10000" "clamp v 0 10000 \<le> 10000"
  by (simp_all add: clamp_def)

lemma weighted_score_between:
  fixes a b c x y z :: int
  assumes "0 \<le> a" "0 \<le> b" "0 \<le> c" "a + b + c \<le> 10000" "0 \<le> x" "x \<le> 10000" "0 \<le> y" "y \<le> 10000" "0 \<le> z" "z \<le> 10000"
  shows "0 \<le> a * x + b * y + c * z" "a * x + b * y + c * z \<le> 10000 * 10000"
    "a * x \<le> a * 10000" "b * y \<le> b * 10000" "c * z \<le> c * 10000"
proof -
  show "0 \<le> a * x + b * y + c * z" using assms by simp
  show m: "a * x \<le> a * 10000" "b * y \<le> b * 10000" "c * z \<le> c * 10000" using assms by (auto intro: mult_left_mono)
  then have "a * x + b * y + c * z \<le> (a + b + c) * 10000" by (simp add: distrib_right)
  also have "\<dots> \<le> 10000 * 10000" using assms(4) by (rule mult_right_mono) simp
  finally show "a * x + b * y + c * z \<le> 10000 * 10000" .
qed

lemma composite_of_nonneg:
  assumes "0 \<le> a" "0 \<le> b" "a + b \<le> 10000 * 10000"
  shows "i64 (i64 a + i64 b) sdiv 10000 = (a + b) div 10000" "i64 (i64 a + i64 b) = a + b"
proof -
  have "in_i64 a" "in_i64 b" "in_i64 (a + b)" using assms by (auto simp: in_i64_def)
  then show "i64 (i64 a + i64 b) sdiv 10000 = (a + b) div 10000" "i64 (i64 a + i64 b) = a + b" using assms by (simp_all add: sdiv_nonneg)
qed

definition distances_bounded :: "ExitConfig \<Rightarrow> WallInfo \<Rightarrow> WallInfo \<Rightarrow> bool" where
  "distances_bounded cfg cur en \<longleftrightarrow>
     0 \<le> wi_distance_bps cur \<and> wi_distance_bps cur * 10000 < 2 ^ 63 \<and> 0 \<le> ex_wall_distance_expand_ratio cfg
     \<and> wi_distance_bps en * ex_wall_distance_expand_ratio cfg < 2 ^ 63"

lemma wall_decay_strength_range:
  assumes "distances_bounded cfg cur en"
  shows "0 \<le> calculate_wall_decay_strength cfg cur en" "calculate_wall_decay_strength cfg cur en \<le> 10000"
proof -
  let ?c = "wi_distance_bps cur" and ?e = "wi_distance_bps en" and ?x = "ex_wall_distance_expand_ratio cfg"
  have c: "i64 (?c * 10000) = ?c * 10000" using assms by (auto simp: distances_bounded_def in_i64_def)
  have k: "0 \<le> min (i64 (i64 (?c * 10000) sdiv ?e - ?x) sdiv 2) (10000 sdiv 2) \<and> min (i64 (i64 (?c * 10000) sdiv ?e - ?x) sdiv 2) (10000 sdiv 2) \<le> 5000"
    if e: "0 < ?e" "i64 (?e * ?x) < i64 (?c * 10000)"
  proof -
    have "0 \<le> ?e * ?x" using assms e by (simp add: distances_bounded_def)
    then have "i64 (?e * ?x) = ?e * ?x" using assms by (intro i64_id in_i64_nonneg [OF _ order_refl]) (auto simp: distances_bounded_def)
    then have "?x * ?e \<le> ?c * 10000" using e c by (simp add: mult.commute)
    then have r: "?x \<le> ?c * 10000 div ?e" using e(1) by (simp add: pos_imp_zdiv_pos_iff zdiv_mono1 [of "?x * ?e" "?c * 10000" ?e, simplified])
    have "?c * 10000 div ?e \<le> ?c * 10000" using assms e zdiv_mono2 [of "?c * 10000" 1 ?e] by (simp add: distances_bounded_def)
    then have "in_i64 (?c * 10000 div ?e - ?x)" using r assms by (intro in_i64_nonneg [of _ "?c * 10000"]) (auto simp: distances_bounded_def)
    then show ?thesis using r c e assms by (simp add: sdiv_nonneg distances_bounded_def)
  qed
  define st where "st = (if i64 (wi_accumulated_notional cur * 10000) sdiv wi_accumulated_notional en < ex_wall_amount_decay_ratio cfg
      \<and> ex_wall_amount_decay_ratio cfg > 0
    then clamp (i64 (i64 (ex_wall_amount_decay_ratio cfg - i64 (wi_accumulated_notional cur * 10000) sdiv wi_accumulated_notional en) * 10000)
      sdiv ex_wall_amount_decay_ratio cfg) 0 10000 else 0)"
  define d where "d = min (i64 (i64 (?c * 10000) sdiv ?e - ?x) sdiv 2) (10000 sdiv 2)"
  have st: "0 \<le> st" "st \<le> 10000" using clamp_signal by (auto simp: st_def)
  have eq: "calculate_wall_decay_strength cfg cur en =
      (if wi_accumulated_notional en \<le> 0 then 0
       else if 0 < ?e \<and> i64 (?c * 10000) > i64 (?e * ?x) then min (i64 (st + d)) 10000 else st)"
    by (simp add: calculate_wall_decay_strength_def st_def d_def Let_def)
  have "0 \<le> min (i64 (st + d)) 10000 \<and> min (i64 (st + d)) 10000 \<le> 10000" if "0 < ?e" "i64 (?e * ?x) < i64 (?c * 10000)"
    using k [OF that] st unfolding d_def [symmetric] by (simp add: in_i64_def)
  then show "0 \<le> calculate_wall_decay_strength cfg cur en" "calculate_wall_decay_strength cfg cur en \<le> 10000"
    unfolding eq using st by auto
qed

lemma obi_reversal_strength_range:
  "0 \<le> calculate_obi_reversal_strength obi thr l" "calculate_obi_reversal_strength obi thr l \<le> 10000"
  by (simp_all add: calculate_obi_reversal_strength_def Let_def clamp_signal)

lemma time_pressure_range: "0 \<le> calculate_time_pressure cfg t" "calculate_time_pressure cfg t \<le> 10000"
  by (simp_all add: calculate_time_pressure_def Let_def clamp_signal)

lemma signal_score_range:
  assumes "calculate_signal_score qs cfg mq wall obi mid = Some s"
  shows "0 \<le> sg_wall_strength s" "sg_wall_strength s \<le> 10000" "0 \<le> sg_obi_strength s" "sg_obi_strength s \<le> 10000"
  using assms by (auto simp: calculate_signal_score_def Let_def bind_eq_Some_conv clamp_signal)

text \<open>
  The scores are normalised: with non-negative weights that sum to at most 10000, the composite exit score of any imbalance, walls
  with bounded distances and holding time, the composite entry score and the wall quality all lie in \<open>0..10000\<close>; the
  time pressure, the imbalance reversal and the quality do so for every input, overflow included.
\<close>

lemma scores_normalised:
  assumes "distances_bounded cfg cur en" and "0 \<le> ex_obi_reversal_weight cfg" and "0 \<le> ex_wall_decay_weight cfg" and "0 \<le> ex_time_weight cfg"
    and "ex_obi_reversal_weight cfg + ex_wall_decay_weight cfg + ex_time_weight cfg \<le> 10000"
    and "0 \<le> en_wall_weight ecfg" and "0 \<le> en_obi_weight ecfg" and "en_wall_weight ecfg + en_obi_weight ecfg \<le> 10000"
    and "calculate_signal_score qs ecfg mq wall obi mid = Some sig"
  shows "exit_composite cfg (calculate_exit_score cfg is_long cur en obi hold) \<in> {0..10000} \<and> signal_composite ecfg sig \<in> {0..10000}
    \<and> composite_quality tracker \<in> {0..10000} \<and> calculate_time_pressure any_cfg any_time \<in> {0..10000}
    \<and> calculate_obi_reversal_strength any_obi any_thr is_long \<in> {0..10000}"
proof -
  let ?s = "calculate_exit_score cfg is_long cur en obi hold"
  note r = obi_reversal_strength_range [of obi "ex_obi_exit_threshold cfg" is_long] wall_decay_strength_range [OF assms(1)]
    time_pressure_range [of cfg hold]
  note w = weighted_score_between [OF assms(2-5) r]
  have "exit_composite cfg ?s = (ex_obi_reversal_weight cfg * xs_obi_reversal_strength ?s + ex_wall_decay_weight cfg * xs_wall_decay_strength ?s
      + ex_time_weight cfg * xs_time_pressure ?s) div 10000"
    using w r assms(2-5) mult_nonneg_nonneg [OF assms(2) r(1)] mult_nonneg_nonneg [OF assms(3) r(3)] mult_nonneg_nonneg [OF assms(4) r(5)]
    by (simp add: exit_composite_def calculate_exit_score_def in_i64_def sdiv_nonneg)
  then have e: "exit_composite cfg ?s \<in> {0..10000}" using w(1,2) div_between [of 10000 0 _ 10000] by (simp add: calculate_exit_score_def)
  note g = signal_score_range [OF assms(9)]
  let ?v = "en_wall_weight ecfg * sg_wall_strength sig + en_obi_weight ecfg * sg_obi_strength sig"
  have v: "0 \<le> ?v" "?v \<le> 10000 * 10000"
    using weighted_score_between [of "en_wall_weight ecfg" "en_obi_weight ecfg" 0 "sg_wall_strength sig" "sg_obi_strength sig" 0] assms(6-8) g by simp_all
  have "signal_composite ecfg sig = (en_wall_weight ecfg * sg_wall_strength sig + en_obi_weight ecfg * sg_obi_strength sig) div 10000"
    unfolding signal_composite_def using mult_nonneg_nonneg [OF assms(6) g(1)] mult_nonneg_nonneg [OF assms(7) g(3)] v(2)
    by (rule composite_of_nonneg)
  then have "signal_composite ecfg sig \<in> {0..10000}" using v(1,2) div_between [of 10000 0 _ 10000] by simp
  then show ?thesis
    using e composite_quality_range [of tracker] time_pressure_range [of any_cfg any_time] obi_reversal_strength_range [of any_obi any_thr is_long] by simp
qed

definition demo_entry_cfg :: EntryConfig where
  "demo_entry_cfg = \<lparr>en_obi_threshold = 2500, en_obi_levels = 5, en_position_size_raw = 10, en_safety_margin_entry_bps = 5,
     en_min_signal_quality = 6500, en_wall_weight = 6000, en_obi_weight = 4000, en_wall_norm_multiplier = 30000,
     en_obi_norm_min = 0, en_obi_norm_max = 1500, en_defense_max_price_slippage_raw = 500\<rparr>"

definition demo_exit_cfg :: ExitConfig where
  "demo_exit_cfg = \<lparr>ex_wall_amount_decay_ratio = 5000, ex_wall_distance_expand_ratio = 12000, ex_max_loss_bps = 20,
     ex_max_hold_time_ns = 30000000000, ex_obi_exit_threshold = 5000, ex_min_exit_quality = 6500, ex_obi_reversal_weight = 5000,
     ex_wall_decay_weight = 3000, ex_time_weight = 2000, ex_soft_time_ratio = 5000\<rparr>"

definition demo_mr_cfg :: MeanReversionConfig where
  "demo_mr_cfg = \<lparr>mr_min_reversal_bounce = 2000, mr_building_multiplier = 10000, mr_deep_multiplier = 12000,
     mr_reversal_weak_multiplier = 8000, mr_false_reversal_ratio = 5000\<rparr>"

definition demo_wall :: "int64 \<Rightarrow> int64 \<Rightarrow> WallInfo" where
  "demo_wall n d = \<lparr>wi_accumulated_notional = n, wi_distance_bps = d, wi_levels_checked = 3, wi_is_valid = True\<rparr>"

subsection \<open>Phase sequences\<close>

type_synonym phase_sample = "u64 \<times> ZScores \<times> int64"

text \<open>One tick of both machines; a machine in the last phase is reset, as \<^verbatim>\<open>on_trade_updated\<close> does after the entry attempt.\<close>

definition update_phases :: "MeanReversionConfig \<Rightarrow> ZScores \<Rightarrow> phase_sample \<Rightarrow> PhaseState \<Rightarrow> PhaseState" where
  "update_phases cfg thr x ps = (case x of (now, z, adaptive) \<Rightarrow> update_long_phase cfg thr now z adaptive (update_short_phase cfg thr now z adaptive ps))"

definition reset_phases :: "PhaseState \<Rightarrow> PhaseState" where
  "reset_phases ps =
     (let ps1 = (if ps_short_phase ps = Ph_kVeryWeak then ps\<lparr>ps_short_phase := Ph_kNeutral\<rparr> else ps)
      in if ps_long_phase ps1 = Ph_kVeryWeak then ps1\<lparr>ps_long_phase := Ph_kNeutral\<rparr> else ps1)"

definition phase_ticks :: "MeanReversionConfig \<Rightarrow> ZScores \<Rightarrow> phase_sample list \<Rightarrow> PhaseState \<Rightarrow> PhaseState" where
  "phase_ticks cfg thr xs ps = foldl (\<lambda>ps x. reset_phases (update_phases cfg thr x ps)) ps xs"

text \<open>What a sample shows: building or extreme pressure, weakening pressure, and its end, for each direction.\<close>

definition oversold :: "int64 \<Rightarrow> phase_sample \<Rightarrow> bool" where
  "oversold m x \<longleftrightarrow> (case x of (now, z, adaptive) \<Rightarrow> z_mid z < i64 (- scaled adaptive m))"

definition oversold_weak :: "int64 \<Rightarrow> phase_sample \<Rightarrow> bool" where
  "oversold_weak m x \<longleftrightarrow> (case x of (now, z, adaptive) \<Rightarrow> z_mid z > i64 (- scaled adaptive m))"

definition oversold_over :: "ZScores \<Rightarrow> phase_sample \<Rightarrow> bool" where
  "oversold_over thr x \<longleftrightarrow> (case x of (now, z, adaptive) \<Rightarrow>
     z_fast z > i64 (- z_fast thr) \<and> z_mid z > i64 (- z_mid thr) \<and> z_slow z > i64 (- z_slow thr))"

definition overbought :: "int64 \<Rightarrow> phase_sample \<Rightarrow> bool" where
  "overbought m x \<longleftrightarrow> (case x of (now, z, adaptive) \<Rightarrow> z_mid z > scaled adaptive m)"

definition overbought_weak :: "int64 \<Rightarrow> phase_sample \<Rightarrow> bool" where
  "overbought_weak m x \<longleftrightarrow> (case x of (now, z, adaptive) \<Rightarrow> z_mid z < scaled adaptive m)"

definition overbought_over :: "ZScores \<Rightarrow> phase_sample \<Rightarrow> bool" where
  "overbought_over thr x \<longleftrightarrow> (case x of (now, z, adaptive) \<Rightarrow> z_fast z < z_fast thr \<and> z_mid z < z_mid thr \<and> z_slow z < z_slow thr)"

text \<open>The list has elements satisfying the predicates, one after the other.\<close>

fun staged :: "('a \<Rightarrow> bool) list \<Rightarrow> 'a list \<Rightarrow> bool" where
  "staged [] xs \<longleftrightarrow> True"
| "staged (P # Ps) [] \<longleftrightarrow> False"
| "staged (P # Ps) (x # xs) \<longleftrightarrow> P x \<and> staged Ps xs \<or> staged (P # Ps) xs"

lemma staged_append: "staged Ps xs \<Longrightarrow> staged Ps (xs @ ys)"
  by (induction Ps xs rule: staged.induct) auto

lemma staged_snoc: "staged Ps xs \<Longrightarrow> P x \<Longrightarrow> staged (Ps @ [P]) (xs @ [x])"
proof (induction Ps xs rule: staged.induct)
  case (1 xs)
  then show ?case by (induction xs) auto
qed auto

lemma staged_butlast: "staged (Ps @ [P]) xs \<Longrightarrow> staged Ps xs"
  by (induction Ps xs rule: staged.induct) auto

definition phase_stages :: "(int64 \<Rightarrow> 'a \<Rightarrow> bool) \<Rightarrow> (int64 \<Rightarrow> 'a \<Rightarrow> bool) \<Rightarrow> MeanReversionConfig \<Rightarrow> MarketPhase \<Rightarrow> ('a \<Rightarrow> bool) list" where
  "phase_stages extreme weak cfg ph =
     (case ph of Ph_kNeutral \<Rightarrow> []
      | Ph_kBuilding \<Rightarrow> [extreme (mr_building_multiplier cfg)]
      | Ph_kDeep \<Rightarrow> [extreme (mr_building_multiplier cfg), extreme (mr_deep_multiplier cfg)]
      | _ \<Rightarrow> [extreme (mr_building_multiplier cfg), extreme (mr_deep_multiplier cfg), weak (mr_reversal_weak_multiplier cfg)])"

lemma phase_stages_extend:
  assumes "staged (phase_stages e w cfg ph) xs"
  shows "staged (phase_stages e w cfg ph) (xs @ [x])" "staged (phase_stages e w cfg Ph_kNeutral) (xs @ [x])"
    "ph = Ph_kNeutral \<Longrightarrow> e (mr_building_multiplier cfg) x \<Longrightarrow> staged (phase_stages e w cfg Ph_kBuilding) (xs @ [x])"
    "ph = Ph_kBuilding \<Longrightarrow> e (mr_deep_multiplier cfg) x \<Longrightarrow> staged (phase_stages e w cfg Ph_kDeep) (xs @ [x])"
    "ph = Ph_kDeep \<Longrightarrow> w (mr_reversal_weak_multiplier cfg) x \<Longrightarrow> staged (phase_stages e w cfg Ph_kWeak) (xs @ [x])"
    "ph = Ph_kWeak \<Longrightarrow> staged (phase_stages e w cfg Ph_kDeep) (xs @ [x])"
    "ph = Ph_kWeak \<Longrightarrow> staged (phase_stages e w cfg Ph_kVeryWeak) (xs @ [x])"
  using staged_append [OF assms, of "[x]"] staged_snoc [OF assms, of _ x]
    staged_butlast [of "[e (mr_building_multiplier cfg), e (mr_deep_multiplier cfg)]" "w (mr_reversal_weak_multiplier cfg)" "xs @ [x]"]
  by (auto simp: phase_stages_def)

lemma long_phase_keeps_short [simp]: "ps_short_phase (update_long_phase cfg thr now z ad ps) = ps_short_phase ps"
  by (simp add: update_long_phase_def Let_def split: MarketPhase.splits)

lemma short_phase_keeps_long [simp]: "ps_long_phase (update_short_phase cfg thr now z ad ps) = ps_long_phase ps"
  by (simp add: update_short_phase_def Let_def split: MarketPhase.splits)

lemma reset_phases_simps [simp]:
  "ps_short_phase (reset_phases ps) = (if ps_short_phase ps = Ph_kVeryWeak then Ph_kNeutral else ps_short_phase ps)"
  "ps_long_phase (reset_phases ps) = (if ps_long_phase ps = Ph_kVeryWeak then Ph_kNeutral else ps_long_phase ps)"
  by (simp_all add: reset_phases_def Let_def)

lemma short_update_staged:
  assumes "staged (phase_stages oversold oversold_weak cfg (ps_short_phase ps)) xs"
  shows "staged (phase_stages oversold oversold_weak cfg (ps_short_phase (update_phases cfg thr x ps))) (xs @ [x])"
  using phase_stages_extend [OF assms, of x] assms
  by (cases x) (auto simp: update_phases_def update_short_phase_def oversold_def oversold_weak_def Let_def split: MarketPhase.splits if_splits)

lemma long_update_staged:
  assumes "staged (phase_stages overbought overbought_weak cfg (ps_long_phase ps)) xs"
  shows "staged (phase_stages overbought overbought_weak cfg (ps_long_phase (update_phases cfg thr x ps))) (xs @ [x])"
  using phase_stages_extend [OF assms, of x] assms
  by (cases x) (auto simp: update_phases_def update_long_phase_def overbought_def overbought_weak_def Let_def split: MarketPhase.splits if_splits)

lemma phase_ticks_snoc [simp]: "phase_ticks cfg thr (xs @ [x]) ps = reset_phases (update_phases cfg thr x (phase_ticks cfg thr xs ps))"
  by (simp add: phase_ticks_def)

lemma phase_ticks_staged:
  assumes "ps_short_phase ps = Ph_kNeutral" "ps_long_phase ps = Ph_kNeutral"
  shows "staged (phase_stages oversold oversold_weak cfg (ps_short_phase (phase_ticks cfg thr xs ps))) xs
    \<and> staged (phase_stages overbought overbought_weak cfg (ps_long_phase (phase_ticks cfg thr xs ps))) xs
    \<and> ps_short_phase (phase_ticks cfg thr xs ps) \<noteq> Ph_kVeryWeak \<and> ps_long_phase (phase_ticks cfg thr xs ps) \<noteq> Ph_kVeryWeak"
proof (induction xs rule: rev_induct)
  case Nil
  then show ?case using assms by (simp add: phase_ticks_def phase_stages_def)
next
  case (snoc x xs)
  show ?case using short_update_staged [OF conjunct1 [OF snoc], of thr x] long_update_staged [OF conjunct1 [OF conjunct2 [OF snoc]], of thr x]
    by (auto simp: phase_stages_def)
qed

lemma short_signal_sample:
  "ps_short_phase (update_phases cfg thr x ps) = Ph_kVeryWeak \<Longrightarrow> ps_short_phase ps \<noteq> Ph_kVeryWeak \<Longrightarrow>
    ps_short_phase ps = Ph_kWeak \<and> oversold_over thr x"
  by (cases x) (auto simp: update_phases_def update_short_phase_def oversold_over_def Let_def split: MarketPhase.splits if_splits)

lemma long_signal_sample:
  "ps_long_phase (update_phases cfg thr x ps) = Ph_kVeryWeak \<Longrightarrow> ps_long_phase ps \<noteq> Ph_kVeryWeak \<Longrightarrow>
    ps_long_phase ps = Ph_kWeak \<and> overbought_over thr x"
  by (cases x) (auto simp: update_phases_def update_long_phase_def overbought_over_def Let_def split: MarketPhase.splits if_splits)

text \<open>
  C10. No entry signal without a full excursion: started neutral, the machine that arms a long entry reaches its last phase on
  a sample only if earlier samples crossed, in this order, the building threshold, the deep threshold and back over the weak
  threshold, and on this very sample all three z-scores are back inside their thresholds. The mirrored statement holds for short
  entries. Both machines run on the same samples with resets, shared peak included.
\<close>

theorem entry_signal_after_excursion:
  assumes "ps_short_phase ps = Ph_kNeutral" and "ps_long_phase ps = Ph_kNeutral"
    and "ps' = update_phases cfg thr x (phase_ticks cfg thr xs ps)"
  shows "(ps_short_phase ps' = Ph_kVeryWeak \<longrightarrow>
      staged [oversold (mr_building_multiplier cfg), oversold (mr_deep_multiplier cfg), oversold_weak (mr_reversal_weak_multiplier cfg)] xs
      \<and> oversold_over thr x)
    \<and> (ps_long_phase ps' = Ph_kVeryWeak \<longrightarrow>
      staged [overbought (mr_building_multiplier cfg), overbought (mr_deep_multiplier cfg), overbought_weak (mr_reversal_weak_multiplier cfg)] xs
      \<and> overbought_over thr x)"
  using phase_ticks_staged [OF assms(1,2), of cfg thr xs] short_signal_sample [of cfg thr x "phase_ticks cfg thr xs ps"]
    long_signal_sample [of cfg thr x "phase_ticks cfg thr xs ps"]
  by (auto simp: assms(3) phase_stages_def)

definition demo_samples :: "phase_sample list" where
  "demo_samples = map (\<lambda>z. (1, \<lparr>z_fast = z, z_mid = z, z_slow = z\<rparr>, 20000)) [- 21000, - 30000, - 15000]"

definition demo_phase :: PhaseState where
  "demo_phase = \<lparr>ps_long_phase = Ph_kNeutral, ps_short_phase = Ph_kNeutral, ps_peak_z = 0, ps_phase_entry_time = 0\<rparr>"

lemmas demo_eval = demo_samples_def demo_phase_def demo_mr_cfg_def phase_ticks_def update_phases_def update_short_phase_def
  update_long_phase_def reset_phases_def scaled_def sdiv_nonneg in_i64_def

theorem entry_signal_after_excursion_witness:
  "ps_short_phase (update_phases demo_mr_cfg \<lparr>z_fast = 20000, z_mid = 20000, z_slow = 20000\<rparr> (2, \<lparr>z_fast = 0, z_mid = 0, z_slow = 0\<rparr>, 20000)
      (phase_ticks demo_mr_cfg \<lparr>z_fast = 20000, z_mid = 20000, z_slow = 20000\<rparr> demo_samples demo_phase)) = Ph_kVeryWeak
   \<and> staged [oversold 10000, oversold 12000, oversold_weak 8000] demo_samples"
proof -
  have "ps_short_phase (update_phases demo_mr_cfg \<lparr>z_fast = 20000, z_mid = 20000, z_slow = 20000\<rparr> (2, \<lparr>z_fast = 0, z_mid = 0, z_slow = 0\<rparr>, 20000)
      (phase_ticks demo_mr_cfg \<lparr>z_fast = 20000, z_mid = 20000, z_slow = 20000\<rparr> demo_samples demo_phase)) = Ph_kVeryWeak"
    by (simp add: demo_eval)
  then show ?thesis using entry_signal_after_excursion [OF _ _ refl, of demo_phase demo_mr_cfg "\<lparr>z_fast = 20000, z_mid = 20000, z_slow = 20000\<rparr>"
        "(2, \<lparr>z_fast = 0, z_mid = 0, z_slow = 0\<rparr>, 20000)" demo_samples]
    by (simp add: demo_phase_def demo_mr_cfg_def)
qed

text \<open>
  The two machines share \<^verbatim>\<open>peak_z\<close>: a machine that waits in its weak phase for the slow z-score while the market swings to the other
  extreme measures its bounce from the other machine's peak and falls back to deep on the very sample on which, run alone, it
  gives its signal.
\<close>

definition swing_samples :: "phase_sample list" where
  "swing_samples = map (\<lambda>(m, s). (1, \<lparr>z_fast = m, z_mid = m, z_slow = s\<rparr>, 20000))
     [(- 21000, - 21000), (- 30000, - 21000), (- 15000, - 21000), (21000, - 21000), (25000, - 21000), (24000, 0)]"

lemma shared_peak_loses_signal:
  "ps_short_phase (foldl (\<lambda>ps (now, z, ad). update_short_phase demo_mr_cfg \<lparr>z_fast = 10000, z_mid = 10000, z_slow = 10000\<rparr> now z ad ps)
     demo_phase swing_samples) = Ph_kVeryWeak
   \<and> ps_short_phase (foldl (\<lambda>ps x. update_phases demo_mr_cfg \<lparr>z_fast = 10000, z_mid = 10000, z_slow = 10000\<rparr> x ps)
     demo_phase swing_samples) = Ph_kDeep"
  by (simp add: demo_eval swing_samples_def)

end
