(* ===== verification/Mean_Reversion.thy ===== *)
theory Mean_Reversion
  imports Mean_Reversion_Signals Quote_Reconciler Position_Keeper Bucket_Peek
begin

text \<open>
  The mean-reversion strategy (\<^verbatim>\<open>strategy/mean_reversion_maker/mean_reversion_maker.h\<close>): its state, entries, exits and the three
  callbacks of the trade engine. The order manager is an argument \<open>ap\<close> with state \<open>'m\<close> (\<open>om_apply\<close> has this type); the order book is
  the view the strategy takes of it; a callback reads the clock once; the average fill price, a double, is passed scaled to an
  integer as the code scales it; the position keeper's entry of the ticker is the argument of the report callback. \<open>None\<close> is a division
  by zero, an access outside a buffer or a fault of the order manager. Log output is left out.
\<close>

datatype PositionStatus = Pos_kNone | Pos_kPending | Pos_kActive

record PositionState =
  po_qty :: int64
  po_entry_price :: int64
  po_entry_wall_info :: WallInfo
  po_status :: PositionStatus
  po_state_time :: u64
  po_pending_order_id :: "order_id option"

record StrategyConfig =
  sc_position_side :: bool
  sc_qty_scale :: int64
  sc_defense_qty_multiplier :: int64
  sc_zscore_threshold :: ZScores
  sc_wall_max_distance_bps :: int64
  sc_wall_max_levels :: int
  sc_exit_cfg :: ExitConfig
  sc_mean_reversion_cfg :: MeanReversionConfig
  sc_adverse_selection_cfg :: AdverseSelectionConfig
  sc_fast :: RobustZScoreConfig
  sc_mid :: RobustZScoreConfig
  sc_slow :: RobustZScoreConfig
  sc_orderbook_top_levels :: int
  sc_original_safety_margin_bps :: int64

record MeanReversionMaker =
  mm_ticker :: string
  mm_entry_cfg :: EntryConfig
  mm_bid_wall_info :: WallInfo
  mm_ask_wall_info :: WallInfo
  mm_bid_wall_tracker :: WallTracker
  mm_ask_wall_tracker :: WallTracker
  mm_long_position :: PositionState
  mm_short_position :: PositionState
  mm_prev_bbo :: BBO
  mm_bid_qty :: "int64 list"
  mm_ask_qty :: "int64 list"
  mm_current_wall_threshold_raw :: int64
  mm_dynamic_threshold :: DynamicWallThreshold
  mm_zscore_fast :: RobustZScore
  mm_zscore_mid :: RobustZScore
  mm_zscore_slow :: RobustZScore
  mm_adverse_selection_tracker :: AdverseSelectionTracker
  mm_phase_state :: PhaseState
  mm_last_orderbook_check_time :: u64

definition PositionState_new :: PositionState where
  "PositionState_new = \<lparr>po_qty = 0, po_entry_price = 0, po_entry_wall_info = WallInfo_new, po_status = Pos_kNone, po_state_time = 0,
     po_pending_order_id = None\<rparr>"

definition MeanReversionMaker_new :: "EntryConfig \<Rightarrow> DynamicWallThreshold \<Rightarrow> MeanReversionMaker" where
  "MeanReversionMaker_new entry_cfg dynamic_threshold =
     \<lparr>mm_ticker = [], mm_entry_cfg = entry_cfg, mm_bid_wall_info = WallInfo_new, mm_ask_wall_info = WallInfo_new,
      mm_bid_wall_tracker = WallTracker_new, mm_ask_wall_tracker = WallTracker_new,
      mm_long_position = PositionState_new, mm_short_position = PositionState_new, mm_prev_bbo = BBO_default,
      mm_bid_qty = replicate (size_of_int (en_obi_levels entry_cfg)) 0, mm_ask_qty = replicate (size_of_int (en_obi_levels entry_cfg)) 0,
      mm_current_wall_threshold_raw = 0, mm_dynamic_threshold = dynamic_threshold,
      mm_zscore_fast = RobustZScore_new, mm_zscore_mid = RobustZScore_new, mm_zscore_slow = RobustZScore_new,
      mm_adverse_selection_tracker = \<lparr>as_recent_fills = [], as_adverse_count = 0, as_total_measured = 0\<rparr>,
      mm_phase_state = \<lparr>ps_long_phase = Ph_kNeutral, ps_short_phase = Ph_kNeutral, ps_peak_z = 0, ps_phase_entry_time = 0\<rparr>,
      mm_last_orderbook_check_time = 0\<rparr>"

text \<open>What the strategy sees of an order book: the BBO, the lowest price and \<^verbatim>\<open>peek_qty\<close>, its count and the levels it wrote.\<close>

record book_view =
  bv_bbo :: BBO
  bv_min_price_int :: int
  bv_peek_qty :: "bool \<Rightarrow> int \<Rightarrow> nat \<Rightarrow> int \<times> (int64 \<times> nat) list"

definition bucket_view :: "bucket_book \<Rightarrow> book_view" where
  "bucket_view b =
     \<lparr>bv_bbo = bb_bbo b, bv_min_price_int = min_price_int (bb_config b),
      bv_peek_qty = (\<lambda>is_bid level n. fst (if is_bid then peek_qty SearchHighest (bb_bid b) level n else peek_qty SearchLowest (bb_ask b) level n))\<rparr>"

type_synonym 'm om_call = "QuoteIntent list \<Rightarrow> 'm \<Rightarrow> ('m \<times> order_id list) option"

subsection \<open>Filters\<close>

definition is_bbo_valid :: "BBO \<Rightarrow> bool" where
  "is_bbo_valid bbo \<longleftrightarrow> bid_qty bbo \<noteq> kInvalidValue \<and> ask_qty bbo \<noteq> kInvalidValue \<and> bid_price bbo \<noteq> kInvalidValue
     \<and> ask_price bbo \<noteq> kInvalidValue \<and> ask_price bbo \<ge> bid_price bbo"

definition validate_defense_realtime :: "StrategyConfig \<Rightarrow> EntryConfig \<Rightarrow> MarketData \<Rightarrow> BBO \<Rightarrow> BBO \<Rightarrow> Side \<Rightarrow> bool" where
  "validate_defense_realtime cfg entry_cfg trade prev_bbo current_bbo defense_side =
     (let max_price_move = en_defense_max_price_slippage_raw entry_cfg;
          required_qty = i64 (md_qty trade * sc_defense_qty_multiplier cfg) sdiv kSignalScale
      in if defense_side = kBuy
         then i64 (bid_price prev_bbo - bid_price current_bbo) \<le> max_price_move \<and> bid_qty current_bbo \<ge> required_qty
         else i64 (ask_price current_bbo - ask_price prev_bbo) \<le> max_price_move \<and> ask_qty current_bbo \<ge> required_qty)"

abbreviation (input) kMinWallQuality :: int64 where
  "kMinWallQuality \<equiv> 6000"

definition check_wall_quality :: "WallTracker \<Rightarrow> bool" where
  "check_wall_quality wall_tracker \<longleftrightarrow> \<not> composite_quality wall_tracker < kMinWallQuality"

definition check_long_obi_direction :: "EntryConfig \<Rightarrow> int64 \<Rightarrow> bool" where
  "check_long_obi_direction cfg obi = (if obi \<ge> 0 then False else if obi < i64 (- en_obi_threshold cfg) then False else True)"

definition check_short_obi_direction :: "EntryConfig \<Rightarrow> int64 \<Rightarrow> bool" where
  "check_short_obi_direction cfg obi = (if obi \<le> 0 then False else if obi > en_obi_threshold cfg then False else True)"

text \<open>\<^verbatim>\<open>peek_qty\<close> overwrites a prefix of the buffer and the imbalance is taken over the whole buffer.\<close>

definition peek_into :: "int64 list \<Rightarrow> int \<times> (int64 \<times> nat) list \<Rightarrow> int64 list" where
  "peek_into buf r = map fst (snd r) @ drop (length (snd r)) buf"

definition calculate_orderbook_imbalance :: "book_view \<Rightarrow> MeanReversionMaker \<Rightarrow> int64 \<times> MeanReversionMaker" where
  "calculate_orderbook_imbalance order_book s =
     (let lv = en_obi_levels (mm_entry_cfg s);
          s1 = s\<lparr>mm_bid_qty := peek_into (mm_bid_qty s) (bv_peek_qty order_book True lv (length (mm_bid_qty s))),
                 mm_ask_qty := peek_into (mm_ask_qty s) (bv_peek_qty order_book False lv (length (mm_ask_qty s)))\<rparr>
      in (orderbook_imbalance_int64 (mm_bid_qty s1) (mm_ask_qty s1), s1))"

subsection \<open>Orders\<close>

definition place_entry_order ::
  "StrategyConfig \<Rightarrow> 'm om_call \<Rightarrow> Side \<Rightarrow> int64 \<Rightarrow> MeanReversionMaker \<times> 'm \<Rightarrow> (MeanReversionMaker \<times> 'm) option" where
  "place_entry_order cfg ap side base_price_raw st = (case st of (s, m) \<Rightarrow> do {
     let margin_raw = i64 (base_price_raw * en_safety_margin_entry_bps (mm_entry_cfg s)) sdiv kBpsScale;
     let intent = \<lparr>qi_ticker = mm_ticker s, qi_side = side,
                   qi_position_side = (if sc_position_side cfg then Some (if side = kBuy then kLong else kShort) else None),
                   qi_price = Some (if side = kBuy then i64 (base_price_raw - margin_raw) else i64 (base_price_raw + margin_raw)),
                   qi_qty = en_position_size_raw (mm_entry_cfg s)\<rparr>;
     (m', order_ids) \<leftarrow> ap [intent] m;
     let s' = (case order_ids of
                 [] \<Rightarrow> s
               | order_id # _ \<Rightarrow>
                   if side = kBuy then s\<lparr>mm_long_position := (mm_long_position s)\<lparr>po_pending_order_id := Some order_id\<rparr>\<rparr>
                   else s\<lparr>mm_short_position := (mm_short_position s)\<lparr>po_pending_order_id := Some order_id\<rparr>\<rparr>);
     Some (s', m')
   })"

definition emergency_exit ::
  "StrategyConfig \<Rightarrow> 'm om_call \<Rightarrow> Side \<Rightarrow> int64 \<Rightarrow> MeanReversionMaker \<Rightarrow> 'm \<Rightarrow> ('m \<times> order_id list) option" where
  "emergency_exit cfg ap exit_side market_price_raw s m =
     ap [\<lparr>qi_ticker = mm_ticker s, qi_side = exit_side,
          qi_position_side = (if sc_position_side cfg then Some (if exit_side = kSell then kLong else kShort) else None),
          qi_price = Some market_price_raw,
          qi_qty = (if exit_side = kSell then po_qty (mm_long_position s) else po_qty (mm_short_position s))\<rparr>] m"

subsection \<open>Entries\<close>

definition check_long_entry ::
  "StrategyConfig \<Rightarrow> 'm om_call \<Rightarrow> u64 \<Rightarrow> book_view \<Rightarrow> BBO \<Rightarrow> MeanReversionMaker \<times> 'm \<Rightarrow> (MeanReversionMaker \<times> 'm) option" where
  "check_long_entry cfg ap now order_book bbo st = (case st of (s, m) \<Rightarrow>
     if po_status (mm_long_position s) \<noteq> Pos_kNone then Some (s, m)
     else if \<not> check_wall_quality (mm_bid_wall_tracker s) then Some (s, m)
     else (case calculate_orderbook_imbalance order_book s of (obi, s1) \<Rightarrow> do {
       let mid_price = i64 (bid_price bbo + ask_price bbo) sdiv 2;
       signal \<leftarrow> calculate_signal_score (sc_qty_scale cfg) (mm_entry_cfg s1) (dw_min_quantity_raw (mm_dynamic_threshold s1)) (mm_bid_wall_info s1) obi mid_price;
       let composite = signal_composite (mm_entry_cfg s1) signal;
       if composite < en_min_signal_quality (mm_entry_cfg s1) then Some (s1, m)
       else if \<not> wi_is_valid (mm_bid_wall_info s1) then Some (s1, m)
       else if \<not> check_long_obi_direction (mm_entry_cfg s1) obi then Some (s1, m)
       else (let s2 = s1\<lparr>mm_long_position := (mm_long_position s1)\<lparr>po_status := Pos_kPending, po_qty := en_position_size_raw (mm_entry_cfg s1),
                        po_entry_price := bid_price bbo, po_entry_wall_info := mm_bid_wall_info s1, po_state_time := now\<rparr>\<rparr>
             in place_entry_order cfg ap kBuy (bid_price bbo) (s2, m))
     }))"

definition check_short_entry ::
  "StrategyConfig \<Rightarrow> 'm om_call \<Rightarrow> u64 \<Rightarrow> book_view \<Rightarrow> BBO \<Rightarrow> MeanReversionMaker \<times> 'm \<Rightarrow> (MeanReversionMaker \<times> 'm) option" where
  "check_short_entry cfg ap now order_book bbo st = (case st of (s, m) \<Rightarrow>
     if po_status (mm_short_position s) \<noteq> Pos_kNone then Some (s, m)
     else if \<not> check_wall_quality (mm_ask_wall_tracker s) then Some (s, m)
     else (case calculate_orderbook_imbalance order_book s of (obi, s1) \<Rightarrow> do {
       let mid_price = i64 (bid_price bbo + ask_price bbo) sdiv 2;
       signal \<leftarrow> calculate_signal_score (sc_qty_scale cfg) (mm_entry_cfg s1) (dw_min_quantity_raw (mm_dynamic_threshold s1)) (mm_ask_wall_info s1) obi mid_price;
       let composite = signal_composite (mm_entry_cfg s1) signal;
       if composite < en_min_signal_quality (mm_entry_cfg s1) then Some (s1, m)
       else if \<not> wi_is_valid (mm_ask_wall_info s1) then Some (s1, m)
       else if \<not> check_short_obi_direction (mm_entry_cfg s1) obi then Some (s1, m)
       else (let s2 = s1\<lparr>mm_short_position := (mm_short_position s1)\<lparr>po_status := Pos_kPending, po_qty := en_position_size_raw (mm_entry_cfg s1),
                        po_entry_price := ask_price bbo, po_entry_wall_info := mm_ask_wall_info s1, po_state_time := now\<rparr>\<rparr>
             in place_entry_order cfg ap kSell (ask_price bbo) (s2, m))
     }))"

definition try_long_entry ::
  "StrategyConfig \<Rightarrow> 'm om_call \<Rightarrow> u64 \<Rightarrow> MarketData \<Rightarrow> book_view \<Rightarrow> BBO \<Rightarrow> MeanReversionMaker \<times> 'm \<Rightarrow> (MeanReversionMaker \<times> 'm) option" where
  "try_long_entry cfg ap now market_data order_book current_bbo st = (case st of (s, m) \<Rightarrow>
     if po_status (mm_short_position s) \<noteq> Pos_kNone then Some (s, m)
     else if \<not> wi_is_valid (mm_bid_wall_info s) then Some (s, m)
     else if \<not> validate_defense_realtime cfg (mm_entry_cfg s) market_data (mm_prev_bbo s) current_bbo kBuy then Some (s, m)
     else check_long_entry cfg ap now order_book current_bbo (s, m))"

definition try_short_entry ::
  "StrategyConfig \<Rightarrow> 'm om_call \<Rightarrow> u64 \<Rightarrow> MarketData \<Rightarrow> book_view \<Rightarrow> BBO \<Rightarrow> MeanReversionMaker \<times> 'm \<Rightarrow> (MeanReversionMaker \<times> 'm) option" where
  "try_short_entry cfg ap now market_data order_book current_bbo st = (case st of (s, m) \<Rightarrow>
     if po_status (mm_long_position s) \<noteq> Pos_kNone then Some (s, m)
     else if \<not> wi_is_valid (mm_ask_wall_info s) then Some (s, m)
     else if \<not> validate_defense_realtime cfg (mm_entry_cfg s) market_data (mm_prev_bbo s) current_bbo kSell then Some (s, m)
     else check_short_entry cfg ap now order_book current_bbo (s, m))"

subsection \<open>Exits\<close>

definition exit_phase_signal :: "MarketPhase \<Rightarrow> bool" where
  "exit_phase_signal ph \<longleftrightarrow> ph \<in> {Ph_kDeep, Ph_kWeak, Ph_kVeryWeak}"

definition exit_long ::
  "StrategyConfig \<Rightarrow> 'm om_call \<Rightarrow> int64 \<Rightarrow> MeanReversionMaker \<times> 'm \<Rightarrow> (MeanReversionMaker \<times> 'm) option" where
  "exit_long cfg ap price st = (case st of (s, m) \<Rightarrow> do {
     (m', order_ids) \<leftarrow> emergency_exit cfg ap kSell price s m;
     Some (case order_ids of
             [] \<Rightarrow> (s, m')
           | order_id # _ \<Rightarrow> (s\<lparr>mm_long_position := (mm_long_position s)\<lparr>po_pending_order_id := Some order_id\<rparr>\<rparr>, m'))
   })"

definition exit_short ::
  "StrategyConfig \<Rightarrow> 'm om_call \<Rightarrow> int64 \<Rightarrow> MeanReversionMaker \<times> 'm \<Rightarrow> (MeanReversionMaker \<times> 'm) option" where
  "exit_short cfg ap price st = (case st of (s, m) \<Rightarrow> do {
     (m', order_ids) \<leftarrow> emergency_exit cfg ap kBuy price s m;
     Some (case order_ids of
             [] \<Rightarrow> (s, m')
           | order_id # _ \<Rightarrow> (s\<lparr>mm_short_position := (mm_short_position s)\<lparr>po_pending_order_id := Some order_id\<rparr>\<rparr>, m'))
   })"

definition check_long_exit ::
  "StrategyConfig \<Rightarrow> 'm om_call \<Rightarrow> u64 \<Rightarrow> BBO \<Rightarrow> int64 \<Rightarrow> int64 \<Rightarrow> MeanReversionMaker \<times> 'm \<Rightarrow> (MeanReversionMaker \<times> 'm) option" where
  "check_long_exit cfg ap now bbo mid_price current_obi st = (case st of (s, m) \<Rightarrow>
     let pos = mm_long_position s in
     if po_status pos \<noteq> Pos_kActive then Some (s, m)
     else if po_pending_order_id pos \<noteq> None then Some (s, m)
     else if \<not> exit_phase_signal (ps_long_phase (mm_phase_state s)) then Some (s, m)
     else if \<not> wi_is_valid (mm_bid_wall_info s) then exit_long cfg ap (bid_price bbo) (s, m)
     else do {
       pnl_bps \<leftarrow> cdiv (i64 (i64 (mid_price - po_entry_price pos) * kBpsScale)) (po_entry_price pos);
       if pnl_bps < i64 (- ex_max_loss_bps (sc_exit_cfg cfg)) then exit_long cfg ap (bid_price bbo) (s, m)
       else (let hold_time = now - po_state_time pos;
                 exit_score = calculate_exit_score (sc_exit_cfg cfg) True (mm_bid_wall_info s) (po_entry_wall_info pos) current_obi hold_time
             in if exit_composite (sc_exit_cfg cfg) exit_score \<ge> ex_min_exit_quality (sc_exit_cfg cfg)
                then exit_long cfg ap (bid_price bbo) (s, m) else Some (s, m))
     })"

definition check_short_exit ::
  "StrategyConfig \<Rightarrow> 'm om_call \<Rightarrow> u64 \<Rightarrow> BBO \<Rightarrow> int64 \<Rightarrow> int64 \<Rightarrow> MeanReversionMaker \<times> 'm \<Rightarrow> (MeanReversionMaker \<times> 'm) option" where
  "check_short_exit cfg ap now bbo mid_price current_obi st = (case st of (s, m) \<Rightarrow>
     let pos = mm_short_position s in
     if po_status pos \<noteq> Pos_kActive then Some (s, m)
     else if po_pending_order_id pos \<noteq> None then Some (s, m)
     else if \<not> exit_phase_signal (ps_short_phase (mm_phase_state s)) then Some (s, m)
     else if \<not> wi_is_valid (mm_ask_wall_info s) then exit_short cfg ap (ask_price bbo) (s, m)
     else do {
       pnl_bps \<leftarrow> cdiv (i64 (i64 (po_entry_price pos - mid_price) * kBpsScale)) (po_entry_price pos);
       if pnl_bps < i64 (- ex_max_loss_bps (sc_exit_cfg cfg)) then exit_short cfg ap (ask_price bbo) (s, m)
       else (let hold_time = now - po_state_time pos;
                 exit_score = calculate_exit_score (sc_exit_cfg cfg) False (mm_ask_wall_info s) (po_entry_wall_info pos) current_obi hold_time
             in if exit_composite (sc_exit_cfg cfg) exit_score \<ge> ex_min_exit_quality (sc_exit_cfg cfg)
                then exit_short cfg ap (ask_price bbo) (s, m) else Some (s, m))
     })"

definition check_position_exit ::
  "StrategyConfig \<Rightarrow> 'm om_call \<Rightarrow> u64 \<Rightarrow> book_view \<Rightarrow> BBO \<Rightarrow> MeanReversionMaker \<times> 'm \<Rightarrow> (MeanReversionMaker \<times> 'm) option" where
  "check_position_exit cfg ap now order_book bbo st = (case st of (s, m) \<Rightarrow> do {
     let mid_price = i64 (bid_price bbo + ask_price bbo) sdiv 2;
     let (current_obi, s1) = calculate_orderbook_imbalance order_book s;
     (s2, m2) \<leftarrow> (if po_status (mm_long_position s1) = Pos_kActive then check_long_exit cfg ap now bbo mid_price current_obi (s1, m) else Some (s1, m));
     if po_status (mm_short_position s2) = Pos_kActive then check_short_exit cfg ap now bbo mid_price current_obi (s2, m2) else Some (s2, m2)
   })"

subsection \<open>Market data callbacks\<close>

definition calculate_multi_timeframe_zscores :: "StrategyConfig \<Rightarrow> int64 \<Rightarrow> MeanReversionMaker \<Rightarrow> (ZScores \<times> MeanReversionMaker) option" where
  "calculate_multi_timeframe_zscores cfg price s = do {
     (zf, fast) \<leftarrow> calculate_zscore (sc_fast cfg) price (mm_zscore_fast s);
     (zm, mid) \<leftarrow> calculate_zscore (sc_mid cfg) price (mm_zscore_mid s);
     (zs, slow) \<leftarrow> calculate_zscore (sc_slow cfg) price (mm_zscore_slow s);
     fast' \<leftarrow> on_price (sc_fast cfg) price fast;
     mid' \<leftarrow> on_price (sc_mid cfg) price mid;
     slow' \<leftarrow> on_price (sc_slow cfg) price slow;
     Some (\<lparr>z_fast = zf, z_mid = zm, z_slow = zs\<rparr>, s\<lparr>mm_zscore_fast := fast', mm_zscore_mid := mid', mm_zscore_slow := slow'\<rparr>)
   }"

definition handle_adverse_selection :: "StrategyConfig \<Rightarrow> u64 \<Rightarrow> int64 \<Rightarrow> MeanReversionMaker \<Rightarrow> MeanReversionMaker option" where
  "handle_adverse_selection cfg now price s = do {
     let acfg = sc_adverse_selection_cfg cfg;
     t \<leftarrow> adverse_on_price_update now price acfg (mm_adverse_selection_tracker s);
     picked_off \<leftarrow> is_being_picked_off acfg t;
     let margin = (if picked_off then i64 (sc_original_safety_margin_bps cfg * ac_margin_multiplier acfg) sdiv kSignalScale
                   else sc_original_safety_margin_bps cfg);
     Some (s\<lparr>mm_adverse_selection_tracker := t, mm_entry_cfg := (mm_entry_cfg s)\<lparr>en_safety_margin_entry_bps := margin\<rparr>\<rparr>)
   }"

definition track_wall :: "u64 \<Rightarrow> WallInfo \<Rightarrow> WallTracker \<Rightarrow> WallTracker" where
  "track_wall now info t = (if wi_is_valid info then wall_update now (wi_accumulated_notional info) (wi_distance_bps info) t else wall_reset t)"

definition on_orderbook_updated :: "StrategyConfig \<Rightarrow> u64 \<Rightarrow> string \<Rightarrow> book_view \<Rightarrow> MeanReversionMaker \<Rightarrow> MeanReversionMaker option" where
  "on_orderbook_updated cfg current_time ticker order_book s0 =
     (let s = s0\<lparr>mm_ticker := ticker\<rparr> in
      if current_time - mm_last_orderbook_check_time s < 100000000 then Some s
      else do {
        let bbo = bv_bbo order_book;
        let top = sc_orderbook_top_levels cfg;
        let bids = bv_peek_qty order_book True top (size_of_int top);
        let asks = bv_peek_qty order_book False top (size_of_int top);
        dt \<leftarrow> update_orderbook_threshold (sc_qty_scale cfg) bbo (fst bids, map fst (snd bids)) (fst asks, map fst (snd asks)) (mm_dynamic_threshold s);
        threshold \<leftarrow> calculate_threshold (sc_qty_scale cfg) bbo dt;
        let wl = sc_wall_max_levels cfg;
        bid_wall \<leftarrow> detect_wall (sc_qty_scale cfg) bbo (snd (bv_peek_qty order_book True wl (size_of_int wl))) kBuy threshold
                      (sc_wall_max_distance_bps cfg) (bv_min_price_int order_book);
        ask_wall \<leftarrow> detect_wall (sc_qty_scale cfg) bbo (snd (bv_peek_qty order_book False wl (size_of_int wl))) kSell threshold
                      (sc_wall_max_distance_bps cfg) (bv_min_price_int order_book);
        Some (s\<lparr>mm_last_orderbook_check_time := current_time, mm_dynamic_threshold := dt, mm_current_wall_threshold_raw := threshold,
                mm_bid_wall_info := bid_wall, mm_ask_wall_info := ask_wall,
                mm_bid_wall_tracker := track_wall current_time bid_wall (mm_bid_wall_tracker s),
                mm_ask_wall_tracker := track_wall current_time ask_wall (mm_ask_wall_tracker s)\<rparr>)
      })"

text \<open>The part of the trade callback up to the entries: scores, adverse selection and phases.\<close>

definition trade_signals :: "StrategyConfig \<Rightarrow> u64 \<Rightarrow> int64 \<Rightarrow> MeanReversionMaker \<Rightarrow> MeanReversionMaker option" where
  "trade_signals cfg now price s = do {
     (zscores, s1) \<leftarrow> calculate_multi_timeframe_zscores cfg price s;
     s2 \<leftarrow> handle_adverse_selection cfg now price s1;
     adaptive \<leftarrow> get_adaptive_threshold (sc_mid cfg) (z_mid (sc_zscore_threshold cfg)) (mm_zscore_mid s2);
     Some (s2\<lparr>mm_phase_state := update_phases (sc_mean_reversion_cfg cfg) (sc_zscore_threshold cfg) (now, zscores, adaptive) (mm_phase_state s2)\<rparr>)
   }"

definition enter_long :: "StrategyConfig \<Rightarrow> 'm om_call \<Rightarrow> u64 \<Rightarrow> MarketData \<Rightarrow> book_view \<Rightarrow> MeanReversionMaker \<times> 'm \<Rightarrow> (MeanReversionMaker \<times> 'm) option" where
  "enter_long cfg ap now market_data order_book st =
     (if ps_short_phase (mm_phase_state (fst st)) = Ph_kVeryWeak
      then do {
        (s', m') \<leftarrow> try_long_entry cfg ap now market_data order_book (bv_bbo order_book) st;
        Some (s'\<lparr>mm_phase_state := (mm_phase_state s')\<lparr>ps_short_phase := Ph_kNeutral\<rparr>\<rparr>, m')
      } else Some st)"

definition enter_short :: "StrategyConfig \<Rightarrow> 'm om_call \<Rightarrow> u64 \<Rightarrow> MarketData \<Rightarrow> book_view \<Rightarrow> MeanReversionMaker \<times> 'm \<Rightarrow> (MeanReversionMaker \<times> 'm) option" where
  "enter_short cfg ap now market_data order_book st =
     (if ps_long_phase (mm_phase_state (fst st)) = Ph_kVeryWeak
      then do {
        (s', m') \<leftarrow> try_short_entry cfg ap now market_data order_book (bv_bbo order_book) st;
        Some (s'\<lparr>mm_phase_state := (mm_phase_state s')\<lparr>ps_long_phase := Ph_kNeutral\<rparr>\<rparr>, m')
      } else Some st)"

definition trade_entries ::
  "StrategyConfig \<Rightarrow> 'm om_call \<Rightarrow> u64 \<Rightarrow> MarketData \<Rightarrow> book_view \<Rightarrow> MeanReversionMaker \<times> 'm \<Rightarrow> (MeanReversionMaker \<times> 'm) option" where
  "trade_entries cfg ap now market_data order_book st =
     enter_long cfg ap now market_data order_book st \<bind> enter_short cfg ap now market_data order_book"

definition on_trade_updated ::
  "StrategyConfig \<Rightarrow> 'm om_call \<Rightarrow> u64 \<Rightarrow> MarketData \<Rightarrow> book_view \<Rightarrow> MeanReversionMaker \<times> 'm \<Rightarrow> (MeanReversionMaker \<times> 'm) option" where
  "on_trade_updated cfg ap now market_data order_book st =
     (if \<not> is_bbo_valid (bv_bbo order_book) then Some st
      else do {
        s1 \<leftarrow> trade_signals cfg now (md_price market_data) (fst st);
        st2 \<leftarrow> trade_entries cfg ap now market_data order_book (s1, snd st);
        (s3, m3) \<leftarrow> check_position_exit cfg ap now order_book (bv_bbo order_book) st2;
        dt \<leftarrow> wall_on_trade (sc_qty_scale cfg) (md_price market_data) (md_qty market_data) (mm_dynamic_threshold s3);
        (m4, _) \<leftarrow> ap [] m3;
        Some (s3\<lparr>mm_prev_bbo := bv_bbo order_book, mm_dynamic_threshold := dt\<rparr>, m4)
      })"

subsection \<open>Execution reports\<close>

definition liquidate_long ::
  "StrategyConfig \<Rightarrow> 'm om_call \<Rightarrow> int64 \<Rightarrow> int64 \<Rightarrow> MeanReversionMaker \<times> 'm \<Rightarrow> (MeanReversionMaker \<times> 'm) option" where
  "liquidate_long cfg ap avg_price actual_position st = (case st of (s, m) \<Rightarrow> do {
     let pos = (mm_long_position s)\<lparr>po_qty := actual_position, po_entry_price := avg_price\<rparr>;
     (m', order_ids) \<leftarrow> emergency_exit cfg ap kSell avg_price (s\<lparr>mm_long_position := pos\<rparr>) m;
     let pos' = (case order_ids of
                   order_id # _ \<Rightarrow> pos\<lparr>po_pending_order_id := Some order_id, po_status := Pos_kPending\<rparr>
                 | [] \<Rightarrow> pos\<lparr>po_status := Pos_kNone, po_pending_order_id := None\<rparr>);
     Some (s\<lparr>mm_long_position := pos'\<rparr>, m')
   })"

definition liquidate_short ::
  "StrategyConfig \<Rightarrow> 'm om_call \<Rightarrow> int64 \<Rightarrow> int64 \<Rightarrow> MeanReversionMaker \<times> 'm \<Rightarrow> (MeanReversionMaker \<times> 'm) option" where
  "liquidate_short cfg ap avg_price actual_position st = (case st of (s, m) \<Rightarrow> do {
     let pos = (mm_short_position s)\<lparr>po_qty := actual_position, po_entry_price := avg_price\<rparr>;
     (m', order_ids) \<leftarrow> emergency_exit cfg ap kBuy avg_price (s\<lparr>mm_short_position := pos\<rparr>) m;
     let pos' = (case order_ids of
                   order_id # _ \<Rightarrow> pos\<lparr>po_pending_order_id := Some order_id, po_status := Pos_kPending\<rparr>
                 | [] \<Rightarrow> pos\<lparr>po_status := Pos_kNone, po_pending_order_id := None\<rparr>);
     Some (s\<lparr>mm_short_position := pos'\<rparr>, m')
   })"

definition on_long_fill ::
  "StrategyConfig \<Rightarrow> 'm om_call \<Rightarrow> u64 \<Rightarrow> PositionInfo \<Rightarrow> int64 \<Rightarrow> ExecutionReport \<Rightarrow> MeanReversionMaker \<times> 'm \<Rightarrow> (MeanReversionMaker \<times> 'm) option" where
  "on_long_fill cfg ap now pos_info avg_price report st = (case st of (s, m) \<Rightarrow>
     let pos = mm_long_position s; actual_position = pi_long_position_raw pos_info in
     if po_status pos = Pos_kPending then
       (if po_pending_order_id pos = Some (er_cl_order_id report) then
          Some (s\<lparr>mm_long_position := pos\<lparr>po_status := Pos_kActive, po_entry_price := avg_price, po_entry_wall_info := mm_bid_wall_info s,
                    po_state_time := now, po_pending_order_id := None\<rparr>,
                  mm_adverse_selection_tracker := adverse_on_fill now avg_price (er_side report)
                    (ac_max_fill_history (sc_adverse_selection_cfg cfg)) (mm_adverse_selection_tracker s)\<rparr>, m)
        else if actual_position > 0 then liquidate_long cfg ap avg_price actual_position (s, m)
        else Some (s\<lparr>mm_long_position := pos\<lparr>po_status := Pos_kNone, po_pending_order_id := None\<rparr>\<rparr>, m))
     else if po_status pos = Pos_kNone \<and> actual_position > 0 then liquidate_long cfg ap avg_price actual_position (s, m)
     else Some (s, m))"

definition on_short_fill ::
  "StrategyConfig \<Rightarrow> 'm om_call \<Rightarrow> u64 \<Rightarrow> PositionInfo \<Rightarrow> int64 \<Rightarrow> ExecutionReport \<Rightarrow> MeanReversionMaker \<times> 'm \<Rightarrow> (MeanReversionMaker \<times> 'm) option" where
  "on_short_fill cfg ap now pos_info avg_price report st = (case st of (s, m) \<Rightarrow>
     let pos = mm_short_position s; actual_position = pi_short_position_raw pos_info in
     if po_status pos = Pos_kPending then
       (if po_pending_order_id pos = Some (er_cl_order_id report) then
          Some (s\<lparr>mm_short_position := pos\<lparr>po_status := Pos_kActive, po_entry_price := avg_price, po_entry_wall_info := mm_ask_wall_info s,
                    po_state_time := now, po_pending_order_id := None\<rparr>,
                  mm_adverse_selection_tracker := adverse_on_fill now avg_price (er_side report)
                    (ac_max_fill_history (sc_adverse_selection_cfg cfg)) (mm_adverse_selection_tracker s)\<rparr>, m)
        else if actual_position > 0 then liquidate_short cfg ap avg_price actual_position (s, m)
        else Some (s\<lparr>mm_short_position := pos\<lparr>po_status := Pos_kNone, po_pending_order_id := None\<rparr>\<rparr>, m))
     else if po_status pos = Pos_kNone \<and> actual_position > 0 then liquidate_short cfg ap avg_price actual_position (s, m)
     else Some (s, m))"

definition on_cancelled :: "ExecutionReport \<Rightarrow> MeanReversionMaker \<Rightarrow> MeanReversionMaker" where
  "on_cancelled report s =
     (let s1 = (if er_side report = kBuy \<and> po_status (mm_long_position s) = Pos_kPending then s\<lparr>mm_long_position := PositionState_new\<rparr> else s)
      in if er_side report = kSell \<and> po_status (mm_short_position s1) = Pos_kPending then s1\<lparr>mm_short_position := PositionState_new\<rparr> else s1)"

definition close_positions :: "PositionInfo \<Rightarrow> MeanReversionMaker \<Rightarrow> MeanReversionMaker" where
  "close_positions pos_info s =
     (let s1 = (if po_status (mm_long_position s) = Pos_kActive \<and> pi_long_position_raw pos_info = 0
                then s\<lparr>mm_long_position := (mm_long_position s)\<lparr>po_status := Pos_kNone, po_pending_order_id := None\<rparr>\<rparr> else s)
      in if po_status (mm_short_position s1) = Pos_kActive \<and> pi_short_position_raw pos_info = 0
         then s1\<lparr>mm_short_position := (mm_short_position s1)\<lparr>po_status := Pos_kNone, po_pending_order_id := None\<rparr>\<rparr> else s1)"

definition is_fill_report :: "ExecutionReport \<Rightarrow> bool" where
  "is_fill_report report \<longleftrightarrow> er_ord_status report = Ord_kFilled \<or> er_ord_status report = Ord_kPartiallyFilled"

definition is_cancel_report :: "ExecutionReport \<Rightarrow> bool" where
  "is_cancel_report report \<longleftrightarrow> er_ord_status report = Ord_kCanceled \<or> er_ord_status report = Ord_kRejected"

definition strategy_on_order_updated ::
  "StrategyConfig \<Rightarrow> 'm om_call \<Rightarrow> u64 \<Rightarrow> PositionInfo \<Rightarrow> int64 \<Rightarrow> ExecutionReport \<Rightarrow> MeanReversionMaker \<times> 'm \<Rightarrow> (MeanReversionMaker \<times> 'm) option" where
  "strategy_on_order_updated cfg ap now pos_info avg_price report st =
     (if \<not> is_fill_report report \<and> \<not> is_cancel_report report then Some st
      else do {
        st1 \<leftarrow> (if is_fill_report report \<and> er_side report = kBuy then on_long_fill cfg ap now pos_info avg_price report st else Some st);
        (s2, m2) \<leftarrow> (if is_fill_report report \<and> er_side report = kSell then on_short_fill cfg ap now pos_info avg_price report st1 else Some st1);
        let s3 = (if is_cancel_report report then on_cancelled report s2 else s2);
        Some (close_positions pos_info s3, m2)
      })"

end
