(* ===== verification/Mean_Reversion_Props.thy ===== *)
theory Mean_Reversion_Props
  imports Mean_Reversion
begin

text \<open>
  Properties of the mean-reversion strategy over single callbacks and over runs of events: what a callback may do to each position,
  the invariant of the state, the guards of an entry, and the states a position cannot leave.
\<close>

subsection \<open>Frames\<close>

text \<open>Entries and exits change the two positions and the two imbalance buffers only.\<close>

definition frame :: "MeanReversionMaker \<Rightarrow> MeanReversionMaker \<Rightarrow> bool" where
  "frame s s' \<longleftrightarrow> s' = s\<lparr>mm_long_position := mm_long_position s', mm_short_position := mm_short_position s',
     mm_bid_qty := mm_bid_qty s', mm_ask_qty := mm_ask_qty s'\<rparr>"

definition view_ok :: "book_view \<Rightarrow> bool" where
  "view_ok v \<longleftrightarrow> (\<forall>b l n. length (snd (bv_peek_qty v b l n)) \<le> n)"

definition keeps_buffers :: "MeanReversionMaker \<Rightarrow> MeanReversionMaker \<Rightarrow> bool" where
  "keeps_buffers s s' \<longleftrightarrow> length (mm_bid_qty s') = length (mm_bid_qty s) \<and> length (mm_ask_qty s') = length (mm_ask_qty s)"

lemma frame_refl [simp]: "frame s s"
  by (simp add: frame_def)

lemma frame_trans: "frame s s' \<Longrightarrow> frame s' s'' \<Longrightarrow> frame s s''"
  by (cases s; cases s'; cases s'') (simp add: frame_def)

lemma frame_position [simp]:
  "frame s s' \<Longrightarrow> frame s (s'\<lparr>mm_long_position := p\<rparr>)" "frame s s' \<Longrightarrow> frame s (s'\<lparr>mm_short_position := p\<rparr>)"
  by (cases s; cases s'; simp add: frame_def)+

lemma keeps_buffers_position [simp]:
  "keeps_buffers s (s'\<lparr>mm_long_position := p\<rparr>) = keeps_buffers s s'" "keeps_buffers s (s'\<lparr>mm_short_position := p\<rparr>) = keeps_buffers s s'"
  by (simp_all add: keeps_buffers_def)

lemma keeps_buffers_refl [simp]: "keeps_buffers s s"
  by (simp add: keeps_buffers_def)

lemma keeps_buffers_trans: "keeps_buffers s s' \<Longrightarrow> keeps_buffers s' s'' \<Longrightarrow> keeps_buffers s s''"
  by (simp add: keeps_buffers_def)

lemma frame_fields:
  assumes "frame s s'"
  shows "mm_ticker s' = mm_ticker s" "mm_entry_cfg s' = mm_entry_cfg s" "mm_bid_wall_info s' = mm_bid_wall_info s"
    "mm_ask_wall_info s' = mm_ask_wall_info s" "mm_bid_wall_tracker s' = mm_bid_wall_tracker s" "mm_ask_wall_tracker s' = mm_ask_wall_tracker s"
    "mm_prev_bbo s' = mm_prev_bbo s" "mm_dynamic_threshold s' = mm_dynamic_threshold s" "mm_zscore_fast s' = mm_zscore_fast s"
    "mm_zscore_mid s' = mm_zscore_mid s" "mm_zscore_slow s' = mm_zscore_slow s" "mm_adverse_selection_tracker s' = mm_adverse_selection_tracker s"
    "mm_phase_state s' = mm_phase_state s"
  using assms by (cases s; cases s'; simp add: frame_def)+

lemma imbalance_frame:
  assumes "calculate_orderbook_imbalance v s = (obi, s')"
  shows "frame s s'" "mm_long_position s' = mm_long_position s" "mm_short_position s' = mm_short_position s" "view_ok v \<Longrightarrow> keeps_buffers s s'"
  using assms by (auto simp: calculate_orderbook_imbalance_def Let_def frame_def keeps_buffers_def peek_into_def view_ok_def)

definition with_id :: "order_id list \<Rightarrow> PositionState \<Rightarrow> PositionState" where
  "with_id ids p = (case ids of [] \<Rightarrow> p | i # _ \<Rightarrow> p\<lparr>po_pending_order_id := Some i\<rparr>)"

lemma with_id_simps [simp]: "po_status (with_id ids p) = po_status p" "po_qty (with_id ids p) = po_qty p"
  "po_entry_price (with_id ids p) = po_entry_price p" "po_entry_wall_info (with_id ids p) = po_entry_wall_info p"
  "po_state_time (with_id ids p) = po_state_time p"
  by (simp_all add: with_id_def split: list.split)

lemma same_position [simp]:
  "s\<lparr>mm_long_position := mm_long_position s\<rparr> = s" "s\<lparr>mm_short_position := mm_short_position s\<rparr> = s"
  by (cases s; simp)+

lemma place_entry_order_buy:
  assumes "place_entry_order cfg ap kBuy p (s, m) = Some (s', m')"
  shows "\<exists>ids. s' = s\<lparr>mm_long_position := with_id ids (mm_long_position s)\<rparr>"
proof -
  obtain ids where "s' = (case ids of [] \<Rightarrow> s | i # _ \<Rightarrow> s\<lparr>mm_long_position := (mm_long_position s)\<lparr>po_pending_order_id := Some i\<rparr>\<rparr>)"
    using assms by (auto simp: place_entry_order_def Let_def bind_eq_Some_conv cong: list.case_cong split: prod.splits)
  then show ?thesis by (intro exI [of _ ids]) (cases ids; simp add: with_id_def)
qed

lemma place_entry_order_sell:
  assumes "place_entry_order cfg ap kSell p (s, m) = Some (s', m')"
  shows "\<exists>ids. s' = s\<lparr>mm_short_position := with_id ids (mm_short_position s)\<rparr>"
proof -
  obtain ids where "s' = (case ids of [] \<Rightarrow> s | i # _ \<Rightarrow> s\<lparr>mm_short_position := (mm_short_position s)\<lparr>po_pending_order_id := Some i\<rparr>\<rparr>)"
    using assms by (auto simp: place_entry_order_def Let_def bind_eq_Some_conv cong: list.case_cong split: prod.splits)
  then show ?thesis by (intro exI [of _ ids]) (cases ids; simp add: with_id_def)
qed

lemma exit_long_effect:
  assumes "exit_long cfg ap p (s, m) = Some (s', m')"
  shows "\<exists>ids. s' = s\<lparr>mm_long_position := with_id ids (mm_long_position s)\<rparr>"
proof -
  obtain m1 ids where "(case ids of [] \<Rightarrow> (s, m1) | i # _ \<Rightarrow> (s\<lparr>mm_long_position := (mm_long_position s)\<lparr>po_pending_order_id := Some i\<rparr>\<rparr>, m1)) = (s', m')"
    using assms by (auto simp: exit_long_def Let_def bind_eq_Some_conv split: prod.splits)
  then show ?thesis by (intro exI [of _ ids]) (cases ids; simp add: with_id_def)
qed

lemma exit_short_effect:
  assumes "exit_short cfg ap p (s, m) = Some (s', m')"
  shows "\<exists>ids. s' = s\<lparr>mm_short_position := with_id ids (mm_short_position s)\<rparr>"
proof -
  obtain m1 ids where "(case ids of [] \<Rightarrow> (s, m1) | i # _ \<Rightarrow> (s\<lparr>mm_short_position := (mm_short_position s)\<lparr>po_pending_order_id := Some i\<rparr>\<rparr>, m1)) = (s', m')"
    using assms by (auto simp: exit_short_def Let_def bind_eq_Some_conv split: prod.splits)
  then show ?thesis by (intro exI [of _ ids]) (cases ids; simp add: with_id_def)
qed

subsection \<open>Entries and exits\<close>

definition entered :: "EntryConfig \<Rightarrow> int64 \<Rightarrow> WallInfo \<Rightarrow> u64 \<Rightarrow> order_id list \<Rightarrow> PositionState \<Rightarrow> PositionState" where
  "entered cfg price wall now ids p =
     with_id ids (p\<lparr>po_status := Pos_kPending, po_qty := en_position_size_raw cfg, po_entry_price := price, po_entry_wall_info := wall, po_state_time := now\<rparr>)"

definition long_entry_guard :: "StrategyConfig \<Rightarrow> MarketData \<Rightarrow> book_view \<Rightarrow> MeanReversionMaker \<Rightarrow> bool" where
  "long_entry_guard cfg md v s \<longleftrightarrow>
     po_status (mm_long_position s) = Pos_kNone \<and> po_status (mm_short_position s) = Pos_kNone \<and> wi_is_valid (mm_bid_wall_info s)
     \<and> composite_quality (mm_bid_wall_tracker s) \<ge> 6000
     \<and> validate_defense_realtime cfg (mm_entry_cfg s) md (mm_prev_bbo s) (bv_bbo v) kBuy
     \<and> fst (calculate_orderbook_imbalance v s) < 0 \<and> fst (calculate_orderbook_imbalance v s) \<ge> i64 (- en_obi_threshold (mm_entry_cfg s))"

definition short_entry_guard :: "StrategyConfig \<Rightarrow> MarketData \<Rightarrow> book_view \<Rightarrow> MeanReversionMaker \<Rightarrow> bool" where
  "short_entry_guard cfg md v s \<longleftrightarrow>
     po_status (mm_long_position s) = Pos_kNone \<and> po_status (mm_short_position s) = Pos_kNone \<and> wi_is_valid (mm_ask_wall_info s)
     \<and> composite_quality (mm_ask_wall_tracker s) \<ge> 6000
     \<and> validate_defense_realtime cfg (mm_entry_cfg s) md (mm_prev_bbo s) (bv_bbo v) kSell
     \<and> fst (calculate_orderbook_imbalance v s) > 0 \<and> fst (calculate_orderbook_imbalance v s) \<le> en_obi_threshold (mm_entry_cfg s)"

lemma try_long_entry_cases:
  assumes "try_long_entry cfg ap now md v (bv_bbo v) (s, m) = Some (s', m')" and i: "calculate_orderbook_imbalance v s = (obi, s1)"
  shows "(s' = s \<or> s' = s1) \<and> m' = m
    \<or> long_entry_guard cfg md v s
      \<and> (\<exists>ids. s' = s1\<lparr>mm_long_position := entered (mm_entry_cfg s) (bid_price (bv_bbo v)) (mm_bid_wall_info s) now ids (mm_long_position s)\<rparr>)"
  using assms(1) frame_fields [OF imbalance_frame(1) [OF i]] imbalance_frame(2) [OF i]
  by (auto simp: try_long_entry_def check_long_entry_def i Let_def bind_eq_Some_conv check_long_obi_direction_def check_wall_quality_def
      long_entry_guard_def entered_def dest!: place_entry_order_buy split: if_splits)

lemma try_short_entry_cases:
  assumes "try_short_entry cfg ap now md v (bv_bbo v) (s, m) = Some (s', m')" and i: "calculate_orderbook_imbalance v s = (obi, s1)"
  shows "(s' = s \<or> s' = s1) \<and> m' = m
    \<or> short_entry_guard cfg md v s
      \<and> (\<exists>ids. s' = s1\<lparr>mm_short_position := entered (mm_entry_cfg s) (ask_price (bv_bbo v)) (mm_ask_wall_info s) now ids (mm_short_position s)\<rparr>)"
  using assms(1) frame_fields [OF imbalance_frame(1) [OF i]] imbalance_frame(3) [OF i]
  by (auto simp: try_short_entry_def check_short_entry_def i Let_def bind_eq_Some_conv check_short_obi_direction_def check_wall_quality_def
      short_entry_guard_def entered_def dest!: place_entry_order_sell split: if_splits)

lemma try_long_entry_effect:
  assumes "try_long_entry cfg ap now md v (bv_bbo v) (s, m) = Some (s', m')"
  shows "frame s s'" "mm_short_position s' = mm_short_position s" "view_ok v \<Longrightarrow> keeps_buffers s s'"
    "mm_long_position s' = mm_long_position s \<and> m' = m \<or>
     long_entry_guard cfg md v s \<and> (\<exists>ids. mm_long_position s' = entered (mm_entry_cfg s) (bid_price (bv_bbo v)) (mm_bid_wall_info s) now ids (mm_long_position s))"
proof -
  obtain obi s1 where i: "calculate_orderbook_imbalance v s = (obi, s1)" by fastforce
  show "frame s s'" "mm_short_position s' = mm_short_position s" "view_ok v \<Longrightarrow> keeps_buffers s s'"
    "mm_long_position s' = mm_long_position s \<and> m' = m \<or>
     long_entry_guard cfg md v s \<and> (\<exists>ids. mm_long_position s' = entered (mm_entry_cfg s) (bid_price (bv_bbo v)) (mm_bid_wall_info s) now ids (mm_long_position s))"
    using try_long_entry_cases [OF assms i] imbalance_frame [OF i] by auto
qed

lemma try_short_entry_effect:
  assumes "try_short_entry cfg ap now md v (bv_bbo v) (s, m) = Some (s', m')"
  shows "frame s s'" "mm_long_position s' = mm_long_position s" "view_ok v \<Longrightarrow> keeps_buffers s s'"
    "mm_short_position s' = mm_short_position s \<and> m' = m \<or>
     short_entry_guard cfg md v s \<and> (\<exists>ids. mm_short_position s' = entered (mm_entry_cfg s) (ask_price (bv_bbo v)) (mm_ask_wall_info s) now ids (mm_short_position s))"
proof -
  obtain obi s1 where i: "calculate_orderbook_imbalance v s = (obi, s1)" by fastforce
  show "frame s s'" "mm_long_position s' = mm_long_position s" "view_ok v \<Longrightarrow> keeps_buffers s s'"
    "mm_short_position s' = mm_short_position s \<and> m' = m \<or>
     short_entry_guard cfg md v s \<and> (\<exists>ids. mm_short_position s' = entered (mm_entry_cfg s) (ask_price (bv_bbo v)) (mm_ask_wall_info s) now ids (mm_short_position s))"
    using try_short_entry_cases [OF assms i] imbalance_frame [OF i] by auto
qed

definition may_exit :: "MarketPhase \<Rightarrow> PositionState \<Rightarrow> bool" where
  "may_exit ph p \<longleftrightarrow> po_status p = Pos_kActive \<and> po_pending_order_id p = None \<and> exit_phase_signal ph"

lemma check_long_exit_effect:
  assumes "check_long_exit cfg ap now bbo mid obi (s, m) = Some (s', m')"
  shows "s' = s \<and> m' = m \<or> may_exit (ps_long_phase (mm_phase_state s)) (mm_long_position s)
    \<and> (\<exists>ids. s' = s\<lparr>mm_long_position := with_id ids (mm_long_position s)\<rparr>)"
  using assms by (auto simp: check_long_exit_def Let_def bind_eq_Some_conv may_exit_def dest!: exit_long_effect split: if_splits)

lemma check_short_exit_effect:
  assumes "check_short_exit cfg ap now bbo mid obi (s, m) = Some (s', m')"
  shows "s' = s \<and> m' = m \<or> may_exit (ps_short_phase (mm_phase_state s)) (mm_short_position s)
    \<and> (\<exists>ids. s' = s\<lparr>mm_short_position := with_id ids (mm_short_position s)\<rparr>)"
  using assms by (auto simp: check_short_exit_def Let_def bind_eq_Some_conv may_exit_def dest!: exit_short_effect split: if_splits)

lemma check_position_exit_effect:
  assumes "check_position_exit cfg ap now v bbo (s, m) = Some (s', m')"
  shows "frame s s' \<and> (view_ok v \<longrightarrow> keeps_buffers s s')"
    "mm_long_position s' = mm_long_position s \<or> may_exit (ps_long_phase (mm_phase_state s)) (mm_long_position s)
      \<and> (\<exists>ids. mm_long_position s' = with_id ids (mm_long_position s))"
    "mm_short_position s' = mm_short_position s \<or> may_exit (ps_short_phase (mm_phase_state s)) (mm_short_position s)
      \<and> (\<exists>ids. mm_short_position s' = with_id ids (mm_short_position s))"
    "\<not> may_exit (ps_long_phase (mm_phase_state s)) (mm_long_position s) \<Longrightarrow>
      \<not> may_exit (ps_short_phase (mm_phase_state s)) (mm_short_position s) \<Longrightarrow> m' = m"
proof -
  obtain obi s1 where i: "calculate_orderbook_imbalance v s = (obi, s1)" by fastforce
  note f = imbalance_frame [OF i] and ff = frame_fields(13) [OF imbalance_frame(1) [OF i]]
  obtain s2 m2 where l: "(if po_status (mm_long_position s1) = Pos_kActive then check_long_exit cfg ap now bbo (i64 (bid_price bbo + ask_price bbo) sdiv 2) obi (s1, m)
      else Some (s1, m)) = Some (s2, m2)"
    and r: "(if po_status (mm_short_position s2) = Pos_kActive then check_short_exit cfg ap now bbo (i64 (bid_price bbo + ask_price bbo) sdiv 2) obi (s2, m2)
      else Some (s2, m2)) = Some (s', m')"
    using assms by (auto simp: check_position_exit_def i Let_def bind_eq_Some_conv)
  have l': "s2 = s1 \<and> m2 = m \<or> may_exit (ps_long_phase (mm_phase_state s)) (mm_long_position s)
      \<and> (\<exists>ids. s2 = s1\<lparr>mm_long_position := with_id ids (mm_long_position s)\<rparr>)"
    using l check_long_exit_effect [of cfg ap now bbo _ obi s1 m s2 m2] f ff by (auto split: if_splits)
  then have r': "s' = s2 \<and> m' = m2 \<or> may_exit (ps_short_phase (mm_phase_state s)) (mm_short_position s)
      \<and> (\<exists>ids. s' = s2\<lparr>mm_short_position := with_id ids (mm_short_position s)\<rparr>)"
    using r check_short_exit_effect [of cfg ap now bbo _ obi s2 m2 s' m'] f ff by (auto split: if_splits)
  show "frame s s' \<and> (view_ok v \<longrightarrow> keeps_buffers s s')" using l' r' f by auto
  show "mm_long_position s' = mm_long_position s \<or> may_exit (ps_long_phase (mm_phase_state s)) (mm_long_position s)
      \<and> (\<exists>ids. mm_long_position s' = with_id ids (mm_long_position s))" using l' r' f by auto
  show "mm_short_position s' = mm_short_position s \<or> may_exit (ps_short_phase (mm_phase_state s)) (mm_short_position s)
      \<and> (\<exists>ids. mm_short_position s' = with_id ids (mm_short_position s))" using l' r' f by auto
  show "m' = m" if "\<not> may_exit (ps_long_phase (mm_phase_state s)) (mm_long_position s)" "\<not> may_exit (ps_short_phase (mm_phase_state s)) (mm_short_position s)"
    using l' r' that by auto
qed

subsection \<open>The trade callback\<close>

text \<open>The signals change the z-score modules, the adverse-selection tracker, the margin and the phases only.\<close>

lemma trade_signals_effect:
  assumes "trade_signals cfg now price s = Some s1"
  shows "\<exists>z ad t mg. s1 = s\<lparr>mm_zscore_fast := mm_zscore_fast s1, mm_zscore_mid := mm_zscore_mid s1, mm_zscore_slow := mm_zscore_slow s1,
      mm_adverse_selection_tracker := t, mm_entry_cfg := (mm_entry_cfg s)\<lparr>en_safety_margin_entry_bps := mg\<rparr>,
      mm_phase_state := update_phases (sc_mean_reversion_cfg cfg) (sc_zscore_threshold cfg) (now, z, ad) (mm_phase_state s)\<rparr>
    \<and> adverse_on_price_update now price (sc_adverse_selection_cfg cfg) (mm_adverse_selection_tracker s) = Some t
    \<and> mg \<in> {sc_original_safety_margin_bps cfg, i64 (sc_original_safety_margin_bps cfg * ac_margin_multiplier (sc_adverse_selection_cfg cfg)) sdiv kSignalScale}"
proof -
  obtain z s0 t pk ad where c: "calculate_multi_timeframe_zscores cfg price s = Some (z, s0)"
    and t: "adverse_on_price_update now price (sc_adverse_selection_cfg cfg) (mm_adverse_selection_tracker s0) = Some t"
    and s1: "s1 = s0\<lparr>mm_adverse_selection_tracker := t,
        mm_entry_cfg := (mm_entry_cfg s0)\<lparr>en_safety_margin_entry_bps :=
          (if pk then i64 (sc_original_safety_margin_bps cfg * ac_margin_multiplier (sc_adverse_selection_cfg cfg)) sdiv kSignalScale
           else sc_original_safety_margin_bps cfg)\<rparr>,
        mm_phase_state := update_phases (sc_mean_reversion_cfg cfg) (sc_zscore_threshold cfg) (now, z, ad) (mm_phase_state s0)\<rparr>"
    using assms by (auto simp: trade_signals_def handle_adverse_selection_def Let_def bind_eq_Some_conv)
  obtain zf zm zs where s0: "s0 = s\<lparr>mm_zscore_fast := zf, mm_zscore_mid := zm, mm_zscore_slow := zs\<rparr>"
    using c by (auto simp: calculate_multi_timeframe_zscores_def bind_eq_Some_conv)
  show ?thesis using t unfolding s1 s0
    by (intro exI [of _ z] exI [of _ ad] exI [of _ t]
        exI [of _ "if pk then i64 (sc_original_safety_margin_bps cfg * ac_margin_multiplier (sc_adverse_selection_cfg cfg)) sdiv kSignalScale
           else sc_original_safety_margin_bps cfg"]) simp
qed

lemma trade_signals_fields:
  assumes "trade_signals cfg now price s = Some s1"
  shows "mm_long_position s1 = mm_long_position s" "mm_short_position s1 = mm_short_position s" "mm_bid_wall_info s1 = mm_bid_wall_info s"
    "mm_ask_wall_info s1 = mm_ask_wall_info s" "mm_bid_wall_tracker s1 = mm_bid_wall_tracker s" "mm_ask_wall_tracker s1 = mm_ask_wall_tracker s"
    "mm_prev_bbo s1 = mm_prev_bbo s" "mm_bid_qty s1 = mm_bid_qty s" "mm_ask_qty s1 = mm_ask_qty s"
    "en_obi_levels (mm_entry_cfg s1) = en_obi_levels (mm_entry_cfg s)" "en_obi_threshold (mm_entry_cfg s1) = en_obi_threshold (mm_entry_cfg s)"
    "en_position_size_raw (mm_entry_cfg s1) = en_position_size_raw (mm_entry_cfg s)"
    "en_defense_max_price_slippage_raw (mm_entry_cfg s1) = en_defense_max_price_slippage_raw (mm_entry_cfg s)"
    "\<exists>x. mm_phase_state s1 = update_phases (sc_mean_reversion_cfg cfg) (sc_zscore_threshold cfg) x (mm_phase_state s)"
  using trade_signals_effect [OF assms] by (elim exE conjE; cases s; cases s1; auto)+

lemma guards_of_signals:
  assumes "trade_signals cfg now price s = Some s1"
  shows "long_entry_guard cfg md v s1 = long_entry_guard cfg md v s" "short_entry_guard cfg md v s1 = short_entry_guard cfg md v s"
  using trade_signals_fields [OF assms]
  by (simp_all add: long_entry_guard_def short_entry_guard_def calculate_orderbook_imbalance_def validate_defense_realtime_def Let_def)

lemma frame_phase: "frame s s' \<Longrightarrow> frame (s\<lparr>mm_phase_state := p\<rparr>) (s'\<lparr>mm_phase_state := p\<rparr>)"
  by (cases s; cases s') (simp add: frame_def)

lemma keeps_buffers_phase [simp]: "keeps_buffers (s\<lparr>mm_phase_state := p\<rparr>) s' = keeps_buffers s s'" "keeps_buffers s (s'\<lparr>mm_phase_state := p\<rparr>) = keeps_buffers s s'"
  by (simp_all add: keeps_buffers_def)

definition reset_short_phase :: "PhaseState \<Rightarrow> PhaseState" where
  "reset_short_phase ps = (if ps_short_phase ps = Ph_kVeryWeak then ps\<lparr>ps_short_phase := Ph_kNeutral\<rparr> else ps)"

definition reset_long_phase :: "PhaseState \<Rightarrow> PhaseState" where
  "reset_long_phase ps = (if ps_long_phase ps = Ph_kVeryWeak then ps\<lparr>ps_long_phase := Ph_kNeutral\<rparr> else ps)"

lemma reset_phases_parts: "reset_phases ps = reset_long_phase (reset_short_phase ps)"
  by (simp add: reset_phases_def reset_long_phase_def reset_short_phase_def Let_def)

lemma same_phase [simp]: "s\<lparr>mm_phase_state := mm_phase_state s\<rparr> = s"
  by (cases s) simp

lemma enter_long_effect:
  assumes "enter_long cfg ap now md v (s, m) = Some (s', m')"
  shows "frame (s\<lparr>mm_phase_state := reset_short_phase (mm_phase_state s)\<rparr>) s'" "view_ok v \<Longrightarrow> keeps_buffers s s'"
    "mm_short_position s' = mm_short_position s" "ps_short_phase (mm_phase_state s) \<noteq> Ph_kVeryWeak \<Longrightarrow> s' = s \<and> m' = m"
    "mm_long_position s' = mm_long_position s \<and> m' = m
      \<or> ps_short_phase (mm_phase_state s) = Ph_kVeryWeak \<and> long_entry_guard cfg md v s
        \<and> (\<exists>ids. mm_long_position s' = entered (mm_entry_cfg s) (bid_price (bv_bbo v)) (mm_bid_wall_info s) now ids (mm_long_position s))"
proof -
  consider (skip) "ps_short_phase (mm_phase_state s) \<noteq> Ph_kVeryWeak" "s' = s" "m' = m"
    | (attempt) s1 where "ps_short_phase (mm_phase_state s) = Ph_kVeryWeak" "try_long_entry cfg ap now md v (bv_bbo v) (s, m) = Some (s1, m')"
      "s' = s1\<lparr>mm_phase_state := (mm_phase_state s1)\<lparr>ps_short_phase := Ph_kNeutral\<rparr>\<rparr>"
    using assms by (auto simp: enter_long_def bind_eq_Some_conv split: if_splits)
  then have "frame (s\<lparr>mm_phase_state := reset_short_phase (mm_phase_state s)\<rparr>) s' \<and> (view_ok v \<longrightarrow> keeps_buffers s s')
    \<and> mm_short_position s' = mm_short_position s \<and> (ps_short_phase (mm_phase_state s) \<noteq> Ph_kVeryWeak \<longrightarrow> s' = s \<and> m' = m)
    \<and> (mm_long_position s' = mm_long_position s \<and> m' = m
      \<or> ps_short_phase (mm_phase_state s) = Ph_kVeryWeak \<and> long_entry_guard cfg md v s
        \<and> (\<exists>ids. mm_long_position s' = entered (mm_entry_cfg s) (bid_price (bv_bbo v)) (mm_bid_wall_info s) now ids (mm_long_position s)))"
  proof cases
    case skip
    then show ?thesis by (simp add: reset_short_phase_def)
  next
    case attempt
    note e = try_long_entry_effect [OF attempt(2)]
    show ?thesis using e(2-) frame_phase [OF e(1)] attempt(1,3) frame_fields(13) [OF e(1)] by (auto simp: reset_short_phase_def)
  qed
  then show "frame (s\<lparr>mm_phase_state := reset_short_phase (mm_phase_state s)\<rparr>) s'" "view_ok v \<Longrightarrow> keeps_buffers s s'"
    "mm_short_position s' = mm_short_position s" "ps_short_phase (mm_phase_state s) \<noteq> Ph_kVeryWeak \<Longrightarrow> s' = s \<and> m' = m"
    "mm_long_position s' = mm_long_position s \<and> m' = m
      \<or> ps_short_phase (mm_phase_state s) = Ph_kVeryWeak \<and> long_entry_guard cfg md v s
        \<and> (\<exists>ids. mm_long_position s' = entered (mm_entry_cfg s) (bid_price (bv_bbo v)) (mm_bid_wall_info s) now ids (mm_long_position s))"
    by blast+
qed

lemma enter_short_effect:
  assumes "enter_short cfg ap now md v (s, m) = Some (s', m')"
  shows "frame (s\<lparr>mm_phase_state := reset_long_phase (mm_phase_state s)\<rparr>) s'" "view_ok v \<Longrightarrow> keeps_buffers s s'"
    "mm_long_position s' = mm_long_position s" "ps_long_phase (mm_phase_state s) \<noteq> Ph_kVeryWeak \<Longrightarrow> s' = s \<and> m' = m"
    "mm_short_position s' = mm_short_position s \<and> m' = m
      \<or> ps_long_phase (mm_phase_state s) = Ph_kVeryWeak \<and> short_entry_guard cfg md v s
        \<and> (\<exists>ids. mm_short_position s' = entered (mm_entry_cfg s) (ask_price (bv_bbo v)) (mm_ask_wall_info s) now ids (mm_short_position s))"
proof -
  consider (skip) "ps_long_phase (mm_phase_state s) \<noteq> Ph_kVeryWeak" "s' = s" "m' = m"
    | (attempt) s1 where "ps_long_phase (mm_phase_state s) = Ph_kVeryWeak" "try_short_entry cfg ap now md v (bv_bbo v) (s, m) = Some (s1, m')"
      "s' = s1\<lparr>mm_phase_state := (mm_phase_state s1)\<lparr>ps_long_phase := Ph_kNeutral\<rparr>\<rparr>"
    using assms by (auto simp: enter_short_def bind_eq_Some_conv split: if_splits)
  then have "frame (s\<lparr>mm_phase_state := reset_long_phase (mm_phase_state s)\<rparr>) s' \<and> (view_ok v \<longrightarrow> keeps_buffers s s')
    \<and> mm_long_position s' = mm_long_position s \<and> (ps_long_phase (mm_phase_state s) \<noteq> Ph_kVeryWeak \<longrightarrow> s' = s \<and> m' = m)
    \<and> (mm_short_position s' = mm_short_position s \<and> m' = m
      \<or> ps_long_phase (mm_phase_state s) = Ph_kVeryWeak \<and> short_entry_guard cfg md v s
        \<and> (\<exists>ids. mm_short_position s' = entered (mm_entry_cfg s) (ask_price (bv_bbo v)) (mm_ask_wall_info s) now ids (mm_short_position s)))"
  proof cases
    case skip
    then show ?thesis by (simp add: reset_long_phase_def)
  next
    case attempt
    note e = try_short_entry_effect [OF attempt(2)]
    show ?thesis using e(2-) frame_phase [OF e(1)] attempt(1,3) frame_fields(13) [OF e(1)] by (auto simp: reset_long_phase_def)
  qed
  then show "frame (s\<lparr>mm_phase_state := reset_long_phase (mm_phase_state s)\<rparr>) s'" "view_ok v \<Longrightarrow> keeps_buffers s s'"
    "mm_long_position s' = mm_long_position s" "ps_long_phase (mm_phase_state s) \<noteq> Ph_kVeryWeak \<Longrightarrow> s' = s \<and> m' = m"
    "mm_short_position s' = mm_short_position s \<and> m' = m
      \<or> ps_long_phase (mm_phase_state s) = Ph_kVeryWeak \<and> short_entry_guard cfg md v s
        \<and> (\<exists>ids. mm_short_position s' = entered (mm_entry_cfg s) (ask_price (bv_bbo v)) (mm_ask_wall_info s) now ids (mm_short_position s))"
    by blast+
qed

text \<open>What the entries of a trade callback may do: at most one side enters, only from a state in which both sides are empty.\<close>

lemma trade_entries_effect:
  assumes "trade_entries cfg ap now md v (s, m) = Some (s', m')"
  shows "frame (s\<lparr>mm_phase_state := reset_phases (mm_phase_state s)\<rparr>) s'" "view_ok v \<Longrightarrow> keeps_buffers s s'"
    "mm_long_position s' = mm_long_position s
      \<or> ps_short_phase (mm_phase_state s) = Ph_kVeryWeak \<and> long_entry_guard cfg md v s \<and> mm_short_position s' = mm_short_position s
        \<and> (\<exists>ids. mm_long_position s' = entered (mm_entry_cfg s) (bid_price (bv_bbo v)) (mm_bid_wall_info s) now ids (mm_long_position s))"
    "mm_short_position s' = mm_short_position s
      \<or> ps_long_phase (mm_phase_state s) = Ph_kVeryWeak \<and> po_status (mm_long_position s) = Pos_kNone \<and> po_status (mm_short_position s) = Pos_kNone
        \<and> wi_is_valid (mm_ask_wall_info s) \<and> composite_quality (mm_ask_wall_tracker s) \<ge> 6000 \<and> mm_long_position s' = mm_long_position s
        \<and> (\<exists>ids. mm_short_position s' = entered (mm_entry_cfg s) (ask_price (bv_bbo v)) (mm_ask_wall_info s) now ids (mm_short_position s))"
    "ps_short_phase (mm_phase_state s) \<noteq> Ph_kVeryWeak \<Longrightarrow> ps_long_phase (mm_phase_state s) \<noteq> Ph_kVeryWeak \<Longrightarrow> s' = s \<and> m' = m"
    "po_status (mm_long_position s) \<noteq> Pos_kNone \<Longrightarrow> m' = m"
proof -
  obtain s1 m1 where l: "enter_long cfg ap now md v (s, m) = Some (s1, m1)" and r: "enter_short cfg ap now md v (s1, m1) = Some (s', m')"
    using assms by (auto simp: trade_entries_def bind_eq_Some_conv)
  note el = enter_long_effect [OF l] and er = enter_short_effect [OF r] and f = frame_fields [OF enter_long_effect(1) [OF l], simplified]
  have ph: "mm_phase_state s1 = reset_short_phase (mm_phase_state s)" "ps_long_phase (mm_phase_state s1) = ps_long_phase (mm_phase_state s)"
    using f(13) by (simp_all add: reset_short_phase_def)
  show "frame (s\<lparr>mm_phase_state := reset_phases (mm_phase_state s)\<rparr>) s'"
    using frame_trans [OF frame_phase [OF el(1), of "reset_phases (mm_phase_state s)"], of s'] er(1) ph(1) by (simp add: reset_phases_parts)
  show "view_ok v \<Longrightarrow> keeps_buffers s s'" using el(2) er(2) keeps_buffers_trans by blast
  have n: "po_status (mm_long_position s1) = Pos_kNone \<Longrightarrow> mm_long_position s1 = mm_long_position s" using el(5) by (auto simp: entered_def)
  show "mm_long_position s' = mm_long_position s
      \<or> ps_short_phase (mm_phase_state s) = Ph_kVeryWeak \<and> long_entry_guard cfg md v s \<and> mm_short_position s' = mm_short_position s
        \<and> (\<exists>ids. mm_long_position s' = entered (mm_entry_cfg s) (bid_price (bv_bbo v)) (mm_bid_wall_info s) now ids (mm_long_position s))"
    using el(3,5) er(3,5) n by (auto simp: short_entry_guard_def)
  show "mm_short_position s' = mm_short_position s
      \<or> ps_long_phase (mm_phase_state s) = Ph_kVeryWeak \<and> po_status (mm_long_position s) = Pos_kNone \<and> po_status (mm_short_position s) = Pos_kNone
        \<and> wi_is_valid (mm_ask_wall_info s) \<and> composite_quality (mm_ask_wall_tracker s) \<ge> 6000 \<and> mm_long_position s' = mm_long_position s
        \<and> (\<exists>ids. mm_short_position s' = entered (mm_entry_cfg s) (ask_price (bv_bbo v)) (mm_ask_wall_info s) now ids (mm_short_position s))"
    using el(3) er(3,5) n f ph(2) by (auto simp: short_entry_guard_def)
  show "s' = s \<and> m' = m" if "ps_short_phase (mm_phase_state s) \<noteq> Ph_kVeryWeak" "ps_long_phase (mm_phase_state s) \<noteq> Ph_kVeryWeak"
    using el(4) er(4) that by simp
  show "m' = m" if "po_status (mm_long_position s) \<noteq> Pos_kNone"
    using el(5) er(5) that by (auto simp: long_entry_guard_def short_entry_guard_def)
qed

lemma on_trade_cases:
  assumes "on_trade_updated cfg ap now md v (s, m) = Some (s', m')"
  obtains (invalid) "\<not> is_bbo_valid (bv_bbo v)" "s' = s" "m' = m"
    | (run) s1 s2 m2 s3 m3 dt ids where "is_bbo_valid (bv_bbo v)" "trade_signals cfg now (md_price md) s = Some s1"
      "trade_entries cfg ap now md v (s1, m) = Some (s2, m2)" "check_position_exit cfg ap now v (bv_bbo v) (s2, m2) = Some (s3, m3)"
      "ap [] m3 = Some (m', ids)" "s' = s3\<lparr>mm_prev_bbo := bv_bbo v, mm_dynamic_threshold := dt\<rparr>"
  using assms by (auto simp: on_trade_updated_def bind_eq_Some_conv split: if_splits)

text \<open>What a trade callback may do to the two positions: nothing, an entry or an exit.\<close>

definition long_enters :: "StrategyConfig \<Rightarrow> u64 \<Rightarrow> MarketData \<Rightarrow> book_view \<Rightarrow> MeanReversionMaker \<Rightarrow> MeanReversionMaker \<Rightarrow> bool" where
  "long_enters cfg now md v s s' \<longleftrightarrow>
     is_bbo_valid (bv_bbo v) \<and> long_entry_guard cfg md v s \<and> mm_short_position s' = mm_short_position s
     \<and> (\<exists>s1. trade_signals cfg now (md_price md) s = Some s1 \<and> ps_short_phase (mm_phase_state s1) = Ph_kVeryWeak)
     \<and> (\<exists>ids. mm_long_position s' = entered (mm_entry_cfg s) (bid_price (bv_bbo v)) (mm_bid_wall_info s) now ids (mm_long_position s))"

definition short_enters :: "StrategyConfig \<Rightarrow> u64 \<Rightarrow> MarketData \<Rightarrow> book_view \<Rightarrow> MeanReversionMaker \<Rightarrow> MeanReversionMaker \<Rightarrow> bool" where
  "short_enters cfg now md v s s' \<longleftrightarrow>
     is_bbo_valid (bv_bbo v) \<and> po_status (mm_long_position s) = Pos_kNone \<and> po_status (mm_short_position s) = Pos_kNone
     \<and> wi_is_valid (mm_ask_wall_info s) \<and> composite_quality (mm_ask_wall_tracker s) \<ge> 6000 \<and> mm_long_position s' = mm_long_position s
     \<and> (\<exists>s1. trade_signals cfg now (md_price md) s = Some s1 \<and> ps_long_phase (mm_phase_state s1) = Ph_kVeryWeak)
     \<and> (\<exists>ids. mm_short_position s' = entered (mm_entry_cfg s) (ask_price (bv_bbo v)) (mm_ask_wall_info s) now ids (mm_short_position s))"

definition long_exits :: "StrategyConfig \<Rightarrow> u64 \<Rightarrow> MarketData \<Rightarrow> MeanReversionMaker \<Rightarrow> MeanReversionMaker \<Rightarrow> bool" where
  "long_exits cfg now md s s' \<longleftrightarrow>
     (\<exists>s1. trade_signals cfg now (md_price md) s = Some s1 \<and> may_exit (ps_long_phase (reset_phases (mm_phase_state s1))) (mm_long_position s))
     \<and> (\<exists>ids. mm_long_position s' = with_id ids (mm_long_position s))"

definition short_exits :: "StrategyConfig \<Rightarrow> u64 \<Rightarrow> MarketData \<Rightarrow> MeanReversionMaker \<Rightarrow> MeanReversionMaker \<Rightarrow> bool" where
  "short_exits cfg now md s s' \<longleftrightarrow>
     (\<exists>s1. trade_signals cfg now (md_price md) s = Some s1 \<and> may_exit (ps_short_phase (reset_phases (mm_phase_state s1))) (mm_short_position s))
     \<and> (\<exists>ids. mm_short_position s' = with_id ids (mm_short_position s))"

lemma entered_pending [simp]: "po_status (entered c pr w now ids p) = Pos_kPending"
  by (simp add: entered_def)

lemma entered_cfg: "en_position_size_raw c = en_position_size_raw c' \<Longrightarrow> entered c pr w now ids p = entered c' pr w now ids p"
  by (simp add: entered_def)

lemma may_exit_active: "may_exit ph p \<Longrightarrow> po_status p = Pos_kActive \<and> po_pending_order_id p = None \<and> exit_phase_signal ph"
  by (simp add: may_exit_def)

lemma on_trade_positions:
  assumes "on_trade_updated cfg ap now md v (s, m) = Some (s', m')"
  shows "mm_long_position s' = mm_long_position s \<or> long_enters cfg now md v s s' \<or> long_exits cfg now md s s'"
    "mm_short_position s' = mm_short_position s \<or> short_enters cfg now md v s s' \<or> short_exits cfg now md s s'"
proof -
  have "(mm_long_position s' = mm_long_position s \<or> long_enters cfg now md v s s' \<or> long_exits cfg now md s s')
    \<and> (mm_short_position s' = mm_short_position s \<or> short_enters cfg now md v s s' \<or> short_exits cfg now md s s')"
    using assms
  proof (cases rule: on_trade_cases)
    case invalid
    then show ?thesis by simp
  next
    case (run s1 s2 m2 s3 m3 dt ids)
    note g = trade_signals_fields [OF run(2)] guards_of_signals(1) [OF run(2), of md v] entered_cfg [OF trade_signals_fields(12) [OF run(2)]]
      and e = trade_entries_effect [OF run(3)] and x = check_position_exit_effect [OF run(4)]
    have ph: "mm_phase_state s2 = reset_phases (mm_phase_state s1)" using frame_fields(13) [OF e(1)] by simp
    have p: "mm_long_position s' = mm_long_position s3" "mm_short_position s' = mm_short_position s3" using run(6) by simp_all
    have l: "mm_long_position s' = mm_long_position s \<or> long_enters cfg now md v s s' \<or> long_exits cfg now md s s'"
    proof (cases "mm_long_position s2 = mm_long_position s")
      case True
      then show ?thesis using x(2) run(2) ph p by (auto simp: long_exits_def)
    next
      case False
      then have "ps_short_phase (mm_phase_state s1) = Ph_kVeryWeak" "long_entry_guard cfg md v s" "mm_short_position s2 = mm_short_position s"
        "\<exists>ids. mm_long_position s2 = entered (mm_entry_cfg s) (bid_price (bv_bbo v)) (mm_bid_wall_info s) now ids (mm_long_position s)"
        using e(3) g by auto
      moreover from this have "mm_long_position s3 = mm_long_position s2" "mm_short_position s3 = mm_short_position s2"
        using x(2,3) by (auto dest!: may_exit_active simp: long_entry_guard_def)
      ultimately show ?thesis using run(1,2) p by (auto simp: long_enters_def)
    qed
    moreover have "mm_short_position s' = mm_short_position s \<or> short_enters cfg now md v s s' \<or> short_exits cfg now md s s'"
    proof (cases "mm_short_position s2 = mm_short_position s")
      case True
      then show ?thesis using x(3) run(2) ph p by (auto simp: short_exits_def)
    next
      case False
      then have "ps_long_phase (mm_phase_state s1) = Ph_kVeryWeak" "po_status (mm_long_position s) = Pos_kNone" "po_status (mm_short_position s) = Pos_kNone"
        "wi_is_valid (mm_ask_wall_info s)" "composite_quality (mm_ask_wall_tracker s) \<ge> 6000" "mm_long_position s2 = mm_long_position s"
        "\<exists>ids. mm_short_position s2 = entered (mm_entry_cfg s) (ask_price (bv_bbo v)) (mm_ask_wall_info s) now ids (mm_short_position s)"
        using e(4) g by auto
      moreover from this have "mm_long_position s3 = mm_long_position s2" "mm_short_position s3 = mm_short_position s2"
        using x(2,3) by (auto dest!: may_exit_active)
      ultimately show ?thesis using run(1,2) p by (auto simp: short_enters_def)
    qed
    ultimately show ?thesis by blast
  qed
  then show "mm_long_position s' = mm_long_position s \<or> long_enters cfg now md v s s' \<or> long_exits cfg now md s s'"
    "mm_short_position s' = mm_short_position s \<or> short_enters cfg now md v s s' \<or> short_exits cfg now md s s'"
    by blast+
qed


subsection \<open>Runs\<close>

datatype mm_event =
    Book_Update u64 string book_view
  | Trade_Update u64 MarketData book_view
  | Order_Report u64 PositionInfo int64 ExecutionReport

fun mm_step :: "StrategyConfig \<Rightarrow> (u64 \<Rightarrow> 'm om_call) \<Rightarrow> mm_event \<Rightarrow> MeanReversionMaker \<times> 'm \<Rightarrow> (MeanReversionMaker \<times> 'm) option" where
  "mm_step cfg ap (Book_Update now ticker v) (s, m) = map_option (\<lambda>s'. (s', m)) (on_orderbook_updated cfg now ticker v s)"
| "mm_step cfg ap (Trade_Update now md v) (s, m) = on_trade_updated cfg (ap now) now md v (s, m)"
| "mm_step cfg ap (Order_Report now pos_info avg report) (s, m) = strategy_on_order_updated cfg (ap now) now pos_info avg report (s, m)"

fun mm_run :: "StrategyConfig \<Rightarrow> (u64 \<Rightarrow> 'm om_call) \<Rightarrow> mm_event list \<Rightarrow> MeanReversionMaker \<times> 'm \<Rightarrow> (MeanReversionMaker \<times> 'm) option" where
  "mm_run cfg ap [] st = Some st"
| "mm_run cfg ap (e # es) st = (case mm_step cfg ap e st of None \<Rightarrow> None | Some st' \<Rightarrow> mm_run cfg ap es st')"

lemma mm_run_invariant:
  assumes "mm_run cfg ap es (s, m) = Some (s', m')" "P s" "list_all ok es"
    and "\<And>e s m s' m'. ok e \<Longrightarrow> P s \<Longrightarrow> mm_step cfg ap e (s, m) = Some (s', m') \<Longrightarrow> P s'"
  shows "P s'"
  using assms(1-3) by (induction es arbitrary: s m) (auto split: option.splits intro: assms(4))

lemma on_orderbook_effect:
  assumes "on_orderbook_updated cfg now ticker v s = Some s'"
  shows "mm_long_position s' = mm_long_position s" "mm_short_position s' = mm_short_position s"
  using assms by (auto simp: on_orderbook_updated_def Let_def bind_eq_Some_conv split: if_splits)

lemma on_long_fill_active:
  assumes "po_status (mm_long_position s) = Pos_kActive"
  shows "on_long_fill cfg ap now pos_info avg report (s, m) = Some (s, m)"
  using assms by (simp add: on_long_fill_def Let_def)

lemma on_short_fill_active:
  assumes "po_status (mm_short_position s) = Pos_kActive"
  shows "on_short_fill cfg ap now pos_info avg report (s, m) = Some (s, m)"
  using assms by (simp add: on_short_fill_def Let_def)

text \<open>What a fill does to the position of its side; everything else but the adverse-selection tracker stays.\<close>

definition liquidated :: "int64 \<Rightarrow> int64 \<Rightarrow> order_id list \<Rightarrow> PositionState \<Rightarrow> PositionState" where
  "liquidated avg actual ids p =
     (case ids of i # _ \<Rightarrow> p\<lparr>po_qty := actual, po_entry_price := avg, po_pending_order_id := Some i, po_status := Pos_kPending\<rparr>
      | [] \<Rightarrow> p\<lparr>po_qty := actual, po_entry_price := avg, po_status := Pos_kNone, po_pending_order_id := None\<rparr>)"

lemma liquidate_long_effect:
  assumes "liquidate_long cfg ap avg actual (s, m) = Some (s', m')"
  shows "\<exists>ids. s' = s\<lparr>mm_long_position := liquidated avg actual ids (mm_long_position s)\<rparr>"
proof -
  obtain ids where "s' = s\<lparr>mm_long_position := (case ids of
        order_id # _ \<Rightarrow> (mm_long_position s)\<lparr>po_qty := actual, po_entry_price := avg, po_pending_order_id := Some order_id, po_status := Pos_kPending\<rparr>
      | [] \<Rightarrow> (mm_long_position s)\<lparr>po_qty := actual, po_entry_price := avg, po_status := Pos_kNone, po_pending_order_id := None\<rparr>)\<rparr>"
    using assms by (auto simp: liquidate_long_def Let_def bind_eq_Some_conv)
  then show ?thesis by (intro exI [of _ ids]) (simp add: liquidated_def)
qed

lemma liquidate_short_effect:
  assumes "liquidate_short cfg ap avg actual (s, m) = Some (s', m')"
  shows "\<exists>ids. s' = s\<lparr>mm_short_position := liquidated avg actual ids (mm_short_position s)\<rparr>"
proof -
  obtain ids where "s' = s\<lparr>mm_short_position := (case ids of
        order_id # _ \<Rightarrow> (mm_short_position s)\<lparr>po_qty := actual, po_entry_price := avg, po_pending_order_id := Some order_id, po_status := Pos_kPending\<rparr>
      | [] \<Rightarrow> (mm_short_position s)\<lparr>po_qty := actual, po_entry_price := avg, po_status := Pos_kNone, po_pending_order_id := None\<rparr>)\<rparr>"
    using assms by (auto simp: liquidate_short_def Let_def bind_eq_Some_conv)
  then show ?thesis by (intro exI [of _ ids]) (simp add: liquidated_def)
qed

definition pos_ok :: "PositionState \<Rightarrow> bool" where
  "pos_ok p \<longleftrightarrow> (po_status p = Pos_kNone \<longrightarrow> po_pending_order_id p = None)"

lemma pos_ok_simps [simp]: "pos_ok (liquidated avg actual ids p)" "pos_ok (entered c pr w now ids p)" "pos_ok PositionState_new"
  "po_status p = Pos_kActive \<Longrightarrow> pos_ok (with_id ids p)"
  by (auto simp: pos_ok_def liquidated_def PositionState_new_def split: list.split)

lemma same_tracker [simp]: "s\<lparr>mm_adverse_selection_tracker := mm_adverse_selection_tracker s\<rparr> = s"
  by (cases s) simp

lemma on_long_fill_effect:
  assumes "on_long_fill cfg ap now pos_info avg report (s, m) = Some (s', m')"
  shows "\<exists>p t. s' = s\<lparr>mm_long_position := p, mm_adverse_selection_tracker := t\<rparr> \<and> (pos_ok (mm_long_position s) \<longrightarrow> pos_ok p)
    \<and> (t = mm_adverse_selection_tracker s
       \<or> t = adverse_on_fill now avg (er_side report) (ac_max_fill_history (sc_adverse_selection_cfg cfg)) (mm_adverse_selection_tracker s))"
    (is ?goal)
proof -
  let ?p = "mm_long_position s" and ?a = "pi_long_position_raw pos_info"
  have keep: ?goal if "s' = s\<lparr>mm_long_position := p\<rparr>" "pos_ok ?p \<longrightarrow> pos_ok p" for p
    using that by (intro exI [of _ p] exI [of _ "mm_adverse_selection_tracker s"]) (cases s; simp)
  have liq: ?goal if "liquidate_long cfg ap avg ?a (s, m) = Some (s', m')"
    using liquidate_long_effect [OF that] by (elim exE) (rule keep, auto)
  show ?goal
  proof (cases "po_status ?p = Pos_kPending")
    case True
    consider "po_pending_order_id ?p = Some (er_cl_order_id report)" | "po_pending_order_id ?p \<noteq> Some (er_cl_order_id report)" "?a > 0"
      | "po_pending_order_id ?p \<noteq> Some (er_cl_order_id report)" "\<not> ?a > 0" by blast
    then show ?thesis
    proof cases
      case 1
      then have "s' = s\<lparr>mm_long_position := ?p\<lparr>po_status := Pos_kActive, po_entry_price := avg, po_entry_wall_info := mm_bid_wall_info s,
            po_state_time := now, po_pending_order_id := None\<rparr>,
          mm_adverse_selection_tracker := adverse_on_fill now avg (er_side report) (ac_max_fill_history (sc_adverse_selection_cfg cfg))
            (mm_adverse_selection_tracker s)\<rparr>"
        using assms True by (simp add: on_long_fill_def Let_def)
      then show ?thesis by (intro exI conjI) (assumption, simp_all add: pos_ok_def)
    next
      case 2
      then show ?thesis using assms True by (intro liq) (simp add: on_long_fill_def Let_def)
    next
      case 3
      then have "s' = s\<lparr>mm_long_position := ?p\<lparr>po_status := Pos_kNone, po_pending_order_id := None\<rparr>\<rparr>"
        using assms True by (simp add: on_long_fill_def Let_def)
      then show ?thesis by (rule keep) (simp add: pos_ok_def)
    qed
  next
    case False
    show ?thesis
    proof (cases "po_status ?p = Pos_kNone \<and> ?a > 0")
      case True
      then show ?thesis using assms False by (intro liq) (simp add: on_long_fill_def Let_def)
    next
      case no: False
      then have "s' = s" using assms False by (simp add: on_long_fill_def Let_def split: if_splits)
      then show ?thesis by (intro keep [of ?p]) simp_all
    qed
  qed
qed

lemma on_short_fill_effect:
  assumes "on_short_fill cfg ap now pos_info avg report (s, m) = Some (s', m')"
  shows "\<exists>p t. s' = s\<lparr>mm_short_position := p, mm_adverse_selection_tracker := t\<rparr> \<and> (pos_ok (mm_short_position s) \<longrightarrow> pos_ok p)
    \<and> (t = mm_adverse_selection_tracker s
       \<or> t = adverse_on_fill now avg (er_side report) (ac_max_fill_history (sc_adverse_selection_cfg cfg)) (mm_adverse_selection_tracker s))"
    (is ?goal)
proof -
  let ?p = "mm_short_position s" and ?a = "pi_short_position_raw pos_info"
  have keep: ?goal if "s' = s\<lparr>mm_short_position := p\<rparr>" "pos_ok ?p \<longrightarrow> pos_ok p" for p
    using that by (intro exI [of _ p] exI [of _ "mm_adverse_selection_tracker s"]) (cases s; simp)
  have liq: ?goal if "liquidate_short cfg ap avg ?a (s, m) = Some (s', m')"
    using liquidate_short_effect [OF that] by (elim exE) (rule keep, auto)
  show ?goal
  proof (cases "po_status ?p = Pos_kPending")
    case True
    consider "po_pending_order_id ?p = Some (er_cl_order_id report)" | "po_pending_order_id ?p \<noteq> Some (er_cl_order_id report)" "?a > 0"
      | "po_pending_order_id ?p \<noteq> Some (er_cl_order_id report)" "\<not> ?a > 0" by blast
    then show ?thesis
    proof cases
      case 1
      then have "s' = s\<lparr>mm_short_position := ?p\<lparr>po_status := Pos_kActive, po_entry_price := avg, po_entry_wall_info := mm_ask_wall_info s,
            po_state_time := now, po_pending_order_id := None\<rparr>,
          mm_adverse_selection_tracker := adverse_on_fill now avg (er_side report) (ac_max_fill_history (sc_adverse_selection_cfg cfg))
            (mm_adverse_selection_tracker s)\<rparr>"
        using assms True by (simp add: on_short_fill_def Let_def)
      then show ?thesis by (intro exI conjI) (assumption, simp_all add: pos_ok_def)
    next
      case 2
      then show ?thesis using assms True by (intro liq) (simp add: on_short_fill_def Let_def)
    next
      case 3
      then have "s' = s\<lparr>mm_short_position := ?p\<lparr>po_status := Pos_kNone, po_pending_order_id := None\<rparr>\<rparr>"
        using assms True by (simp add: on_short_fill_def Let_def)
      then show ?thesis by (rule keep) (simp add: pos_ok_def)
    qed
  next
    case False
    show ?thesis
    proof (cases "po_status ?p = Pos_kNone \<and> ?a > 0")
      case True
      then show ?thesis using assms False by (intro liq) (simp add: on_short_fill_def Let_def)
    next
      case no: False
      then have "s' = s" using assms False by (simp add: on_short_fill_def Let_def split: if_splits)
      then show ?thesis by (intro keep [of ?p]) simp_all
    qed
  qed
qed

text \<open>A report changes the two positions and the fill history only.\<close>

definition report_frame :: "MeanReversionMaker \<Rightarrow> MeanReversionMaker \<Rightarrow> bool" where
  "report_frame s s' \<longleftrightarrow> s' = s\<lparr>mm_long_position := mm_long_position s', mm_short_position := mm_short_position s',
     mm_adverse_selection_tracker := mm_adverse_selection_tracker s'\<rparr>"

lemma report_frame_simps [simp]:
  "report_frame s s" "report_frame s (s'\<lparr>mm_long_position := p\<rparr>) = report_frame s s'" "report_frame s (s'\<lparr>mm_short_position := p\<rparr>) = report_frame s s'"
  "report_frame s (s'\<lparr>mm_adverse_selection_tracker := t\<rparr>) = report_frame s s'"
  by (cases s; cases s'; simp add: report_frame_def)+

definition fills_bounded :: "StrategyConfig \<Rightarrow> MeanReversionMaker \<Rightarrow> bool" where
  "fills_bounded cfg s \<longleftrightarrow> int (length (as_recent_fills (mm_adverse_selection_tracker s))) \<le> ac_max_fill_history (sc_adverse_selection_cfg cfg)"

lemma on_order_effect:
  assumes "strategy_on_order_updated cfg ap now pos_info avg report (s, m) = Some (s', m')"
  shows "report_frame s s'" "pos_ok (mm_long_position s) \<Longrightarrow> pos_ok (mm_long_position s')" "pos_ok (mm_short_position s) \<Longrightarrow> pos_ok (mm_short_position s')"
    "fills_bounded cfg s \<Longrightarrow> fills_bounded cfg s'"
proof -
  have fb: "fills_bounded cfg s \<Longrightarrow> fills_bounded cfg (s\<lparr>mm_adverse_selection_tracker :=
      adverse_on_fill now avg side (ac_max_fill_history (sc_adverse_selection_cfg cfg)) (mm_adverse_selection_tracker s)\<rparr>)" for s side
    by (auto simp: fills_bounded_def adverse_on_fill_def Let_def)
  have fb': "fills_bounded cfg (s\<lparr>mm_long_position := p\<rparr>) = fills_bounded cfg s" "fills_bounded cfg (s\<lparr>mm_short_position := p\<rparr>) = fills_bounded cfg s" for s p
    by (simp_all add: fills_bounded_def)
  let ?P = "\<lambda>s s'. report_frame s s' \<and> (pos_ok (mm_long_position s) \<longrightarrow> pos_ok (mm_long_position s'))
    \<and> (pos_ok (mm_short_position s) \<longrightarrow> pos_ok (mm_short_position s')) \<and> (fills_bounded cfg s \<longrightarrow> fills_bounded cfg s')"
  have tr: "?P a b \<Longrightarrow> ?P b c \<Longrightarrow> ?P a c" for a b c by (cases a; cases b; cases c) (auto simp: report_frame_def)
  have cl: "?P a (close_positions pos_info a)" for a by (auto simp: close_positions_def Let_def pos_ok_def fills_bounded_def)
  have ca: "?P a (on_cancelled report a)" for a by (auto simp: on_cancelled_def Let_def fills_bounded_def)
  have lf: "?P a b" if "on_long_fill cfg ap now pos_info avg report (a, x) = Some (b, y)" for a b x y
    using on_long_fill_effect [OF that] fb [of a] fb' by (auto simp: fills_bounded_def)
  have sf: "?P a b" if "on_short_fill cfg ap now pos_info avg report (a, x) = Some (b, y)" for a b x y
    using on_short_fill_effect [OF that] fb [of a] fb' by (auto simp: fills_bounded_def)
  consider "s' = s" | s1 m1 s2 m2 where
    "s1 = s \<or> on_long_fill cfg ap now pos_info avg report (s, m) = Some (s1, m1)"
    "s2 = s1 \<or> on_short_fill cfg ap now pos_info avg report (s1, m1) = Some (s2, m2)"
    "s' = close_positions pos_info s2 \<or> s' = close_positions pos_info (on_cancelled report s2)"
    using assms by (auto simp: strategy_on_order_updated_def Let_def bind_eq_Some_conv split: if_splits)
  then have "?P s s'"
  proof cases
    case 2
    have a: "?P s s1" using 2(1) lf by auto
    have b: "?P s1 s2" using 2(2) sf by auto
    have c: "?P s2 s'" using 2(3) cl ca tr by blast
    show ?thesis using tr [OF tr [OF a b] c] .
  qed simp
  then show "report_frame s s'" "pos_ok (mm_long_position s) \<Longrightarrow> pos_ok (mm_long_position s')" "pos_ok (mm_short_position s) \<Longrightarrow> pos_ok (mm_short_position s')"
    "fills_bounded cfg s \<Longrightarrow> fills_bounded cfg s'" by blast+
qed

subsection \<open>Well-formed states\<close>

definition tracker_ok :: "WallTracker \<Rightarrow> bool" where
  "tracker_ok t \<longleftrightarrow> length (wt_size_snapshots t) = 20 \<and> length (wt_distance_snapshots t) = 20 \<and> wt_write_index t < 20"

definition margin_ok :: "StrategyConfig \<Rightarrow> MeanReversionMaker \<Rightarrow> bool" where
  "margin_ok cfg s \<longleftrightarrow> en_safety_margin_entry_bps (mm_entry_cfg s) \<in>
     {sc_original_safety_margin_bps cfg, i64 (sc_original_safety_margin_bps cfg * ac_margin_multiplier (sc_adverse_selection_cfg cfg)) sdiv 10000}"

definition windows_ok :: "StrategyConfig \<Rightarrow> int64 list \<Rightarrow> MeanReversionMaker \<Rightarrow> bool" where
  "windows_ok cfg ps s \<longleftrightarrow> zs_inv (sc_fast cfg) ps (mm_zscore_fast s) \<and> zs_inv (sc_mid cfg) ps (mm_zscore_mid s) \<and> zs_inv (sc_slow cfg) ps (mm_zscore_slow s)"

definition buffers_ok :: "MeanReversionMaker \<Rightarrow> bool" where
  "buffers_ok s \<longleftrightarrow> length (mm_bid_qty s) = size_of_int (en_obi_levels (mm_entry_cfg s)) \<and> length (mm_ask_qty s) = size_of_int (en_obi_levels (mm_entry_cfg s))"

definition mm_ok :: "StrategyConfig \<Rightarrow> int64 list \<Rightarrow> MeanReversionMaker \<Rightarrow> bool" where
  "mm_ok cfg ps s \<longleftrightarrow>
     pos_ok (mm_long_position s) \<and> pos_ok (mm_short_position s) \<and> tracker_ok (mm_bid_wall_tracker s) \<and> tracker_ok (mm_ask_wall_tracker s)
     \<and> margin_ok cfg s \<and> windows_ok cfg ps s \<and> buffers_ok s \<and> fills_bounded cfg s
     \<and> ps_short_phase (mm_phase_state s) \<noteq> Ph_kVeryWeak \<and> ps_long_phase (mm_phase_state s) \<noteq> Ph_kVeryWeak"

fun event_prices :: "mm_event \<Rightarrow> int64 list" where
  "event_prices (Trade_Update now md v) = (if is_bbo_valid (bv_bbo v) then [md_price md] else [])"
| "event_prices _ = []"

fun event_view_ok :: "mm_event \<Rightarrow> bool" where
  "event_view_ok (Trade_Update now md v) = view_ok v"
| "event_view_ok _ = True"

lemma track_wall_ok: "tracker_ok t \<Longrightarrow> tracker_ok (track_wall now info t)"
  by (simp add: tracker_ok_def track_wall_def wall_update_def wall_reset_def)

lemma adverse_measure_length: "adverse_measure now price cfg fills c = Some (fills', c') \<Longrightarrow> length fills' = length fills"
  by (induction fills arbitrary: c fills' c') (auto simp: Let_def bind_eq_Some_conv split: if_splits)

lemma adverse_on_price_update_length:
  "adverse_on_price_update now price cfg t = Some t' \<Longrightarrow> length (as_recent_fills t') = length (as_recent_fills t)"
  by (auto simp: adverse_on_price_update_def bind_eq_Some_conv dest: adverse_measure_length)

lemma calculate_zscore_keeps: "zs_inv cfg ps z \<Longrightarrow> calculate_zscore cfg p z = Some (r, z') \<Longrightarrow> zs_inv cfg ps z'"
  using calculate_zscore_inv [of cfg ps z p] by auto

lemma on_price_keeps: "zs_inv cfg ps z \<Longrightarrow> on_price cfg p z = Some z' \<Longrightarrow> zs_inv cfg (ps @ [p]) z'"
  using on_price_inv [of cfg ps z p] by auto

lemma trade_signals_ok:
  assumes "trade_signals cfg now price s = Some s1" "windows_ok cfg ps s"
  shows "windows_ok cfg (ps @ [price]) s1" "margin_ok cfg s1" "fills_bounded cfg s \<Longrightarrow> fills_bounded cfg s1"
proof -
  obtain z s0 where c: "calculate_multi_timeframe_zscores cfg price s = Some (z, s0)"
    and f: "mm_zscore_fast s1 = mm_zscore_fast s0" "mm_zscore_mid s1 = mm_zscore_mid s0" "mm_zscore_slow s1 = mm_zscore_slow s0"
    using assms(1) by (auto simp: trade_signals_def handle_adverse_selection_def Let_def bind_eq_Some_conv)
  show "windows_ok cfg (ps @ [price]) s1"
    using c assms(2) unfolding windows_ok_def f calculate_multi_timeframe_zscores_def
    by (auto simp: bind_eq_Some_conv intro: on_price_keeps calculate_zscore_keeps)
  obtain z ad t mg where e: "s1 = s\<lparr>mm_zscore_fast := mm_zscore_fast s1, mm_zscore_mid := mm_zscore_mid s1, mm_zscore_slow := mm_zscore_slow s1,
      mm_adverse_selection_tracker := t, mm_entry_cfg := (mm_entry_cfg s)\<lparr>en_safety_margin_entry_bps := mg\<rparr>,
      mm_phase_state := update_phases (sc_mean_reversion_cfg cfg) (sc_zscore_threshold cfg) (now, z, ad) (mm_phase_state s)\<rparr>"
    and t: "adverse_on_price_update now price (sc_adverse_selection_cfg cfg) (mm_adverse_selection_tracker s) = Some t"
    and mg: "mg \<in> {sc_original_safety_margin_bps cfg, i64 (sc_original_safety_margin_bps cfg * ac_margin_multiplier (sc_adverse_selection_cfg cfg)) sdiv 10000}"
    using trade_signals_effect [OF assms(1)] by blast
  have "mm_entry_cfg s1 = (mm_entry_cfg s)\<lparr>en_safety_margin_entry_bps := mg\<rparr>" "mm_adverse_selection_tracker s1 = t"
    using arg_cong [OF e, of mm_entry_cfg] arg_cong [OF e, of mm_adverse_selection_tracker] by simp_all
  then show "margin_ok cfg s1" "fills_bounded cfg s \<Longrightarrow> fills_bounded cfg s1"
    using mg adverse_on_price_update_length [OF t] by (simp_all add: margin_ok_def fills_bounded_def)
qed

lemma on_trade_ok:
  assumes "on_trade_updated cfg ap now md v (s, m) = Some (s', m')" "mm_ok cfg ps s" "view_ok v"
  shows "mm_ok cfg (ps @ event_prices (Trade_Update now md v)) s'"
  using assms(1)
proof (cases rule: on_trade_cases)
  case invalid
  then show ?thesis using assms(2) by simp
next
  case (run s1 s2 m2 s3 m3 dt ids)
  note ok = assms(2) [unfolded mm_ok_def]
    and g = trade_signals_fields [OF run(2)] and so = trade_signals_ok [OF run(2), of ps] and e = trade_entries_effect [OF run(3)]
    and fx = frame_fields [OF conjunct1 [OF check_position_exit_effect(1) [OF run(4)]]] and x = check_position_exit_effect(1) [OF run(4)]
  note fe = frame_fields [OF e(1), simplified]
  have pos: "pos_ok (mm_long_position s')" "pos_ok (mm_short_position s')"
    using on_trade_positions [OF assms(1)] ok
    by (auto simp: long_enters_def short_enters_def long_exits_def short_exits_def dest!: may_exit_active)
  have "keeps_buffers s s'" using e(2) x assms(3) keeps_buffers_trans [of s s2 s3] g run(6) by (simp add: keeps_buffers_def)
  then have "buffers_ok s'" using ok g fe fx run(6) by (simp add: buffers_ok_def keeps_buffers_def)
  moreover have "windows_ok cfg (ps @ [md_price md]) s'" "margin_ok cfg s'" "fills_bounded cfg s'"
    using so ok fe fx run(6) by (simp_all add: windows_ok_def margin_ok_def fills_bounded_def)
  ultimately show ?thesis using pos ok g fe fx run(1,6) by (simp add: mm_ok_def)
qed

lemma on_order_ok:
  assumes "strategy_on_order_updated cfg ap now pos_info avg report (s, m) = Some (s', m')" "mm_ok cfg ps s"
  shows "mm_ok cfg ps s'"
proof -
  note e = on_order_effect [OF assms(1)]
  have "mm_entry_cfg s' = mm_entry_cfg s" "mm_bid_wall_tracker s' = mm_bid_wall_tracker s" "mm_ask_wall_tracker s' = mm_ask_wall_tracker s"
    "mm_zscore_fast s' = mm_zscore_fast s" "mm_zscore_mid s' = mm_zscore_mid s" "mm_zscore_slow s' = mm_zscore_slow s"
    "mm_bid_qty s' = mm_bid_qty s" "mm_ask_qty s' = mm_ask_qty s" "mm_phase_state s' = mm_phase_state s"
    using e(1) by (cases s; cases s'; simp add: report_frame_def)+
  then show ?thesis using e(2-) assms(2) by (simp add: mm_ok_def windows_ok_def margin_ok_def buffers_ok_def)
qed

lemma on_orderbook_ok:
  assumes "on_orderbook_updated cfg now ticker v s = Some s'" "mm_ok cfg ps s"
  shows "mm_ok cfg ps s'"
  using assms by (auto simp: on_orderbook_updated_def Let_def bind_eq_Some_conv mm_ok_def windows_ok_def margin_ok_def buffers_ok_def fills_bounded_def
      track_wall_ok split: if_splits)

lemma mm_step_ok:
  assumes "mm_step cfg ap e (s, m) = Some (s', m')" "mm_ok cfg ps s" "event_view_ok e"
  shows "mm_ok cfg (ps @ event_prices e) s'"
  using assms by (cases e) (auto intro: on_orderbook_ok on_order_ok dest: on_trade_ok simp del: event_prices.simps(1) simp: event_prices.simps(2,3))

lemma mm_run_ok:
  assumes "mm_run cfg ap es (s, m) = Some (s', m')" "mm_ok cfg ps s" "list_all event_view_ok es"
  shows "mm_ok cfg (ps @ concat (map event_prices es)) s'"
  using assms
proof (induction es arbitrary: s m ps)
  case (Cons e es)
  obtain s1 m1 where st: "mm_step cfg ap e (s, m) = Some (s1, m1)" and r: "mm_run cfg ap es (s1, m1) = Some (s', m')"
    using Cons.prems(1) by (auto split: option.splits)
  show ?case using Cons.IH [OF r mm_step_ok [OF st Cons.prems(2)]] Cons.prems(3) by simp
qed simp

text \<open>
  C7. The state stays well formed: after any run of book, trade and report events from the constructed strategy, an empty side
  has no order id, the wall rings keep their 20 slots and an index inside them, the imbalance buffers their size, the fill history its
  bound, the entry margin is the configured or the widened one, no phase machine rests in its last phase, and the three
  z-score windows hold exactly the last prices of the trades seen with a valid BBO, sorted in their sorted copy.
\<close>

theorem strategy_state_well_formed:
  assumes "mm_run cfg ap es (MeanReversionMaker_new entry_cfg dt, m) = Some (s', m')" and "list_all event_view_ok es"
    and "en_safety_margin_entry_bps entry_cfg = sc_original_safety_margin_bps cfg" and "0 \<le> ac_max_fill_history (sc_adverse_selection_cfg cfg)"
  shows "mm_ok cfg (concat (map event_prices es)) s'"
proof -
  have "mm_ok cfg [] (MeanReversionMaker_new entry_cfg dt)"
    using assms(3,4) zs_inv_new by (simp add: mm_ok_def MeanReversionMaker_new_def pos_ok_def PositionState_new_def tracker_ok_def WallTracker_new_def
        margin_ok_def windows_ok_def buffers_ok_def fills_bounded_def)
  from mm_run_ok [OF assms(1) this assms(2)] show ?thesis by simp
qed

subsection \<open>Sides that cannot move\<close>

definition is_relevant :: "ExecutionReport \<Rightarrow> bool" where
  "is_relevant report \<longleftrightarrow> is_fill_report report \<or> is_cancel_report report"

fun no_buy_report :: "mm_event \<Rightarrow> bool" where
  "no_buy_report (Order_Report now pos_info avg report) \<longleftrightarrow> \<not> (er_side report = kBuy \<and> is_relevant report)"
| "no_buy_report _ \<longleftrightarrow> True"

fun long_still_open :: "mm_event \<Rightarrow> bool" where
  "long_still_open (Order_Report now pos_info avg report) \<longleftrightarrow> pi_long_position_raw pos_info \<noteq> 0"
| "long_still_open _ \<longleftrightarrow> True"

fun no_short_fill :: "mm_event \<Rightarrow> bool" where
  "no_short_fill (Order_Report now pos_info avg report) \<longleftrightarrow> pi_short_position_raw pos_info \<le> 0"
| "no_short_fill _ \<longleftrightarrow> True"

lemma fill_keeps_other:
  "on_long_fill cfg ap now pos_info avg report (s, m) = Some (s', m') \<Longrightarrow> mm_short_position s' = mm_short_position s"
  "on_short_fill cfg ap now pos_info avg report (s, m) = Some (s', m') \<Longrightarrow> mm_long_position s' = mm_long_position s"
  using on_long_fill_effect [of cfg ap now pos_info avg report s m s' m'] on_short_fill_effect [of cfg ap now pos_info avg report s m s' m'] by auto

lemma on_order_keeps_long:
  assumes "strategy_on_order_updated cfg ap now pos_info avg report (s, m) = Some (s', m')"
    and "po_status (mm_long_position s) = Pos_kPending \<and> \<not> (er_side report = kBuy \<and> is_relevant report)
      \<or> po_status (mm_long_position s) = Pos_kActive \<and> pi_long_position_raw pos_info \<noteq> 0"
  shows "mm_long_position s' = mm_long_position s"
proof (cases "is_relevant report")
  case False
  then show ?thesis using assms(1) by (simp add: strategy_on_order_updated_def is_relevant_def)
next
  case True
  obtain s1 m1 s2 m2 where l: "(if is_fill_report report \<and> er_side report = kBuy then on_long_fill cfg ap now pos_info avg report (s, m) else Some (s, m)) = Some (s1, m1)"
    and r: "(if is_fill_report report \<and> er_side report = kSell then on_short_fill cfg ap now pos_info avg report (s1, m1) else Some (s1, m1)) = Some (s2, m2)"
    and s': "s' = close_positions pos_info (if is_cancel_report report then on_cancelled report s2 else s2)"
    using assms(1) True by (auto simp: strategy_on_order_updated_def is_relevant_def Let_def bind_eq_Some_conv)
  have 1: "mm_long_position s1 = mm_long_position s" using l assms(2) True by (auto simp: on_long_fill_active split: if_splits)
  have 2: "mm_long_position s2 = mm_long_position s1" using r fill_keeps_other(2) by (auto split: if_splits)
  show ?thesis using 1 2 assms(2) True unfolding s' by (auto simp: close_positions_def on_cancelled_def Let_def)
qed

lemma on_order_short_stays_empty:
  assumes "strategy_on_order_updated cfg ap now pos_info avg report (s, m) = Some (s', m')"
    and "po_status (mm_short_position s) = Pos_kNone" "pi_short_position_raw pos_info \<le> 0"
  shows "po_status (mm_short_position s') = Pos_kNone"
proof (cases "is_relevant report")
  case False
  then show ?thesis using assms by (simp add: strategy_on_order_updated_def is_relevant_def)
next
  case True
  obtain s1 m1 s2 m2 where l: "(if is_fill_report report \<and> er_side report = kBuy then on_long_fill cfg ap now pos_info avg report (s, m) else Some (s, m)) = Some (s1, m1)"
    and r: "(if is_fill_report report \<and> er_side report = kSell then on_short_fill cfg ap now pos_info avg report (s1, m1) else Some (s1, m1)) = Some (s2, m2)"
    and s': "s' = close_positions pos_info (if is_cancel_report report then on_cancelled report s2 else s2)"
    using assms(1) True by (auto simp: strategy_on_order_updated_def is_relevant_def Let_def bind_eq_Some_conv)
  have 1: "mm_short_position s1 = mm_short_position s" using l fill_keeps_other(1) by (auto split: if_splits)
  have 2: "mm_short_position s2 = mm_short_position s1" using r assms(2,3) 1 by (auto simp: on_short_fill_def Let_def split: if_splits)
  show ?thesis using 1 2 assms(2) unfolding s' by (auto simp: close_positions_def on_cancelled_def Let_def)
qed

definition stuck_long :: "MeanReversionMaker \<Rightarrow> mm_event list \<Rightarrow> bool" where
  "stuck_long s es \<longleftrightarrow>
     po_status (mm_long_position s) = Pos_kPending \<and> list_all no_buy_report es
     \<or> po_status (mm_long_position s) = Pos_kActive \<and> po_pending_order_id (mm_long_position s) \<noteq> None \<and> list_all long_still_open es"

lemma stuck_long_step:
  assumes "mm_step cfg ap e (s, m) = Some (s', m')" "stuck_long s (e # es)"
  shows "mm_long_position s' = mm_long_position s" "po_status (mm_short_position s) = Pos_kNone \<Longrightarrow> no_short_fill e \<Longrightarrow> po_status (mm_short_position s') = Pos_kNone"
proof -
  have "mm_long_position s' = mm_long_position s
    \<and> (po_status (mm_short_position s) = Pos_kNone \<longrightarrow> no_short_fill e \<longrightarrow> po_status (mm_short_position s') = Pos_kNone)"
  proof (cases e)
    case (Book_Update now ticker v)
    then show ?thesis using assms(1) on_orderbook_effect [of cfg now ticker v s s'] by auto
  next
    case (Trade_Update now md v)
    then show ?thesis using assms on_trade_positions [of cfg "ap now" now md v s m s' m']
      by (auto simp: stuck_long_def long_enters_def short_enters_def long_exits_def short_exits_def long_entry_guard_def dest!: may_exit_active)
  next
    case (Order_Report now pos_info avg report)
    then show ?thesis using assms on_order_keeps_long [of cfg "ap now" now pos_info avg report s m s' m']
        on_order_short_stays_empty [of cfg "ap now" now pos_info avg report s m s' m'] by (auto simp: stuck_long_def)
  qed
  then show "mm_long_position s' = mm_long_position s" "po_status (mm_short_position s) = Pos_kNone \<Longrightarrow> no_short_fill e \<Longrightarrow> po_status (mm_short_position s') = Pos_kNone"
    by blast+
qed

text \<open>
  C9. Two states a long side never leaves on its own. A pending side stays pending through every run of events without a fill,
  cancel or reject report of a buy order: so after an entry the order manager refused (no order id, no report to come), and after
  the liquidation of a late fill (whose reports are those of a sell order), the strategy is frozen, and the short side cannot
  enter either. An active side whose exit order is pending stays so as long as the keeper shows a position: the cancel or reject of the exit
  order does not clear the id, so no second exit is ever sent.
\<close>

theorem stuck_long_forever:
  assumes "mm_run cfg ap es (s, m) = Some (s', m')" and "stuck_long s es"
  shows "mm_long_position s' = mm_long_position s
    \<and> (po_status (mm_short_position s) = Pos_kNone \<and> list_all no_short_fill es \<longrightarrow> po_status (mm_short_position s') = Pos_kNone)"
  using assms
proof (induction es arbitrary: s m)
  case (Cons e es)
  obtain s1 m1 where st: "mm_step cfg ap e (s, m) = Some (s1, m1)" and r: "mm_run cfg ap es (s1, m1) = Some (s', m')"
    using Cons.prems(1) by (auto split: option.splits)
  note k = stuck_long_step [OF st Cons.prems(2)]
  have "stuck_long s1 es" using Cons.prems(2) k(1) by (auto simp: stuck_long_def)
  then show ?case using Cons.IH [OF r] k by auto
qed simp

text \<open>
  C24. No stop loss outside the exit phases: while the short side is empty and the machine of overbought markets, updated with the
  trade, is neither deep nor weak, a trade callback sends no order for an active long position and leaves it as it is, whatever the
  price and the loss. All the order manager sees is the expiry sweep.
\<close>

theorem stop_loss_needs_phase:
  assumes "on_trade_updated cfg ap now md v (s, m) = Some (s', m')" and "is_bbo_valid (bv_bbo v)"
    and "po_status (mm_long_position s) = Pos_kActive" and "po_status (mm_short_position s) = Pos_kNone"
    and "trade_signals cfg now (md_price md) s = Some s1" and "ps_long_phase (mm_phase_state s1) \<notin> {Ph_kDeep, Ph_kWeak}"
  shows "mm_long_position s' = mm_long_position s \<and> mm_short_position s' = mm_short_position s \<and> (\<exists>ids. ap [] m = Some (m', ids))"
  using assms(1)
proof (cases rule: on_trade_cases)
  case invalid
  then show ?thesis using assms(2) by simp
next
  case (run t1 s2 m2 s3 m3 dt ids)
  have t1: "t1 = s1" using run(2) assms(5) by simp
  note g = trade_signals_fields [OF run(2)] and e = trade_entries_effect [OF run(3)] and x = check_position_exit_effect [OF run(4)]
  have ph: "mm_phase_state s2 = reset_phases (mm_phase_state s1)" using frame_fields(13) [OF e(1)] t1 by simp
  have pos: "mm_long_position s2 = mm_long_position s" "mm_short_position s2 = mm_short_position s" and "m2 = m"
    using e(3,4,6) g assms(3) by (auto simp: long_entry_guard_def)
  moreover have "\<not> may_exit (ps_long_phase (mm_phase_state s2)) (mm_long_position s2)" "\<not> may_exit (ps_short_phase (mm_phase_state s2)) (mm_short_position s2)"
    using assms(4,6) pos by (auto simp: may_exit_def exit_phase_signal_def ph)
  ultimately show ?thesis using x(2-4) run(5,6) by auto
qed

end
