(* ===== verification/Mean_Reversion_Runs.thy ===== *)
theory Mean_Reversion_Runs
  imports Mean_Reversion_Props
begin

text \<open>
  The properties of the mean-reversion strategy at concrete configurations and runs, and its composition with the bucketed order book.
\<close>

definition demo_zcfg :: RobustZScoreConfig where
  "demo_zcfg = \<lparr>zc_window_size = 10, zc_min_samples = 8, zc_min_mad_threshold_raw = 500, zc_ema_alpha = 500, zc_baseline_window = 100,
     zc_min_vol_scalar = 7000, zc_max_vol_scalar = 13000, zc_vol_ratio_low = 5000, zc_vol_ratio_high = 20000, zc_baseline_min_history = 30\<rparr>"

definition demo_strategy_cfg :: StrategyConfig where
  "demo_strategy_cfg =
     \<lparr>sc_position_side = True, sc_qty_scale = 1000, sc_defense_qty_multiplier = 20000,
      sc_zscore_threshold = \<lparr>z_fast = 5000, z_mid = 8000, z_slow = 14000\<rparr>, sc_wall_max_distance_bps = 15, sc_wall_max_levels = 100,
      sc_exit_cfg = demo_exit_cfg, sc_mean_reversion_cfg = demo_mr_cfg,
      sc_adverse_selection_cfg = \<lparr>ac_max_fill_history = 50, ac_measurement_window_ns = 1000000000, ac_measurement_tolerance_ns = 100000000,
        ac_adverse_threshold_bps = 2, ac_min_samples = 20, ac_ratio_threshold = 6000, ac_margin_multiplier = 20000\<rparr>,
      sc_fast = demo_zcfg, sc_mid = demo_zcfg, sc_slow = demo_zcfg, sc_orderbook_top_levels = 20, sc_original_safety_margin_bps = 5\<rparr>"

definition demo_threshold :: DynamicWallThreshold where
  "demo_threshold = \<lparr>dw_volume_ema_alpha = 300, dw_volume_multiplier = 40000, dw_volume_min_samples = 20, dw_ema_notional_raw = 0, dw_sample_count = 0,
     dw_volume_threshold_raw = 0, dw_orderbook_multiplier = 30000, dw_orderbook_percentile = 8000, dw_orderbook_threshold_raw = 0,
     dw_volume_weight = 7000, dw_orderbook_weight = 3000, dw_min_quantity_raw = 50000\<rparr>"

definition demo_tracker :: WallTracker where
  "demo_tracker = \<lparr>wt_first_seen = 0, wt_last_update = 2000000000, wt_snapshot_count = 10, wt_size_snapshots = replicate 20 9000000,
     wt_distance_snapshots = replicate 20 4, wt_write_index = 0\<rparr>"

definition demo_view :: book_view where
  "demo_view = \<lparr>bv_bbo = \<lparr>bid_price = 90000, ask_price = 90010, bid_qty = 9000, ask_qty = 10000\<rparr>, bv_min_price_int = 0,
     bv_peek_qty = (\<lambda>is_bid l n. if n = 0 then (- 1, []) else (1, [(if is_bid then 9000 else 9200, 0)]))\<rparr>"

definition demo_state :: MeanReversionMaker where
  "demo_state = (MeanReversionMaker_new demo_entry_cfg demo_threshold)
     \<lparr>mm_bid_wall_info := demo_wall 15000000 4, mm_bid_wall_tracker := demo_tracker,
      mm_prev_bbo := \<lparr>bid_price = 90000, ask_price = 90010, bid_qty = 9000, ask_qty = 10000\<rparr>,
      mm_phase_state := \<lparr>ps_long_phase = Ph_kNeutral, ps_short_phase = Ph_kWeak, ps_peak_z = - 30000, ps_phase_entry_time = 0\<rparr>\<rparr>"

definition demo_trade :: "int64 \<Rightarrow> int64 \<Rightarrow> MarketData" where
  "demo_trade price qty = \<lparr>md_type = kTrade, md_order_id = 0, md_ticker_id = ''BTCUSDT'', md_side = kSell, md_price = price, md_qty = qty\<rparr>"

definition demo_ap :: "u64 \<Rightarrow> unit om_call" where
  "demo_ap now intents m = Some (m, if intents = [] then [] else [7])"

text \<open>A run with a book update, trades and reports, from the constructed strategy.\<close>

definition demo_report :: "Side \<Rightarrow> OrdStatus \<Rightarrow> ExecutionReport" where
  "demo_report side status = \<lparr>er_cl_order_id = 7, er_symbol = ''BTCUSDT'', er_exec_type = Exec_kTrade, er_ord_status = status, er_cum_qty = 0,
     er_leaves_qty = 0, er_last_qty = 0, er_error_code = 0, er_price = 90000, er_side = side, er_text = [], er_position_side = Some kLong\<rparr>"

definition demo_events :: "mm_event list" where
  "demo_events = [Trade_Update 5 (demo_trade 90000 100) demo_view, Order_Report 6 PositionInfo_new 90000 (demo_report kSell Ord_kCanceled),
     Book_Update 7 ''BTCUSDT'' demo_view, Trade_Update 8 (demo_trade 500 100) demo_view]"

lemma demo_view_ok: "view_ok demo_view"
  by (simp add: view_ok_def demo_view_def)

lemma demo_run: "case mm_run demo_strategy_cfg demo_ap demo_events (MeanReversionMaker_new demo_entry_cfg demo_threshold, ()) of
    None \<Rightarrow> False | Some (s', m') \<Rightarrow> True"
  by code_simp

theorem strategy_state_well_formed_witness:
  "\<exists>s' m'. mm_run demo_strategy_cfg demo_ap demo_events (MeanReversionMaker_new demo_entry_cfg demo_threshold, ()) = Some (s', m')
     \<and> mm_ok demo_strategy_cfg [90000, 500] s'"
proof -
  obtain s' m' where r: "mm_run demo_strategy_cfg demo_ap demo_events (MeanReversionMaker_new demo_entry_cfg demo_threshold, ()) = Some (s', m')"
    using demo_run by (auto split: option.splits)
  have "is_bbo_valid (bv_bbo demo_view)" by (simp add: is_bbo_valid_def demo_view_def kInvalidValue_def)
  then have p: "concat (map event_prices demo_events) = [90000, 500]" by (simp add: demo_events_def demo_trade_def)
  have "list_all event_view_ok demo_events" by (simp add: demo_events_def demo_view_ok)
  then show ?thesis using r strategy_state_well_formed [OF r] by (simp add: p demo_entry_cfg_def demo_strategy_cfg_def)
qed

text \<open>An active long position with an exit order out, and the report that the exchange cancelled that order.\<close>

definition exiting_state :: MeanReversionMaker where
  "exiting_state = (MeanReversionMaker_new demo_entry_cfg demo_threshold)
     \<lparr>mm_long_position := \<lparr>po_qty = 10, po_entry_price = 90000, po_entry_wall_info = demo_wall 15000000 4, po_status = Pos_kActive, po_state_time = 5,
        po_pending_order_id = Some 7\<rparr>\<rparr>"

definition exit_cancelled :: mm_event where
  "exit_cancelled = Order_Report 6 (PositionInfo_new\<lparr>pi_long_position_raw := 10\<rparr>) 0 (demo_report kSell Ord_kCanceled)"

theorem stuck_long_forever_witness:
  "\<exists>s' m'. mm_run demo_strategy_cfg demo_ap [exit_cancelled] (exiting_state, ()) = Some (s', m') \<and> stuck_long exiting_state [exit_cancelled]
     \<and> po_pending_order_id (mm_long_position s') = Some 7 \<and> po_status (mm_short_position s') = Pos_kNone"
proof -
  have r: "\<exists>s' m'. mm_run demo_strategy_cfg demo_ap [exit_cancelled] (exiting_state, ()) = Some (s', m')"
    by (simp add: exit_cancelled_def strategy_on_order_updated_def demo_report_def is_fill_report_def is_cancel_report_def)
  have st: "stuck_long exiting_state [exit_cancelled]" "po_status (mm_short_position exiting_state) = Pos_kNone" "list_all no_short_fill [exit_cancelled]"
    by (simp_all add: stuck_long_def exiting_state_def exit_cancelled_def MeanReversionMaker_new_def PositionState_new_def PositionInfo_new_def)
  obtain s' m' where s': "mm_run demo_strategy_cfg demo_ap [exit_cancelled] (exiting_state, ()) = Some (s', m')" using r by blast
  show ?thesis using s' st stuck_long_forever [OF s' st(1)] by (auto simp: exiting_state_def)
qed

text \<open>A long position entered at 90000 and a trade at 500: the price has lost more than 99 per cent.\<close>

definition losing_state :: MeanReversionMaker where
  "losing_state = (MeanReversionMaker_new demo_entry_cfg demo_threshold)
     \<lparr>mm_long_position := \<lparr>po_qty = 10, po_entry_price = 90000, po_entry_wall_info = demo_wall 15000000 4, po_status = Pos_kActive, po_state_time = 5,
        po_pending_order_id = None\<rparr>\<rparr>"

definition crash_view :: book_view where
  "crash_view = demo_view\<lparr>bv_bbo := \<lparr>bid_price = 499, ask_price = 500, bid_qty = 9000, ask_qty = 10000\<rparr>\<rparr>"

lemma losing_run:
  "case on_trade_updated demo_strategy_cfg (demo_ap 9) 9 (demo_trade 500 100) crash_view (losing_state, ()) of None \<Rightarrow> False | Some _ \<Rightarrow> True"
  "case trade_signals demo_strategy_cfg 9 500 losing_state of None \<Rightarrow> False | Some s1 \<Rightarrow> ps_long_phase (mm_phase_state s1) = Ph_kNeutral"
  by code_simp+

theorem stop_loss_needs_phase_witness:
  "\<exists>s' m'. on_trade_updated demo_strategy_cfg (demo_ap 9) 9 (demo_trade 500 100) crash_view (losing_state, ()) = Some (s', m')
     \<and> mm_long_position s' = mm_long_position losing_state \<and> (\<exists>ids. demo_ap 9 [] () = Some (m', ids))"
proof -
  obtain s' m' where r: "on_trade_updated demo_strategy_cfg (demo_ap 9) 9 (demo_trade 500 100) crash_view (losing_state, ()) = Some (s', m')"
    using losing_run(1) by (auto split: option.splits)
  obtain s1 where t: "trade_signals demo_strategy_cfg 9 (md_price (demo_trade 500 100)) losing_state = Some s1" "ps_long_phase (mm_phase_state s1) = Ph_kNeutral"
    using losing_run(2) by (auto simp: demo_trade_def split: option.splits)
  have "is_bbo_valid (bv_bbo crash_view)" "po_status (mm_long_position losing_state) = Pos_kActive" "po_status (mm_short_position losing_state) = Pos_kNone"
    by (simp_all add: is_bbo_valid_def crash_view_def demo_view_def kInvalidValue_def losing_state_def MeanReversionMaker_new_def PositionState_new_def)
  then show ?thesis using r stop_loss_needs_phase [OF r _ _ _ t(1)] t(2) by auto
qed

subsection \<open>The strategy on the bucketed book\<close>

lemma peek_after_feed:
  assumes "0 \<le> lo" "lo \<le> hi" "hi < 2 ^ 31" "list_all (feed_ok (from_ini False lo hi)) mds" "run_feed (fresh_book lo hi) mds = Some b"
    and "lv = side_spec d (foldl (spec_apply (from_ini False lo hi)) (\<lambda>_. 0, \<lambda>_. 0) mds)"
  shows "fst (fst (peek_qty d (side_of d b) k n)) =
      (if min k (int n) \<le> 0 \<or> (\<forall>i < nat (hi - lo + 1). \<not> active lv i) then - 1 else int (length (snd (fst (peek_qty d (side_of d b) k n)))))"
    "length (snd (fst (peek_qty d (side_of d b) k n))) \<le> nat (min k (int n))"
    "\<not> (\<forall>i < nat (hi - lo + 1). \<not> active lv i) \<Longrightarrow> 0 < min k (int n) \<Longrightarrow> snd (fst (peek_qty d (side_of d b) k n)) \<noteq> []"
proof -
  note a = book_after_feed(1-3,5) [OF assms(1-5), where d = d, folded assms(6)]
  have c: "bs_cached (side_of d b) < 0 \<or> best_is d (level_qty (side_of d b)) (bs_cached (side_of d b))" using a(2) by simp
  have e: "dir_list d (filter (active lv) [0..<nat (hi - lo + 1)]) = [] \<longleftrightarrow> (\<forall>i < nat (hi - lo + 1). \<not> active lv i)"
    by (auto simp: dir_list_def filter_empty_conv split: search_dir.splits)
  note q = peek_qty_eq [OF a(1) c, of k n, unfolded a(4)]
  show "fst (fst (peek_qty d (side_of d b) k n)) =
      (if min k (int n) \<le> 0 \<or> (\<forall>i < nat (hi - lo + 1). \<not> active lv i) then - 1 else int (length (snd (fst (peek_qty d (side_of d b) k n)))))"
    "length (snd (fst (peek_qty d (side_of d b) k n))) \<le> nat (min k (int n))"
    "\<not> (\<forall>i < nat (hi - lo + 1). \<not> active lv i) \<Longrightarrow> 0 < min k (int n) \<Longrightarrow> snd (fst (peek_qty d (side_of d b) k n)) \<noteq> []"
    unfolding e [symmetric] q by (simp_all add: Let_def, linarith)
qed

lemma bucket_view_peek:
  "bv_peek_qty (bucket_view b) (d = SearchHighest) k n = fst (peek_qty d (side_of d b) k n)"
  by (cases d) (simp_all add: bucket_view_def side_of_def)

lemma bucket_view_ok:
  assumes "0 \<le> lo" "lo \<le> hi" "hi < 2 ^ 31" "list_all (feed_ok (from_ini False lo hi)) mds" "run_feed (fresh_book lo hi) mds = Some b"
  shows "view_ok (bucket_view b)"
  unfolding view_ok_def
proof (intro allI)
  fix is_bid k n
  obtain d where d: "is_bid = (d = SearchHighest)" by (cases is_bid) (use search_dir.distinct in blast)+
  show "length (snd (bv_peek_qty (bucket_view b) is_bid k n)) \<le> n"
    using peek_after_feed(2) [OF assms refl, of d k n] unfolding d bucket_view_peek by linarith
qed

text \<open>The percentile is defined on the counts \<^verbatim>\<open>peek_qty\<close> returns for a side with levels, and on no other.\<close>

lemma percentile_count: "calculate_percentile_fast p xs (size_of_int (- 1)) = None" if "length xs < 2 ^ 31"
  using that by (simp add: calculate_percentile_fast_def size_of_int_def)

lemma empty_side_undefined:
  assumes "fst bids \<noteq> 0" "fst asks \<noteq> 0" "fst bids = - 1 \<or> fst asks = - 1" "length (snd bids) < 2 ^ 31" "length (snd asks) < 2 ^ 31"
  shows "update_orderbook_threshold qs bbo bids asks w = None"
  using assms percentile_count by (auto simp: update_orderbook_threshold_def bind_eq_None_conv)

text \<open>
  C23. A book with an empty side has no wall threshold: after any feed that leaves the bids or the asks of the bucketed book without a
  level (the first level of a fresh book is such a feed), the strategy's order book callback, once its 100 ms have passed, is
  undefined. \<^verbatim>\<open>peek_qty\<close> reports -1 on the empty side, the guard tests for 0, and the percentile then selects in a range of
  \<open>2 ^ 64 - 1\<close> elements.
\<close>

theorem one_sided_book_undefined:
  assumes "0 \<le> lo" and "lo \<le> hi" and "hi < 2 ^ 31" and "list_all (feed_ok (from_ini False lo hi)) mds" and "run_feed (fresh_book lo hi) mds = Some b"
    and "\<forall>i < nat (hi - lo + 1). \<not> active (side_spec d (foldl (spec_apply (from_ini False lo hi)) (\<lambda>_. 0, \<lambda>_. 0) mds)) i"
    and "0 < sc_orderbook_top_levels cfg" and "sc_orderbook_top_levels cfg < 2 ^ 31" and "100000000 \<le> now - mm_last_orderbook_check_time s"
  shows "on_orderbook_updated cfg now ticker (bucket_view b) s = None"
proof -
  let ?t = "sc_orderbook_top_levels cfg"
  have sz: "size_of_int ?t = nat ?t" using assms(7,8) by (simp add: size_of_int_def)
  let ?p = "\<lambda>d. bv_peek_qty (bucket_view b) (d = SearchHighest) ?t (nat ?t)"
  have c: "fst (?p e) \<noteq> 0" "length (snd (?p e)) < 2 ^ 31" for e
    using peek_after_feed [OF assms(1-5) refl, of e ?t "nat ?t"] assms(7,8) unfolding bucket_view_peek by (auto split: if_splits)
  have d: "fst (?p d) = - 1"
    using peek_after_feed(1) [OF assms(1-5) refl, of d ?t "nat ?t"] assms(6) unfolding bucket_view_peek by simp
  have "fst (?p SearchHighest) = - 1 \<or> fst (?p SearchLowest) = - 1" using d by (cases d) simp_all
  then have "update_orderbook_threshold qs bbo (fst (?p SearchHighest), map fst (snd (?p SearchHighest))) (fst (?p SearchLowest), map fst (snd (?p SearchLowest))) w = None" for qs bbo w
    using c [of SearchHighest] c [of SearchLowest] by (intro empty_side_undefined) simp_all
  then show ?thesis using assms(9) by (simp add: on_orderbook_updated_def sz Let_def not_less [symmetric])
qed

theorem one_sided_book_undefined_witness:
  "\<exists>b. run_feed (fresh_book 100 105) [demo_md kAdd kBuy 101 7] = Some b
     \<and> on_orderbook_updated demo_strategy_cfg 1700000000000000000 ''BTCUSDT'' (bucket_view b) (MeanReversionMaker_new demo_entry_cfg demo_threshold) = None"
proof -
  let ?c = "from_ini False 100 105" and ?mds = "[demo_md kAdd kBuy 101 7]"
  note f = fresh_book_inv [of 100 105, simplified]
  have c: "min_price_int ?c = 100" "max_price_int ?c = 105" "bucket_pool_size ?c = bucket_count ?c"
    using from_ini_shape [of 100 105] by simp_all
  have ok: "list_all (feed_ok ?c) ?mds" by (simp add: feed_ok_def demo_md_def)
  obtain b where b: "run_feed (fresh_book 100 105) ?mds = Some b"
    using run_feed_total [OF f(1) f(5), of ?mds] ok f(4) c(3) by auto
  have lv: "side_spec SearchLowest (foldl (spec_apply ?c) (\<lambda>_. 0, \<lambda>_. 0) ?mds) = (\<lambda>_. 0)"
    by (simp add: spec_apply_def out_of_range_def c demo_md_def set_level_def side_spec_def)
  show ?thesis
    using b one_sided_book_undefined [OF _ _ _ ok b, of SearchLowest demo_strategy_cfg 1700000000000000000 "MeanReversionMaker_new demo_entry_cfg demo_threshold" "''BTCUSDT''"]
    unfolding lv by (simp add: active_def demo_strategy_cfg_def MeanReversionMaker_new_def)
qed

end
