(* ===== verification/Strategy_Orders.thy ===== *)
theory Strategy_Orders
  imports Mean_Reversion_Runs Order_Manager_Props
begin

text \<open>
  The mean-reversion strategy on the order manager. \<open>order_sink\<close> is what the strategy relies on of the component it sends its
  intents to: the calls it makes, single intents for its own ticker and the empty sweep, keep an invariant. It is interpreted on
  \<open>om_apply\<close> with the states reachable by consistent steps.
\<close>

subsection \<open>The contract\<close>

fun own_ticker :: "string \<Rightarrow> mm_event \<Rightarrow> bool" where
  "own_ticker ticker (Book_Update now tk v) \<longleftrightarrow> tk = ticker"
| "own_ticker ticker _ \<longleftrightarrow> True"

locale order_sink =
  fixes ap :: "u64 \<Rightarrow> 'm om_call" and sink_inv :: "'m \<Rightarrow> bool" and ticker :: string
  assumes sweep_inv: "ap now [] m = Some (m', ids) \<Longrightarrow> sink_inv m \<Longrightarrow> sink_inv m'"
    and intent_inv: "ap now [i] m = Some (m', ids) \<Longrightarrow> sink_inv m \<Longrightarrow> qi_ticker i = ticker \<Longrightarrow> qi_side i \<in> {kBuy, kSell}
      \<Longrightarrow> qi_position_side i \<in> {None, Some kLong, Some kShort} \<Longrightarrow> sink_inv m'"
begin

lemma emergency_exit_inv:
  assumes "emergency_exit cfg (ap now) side price s m = Some (m', ids)" "sink_inv m" "mm_ticker s = ticker" "side \<in> {kBuy, kSell}"
  shows "sink_inv m'"
  using assms(1) [unfolded emergency_exit_def] assms(2) by (rule intent_inv) (use assms(3,4) in auto)

lemma place_entry_order_inv:
  assumes "place_entry_order cfg (ap now) side price (s, m) = Some (s', m')" "sink_inv m" "mm_ticker s = ticker" "side \<in> {kBuy, kSell}"
  shows "sink_inv m'"
proof -
  obtain i ids where "ap now [i] m = Some (m', ids)" "qi_ticker i = ticker" "qi_side i = side" "qi_position_side i \<in> {None, Some kLong, Some kShort}"
    using assms by (auto simp: place_entry_order_def Let_def bind_eq_Some_conv)
  then show ?thesis using intent_inv assms(2,4) by blast
qed

lemma exit_long_inv:
  assumes "exit_long cfg (ap now) price (s, m) = Some (s', m')" "sink_inv m" "mm_ticker s = ticker"
  shows "sink_inv m'"
proof -
  obtain m1 ids where e: "emergency_exit cfg (ap now) kSell price s m = Some (m1, ids)"
    and c: "(case ids of [] \<Rightarrow> (s, m1) | i # _ \<Rightarrow> (s\<lparr>mm_long_position := (mm_long_position s)\<lparr>po_pending_order_id := Some i\<rparr>\<rparr>, m1)) = (s', m')"
    using assms(1) by (auto simp: exit_long_def bind_eq_Some_conv)
  have "m1 = m'" using c by (cases ids) auto
  with e have "emergency_exit cfg (ap now) kSell price s m = Some (m', ids)" by simp
  then show ?thesis by (rule emergency_exit_inv) (use assms(2,3) in simp_all)
qed

lemma exit_short_inv:
  assumes "exit_short cfg (ap now) price (s, m) = Some (s', m')" "sink_inv m" "mm_ticker s = ticker"
  shows "sink_inv m'"
proof -
  obtain m1 ids where e: "emergency_exit cfg (ap now) kBuy price s m = Some (m1, ids)"
    and c: "(case ids of [] \<Rightarrow> (s, m1) | i # _ \<Rightarrow> (s\<lparr>mm_short_position := (mm_short_position s)\<lparr>po_pending_order_id := Some i\<rparr>\<rparr>, m1)) = (s', m')"
    using assms(1) by (auto simp: exit_short_def bind_eq_Some_conv)
  have "m1 = m'" using c by (cases ids) auto
  with e have "emergency_exit cfg (ap now) kBuy price s m = Some (m', ids)" by simp
  then show ?thesis by (rule emergency_exit_inv) (use assms(2,3) in simp_all)
qed

lemma try_long_entry_inv:
  assumes "try_long_entry cfg (ap now) now md v bbo (s, m) = Some (s', m')" "sink_inv m" "mm_ticker s = ticker"
  shows "sink_inv m'"
proof -
  obtain obi s1 where i: "calculate_orderbook_imbalance v s = (obi, s1)" by fastforce
  have t: "mm_ticker (s1\<lparr>mm_long_position := p\<rparr>) = ticker" for p using frame_fields(1) [OF imbalance_frame(1) [OF i]] assms(3) by simp
  show ?thesis using assms(1,2)
    by (auto simp: try_long_entry_def check_long_entry_def i Let_def bind_eq_Some_conv split: if_splits dest: place_entry_order_inv [OF _ assms(2) t])
qed

lemma try_short_entry_inv:
  assumes "try_short_entry cfg (ap now) now md v bbo (s, m) = Some (s', m')" "sink_inv m" "mm_ticker s = ticker"
  shows "sink_inv m'"
proof -
  obtain obi s1 where i: "calculate_orderbook_imbalance v s = (obi, s1)" by fastforce
  have t: "mm_ticker (s1\<lparr>mm_short_position := p\<rparr>) = ticker" for p using frame_fields(1) [OF imbalance_frame(1) [OF i]] assms(3) by simp
  show ?thesis using assms(1,2)
    by (auto simp: try_short_entry_def check_short_entry_def i Let_def bind_eq_Some_conv split: if_splits dest: place_entry_order_inv [OF _ assms(2) t])
qed

lemma position_exit_inv:
  assumes "check_position_exit cfg (ap now) now v bbo (s, m) = Some (s', m')" "sink_inv m" "mm_ticker s = ticker"
  shows "sink_inv m'"
proof -
  let ?mid = "i64 (bid_price bbo + ask_price bbo) sdiv 2"
  obtain obi s1 where i: "calculate_orderbook_imbalance v s = (obi, s1)" by fastforce
  have t: "mm_ticker s1 = ticker" using frame_fields(1) [OF imbalance_frame(1) [OF i]] assms(3) by simp
  obtain s2 m2 where l: "(if po_status (mm_long_position s1) = Pos_kActive then check_long_exit cfg (ap now) now bbo ?mid obi (s1, m) else Some (s1, m)) = Some (s2, m2)"
    and r: "(if po_status (mm_short_position s2) = Pos_kActive then check_short_exit cfg (ap now) now bbo ?mid obi (s2, m2) else Some (s2, m2)) = Some (s', m')"
    using assms(1) by (auto simp: check_position_exit_def i Let_def bind_eq_Some_conv)
  have "sink_inv m2 \<and> mm_ticker s2 = ticker"
  proof (cases "po_status (mm_long_position s1) = Pos_kActive")
    case True
    then have e: "check_long_exit cfg (ap now) now bbo ?mid obi (s1, m) = Some (s2, m2)" using l by simp
    have "mm_ticker s2 = ticker" using check_long_exit_effect [OF e] t by auto
    moreover have "sink_inv m2" using e assms(2)
      by (auto simp: check_long_exit_def Let_def bind_eq_Some_conv split: if_splits dest: exit_long_inv [OF _ assms(2) t])
    ultimately show ?thesis by simp
  qed (use l assms(2) t in simp)
  then have "sink_inv m2" "mm_ticker s2 = ticker" by simp_all
  then show ?thesis
    using r by (auto simp: check_short_exit_def Let_def bind_eq_Some_conv split: if_splits dest: exit_short_inv [OF _ \<open>sink_inv m2\<close> \<open>mm_ticker s2 = ticker\<close>])
qed

lemma enter_long_inv:
  assumes "enter_long cfg (ap now) now md v (s, m) = Some (s', m')" "sink_inv m" "mm_ticker s = ticker"
  shows "sink_inv m'"
  using assms(1,2) by (auto simp: enter_long_def bind_eq_Some_conv split: if_splits dest: try_long_entry_inv [OF _ assms(2,3)])

lemma enter_short_inv:
  assumes "enter_short cfg (ap now) now md v (s, m) = Some (s', m')" "sink_inv m" "mm_ticker s = ticker"
  shows "sink_inv m'"
  using assms(1,2) by (auto simp: enter_short_def bind_eq_Some_conv split: if_splits dest: try_short_entry_inv [OF _ assms(2,3)])

lemma trade_inv:
  assumes "on_trade_updated cfg (ap now) now md v (s, m) = Some (s', m')" "sink_inv m" "mm_ticker s = ticker"
  shows "sink_inv m' \<and> mm_ticker s' = ticker"
  using assms(1)
proof (cases rule: on_trade_cases)
  case (run s1 s2 m2 s3 m3 dt ids)
  obtain sa ma where l: "enter_long cfg (ap now) now md v (s1, m) = Some (sa, ma)" and r: "enter_short cfg (ap now) now md v (sa, ma) = Some (s2, m2)"
    using run(3) by (auto simp: trade_entries_def bind_eq_Some_conv)
  have t1: "mm_ticker s1 = ticker" using trade_signals_effect [OF run(2)] assms(3) by (elim exE conjE; cases s; cases s1; auto)
  have ta: "mm_ticker sa = ticker" using frame_fields(1) [OF enter_long_effect(1) [OF l]] t1 by simp
  have t2: "mm_ticker s2 = ticker" using frame_fields(1) [OF enter_short_effect(1) [OF r]] ta by simp
  have t3: "mm_ticker s3 = ticker" using frame_fields(1) [OF conjunct1 [OF check_position_exit_effect(1) [OF run(4)]]] t2 by simp
  have "sink_inv ma" using enter_long_inv [OF l assms(2) t1] .
  then have "sink_inv m2" using enter_short_inv [OF r _ ta] by simp
  then have "sink_inv m3" using position_exit_inv [OF run(4)] t2 by simp
  then show ?thesis using sweep_inv [OF run(5)] run(6) t3 by simp
qed (use assms(2,3) in simp)

lemma liquidate_long_inv:
  assumes "liquidate_long cfg (ap now) p q (s, m) = Some (s', m')" "sink_inv m" "mm_ticker s = ticker"
  shows "sink_inv m'"
proof -
  obtain ids where "emergency_exit cfg (ap now) kSell p (s\<lparr>mm_long_position := (mm_long_position s)\<lparr>po_qty := q, po_entry_price := p\<rparr>\<rparr>) m = Some (m', ids)"
    using assms(1) by (auto simp: liquidate_long_def Let_def bind_eq_Some_conv)
  then show ?thesis by (rule emergency_exit_inv) (use assms(2,3) in simp_all)
qed

lemma on_long_fill_inv:
  assumes "on_long_fill cfg (ap now) now pos_info avg report (s, m) = Some (s', m')" "sink_inv m" "mm_ticker s = ticker"
  shows "sink_inv m'"
  using assms(1,2) by (auto simp: on_long_fill_def Let_def split: if_splits dest: liquidate_long_inv [OF _ assms(2,3)])

lemma liquidate_short_inv:
  assumes "liquidate_short cfg (ap now) p q (s, m) = Some (s', m')" "sink_inv m" "mm_ticker s = ticker"
  shows "sink_inv m'"
proof -
  obtain ids where "emergency_exit cfg (ap now) kBuy p (s\<lparr>mm_short_position := (mm_short_position s)\<lparr>po_qty := q, po_entry_price := p\<rparr>\<rparr>) m = Some (m', ids)"
    using assms(1) by (auto simp: liquidate_short_def Let_def bind_eq_Some_conv)
  then show ?thesis by (rule emergency_exit_inv) (use assms(2,3) in simp_all)
qed

lemma on_short_fill_inv:
  assumes "on_short_fill cfg (ap now) now pos_info avg report (s, m) = Some (s', m')" "sink_inv m" "mm_ticker s = ticker"
  shows "sink_inv m'"
  using assms(1,2) by (auto simp: on_short_fill_def Let_def split: if_splits dest: liquidate_short_inv [OF _ assms(2,3)])

lemma report_inv:
  assumes "strategy_on_order_updated cfg (ap now) now pos_info avg report (s, m) = Some (s', m')" "sink_inv m" "mm_ticker s = ticker"
  shows "sink_inv m' \<and> mm_ticker s' = ticker"
proof
  show "mm_ticker s' = ticker" using on_order_effect(1) [OF assms(1)] assms(3) by (cases s; cases s') (simp add: report_frame_def)
  consider "m' = m" | s1 m1 s2 where
      "(if is_fill_report report \<and> er_side report = kBuy then on_long_fill cfg (ap now) now pos_info avg report (s, m) else Some (s, m)) = Some (s1, m1)"
      "(if is_fill_report report \<and> er_side report = kSell then on_short_fill cfg (ap now) now pos_info avg report (s1, m1) else Some (s1, m1)) = Some (s2, m')"
    using assms(1) by (auto simp: strategy_on_order_updated_def Let_def bind_eq_Some_conv split: if_splits)
  then show "sink_inv m'"
  proof cases
    case 2
    have "sink_inv m1 \<and> mm_ticker s1 = ticker"
      using 2(1) assms(2,3) on_long_fill_inv [of cfg now pos_info avg report s m s1 m1] on_long_fill_effect [of cfg "ap now" now pos_info avg report s m s1 m1]
      by (auto split: if_splits)
    then show ?thesis using 2(2) on_short_fill_inv [of cfg now pos_info avg report s1 m1 s2 m'] by (auto split: if_splits)
  qed (use assms(2) in simp)
qed

lemma run_inv:
  assumes "mm_run cfg ap es (s, m) = Some (s', m')" "list_all (own_ticker ticker) es" "sink_inv m" "mm_ticker s = ticker"
  shows "sink_inv m'"
  using assms
proof (induction es arbitrary: s m)
  case (Cons e es)
  obtain s1 m1 where st: "mm_step cfg ap e (s, m) = Some (s1, m1)" and r: "mm_run cfg ap es (s1, m1) = Some (s', m')"
    using Cons.prems(1) by (auto split: option.splits)
  have "sink_inv m1 \<and> mm_ticker s1 = ticker"
  proof (cases e)
    case (Book_Update now tk v)
    then show ?thesis using st Cons.prems(2-4)
      by (auto simp: on_orderbook_updated_def Let_def bind_eq_Some_conv split: if_splits)
  next
    case (Trade_Update now md v)
    then show ?thesis using st Cons.prems(3,4) trade_inv [of cfg now md v s m s1 m1] by simp
  next
    case (Order_Report now pos_info avg report)
    then show ?thesis using st Cons.prems(3,4) report_inv [of cfg now pos_info avg report s m s1 m1] by simp
  qed
  then show ?case using Cons.IH [OF r] Cons.prems(2) by simp
qed simp

end

subsection \<open>The order manager as the sink\<close>

text \<open>A call of apply makes no order live: a live slot after it is a live slot before it.\<close>

definition live_kept :: "OrderManager \<Rightarrow> OrderManager \<Rightarrow> bool" where
  "live_kept m m' \<longleftrightarrow> om_venue m' = om_venue m
     \<and> (\<forall>t p s l. sl_state (sb_slots (om_layer_book m' t p s) l) = OM_kLive \<longrightarrow>
          sb_slots (om_layer_book m' t p s) l = sb_slots (om_layer_book m t p s) l)"

lemma live_kept_refl [simp]: "live_kept m m"
  by (simp add: live_kept_def)

lemma live_kept_trans: "live_kept m m' \<Longrightarrow> live_kept m' m'' \<Longrightarrow> live_kept m m''"
  by (auto simp: live_kept_def)

lemma live_kept_lots: "live_kept m m' \<Longrightarrow> lots_ok m t \<Longrightarrow> lots_ok m' t"
  by (simp add: live_kept_def lots_ok_def Let_def) metis

lemma live_kept_set:
  assumes "om_venue m' = om_venue m" "om_layer_book m' = set_side_book (om_layer_book m) t s p sb"
    and "\<And>l. sl_state (sb_slots sb l) = OM_kLive \<Longrightarrow> sb_slots sb l = sb_slots (om_book m t s p) l"
  shows "live_kept m m'"
  using assms by (auto simp: live_kept_def set_side_book_def side_book_def)

lemma process_new_live: "live_kept m (fst (process_new_order cfg t now a (m, ids)))"
proof (cases "tick_taken (om_book m t (an_side a) (an_position_side a)) (to_ticks_raw (rc_scale_int (cfg_reconciler cfg)) (an_price a)) (an_layer a)")
  case False
  then show ?thesis
    by (intro live_kept_set [where t = t and s = "an_side a" and p = "an_position_side a"
          and sb = "upd_slot (an_layer a) (\<lambda>s. s\<lparr>sl_price := an_price a, sl_qty := an_qty a, sl_cl_order_id := an_cl_order_id a,
              sl_state := OM_kReserved, sl_last_used := now\<rparr>) ((om_book m t (an_side a) (an_position_side a))
              \<lparr>sb_layer_ticks := (sb_layer_ticks (om_book m t (an_side a) (an_position_side a)))
                (an_layer a := to_ticks_raw (rc_scale_int (cfg_reconciler cfg)) (an_price a))\<rparr>)"])
      (auto simp: process_new_order_def Let_def split: if_splits)
qed (simp add: process_new_order_def)

lemma process_replace_live: "live_kept m (process_replace_order cfg t now a m)"
proof (cases "tick_taken (om_book m t (ar_side a) (ar_position_side a)) (to_ticks_raw (rc_scale_int (cfg_reconciler cfg)) (ar_price a)) (ar_layer a)")
  case False
  then show ?thesis
    by (intro live_kept_set [where t = t and s = "ar_side a" and p = "ar_position_side a"
          and sb = "replace_slot (cfg_reorder cfg) (to_ticks_raw (rc_scale_int (cfg_reconciler cfg)) (ar_price a)) now a (om_book m t (ar_side a) (ar_position_side a))"])
      (auto simp: process_replace_order_def Let_def replace_slot_slots split: if_splits)
qed (simp add: process_replace_order_def)

lemma live_kept_cancel:
  assumes "om_venue m' = om_venue m"
    and "om_layer_book m' = set_side_book (om_layer_book m) t s p (upd_slot l (\<lambda>s. s\<lparr>sl_state := OM_kCancelReserved, sl_last_used := now\<rparr>) (om_book m t s p))"
  shows "live_kept m m'"
  using assms by (rule live_kept_set) (auto split: if_splits)

lemma process_cancel_live: "live_kept m (process_cancel_order t now a m)"
  by (rule live_kept_cancel) (simp_all add: process_cancel_order_def Let_def)

lemma sweep_key_live: "live_kept m (sweep_key now k m)"
proof (cases "sweep_key now k m = m")
  case False
  then show ?thesis
    by (intro live_kept_cancel [where t = "ek_symbol k" and s = "ek_side k" and p = "ek_position_side k" and l = "ek_layer k" and now = now])
      (auto simp: sweep_key_def Let_def split: if_splits)
qed simp

lemma fold_live: "(\<And>x m. live_kept m (f x m)) \<Longrightarrow> live_kept m (fold f xs m)"
  by (induction xs arbitrary: m) (auto intro: live_kept_trans)

lemma fold_new_live: "live_kept (fst st) (fst (fold (process_new_order cfg t now) xs st))"
proof (induction xs arbitrary: st)
  case (Cons x xs)
  show ?case using live_kept_trans [OF process_new_live [of "fst st" cfg t now x "snd st"]] Cons [of "process_new_order cfg t now x st"] by simp
qed simp

lemma sweep_live: "live_kept m (sweep_expired_orders now m)"
proof -
  have e: "live_kept m (m\<lparr>om_expiry := e\<rparr>)" for e by (simp add: live_kept_def)
  show ?thesis by (simp add: sweep_expired_orders_def case_prod_beta live_kept_trans [OF e fold_live] sweep_key_live)
qed

lemma apply_live:
  assumes "om_apply cfg risk now id_now intents m = Some (m', ids)"
  shows "live_kept m m'"
proof (cases intents)
  case Nil
  then show ?thesis using assms sweep_live by (auto simp: om_apply_def)
next
  case (Cons i rest)
  obtain t a m1 where p: "process_new_orders cfg t a now m = (m1, ids)"
    and m': "m' = sweep_expired_orders now (process_cancel_orders t a now (process_replace_orders cfg t a now m1))"
    using assms by (auto simp: om_apply_def Cons Let_def split: option.splits prod.splits)
  have "live_kept m m1" using fold_new_live [of "(m, [])" cfg t now "news a"] p by (simp add: process_new_orders_def)
  moreover have "live_kept m1 (process_replace_orders cfg t a now m1)" by (simp add: process_replace_orders_def fold_live process_replace_live)
  moreover have "live_kept x (process_cancel_orders t a now x)" for x by (simp add: process_cancel_orders_def fold_live process_cancel_live)
  ultimately show ?thesis unfolding m' using sweep_live live_kept_trans by metis
qed

definition reached :: "OMConfig \<Rightarrow> string \<Rightarrow> OrderManager \<Rightarrow> OrderManager \<Rightarrow> bool" where
  "reached cfg t m0 m \<longleftrightarrow> (om_step cfg t)\<^sup>*\<^sup>* m0 m \<and> lots_ok m t"

lemma apply_reached:
  assumes "om_apply cfg risk now id_now intents m = Some (m', ids)" "reached cfg t m0 m"
    and "intents = [] \<or> (\<exists>i. intents = [i] \<and> qi_ticker i = t \<and> side_ok (qi_side i) (qi_position_side i))"
  shows "reached cfg t m0 m'"
  using apply_steps [OF assms(1), of t] assms(2,3) live_kept_lots [OF apply_live [OF assms(1)]]
  by (auto simp: reached_def)

interpretation apply_sink: order_sink "\<lambda>now. om_apply cfg (risk now) now (id_of now)" "reached cfg t m0" t
  for cfg :: OMConfig and risk :: "u64 \<Rightarrow> string \<rightharpoonup> RiskInfo" and id_of :: "u64 \<Rightarrow> u64" and t :: string and m0 :: OrderManager
  by unfold_locales (rule apply_reached, assumption+, auto simp: side_ok_def pos_idx_def)+


text \<open>
  A trade that ends an oversold excursion, with a stable bid wall: the strategy enters, the order manager reserves the quantity
  and sends one order.
\<close>

definition armed_state :: MeanReversionMaker where
  "armed_state = demo_state\<lparr>mm_ticker := ''BTCUSDC''\<rparr>"

lemma armed_run:
  "case on_trade_updated demo_strategy_cfg (om_apply demo_cfg demo_risk 5 5) 5 (demo_trade 90000 100) demo_view (armed_state, OrderManager_new demo_venue 10 100) of
     None \<Rightarrow> False
   | Some (s', m') \<Rightarrow> po_status (mm_long_position s') = Pos_kPending \<and> om_reserved m' = 10 \<and> length (om_sent m') = 1"
  by code_simp



end
