(* ===== verification/Spec2Isabelle.thy ===== *)
theory Spec2Isabelle
  imports SPSC_Threads MPSC_Faults Book_Variants Order_Manager_Props Market_Consumer Trade_Engine Price_Qty_Array Md_Feed Sbe_Props Strategy_Orders
begin

text \<open>
  A verification development for the trading engine under \<^verbatim>\<open>src/hft\<close>.

  \<^bold>\<open>The program.\<close> The engine keeps an order book from an exchange feed, lets a strategy quote on it and manages the orders.
  \<^item> The market data application (\<^verbatim>\<open>core/websocket/market_data\<close>) decodes the payloads of the exchange, with a single-pass decoder for
    futures and a binary one for spot, and converts them into updates.
  \<^item> The market data consumer (\<^verbatim>\<open>src/market_consumer.hpp\<close>) synchronises the depth stream with snapshots and enqueues gap-free
    updates for the trade engine.
  \<^item> The trade engine (\<^verbatim>\<open>src/trade_engine.hpp\<close>) drains two single-producer single-consumer queues: market data, which it
    applies to the order book (\<^verbatim>\<open>src/order_book.hpp\<close>), and exchange responses, which it gives to the position keeper
    (\<^verbatim>\<open>src/position_keeper.cpp\<close>), the strategy and the order manager.
  \<^item> The mean-reversion strategy (\<^verbatim>\<open>src/strategy/mean_reversion_maker\<close>) follows prices, walls and the imbalance of the book, and sends
    entry and exit intents to the order manager; the feature engine (\<^verbatim>\<open>src/feature_engine.hpp\<close>) keeps the statistics of trades.
  \<^item> The order manager (\<^verbatim>\<open>src/order_manager.hpp\<close>) turns quote intents into new, replace and cancel requests: the quote
    reconciler (\<^verbatim>\<open>src/quote_reconciler.h\<close>) compares them with the working orders of the layer book (\<^verbatim>\<open>src/layer_book.h\<close>), venue
    policy and risk manager (\<^verbatim>\<open>src/risk_manager.cpp\<close>) filter them, the reserved-position tracker and the expiry manager follow
    them, and the order state manager (\<^verbatim>\<open>src/order_state_manager.cpp\<close>) applies execution reports to them.
  \<^item> The order gateway (\<^verbatim>\<open>src/order_gateway.hpp\<close>) with the websocket application, encoders, decoders and dispatchers
    (\<^verbatim>\<open>core/websocket/order_entry\<close>) sends the requests and returns what the exchange answers.
  \<^item> Queues, pools and fixed-point numbers are in \<^verbatim>\<open>common\<close>.

  \<^bold>\<open>Theories and what they model.\<close>
  \<^item> \<open>HFT_Prelude\<close>, \<open>HFT_Types\<close>, \<open>Bit_Scan\<close>: machine integers, loops with an early exit, the enumerations and records of
    \<^verbatim>\<open>common/types.h\<close>, \<^verbatim>\<open>core/order_entry.h\<close> and \<^verbatim>\<open>core/market_data.h\<close>, and the bit-counting instructions.
  \<^item> \<open>SPSC_Queue\<close>, \<open>SPSC_Threads\<close>: \<^verbatim>\<open>common/spsc_queue.h\<close>, as operations run to completion and as two threads whose steps
    are single atomic accesses (\<open>spsc_step\<close>). \<open>Mem_Pool\<close>: \<^verbatim>\<open>common/memory_pool.hpp\<close>. The contracts their clients use are the
    locales \<open>bounded_fifo\<close> and \<open>allocator\<close>, interpreted on these definitions as \<open>ring\<close> and \<open>pool\<close>.
    \<open>MPSC_Queue\<close>, \<open>MPSC_Props\<close>, \<open>MPSC_Faults\<close>: \<^verbatim>\<open>common/mpsc_queue_cas.hpp\<close> with any number of producer threads, again by single
    accesses (\<open>mq_event_step\<close>); its invariant, and executions in which chunk reclamation goes wrong.
  \<^item> \<open>Fixed_Point\<close>: \<^verbatim>\<open>common/fixed_point.hpp\<close>, parsing, the two printers, arithmetic.
  \<^item> \<open>Book_Common\<close>, \<open>Level_Search\<close>: what both order books share and the searches over bitmaps of price levels.
    \<open>Bucket_Book\<close>, \<open>Bucket_Book_Inv\<close>, \<open>Bucket_Book_Correct\<close>, \<open>Bucket_Peek\<close>: the book in pooled buckets.
    \<open>Flat_Book\<close>, \<open>Flat_Book_Correct\<close>, \<open>Flat_Peek\<close>: the flat book. \<open>Book_Variants\<close>: the locale \<open>feed_handler\<close>, what either promises the
    feed, interpreted on both.
  \<^item> \<open>Market_Consumer\<close>: \<^verbatim>\<open>market_consumer.hpp\<close>, \<^verbatim>\<open>market_consumer_recovery.hpp\<close>, \<^verbatim>\<open>market_data_protocol_policy.h\<close>, \<^verbatim>\<open>depth_validator.h\<close>;
    one input is one decoded message (\<open>mc_handle\<close>).
  \<^item> \<open>Layer_Book\<close>, \<open>Order_State\<close>, \<open>Order_Expiry\<close>, \<open>Position_Keeper\<close>, \<open>Risk_Manager\<close>, \<open>Quote_Reconciler\<close>: one theory for each file of the
    same name; \<open>Order_State\<close> also has the reserved-position tracker. \<open>Order_Expiry\<close> has the locale \<open>min_queue\<close>, what the
    manager relies on of \<^verbatim>\<open>std::priority_queue\<close>, interpreted on the sorted list that models it.
  \<^item> \<open>Order_Manager\<close>: every operation of \<^verbatim>\<open>order_manager.hpp\<close> on a record with the layer book, the venue policy, the reserved
    quantity, the expiry queue and the requests sent so far. \<open>Order_Manager_Inv\<close>: its invariant. \<open>Order_Manager_Steps\<close>: the step
    relation \<open>om_step\<close>. \<open>Order_Manager_Props\<close>: risk limits, expiry, refused replaces.
  \<^item> \<open>Order_Requests\<close>, \<open>Ws_Orders\<close>, \<open>Order_Gateway\<close>, \<open>Order_Dispatch\<close>: request structures and encoders, \<^verbatim>\<open>ws_order_manager.hpp\<close> and the
    mappers, the gateway with the response pools and queue, the decoders and routers, and the step relation \<open>gw_step\<close>.
  \<^item> \<open>Onepass_Decoder\<close>, \<open>Price_Qty_Array\<close>: the single-pass decoder and the level readers of the schema, on lists of characters.
    \<open>Md_Converter\<close>, \<open>Md_Feed\<close>: the domain converters and routers of both venues with their pool, and the way of a payload from the
    socket to the book. \<open>Sbe_Decoder\<close>, \<open>Sbe_Props\<close>: the binary decoder (\<^verbatim>\<open>binance_sbe_ops.h\<close>, \<^verbatim>\<open>sbe_md_decoder.hpp\<close>) on strings of bytes.
  \<^item> \<open>Signal_Scale\<close>, \<open>Robust_Zscore\<close>, \<open>Wall_Detector\<close>, \<open>Feature_Engine\<close>: the scales, and one theory for each file of the same name
    (\<open>Wall_Detector\<close> also has \<^verbatim>\<open>dynamic_wall_threshold.h\<close>). \<open>Mean_Reversion_Signals\<close>: phases, scores and adverse selection of
    \<^verbatim>\<open>mean_reversion_maker.h\<close>. \<open>Mean_Reversion\<close>: its state, entries, exits and callbacks, over a view of the order book and a call of the
    order manager. \<open>Mean_Reversion_Props\<close>, \<open>Mean_Reversion_Runs\<close>: runs of events, their properties, and the strategy on the bucketed book.
    \<open>Strategy_Orders\<close>: the locale \<open>order_sink\<close>, what the strategy may do to whatever takes its intents, interpreted as \<open>apply_sink\<close> on
    \<open>om_apply\<close> of the order manager.
  \<^item> \<open>Trade_Engine\<close>: responses, market data messages and the batch loops of \<^verbatim>\<open>run\<close>, and the properties that span the order
    manager, the gateway and the engine.

  \<^bold>\<open>Conventions.\<close> An \<^verbatim>\<open>int64_t\<close> is an \<^typ>\<open>int\<close>; every stored result is narrowed by \<open>i64\<close>, so wrap-around is visible. A
  \<^verbatim>\<open>uint64_t\<close> is a 64-bit word. A \<^verbatim>\<open>FixedPoint\<close> is its raw value. Fixed-size arrays are functions on the index, hash maps are maps,
  a layer or level of \<open>-1\<close> is \<^term>\<open>None\<close> where the code treats it as absence. An exception, a null dereference, a division
  by zero or undefined behaviour is the value \<^term>\<open>None\<close> of the operation. Bid and ask halves that differ only in direction are one
  definition with a direction argument. Template and preprocessor choices are arguments (\<open>search_dir\<close>, \<open>Exchange\<close>, \<open>cfg_reorder\<close>).
  Clock readings, configuration values, the outcome of a write, the JSON reader, conversions from and to \<^verbatim>\<open>double\<close> and, in the
  trade engine, the callback of the strategy are arguments as well; \<open>dbl_laws\<close> is the one hypothesis made on them.

  \<^bold>\<open>What is shown.\<close>
  \<^item> Queues and pools: every interleaving of the two threads delivers each element once and in order and never touches one
    slot from both sides; the ring refines a bounded list for every counter position; a pool hands out only dead bins
    and takes back only live ones. The multi-producer queue is first-in first-out per claim and loses no call, but its reference
    counts do not keep chunks alive.
  \<^item> Order books: both layouts publish the best bid and ask of a plain replay of the feed, agree with each other, and list the best
    levels in their depth queries; a stale cache after a clear and the undefined shift of the flat book are shown as
    they are.
  \<^item> Feed: what is delivered between two snapshots has no gap, whatever arrives; two defects of the recovery.
  \<^item> Orders: in every reachable state the reserved quantity is that of the open slots; a call of \<^verbatim>\<open>apply\<close> is a sequence of
    consistent steps and cannot crash under stated conditions; kept actions respect the risk limits cumulatively; due
    orders are cancelled; a refused replace is undone; layer planning, diff, venue rounding and time filter on every branch.
  \<^item> Positions: over one-way fills the reported profit follows the cash flow up to the rounding of closing fills; a fill
    moves exposure from reserved to position and nothing else; hedge-mode accounting with its defects.
  \<^item> Order entry: a refused spot order is undone end to end and its report block is returned; request ids round trip on
    spot and never on futures, so futures refusals are lost; the cancel-and-reorder table is never filled; a batch loop
    drops a message that arrives while it drains a full ring.
  \<^item> Market data: the decoder reads back every message in the documented format, both level readers agree, decoding and applying
    depth payloads publishes the BBO of the replay and leaks no block; misread payloads and snapshots that keep stale levels.
    The binary decoder reads back every message of its format, and reads outside the payload in exactly the three cases stated.
  \<^item> Strategy: the state stays well formed over every run, and all the order manager does for it is a sequence of consistent
    steps; an entry needs a full excursion of the z-scores and passes all its
    guards; z-score, wall search, volume-weighted price and imbalance agree with plain definitions; scores are normalised; sides that
    can never move again, the gated stop loss and the undefined callback on a one-sided book are shown as they are.
  \<^item> Fixed-point numbers: the printers agree, printing and parsing round trip, and the error of the reciprocal product is bounded.

  \<^bold>\<open>Termination and bounds.\<close> No definition needs fuel: loops recurse on the data or on a measure proved to decrease (the distance to
  the end of the bitmap, the elements left in the ring, the digits left); threads are step relations. The loop of the expiry sweep is bounded by the
  number of keys, one of which each round removes. Theorems that need ranges state them: prices and quantities of \<open>net_pnl_tracks_cash\<close>,
  at most 256 buckets for the bucketed book (the size of its pool), pools of fewer than \<open>2 ^ 32 - 1\<close> elements.

  \<^bold>\<open>Not modelled.\<close> The directional strategy, the inventory manager and the parts of the feature engine in \<^verbatim>\<open>double\<close>; the
  generic JSON decoders, which are library code; FIX, transports, TLS, HTTP, files, logging, threads, CPU placement, configuration files and process start-up,
  which are input and output or library code; the retry loops of the lock-free pool under contention; the destructor of the multi-producer queue; \<^verbatim>\<open>trade_order\<close> of the
  books, which has no caller; debug output. The manifest lists them with their files.
\<close>

end
